(* ===== verification/Base.thy ===== *)
theory Base
  imports Main "HOL-Library.List_Lexorder" "HOL-Library.Char_ord" "HOL-Library.Product_Lexorder"
begin

text \<open>
  The prelude of the development: exceptions as values, stateful code as functions from a state
  to an outcome and the next state, the Python text operations the modelled code uses, JSON
  values, and the generic locales (invariants of a machine, of a step relation, progress of a step
  relation) that the component theories interpret.

  Text is a list of characters with codes below 256; \<open>length\<close> counts code points, as Python's
  \<open>len\<close> does.  Case mapping acts on the ASCII letters, white space is what \<open>str.strip\<close> removes
  in that range.
\<close>

section \<open>Named collections\<close>

named_theorems act_simps \<open>unfolding of the combinators for stateful code\<close>
named_theorems act_rules \<open>rules for the triples of stateful code\<close>
named_theorems text_simps \<open>evaluation of the text operations\<close>

section \<open>Stateful code that may raise\<close>

text \<open>
  A Python statement that reads and writes a state and may raise is a function from the state
  to its outcome, \<open>Inl\<close> of the exception or \<open>Inr\<close> of the result, and the state it leaves
  behind: what was written before an exception stays written.
\<close>

type_synonym ('s, 'e, 'a) act = "'s \<Rightarrow> ('e + 'a) \<times> 's"

definition act_ret :: "'a \<Rightarrow> ('s, 'e, 'a) act" where
  "act_ret a = (\<lambda>s. (Inr a, s))"

definition act_raise :: "'e \<Rightarrow> ('s, 'e, 'a) act" where
  "act_raise e = (\<lambda>s. (Inl e, s))"

definition act_bind :: "('s, 'e, 'a) act \<Rightarrow> ('a \<Rightarrow> ('s, 'e, 'b) act) \<Rightarrow> ('s, 'e, 'b) act" where
  "act_bind m f = (\<lambda>s. case m s of (Inl e, t) \<Rightarrow> (Inl e, t) | (Inr a, t) \<Rightarrow> f a t)"

definition act_then :: "('s, 'e, 'a) act \<Rightarrow> ('s, 'e, 'b) act \<Rightarrow> ('s, 'e, 'b) act" where
  "act_then m n = act_bind m (\<lambda>_. n)"

definition act_catch :: "('s, 'e, 'a) act \<Rightarrow> ('e \<Rightarrow> ('s, 'e, 'a) act) \<Rightarrow> ('s, 'e, 'a) act" where
  "act_catch m h = (\<lambda>s. case m s of (Inl e, t) \<Rightarrow> h e t | (Inr a, t) \<Rightarrow> (Inr a, t))"

text \<open>\<open>try: x = m  except e: bad  else: ok\<close>; what \<open>bad\<close> and \<open>ok\<close> raise is not caught.\<close>

definition act_try ::
  "('s, 'e, 'a) act \<Rightarrow> ('a \<Rightarrow> ('s, 'e, 'b) act) \<Rightarrow> ('e \<Rightarrow> ('s, 'e, 'b) act) \<Rightarrow> ('s, 'e, 'b) act" where
  "act_try m ok bad = (\<lambda>s. case m s of (Inl e, t) \<Rightarrow> bad e t | (Inr a, t) \<Rightarrow> ok a t)"

definition act_modify :: "('s \<Rightarrow> 's) \<Rightarrow> ('s, 'e, unit) act" where
  "act_modify f = (\<lambda>s. (Inr (), f s))"

definition act_get :: "('s \<Rightarrow> 'a) \<Rightarrow> ('s, 'e, 'a) act" where
  "act_get f = (\<lambda>s. (Inr (f s), s))"

definition act_when :: "bool \<Rightarrow> ('s, 'e, unit) act \<Rightarrow> ('s, 'e, unit) act" where
  "act_when b m = (if b then m else act_ret ())"

text \<open>A computed outcome, \<open>Inl\<close> of what was raised, as a statement that leaves the state alone.\<close>

definition act_lift :: "'e + 'a \<Rightarrow> ('s, 'e, 'a) act" where
  "act_lift r = (case r of Inl e \<Rightarrow> act_raise e | Inr a \<Rightarrow> act_ret a)"

fun act_each :: "('a \<Rightarrow> ('s, 'e, unit) act) \<Rightarrow> 'a list \<Rightarrow> ('s, 'e, unit) act" where
  "act_each f [] = act_ret ()"
| "act_each f (x # xs) = act_then (f x) (act_each f xs)"

lemmas act_defs [act_simps] =
  act_ret_def act_raise_def act_bind_def act_then_def act_catch_def act_try_def act_modify_def act_get_def
  act_when_def

lemma act_bind_simps [simp]:
  "act_bind (act_ret a) f = f a"
  "act_bind (act_raise e) f = act_raise e"
  by (auto simp: act_defs)

lemma act_catch_simps [simp]:
  "act_catch (act_ret a) h = act_ret a"
  "act_catch (act_raise e) h = h e"
  by (auto simp: act_defs)

lemma act_bind_assoc: "act_bind (act_bind m f) g = act_bind m (\<lambda>a. act_bind (f a) g)"
  by (auto simp: act_bind_def fun_eq_iff split: prod.splits sum.splits)

subsection \<open>Triples\<close>

text \<open>
  \<open>act_triple P m Q E\<close>: started in a state with \<open>P\<close>, the code either returns \<open>a\<close> in a state
  with \<open>Q a\<close> or raises \<open>e\<close> in a state with \<open>E e\<close>.
\<close>

definition act_triple ::
  "('s \<Rightarrow> bool) \<Rightarrow> ('s, 'e, 'a) act \<Rightarrow> ('a \<Rightarrow> 's \<Rightarrow> bool) \<Rightarrow> ('e \<Rightarrow> 's \<Rightarrow> bool) \<Rightarrow> bool" where
  "act_triple P m Q E \<longleftrightarrow>
     (\<forall>s. P s \<longrightarrow> (case m s of (Inl e, t) \<Rightarrow> E e t | (Inr a, t) \<Rightarrow> Q a t))"

abbreviation act_keeps :: "('s \<Rightarrow> bool) \<Rightarrow> ('s, 'e, 'a) act \<Rightarrow> bool" where
  "act_keeps P m \<equiv> act_triple P m (\<lambda>_. P) (\<lambda>_. P)"

lemma act_tripleI:
  assumes "\<And>s a t. P s \<Longrightarrow> m s = (Inr a, t) \<Longrightarrow> Q a t"
    and "\<And>s e t. P s \<Longrightarrow> m s = (Inl e, t) \<Longrightarrow> E e t"
  shows "act_triple P m Q E"
  using assms by (fastforce simp: act_triple_def split: prod.splits sum.splits)

lemma act_triple_retD: "act_triple P m Q E \<Longrightarrow> P s \<Longrightarrow> m s = (Inr a, t) \<Longrightarrow> Q a t"
  by (fastforce simp: act_triple_def)

lemma act_triple_raiseD: "act_triple P m Q E \<Longrightarrow> P s \<Longrightarrow> m s = (Inl e, t) \<Longrightarrow> E e t"
  by (fastforce simp: act_triple_def)

lemma act_keepsD: "act_keeps P m \<Longrightarrow> P s \<Longrightarrow> P (snd (m s))"
  by (cases "m s"; cases "fst (m s)") (auto dest: act_triple_retD act_triple_raiseD)

lemma act_triple_conseq:
  assumes "act_triple P' m Q' E'" and "\<And>s. P s \<Longrightarrow> P' s"
    and "\<And>a s. Q' a s \<Longrightarrow> Q a s" and "\<And>e s. E' e s \<Longrightarrow> E e s"
  shows "act_triple P m Q E"
  by (rule act_tripleI) (use assms in \<open>blast dest: act_triple_retD act_triple_raiseD\<close>)+

lemma act_triple_ret [act_rules]: "(\<And>s. P s \<Longrightarrow> Q a s) \<Longrightarrow> act_triple P (act_ret a) Q E"
  by (auto simp: act_triple_def act_ret_def)

lemma act_triple_raise [act_rules]: "(\<And>s. P s \<Longrightarrow> E e s) \<Longrightarrow> act_triple P (act_raise e) Q E"
  by (auto simp: act_triple_def act_raise_def)

lemma act_triple_bind [act_rules]:
  assumes "act_triple P m R E" and "\<And>a. act_triple (R a) (f a) Q E"
  shows "act_triple P (act_bind m f) Q E"
  using assms by (fastforce simp: act_triple_def act_bind_def split: prod.splits sum.splits)

lemma act_triple_then [act_rules]:
  assumes "act_triple P m (\<lambda>_. R) E" and "act_triple R n Q E"
  shows "act_triple P (act_then m n) Q E"
  unfolding act_then_def by (rule act_triple_bind [OF assms(1)]) (rule assms(2))

lemma act_triple_catch [act_rules]:
  assumes "act_triple P m Q R" and "\<And>e. act_triple (R e) (h e) Q E"
  shows "act_triple P (act_catch m h) Q E"
  using assms by (fastforce simp: act_triple_def act_catch_def split: prod.splits sum.splits)

lemma act_triple_try [act_rules]:
  assumes "act_triple P m R R'" and "\<And>a. act_triple (R a) (ok a) Q E" and "\<And>e. act_triple (R' e) (bad e) Q E"
  shows "act_triple P (act_try m ok bad) Q E"
  unfolding act_triple_def act_try_def
proof (intro allI impI)
  fix s assume "P s"
  obtain r t where m: "m s = (r, t)" by (cases "m s")
  show "case case m s of (Inl e, t) \<Rightarrow> bad e t | (Inr a, t) \<Rightarrow> ok a t of
      (Inl e, t) \<Rightarrow> E e t | (Inr a, t) \<Rightarrow> Q a t"
  proof (cases r)
    case (Inl e)
    with m have "R' e t" by (intro act_triple_raiseD [OF assms(1) \<open>P s\<close>]) simp
    then show ?thesis using assms(3) [of e] m Inl by (simp add: act_triple_def)
  next
    case (Inr a)
    with m have "R a t" by (intro act_triple_retD [OF assms(1) \<open>P s\<close>]) simp
    then show ?thesis using assms(2) [of a] m Inr by (simp add: act_triple_def)
  qed
qed

lemma act_triple_modify [act_rules]:
  "(\<And>s. P s \<Longrightarrow> Q () (f s)) \<Longrightarrow> act_triple P (act_modify f) Q E"
  by (auto simp: act_triple_def act_modify_def)

lemma act_triple_get [act_rules]:
  "(\<And>s. P s \<Longrightarrow> Q (f s) s) \<Longrightarrow> act_triple P (act_get f) Q E"
  by (auto simp: act_triple_def act_get_def)

lemma act_triple_when [act_rules]:
  assumes "b \<Longrightarrow> act_triple P m Q E" and "\<And>s. \<not> b \<Longrightarrow> P s \<Longrightarrow> Q () s"
  shows "act_triple P (act_when b m) Q E"
  using assms by (cases b) (auto simp: act_when_def intro: act_triple_ret)

lemma act_triple_if [act_rules]:
  assumes "b \<Longrightarrow> act_triple P m Q E" and "\<not> b \<Longrightarrow> act_triple P n Q E"
  shows "act_triple P (if b then m else n) Q E"
  using assms by simp

lemma act_keeps_each [act_rules]:
  assumes "\<And>x. x \<in> set xs \<Longrightarrow> act_keeps P (f x)"
  shows "act_keeps P (act_each f xs)"
  using assms by (induction xs) (auto intro!: act_rules)

text \<open>
  Code that keeps a property of the state, whether it returns or raises: the rules follow the
  structure of the code and have no side conditions besides those of its writes.
\<close>

named_theorems keeps_rules \<open>rules for code that keeps a property of the state\<close>

lemma act_keepsI: "(\<And>s. P s \<Longrightarrow> P (snd (m s))) \<Longrightarrow> act_keeps P m"
  by (rule act_tripleI) (metis snd_conv)+

lemma act_keeps_ret [keeps_rules]: "act_keeps P (act_ret a)"
  and act_keeps_raise [keeps_rules]: "act_keeps P (act_raise e)"
  and act_keeps_get [keeps_rules]: "act_keeps P (act_get f)"
  by (auto intro!: act_rules)

lemma act_lift_keeps [keeps_rules]: "act_keeps P (act_lift r)"
  by (cases r) (auto simp: act_lift_def intro: keeps_rules)

lemma act_keeps_bind [keeps_rules]:
  "act_keeps P m \<Longrightarrow> (\<And>a. act_keeps P (f a)) \<Longrightarrow> act_keeps P (act_bind m f)"
  by (rule act_triple_bind)

lemma act_keeps_then [keeps_rules]: "act_keeps P m \<Longrightarrow> act_keeps P n \<Longrightarrow> act_keeps P (act_then m n)"
  by (rule act_triple_then)

lemma act_keeps_catch [keeps_rules]:
  "act_keeps P m \<Longrightarrow> (\<And>e. act_keeps P (h e)) \<Longrightarrow> act_keeps P (act_catch m h)"
  by (rule act_triple_catch)

lemma act_keeps_try [keeps_rules]:
  assumes "act_keeps P m" and "\<And>a. act_keeps P (ok a)" and "\<And>e. act_keeps P (bad e)"
  shows "act_keeps P (act_try m ok bad)"
proof (rule act_keepsI)
  fix s assume "P s"
  obtain r t where m: "m s = (r, t)" by (cases "m s")
  have "P t" using act_keepsD [OF assms(1) \<open>P s\<close>] m by simp
  then show "P (snd (act_try m ok bad s))"
    using assms(2,3) by (cases r) (auto simp: act_try_def m dest: act_keepsD)
qed

lemma act_keeps_modify [keeps_rules]: "(\<And>s. P s \<Longrightarrow> P (f s)) \<Longrightarrow> act_keeps P (act_modify f)"
  by (rule act_triple_modify)

lemma act_keeps_when [keeps_rules]: "(b \<Longrightarrow> act_keeps P m) \<Longrightarrow> act_keeps P (act_when b m)"
  by (rule act_triple_when)

lemma act_keeps_if [keeps_rules]:
  "(b \<Longrightarrow> act_keeps P m) \<Longrightarrow> (\<not> b \<Longrightarrow> act_keeps P n) \<Longrightarrow> act_keeps P (if b then m else n)"
  by (rule act_triple_if)

lemma act_keeps_each' [keeps_rules]: "(\<And>x. act_keeps P (f x)) \<Longrightarrow> act_keeps P (act_each f xs)"
  by (rule act_keeps_each)

lemma act_keeps_let [keeps_rules]: "act_keeps P (m v) \<Longrightarrow> act_keeps P (let x = v in m x)"
  by simp

subsection \<open>Weakest preconditions\<close>

text \<open>
  \<open>act_wp m Q E s\<close>: run from \<open>s\<close>, the code returns with \<open>Q\<close> or raises with \<open>E\<close>.  The rules in
  \<open>wp_simps\<close> push it through the combinators; each operation of the stores has a rule in
  \<open>wp_rules\<close> that gives the conditions on the states it can leave.
\<close>

named_theorems wp_simps \<open>weakest preconditions of the combinators\<close>
named_theorems wp_rules \<open>introduction rules for weakest preconditions\<close>

definition act_wp ::
  "('s, 'e, 'a) act \<Rightarrow> ('a \<Rightarrow> 's \<Rightarrow> bool) \<Rightarrow> ('e \<Rightarrow> 's \<Rightarrow> bool) \<Rightarrow> 's \<Rightarrow> bool" where
  "act_wp m Q E s \<longleftrightarrow> (case m s of (Inl e, t) \<Rightarrow> E e t | (Inr a, t) \<Rightarrow> Q a t)"

lemma act_triple_wp: "act_triple P m Q E \<longleftrightarrow> (\<forall>s. P s \<longrightarrow> act_wp m Q E s)"
  by (simp add: act_triple_def act_wp_def)

lemma act_wp_retD: "act_wp m Q E s \<Longrightarrow> m s = (Inr a, t) \<Longrightarrow> Q a t"
  by (simp add: act_wp_def)

lemma act_wp_raiseD: "act_wp m Q E s \<Longrightarrow> m s = (Inl e, t) \<Longrightarrow> E e t"
  by (simp add: act_wp_def)

lemma act_wp_raises: "act_wp m (\<lambda>_ _. False) (\<lambda>e _. e = x) s \<Longrightarrow> fst (m s) = Inl x"
  by (cases "m s"; cases "fst (m s)") (simp_all add: act_wp_def)

lemma act_wp_fst: "act_wp m (\<lambda>a _. Q a) (\<lambda>_ _. True) s \<Longrightarrow> fst (m s) = Inr a \<Longrightarrow> Q a"
  by (cases "m s") (simp add: act_wp_def)

lemma act_wpI:
  assumes "\<And>a t. m s = (Inr a, t) \<Longrightarrow> Q a t" and "\<And>e t. m s = (Inl e, t) \<Longrightarrow> E e t"
  shows "act_wp m Q E s"
  using assms by (auto simp: act_wp_def split: prod.splits sum.splits)

lemma act_wp_conseq:
  assumes "act_wp m Q' E' s" and "\<And>a t. Q' a t \<Longrightarrow> Q a t" and "\<And>e t. E' e t \<Longrightarrow> E e t"
  shows "act_wp m Q E s"
  using assms by (auto simp: act_wp_def split: prod.splits sum.splits)

lemma act_wp_ret [wp_simps]: "act_wp (act_ret a) Q E = Q a"
  by (auto simp: act_wp_def act_defs fun_eq_iff split: prod.splits sum.splits)

lemma act_wp_raise [wp_simps]: "act_wp (act_raise e) Q E = E e"
  by (auto simp: act_wp_def act_defs fun_eq_iff split: prod.splits sum.splits)

lemma act_wp_bind [wp_simps]: "act_wp (act_bind m f) Q E = act_wp m (\<lambda>a. act_wp (f a) Q E) E"
  by (auto simp: act_wp_def act_defs fun_eq_iff split: prod.splits sum.splits)

lemma act_wp_then [wp_simps]: "act_wp (act_then m n) Q E = act_wp m (\<lambda>_. act_wp n Q E) E"
  by (auto simp: act_wp_def act_defs fun_eq_iff split: prod.splits sum.splits)

lemma act_wp_catch [wp_simps]: "act_wp (act_catch m h) Q E = act_wp m Q (\<lambda>e. act_wp (h e) Q E)"
  by (auto simp: act_wp_def act_defs fun_eq_iff split: prod.splits sum.splits)

lemma act_wp_try [wp_simps]: "act_wp (act_try m ok bad) Q E = act_wp m (\<lambda>a. act_wp (ok a) Q E) (\<lambda>e. act_wp (bad e) Q E)"
  by (auto simp: act_wp_def act_defs fun_eq_iff split: prod.splits sum.splits)

lemma act_wp_modify [wp_simps]: "act_wp (act_modify f) Q E = (\<lambda>s. Q () (f s))"
  by (auto simp: act_wp_def act_defs fun_eq_iff split: prod.splits sum.splits)

lemma act_wp_get [wp_simps]: "act_wp (act_get f) Q E = (\<lambda>s. Q (f s) s)"
  by (auto simp: act_wp_def act_defs fun_eq_iff split: prod.splits sum.splits)

lemma act_wp_when [wp_simps]:
  "act_wp (act_when b m) Q E s \<longleftrightarrow> (if b then act_wp m Q E s else Q () s)"
  by (auto simp: act_wp_def act_defs)

lemma act_wp_if [wp_simps]:
  "act_wp (if b then m else n) Q E s \<longleftrightarrow> (if b then act_wp m Q E s else act_wp n Q E s)"
  by simp

lemma act_wp_option [wp_simps]:
  "act_wp (case x of None \<Rightarrow> m | Some y \<Rightarrow> n y) Q E s \<longleftrightarrow>
     (case x of None \<Rightarrow> act_wp m Q E s | Some y \<Rightarrow> act_wp (n y) Q E s)"
  by (simp split: option.split)

lemma act_wp_sum [wp_simps]:
  "act_wp (case x of Inl y \<Rightarrow> m y | Inr z \<Rightarrow> n z) Q E s \<longleftrightarrow>
     (case x of Inl y \<Rightarrow> act_wp (m y) Q E s | Inr z \<Rightarrow> act_wp (n z) Q E s)"
  by (simp split: sum.split)

lemma act_wp_lift [wp_simps]:
  "act_wp (act_lift r) Q E s \<longleftrightarrow> (case r of Inl e \<Rightarrow> E e s | Inr a \<Rightarrow> Q a s)"
  by (simp add: act_lift_def wp_simps split: sum.split)

lemma act_wp_let [wp_simps]: "act_wp (let x = v in m x) Q E s \<longleftrightarrow> act_wp (m v) Q E s"
  by (simp add: Let_def)

section \<open>Machines and their invariants\<close>

text \<open>
  A deterministic component: a step function over events.  An invariant that every step keeps
  holds after every run.
\<close>

locale machine_invariant =
  fixes machine_step :: "'s \<Rightarrow> 'l \<Rightarrow> 's" and machine_inv :: "'s \<Rightarrow> bool"
  assumes step_keeps: "machine_inv s \<Longrightarrow> machine_inv (machine_step s l)"
begin

lemma run_keeps: "machine_inv s \<Longrightarrow> machine_inv (foldl machine_step s ls)"
  by (induction ls arbitrary: s) (auto intro: step_keeps)

lemma run_prefix_keeps: "machine_inv s \<Longrightarrow> machine_inv (foldl machine_step s (take n ls))"
  by (rule run_keeps)

end

text \<open>
  A component with choice: a step relation, whose reachable states are those of
  \<open>rtranclp\<close> from a start state.
\<close>

locale relation_invariant =
  fixes rel_step :: "'s \<Rightarrow> 's \<Rightarrow> bool" and rel_inv :: "'s \<Rightarrow> bool"
  assumes rel_keeps: "rel_inv s \<Longrightarrow> rel_step s t \<Longrightarrow> rel_inv t"
begin

lemma reach_keeps: "rel_step\<^sup>*\<^sup>* s t \<Longrightarrow> rel_inv s \<Longrightarrow> rel_inv t"
  by (induction rule: rtranclp_induct) (auto intro: rel_keeps)

end

text \<open>
  A relation between the state before and the state after that every step respects, reflexive
  and transitive: it relates the ends of every run.
\<close>

locale relation_progress =
  fixes rel_step :: "'s \<Rightarrow> 's \<Rightarrow> bool" and rel_inv :: "'s \<Rightarrow> bool" and rel_le :: "'s \<Rightarrow> 's \<Rightarrow> bool"
  assumes le_refl: "rel_le s s"
    and le_trans: "rel_le s t \<Longrightarrow> rel_le t u \<Longrightarrow> rel_le s u"
    and le_step: "rel_inv s \<Longrightarrow> rel_step s t \<Longrightarrow> rel_le s t"
    and inv_step: "rel_inv s \<Longrightarrow> rel_step s t \<Longrightarrow> rel_inv t"
begin

lemma reach_inv_le: "rel_step\<^sup>*\<^sup>* s t \<Longrightarrow> rel_inv s \<Longrightarrow> rel_inv t \<and> rel_le s t"
  by (induction rule: rtranclp_induct) (auto intro: le_refl le_trans le_step inv_step)

lemma reach_le: "rel_step\<^sup>*\<^sup>* s t \<Longrightarrow> rel_inv s \<Longrightarrow> rel_le s t"
  by (simp add: reach_inv_le)

end

end
