(* ===== verification/Py_Text.thy ===== *)
theory Py_Text
  imports Base
begin

text \<open>
  The Python string operations that the modelled code calls (\<open>strip\<close>, \<open>lower\<close>, \<open>upper\<close>,
  \<open>split\<close>, \<open>splitlines\<close>, \<open>join\<close>, \<open>replace\<close>, \<open>in\<close>, \<open>startswith\<close>, decimal rendering), JSON values
  as the code receives them, and \<open>workspace.clip\<close>, which the runtime uses everywhere.
\<close>

section \<open>Characters and white space\<close>

definition is_space :: "char \<Rightarrow> bool" where
  "is_space c \<longleftrightarrow>
     (let n = of_char c :: nat in
      (9 \<le> n \<and> n \<le> 13) \<or> (28 \<le> n \<and> n \<le> 32) \<or> n = 133 \<or> n = 160)"

definition py_strip :: "string \<Rightarrow> string" where
  "py_strip s = rev (dropWhile is_space (rev (dropWhile is_space s)))"

definition lower_char :: "char \<Rightarrow> char" where
  "lower_char c = (let n = of_char c :: nat in if 65 \<le> n \<and> n \<le> 90 then char_of (n + 32) else c)"

definition upper_char :: "char \<Rightarrow> char" where
  "upper_char c = (let n = of_char c :: nat in if 97 \<le> n \<and> n \<le> 122 then char_of (n - 32) else c)"

definition py_lower :: "string \<Rightarrow> string" where
  "py_lower s = map lower_char s"

definition py_upper :: "string \<Rightarrow> string" where
  "py_upper s = map upper_char s"

definition starts_with :: "string \<Rightarrow> string \<Rightarrow> bool" where
  "starts_with p s \<longleftrightarrow> take (length p) s = p"

definition ends_with :: "string \<Rightarrow> string \<Rightarrow> bool" where
  "ends_with p s \<longleftrightarrow> starts_with (rev p) (rev s)"

fun contains :: "string \<Rightarrow> string \<Rightarrow> bool" where
  "contains p [] \<longleftrightarrow> p = []"
| "contains p (c # cs) \<longleftrightarrow> starts_with p (c # cs) \<or> contains p cs"

text \<open>\<open>sep.join(parts)\<close>.\<close>

fun py_join :: "string \<Rightarrow> string list \<Rightarrow> string" where
  "py_join sep [] = []"
| "py_join sep [x] = x"
| "py_join sep (x # y # ys) = x @ sep @ py_join sep (y # ys)"

text \<open>\<open>text.replace(old, new)\<close> for a nonempty \<open>old\<close>: left to right, without overlap.\<close>

function py_replace :: "string \<Rightarrow> string \<Rightarrow> string \<Rightarrow> string" where
  "py_replace old new [] = []"
| "py_replace old new (c # cs) =
     (if old \<noteq> [] \<and> starts_with old (c # cs)
      then new @ py_replace old new (drop (length old) (c # cs))
      else c # py_replace old new cs)"
  by pat_completeness auto
termination
  by (relation "measure (\<lambda>(old, new, s). length s)") (auto simp: neq_Nil_conv)

text \<open>\<open>text.partition(sep)\<close> for a one-character separator: before, whether found, after.\<close>

definition py_partition :: "char \<Rightarrow> string \<Rightarrow> string \<times> bool \<times> string" where
  "py_partition c s =
     (if c \<in> set s then (takeWhile (\<lambda>x. x \<noteq> c) s, True, tl (dropWhile (\<lambda>x. x \<noteq> c) s))
      else (s, False, []))"

text \<open>\<open>text.splitlines()\<close>: a carriage return and a line feed together end one line.\<close>

definition is_line_end :: "char \<Rightarrow> bool" where
  "is_line_end c \<longleftrightarrow>
     (let n = of_char c :: nat in (10 \<le> n \<and> n \<le> 13) \<or> (28 \<le> n \<and> n \<le> 30) \<or> n = 133)"

fun splitlines_acc :: "string \<Rightarrow> string \<Rightarrow> string list" where
  "splitlines_acc [] acc = (if acc = [] then [] else [rev acc])"
| "splitlines_acc [c] acc = (if is_line_end c then [rev acc] else [rev (c # acc)])"
| "splitlines_acc (c # d # cs) acc =
     (if c = char_of (13::nat) \<and> d = char_of (10::nat) then rev acc # splitlines_acc cs []
      else if is_line_end c then rev acc # splitlines_acc (d # cs) []
      else splitlines_acc (d # cs) (c # acc))"

definition splitlines :: "string \<Rightarrow> string list" where
  "splitlines s = splitlines_acc s []"

fun nat_str :: "nat \<Rightarrow> string" where
  "nat_str n = (if n < 10 then [''0123456789'' ! n] else nat_str (n div 10) @ [''0123456789'' ! (n mod 10)])"

declare nat_str.simps [simp del]

definition int_str :: "int \<Rightarrow> string" where
  "int_str i = (if i < 0 then ''-'' @ nat_str (nat (- i)) else nat_str (nat i))"

definition nl :: string where
  "nl = [char_of (10::nat)]"

subsection \<open>Facts about the text operations\<close>

lemma py_strip_nil [simp]: "py_strip [] = []"
  by (simp add: py_strip_def)

lemma dropWhile_idem: "dropWhile P (dropWhile P xs) = dropWhile P xs"
  by (induction xs) auto

lemma hd_dropWhile_not: "dropWhile P xs \<noteq> [] \<Longrightarrow> \<not> P (hd (dropWhile P xs))"
  by (rule hd_dropWhile)

lemma dropWhile_id: "xs = [] \<or> \<not> P (hd xs) \<Longrightarrow> dropWhile P xs = xs"
  by (cases xs) auto

lemma dropWhile_rev_hd:
  assumes "xs \<noteq> []" and "\<not> P (hd xs)"
  shows "rev (dropWhile P (rev xs)) \<noteq> [] \<and> hd (rev (dropWhile P (rev xs))) = hd xs"
proof -
  from assms obtain y ys where xs: "xs = y # ys" "\<not> P y" by (cases xs) auto
  have "dropWhile P (rev ys @ [y]) \<noteq> []"
    using xs(2) by (simp add: dropWhile_eq_Nil_conv)
  moreover have "last (dropWhile P (rev ys @ [y])) = y"
    using xs(2) dropWhile_last [of y "rev ys @ [y]" P] by simp
  ultimately show ?thesis by (simp add: xs hd_rev)
qed

lemma py_strip_idem [simp]: "py_strip (py_strip s) = py_strip s"
proof (cases "dropWhile is_space s = []")
  case True
  have "py_strip s = []" unfolding py_strip_def True by simp
  then show ?thesis by simp
next
  case False
  have "\<not> is_space (hd (dropWhile is_space s))" using False by (rule hd_dropWhile)
  with dropWhile_rev_hd [OF False, of is_space] have
    "dropWhile is_space (py_strip s) = py_strip s"
    by (intro dropWhile_id) (simp add: py_strip_def)
  then show ?thesis by (simp add: py_strip_def dropWhile_idem)
qed

lemma length_py_strip: "length (py_strip s) \<le> length s"
  unfolding py_strip_def
  by (metis (no_types) length_dropWhile_le length_rev order_trans)

lemma starts_with_nil [simp]: "starts_with [] s"
  by (simp add: starts_with_def)

lemma starts_with_append [simp]: "starts_with p (p @ s)"
  by (simp add: starts_with_def)

lemma starts_withE: "starts_with p s \<Longrightarrow> (\<And>r. s = p @ r \<Longrightarrow> thesis) \<Longrightarrow> thesis"
  unfolding starts_with_def by (metis append_take_drop_id)

lemma starts_with_iff: "starts_with p s \<longleftrightarrow> (\<exists>r. s = p @ r)"
  by (auto elim: starts_withE)

lemma starts_with_set: "starts_with p s \<Longrightarrow> set p \<subseteq> set s"
  by (auto elim!: starts_withE)

lemma length_py_replace_delete: "length (py_replace old [] s) \<le> length s"
proof (induction old "[] :: string" s rule: py_replace.induct)
  case (2 old c cs)
  show ?case
  proof (cases "old \<noteq> [] \<and> starts_with old (c # cs)")
    case True
    with 2(1) have "length (py_replace old [] (drop (length old) (c # cs))) \<le> Suc (length cs)"
      by (metis (no_types, lifting) diff_le_self le_trans length_Cons length_drop)
    with True show ?thesis by simp
  next
    case False
    with 2(2) have "length (py_replace old [] cs) \<le> length cs" by blast
    then show ?thesis unfolding py_replace.simps using False by (simp only: if_False list.size)
  qed
qed simp

lemma contains_iff: "contains p s \<longleftrightarrow> (\<exists>a b. s = a @ p @ b)"
proof (induction s)
  case Nil
  then show ?case by auto
next
  case (Cons c cs)
  show ?case
  proof
    assume "contains p (c # cs)"
    then consider "starts_with p (c # cs)" | "contains p cs" by auto
    then show "\<exists>a b. c # cs = a @ p @ b"
    proof cases
      case 1
      then show ?thesis by (metis append_Nil starts_with_iff)
    next
      case 2
      with Cons.IH show ?thesis by (metis append_Cons)
    qed
  next
    assume "\<exists>a b. c # cs = a @ p @ b"
    then obtain a b where ab: "c # cs = a @ p @ b" by blast
    show "contains p (c # cs)"
    proof (cases a)
      case Nil
      with ab have "starts_with p (c # cs)" by (auto simp: starts_with_iff)
      then show ?thesis by simp
    next
      case (Cons x a')
      with ab have "cs = a' @ p @ b" by simp
      with Cons.IH show ?thesis by auto
    qed
  qed
qed

lemma py_join_Cons: "xs \<noteq> [] \<Longrightarrow> py_join sep (x # xs) = x @ sep @ py_join sep xs"
  by (cases xs) auto

lemma length_py_join:
  "xs \<noteq> [] \<Longrightarrow> length (py_join sep xs) = sum_list (map length xs) + length sep * (length xs - 1)"
  by (induction sep xs rule: py_join.induct) auto

lemma nat_str_nonempty [simp]: "nat_str n \<noteq> []"
  by (subst nat_str.simps) simp

section \<open>Clipping\<close>

text \<open>
  \<open>workspace.clip\<close>: the first \<open>limit\<close> characters and a note that says how many were cut; with the
  note, a clipped text is longer than the limit.
\<close>

definition clip_note :: "nat \<Rightarrow> string" where
  "clip_note k = nl @ ''...[truncated '' @ nat_str k @ '' chars]''"

definition clip :: "string \<Rightarrow> nat \<Rightarrow> string" where
  "clip s limit = (if length s \<le> limit then s else take limit s @ clip_note (length s - limit))"

definition MAX_TOOL_OUTPUT :: nat where
  "MAX_TOOL_OUTPUT = 4000"

text \<open>\<open>workspace.middle\<close>: the ends of a text, newlines replaced by spaces.\<close>

definition middle :: "string \<Rightarrow> nat \<Rightarrow> string" where
  "middle s limit =
     (let t = py_replace nl '' '' s in
      if length t \<le> limit then t
      else if limit \<le> 3 then take limit t
      else let left = (limit - 3) div 2; right = limit - 3 - left
           in take left t @ ''...'' @ drop (length t - right) t)"

lemma length_clip_note: "length (clip_note k) = 22 + length (nat_str k)"
  by (simp add: clip_note_def nl_def)

lemma clip_short [simp]: "length s \<le> limit \<Longrightarrow> clip s limit = s"
  by (simp add: clip_def)

lemma clip_long: "limit < length s \<Longrightarrow> clip s limit = take limit s @ clip_note (length s - limit)"
  by (simp add: clip_def)

lemma length_clip_long:
  "limit < length s \<Longrightarrow> length (clip s limit) = limit + 22 + length (nat_str (length s - limit))"
  by (simp add: clip_long length_clip_note)

lemma length_py_replace_char:
  "length (py_replace [a] [b] s) = length s"
  by (induction "[a]" "[b]" s rule: py_replace.induct) auto

lemma length_middle: "length (middle s limit) \<le> limit \<or> length s \<le> limit"
  by (auto simp: middle_def Let_def nl_def length_py_replace_char)

section \<open>JSON values\<close>

text \<open>
  What \<open>json.loads\<close> gives the code: objects keep the order of their keys (a Python dict does),
  numbers are integers.
\<close>

datatype json =
    JNull
  | JBool bool
  | JInt int
  | JStr string
  | JList "json list"
  | JObj "(string \<times> json) list"

fun obj_get :: "(string \<times> 'v) list \<Rightarrow> string \<Rightarrow> 'v option" where
  "obj_get [] k = None"
| "obj_get ((k', v) # r) k = (if k' = k then Some v else obj_get r k)"

text \<open>\<open>d[k] = v\<close>: in place when the key is there, at the end otherwise.\<close>

fun obj_put :: "(string \<times> 'v) list \<Rightarrow> string \<Rightarrow> 'v \<Rightarrow> (string \<times> 'v) list" where
  "obj_put [] k v = [(k, v)]"
| "obj_put ((k', v') # r) k v = (if k' = k then (k, v) # r else (k', v') # obj_put r k v)"

definition obj_setdefault :: "(string \<times> 'v) list \<Rightarrow> string \<Rightarrow> 'v \<Rightarrow> (string \<times> 'v) list" where
  "obj_setdefault d k v = (case obj_get d k of None \<Rightarrow> obj_put d k v | Some _ \<Rightarrow> d)"

text \<open>\<open>d.pop(k, None)\<close>.\<close>

definition obj_pop :: "(string \<times> 'v) list \<Rightarrow> string \<Rightarrow> (string \<times> 'v) list" where
  "obj_pop d k = filter (\<lambda>(k', _). k' \<noteq> k) d"

lemma obj_get_map_of: "obj_get d = map_of d"
  by (induction d) (auto simp: fun_eq_iff)

lemma obj_get_put [simp]: "obj_get (obj_put d k v) k' = (if k' = k then Some v else obj_get d k')"
  by (induction d k v rule: obj_put.induct) auto

lemma obj_get_pop [simp]: "obj_get (obj_pop d k) k' = (if k' = k then None else obj_get d k')"
  by (induction d) (auto simp: obj_pop_def)

lemma obj_put_keys: "set (map fst (obj_put d k v)) = insert k (set (map fst d))"
  by (induction d k v rule: obj_put.induct) auto

lemma distinct_obj_put: "distinct (map fst d) \<Longrightarrow> distinct (map fst (obj_put d k v))"
proof (induction d k v rule: obj_put.induct)
  case (2 k' v' r k v)
  then show ?case using obj_put_keys [of r k v] by auto
qed auto

lemma distinct_obj_pop: "distinct (map fst d) \<Longrightarrow> distinct (map fst (obj_pop d k))"
  unfolding obj_pop_def by (induction d) auto

lemma obj_put_absent: "k \<notin> fst ` set d \<Longrightarrow> obj_put d k v = d @ [(k, v)]"
  by (induction d k v rule: obj_put.induct) auto

text \<open>Truth of a value, as \<open>if value\<close> and \<open>value or default\<close> test it.\<close>

fun truthy :: "json \<Rightarrow> bool" where
  "truthy JNull = False"
| "truthy (JBool b) = b"
| "truthy (JInt i) = (i \<noteq> 0)"
| "truthy (JStr s) = (s \<noteq> [])"
| "truthy (JList xs) = (xs \<noteq> [])"
| "truthy (JObj kvs) = (kvs \<noteq> [])"

subsection \<open>\<open>str\<close> and \<open>repr\<close>\<close>

definition hex_digit :: "nat \<Rightarrow> char" where
  "hex_digit n = ''0123456789abcdef'' ! n"

definition repr_char :: "char \<Rightarrow> char \<Rightarrow> string" where
  "repr_char q c =
     (let n = of_char c :: nat in
      if c = q \<or> n = 92 then [CHR 0x5C, c]
      else if n = 9 then [CHR 0x5C, CHR ''t'']
      else if n = 10 then [CHR 0x5C, CHR ''n'']
      else if n = 13 then [CHR 0x5C, CHR ''r'']
      else if n < 32 \<or> (127 \<le> n \<and> n \<le> 160) \<or> n = 173
      then [CHR 0x5C, CHR ''x'', hex_digit (n div 16), hex_digit (n mod 16)]
      else [c])"

definition repr_str :: "string \<Rightarrow> string" where
  "repr_str s =
     (let q = (if CHR 0x27 \<in> set s \<and> CHR 0x22 \<notin> set s then CHR 0x22 else CHR 0x27)
      in q # concat (map (repr_char q) s) @ [q])"

fun py_repr :: "json \<Rightarrow> string" where
  "py_repr JNull = ''None''"
| "py_repr (JBool b) = (if b then ''True'' else ''False'')"
| "py_repr (JInt i) = int_str i"
| "py_repr (JStr s) = repr_str s"
| "py_repr (JList xs) = ''['' @ py_join '', '' (map py_repr xs) @ '']''"
| "py_repr (JObj kvs) =
     ''{'' @ py_join '', '' (map (\<lambda>(k, v). repr_str k @ '': '' @ py_repr v) kvs) @ ''}''"

definition py_str :: "json \<Rightarrow> string" where
  "py_str v = (case v of JStr s \<Rightarrow> s | _ \<Rightarrow> py_repr v)"

lemma py_str_JStr [simp]: "py_str (JStr s) = s"
  by (simp add: py_str_def)

subsection \<open>\<open>json.dumps\<close>\<close>

text \<open>
  \<open>json.dumps(value, ensure_ascii=False)\<close>: with the separators of the call, and the keys of every
  object sorted when \<open>sort_keys\<close> is set.
\<close>

definition json_char :: "char \<Rightarrow> string" where
  "json_char c =
     (let n = of_char c :: nat in
      if n = 34 \<or> n = 92 then [CHR 0x5C, c]
      else if n = 10 then [CHR 0x5C, CHR ''n'']
      else if n = 13 then [CHR 0x5C, CHR ''r'']
      else if n = 9 then [CHR 0x5C, CHR ''t'']
      else if n = 8 then [CHR 0x5C, CHR ''b'']
      else if n = 12 then [CHR 0x5C, CHR ''f'']
      else if n < 32 then [CHR 0x5C] @ ''u00'' @ [hex_digit (n div 16), hex_digit (n mod 16)]
      else [c])"

definition json_quote :: "string \<Rightarrow> string" where
  "json_quote s = [CHR 0x22] @ concat (map json_char s) @ [CHR 0x22]"

fun json_dumps :: "bool \<Rightarrow> string \<Rightarrow> string \<Rightarrow> json \<Rightarrow> string" where
  "json_dumps srt sep colon JNull = ''null''"
| "json_dumps srt sep colon (JBool b) = (if b then ''true'' else ''false'')"
| "json_dumps srt sep colon (JInt i) = int_str i"
| "json_dumps srt sep colon (JStr s) = json_quote s"
| "json_dumps srt sep colon (JList xs) = ''['' @ py_join sep (map (json_dumps srt sep colon) xs) @ '']''"
| "json_dumps srt sep colon (JObj kvs) =
     (let items = map (\<lambda>(k, v). (k, json_quote k @ colon @ json_dumps srt sep colon v)) kvs
      in ''{'' @ py_join sep (map snd (if srt then sort_key fst items else items)) @ ''}'')"

text \<open>\<open>len(text.encode("utf-8"))\<close>: the characters from 128 on take two bytes.\<close>

definition utf8_len :: "string \<Rightarrow> nat" where
  "utf8_len s = sum_list (map (\<lambda>c. if (of_char c :: nat) < 128 then 1 else 2) s)"

lemma utf8_len_ge: "length s \<le> utf8_len s"
proof (induction s)
  case (Cons c s)
  then show ?case by (simp add: utf8_len_def)
qed (simp add: utf8_len_def)

end
