(* ===== verification/Owner_Identity.thy ===== *)
theory Owner_Identity
  imports Py_Text
begin

text \<open>
  The owner ids of the control plane (\<open>domain/identity.py\<close>): \<open>canonical_owner_id\<close> reads a UUID in any
  of the spellings \<open>uuid.UUID\<close> accepts and writes it back in lower case with dashes.  The lemmas
  show that the canonical spelling is a fixed point, so that comparing canonical ids compares owners.
\<close>

section \<open>Hexadecimal numbers\<close>

definition hex_value :: "char \<Rightarrow> nat option" where
  "hex_value c =
     (let n = of_char c :: nat in
      if 48 \<le> n \<and> n \<le> 57 then Some (n - 48)
      else if 97 \<le> n \<and> n \<le> 102 then Some (n - 87)
      else if 65 \<le> n \<and> n \<le> 70 then Some (n - 55)
      else None)"

text \<open>The digits of \<open>int(text, 16)\<close>: a single underscore may stand between two digits.\<close>

fun hex_digits :: "nat \<Rightarrow> string \<Rightarrow> nat option" where
  "hex_digits acc [] = Some acc"
| "hex_digits acc [c] =
     (case hex_value c of None \<Rightarrow> None | Some v \<Rightarrow> Some (16 * acc + v))"
| "hex_digits acc (c # d # cs) =
     (case hex_value c of
        None \<Rightarrow> None
      | Some v \<Rightarrow>
          if d = CHR ''_'' then (if cs = [] then None else hex_digits (16 * acc + v) cs)
          else hex_digits (16 * acc + v) (d # cs))"

definition int_base16 :: "string \<Rightarrow> int option" where
  "int_base16 text =
     (let t = py_strip text;
          neg = starts_with ''-'' t;
          u = (if starts_with ''-'' t \<or> starts_with ''+'' t then tl t else t);
          v = (if starts_with ''0x'' u \<or> starts_with ''0X'' u
               then (if starts_with ''_'' (drop 2 u) then drop 3 u else drop 2 u) else u)
      in if v = [] then None
         else map_option (\<lambda>n. if neg then - int n else int n) (hex_digits 0 v))"

text \<open>\<open>'\%0kx'\<close>: the lowest \<open>k\<close> hexadecimal digits of a number.\<close>

primrec hex_pad :: "nat \<Rightarrow> nat \<Rightarrow> string" where
  "hex_pad 0 n = []"
| "hex_pad (Suc k) n = hex_pad k (n div 16) @ [hex_digit (n mod 16)]"

section \<open>UUIDs\<close>

definition strip_braces :: "string \<Rightarrow> string" where
  "strip_braces s =
     (let b = (\<lambda>c. c = CHR 0x7B \<or> c = CHR 0x7D) in rev (dropWhile b (rev (dropWhile b s))))"

text \<open>\<open>UUID(text).int\<close>, \<open>None\<close> for \<open>ValueError\<close>.\<close>

definition uuid_int :: "string \<Rightarrow> nat option" where
  "uuid_int text =
     (let h = py_replace ''-'' []
                (strip_braces (py_replace ''uuid:'' [] (py_replace ''urn:'' [] text)))
      in if length h \<noteq> 32 then None
         else case int_base16 h of
                None \<Rightarrow> None
              | Some i \<Rightarrow> if 0 \<le> i \<and> i < 2 ^ 128 then Some (nat i) else None)"

definition uuid_str :: "nat \<Rightarrow> string" where
  "uuid_str n =
     (let h = hex_pad 32 n in
      take 8 h @ ''-'' @ take 4 (drop 8 h) @ ''-'' @ take 4 (drop 12 h) @ ''-''
      @ take 4 (drop 16 h) @ ''-'' @ drop 20 h)"

definition canonical_owner_id :: "string \<Rightarrow> string option" where
  "canonical_owner_id value = map_option uuid_str (uuid_int value)"

subsection \<open>The canonical spelling is a fixed point\<close>

lemma hex_digit_cases: "d < 16 \<Longrightarrow> hex_digit d \<in> set ''0123456789abcdef''"
  by (simp add: hex_digit_def nth_mem del: set_simps)

lemma hex_value_digit [simp]: "d < 16 \<Longrightarrow> hex_value (hex_digit d) = Some d"
proof -
  assume "d < 16"
  then have "d \<in> set [0..<16]" by simp
  then show ?thesis
    by (simp add: upt_rec numeral_eq_Suc hex_digit_def hex_value_def) auto
qed

lemma length_hex_pad [simp]: "length (hex_pad k n) = k"
  by (induction k arbitrary: n) auto

lemma set_hex_pad: "set (hex_pad k n) \<subseteq> set ''0123456789abcdef''"
proof (induction k arbitrary: n)
  case (Suc k)
  have "hex_digit (n mod 16) \<in> set ''0123456789abcdef''" by (rule hex_digit_cases) simp
  with Suc [of "n div 16"] show ?case by simp
qed simp

lemma hex_digits_snoc:
  "CHR ''_'' \<notin> set xs \<Longrightarrow> hex_value c = Some v \<Longrightarrow>
     hex_digits acc (xs @ [c]) = map_option (\<lambda>a. 16 * a + v) (hex_digits acc xs)"
proof (induction acc xs rule: hex_digits.induct)
  case (2 acc c')
  have "c \<noteq> CHR ''_''" using 2(2) by (auto simp: hex_value_def)
  with 2 show ?case by (auto split: option.splits)
next
  case (3 acc c' d cs)
  then show ?case by (auto split: option.splits)
qed simp

lemma hex_digits_pad: "n < 16 ^ k \<Longrightarrow> hex_digits 0 (hex_pad k n) = Some n"
proof (induction k arbitrary: n)
  case (Suc k)
  have u: "CHR ''_'' \<notin> set (hex_pad k (n div 16))" using set_hex_pad [of k "n div 16"] by auto
  have "n div 16 < 16 ^ k" using Suc.prems by (simp add: less_mult_imp_div_less mult.commute)
  then have "hex_digits 0 (hex_pad k (n div 16)) = Some (n div 16)" by (rule Suc.IH)
  then show ?case by (simp add: hex_digits_snoc [OF u hex_value_digit])
qed simp

lemma py_replace_absent: "hd old \<notin> set s \<Longrightarrow> old \<noteq> [] \<Longrightarrow> py_replace old new s = s"
proof (induction old new s rule: py_replace.induct)
  case (2 old new c cs)
  then have "\<not> starts_with old (c # cs)" by (cases old) (auto simp: starts_with_def)
  with 2 show ?case by auto
qed simp

lemma py_replace_delete: "py_replace [c] [] s = filter (\<lambda>x. x \<noteq> c) s"
proof (induction s)
  case (Cons x xs)
  have "starts_with [c] (x # xs) \<longleftrightarrow> x = c" by (auto simp: starts_with_def)
  with Cons show ?case by simp
qed simp

lemma py_strip_absent: "\<forall>c\<in>set s. \<not> is_space c \<Longrightarrow> py_strip s = s"
proof -
  assume a: "\<forall>c\<in>set s. \<not> is_space c"
  then have "dropWhile is_space s = s" by (cases s) auto
  moreover have "dropWhile is_space (rev s) = rev s" using a by (cases "rev s") auto
  ultimately show ?thesis by (simp add: py_strip_def)
qed

lemma filter_id: "c \<notin> set s \<Longrightarrow> filter (\<lambda>x. x \<noteq> c) s = s"
  by (auto simp: filter_id_conv)

lemma strip_braces_absent: "CHR 0x7B \<notin> set s \<Longrightarrow> CHR 0x7D \<notin> set s \<Longrightarrow> strip_braces s = s"
proof -
  assume a: "CHR 0x7B \<notin> set s" "CHR 0x7D \<notin> set s"
  let ?b = "\<lambda>c. c = CHR 0x7B \<or> c = CHR 0x7D"
  have "dropWhile ?b s = s" using a by (cases s) auto
  moreover have "dropWhile ?b (rev s) = rev s" using a by (cases "rev s") auto
  ultimately show ?thesis by (simp add: strip_braces_def)
qed

lemma set_uuid_str: "set (uuid_str n) \<subseteq> insert CHR ''-'' (set ''0123456789abcdef'')"
proof -
  have "set (uuid_str n) \<subseteq> insert CHR ''-'' (set (hex_pad 32 n))"
    unfolding uuid_str_def Let_def by (auto dest: in_set_takeD in_set_dropD)
  then show ?thesis using set_hex_pad [of 32 n] by blast
qed

lemma hex_pad_no_dash: "CHR ''-'' \<notin> set (hex_pad k n)"
  using set_hex_pad [of k n] by auto

lemma dashes_removed:
  assumes "CHR ''-'' \<notin> set h"
  shows "filter (\<lambda>x. x \<noteq> CHR ''-'') (take 8 h @ ''-'' @ take 4 (drop 8 h) @ ''-'' @ take 4 (drop 12 h)
     @ ''-'' @ take 4 (drop 16 h) @ ''-'' @ drop 20 h) = h"
proof -
  have k: "filter (\<lambda>x. x \<noteq> CHR ''-'') ys = ys" if "set ys \<subseteq> set h" for ys
    using that assms by (intro filter_id) auto
  have parts: "take 8 h @ take 4 (drop 8 h) @ take 4 (drop 12 h) @ take 4 (drop 16 h) @ drop 20 h = h"
    using append_take_drop_id [of 8 h] append_take_drop_id [of 4 "drop 8 h"]
      append_take_drop_id [of 4 "drop 12 h"] append_take_drop_id [of 4 "drop 16 h"]
    by (simp del: append_take_drop_id)
  have subs: "set (take 8 h) \<subseteq> set h" "set (take 4 (drop 8 h)) \<subseteq> set h"
    "set (take 4 (drop 12 h)) \<subseteq> set h" "set (take 4 (drop 16 h)) \<subseteq> set h" "set (drop 20 h) \<subseteq> set h"
    by (auto dest: in_set_takeD in_set_dropD)
  have "filter (\<lambda>x. x \<noteq> CHR ''-'') (take 8 h @ ''-'' @ take 4 (drop 8 h) @ ''-'' @ take 4 (drop 12 h)
     @ ''-'' @ take 4 (drop 16 h) @ ''-'' @ drop 20 h)
    = take 8 h @ take 4 (drop 8 h) @ take 4 (drop 12 h) @ take 4 (drop 16 h) @ drop 20 h"
    by (simp only: filter_append subs [THEN k] filter.simps append.simps refl not_True_eq_False if_False)
  then show ?thesis by (simp only: parts)
qed

lemma uuid_int_str: "n < 2 ^ 128 \<Longrightarrow> uuid_int (uuid_str n) = Some n"
proof -
  assume n: "n < 2 ^ 128"
  have absent: "CHR ''u'' \<notin> set (uuid_str n)" "CHR 0x7B \<notin> set (uuid_str n)"
    "CHR 0x7D \<notin> set (uuid_str n)"
    using set_uuid_str [of n] by auto
  have h: "py_replace ''-'' [] (strip_braces (py_replace ''uuid:'' [] (py_replace ''urn:'' [] (uuid_str n))))
      = hex_pad 32 n"
    using absent dashes_removed [OF hex_pad_no_dash, of 32 n]
    by (simp add: py_replace_absent strip_braces_absent py_replace_delete uuid_str_def Let_def)
  have digits: "set (hex_pad 32 n) \<subseteq> set ''0123456789abcdef''" by (rule set_hex_pad)
  moreover have "\<forall>c\<in>set ''0123456789abcdef''. \<not> is_space c" by (simp add: is_space_def)
  ultimately have "\<forall>c\<in>set (hex_pad 32 n). \<not> is_space c" by blast
  then have strip: "py_strip (hex_pad 32 n) = hex_pad 32 n" by (rule py_strip_absent)
  have absent2: "CHR ''-'' \<notin> set (hex_pad 32 n)" "CHR ''+'' \<notin> set (hex_pad 32 n)"
    "CHR ''x'' \<notin> set (hex_pad 32 n)" "CHR ''X'' \<notin> set (hex_pad 32 n)"
    using digits by auto
  then have nosign: "\<not> starts_with ''-'' (hex_pad 32 n)" "\<not> starts_with ''+'' (hex_pad 32 n)"
    "\<not> starts_with ''0x'' (hex_pad 32 n)" "\<not> starts_with ''0X'' (hex_pad 32 n)"
    by (auto dest: starts_with_set)
  have ne: "hex_pad 32 n \<noteq> []" using length_hex_pad [of 32 n] by (metis list.size(3) zero_neq_numeral)
  have "(2::nat) ^ 128 = 16 ^ 32" by simp
  then have "hex_digits 0 (hex_pad 32 n) = Some n" using n by (intro hex_digits_pad) simp
  then have "int_base16 (hex_pad 32 n) = Some (int n)"
    using nosign ne by (simp add: int_base16_def strip)
  then show ?thesis using n by (simp add: uuid_int_def h)
qed

lemma uuid_int_bound: "uuid_int s = Some n \<Longrightarrow> n < 2 ^ 128"
  by (auto simp: uuid_int_def Let_def split: if_splits option.splits)

lemma canonical_owner_id_fixed: "canonical_owner_id s = Some o' \<Longrightarrow> canonical_owner_id o' = Some o'"
  using uuid_int_bound uuid_int_str by (auto simp: canonical_owner_id_def)

lemma length_strip_braces: "length (strip_braces t) \<le> length t"
  using length_dropWhile_le [of "\<lambda>c. c = CHR 0x7B \<or> c = CHR 0x7D"
      "rev (dropWhile (\<lambda>c. c = CHR 0x7B \<or> c = CHR 0x7D) t)"]
    length_dropWhile_le [of "\<lambda>c. c = CHR 0x7B \<or> c = CHR 0x7D" t]
  by (simp add: strip_braces_def Let_def)

lemma uuid_int_short: "length s < 32 \<Longrightarrow> uuid_int s = None"
proof -
  assume "length s < 32"
  have b: "length (strip_braces t) \<le> length t" for t
    by (rule length_strip_braces)
  have "length (py_replace ''-'' []
      (strip_braces (py_replace ''uuid:'' [] (py_replace ''urn:'' [] s)))) \<le> length s"
    by (rule order.trans [OF length_py_replace_delete order.trans [OF b order.trans
          [OF length_py_replace_delete length_py_replace_delete]]])
  then have "length (py_replace ''-'' []
      (strip_braces (py_replace ''uuid:'' [] (py_replace ''urn:'' [] s)))) < 32"
    using \<open>length s < 32\<close> by (rule order.strict_trans1)
  from less_imp_neq [OF this] show ?thesis unfolding uuid_int_def Let_def by (rule if_P)
qed

lemma canonical_owner_id_empty [simp]: "canonical_owner_id [] = None"
  by (simp add: canonical_owner_id_def uuid_int_short)

end
