(* ===== verification/Control_Entities.thy ===== *)
theory Control_Entities
  imports Py_Text
begin

text \<open>
  The control-state entities of the API server: the task and approval state machines' states
  (\<open>domain/enums.py\<close>), the \<open>Task\<close> and \<open>Approval\<close> records (\<open>domain/entities.py\<close>), the public event
  envelope (\<open>domain/events.py\<close>), the error contract (\<open>domain/errors.py\<close>) and the exceptions the
  control plane raises.

  Time stamps are seconds since the epoch (the code keeps them as ISO text in UTC).  Owner ids are
  kept in the canonical spelling \<open>canonical_owner_id\<close> returns.
\<close>

section \<open>States\<close>

datatype task_status =
    Queued | Running | Waiting_For_Approval | Cancel_Requested | Cancelled | Completed | Failed
  | Interrupted | Blocked

definition task_status_value :: "task_status \<Rightarrow> string" where
  "task_status_value st =
     (case st of
        Queued \<Rightarrow> ''queued''
      | Running \<Rightarrow> ''running''
      | Waiting_For_Approval \<Rightarrow> ''waiting_for_approval''
      | Cancel_Requested \<Rightarrow> ''cancel_requested''
      | Cancelled \<Rightarrow> ''cancelled''
      | Completed \<Rightarrow> ''completed''
      | Failed \<Rightarrow> ''failed''
      | Interrupted \<Rightarrow> ''interrupted''
      | Blocked \<Rightarrow> ''blocked'')"

definition task_terminal :: "task_status \<Rightarrow> bool" where
  "task_terminal st \<longleftrightarrow> st \<in> {Cancelled, Completed, Failed, Interrupted, Blocked}"

datatype approval_status = A_Pending | A_Approved | A_Rejected | A_Expired | A_Cancelled

definition approval_status_value :: "approval_status \<Rightarrow> string" where
  "approval_status_value st =
     (case st of
        A_Pending \<Rightarrow> ''pending''
      | A_Approved \<Rightarrow> ''approved''
      | A_Rejected \<Rightarrow> ''rejected''
      | A_Expired \<Rightarrow> ''expired''
      | A_Cancelled \<Rightarrow> ''cancelled'')"

text \<open>The constructors read back: \<open>TaskStatus(value)\<close>, \<open>None\<close> where Python raises \<open>ValueError\<close>.\<close>

definition task_status_of :: "string \<Rightarrow> task_status option" where
  "task_status_of v =
     find (\<lambda>st. task_status_value st = v)
       [Queued, Running, Waiting_For_Approval, Cancel_Requested, Cancelled, Completed, Failed,
        Interrupted, Blocked]"

definition approval_status_of :: "string \<Rightarrow> approval_status option" where
  "approval_status_of v =
     find (\<lambda>st. approval_status_value st = v)
       [A_Pending, A_Approved, A_Rejected, A_Expired, A_Cancelled]"

lemma task_status_of_value [simp]: "task_status_of (task_status_value st) = Some st"
  by (cases st) (simp_all add: task_status_of_def task_status_value_def)

lemma approval_status_of_value [simp]: "approval_status_of (approval_status_value st) = Some st"
  by (cases st) (simp_all add: approval_status_of_def approval_status_value_def)

lemma task_status_value_inj: "task_status_value a = task_status_value b \<longleftrightarrow> a = b"
  by (metis option.inject task_status_of_value)

lemma approval_status_value_inj: "approval_status_value a = approval_status_value b \<longleftrightarrow> a = b"
  by (metis option.inject approval_status_of_value)

lemma task_terminal_simps [simp]:
  "\<not> task_terminal Queued" "\<not> task_terminal Running" "\<not> task_terminal Waiting_For_Approval"
  "\<not> task_terminal Cancel_Requested" "task_terminal Cancelled" "task_terminal Completed"
  "task_terminal Failed" "task_terminal Interrupted" "task_terminal Blocked"
  by (simp_all add: task_terminal_def)

section \<open>Records\<close>

text \<open>The dictionary \<open>_set_pending_approval\<close> stores in the task.\<close>

record pending_info =
  p_approval_id :: string
  p_tool_call_id :: string
  p_tool_name :: string
  p_args_preview :: json
  p_created_at :: int
  p_expires_at :: int

record task =
  t_task_id :: string
  t_session_id :: string
  t_workspace_id :: string
  t_owner_id :: string
  t_run_id :: string
  t_input :: string
  t_execution_environment :: string
  t_device_id :: string
  t_status :: task_status
  t_max_steps :: int
  t_permission_mode :: string
  t_model_id :: string
  t_reasoning_effort :: string
  t_provider_id :: string
  t_review_provider_id :: string
  t_review_model_id :: string
  t_review_reasoning_effort :: string
  t_run_index :: "json list"
  t_final_answer :: "string option"
  t_stop_reason :: "string option"
  t_error_stage :: string
  t_error_code :: string
  t_error_retryable :: bool
  t_error_attempts :: int
  t_pending_approval :: "pending_info option"
  t_created_at :: int
  t_updated_at :: int
  t_generation :: int
  t_transition_id :: "string option"
  t_schema_version :: int

definition SCHEMA_VERSION :: int where
  "SCHEMA_VERSION = 5"

text \<open>\<open>Task(...)\<close> with the six required fields, everything else at its default.\<close>

definition new_task :: "int \<Rightarrow> string \<Rightarrow> string \<Rightarrow> string \<Rightarrow> string \<Rightarrow> string \<Rightarrow> string \<Rightarrow> task" where
  "new_task now tid sid wid oid rid inp =
     \<lparr>t_task_id = tid, t_session_id = sid, t_workspace_id = wid, t_owner_id = oid, t_run_id = rid,
      t_input = inp, t_execution_environment = ''backend_process'', t_device_id = [],
      t_status = Queued, t_max_steps = 6, t_permission_mode = ''default'', t_model_id = [],
      t_reasoning_effort = ''none'', t_provider_id = [], t_review_provider_id = [],
      t_review_model_id = [], t_review_reasoning_effort = ''none'', t_run_index = [],
      t_final_answer = None, t_stop_reason = None, t_error_stage = [], t_error_code = [],
      t_error_retryable = False, t_error_attempts = 0, t_pending_approval = None,
      t_created_at = now, t_updated_at = now, t_generation = 0, t_transition_id = None,
      t_schema_version = SCHEMA_VERSION\<rparr>"

record approval =
  a_approval_id :: string
  a_task_id :: string
  a_run_id :: string
  a_owner_id :: string
  a_tool_call_id :: string
  a_tool_name :: string
  a_args_digest :: string
  a_args_preview :: json
  a_request_digest :: string
  a_status :: approval_status
  a_decision :: "string option"
  a_created_at :: int
  a_expires_at :: int
  a_decided_at :: "int option"
  a_transition_id :: "string option"
  a_schema_version :: int

definition new_approval ::
  "int \<Rightarrow> string \<Rightarrow> string \<Rightarrow> string \<Rightarrow> string \<Rightarrow> string \<Rightarrow> string \<Rightarrow> string \<Rightarrow> json \<Rightarrow> int \<Rightarrow> approval" where
  "new_approval now aid tid rid oid call tool dig preview expires =
     \<lparr>a_approval_id = aid, a_task_id = tid, a_run_id = rid, a_owner_id = oid,
      a_tool_call_id = call, a_tool_name = tool, a_args_digest = dig, a_args_preview = preview,
      a_request_digest = [], a_status = A_Pending, a_decision = None, a_created_at = now,
      a_expires_at = expires, a_decided_at = None, a_transition_id = None,
      a_schema_version = SCHEMA_VERSION\<rparr>"

text \<open>\<open>canonical_json\<close>: sorted keys, compact separators; UTF-8 is injective, so the text stands for
  the bytes.\<close>

definition canonical_json :: "json \<Rightarrow> string" where
  "canonical_json v = json_dumps True '','' '':'' v"

section \<open>Errors\<close>

datatype app_error =
    Internal_Error | Not_Found | Session_Not_Found | Task_Not_Found | Provider_Not_Found
  | Approval_Not_Found | Run_Not_Found | Session_Corrupted | Active_Task_Exists string
  | Task_Terminal string | Rename_Conflict | Approval_Already_Resolved | Approval_Stale
  | Approval_Expired | Task_Runner_Unavailable | Persistence_Unavailable | Model_Not_Configured
  | Artifact_Too_Large | Input_Too_Long int | Not_Ready | Authentication_Required
  | Authorization_Denied | OAuth_State_Invalid | OAuth_Provider_Error | Device_Not_Found
  | Pairing_Code_Invalid | Worker_Offline | Worker_Capability_Unavailable
  | Model_Capability_Unavailable | Provider_Not_Configured | Worker_Command_Pending | Worker_Busy
  | Update_Unavailable | Update_Backoff | Uninstall_Unavailable | Worker_Command_Failed
  | Worker_Concurrency_Limit string int | Worker_Protocol_Error | Worker_Release_Unavailable
  | Record_Corrupted

definition app_error_code :: "app_error \<Rightarrow> string" where
  "app_error_code e =
     (case e of
        Internal_Error \<Rightarrow> ''internal_error''
      | Not_Found \<Rightarrow> ''not_found''
      | Session_Not_Found \<Rightarrow> ''session_not_found''
      | Task_Not_Found \<Rightarrow> ''task_not_found''
      | Provider_Not_Found \<Rightarrow> ''provider_not_found''
      | Approval_Not_Found \<Rightarrow> ''approval_not_found''
      | Run_Not_Found \<Rightarrow> ''run_not_found''
      | Session_Corrupted \<Rightarrow> ''session_corrupted''
      | Active_Task_Exists _ \<Rightarrow> ''active_task_exists''
      | Task_Terminal _ \<Rightarrow> ''task_terminal''
      | Rename_Conflict \<Rightarrow> ''rename_conflict''
      | Approval_Already_Resolved \<Rightarrow> ''approval_already_resolved''
      | Approval_Stale \<Rightarrow> ''approval_stale''
      | Approval_Expired \<Rightarrow> ''approval_expired''
      | Task_Runner_Unavailable \<Rightarrow> ''task_runner_unavailable''
      | Persistence_Unavailable \<Rightarrow> ''persistence_unavailable''
      | Model_Not_Configured \<Rightarrow> ''model_not_configured''
      | Artifact_Too_Large \<Rightarrow> ''artifact_too_large''
      | Input_Too_Long _ \<Rightarrow> ''input_too_long''
      | Not_Ready \<Rightarrow> ''not_ready''
      | Authentication_Required \<Rightarrow> ''authentication_required''
      | Authorization_Denied \<Rightarrow> ''authorization_denied''
      | OAuth_State_Invalid \<Rightarrow> ''oauth_state_invalid''
      | OAuth_Provider_Error \<Rightarrow> ''oauth_provider_error''
      | Device_Not_Found \<Rightarrow> ''device_not_found''
      | Pairing_Code_Invalid \<Rightarrow> ''pairing_code_invalid''
      | Worker_Offline \<Rightarrow> ''worker_offline''
      | Worker_Capability_Unavailable \<Rightarrow> ''worker_capability_unavailable''
      | Model_Capability_Unavailable \<Rightarrow> ''model_capability_unavailable''
      | Provider_Not_Configured \<Rightarrow> ''provider_not_configured''
      | Worker_Command_Pending \<Rightarrow> ''worker_command_pending''
      | Worker_Busy \<Rightarrow> ''worker_busy''
      | Update_Unavailable \<Rightarrow> ''update_unavailable''
      | Update_Backoff \<Rightarrow> ''update_backoff''
      | Uninstall_Unavailable \<Rightarrow> ''uninstall_unavailable''
      | Worker_Command_Failed \<Rightarrow> ''worker_command_failed''
      | Worker_Concurrency_Limit _ _ \<Rightarrow> ''worker_concurrency_limit''
      | Worker_Protocol_Error \<Rightarrow> ''worker_protocol_error''
      | Worker_Release_Unavailable \<Rightarrow> ''worker_release_unavailable''
      | Record_Corrupted \<Rightarrow> ''record_corrupted'')"

text \<open>The status of the class, inherited where a class does not set its own.\<close>

definition http_status :: "app_error \<Rightarrow> int" where
  "http_status e =
     (if e \<in> {Not_Found, Session_Not_Found, Task_Not_Found, Provider_Not_Found,
              Approval_Not_Found, Run_Not_Found, Device_Not_Found} then 404
      else case e of
        Active_Task_Exists _ \<Rightarrow> 409 | Task_Terminal _ \<Rightarrow> 409 | Rename_Conflict \<Rightarrow> 409
      | Approval_Already_Resolved \<Rightarrow> 409 | Approval_Stale \<Rightarrow> 409 | Approval_Expired \<Rightarrow> 409
      | Task_Runner_Unavailable \<Rightarrow> 503 | Persistence_Unavailable \<Rightarrow> 503
      | Model_Not_Configured \<Rightarrow> 503 | Artifact_Too_Large \<Rightarrow> 413 | Input_Too_Long _ \<Rightarrow> 422
      | Not_Ready \<Rightarrow> 503 | Authentication_Required \<Rightarrow> 401 | Authorization_Denied \<Rightarrow> 403
      | OAuth_State_Invalid \<Rightarrow> 400 | OAuth_Provider_Error \<Rightarrow> 502 | Pairing_Code_Invalid \<Rightarrow> 400
      | Worker_Offline \<Rightarrow> 409 | Worker_Capability_Unavailable \<Rightarrow> 409
      | Model_Capability_Unavailable \<Rightarrow> 409 | Provider_Not_Configured \<Rightarrow> 409
      | Worker_Command_Pending \<Rightarrow> 409 | Worker_Busy \<Rightarrow> 409 | Update_Unavailable \<Rightarrow> 503
      | Update_Backoff \<Rightarrow> 409 | Uninstall_Unavailable \<Rightarrow> 503 | Worker_Command_Failed \<Rightarrow> 422
      | Worker_Concurrency_Limit _ _ \<Rightarrow> 409 | Worker_Protocol_Error \<Rightarrow> 400
      | Worker_Release_Unavailable \<Rightarrow> 503
      | _ \<Rightarrow> 500)"

text \<open>
  The exceptions of the control plane: the API errors, those of the record stores
  (\<open>json_repositories.py\<close>, \<open>jsonutil.py\<close>), \<open>RunCancelled\<close> of the hooks, the fence of the run
  store, those of the session store (\<open>pico/session_store.py\<close>), and what Python, the operating system or SQLite raise.
\<close>

datatype exn =
    App app_error
  | Record_Not_Found string
  | Stale_Generation
  | Run_Cancelled
  | Stale_Runner_Write
  | Os_Error
  | Attribute_Error
  | Value_Error
  | Type_Error
  | Key_Error
  | Name_Error
  | Stop_Iteration
  | Json_File_Corrupted
  | Session_Missing
  | Session_Unreadable

section \<open>Public events\<close>

definition phase_table :: "(string \<times> string) list" where
  "phase_table =
     [(''plan.'', ''plan''), (''model.'', ''model''), (''assistant.'', ''talk''),
      (''tool.'', ''execute''), (''approval.'', ''approval''), (''review.'', ''review''),
      (''policy.'', ''execute''), (''sandbox.'', ''execute''), (''workspace.'', ''execute''),
      (''message.completed'', ''final''), (''task.completed'', ''final''),
      (''task.cancelled'', ''final''), (''task.failed'', ''final''),
      (''task.interrupted'', ''final''), (''task.blocked'', ''final''),
      (''task.cancel_requested'', ''final''), (''task.queued'', ''system''),
      (''task.started'', ''system''), (''task.snapshot'', ''system'')]"

definition event_phase :: "string \<Rightarrow> string" where
  "event_phase ty =
     (case obj_get phase_table ty of
        Some p \<Rightarrow> p
      | None \<Rightarrow>
          (case obj_get phase_table (fst (py_partition (CHR ''.'') ty) @ ''.'') of
             Some p \<Rightarrow> p | None \<Rightarrow> ''system''))"

record public_event =
  e_event_id :: string
  e_sequence :: nat
  e_type :: string
  e_task_id :: string
  e_run_id :: string
  e_timestamp :: int
  e_trace_id :: string
  e_parent_event_id :: string
  e_phase :: string
  e_attempt :: "int option"
  e_started_at :: string
  e_ended_at :: string
  e_status :: string
  e_summary :: string
  e_attributes :: "(string \<times> json) list"
  e_data :: "(string \<times> json) list"

text \<open>\<open>PublicEvent.to_dict\<close>: the payload the subscribers read.\<close>

definition event_to_dict :: "public_event \<Rightarrow> public_event" where
  "event_to_dict e =
     (let p = e\<lparr>e_attributes := e_data e\<rparr>;
          q = (if e_trace_id p = [] then p\<lparr>e_trace_id := e_run_id p\<rparr> else p)
      in if e_phase q = [] then q\<lparr>e_phase := event_phase (e_type e)\<rparr> else q)"

lemma event_to_dict_same [simp]:
  "e_sequence (event_to_dict e) = e_sequence e" "e_type (event_to_dict e) = e_type e"
  "e_task_id (event_to_dict e) = e_task_id e" "e_data (event_to_dict e) = e_data e"
  "e_run_id (event_to_dict e) = e_run_id e" "e_status (event_to_dict e) = e_status e"
  by (simp_all add: event_to_dict_def Let_def)

lemma event_to_dict_idem: "event_to_dict (event_to_dict e) = event_to_dict e"
  by (simp add: event_to_dict_def Let_def)

end
