(* ===== verification/Control_Store.thy ===== *)
theory Control_Store
  imports Control_Entities Owner_Identity
begin

text \<open>
  The SQLite repositories of tasks and approvals with their JSON mirror
  (\<open>infrastructure/sqlite_repositories.py\<close>).

  A table is an association list in row order; a mirror directory maps a record id to the record
  its file holds, \<open>None\<close> for a file that does not parse.  Every physical write consumes an outcome
  from \<open>st_io\<close>: it happens (\<open>Io_Ok\<close>), it does not and raises (\<open>Io_Fail\<close>), it happens and raises
  (\<open>Io_Late\<close>: a commit or an \<open>fsync\<close> that fails after the data is in place); \<open>Io_Torn\<close> is a partial
  append, which only the journal can show.  With \<open>st_io\<close> exhausted every write succeeds.  Reads of
  a row that exists succeed; \<open>st_clock\<close> is the current time, \<open>st_uuid\<close> the supply of fresh ids.
\<close>

section \<open>State and physical writes\<close>

datatype io_outcome = Io_Ok | Io_Fail | Io_Late | Io_Torn

record run_row =
  r_run_id :: string
  r_task_id :: string
  r_session_id :: string
  r_workspace_id :: string
  r_owner_id :: string
  r_status :: task_status
  r_created_at :: int
  r_updated_at :: int

record store_state =
  st_tasks :: "(string \<times> task) list"
  st_approvals :: "(string \<times> approval) list"
  st_runs :: "(string \<times> run_row) list"
  st_mirrored :: bool
  st_task_mirror :: "(string \<times> task option) list"
  st_approval_mirror :: "(string \<times> approval option) list"
  st_io :: "io_outcome list"
  st_clock :: int
  st_uuid :: nat

definition io_write ::
  "('a store_state_scheme \<Rightarrow> 'a store_state_scheme) \<Rightarrow> ('a store_state_scheme, exn, unit) act" where
  "io_write f = (\<lambda>s.
     case st_io s of
       [] \<Rightarrow> (Inr (), f s)
     | Io_Ok # r \<Rightarrow> (Inr (), f (s\<lparr>st_io := r\<rparr>))
     | Io_Late # r \<Rightarrow> (Inl Os_Error, f (s\<lparr>st_io := r\<rparr>))
     | _ # r \<Rightarrow> (Inl Os_Error, s\<lparr>st_io := r\<rparr>))"

definition utc_now :: "('a store_state_scheme, exn, int) act" where
  "utc_now = act_get st_clock"

text \<open>\<open>prefix + uuid.uuid4().hex\<close>: an id that was never handed out before.\<close>

definition fresh_id :: "string \<Rightarrow> ('a store_state_scheme, exn, string) act" where
  "fresh_id prefix = (\<lambda>s. (Inr (prefix @ nat_str (st_uuid s)), s\<lparr>st_uuid := st_uuid s + 1\<rparr>))"

definition owner_arg :: "string \<Rightarrow> ('a store_state_scheme, exn, string) act" where
  "owner_arg value =
     (case canonical_owner_id value of None \<Rightarrow> act_raise Value_Error | Some o' \<Rightarrow> act_ret o')"

section \<open>Tasks\<close>

text \<open>\<open>_task_from_payload\<close>: a row without a readable owner is a corrupted record.\<close>

definition task_from_payload :: "task \<Rightarrow> ('a store_state_scheme, exn, task) act" where
  "task_from_payload row =
     (case canonical_owner_id (t_owner_id row) of
        None \<Rightarrow> act_raise (App Record_Corrupted)
      | Some o' \<Rightarrow> act_ret (row\<lparr>t_owner_id := o'\<rparr>))"

definition task_read_payload :: "string \<Rightarrow> ('a store_state_scheme, exn, task) act" where
  "task_read_payload tid =
     act_bind (act_get (\<lambda>s. obj_get (st_tasks s) tid)) (\<lambda>row.
       case row of None \<Rightarrow> act_raise (Record_Not_Found tid) | Some r \<Rightarrow> act_ret r)"

definition task_read :: "string \<Rightarrow> ('a store_state_scheme, exn, task) act" where
  "task_read tid = act_bind (task_read_payload tid) task_from_payload"

definition task_get :: "string \<Rightarrow> ('a store_state_scheme, exn, task) act" where
  "task_get tid =
     act_catch (task_read tid) (\<lambda>e.
       case e of Record_Not_Found _ \<Rightarrow> act_raise (App Task_Not_Found) | _ \<Rightarrow> act_raise e)"

definition task_get_for_owner :: "string \<Rightarrow> string \<Rightarrow> ('a store_state_scheme, exn, task) act" where
  "task_get_for_owner tid owner =
     act_bind (task_get tid) (\<lambda>task.
       act_bind (owner_arg owner) (\<lambda>o'.
         if t_owner_id task \<noteq> o' then act_raise (App Task_Not_Found) else act_ret task))"

definition task_get_by_run_for_owner ::
  "string \<Rightarrow> string \<Rightarrow> ('a store_state_scheme, exn, task) act" where
  "task_get_by_run_for_owner rid owner =
     act_bind (owner_arg owner) (\<lambda>o'.
       act_bind (act_get (\<lambda>s. find (\<lambda>(_, r). t_run_id r = rid \<and> t_owner_id r = o') (st_tasks s)))
         (\<lambda>row. case row of
            None \<Rightarrow> act_raise (App Run_Not_Found)
          | Some (_, r) \<Rightarrow> task_from_payload r))"

subsection \<open>Writing\<close>

definition run_of_task :: "task \<Rightarrow> run_row" where
  "run_of_task t =
     \<lparr>r_run_id = t_run_id t, r_task_id = t_task_id t, r_session_id = t_session_id t,
      r_workspace_id = t_workspace_id t, r_owner_id = t_owner_id t, r_status = t_status t,
      r_created_at = t_created_at t, r_updated_at = t_updated_at t\<rparr>"

text \<open>\<open>_upsert_run\<close>: on a conflict only the status and the update time change.\<close>

definition upsert_run :: "task \<Rightarrow> 'a store_state_scheme \<Rightarrow> 'a store_state_scheme" where
  "upsert_run t s =
     (if t_run_id t = [] then s
      else s\<lparr>st_runs := obj_put (st_runs s) (t_run_id t)
               (case obj_get (st_runs s) (t_run_id t) of
                  None \<Rightarrow> run_of_task t
                | Some r \<Rightarrow> r\<lparr>r_status := t_status t, r_updated_at := t_updated_at t\<rparr>)\<rparr>)"

definition task_mirror_write :: "string \<Rightarrow> task \<Rightarrow> ('a store_state_scheme, exn, unit) act" where
  "task_mirror_write tid t =
     act_bind (act_get st_mirrored) (\<lambda>m.
       act_when m
         (io_write (\<lambda>s. s\<lparr>st_task_mirror := obj_put (st_task_mirror s) tid (Some t)\<rparr>)))"

definition put_task_row :: "task \<Rightarrow> 'a store_state_scheme \<Rightarrow> 'a store_state_scheme" where
  "put_task_row t s = upsert_run t (s\<lparr>st_tasks := obj_put (st_tasks s) (t_task_id t) t\<rparr>)"

definition write_task :: "task \<Rightarrow> ('a store_state_scheme, exn, unit) act" where
  "write_task t = act_then (io_write (put_task_row t)) (task_mirror_write (t_task_id t) t)"

definition task_create :: "task \<Rightarrow> ('a store_state_scheme, exn, task) act" where
  "task_create t =
     act_bind (act_get (\<lambda>s. obj_get (st_tasks s) (t_task_id t))) (\<lambda>old.
       case old of
         Some _ \<Rightarrow> act_raise (App Record_Corrupted)
       | None \<Rightarrow>
           act_then
             (act_catch (io_write (put_task_row t))
               (\<lambda>e. act_raise (App Persistence_Unavailable)))
             (act_then (task_mirror_write (t_task_id t) t) (act_ret t)))"

definition task_update ::
  "string \<Rightarrow> (task \<Rightarrow> task) \<Rightarrow> int option \<Rightarrow> ('a store_state_scheme, exn, task) act" where
  "task_update tid fn expected =
     act_bind (task_read tid) (\<lambda>task.
       if expected \<noteq> None \<and> expected \<noteq> Some (t_generation task) then act_raise Stale_Generation
       else act_bind utc_now (\<lambda>now.
              let updated = (fn task)\<lparr>t_updated_at := now\<rparr>
              in act_then (write_task updated) (act_ret updated)))"

text \<open>
  \<open>delete_many\<close>: the ids in the order the set is iterated; an owned task that is not terminal
  refuses the whole call before anything is deleted.
\<close>

fun deletable_tasks ::
  "string list \<Rightarrow> string \<Rightarrow> ('a store_state_scheme, exn, string list) act" where
  "deletable_tasks [] o' = act_ret []"
| "deletable_tasks (tid # tids) o' = (\<lambda>s.
     case task_get_for_owner tid o' s of
       (Inl e, t) \<Rightarrow> if e = App Task_Not_Found then deletable_tasks tids o' t else (Inl e, t)
     | (Inr task, t) \<Rightarrow>
         if \<not> task_terminal (t_status task) then (Inl (App (Active_Task_Exists (t_task_id task))), t)
         else act_bind (deletable_tasks tids o') (\<lambda>r. act_ret (t_task_id task # r)) t)"

definition task_delete_many ::
  "string list \<Rightarrow> string \<Rightarrow> ('a store_state_scheme, exn, string list) act" where
  "task_delete_many tids owner =
     act_bind (owner_arg owner) (\<lambda>o'.
       if tids = [] then act_ret []
       else act_bind (deletable_tasks tids o') (\<lambda>removed.
              act_then
                (io_write (\<lambda>s. s\<lparr>st_tasks := fold (\<lambda>tid d. obj_pop d tid) removed (st_tasks s)\<rparr>))
                (act_bind (act_get st_mirrored) (\<lambda>m.
                   act_then
                     (act_when m (act_each (\<lambda>tid.
                        io_write (\<lambda>s. s\<lparr>st_task_mirror := obj_pop (st_task_mirror s) tid\<rparr>)) removed))
                     (act_ret removed)))))"

subsection \<open>Listing\<close>

definition tasks_newest_first :: "(string \<times> task) list \<Rightarrow> (string \<times> task) list" where
  "tasks_newest_first rows = rev (sort_key (\<lambda>(k, r). (t_updated_at r, k)) rows)"

definition task_list_stable :: "'a store_state_scheme \<Rightarrow> string list" where
  "task_list_stable s = map fst (tasks_newest_first (st_tasks s))"

fun task_get_existing :: "string list \<Rightarrow> ('a store_state_scheme, exn, task list) act" where
  "task_get_existing [] = act_ret []"
| "task_get_existing (tid # tids) = (\<lambda>s.
     case task_get tid s of
       (Inl e, t) \<Rightarrow> if e = App Task_Not_Found then task_get_existing tids t else (Inl e, t)
     | (Inr task, t) \<Rightarrow> act_bind (task_get_existing tids) (\<lambda>r. act_ret (task # r)) t)"

definition task_list :: "nat \<Rightarrow> nat \<Rightarrow> ('a store_state_scheme, exn, task list \<times> nat) act" where
  "task_list limit offset =
     act_bind (act_get task_list_stable) (\<lambda>ids.
       act_bind (task_get_existing (take limit (drop offset ids))) (\<lambda>tasks.
         act_ret (tasks, length ids)))"

fun tasks_from_payloads :: "task list \<Rightarrow> ('a store_state_scheme, exn, task list) act" where
  "tasks_from_payloads [] = act_ret []"
| "tasks_from_payloads (r # rs) =
     act_bind (task_from_payload r) (\<lambda>t.
       act_bind (tasks_from_payloads rs) (\<lambda>ts. act_ret (t # ts)))"

definition task_list_for_session ::
  "string \<Rightarrow> string \<Rightarrow> nat \<Rightarrow> ('a store_state_scheme, exn, task list \<times> nat) act" where
  "task_list_for_session sid owner limit =
     act_bind (owner_arg owner) (\<lambda>o'.
       act_bind (act_get (\<lambda>s. map snd (filter
           (\<lambda>(_, r). t_session_id r = sid \<and> t_owner_id r = o') (tasks_newest_first (st_tasks s)))))
         (\<lambda>rows. act_bind (tasks_from_payloads (take limit rows)) (\<lambda>tasks.
            act_ret (tasks, length rows))))"

definition task_list_for_sessions ::
  "string list \<Rightarrow> string \<Rightarrow> ('a store_state_scheme, exn, task list) act" where
  "task_list_for_sessions sids owner =
     act_bind (owner_arg owner) (\<lambda>o'.
       act_bind (act_get (\<lambda>s. concat (map (\<lambda>sid. map snd (filter
           (\<lambda>(_, r). t_session_id r = sid \<and> t_owner_id r = o') (st_tasks s))) sids)))
         tasks_from_payloads)"

text \<open>\<open>assign_legacy_owner\<close>: the loop over the stable list, counting the rows it rewrote.\<close>

fun assign_task_owners ::
  "string list \<Rightarrow> string \<Rightarrow> ('a store_state_scheme, exn, nat) act" where
  "assign_task_owners [] o' = act_ret 0"
| "assign_task_owners (tid # tids) o' = (\<lambda>s.
     case task_get tid s of
       (Inl e, t) \<Rightarrow>
         if e = App Task_Not_Found \<or> e = App Record_Corrupted then assign_task_owners tids o' t
         else (Inl e, t)
     | (Inr task, t) \<Rightarrow>
         if t_owner_id task \<noteq> [] then assign_task_owners tids o' t
         else act_then
                (write_task (task\<lparr>t_owner_id := o',
                                  t_schema_version := max (t_schema_version task) 2\<rparr>))
                (act_bind (assign_task_owners tids o') (\<lambda>n. act_ret (n + 1))) t)"

definition task_assign_legacy_owner :: "string \<Rightarrow> ('a store_state_scheme, exn, nat) act" where
  "task_assign_legacy_owner owner =
     act_bind (owner_arg owner) (\<lambda>o'.
       act_bind (act_get task_list_stable) (\<lambda>ids. assign_task_owners ids o'))"

datatype drift_reason = Json_Corrupted | Missing_In_Sqlite | Diverged

definition drift_of :: "('r \<Rightarrow> string \<Rightarrow> bool) \<Rightarrow> (string \<times> 'r) list \<Rightarrow> string \<times> 'r option
    \<Rightarrow> (string \<times> drift_reason) list" where
  "drift_of differs rows f =
     (case f of
        (k, None) \<Rightarrow> [(k, Json_Corrupted)]
      | (k, Some r) \<Rightarrow>
          (case obj_get rows k of
             None \<Rightarrow> [(k, Missing_In_Sqlite)]
           | Some _ \<Rightarrow> if differs r k then [(k, Diverged)] else []))"

definition task_cross_check :: "'a store_state_scheme \<Rightarrow> (string \<times> drift_reason) list" where
  "task_cross_check s =
     (if \<not> st_mirrored s then []
      else concat (map (drift_of (\<lambda>r k. obj_get (st_tasks s) k \<noteq> Some r) (st_tasks s))
                       (sort_key fst (st_task_mirror s))))"

section \<open>Approvals\<close>

definition approval_from_payload :: "approval \<Rightarrow> ('a store_state_scheme, exn, approval) act" where
  "approval_from_payload row =
     (case canonical_owner_id (a_owner_id row) of
        None \<Rightarrow> act_raise (App Record_Corrupted)
      | Some o' \<Rightarrow> act_ret (row\<lparr>a_owner_id := o'\<rparr>))"

definition approval_read :: "string \<Rightarrow> ('a store_state_scheme, exn, approval) act" where
  "approval_read aid =
     act_bind (act_get (\<lambda>s. obj_get (st_approvals s) aid)) (\<lambda>row.
       case row of None \<Rightarrow> act_raise (Record_Not_Found aid) | Some r \<Rightarrow> approval_from_payload r)"

definition approval_get :: "string \<Rightarrow> ('a store_state_scheme, exn, approval) act" where
  "approval_get aid =
     act_catch (approval_read aid) (\<lambda>e.
       case e of Record_Not_Found _ \<Rightarrow> act_raise (App Approval_Not_Found) | _ \<Rightarrow> act_raise e)"

definition approval_get_for_owner ::
  "string \<Rightarrow> string \<Rightarrow> ('a store_state_scheme, exn, approval) act" where
  "approval_get_for_owner aid owner =
     act_bind (approval_get aid) (\<lambda>a.
       act_bind (owner_arg owner) (\<lambda>o'.
         if a_owner_id a \<noteq> o' then act_raise (App Approval_Not_Found) else act_ret a))"

definition approval_mirror_write ::
  "string \<Rightarrow> approval \<Rightarrow> ('a store_state_scheme, exn, unit) act" where
  "approval_mirror_write aid a =
     act_bind (act_get st_mirrored) (\<lambda>m.
       act_when m
         (io_write (\<lambda>s. s\<lparr>st_approval_mirror := obj_put (st_approval_mirror s) aid (Some a)\<rparr>)))"

definition put_approval_row :: "approval \<Rightarrow> 'a store_state_scheme \<Rightarrow> 'a store_state_scheme" where
  "put_approval_row a s = s\<lparr>st_approvals := obj_put (st_approvals s) (a_approval_id a) a\<rparr>"

definition write_approval :: "approval \<Rightarrow> ('a store_state_scheme, exn, unit) act" where
  "write_approval a =
     act_then (io_write (put_approval_row a)) (approval_mirror_write (a_approval_id a) a)"

definition approval_create :: "approval \<Rightarrow> ('a store_state_scheme, exn, approval) act" where
  "approval_create a =
     act_bind (act_get (\<lambda>s. obj_get (st_approvals s) (a_approval_id a))) (\<lambda>old.
       case old of
         Some _ \<Rightarrow> act_raise (App Record_Corrupted)
       | None \<Rightarrow> act_then (write_approval a) (act_ret a))"

definition approval_update ::
  "string \<Rightarrow> (approval \<Rightarrow> approval) \<Rightarrow> ('a store_state_scheme, exn, approval) act" where
  "approval_update aid fn =
     act_bind (approval_read aid) (\<lambda>a.
       act_then (write_approval (fn a)) (act_ret (fn a)))"

fun approvals_from_payloads ::
  "approval list \<Rightarrow> ('a store_state_scheme, exn, approval list) act" where
  "approvals_from_payloads [] = act_ret []"
| "approvals_from_payloads (r # rs) =
     act_bind (approval_from_payload r) (\<lambda>a.
       act_bind (approvals_from_payloads rs) (\<lambda>as. act_ret (a # as)))"

definition list_pending_for_task ::
  "string \<Rightarrow> ('a store_state_scheme, exn, approval list) act" where
  "list_pending_for_task tid =
     act_bind (act_get (\<lambda>s. map snd (filter
         (\<lambda>(_, r). a_task_id r = tid \<and> a_status r = A_Pending) (st_approvals s))))
       approvals_from_payloads"

definition approval_delete_for_tasks ::
  "string list \<Rightarrow> string \<Rightarrow> ('a store_state_scheme, exn, string list) act" where
  "approval_delete_for_tasks tids owner =
     act_bind (owner_arg owner) (\<lambda>o'.
       if tids = [] then act_ret []
       else act_bind (act_get (\<lambda>s. concat (map (\<lambda>tid. map fst (filter
                (\<lambda>(_, r). a_task_id r = tid \<and> a_owner_id r = o') (st_approvals s))) tids)))
         (\<lambda>removed.
            act_then
              (io_write (\<lambda>s.
                 s\<lparr>st_approvals := fold (\<lambda>aid d. obj_pop d aid) removed (st_approvals s)\<rparr>))
              (act_bind (act_get st_mirrored) (\<lambda>m.
                 act_then
                   (act_when m (act_each (\<lambda>aid.
                      io_write (\<lambda>s. s\<lparr>st_approval_mirror := obj_pop (st_approval_mirror s) aid\<rparr>))
                      removed))
                   (act_ret removed)))))"

definition approval_list_stable :: "'a store_state_scheme \<Rightarrow> string list" where
  "approval_list_stable s =
     map fst (rev (sort_key (\<lambda>(k, r). (a_created_at r, k)) (st_approvals s)))"

fun assign_approval_owners ::
  "string list \<Rightarrow> string \<Rightarrow> ('a store_state_scheme, exn, nat) act" where
  "assign_approval_owners [] o' = act_ret 0"
| "assign_approval_owners (aid # aids) o' = (\<lambda>s.
     case approval_get aid s of
       (Inl e, t) \<Rightarrow>
         if e = App Approval_Not_Found \<or> e = App Record_Corrupted
         then assign_approval_owners aids o' t else (Inl e, t)
     | (Inr a, t) \<Rightarrow>
         if a_owner_id a \<noteq> [] then assign_approval_owners aids o' t
         else act_then
                (write_approval (a\<lparr>a_owner_id := o',
                                   a_schema_version := max (a_schema_version a) 2\<rparr>))
                (act_bind (assign_approval_owners aids o') (\<lambda>n. act_ret (n + 1))) t)"

definition approval_assign_legacy_owner :: "string \<Rightarrow> ('a store_state_scheme, exn, nat) act" where
  "approval_assign_legacy_owner owner =
     act_bind (owner_arg owner) (\<lambda>o'.
       act_bind (act_get approval_list_stable) (\<lambda>ids. assign_approval_owners ids o'))"

definition approval_cross_check :: "'a store_state_scheme \<Rightarrow> (string \<times> drift_reason) list" where
  "approval_cross_check s =
     (if \<not> st_mirrored s then []
      else concat (map (drift_of (\<lambda>r k. obj_get (st_approvals s) k \<noteq> Some r) (st_approvals s))
                       (sort_key fst (st_approval_mirror s))))"

section \<open>Facts about the stores\<close>

named_theorems store_rules \<open>triples of the store operations\<close>

lemma st_io_quiet: "st_io s = [] \<Longrightarrow> s\<lparr>st_io := []\<rparr> = s"
  by (cases s) simp

lemma io_write_triple [act_rules]:
  assumes "\<And>s r. P s \<Longrightarrow> Q () (f (s\<lparr>st_io := r\<rparr>))"
    and "\<And>s r. P s \<Longrightarrow> E Os_Error (s\<lparr>st_io := r\<rparr>)"
    and "\<And>s r. P s \<Longrightarrow> E Os_Error (f (s\<lparr>st_io := r\<rparr>))"
  shows "act_triple P (io_write f) Q E"
proof -
  have "P s \<Longrightarrow> st_io s = [] \<Longrightarrow> Q () (f s)" for s
    using assms(1) [of s "[]"] by (simp add: st_io_quiet)
  then show ?thesis
    using assms by (auto simp: act_triple_def io_write_def split: list.splits io_outcome.splits)
qed

lemma io_write_doneE:
  assumes "io_write f s = (Inr u, t)"
  obtains r where "t = f (s\<lparr>st_io := r\<rparr>)"
proof -
  have "st_io s = [] \<Longrightarrow> f s = f (s\<lparr>st_io := []\<rparr>)" by (simp add: st_io_quiet)
  with assms that show ?thesis
    by (auto simp: io_write_def split: list.splits io_outcome.splits) (metis)+
qed

lemma io_writeE:
  assumes "io_write f s = (res, t)"
  obtains r where "t = f (s\<lparr>st_io := r\<rparr>)" "res = Inr () \<or> res = Inl Os_Error"
        | r where "t = s\<lparr>st_io := r\<rparr>" "res = Inl Os_Error"
proof -
  have "st_io s = [] \<Longrightarrow> f s = f (s\<lparr>st_io := []\<rparr>)" by (simp add: st_io_quiet)
  with assms that show ?thesis
    by (auto simp: io_write_def split: list.splits io_outcome.splits) (metis)+
qed

lemma io_write_quiet: "st_io s = [] \<Longrightarrow> io_write f s = (Inr (), f s)"
  by (simp add: io_write_def)

subsection \<open>A repository of keyed rows\<close>

text \<open>
  What the control plane relies on: reading changes nothing and returns the row under the key,
  a write touches at most the row of its record, and one that returns has stored it.
\<close>

locale keyed_repo =
  fixes rows :: "'s \<Rightarrow> (string \<times> 'r) list"
    and key :: "'r \<Rightarrow> string"
    and row_read :: "string \<Rightarrow> ('s, exn, 'r) act"
    and row_write :: "'r \<Rightarrow> ('s, exn, unit) act"
  assumes read_same: "row_read k s = (q, t) \<Longrightarrow> t = s"
    and read_row: "row_read k s = (Inr r, t) \<Longrightarrow> \<exists>row. obj_get (rows s) k = Some row \<and> key r = key row"
    and write_cases: "row_write r s = (res, t) \<Longrightarrow> rows t = rows s \<or> rows t = obj_put (rows s) (key r) r"
    and write_done: "row_write r s = (Inr u, t) \<Longrightarrow> rows t = obj_put (rows s) (key r) r"
begin

lemma write_get: "row_write r s = (Inr u, t) \<Longrightarrow> obj_get (rows t) (key r) = Some r"
  by (simp add: write_done)

lemma write_frame: "row_write r s = (res, t) \<Longrightarrow> k \<noteq> key r \<Longrightarrow> obj_get (rows t) k = obj_get (rows s) k"
  by (auto dest: write_cases)

lemma write_keyed:
  assumes "row_write r s = (res, t)" and "\<And>k row. obj_get (rows s) k = Some row \<Longrightarrow> key row = k"
  shows "obj_get (rows t) k = Some row \<Longrightarrow> key row = k"
  using write_cases [OF assms(1)] assms(2) by (auto split: if_splits)

lemma modify_cases:
  assumes "act_bind (row_read k) (\<lambda>r. act_then (row_write (fn r)) (act_ret (fn r))) s = (res, t)"
  shows "rows t = rows s \<or>
     (\<exists>r. row_read k s = (Inr r, s) \<and> rows t = obj_put (rows s) (key (fn r)) (fn r))"
proof (cases "row_read k s")
  case (Pair q s')
  with read_same have [simp]: "s' = s" by simp
  show ?thesis
  proof (cases q)
    case (Inl e)
    then show ?thesis using assms Pair by (simp add: act_bind_def)
  next
    case (Inr r)
    then show ?thesis using assms Pair write_cases [of "fn r" s]
      by (auto simp: act_bind_def act_then_def act_ret_def split: prod.splits sum.splits)
  qed
qed

lemma modify_done:
  assumes "act_bind (row_read k) (\<lambda>r. act_then (row_write (fn r)) (act_ret (fn r))) s = (Inr r', t)"
  shows "\<exists>r. row_read k s = (Inr r, s) \<and> r' = fn r \<and> rows t = obj_put (rows s) (key (fn r)) (fn r)"
proof (cases "row_read k s")
  case (Pair q s')
  with read_same have [simp]: "s' = s" by simp
  show ?thesis
  proof (cases q)
    case (Inl e)
    then show ?thesis using assms Pair by (simp add: act_bind_def)
  next
    case (Inr r)
    then show ?thesis using assms Pair write_done [of "fn r" s]
      by (auto simp: act_bind_def act_then_def act_ret_def split: prod.splits sum.splits)
  qed
qed

end

lemma put_task_row_simps [simp]:
  "st_tasks (put_task_row t s) = obj_put (st_tasks s) (t_task_id t) t"
  "st_approvals (put_task_row t s) = st_approvals s"
  "st_mirrored (put_task_row t s) = st_mirrored s"
  "st_task_mirror (put_task_row t s) = st_task_mirror s"
  "st_approval_mirror (put_task_row t s) = st_approval_mirror s"
  "st_clock (put_task_row t s) = st_clock s" "st_uuid (put_task_row t s) = st_uuid s"
  "st_io (put_task_row t s) = st_io s"
  "store_state.more (put_task_row t s) = store_state.more s"
  by (simp_all add: put_task_row_def upsert_run_def)

lemma put_approval_row_simps [simp]:
  "st_approvals (put_approval_row a s) = obj_put (st_approvals s) (a_approval_id a) a"
  "st_tasks (put_approval_row a s) = st_tasks s"
  "st_mirrored (put_approval_row a s) = st_mirrored s"
  "st_approval_mirror (put_approval_row a s) = st_approval_mirror s"
  "st_task_mirror (put_approval_row a s) = st_task_mirror s"
  "st_clock (put_approval_row a s) = st_clock s" "st_uuid (put_approval_row a s) = st_uuid s"
  "st_runs (put_approval_row a s) = st_runs s" "st_io (put_approval_row a s) = st_io s"
  "store_state.more (put_approval_row a s) = store_state.more s"
  by (simp_all add: put_approval_row_def)

lemma task_read_eq:
  "task_read tid s =
     (case obj_get (st_tasks s) tid of
        None \<Rightarrow> (Inl (Record_Not_Found tid), s)
      | Some row \<Rightarrow>
          (case canonical_owner_id (t_owner_id row) of
             None \<Rightarrow> (Inl (App Record_Corrupted), s)
           | Some o' \<Rightarrow> (Inr (row\<lparr>t_owner_id := o'\<rparr>), s)))"
  by (simp add: task_read_def task_read_payload_def task_from_payload_def act_defs split: option.splits)

lemma task_get_eq:
  "task_get tid s =
     (case obj_get (st_tasks s) tid of
        None \<Rightarrow> (Inl (App Task_Not_Found), s)
      | Some row \<Rightarrow>
          (case canonical_owner_id (t_owner_id row) of
             None \<Rightarrow> (Inl (App Record_Corrupted), s)
           | Some o' \<Rightarrow> (Inr (row\<lparr>t_owner_id := o'\<rparr>), s)))"
  by (simp add: task_get_def task_read_eq act_defs split: option.splits)

lemma approval_read_eq:
  "approval_read aid s =
     (case obj_get (st_approvals s) aid of
        None \<Rightarrow> (Inl (Record_Not_Found aid), s)
      | Some row \<Rightarrow>
          (case canonical_owner_id (a_owner_id row) of
             None \<Rightarrow> (Inl (App Record_Corrupted), s)
           | Some o' \<Rightarrow> (Inr (row\<lparr>a_owner_id := o'\<rparr>), s)))"
  by (simp add: approval_read_def approval_from_payload_def act_defs split: option.splits)

lemma approval_get_eq:
  "approval_get aid s =
     (case obj_get (st_approvals s) aid of
        None \<Rightarrow> (Inl (App Approval_Not_Found), s)
      | Some row \<Rightarrow>
          (case canonical_owner_id (a_owner_id row) of
             None \<Rightarrow> (Inl (App Record_Corrupted), s)
           | Some o' \<Rightarrow> (Inr (row\<lparr>a_owner_id := o'\<rparr>), s)))"
  by (simp add: approval_get_def approval_read_eq act_defs split: option.splits)

lemma write_task_rows:
  "act_triple (\<lambda>s. st_tasks s = d) (write_task t)
     (\<lambda>_ s. st_tasks s = obj_put d (t_task_id t) t)
     (\<lambda>_ s. st_tasks s = d \<or> st_tasks s = obj_put d (t_task_id t) t)"
  unfolding write_task_def task_mirror_write_def
  by (rule act_triple_then [where R = "\<lambda>s. st_tasks s = obj_put d (t_task_id t) t"])
    (auto intro!: act_rules)

lemma write_approval_rows:
  "act_triple (\<lambda>s. st_approvals s = d) (write_approval a)
     (\<lambda>_ s. st_approvals s = obj_put d (a_approval_id a) a)
     (\<lambda>_ s. st_approvals s = d \<or> st_approvals s = obj_put d (a_approval_id a) a)"
  unfolding write_approval_def approval_mirror_write_def
  by (rule act_triple_then [where R = "\<lambda>s. st_approvals s = obj_put d (a_approval_id a) a"])
    (auto intro!: act_rules)

interpretation tasks: keyed_repo st_tasks t_task_id task_read write_task
proof (unfold_locales, goal_cases)
  case 1 then show ?case by (simp add: task_read_eq split: option.splits)
next
  case 2 then show ?case by (auto simp: task_read_eq split: option.splits)
next
  case (3 r s res t)
  then show ?case
    by (cases res) (auto dest: act_triple_retD [OF write_task_rows refl]
        act_triple_raiseD [OF write_task_rows refl])
next
  case (4 r s u t)
  then show ?case by (auto dest: act_triple_retD [OF write_task_rows refl])
qed

interpretation approvals: keyed_repo st_approvals a_approval_id approval_read write_approval
proof (unfold_locales, goal_cases)
  case 1 then show ?case by (simp add: approval_read_eq split: option.splits)
next
  case 2 then show ?case by (auto simp: approval_read_eq split: option.splits)
next
  case (3 r s res t)
  then show ?case
    by (cases res) (auto dest: act_triple_retD [OF write_approval_rows refl]
        act_triple_raiseD [OF write_approval_rows refl])
next
  case (4 r s u t)
  then show ?case by (auto dest: act_triple_retD [OF write_approval_rows refl])
qed

subsection \<open>Updating a task\<close>

lemma task_update_eq:
  "task_update tid fn expected s =
     (case task_read tid s of
        (Inl e, t) \<Rightarrow> (Inl e, t)
      | (Inr task, t) \<Rightarrow>
          if expected \<noteq> None \<and> expected \<noteq> Some (t_generation task) then (Inl Stale_Generation, t)
          else act_then (write_task ((fn task)\<lparr>t_updated_at := st_clock t\<rparr>))
                 (act_ret ((fn task)\<lparr>t_updated_at := st_clock t\<rparr>)) t)"
  by (simp add: task_update_def act_bind_def utc_now_def act_get_def act_raise_def Let_def
      split: prod.splits sum.splits)

lemma task_updateE:
  assumes "task_update tid fn expected s = (res, t)"
  obtains (missing) e where "res = Inl e" "t = s" "\<forall>row. task_read tid s \<noteq> (Inr row, s)"
  | (stale) task where "task_read tid s = (Inr task, s)" "expected \<noteq> None"
      "expected \<noteq> Some (t_generation task)" "res = Inl Stale_Generation" "t = s"
  | (wrote) task q where "task_read tid s = (Inr task, s)"
      "expected = None \<or> expected = Some (t_generation task)"
      "write_task ((fn task)\<lparr>t_updated_at := st_clock s\<rparr>) s = (q, t)"
      "res = map_sum id (\<lambda>_. (fn task)\<lparr>t_updated_at := st_clock s\<rparr>) q"
proof (cases "task_read tid s")
  case (Pair q s')
  then have [simp]: "s' = s" by (rule tasks.read_same)
  show ?thesis
  proof (cases q)
    case (Inl e)
    then show ?thesis using assms Pair by (intro missing [of e]) (auto simp: task_update_eq)
  next
    case (Inr task)
    show ?thesis
    proof (cases "expected \<noteq> None \<and> expected \<noteq> Some (t_generation task)")
      case True
      then show ?thesis using assms Pair Inr by (intro stale) (auto simp: task_update_eq)
    next
      case False
      obtain w t' where w: "write_task ((fn task)\<lparr>t_updated_at := st_clock s\<rparr>) s = (w, t')" by fastforce
      then have "res = map_sum id (\<lambda>_. (fn task)\<lparr>t_updated_at := st_clock s\<rparr>) w \<and> t = t'"
        using assms Pair Inr False
        by (auto simp: task_update_eq act_then_def act_bind_def act_ret_def split: sum.splits)
      with w Pair Inr False show ?thesis by (intro wrote) auto
    qed
  qed
qed

lemma task_read_idD:
  "task_read tid s = (Inr task, t) \<Longrightarrow> (\<And>k row. obj_get (st_tasks s) k = Some row \<Longrightarrow> t_task_id row = k)
    \<Longrightarrow> t_task_id task = tid"
  by (fastforce dest!: tasks.read_row)

lemma task_update_frame:
  assumes "task_update tid fn expected s = (res, t)"
    and "\<And>k row. obj_get (st_tasks s) k = Some row \<Longrightarrow> t_task_id row = k"
    and "\<And>task. t_task_id (fn task) = t_task_id task" and "k \<noteq> tid"
  shows "obj_get (st_tasks t) k = obj_get (st_tasks s) k"
  using assms(1)
proof (cases rule: task_updateE)
  case (wrote task q)
  have "t_task_id task = tid" using wrote(1) assms(2) by (rule task_read_idD)
  then show ?thesis using tasks.write_frame [OF wrote(3), of k] assms(3,4) by simp
qed auto

subsection \<open>Weakest preconditions of the operations\<close>

lemma io_write_wp [wp_rules]:
  assumes "\<And>r. Q () (f (s\<lparr>st_io := r\<rparr>))" and "\<And>r. E Os_Error (s\<lparr>st_io := r\<rparr>)"
    and "\<And>r. E Os_Error (f (s\<lparr>st_io := r\<rparr>))"
  shows "act_wp (io_write f) Q E s"
  using assms by (intro act_wpI) (auto elim!: io_writeE)

lemma utc_now_wp [wp_simps]: "act_wp utc_now Q E s \<longleftrightarrow> Q (st_clock s) s"
  by (simp add: utc_now_def wp_simps)

lemma fresh_id_wp [wp_simps]:
  "act_wp (fresh_id p) Q E s \<longleftrightarrow> Q (p @ nat_str (st_uuid s)) (s\<lparr>st_uuid := st_uuid s + 1\<rparr>)"
  by (simp add: fresh_id_def act_wp_def)

lemma task_get_wp [wp_simps]:
  "act_wp (task_get tid) Q E s \<longleftrightarrow>
     (case obj_get (st_tasks s) tid of
        None \<Rightarrow> E (App Task_Not_Found) s
      | Some row \<Rightarrow>
          (case canonical_owner_id (t_owner_id row) of
             None \<Rightarrow> E (App Record_Corrupted) s
           | Some o' \<Rightarrow> Q (row\<lparr>t_owner_id := o'\<rparr>) s))"
  by (simp add: act_wp_def task_get_eq split: option.split)

lemma approval_get_wp [wp_simps]:
  "act_wp (approval_get aid) Q E s \<longleftrightarrow>
     (case obj_get (st_approvals s) aid of
        None \<Rightarrow> E (App Approval_Not_Found) s
      | Some row \<Rightarrow>
          (case canonical_owner_id (a_owner_id row) of
             None \<Rightarrow> E (App Record_Corrupted) s
           | Some o' \<Rightarrow> Q (row\<lparr>a_owner_id := o'\<rparr>) s))"
  by (simp add: act_wp_def approval_get_eq split: option.split)

text \<open>The rows after a write, with whatever else of the store the write may have touched.\<close>

definition task_written ::
  "task \<Rightarrow> (string \<times> run_row) list \<Rightarrow> (string \<times> task option) list \<Rightarrow> io_outcome list
     \<Rightarrow> 'a store_state_scheme \<Rightarrow> 'a store_state_scheme" where
  "task_written u runs mir os s =
     s\<lparr>st_tasks := obj_put (st_tasks s) (t_task_id u) u, st_runs := runs, st_task_mirror := mir, st_io := os\<rparr>"

definition approval_written ::
  "approval \<Rightarrow> (string \<times> approval option) list \<Rightarrow> io_outcome list
     \<Rightarrow> 'a store_state_scheme \<Rightarrow> 'a store_state_scheme" where
  "approval_written a mir os s =
     s\<lparr>st_approvals := obj_put (st_approvals s) (a_approval_id a) a, st_approval_mirror := mir, st_io := os\<rparr>"

lemma put_task_row_written:
  "put_task_row u (s\<lparr>st_io := r\<rparr>) = task_written u (st_runs (upsert_run u s)) (st_task_mirror s) r s"
  by (simp add: put_task_row_def upsert_run_def task_written_def)

lemma put_approval_row_written:
  "put_approval_row a (s\<lparr>st_io := r\<rparr>) = approval_written a (st_approval_mirror s) r s"
  by (simp add: put_approval_row_def approval_written_def)

lemma task_written_more [simp]:
  "(task_written u runs mir os s)\<lparr>st_io := r\<rparr> = task_written u runs mir r s"
  "(task_written u runs mir os s)\<lparr>st_task_mirror := m\<rparr> = task_written u runs m os s"
  "st_mirrored (task_written u runs mir os s) = st_mirrored s"
  by (simp_all add: task_written_def)

lemma approval_written_more [simp]:
  "(approval_written a mir os s)\<lparr>st_io := r\<rparr> = approval_written a mir r s"
  "(approval_written a mir os s)\<lparr>st_approval_mirror := m\<rparr> = approval_written a m os s"
  "st_mirrored (approval_written a mir os s) = st_mirrored s"
  by (simp_all add: approval_written_def)

lemma write_task_wp [wp_rules]:
  assumes "\<And>runs mir os. Q () (task_written u runs mir os s)"
    and "\<And>runs mir os. E Os_Error (task_written u runs mir os s)"
    and "\<And>os. E Os_Error (s\<lparr>st_io := os\<rparr>)"
  shows "act_wp (write_task u) Q E s"
  unfolding write_task_def task_mirror_write_def
  using assms by (auto simp: wp_simps put_task_row_written intro!: io_write_wp)

lemma write_approval_wp [wp_rules]:
  assumes "\<And>mir os. Q () (approval_written a mir os s)"
    and "\<And>mir os. E Os_Error (approval_written a mir os s)"
    and "\<And>os. E Os_Error (s\<lparr>st_io := os\<rparr>)"
  shows "act_wp (write_approval a) Q E s"
  unfolding write_approval_def approval_mirror_write_def
  using assms by (auto simp: wp_simps put_approval_row_written intro!: io_write_wp)

lemma task_read_wp [wp_simps]:
  "act_wp (task_read tid) Q E s \<longleftrightarrow>
     (case obj_get (st_tasks s) tid of
        None \<Rightarrow> E (Record_Not_Found tid) s
      | Some row \<Rightarrow>
          (case canonical_owner_id (t_owner_id row) of
             None \<Rightarrow> E (App Record_Corrupted) s
           | Some o' \<Rightarrow> Q (row\<lparr>t_owner_id := o'\<rparr>) s))"
  by (simp add: act_wp_def task_read_eq split: option.split)

lemma approval_read_wp [wp_simps]:
  "act_wp (approval_read aid) Q E s \<longleftrightarrow>
     (case obj_get (st_approvals s) aid of
        None \<Rightarrow> E (Record_Not_Found aid) s
      | Some row \<Rightarrow>
          (case canonical_owner_id (a_owner_id row) of
             None \<Rightarrow> E (App Record_Corrupted) s
           | Some o' \<Rightarrow> Q (row\<lparr>a_owner_id := o'\<rparr>) s))"
  by (simp add: act_wp_def approval_read_eq split: option.split)

lemma task_update_wp [wp_rules]:
  assumes "\<And>row o' runs mir os u. obj_get (st_tasks s) tid = Some row \<Longrightarrow>
        canonical_owner_id (t_owner_id row) = Some o' \<Longrightarrow>
        expected = None \<or> expected = Some (t_generation row) \<Longrightarrow>
        u = (fn (row\<lparr>t_owner_id := o'\<rparr>))\<lparr>t_updated_at := st_clock s\<rparr> \<Longrightarrow>
        Q u (task_written u runs mir os s) \<and> E Os_Error (task_written u runs mir os s)"
    and "\<And>e. e = Record_Not_Found tid \<Longrightarrow> obj_get (st_tasks s) tid = None \<Longrightarrow> E e s"
    and "\<And>row. obj_get (st_tasks s) tid = Some row \<Longrightarrow> canonical_owner_id (t_owner_id row) = None \<Longrightarrow>
        E (App Record_Corrupted) s"
    and "\<And>row. obj_get (st_tasks s) tid = Some row \<Longrightarrow> expected \<noteq> None \<Longrightarrow>
        expected \<noteq> Some (t_generation row) \<Longrightarrow> E Stale_Generation s"
    and "\<And>os. E Os_Error (s\<lparr>st_io := os\<rparr>)"
  shows "act_wp (task_update tid fn expected) Q E s"
proof (cases "obj_get (st_tasks s) tid")
  case None
  then show ?thesis using assms(2) by (simp add: task_update_def wp_simps)
next
  case (Some row)
  show ?thesis
  proof (cases "canonical_owner_id (t_owner_id row)")
    case None
    with Some assms(3) show ?thesis by (simp add: task_update_def wp_simps)
  next
    case (Some o')
    note row = \<open>obj_get (st_tasks s) tid = Some row\<close> \<open>canonical_owner_id (t_owner_id row) = Some o'\<close>
    show ?thesis
    proof (cases "expected = None \<or> expected = Some (t_generation row)")
      case False
      then show ?thesis using assms(4) [OF row(1)] by (simp add: task_update_def wp_simps row)
    next
      case True
      let ?u = "(fn (row\<lparr>t_owner_id := o'\<rparr>))\<lparr>t_updated_at := st_clock s\<rparr>"
      have "act_wp (write_task ?u) (\<lambda>_. Q ?u) E s"
        using assms(1) [OF row True refl] assms(5) by (intro write_task_wp) auto
      then show ?thesis using True by (auto simp: task_update_def wp_simps row Let_def)
    qed
  qed
qed

lemma approval_update_wp [wp_rules]:
  assumes "\<And>row o' mir os. obj_get (st_approvals s) aid = Some row \<Longrightarrow>
        canonical_owner_id (a_owner_id row) = Some o' \<Longrightarrow>
        Q (fn (row\<lparr>a_owner_id := o'\<rparr>)) (approval_written (fn (row\<lparr>a_owner_id := o'\<rparr>)) mir os s)
        \<and> E Os_Error (approval_written (fn (row\<lparr>a_owner_id := o'\<rparr>)) mir os s)"
    and "\<And>e. e = Record_Not_Found aid \<Longrightarrow> obj_get (st_approvals s) aid = None \<Longrightarrow> E e s"
    and "\<And>row. obj_get (st_approvals s) aid = Some row \<Longrightarrow> canonical_owner_id (a_owner_id row) = None \<Longrightarrow>
        E (App Record_Corrupted) s"
    and "\<And>os. E Os_Error (s\<lparr>st_io := os\<rparr>)"
  shows "act_wp (approval_update aid fn) Q E s"
  unfolding approval_update_def
  using assms by (auto simp: wp_simps intro!: write_approval_wp split: option.split)

lemma approval_create_wp [wp_rules]:
  assumes "\<And>mir os. obj_get (st_approvals s) (a_approval_id a) = None \<Longrightarrow>
        Q a (approval_written a mir os s) \<and> E Os_Error (approval_written a mir os s)"
    and "\<And>row. obj_get (st_approvals s) (a_approval_id a) = Some row \<Longrightarrow> E (App Record_Corrupted) s"
    and "\<And>os. E Os_Error (s\<lparr>st_io := os\<rparr>)"
  shows "act_wp (approval_create a) Q E s"
  unfolding approval_create_def
  using assms by (auto simp: wp_simps intro!: write_approval_wp split: option.split)

subsection \<open>The mirror\<close>

lemma write_task_files:
  "act_triple (\<lambda>s. st_tasks s = d \<and> st_task_mirror s = m \<and> st_mirrored s) (write_task t)
     (\<lambda>_ s. st_tasks s = obj_put d (t_task_id t) t \<and> st_mirrored s
            \<and> st_task_mirror s = obj_put m (t_task_id t) (Some t))
     (\<lambda>_ s. st_mirrored s
        \<and> (st_task_mirror s = m \<and> (st_tasks s = d \<or> st_tasks s = obj_put d (t_task_id t) t)
           \<or> st_tasks s = obj_put d (t_task_id t) t
             \<and> st_task_mirror s = obj_put m (t_task_id t) (Some t)))"
  unfolding write_task_def task_mirror_write_def
  by (rule act_triple_then [where R =
        "\<lambda>s. st_tasks s = obj_put d (t_task_id t) t \<and> st_task_mirror s = m \<and> st_mirrored s"],
      force intro!: act_rules,
      rule act_triple_bind [where R =
        "\<lambda>b s. b \<and> st_tasks s = obj_put d (t_task_id t) t \<and> st_task_mirror s = m \<and> st_mirrored s"])
    (auto intro!: act_rules)

lemma drift_of_key: "(k, why) \<in> set (drift_of differs rows (k', f)) \<Longrightarrow> k = k'"
  by (auto simp: drift_of_def split: option.splits if_splits)

lemma task_drift_iff:
  assumes "st_mirrored s" and "distinct (map fst (st_task_mirror s))"
  shows "(k, why) \<in> set (task_cross_check s) \<longleftrightarrow>
    (case obj_get (st_task_mirror s) k of
       None \<Rightarrow> False
     | Some None \<Rightarrow> why = Json_Corrupted
     | Some (Some r) \<Rightarrow>
         (case obj_get (st_tasks s) k of
            None \<Rightarrow> why = Missing_In_Sqlite
          | Some r' \<Rightarrow> r' \<noteq> r \<and> why = Diverged))"
proof -
  have "(k, f) \<in> set (st_task_mirror s) \<longleftrightarrow> obj_get (st_task_mirror s) k = Some f" for f
    using assms(2) by (simp add: obj_get_map_of)
  moreover have "(k, why) \<in> set (task_cross_check s) \<longleftrightarrow>
     (\<exists>f. (k, f) \<in> set (st_task_mirror s) \<and>
       (k, why) \<in> set (drift_of (\<lambda>r k. obj_get (st_tasks s) k \<noteq> Some r) (st_tasks s) (k, f)))"
    using assms(1) by (auto simp: task_cross_check_def dest: drift_of_key)
  ultimately show ?thesis
    by (auto simp: drift_of_def split: option.splits)
qed

text \<open>A write that raised leaves the tables as they were, or the row written, or the row and its file.\<close>

lemma write_task_raised:
  assumes "st_mirrored s" and "distinct (map fst (st_task_mirror s))" and "task_cross_check s = []"
    and "write_task u s = (Inl e, t)"
    and "obj_get (st_tasks t) (t_task_id u) = obj_get (st_tasks s) (t_task_id u)"
  shows "task_cross_check t = []"
proof -
  note files = write_task_files [of "st_tasks s" "st_task_mirror s" u]
  have old: "\<not> (case obj_get (st_task_mirror s) k of
       None \<Rightarrow> False | Some None \<Rightarrow> why = Json_Corrupted
     | Some (Some r) \<Rightarrow> (case obj_get (st_tasks s) k of
            None \<Rightarrow> why = Missing_In_Sqlite | Some r' \<Rightarrow> r' \<noteq> r \<and> why = Diverged))" for k why
    using task_drift_iff [OF assms(1,2)] assms(3) by auto
  have d: "distinct (map fst (obj_put (st_task_mirror s) (t_task_id u) (Some u)))"
    using assms(2) by (rule distinct_obj_put)
  have tables: "st_mirrored t" "st_tasks t = st_tasks s \<or> st_tasks t = obj_put (st_tasks s) (t_task_id u) u"
    "st_task_mirror t = st_task_mirror s \<or> st_task_mirror t = obj_put (st_task_mirror s) (t_task_id u) (Some u) \<and>
       st_tasks t = obj_put (st_tasks s) (t_task_id u) u"
    using act_triple_raiseD [OF files _ assms(4)] assms(1) by auto
  have rows: "obj_get (st_tasks t) k = obj_get (st_tasks s) k" for k
    using tables(2) assms(5) by (auto split: if_splits)
  have "(k, why) \<notin> set (task_cross_check t)" for k why
    using tables(3)
  proof
    assume m: "st_task_mirror t = st_task_mirror s"
    have "\<not> (case obj_get (st_task_mirror t) k of
       None \<Rightarrow> False | Some None \<Rightarrow> why = Json_Corrupted
     | Some (Some r) \<Rightarrow> (case obj_get (st_tasks t) k of
            None \<Rightarrow> why = Missing_In_Sqlite | Some r' \<Rightarrow> r' \<noteq> r \<and> why = Diverged))"
      using old [where k = k and why = why] unfolding m rows .
    moreover have "distinct (map fst (st_task_mirror t))" using assms(2) by (simp add: m)
    ultimately show ?thesis using task_drift_iff [of t, where k = k and why = why] tables(1) by simp
  next
    assume m: "st_task_mirror t = obj_put (st_task_mirror s) (t_task_id u) (Some u) \<and>
       st_tasks t = obj_put (st_tasks s) (t_task_id u) u"
    then show ?thesis using old [where k = k and why = why] task_drift_iff [of t, where k = k and why = why] tables(1) d
      by (auto split: option.splits)
  qed
  then show ?thesis by (metis list.set_intros(1) neq_Nil_conv prod.collapse)
qed

lemma write_task_drift:
  assumes "st_mirrored s" and "distinct (map fst (st_task_mirror s))" and "task_cross_check s = []"
    and "write_task u s = (q, t)"
  shows "set (task_cross_check t) \<subseteq> (case q of Inr _ \<Rightarrow> {} | Inl _ \<Rightarrow> {(t_task_id u, Diverged)})"
proof -
  have old: "\<not> (case obj_get (st_task_mirror s) k of
       None \<Rightarrow> False | Some None \<Rightarrow> why = Json_Corrupted
     | Some (Some r) \<Rightarrow> (case obj_get (st_tasks s) k of
            None \<Rightarrow> why = Missing_In_Sqlite | Some r' \<Rightarrow> r' \<noteq> r \<and> why = Diverged))" for k why
    using task_drift_iff [OF assms(1,2)] assms(3) by auto
  have d: "distinct (map fst (obj_put (st_task_mirror s) (t_task_id u) (Some u)))"
    using assms(2) by (rule distinct_obj_put)
  note files = write_task_files [of "st_tasks s" "st_task_mirror s" u]
  show ?thesis
  proof (cases q)
    case (Inr a)
    with act_triple_retD [OF files _ assms(4) [unfolded Inr]] assms(1)
    have t: "st_tasks t = obj_put (st_tasks s) (t_task_id u) u" "st_mirrored t"
      "st_task_mirror t = obj_put (st_task_mirror s) (t_task_id u) (Some u)" by auto
    have "(k, why) \<notin> set (task_cross_check t)" for k why
      using old [where k = k and why = why] task_drift_iff [of t, where k = k and why = why] t d
      by (auto split: option.splits)
    then have "set (task_cross_check t) = {}" by (metis equals0I prod.collapse)
    then show ?thesis by simp
  next
    case (Inl e)
    with act_triple_raiseD [OF files _ assms(4) [unfolded Inl]] assms(1)
    consider "st_mirrored t" "st_task_mirror t = st_task_mirror s" "st_tasks t = st_tasks s"
      | "st_mirrored t" "st_task_mirror t = st_task_mirror s"
        "st_tasks t = obj_put (st_tasks s) (t_task_id u) u"
      | "st_tasks t = obj_put (st_tasks s) (t_task_id u) u" "st_mirrored t"
        "st_task_mirror t = obj_put (st_task_mirror s) (t_task_id u) (Some u)" by auto
    then have "(k, why) \<in> set (task_cross_check t) \<Longrightarrow> k = t_task_id u \<and> why = Diverged" for k why
    proof cases
      case 1 then show "(k, why) \<in> set (task_cross_check t) \<Longrightarrow> k = t_task_id u \<and> why = Diverged"
        using old [where k = k and why = why] task_drift_iff [of t, where k = k and why = why] assms(2)
        by (auto split: option.splits)
    next
      case 2 then show "(k, why) \<in> set (task_cross_check t) \<Longrightarrow> k = t_task_id u \<and> why = Diverged"
        using old [where k = k and why = why] old [where k = k and why = Missing_In_Sqlite] old [where k = k and why = Json_Corrupted]
          task_drift_iff [of t, where k = k and why = why] assms(2)
        by (auto split: option.splits if_splits)
    next
      case 3 then show "(k, why) \<in> set (task_cross_check t) \<Longrightarrow> k = t_task_id u \<and> why = Diverged"
        using old [where k = k and why = why] task_drift_iff [of t, where k = k and why = why] d by (auto split: option.splits if_splits)
    qed
    then show ?thesis by (auto simp: Inl)
  qed
qed

subsection \<open>Deleting\<close>

lemma task_get_for_owner_eq:
  assumes "canonical_owner_id owner = Some o'"
  shows "task_get_for_owner tid owner s =
     (case obj_get (st_tasks s) tid of
        None \<Rightarrow> (Inl (App Task_Not_Found), s)
      | Some row \<Rightarrow>
          (case canonical_owner_id (t_owner_id row) of
             None \<Rightarrow> (Inl (App Record_Corrupted), s)
           | Some p \<Rightarrow>
               if p = o' then (Inr (row\<lparr>t_owner_id := p\<rparr>), s) else (Inl (App Task_Not_Found), s)))"
  using assms by (auto simp: task_get_for_owner_def task_get_eq act_defs owner_arg_def split: option.splits)

lemma deletable_tasks_cases:
  assumes "canonical_owner_id o' = Some o'"
    and "\<And>k row. obj_get (st_tasks s) k = Some row \<Longrightarrow> t_task_id row = k"
    and "deletable_tasks tids o' s = (q, t)"
  shows "t = s \<and> (case q of Inl _ \<Rightarrow> True | Inr removed \<Rightarrow>
     (\<forall>k\<in>set removed. k \<in> set tids \<and> (\<exists>row. obj_get (st_tasks s) k = Some row
        \<and> task_terminal (t_status row) \<and> canonical_owner_id (t_owner_id row) = Some o')))"
  using assms(3)
proof (induction tids arbitrary: q t)
  case Nil
  then show ?case by (auto simp: act_ret_def)
next
  case (Cons tid tids)
  show ?case
  proof (cases "task_get_for_owner tid o' s")
    case (Pair w s')
    then have [simp]: "s' = s"
      by (auto simp: task_get_for_owner_eq [OF assms(1)] split: option.splits if_splits)
    show ?thesis
    proof (cases w)
      case (Inl e)
      then show ?thesis
        using Cons.prems Pair Cons.IH [of q t] by (auto split: if_splits sum.splits)
    next
      case (Inr task)
      obtain row where row: "obj_get (st_tasks s) tid = Some row" "t_status task = t_status row"
        "canonical_owner_id (t_owner_id row) = Some o'" "t_task_id task = tid"
        using Pair Inr assms(2)
        by (auto simp: task_get_for_owner_eq [OF assms(1)] split: option.splits if_splits)
      obtain r v where rest: "deletable_tasks tids o' s = (r, v)" by fastforce
      show ?thesis
        using Cons.prems Pair Inr row rest Cons.IH [OF rest]
        by (auto simp: act_bind_def act_ret_def split: if_splits sum.splits)
    qed
  qed
qed

lemma fold_obj_pop_get:
  "obj_get (fold (\<lambda>k d. obj_pop d k) ks d) k = (if k \<in> set ks then None else obj_get d k)"
  by (induction ks arbitrary: d) auto

lemma delete_mirror_keeps_rows:
  "act_keeps (\<lambda>s. st_tasks s = d)
     (act_bind (act_get st_mirrored) (\<lambda>m. act_then
        (act_when m (act_each (\<lambda>tid.
           io_write (\<lambda>s. s\<lparr>st_task_mirror := obj_pop (st_task_mirror s) tid\<rparr>)) removed))
        (act_ret removed)))"
  by (rule act_triple_bind [where R = "\<lambda>_ s. st_tasks s = d"], rule act_rules, simp,
      rule act_triple_then [where R = "\<lambda>s. st_tasks s = d"])
    (auto intro!: act_rules)

lemma task_delete_many_cases:
  assumes "canonical_owner_id owner = Some o'"
    and "\<And>k row. obj_get (st_tasks s) k = Some row \<Longrightarrow> t_task_id row = k"
    and "task_delete_many tids owner s = (q, t)"
  shows "(\<exists>removed. (st_tasks t = fold (\<lambda>k d. obj_pop d k) removed (st_tasks s)
              \<and> (\<forall>r. q = Inr r \<longrightarrow> r = removed)
              \<and> (\<forall>k\<in>set removed. k \<in> set tids \<and> (\<exists>row. obj_get (st_tasks s) k = Some row
                   \<and> task_terminal (t_status row) \<and> canonical_owner_id (t_owner_id row) = Some o')))
          \<or> (st_tasks t = st_tasks s \<and> (\<exists>e. q = Inl e)))"
proof (cases "tids = []")
  case True
  then show ?thesis using assms(1,3)
    by (intro exI [of _ "[]"]) (auto simp: task_delete_many_def owner_arg_def act_defs)
next
  case False
  let ?del = "\<lambda>removed. act_then
      (io_write (\<lambda>s. s\<lparr>st_tasks := fold (\<lambda>tid d. obj_pop d tid) removed (st_tasks s)\<rparr>))
      (act_bind (act_get st_mirrored) (\<lambda>m. act_then
         (act_when m (act_each (\<lambda>tid.
            io_write (\<lambda>s. s\<lparr>st_task_mirror := obj_pop (st_task_mirror s) tid\<rparr>)) removed))
         (act_ret removed)))"
  have o': "canonical_owner_id o' = Some o'" using assms(1) by (rule canonical_owner_id_fixed)
  obtain w v where w: "deletable_tasks tids o' s = (w, v)" by fastforce
  from deletable_tasks_cases [OF o' assms(2) w] have v [simp]: "v = s" by simp
  have run: "act_bind (deletable_tasks tids o') ?del s = (q, t)"
    using assms(1,3) False by (simp add: task_delete_many_def owner_arg_def)
  show ?thesis
  proof (cases w)
    case (Inl e)
    with run w show ?thesis by (auto simp: act_bind_def)
  next
    case (Inr removed)
    have tr: "act_triple (\<lambda>u. st_tasks u = st_tasks s) (?del removed)
      (\<lambda>_ u. st_tasks u = fold (\<lambda>k d. obj_pop d k) removed (st_tasks s))
      (\<lambda>_ u. st_tasks u = st_tasks s
           \<or> st_tasks u = fold (\<lambda>k d. obj_pop d k) removed (st_tasks s))"
      by (rule act_triple_then [OF _ act_triple_conseq [OF delete_mirror_keeps_rows
              [of "fold (\<lambda>k d. obj_pop d k) removed (st_tasks s)"]]])
        (auto intro!: act_rules)
    have ret: "act_triple (\<lambda>_. True) (?del removed) (\<lambda>r _. r = removed) (\<lambda>_ _. True)"
      by (auto intro!: act_rules act_triple_then [where R = "\<lambda>_. True"]
          act_triple_bind [where R = "\<lambda>_ _. True"])
    have d: "?del removed s = (q, t)" using run w Inr by (simp add: act_bind_def)
    have owned: "\<forall>k\<in>set removed. k \<in> set tids \<and> (\<exists>row. obj_get (st_tasks s) k = Some row
        \<and> task_terminal (t_status row) \<and> canonical_owner_id (t_owner_id row) = Some o')"
      using deletable_tasks_cases [OF o' assms(2) w] by (simp add: Inr)
    show ?thesis
    proof (cases q)
      case failed: (Inl e)
      show ?thesis
        using act_triple_raiseD [OF tr refl d [unfolded failed]]
      proof
        assume "st_tasks t = st_tasks s"
        then show ?thesis by (simp add: failed)
      next
        assume "st_tasks t = fold (\<lambda>k d. obj_pop d k) removed (st_tasks s)"
        then show ?thesis using owned by (intro disjI1 exI [of _ removed]) (simp add: failed)
      qed
    next
      case ok: (Inr r)
      have "r = removed" by (rule act_triple_retD [OF ret TrueI d [unfolded ok]])
      moreover have "st_tasks t = fold (\<lambda>k d. obj_pop d k) removed (st_tasks s)"
        by (rule act_triple_retD [OF tr refl d [unfolded ok]])
      ultimately show ?thesis using owned by (intro disjI1 exI [of _ removed]) (simp add: ok)
    qed
  qed
qed

subsection \<open>Legacy owners\<close>

lemma canonical_owner_id_nonempty: "canonical_owner_id s \<noteq> Some []"
  by (auto dest: canonical_owner_id_fixed)

lemma assign_task_owners_idle: "assign_task_owners tids o' s = (Inr 0, s)"
proof (induction tids)
  case (Cons tid tids)
  then show ?case
    using canonical_owner_id_nonempty by (auto simp: task_get_eq split: option.splits)
qed (simp add: act_ret_def)

lemma assign_approval_owners_idle: "assign_approval_owners aids o' s = (Inr 0, s)"
proof (induction aids)
  case (Cons aid aids)
  then show ?case
    using canonical_owner_id_nonempty by (auto simp: approval_get_eq split: option.splits)
qed (simp add: act_ret_def)

section \<open>Properties\<close>

definition sample_owner :: string where
  "sample_owner = uuid_str 1"

definition sample_task :: task where
  "sample_task = (new_task 10 ''task_1'' ''ses_1'' ''ws'' sample_owner ''run_1'' ''hello'')\<lparr>t_status := Running\<rparr>"

definition sample_store :: "io_outcome list \<Rightarrow> store_state" where
  "sample_store io =
     \<lparr>st_tasks = [(''task_1'', sample_task)], st_approvals = [], st_runs = [], st_mirrored = True,
      st_task_mirror = [(''task_1'', Some sample_task)], st_approval_mirror = [], st_io = io,
      st_clock = 20, st_uuid = 0\<rparr>"

lemma canonical_owner_id_sample [simp]: "canonical_owner_id sample_owner = Some sample_owner"
  by (simp add: canonical_owner_id_def sample_owner_def uuid_int_str)

text \<open>
  C34. An update keeps the database and its mirror in agreement: if the cross check was clean before, it
  is clean after every update that returns, and the row is the one returned.  After an update that raises
  (a missing record, a stale generation, a failed commit or a failed mirror write) it is clean as well
  when the row in the database is as it was; when the row was written all the same, the cross check
  reports at most that very record, as diverged.
\<close>

theorem task_update_drift:
  assumes "st_mirrored s" and "distinct (map fst (st_task_mirror s))" and "task_cross_check s = []"
    and keyed: "\<And>k row. obj_get (st_tasks s) k = Some row \<Longrightarrow> t_task_id row = k"
    and same: "\<And>task. t_task_id (fn task) = t_task_id task"
    and run: "task_update tid fn expected s = (res, t)"
  shows "case res of
      Inr u \<Rightarrow> task_cross_check t = [] \<and> obj_get (st_tasks t) tid = Some u
    | Inl e \<Rightarrow> set (task_cross_check t) \<subseteq>
        (if obj_get (st_tasks t) tid = obj_get (st_tasks s) tid then {} else {(tid, Diverged)})"
  using run
proof (cases rule: task_updateE)
  case (wrote task q)
  let ?u = "(fn task)\<lparr>t_updated_at := st_clock s\<rparr>"
  have "t_task_id task = tid" using wrote(1) keyed by (rule task_read_idD)
  then have id: "t_task_id ?u = tid" using same by simp
  show ?thesis
  proof (cases q)
    case (Inl e)
    show ?thesis
      using write_task_drift [OF assms(1-3) wrote(3)] write_task_raised [OF assms(1-3) wrote(3) [unfolded Inl]]
      unfolding id by (auto simp: wrote(4) Inl)
  next
    case (Inr x)
    have "st_tasks t = obj_put (st_tasks s) tid ?u"
      using act_triple_retD [OF write_task_files [of "st_tasks s" "st_task_mirror s" ?u] _ wrote(3) [unfolded Inr]]
      unfolding id by (simp add: assms(1))
    then show ?thesis
      using write_task_drift [OF assms(1-3) wrote(3)] by (simp add: wrote(4) Inr)
  qed
qed (use assms(3) in auto)

lemma task_update_drift_witness:
  "set (task_cross_check (snd (task_update ''task_1'' (\<lambda>t. t\<lparr>t_status := Completed\<rparr>) None
      (sample_store [Io_Ok, Io_Fail])))) \<subseteq> {(''task_1'', Diverged)} \<and>
   task_cross_check (snd (task_update ''task_1'' (\<lambda>t. t\<lparr>t_status := Completed\<rparr>) (Some 7) (sample_store []))) = []"
proof -
  have k: "obj_get (st_tasks (sample_store io)) k = Some row \<Longrightarrow> t_task_id row = k" for io k row
    by (auto simp: sample_store_def sample_task_def new_task_def split: if_splits)
  have clean: "st_mirrored (sample_store io)" "distinct (map fst (st_task_mirror (sample_store io)))"
    "task_cross_check (sample_store io) = []" for io
    by (simp_all add: sample_store_def task_cross_check_def drift_of_def)
  obtain q t where run: "task_update ''task_1'' (\<lambda>t. t\<lparr>t_status := Completed\<rparr>) None
      (sample_store [Io_Ok, Io_Fail]) = (q, t)" by fastforce
  obtain q' t' where run': "task_update ''task_1'' (\<lambda>t. t\<lparr>t_status := Completed\<rparr>) (Some 7)
      (sample_store []) = (q', t')" by fastforce
  have stale: "t' = sample_store []"
    using run' by (auto simp: task_update_def act_defs task_read_eq sample_store_def sample_task_def new_task_def
        split: if_splits)
  have "set (task_cross_check t) \<subseteq> {(''task_1'', Diverged)}"
    using task_update_drift [OF clean k [of "[Io_Ok, Io_Fail]"] _ run] by (auto split: sum.splits if_splits)
  moreover have "task_cross_check t' = []"
    using task_update_drift [OF clean k [of "[]"] _ run'] by (auto simp: stale split: sum.splits if_splits)
  ultimately show ?thesis by (simp add: run run')
qed

text \<open>
  Deleting the tasks of a session removes only rows that were asked for, that belong to the
  caller and that are in a terminal state, whatever the call returns and whichever write fails; in
  particular a live task or another owner's task is never deleted.
\<close>

theorem task_delete_many_safe:
  assumes "canonical_owner_id owner = Some o'"
    and "\<And>k row. obj_get (st_tasks s) k = Some row \<Longrightarrow> t_task_id row = k"
    and "task_delete_many tids owner s = (q, t)"
    and "obj_get (st_tasks s) k = Some row"
    and "k \<notin> set tids \<or> \<not> task_terminal (t_status row) \<or> canonical_owner_id (t_owner_id row) \<noteq> Some o'"
  shows "obj_get (st_tasks t) k = Some row"
  using task_delete_many_cases [OF assms(1-3)] assms(4,5) by (fastforce simp: fold_obj_pop_get)

lemma task_delete_many_safe_witness:
  "obj_get (st_tasks (snd (task_delete_many [''task_1''] sample_owner (sample_store [])))) ''task_1''
     = Some sample_task"
  by (rule task_delete_many_safe [OF canonical_owner_id_sample _ prod.collapse [symmetric]])
    (auto simp: sample_store_def sample_task_def new_task_def split: if_splits)

text \<open>
  The migration that should claim records written before owners existed claims none: it reads
  each record through the loader that already demands a valid owner, so every record without one is
  skipped as corrupted and the call returns 0 without writing, for tasks and for approvals.
\<close>

theorem assign_legacy_owner_claims_nothing:
  "task_assign_legacy_owner owner s =
     (case canonical_owner_id owner of None \<Rightarrow> (Inl Value_Error, s) | Some _ \<Rightarrow> (Inr 0, s))
   \<and> approval_assign_legacy_owner owner s =
     (case canonical_owner_id owner of None \<Rightarrow> (Inl Value_Error, s) | Some _ \<Rightarrow> (Inr 0, s))"
  by (simp add: task_assign_legacy_owner_def approval_assign_legacy_owner_def owner_arg_def act_defs
      assign_task_owners_idle assign_approval_owners_idle split: option.splits)

end
