(* ===== verification/Recovery_Journal.thy ===== *)
theory Recovery_Journal
  imports Control_Store
begin

text \<open>
  The durable intent journal (\<open>infrastructure/recovery_journal.py\<close>): one JSON line per phase of a
  transition, appended before and after the two files of a transition are written.

  The file is the list of its complete lines and a flag for a tail without a newline.  A line is the
  value it parses to, blank, or bytes that do not parse.  An append that tears (\<open>Io_Torn\<close>) leaves a
  tail; an append after a tail joins its record onto it, and the joined bytes do not parse.
\<close>

section \<open>Appending\<close>

datatype journal_line = Line json | Blank_Line | Bad_Line

record journal_state = store_state +
  jn_lines :: "journal_line list"
  jn_torn :: bool

definition journal_joined :: "json \<Rightarrow> 'a journal_state_scheme \<Rightarrow> 'a journal_state_scheme" where
  "journal_joined r s =
     s\<lparr>jn_lines := jn_lines s @ [if jn_torn s then Bad_Line else Line r], jn_torn := False\<rparr>"

definition journal_append :: "json \<Rightarrow> ('a journal_state_scheme, exn, unit) act" where
  "journal_append r = (\<lambda>s.
     case st_io s of
       [] \<Rightarrow> (Inr (), journal_joined r s)
     | Io_Ok # os \<Rightarrow> (Inr (), journal_joined r (s\<lparr>st_io := os\<rparr>))
     | Io_Fail # os \<Rightarrow> (Inl Os_Error, s\<lparr>st_io := os\<rparr>)
     | Io_Late # os \<Rightarrow> (Inl Os_Error, journal_joined r (s\<lparr>st_io := os\<rparr>))
     | Io_Torn # os \<Rightarrow> (Inl Os_Error, s\<lparr>st_io := os, jn_torn := True\<rparr>))"

definition begin_record :: "string \<Rightarrow> string \<Rightarrow> string \<Rightarrow> string \<Rightarrow> int \<Rightarrow> json" where
  "begin_record txn kind tid aid now =
     JObj [(''approval_id'', JStr aid), (''created_at'', JInt now), (''kind'', JStr kind),
           (''phase'', JStr ''begin''), (''task_id'', JStr tid), (''transition_id'', JStr txn)]"

definition commit_record :: "string \<Rightarrow> int \<Rightarrow> json" where
  "commit_record txn now =
     JObj [(''created_at'', JInt now), (''phase'', JStr ''commit''), (''transition_id'', JStr txn)]"

text \<open>\<open>begin\<close>: the transition id is returned only when the append returned.\<close>

definition journal_begin ::
  "string \<Rightarrow> string \<Rightarrow> string \<Rightarrow> ('a journal_state_scheme, exn, string) act" where
  "journal_begin kind tid aid =
     act_bind (fresh_id ''txn_'') (\<lambda>txn.
       act_bind utc_now (\<lambda>now.
         act_then (journal_append (begin_record txn kind tid aid now)) (act_ret txn)))"

definition journal_commit :: "string \<Rightarrow> ('a journal_state_scheme, exn, unit) act" where
  "journal_commit txn =
     act_bind utc_now (\<lambda>now. journal_append (commit_record txn now))"

section \<open>Reading back\<close>

definition scan_record ::
  "(string \<times> json) list \<Rightarrow> (string \<times> json) list \<Rightarrow> exn + (string \<times> json) list" where
  "scan_record pending kvs =
     (case obj_get kvs ''transition_id'' of
        Some (JStr txn) \<Rightarrow>
          if txn = [] then Inl Value_Error
          else if obj_get kvs ''phase'' = Some (JStr ''begin'')
          then Inr (obj_put pending txn (JObj kvs))
          else if obj_get kvs ''phase'' = Some (JStr ''commit'')
          then Inr (obj_pop pending txn)
          else Inl Value_Error
      | _ \<Rightarrow> Inl Value_Error)"

fun scan_lines :: "(string \<times> json) list \<Rightarrow> journal_line list \<Rightarrow> exn + (string \<times> json) list" where
  "scan_lines pending [] = Inr pending"
| "scan_lines pending (Blank_Line # ls) = scan_lines pending ls"
| "scan_lines pending (Bad_Line # ls) = Inl Value_Error"
| "scan_lines pending (Line v # ls) =
     (case v of
        JObj kvs \<Rightarrow>
          (case scan_record pending kvs of Inl e \<Rightarrow> Inl e | Inr p \<Rightarrow> scan_lines p ls)
      | _ \<Rightarrow> Inl Type_Error)"

text \<open>
  \<open>incomplete\<close>: the lines are read in order and the first bad one raises; a torn tail is reached
  last and is cut off the file.
\<close>

definition journal_incomplete :: "('a journal_state_scheme, exn, json list) act" where
  "journal_incomplete =
     act_bind (act_get (\<lambda>s. scan_lines [] (jn_lines s))) (\<lambda>r.
       case r of
         Inl e \<Rightarrow> act_raise e
       | Inr pending \<Rightarrow>
           act_bind (act_get jn_torn) (\<lambda>torn.
             act_then (act_when torn (io_write (\<lambda>s. s\<lparr>jn_torn := False\<rparr>)))
               (act_ret (map snd pending))))"

section \<open>The open transitions\<close>

text \<open>
  The abstract journal is the set of open transitions, \<open>None\<close> once a line cannot be read.
\<close>

definition open_of_lines :: "journal_line list \<Rightarrow> string set option" where
  "open_of_lines ls = (case scan_lines [] ls of Inl _ \<Rightarrow> None | Inr p \<Rightarrow> Some (set (map fst p)))"

definition journal_open :: "'a journal_state_scheme \<Rightarrow> string set option" where
  "journal_open s = (if jn_torn s then None else open_of_lines (jn_lines s))"

lemma scan_lines_append:
  "scan_lines p (xs @ ys) =
     (case scan_lines p xs of Inl e \<Rightarrow> Inl e | Inr q \<Rightarrow> scan_lines q ys)"
  by (induction p xs rule: scan_lines.induct) (auto split: json.splits sum.splits)

lemma scan_begin [simp]:
  "txn \<noteq> [] \<Longrightarrow> scan_lines p [Line (begin_record txn kind tid aid now)]
     = Inr (obj_put p txn (begin_record txn kind tid aid now))"
  by (simp add: begin_record_def scan_record_def)

lemma scan_commit [simp]:
  "txn \<noteq> [] \<Longrightarrow> scan_lines p [Line (commit_record txn now)] = Inr (obj_pop p txn)"
  by (simp add: commit_record_def scan_record_def)

lemma set_fst_obj_pop: "set (map fst (obj_pop d k)) = set (map fst d) - {k}"
  by (auto simp: obj_pop_def)

lemma open_begin:
  "open_of_lines ls = Some T \<Longrightarrow> txn \<noteq> [] \<Longrightarrow>
     open_of_lines (ls @ [Line (begin_record txn kind tid aid now)]) = Some (insert txn T)"
  by (auto simp: open_of_lines_def scan_lines_append obj_put_keys simp del: set_map scan_lines.simps(4)
      split: sum.splits)

lemma open_commit:
  "open_of_lines ls = Some T \<Longrightarrow> txn \<noteq> [] \<Longrightarrow>
     open_of_lines (ls @ [Line (commit_record txn now)]) = Some (T - {txn})"
  by (auto simp: open_of_lines_def scan_lines_append set_fst_obj_pop simp del: set_map scan_lines.simps(4)
      split: sum.splits)

text \<open>
  The interface the approval gate uses: an intent log over a set of open transitions.  An append
  that raises has either happened, not happened, or torn the log.
\<close>

locale intent_log =
  fixes opened :: "'s \<Rightarrow> string set option"
    and log_begin :: "string \<Rightarrow> string \<Rightarrow> string \<Rightarrow> ('s, exn, string) act"
    and log_commit :: "string \<Rightarrow> ('s, exn, unit) act"
  assumes begin_opens:
      "opened s = Some T \<Longrightarrow> log_begin kind tid aid s = (Inr txn, t) \<Longrightarrow>
         txn \<noteq> [] \<and> opened t = Some (insert txn T)"
    and commit_closes:
      "opened s = Some T \<Longrightarrow> txn \<noteq> [] \<Longrightarrow> log_commit txn s = (Inr u, t) \<Longrightarrow>
         opened t = Some (T - {txn})"
    and commit_raises:
      "opened s = Some T \<Longrightarrow> txn \<noteq> [] \<Longrightarrow> log_commit txn s = (Inl e, t) \<Longrightarrow>
         opened t \<in> {None, Some T, Some (T - {txn})}"
begin

text \<open>A transition that is begun and committed leaves the log as it was.\<close>

lemma bracket_closes:
  assumes "opened s = Some T" and "log_begin kind tid aid s = (Inr txn, t)"
    and "opened u = opened t" and "log_commit txn u = (Inr v, w)" and "txn \<notin> T"
  shows "opened w = Some T"
  using begin_opens [OF assms(1,2)] assms(3-5) commit_closes [of u "insert txn T" txn v w] by simp

text \<open>A transition that is begun and not committed stays open.\<close>

lemma unbracketed_stays_open:
  assumes "opened s = Some T" and "log_begin kind tid aid s = (Inr txn, t)"
  shows "\<exists>T'. opened t = Some T' \<and> txn \<in> T'"
  using begin_opens [OF assms] by auto

end

lemma journal_open_frame [simp]:
  "journal_open (s\<lparr>st_io := r\<rparr>) = journal_open s"
  "journal_open (s\<lparr>st_uuid := n\<rparr>) = journal_open s"
  "journal_open (s\<lparr>jn_torn := True\<rparr>) = None"
  by (simp_all add: journal_open_def)

lemma journal_joined_open:
  assumes "journal_open s = Some T" and "txn \<noteq> []"
  shows "journal_open (journal_joined (begin_record txn kind tid aid now) s) = Some (insert txn T)"
    and "journal_open (journal_joined (commit_record txn now) s) = Some (T - {txn})"
  using assms by (auto simp: journal_open_def journal_joined_def open_begin open_commit split: if_splits)

lemma journal_append_cases:
  assumes "journal_append r s = (q, t)"
  shows "(\<exists>os. t = journal_joined r (s\<lparr>st_io := os\<rparr>)) \<and> (q = Inr () \<or> q = Inl Os_Error)
       \<or> (\<exists>os. t = s\<lparr>st_io := os\<rparr>) \<and> q = Inl Os_Error
       \<or> (\<exists>os. t = s\<lparr>st_io := os, jn_torn := True\<rparr>) \<and> q = Inl Os_Error"
proof (cases "st_io s")
  case Nil
  then have "t = journal_joined r (s\<lparr>st_io := []\<rparr>)" "q = Inr ()"
    using assms by (simp_all add: journal_append_def st_io_quiet)
  then show ?thesis by blast
next
  case (Cons o' os)
  then show ?thesis using assms by (cases o') (auto simp: journal_append_def)
qed

interpretation journal: intent_log journal_open journal_begin journal_commit
proof (unfold_locales, goal_cases)
  case (1 s T kind tid aid txn t)
  let ?u = "s\<lparr>st_uuid := st_uuid s + 1\<rparr>"
  have "txn = ''txn_'' @ nat_str (st_uuid s)"
    and "journal_append (begin_record txn kind tid aid (st_clock s)) ?u = (Inr (), t)"
    using 1(2) by (auto simp: journal_begin_def fresh_id_def utc_now_def act_defs split: prod.splits sum.splits)
  with 1(1) show ?case
    by (auto dest!: journal_append_cases simp: journal_joined_open)
next
  case (2 s T txn u t)
  then have "journal_append (commit_record txn (st_clock s)) s = (Inr u, t)"
    by (auto simp: journal_commit_def utc_now_def act_defs)
  with 2 show ?case by (auto dest!: journal_append_cases simp: journal_joined_open)
next
  case (3 s T txn e t)
  then have "journal_append (commit_record txn (st_clock s)) s = (Inl e, t)"
    by (auto simp: journal_commit_def utc_now_def act_defs)
  with 3 show ?case by (auto dest!: journal_append_cases simp: journal_joined_open)
qed

section \<open>Properties\<close>

text \<open>A history of the journal: the begins and commits in the order they were appended.\<close>

datatype journal_event = Begun string string string string int | Committed string int

fun event_line :: "journal_event \<Rightarrow> journal_line" where
  "event_line (Begun txn kind tid aid now) = Line (begin_record txn kind tid aid now)"
| "event_line (Committed txn now) = Line (commit_record txn now)"

fun event_txn :: "journal_event \<Rightarrow> string" where
  "event_txn (Begun txn _ _ _ _) = txn"
| "event_txn (Committed txn _) = txn"

definition left_open :: "journal_event list \<Rightarrow> string set" where
  "left_open evs = {txn. \<exists>pre kind tid aid now post.
     evs = pre @ Begun txn kind tid aid now # post \<and> (\<forall>n. Committed txn n \<notin> set post)}"

lemma left_open_nil [simp]: "left_open [] = {}"
  by (simp add: left_open_def)

lemma left_open_begun: "left_open (evs @ [Begun txn kind tid aid now]) = insert txn (left_open evs)"
proof (rule set_eqI)
  fix x
  show "x \<in> left_open (evs @ [Begun txn kind tid aid now]) \<longleftrightarrow> x \<in> insert txn (left_open evs)"
  proof
    assume "x \<in> left_open (evs @ [Begun txn kind tid aid now])"
    then obtain pre k t a n post where e: "evs @ [Begun txn kind tid aid now] = pre @ Begun x k t a n # post"
      and c: "\<forall>m. Committed x m \<notin> set post"
      unfolding left_open_def by blast
    show "x \<in> insert txn (left_open evs)"
    proof (cases post rule: rev_cases)
      case Nil
      with e show ?thesis by simp
    next
      case (snoc post' y)
      with e have "evs = pre @ Begun x k t a n # post'" by simp
      moreover have "\<forall>m. Committed x m \<notin> set post'" using c snoc by simp
      ultimately show ?thesis unfolding left_open_def by blast
    qed
  next
    assume "x \<in> insert txn (left_open evs)"
    then consider "x = txn" | pre k t a n post where "evs = pre @ Begun x k t a n # post"
        "\<forall>m. Committed x m \<notin> set post"
      unfolding left_open_def by blast
    then show "x \<in> left_open (evs @ [Begun txn kind tid aid now])"
    proof cases
      case 1
      then have "evs @ [Begun txn kind tid aid now] = evs @ Begun x kind tid aid now # []
          \<and> (\<forall>m. Committed x m \<notin> set [])" by simp
      then show ?thesis unfolding left_open_def by blast
    next
      case 2
      then have "evs @ [Begun txn kind tid aid now]
          = pre @ Begun x k t a n # (post @ [Begun txn kind tid aid now])
        \<and> (\<forall>m. Committed x m \<notin> set (post @ [Begun txn kind tid aid now]))" by simp
      then show ?thesis unfolding left_open_def by blast
    qed
  qed
qed

lemma left_open_committed: "left_open (evs @ [Committed txn now]) = left_open evs - {txn}"
proof (rule set_eqI)
  fix x
  show "x \<in> left_open (evs @ [Committed txn now]) \<longleftrightarrow> x \<in> left_open evs - {txn}"
  proof
    assume "x \<in> left_open (evs @ [Committed txn now])"
    then obtain pre k t a n post where e: "evs @ [Committed txn now] = pre @ Begun x k t a n # post"
      and c: "\<forall>m. Committed x m \<notin> set post"
      unfolding left_open_def by blast
    obtain post' y where p: "post = post' @ [y]"
      using e by (cases post rule: rev_cases) auto
    with e have "evs = pre @ Begun x k t a n # post'" "y = Committed txn now" by simp_all
    moreover have "\<forall>m. Committed x m \<notin> set post'" "y \<noteq> Committed x now" using c p by auto
    ultimately show "x \<in> left_open evs - {txn}" unfolding left_open_def by blast
  next
    assume "x \<in> left_open evs - {txn}"
    then obtain pre k t a n post where "evs = pre @ Begun x k t a n # post"
        "\<forall>m. Committed x m \<notin> set post" "x \<noteq> txn"
      unfolding left_open_def by blast
    then have "evs @ [Committed txn now] = pre @ Begun x k t a n # (post @ [Committed txn now])
        \<and> (\<forall>m. Committed x m \<notin> set (post @ [Committed txn now]))" by simp
    then show "x \<in> left_open (evs @ [Committed txn now])" unfolding left_open_def by blast
  qed
qed

lemma open_of_events:
  "\<forall>ev\<in>set evs. event_txn ev \<noteq> [] \<Longrightarrow> open_of_lines (map event_line evs) = Some (left_open evs)"
proof (induction evs rule: rev_induct)
  case Nil
  then show ?case by (simp add: open_of_lines_def)
next
  case (snoc ev evs)
  then show ?case
    by (cases ev) (simp_all add: open_begin open_commit left_open_begun left_open_committed)
qed

definition record_txn :: "json \<Rightarrow> string" where
  "record_txn r =
     (case r of JObj kvs \<Rightarrow> (case obj_get kvs ''transition_id'' of Some (JStr t) \<Rightarrow> t | _ \<Rightarrow> []) | _ \<Rightarrow> [])"

lemma obj_put_vals:
  "\<forall>(k, v)\<in>set p. record_txn v = k \<Longrightarrow> record_txn w = x \<Longrightarrow> \<forall>(k, v)\<in>set (obj_put p x w). record_txn v = k"
  by (induction p x w rule: obj_put.induct) auto

lemma scan_record_cases:
  "scan_record p kvs = Inr r \<Longrightarrow> \<exists>txn. obj_get kvs ''transition_id'' = Some (JStr txn)
     \<and> (r = obj_put p txn (JObj kvs) \<or> r = obj_pop p txn)"
  by (simp add: scan_record_def split: option.splits json.splits if_splits)

lemma scan_lines_txn:
  "scan_lines p ls = Inr q \<Longrightarrow> \<forall>(k, v)\<in>set p. record_txn v = k \<Longrightarrow> \<forall>(k, v)\<in>set q. record_txn v = k"
proof (induction p ls rule: scan_lines.induct)
  case (4 p v ls)
  then obtain kvs r where v: "v = JObj kvs" "scan_record p kvs = Inr r" "scan_lines r ls = Inr q"
    by (auto split: json.splits sum.splits)
  from scan_record_cases [OF v(2)] obtain txn where t: "obj_get kvs ''transition_id'' = Some (JStr txn)"
    "r = obj_put p txn (JObj kvs) \<or> r = obj_pop p txn" by blast
  have "record_txn (JObj kvs) = txn" by (simp add: record_txn_def t(1))
  then have "\<forall>(k, v)\<in>set r. record_txn v = k"
    using t(2) 4(3) obj_put_vals [of p "JObj kvs" txn] by (auto simp: obj_pop_def)
  with 4(1) [OF v(1,2)] v(3) show ?case by blast
qed auto

lemma scan_lines_vals:
  assumes "scan_lines [] ls = Inr q"
  shows "set (map record_txn (map snd q)) = set (map fst q)"
  using scan_lines_txn [OF assms] by (force simp: image_iff)

text \<open>
  C32. At start-up the journal reports exactly the transitions that were begun and not committed
  afterwards, whatever the interleaving of the histories, and it does so even when the process died
  in the middle of an append: the torn tail is cut off and nothing else of the file changes.
\<close>

theorem journal_incomplete_exact:
  assumes "jn_lines s = map event_line evs" and "\<forall>ev\<in>set evs. event_txn ev \<noteq> []" and "st_io s = []"
  shows "\<exists>recs. journal_incomplete s = (Inr recs, s\<lparr>jn_torn := False\<rparr>)
           \<and> set (map record_txn recs) = left_open evs"
proof -
  from open_of_events [OF assms(2)] obtain p where p: "scan_lines [] (jn_lines s) = Inr p"
    "set (map fst p) = left_open evs"
    by (auto simp: open_of_lines_def assms(1) split: sum.splits)
  have "jn_torn s \<or> s\<lparr>jn_torn := False\<rparr> = s" by (cases s) auto
  then have "journal_incomplete s = (Inr (map snd p), s\<lparr>jn_torn := False\<rparr>)"
    by (auto simp: journal_incomplete_def act_defs p(1) io_write_quiet assms(3))
  then show ?thesis using scan_lines_vals [OF p(1)] p(2) by blast
qed

definition sample_journal :: "journal_state" where
  "sample_journal =
     store_state.extend (sample_store [])
       \<lparr>jn_lines = map event_line
          [Begun ''t1'' ''approval_request'' ''task_1'' ''a1'' 1, Begun ''t2'' ''approval_request'' ''task_1'' ''a2'' 2,
           Committed ''t1'' 3], jn_torn = True\<rparr>"

lemma journal_incomplete_exact_witness:
  "\<exists>recs. journal_incomplete sample_journal = (Inr recs, sample_journal\<lparr>jn_torn := False\<rparr>)
     \<and> set (map record_txn recs)
       = left_open [Begun ''t1'' ''approval_request'' ''task_1'' ''a1'' 1,
           Begun ''t2'' ''approval_request'' ''task_1'' ''a2'' 2, Committed ''t1'' 3]"
  by (rule journal_incomplete_exact)
    (simp_all add: sample_journal_def sample_store_def store_state.defs journal_state.defs)

text \<open>
  A live process that survives a torn append poisons its own journal: the next append, even a
  successful one, joins onto the tail, and from then on the start-up scan raises, so that the
  service comes up degraded until the file is repaired by hand.
\<close>

theorem torn_append_poisons:
  "\<exists>e. fst (journal_incomplete (snd (journal_append r (s\<lparr>jn_torn := True, st_io := []\<rparr>)))) = Inl e"
  by (auto simp: journal_append_def journal_joined_def journal_incomplete_def act_defs
      scan_lines_append split: sum.splits)

end
