(* ===== verification/Event_Stream.thy ===== *)
theory Event_Stream
  imports Recovery_Journal
begin

text \<open>
  The public event stream: \<open>EventPublisher\<close> numbers the events of a task
  (\<open>infrastructure/event_publisher.py\<close>), \<open>EventBroker\<close> hands them to the bounded queue of every
  subscriber (\<open>infrastructure/event_broker.py\<close>).

  A queue object is an address into \<open>br_queues\<close>.  \<open>call_soon_threadsafe\<close> appends a callback to
  \<open>br_scheduled\<close>; \<open>loop_step\<close> is the event loop running the oldest one; \<open>consume\<close> is the reader of a
  stream taking an item.  \<open>q_offered\<close> and \<open>q_got\<close> record what the loop offered to a queue and
  what its reader took.  \<open>ev_log\<close> is the sequence of payloads passed to the broker.
\<close>

section \<open>State\<close>

datatype stream_item = Event public_event | Closed_Mark

record stream_queue =
  q_items :: "stream_item list"
  q_offered :: "stream_item list"
  q_got :: "stream_item list"

record event_state = journal_state +
  ev_sequences :: "(string \<times> nat) list"
  ev_log :: "public_event list"
  br_size :: nat
  br_subs :: "(string \<times> nat list) list"
  br_queues :: "stream_queue list"
  br_scheduled :: "(nat \<times> stream_item) list"

record publish_opts =
  o_trace_id :: string
  o_parent_event_id :: string
  o_phase :: string
  o_attempt :: "int option"
  o_started_at :: string
  o_ended_at :: string
  o_status :: string
  o_summary :: string

definition no_opts :: publish_opts where
  "no_opts = \<lparr>o_trace_id = [], o_parent_event_id = [], o_phase = [], o_attempt = None,
     o_started_at = [], o_ended_at = [], o_status = [], o_summary = []\<rparr>"

definition final_opts :: "string \<Rightarrow> string \<Rightarrow> publish_opts" where
  "final_opts status summary =
     no_opts\<lparr>o_phase := ''final'', o_status := status, o_summary := summary\<rparr>"

definition TERMINAL_TYPES :: "string set" where
  "TERMINAL_TYPES =
     {''task.completed'', ''task.cancelled'', ''task.failed'', ''task.interrupted'', ''task.blocked''}"

section \<open>The broker\<close>

definition new_queue :: stream_queue where
  "new_queue = \<lparr>q_items = [], q_offered = [], q_got = []\<rparr>"

definition subs_of :: "'a event_state_scheme \<Rightarrow> string \<Rightarrow> nat list" where
  "subs_of s tid = (case obj_get (br_subs s) tid of None \<Rightarrow> [] | Some qs \<Rightarrow> qs)"

text \<open>
  \<open>subscribe\<close>: the queue is registered and the snapshot read in one critical section; when the
  snapshot raises, the registration is undone (an empty group stays behind in the dictionary).
\<close>

definition broker_subscribe ::
  "string \<Rightarrow> ('a event_state_scheme \<Rightarrow> exn + 'v) \<Rightarrow> ('a event_state_scheme, exn, nat \<times> 'v) act" where
  "broker_subscribe tid snapshot = (\<lambda>s.
     let q = length (br_queues s);
         t = s\<lparr>br_queues := br_queues s @ [new_queue],
               br_subs := obj_put (br_subs s) tid (subs_of s tid @ [q])\<rparr>
     in case snapshot t of
          Inr v \<Rightarrow> (Inr (q, v), t)
        | Inl e \<Rightarrow> (Inl e, t\<lparr>br_subs := obj_put (br_subs t) tid (filter (\<lambda>x. x \<noteq> q) (subs_of t tid))\<rparr>))"

definition broker_unsubscribe :: "string \<Rightarrow> nat \<Rightarrow> ('a event_state_scheme, exn, unit) act" where
  "broker_unsubscribe tid q = act_modify (\<lambda>s.
     let group = filter (\<lambda>x. x \<noteq> q) (subs_of s tid)
     in if group = [] then s\<lparr>br_subs := obj_pop (br_subs s) tid\<rparr>
        else s\<lparr>br_subs := obj_put (br_subs s) tid group\<rparr>)"

definition broker_publish :: "string \<Rightarrow> public_event \<Rightarrow> ('a event_state_scheme, exn, unit) act" where
  "broker_publish tid payload = act_modify (\<lambda>s.
     s\<lparr>ev_log := ev_log s @ [payload],
       br_scheduled := br_scheduled s @ map (\<lambda>q. (q, Event payload)) (subs_of s tid)\<rparr>)"

definition queue_full :: "nat \<Rightarrow> stream_queue \<Rightarrow> bool" where
  "queue_full cap q \<longleftrightarrow> 0 < cap \<and> cap \<le> length (q_items q)"

definition enqueue :: "nat \<Rightarrow> stream_item \<Rightarrow> stream_queue \<Rightarrow> stream_queue" where
  "enqueue cap item q =
     (let q' = q\<lparr>q_offered := q_offered q @ [item]\<rparr>
      in if queue_full cap q then
           (let r = q'\<lparr>q_items := tl (q_items q')\<rparr>
            in if queue_full cap r then r else r\<lparr>q_items := q_items r @ [Closed_Mark]\<rparr>)
         else q'\<lparr>q_items := q_items q' @ [item]\<rparr>)"

definition broker_close_all :: "('a event_state_scheme, exn, unit) act" where
  "broker_close_all = act_modify (\<lambda>s.
     s\<lparr>br_subs := [],
       br_scheduled := br_scheduled s @ map (\<lambda>q. (q, Closed_Mark)) (concat (map snd (br_subs s)))\<rparr>)"

text \<open>The event loop and the reader.\<close>

definition loop_step :: "'a event_state_scheme \<Rightarrow> 'a event_state_scheme" where
  "loop_step s =
     (case br_scheduled s of
        [] \<Rightarrow> s
      | (q, item) # rest \<Rightarrow>
          s\<lparr>br_scheduled := rest,
            br_queues := (br_queues s)[q := enqueue (br_size s) item (br_queues s ! q)]\<rparr>)"

definition consume :: "nat \<Rightarrow> 'a event_state_scheme \<Rightarrow> 'a event_state_scheme" where
  "consume q s =
     (if q < length (br_queues s) then
        (case q_items (br_queues s ! q) of
           [] \<Rightarrow> s
         | x # r \<Rightarrow> s\<lparr>br_queues := (br_queues s)[q := (br_queues s ! q)
                        \<lparr>q_items := r, q_got := q_got (br_queues s ! q) @ [x]\<rparr>]\<rparr>)
      else s)"

section \<open>The publisher\<close>

text \<open>The number taken under the lock, and the counter dropped after a terminal event.\<close>

definition take_sequence :: "string \<Rightarrow> string \<Rightarrow> ('a event_state_scheme, exn, nat) act" where
  "take_sequence tid ty = (\<lambda>s.
     let n = (case obj_get (ev_sequences s) tid of None \<Rightarrow> 0 | Some n \<Rightarrow> n);
         t = s\<lparr>ev_sequences := obj_put (ev_sequences s) tid (n + 1)\<rparr>
     in (Inr n, if ty \<in> TERMINAL_TYPES then t\<lparr>ev_sequences := obj_pop (ev_sequences t) tid\<rparr> else t))"

definition make_event ::
  "string \<Rightarrow> nat \<Rightarrow> int \<Rightarrow> string \<Rightarrow> string \<Rightarrow> string \<Rightarrow> (string \<times> json) list \<Rightarrow> publish_opts \<Rightarrow> public_event" where
  "make_event eid n now tid rid ty data opts =
     \<lparr>e_event_id = eid, e_sequence = n, e_type = ty, e_task_id = tid, e_run_id = rid,
      e_timestamp = now,
      e_trace_id = (if o_trace_id opts = [] then rid else o_trace_id opts),
      e_parent_event_id = o_parent_event_id opts, e_phase = o_phase opts,
      e_attempt = o_attempt opts, e_started_at = o_started_at opts,
      e_ended_at = o_ended_at opts, e_status = o_status opts, e_summary = o_summary opts,
      e_attributes = [], e_data = data\<rparr>"

definition publish_event ::
  "string \<Rightarrow> string \<Rightarrow> string \<Rightarrow> (string \<times> json) list \<Rightarrow> publish_opts
     \<Rightarrow> ('a event_state_scheme, exn, public_event) act" where
  "publish_event tid rid ty data opts =
     act_bind (take_sequence tid ty) (\<lambda>n.
       act_bind (fresh_id ''evt_'') (\<lambda>eid.
         act_bind utc_now (\<lambda>now.
           let ev = make_event eid n now tid rid ty data opts
           in act_then (broker_publish tid (event_to_dict ev)) (act_ret ev))))"

section \<open>Facts\<close>

text \<open>What publishing leaves alone.\<close>

definition published ::
  "public_event \<Rightarrow> nat \<Rightarrow> (string \<times> nat) list \<Rightarrow> (nat \<times> stream_item) list
     \<Rightarrow> 'a event_state_scheme \<Rightarrow> 'a event_state_scheme" where
  "published ev uuid sqs sch s =
     s\<lparr>ev_sequences := sqs, st_uuid := uuid, ev_log := ev_log s @ [event_to_dict ev], br_scheduled := sch\<rparr>"

lemma make_event_simps [simp]:
  "e_sequence (make_event eid n now tid rid ty data opts) = n"
  "e_type (make_event eid n now tid rid ty data opts) = ty"
  "e_task_id (make_event eid n now tid rid ty data opts) = tid"
  "e_data (make_event eid n now tid rid ty data opts) = data"
  by (simp_all add: make_event_def)

definition sequence_of :: "'a event_state_scheme \<Rightarrow> string \<Rightarrow> nat" where
  "sequence_of s tid = (case obj_get (ev_sequences s) tid of None \<Rightarrow> 0 | Some n \<Rightarrow> n)"

definition sequences_after :: "string \<Rightarrow> string \<Rightarrow> 'a event_state_scheme \<Rightarrow> (string \<times> nat) list" where
  "sequences_after tid ty s =
     (let d = obj_put (ev_sequences s) tid (sequence_of s tid + 1)
      in if ty \<in> TERMINAL_TYPES then obj_pop d tid else d)"

lemma take_sequence_eq:
  "take_sequence tid ty s = (Inr (sequence_of s tid), s\<lparr>ev_sequences := sequences_after tid ty s\<rparr>)"
  by (simp add: take_sequence_def sequence_of_def sequences_after_def Let_def)

lemma publish_event_eq:
  "publish_event tid rid ty data opts s =
     (let ev = make_event (''evt_'' @ nat_str (st_uuid s)) (sequence_of s tid) (st_clock s) tid rid ty data opts
      in (Inr ev, published ev (st_uuid s + 1) (sequences_after tid ty s)
            (br_scheduled s @ map (\<lambda>q. (q, Event (event_to_dict ev))) (subs_of s tid)) s))"
  by (simp add: publish_event_def act_bind_def take_sequence_eq fresh_id_def utc_now_def broker_publish_def
      published_def act_get_def act_then_def act_modify_def act_ret_def Let_def subs_of_def)

lemma publish_event_run:
  "\<exists>ev uuid sqs sch. publish_event tid rid ty data opts s = (Inr ev, published ev uuid sqs sch s)
     \<and> e_task_id ev = tid \<and> e_type ev = ty \<and> e_data ev = data"
  by (simp add: publish_event_eq Let_def) (metis make_event_simps(2,3,4))

lemma published_simps [simp]:
  "st_tasks (published ev uuid sqs sch s) = st_tasks s"
  "st_approvals (published ev uuid sqs sch s) = st_approvals s"
  "st_io (published ev uuid sqs sch s) = st_io s"
  "st_clock (published ev uuid sqs sch s) = st_clock s"
  "jn_lines (published ev uuid sqs sch s) = jn_lines s"
  "jn_torn (published ev uuid sqs sch s) = jn_torn s"
  "br_queues (published ev uuid sqs sch s) = br_queues s"
  "br_size (published ev uuid sqs sch s) = br_size s"
  "br_subs (published ev uuid sqs sch s) = br_subs s"
  "ev_log (published ev uuid sqs sch s) = ev_log s @ [event_to_dict ev]"
  "event_state.more (published ev uuid sqs sch s) = event_state.more s"
  by (simp_all add: published_def)

lemma publish_event_triple [act_rules]:
  assumes "\<And>s ev uuid sqs sch. P s \<Longrightarrow> e_task_id ev = tid \<Longrightarrow> e_type ev = ty \<Longrightarrow> e_data ev = data \<Longrightarrow>
     Q ev (published ev uuid sqs sch s)"
  shows "act_triple P (publish_event tid rid ty data opts) Q E"
proof (rule act_tripleI)
  fix s :: "'a event_state_scheme" and ev t
  assume "P s" "publish_event tid rid ty data opts s = (Inr ev, t)"
  then show "Q ev t" using publish_event_run [of tid rid ty data opts s] assms [of s] by auto
next
  fix s :: "'a event_state_scheme" and e t
  assume "publish_event tid rid ty data opts s = (Inl e, t)"
  then show "E e t" using publish_event_run [of tid rid ty data opts s] by simp
qed

lemma publish_event_log:
  "publish_event tid rid ty data opts s = (q, t) \<Longrightarrow>
     \<exists>ev. q = Inr ev \<and> ev_log t = ev_log s @ [event_to_dict ev] \<and> e_task_id ev = tid \<and> e_type ev = ty
        \<and> e_sequence ev = sequence_of s tid
        \<and> (\<forall>k. sequence_of t k =
              (if k = tid then (if ty \<in> TERMINAL_TYPES then 0 else e_sequence ev + 1)
               else sequence_of s k))"
  by (auto simp: publish_event_eq Let_def published_def sequences_after_def sequence_of_def)

text \<open>
  The number of the next event of a task: the events of the task since its last terminal event.
\<close>

definition next_sequence :: "string \<Rightarrow> public_event list \<Rightarrow> nat" where
  "next_sequence tid log =
     length (takeWhile (\<lambda>e. e_type e \<notin> TERMINAL_TYPES) (rev (filter (\<lambda>e. e_task_id e = tid) log)))"

definition counters_ok :: "'a event_state_scheme \<Rightarrow> bool" where
  "counters_ok s \<longleftrightarrow> (\<forall>tid. sequence_of s tid = next_sequence tid (ev_log s))"

lemma next_sequence_snoc:
  "next_sequence tid (log @ [e]) =
     (if e_task_id e \<noteq> tid then next_sequence tid log
      else if e_type e \<in> TERMINAL_TYPES then 0 else next_sequence tid log + 1)"
  by (simp add: next_sequence_def)

lemma publish_event_counters:
  assumes "counters_ok s"
  shows "counters_ok (snd (publish_event tid rid ty data opts s))"
proof (cases "publish_event tid rid ty data opts s")
  case (Pair q t)
  from publish_event_log [OF Pair] assms show ?thesis
    by (auto simp: counters_ok_def next_sequence_snoc Pair)
qed

subsection \<open>The queue of one subscriber\<close>

definition queue_ok :: "nat \<Rightarrow> stream_queue \<Rightarrow> bool" where
  "queue_ok cap q \<longleftrightarrow>
     (0 < cap \<longrightarrow> length (q_items q) \<le> cap)
     \<and> (Closed_Mark \<in> set (q_items q) \<union> set (q_got q) \<or> q_got q @ q_items q = q_offered q)"

lemma queue_ok_new: "queue_ok cap new_queue"
  by (simp add: queue_ok_def new_queue_def)

lemma queue_ok_enqueue: "queue_ok cap q \<Longrightarrow> queue_ok cap (enqueue cap item q)"
  by (cases "q_items q") (auto simp: queue_ok_def enqueue_def queue_full_def Let_def)

lemma queue_ok_take:
  "queue_ok cap q \<Longrightarrow> q_items q = x # r \<Longrightarrow> queue_ok cap (q\<lparr>q_items := r, q_got := q_got q @ [x]\<rparr>)"
  by (auto simp: queue_ok_def)

text \<open>One step of the stream: a callback of the loop, a reader, a publish, a new subscriber.\<close>

datatype stream_event =
    Loop | Take nat | Publish string string string "(string \<times> json) list" | Subscribe string
  | Unsubscribe string nat | Close_All

definition stream_step :: "'a event_state_scheme \<Rightarrow> stream_event \<Rightarrow> 'a event_state_scheme" where
  "stream_step s l =
     (case l of
        Loop \<Rightarrow> loop_step s
      | Take q \<Rightarrow> consume q s
      | Publish tid rid ty data \<Rightarrow> snd (publish_event tid rid ty data no_opts s)
      | Subscribe tid \<Rightarrow> snd (broker_subscribe tid (\<lambda>_. Inr ()) s)
      | Unsubscribe tid q \<Rightarrow> snd (broker_unsubscribe tid q s)
      | Close_All \<Rightarrow> snd (broker_close_all s))"

definition queues_ok :: "'a event_state_scheme \<Rightarrow> bool" where
  "queues_ok s \<longleftrightarrow> (\<forall>q\<in>set (br_queues s). queue_ok (br_size s) q)"

lemma queues_ok_update:
  "queues_ok s \<Longrightarrow> queue_ok (br_size s) x \<Longrightarrow>
     \<forall>q\<in>set ((br_queues s)[i := x]). queue_ok (br_size s) q"
  by (auto simp: queues_ok_def dest!: set_update_subset_insert [THEN subsetD])

lemma queues_ok_nth: "queues_ok s \<Longrightarrow> i < length (br_queues s) \<Longrightarrow> queue_ok (br_size s) (br_queues s ! i)"
  by (simp add: queues_ok_def)

lemma stream_step_queues: "queues_ok s \<Longrightarrow> queues_ok (stream_step s l)"
proof (cases l)
  case Loop
  assume ok: "queues_ok s"
  show ?thesis
  proof (cases "br_scheduled s")
    case (Cons c rest)
    obtain i item where [simp]: "c = (i, item)" by fastforce
    show ?thesis
    proof (cases "i < length (br_queues s)")
      case True
      with queues_ok_update [OF ok queue_ok_enqueue [OF queues_ok_nth [OF ok True]]]
      show ?thesis by (simp add: Loop stream_step_def loop_step_def Cons queues_ok_def)
    qed (use ok in \<open>simp add: Loop stream_step_def loop_step_def Cons queues_ok_def list_update_beyond\<close>)
  qed (use ok in \<open>simp add: Loop stream_step_def loop_step_def\<close>)
next
  case (Take i)
  assume ok: "queues_ok s"
  show ?thesis
  proof (cases "i < length (br_queues s) \<and> q_items (br_queues s ! i) \<noteq> []")
    case True
    then obtain x r where xr: "q_items (br_queues s ! i) = x # r" "i < length (br_queues s)"
      by (cases "q_items (br_queues s ! i)") auto
    with queues_ok_update [OF ok queue_ok_take [OF queues_ok_nth [OF ok xr(2)] xr(1)], of i]
    show ?thesis by (simp add: Take stream_step_def consume_def queues_ok_def)
  qed (use ok in \<open>auto simp: Take stream_step_def consume_def split: list.splits\<close>)
next
  case (Publish tid rid ty data)
  assume ok: "queues_ok s"
  then show ?thesis using publish_event_run [of tid rid ty data no_opts s]
    by (auto simp: Publish stream_step_def queues_ok_def)
next
  case (Subscribe tid)
  assume "queues_ok s"
  then show ?thesis using queue_ok_new
    by (auto simp: Subscribe stream_step_def broker_subscribe_def Let_def queues_ok_def)
next
  case (Unsubscribe tid q)
  assume "queues_ok s"
  then show ?thesis
    by (auto simp: Unsubscribe stream_step_def broker_unsubscribe_def Let_def act_defs queues_ok_def)
next
  case Close_All
  assume "queues_ok s"
  then show ?thesis by (auto simp: Close_All stream_step_def broker_close_all_def act_defs queues_ok_def)
qed

interpretation stream: machine_invariant stream_step queues_ok
  by unfold_locales (rule stream_step_queues)

subsection \<open>Numbering\<close>

definition log_numbered :: "public_event list \<Rightarrow> bool" where
  "log_numbered log \<longleftrightarrow>
     (\<forall>i<length log. e_sequence (log ! i) = next_sequence (e_task_id (log ! i)) (take i log))"

lemma log_numbered_snoc:
  "log_numbered log \<Longrightarrow> e_sequence e = next_sequence (e_task_id e) log \<Longrightarrow> log_numbered (log @ [e])"
  by (auto simp: log_numbered_def nth_append less_Suc_eq)

lemma numbered_publish:
  assumes "counters_ok s \<and> log_numbered (ev_log s)"
  shows "counters_ok (snd (publish_event tid rid ty data opts s))
     \<and> log_numbered (ev_log (snd (publish_event tid rid ty data opts s)))"
proof (cases "publish_event tid rid ty data opts s")
  case (Pair q t)
  from publish_event_log [OF Pair] obtain ev where ev: "ev_log t = ev_log s @ [event_to_dict ev]"
    "e_task_id ev = tid" "e_sequence ev = sequence_of s tid"
    by blast
  have "log_numbered (ev_log s @ [event_to_dict ev])"
    using assms ev by (intro log_numbered_snoc) (auto simp: counters_ok_def)
  with publish_event_counters [of s tid rid ty data opts] assms ev(1) show ?thesis by (simp add: Pair)
qed

lemma stream_step_numbered:
  "counters_ok s \<and> log_numbered (ev_log s) \<Longrightarrow>
     counters_ok (stream_step s l) \<and> log_numbered (ev_log (stream_step s l))"
  by (cases l)
    (use numbered_publish [of s] in \<open>auto simp: stream_step_def loop_step_def consume_def
       broker_subscribe_def broker_unsubscribe_def broker_close_all_def act_defs Let_def counters_ok_def
       sequence_of_def split: list.splits prod.splits\<close>)

interpretation numbering: machine_invariant stream_step "\<lambda>s. counters_ok s \<and> log_numbered (ev_log s)"
  by unfold_locales (rule stream_step_numbered)

lemma next_sequence_mono:
  assumes "e_task_id (log ! i) = tid" and "i < j" and "j \<le> length log"
    and "\<And>k. i \<le> k \<Longrightarrow> k < j \<Longrightarrow> e_task_id (log ! k) = tid \<Longrightarrow> e_type (log ! k) \<notin> TERMINAL_TYPES"
  shows "next_sequence tid (take i log) < next_sequence tid (take j log)"
  using assms(2-4)
proof (induction j)
  case (Suc j)
  then have t: "take (Suc j) log = take j log @ [log ! j]" by (simp add: take_Suc_conv_app_nth)
  have nt: "e_task_id (log ! j) = tid \<Longrightarrow> e_type (log ! j) \<notin> TERMINAL_TYPES"
    using Suc.prems by simp
  show ?case
  proof (cases "i = j")
    case True
    then show ?thesis using nt assms(1) by (simp add: t next_sequence_snoc)
  next
    case False
    then have "next_sequence tid (take i log) < next_sequence tid (take j log)"
      using Suc.prems by (intro Suc.IH) auto
    then show ?thesis using nt by (auto simp: t next_sequence_snoc)
  qed
qed simp

section \<open>Properties\<close>

definition fresh_stream :: "nat \<Rightarrow> event_state" where
  "fresh_stream cap =
     journal_state.extend (store_state.extend (sample_store []) (journal_state.fields [] False))
       (event_state.fields [] [] cap [] [] [])"

lemma fresh_stream_simps [simp]:
  "ev_sequences (fresh_stream cap) = []" "ev_log (fresh_stream cap) = []"
  "br_size (fresh_stream cap) = cap" "br_subs (fresh_stream cap) = []"
  "br_queues (fresh_stream cap) = []" "br_scheduled (fresh_stream cap) = []"
  "st_uuid (fresh_stream cap) = 0" "st_clock (fresh_stream cap) = 20"
  by (simp_all add: fresh_stream_def store_state.defs journal_state.defs event_state.defs sample_store_def)

lemma fresh_stream_numbered:
  "counters_ok (fresh_stream cap) \<and> log_numbered (ev_log (fresh_stream cap))"
  by (simp add: counters_ok_def next_sequence_def log_numbered_def sequence_of_def)

text \<open>
  Whatever publishing, subscribing, consuming and closing happens in between, the sequence
  numbers a task's subscribers see grow strictly until the task's terminal event: of two events of
  one task with no terminal event of it from the first up to the second, the second has the larger
  number.
\<close>

theorem sequence_grows:
  assumes "log = ev_log (foldl stream_step (fresh_stream cap) ls)"
    and "i < j" and "j < length log" and "e_task_id (log ! i) = e_task_id (log ! j)"
    and "\<And>k. i \<le> k \<Longrightarrow> k < j \<Longrightarrow> e_task_id (log ! k) = e_task_id (log ! j)
           \<Longrightarrow> e_type (log ! k) \<notin> TERMINAL_TYPES"
  shows "e_sequence (log ! i) < e_sequence (log ! j)"
proof -
  have "log_numbered log"
    unfolding assms(1) using numbering.run_keeps [OF fresh_stream_numbered, of cap ls] by (rule conjunct2)
  then have num: "e_sequence (log ! k) = next_sequence (e_task_id (log ! k)) (take k log)"
    if "k < length log" for k
    using that by (simp add: log_numbered_def)
  have "next_sequence (e_task_id (log ! j)) (take i log) < next_sequence (e_task_id (log ! j)) (take j log)"
    by (rule next_sequence_mono [OF assms(4,2) _ assms(5)]) (use assms(3) in simp_all)
  moreover have "i < length log" using assms(2,3) by simp
  ultimately show ?thesis using num [of i] num [OF assms(3)] assms(4) by simp
qed

lemma sequence_grows_witness:
  "e_sequence (ev_log (foldl stream_step (fresh_stream 2)
      [Publish ''t'' ''r'' ''task.started'' [], Loop, Publish ''t'' ''r'' ''task.completed'' []]) ! 0)
   < e_sequence (ev_log (foldl stream_step (fresh_stream 2)
      [Publish ''t'' ''r'' ''task.started'' [], Loop, Publish ''t'' ''r'' ''task.completed'' []]) ! 1)"
proof (rule sequence_grows [OF refl])
  fix k :: nat
  assume "0 \<le> k" "k < 1"
  then have "k = 0" by simp
  then show "e_type (ev_log (foldl stream_step (fresh_stream 2)
      [Publish ''t'' ''r'' ''task.started'' [], Loop, Publish ''t'' ''r'' ''task.completed'' []]) ! k)
      \<notin> TERMINAL_TYPES" by (simp only:) code_simp
qed code_simp+

text \<open>
  C33. A subscriber's queue never exceeds its bound, and a subscriber that has not been sent the
  closing mark has lost nothing: what it took followed by what waits in its queue is exactly what
  the loop offered it, in order.
\<close>

theorem subscriber_loses_nothing:
  assumes "q \<in> set (br_queues (foldl stream_step (fresh_stream cap) ls))" and "0 < cap"
  shows "length (q_items q) \<le> br_size (foldl stream_step (fresh_stream cap) ls)
    \<and> (Closed_Mark \<in> set (q_got q @ q_items q) \<or> q_got q @ q_items q = q_offered q)"
proof -
  have size: "br_size (foldl stream_step s ls) = br_size s" for s :: event_state
  proof (induction ls arbitrary: s)
    case (Cons l ls)
    have "br_size (stream_step s l) = br_size s"
      using publish_event_run [of _ _ _ _ no_opts s]
      by (cases l) (auto simp: stream_step_def loop_step_def consume_def broker_subscribe_def
          broker_unsubscribe_def broker_close_all_def publish_event_def take_sequence_def fresh_id_def
          utc_now_def broker_publish_def act_defs Let_def split: list.splits prod.splits)
    with Cons show ?case by simp
  qed simp
  have "queues_ok (foldl stream_step (fresh_stream cap) ls)"
    by (rule stream.run_keeps) (simp add: queues_ok_def)
  with assms show ?thesis by (auto simp: queues_ok_def queue_ok_def size)
qed

lemma subscriber_loses_nothing_witness:
  "let s = foldl stream_step (fresh_stream 1)
      [Subscribe ''t'', Publish ''t'' ''r'' ''task.started'' [], Loop,
       Publish ''t'' ''r'' ''task.completed'' [], Loop]; q = br_queues s ! 0
   in length (q_items q) \<le> br_size s
      \<and> (Closed_Mark \<in> set (q_got q @ q_items q) \<or> q_got q @ q_items q = q_offered q)"
  unfolding Let_def
  by (rule subscriber_loses_nothing) code_simp+

end
