(* ===== verification/Run_Gate.thy ===== *)
theory Run_Gate
  imports Event_Stream
begin

text \<open>
  The per-run gate with its fencing generation (\<open>infrastructure/run_gate.py\<close>), the cancellation
  token (\<open>infrastructure/cancellation.py\<close>) and the fence of the run store
  (\<open>infrastructure/fenced_run_store.py\<close>).

  Gates and tokens are shared objects: a run context holds their addresses in \<open>hp_gates\<close> and
  \<open>hp_tokens\<close>.  The lock of a gate is not part of the state: a \<open>with gate\<close> block is one step, and
  the interleavings of the development are those of such blocks.
\<close>

record run_gate =
  g_generation :: int
  g_closed :: bool

definition new_gate :: "int \<Rightarrow> run_gate" where
  "new_gate generation = \<lparr>g_generation = generation, g_closed = False\<rparr>"

definition gate_close :: "run_gate \<Rightarrow> run_gate" where
  "gate_close g = g\<lparr>g_closed := True, g_generation := g_generation g + 1\<rparr>"

definition check_generation :: "run_gate \<Rightarrow> int \<Rightarrow> bool" where
  "check_generation g expected \<longleftrightarrow> \<not> g_closed g \<and> expected = g_generation g"

text \<open>\<open>RunContext\<close>: its immutable fields; \<open>apply_decision\<close> builds one without a token.\<close>

record run_context =
  rc_task_id :: string
  rc_run_id :: string
  rc_owner_id :: string
  rc_gate :: nat
  rc_token :: "nat option"

record gate_state = event_state +
  hp_gates :: "run_gate list"
  hp_tokens :: "bool list"
  ag_task_gates :: "(string \<times> nat) list"
  ag_conditions :: "string list"
  sv_degraded :: bool

definition gate_of :: "'a gate_state_scheme \<Rightarrow> run_context \<Rightarrow> run_gate" where
  "gate_of s run = hp_gates s ! rc_gate run"

definition token_cancelled :: "'a gate_state_scheme \<Rightarrow> run_context \<Rightarrow> bool" where
  "token_cancelled s run = (case rc_token run of None \<Rightarrow> False | Some k \<Rightarrow> hp_tokens s ! k)"

definition cancel_token :: "run_context \<Rightarrow> 'a gate_state_scheme \<Rightarrow> 'a gate_state_scheme" where
  "cancel_token run s =
     (case rc_token run of None \<Rightarrow> s | Some k \<Rightarrow> s\<lparr>hp_tokens := (hp_tokens s)[k := True]\<rparr>)"

definition close_gate :: "run_context \<Rightarrow> ('a gate_state_scheme, exn, unit) act" where
  "close_gate run = act_modify (\<lambda>s.
     s\<lparr>hp_gates := (hp_gates s)[rc_gate run := gate_close (gate_of s run)]\<rparr>)"

definition mark_degraded :: "('a gate_state_scheme, exn, unit) act" where
  "mark_degraded = act_modify (\<lambda>s. s\<lparr>sv_degraded := True\<rparr>)"

text \<open>\<open>FencedRunStore._guarded\<close>: the check and the write under the gate.\<close>

definition guarded ::
  "run_context \<Rightarrow> ('a gate_state_scheme, exn, 'b) act \<Rightarrow> ('a gate_state_scheme, exn, 'b) act" where
  "guarded run m =
     act_bind (act_get (\<lambda>s. g_closed (gate_of s run))) (\<lambda>closed.
       if closed then act_raise Stale_Runner_Write else m)"

text \<open>\<open>ExecutionBoundary._check\<close> followed by the publish of a hook, one block under the gate.\<close>

definition boundary_check :: "run_context \<Rightarrow> ('a gate_state_scheme, exn, unit) act" where
  "boundary_check run =
     act_bind (act_get (\<lambda>s. g_closed (gate_of s run) \<or> token_cancelled s run)) (\<lambda>stop.
       if stop then act_raise Run_Cancelled else act_ret ())"

definition boundary_publish ::
  "run_context \<Rightarrow> string \<Rightarrow> (string \<times> json) list \<Rightarrow> publish_opts
     \<Rightarrow> ('a gate_state_scheme, exn, public_event) act" where
  "boundary_publish run ty data opts =
     act_then (boundary_check run) (publish_event (rc_task_id run) (rc_run_id run) ty data opts)"

section \<open>Facts\<close>

lemma check_generation_after_close [simp]: "\<not> check_generation (gate_close g) n"
  by (simp add: check_generation_def gate_close_def)

lemma gate_close_simps [simp]:
  "g_closed (gate_close g)" "g_generation (gate_close g) = g_generation g + 1"
  by (simp_all add: gate_close_def)

lemma mark_degraded_wp [wp_simps]:
  "act_wp mark_degraded Q E = (\<lambda>s. Q () (s\<lparr>sv_degraded := True\<rparr>))"
  by (simp add: mark_degraded_def wp_simps)

lemma close_gate_wp [wp_simps]:
  "act_wp (close_gate run) Q E =
     (\<lambda>s. Q () (s\<lparr>hp_gates := (hp_gates s)[rc_gate run := gate_close (gate_of s run)]\<rparr>))"
  by (simp add: close_gate_def wp_simps)

lemma publish_event_wp [wp_rules]:
  assumes "\<And>ev uuid sqs sch. e_task_id ev = tid \<Longrightarrow> e_type ev = ty \<Longrightarrow> e_data ev = data \<Longrightarrow>
     Q ev (published ev uuid sqs sch s)"
  shows "act_wp (publish_event tid rid ty data opts) Q E s"
  using publish_event_run [of tid rid ty data opts s] assms by (auto simp: act_wp_def)

lemma published_gate_simps [simp]:
  "hp_gates (published ev uuid sqs sch s) = hp_gates s"
  "hp_tokens (published ev uuid sqs sch s) = hp_tokens s"
  "ag_task_gates (published ev uuid sqs sch s) = ag_task_gates s"
  "ag_conditions (published ev uuid sqs sch s) = ag_conditions s"
  "sv_degraded (published ev uuid sqs sch s) = sv_degraded s"
  by (simp_all add: published_def)

lemma task_written_simps [simp]:
  "st_tasks (task_written u runs mir os s) = obj_put (st_tasks s) (t_task_id u) u"
  "st_approvals (task_written u runs mir os s) = st_approvals s"
  "st_clock (task_written u runs mir os s) = st_clock s"
  "st_uuid (task_written u runs mir os s) = st_uuid s"
  by (simp_all add: task_written_def)

lemma approval_written_simps [simp]:
  "st_tasks (approval_written a m os s) = st_tasks s"
  "st_approvals (approval_written a m os s) = obj_put (st_approvals s) (a_approval_id a) a"
  "st_clock (approval_written a m os s) = st_clock s"
  "st_uuid (approval_written a m os s) = st_uuid s"
  by (simp_all add: approval_written_def)

lemma written_gate_simps [simp]:
  "hp_gates (task_written u runs mir os s) = hp_gates s"
  "hp_tokens (task_written u runs mir os s) = hp_tokens s"
  "ag_task_gates (task_written u runs mir os s) = ag_task_gates s"
  "ag_conditions (task_written u runs mir os s) = ag_conditions s"
  "sv_degraded (task_written u runs mir os s) = sv_degraded s"
  "ev_log (task_written u runs mir os s) = ev_log s"
  "hp_gates (approval_written a m os s) = hp_gates s"
  "hp_tokens (approval_written a m os s) = hp_tokens s"
  "ag_task_gates (approval_written a m os s) = ag_task_gates s"
  "ag_conditions (approval_written a m os s) = ag_conditions s"
  "sv_degraded (approval_written a m os s) = sv_degraded s"
  "ev_log (approval_written a m os s) = ev_log s"
  by (simp_all add: task_written_def approval_written_def)

text \<open>A journal append touches the journal and the oracle only.\<close>

definition journaled ::
  "journal_line list \<Rightarrow> bool \<Rightarrow> io_outcome list \<Rightarrow> 'a journal_state_scheme \<Rightarrow> 'a journal_state_scheme" where
  "journaled ls torn os s = s\<lparr>jn_lines := ls, jn_torn := torn, st_io := os\<rparr>"

lemma journaled_simps [simp]:
  "st_tasks (journaled ls torn os s) = st_tasks s"
  "st_approvals (journaled ls torn os s) = st_approvals s"
  "st_clock (journaled ls torn os s) = st_clock s"
  "st_uuid (journaled ls torn os s) = st_uuid s"
  "jn_lines (journaled ls torn os s) = ls"
  "jn_torn (journaled ls torn os s) = torn"
  by (simp_all add: journaled_def)

lemma journaled_gate_simps [simp]:
  "hp_gates (journaled ls torn os s) = hp_gates s"
  "hp_tokens (journaled ls torn os s) = hp_tokens s"
  "ag_task_gates (journaled ls torn os s) = ag_task_gates s"
  "ag_conditions (journaled ls torn os s) = ag_conditions s"
  "sv_degraded (journaled ls torn os s) = sv_degraded s"
  "ev_log (journaled ls torn os s) = ev_log s"
  by (simp_all add: journaled_def)

lemma journal_append_journaled:
  assumes "journal_append r s = (q, t)"
  shows "(\<exists>ls torn os. t = journaled ls torn os s) \<and> (q = Inr () \<or> q = Inl Os_Error)"
proof -
  have "journal_joined r (s\<lparr>st_io := os\<rparr>) = journaled (jn_lines s @ [if jn_torn s then Bad_Line else Line r]) False os s"
    "s\<lparr>st_io := os\<rparr> = journaled (jn_lines s) (jn_torn s) os s"
    "s\<lparr>st_io := os, jn_torn := True\<rparr> = journaled (jn_lines s) True os s" for os
    by (simp_all add: journal_joined_def journaled_def)
  with journal_append_cases [OF assms] show ?thesis by metis
qed

lemma journal_append_wp [wp_rules]:
  assumes "\<And>ls torn os. Q () (journaled ls torn os s) \<and> E Os_Error (journaled ls torn os s)"
  shows "act_wp (journal_append r) Q E s"
  using assms by (intro act_wpI) (auto dest!: journal_append_journaled)

lemma journal_commit_wp [wp_rules]:
  assumes "\<And>ls torn os. Q () (journaled ls torn os s) \<and> E Os_Error (journaled ls torn os s)"
  shows "act_wp (journal_commit txn) Q E s"
  unfolding journal_commit_def using assms by (auto simp: wp_simps intro!: journal_append_wp)

lemma journal_begin_wp [wp_rules]:
  assumes "\<And>txn uuid ls torn os. txn \<noteq> [] \<Longrightarrow> Q txn (journaled ls torn os (s\<lparr>st_uuid := uuid\<rparr>))
     \<and> E Os_Error (journaled ls torn os (s\<lparr>st_uuid := uuid\<rparr>))"
  shows "act_wp (journal_begin kind tid aid) Q E s"
  unfolding journal_begin_def using assms [of "''txn_'' @ nat_str (st_uuid s)"]
  by (auto simp: wp_simps intro!: journal_append_wp)

end
