(* ===== verification/Approval_Gate.thy ===== *)
theory Approval_Gate
  imports Run_Gate
begin

text \<open>
  The approval gate (\<open>infrastructure/approval_gate.py\<close>): a Runner thread asks for one tool call and
  waits on the persisted approval; the API thread decides; cancellation settles what is pending.

  \<open>request\<close> is the sequence \<open>request_start\<close> (the block under the gate and the registration of the
  condition), \<open>wait_poll\<close> (one turn of the waiting loop, which does not hold the gate) and
  \<open>request_finish\<close> (the block after the wait).  A notification only shortens a wait, so conditions
  carry no data.
\<close>

section \<open>Configuration and helpers\<close>

datatype approval_outcome = O_Approved | O_Rejected | O_Expired | O_Cancelled

text \<open>\<open>ApprovalOutcome(status.value)\<close> for a status that is not pending.\<close>

fun outcome_of :: "approval_status \<Rightarrow> approval_outcome option" where
  "outcome_of A_Pending = None"
| "outcome_of A_Approved = Some O_Approved"
| "outcome_of A_Rejected = Some O_Rejected"
| "outcome_of A_Expired = Some O_Expired"
| "outcome_of A_Cancelled = Some O_Cancelled"

text \<open>
  The constructor's arguments: the keyed digest (HMAC-SHA256 under the service's key), the time-out,
  the size of a preview and the redaction function.
\<close>

record gate_config =
  cf_mac :: "string \<Rightarrow> string"
  cf_timeout :: int
  cf_preview_max_chars :: nat
  cf_redact :: "json \<Rightarrow> json"

definition args_digest :: "gate_config \<Rightarrow> json \<Rightarrow> string" where
  "args_digest cfg args = cf_mac cfg (canonical_json args)"

definition args_preview :: "gate_config \<Rightarrow> json \<Rightarrow> json" where
  "args_preview cfg args =
     (let redacted = cf_redact cfg args in
      if utf8_len (canonical_json redacted) \<le> cf_preview_max_chars cfg then redacted
      else JObj [(''_truncated'', JBool True),
                 (''text'', JStr (take (cf_preview_max_chars cfg)
                                    (json_dumps False '', '' '': '' redacted)))])"

definition add_condition :: "string \<Rightarrow> ('a gate_state_scheme, exn, unit) act" where
  "add_condition aid = act_modify (\<lambda>s.
     if aid \<in> set (ag_conditions s) then s else s\<lparr>ag_conditions := ag_conditions s @ [aid]\<rparr>)"

definition drop_condition :: "string \<Rightarrow> ('a gate_state_scheme, exn, unit) act" where
  "drop_condition aid = act_modify (\<lambda>s. s\<lparr>ag_conditions := filter (\<lambda>c. c \<noteq> aid) (ag_conditions s)\<rparr>)"

definition gate_for :: "'a gate_state_scheme \<Rightarrow> string \<Rightarrow> nat option" where
  "gate_for s tid = obj_get (ag_task_gates s) tid"

definition release_gate :: "string \<Rightarrow> ('a gate_state_scheme, exn, unit) act" where
  "release_gate tid = act_modify (\<lambda>s. s\<lparr>ag_task_gates := obj_pop (ag_task_gates s) tid\<rparr>)"

section \<open>The record updates\<close>

definition set_pending_approval :: "pending_info \<Rightarrow> string option \<Rightarrow> task \<Rightarrow> task" where
  "set_pending_approval p txn t =
     t\<lparr>t_status := Waiting_For_Approval, t_pending_approval := Some p, t_transition_id := txn\<rparr>"

definition clear_pending_approval :: "task_status \<Rightarrow> string option \<Rightarrow> task \<Rightarrow> task" where
  "clear_pending_approval st txn t =
     t\<lparr>t_status := st, t_pending_approval := None, t_transition_id := txn\<rparr>"

definition set_decided ::
  "approval_status \<Rightarrow> string \<Rightarrow> int \<Rightarrow> string option \<Rightarrow> approval \<Rightarrow> approval" where
  "set_decided st decision now txn a =
     a\<lparr>a_status := st, a_decision := Some decision, a_decided_at := Some now, a_transition_id := txn\<rparr>"

definition restore_pending_approval :: "approval \<Rightarrow> approval" where
  "restore_pending_approval a =
     a\<lparr>a_status := A_Pending, a_decision := None, a_decided_at := None, a_transition_id := None\<rparr>"

definition restore_waiting_task :: "pending_info option \<Rightarrow> task \<Rightarrow> task" where
  "restore_waiting_task p t =
     t\<lparr>t_status := Waiting_For_Approval, t_pending_approval := p, t_transition_id := None\<rparr>"

lemma approval_updates_same [simp]:
  "t_task_id (set_pending_approval p txn t) = t_task_id t"
  "t_task_id (clear_pending_approval st txn t) = t_task_id t"
  "t_task_id (restore_waiting_task q t) = t_task_id t"
  "t_generation (set_pending_approval p txn t) = t_generation t"
  "t_generation (clear_pending_approval st txn t) = t_generation t"
  "t_generation (restore_waiting_task q t) = t_generation t"
  "t_owner_id (set_pending_approval p txn t) = t_owner_id t"
  "t_owner_id (clear_pending_approval st txn t) = t_owner_id t"
  "t_owner_id (restore_waiting_task q t) = t_owner_id t"
  "t_status (set_pending_approval p txn t) = Waiting_For_Approval"
  "t_status (clear_pending_approval st txn t) = st"
  "t_status (restore_waiting_task q t) = Waiting_For_Approval"
  "t_pending_approval (set_pending_approval p txn t) = Some p"
  "t_pending_approval (clear_pending_approval st txn t) = None"
  "t_pending_approval (restore_waiting_task q t) = q"
  "a_approval_id (set_decided ast d now txn a) = a_approval_id a"
  "a_approval_id (restore_pending_approval a) = a_approval_id a"
  "a_task_id (set_decided ast d now txn a) = a_task_id a"
  "a_task_id (restore_pending_approval a) = a_task_id a"
  "a_owner_id (set_decided ast d now txn a) = a_owner_id a"
  "a_owner_id (restore_pending_approval a) = a_owner_id a"
  "a_status (set_decided ast d now txn a) = ast"
  "a_status (restore_pending_approval a) = A_Pending"
  "a_args_digest (set_decided ast d now txn a) = a_args_digest a"
  "a_args_digest (restore_pending_approval a) = a_args_digest a"
  by (simp_all add: set_pending_approval_def clear_pending_approval_def restore_waiting_task_def
      set_decided_def restore_pending_approval_def)

section \<open>Updating under the gate's generation\<close>

text \<open>\<open>task_repo.update(..., expected_generation=run.gate.generation)\<close>.\<close>

definition fenced_task_update ::
  "run_context \<Rightarrow> string \<Rightarrow> (task \<Rightarrow> task) \<Rightarrow> ('a gate_state_scheme, exn, task) act" where
  "fenced_task_update run tid fn =
     act_bind (act_get (\<lambda>s. g_generation (gate_of s run))) (\<lambda>g. task_update tid fn (Some g))"

definition decide_approval ::
  "string \<Rightarrow> approval_status \<Rightarrow> string \<Rightarrow> string option \<Rightarrow> ('a gate_state_scheme, exn, approval) act" where
  "decide_approval aid st decision txn =
     act_bind utc_now (\<lambda>now. approval_update aid (set_decided st decision now txn))"

section \<open>Compensation\<close>

definition rollback_request :: "run_context \<Rightarrow> string \<Rightarrow> ('a gate_state_scheme, exn, bool) act" where
  "rollback_request run aid =
     act_bind
       (act_try (approval_get aid)
          (\<lambda>_. act_try (decide_approval aid A_Cancelled ''persistence_error'' None)
                 (\<lambda>_. act_ret True) (\<lambda>_. act_ret False))
          (\<lambda>e. act_ret (e = App Approval_Not_Found)))
       (\<lambda>approval_ok.
          act_bind
            (act_try (fenced_task_update run (rc_task_id run) (clear_pending_approval Running None))
               (\<lambda>_. act_ret True) (\<lambda>_. act_ret False))
            (\<lambda>task_ok. act_ret (approval_ok \<and> task_ok)))"

definition rollback_resolution ::
  "run_context \<Rightarrow> string \<Rightarrow> pending_info option \<Rightarrow> ('a gate_state_scheme, exn, bool) act" where
  "rollback_resolution run aid pending =
     act_bind
       (act_try (approval_update aid restore_pending_approval) (\<lambda>_. act_ret True) (\<lambda>_. act_ret False))
       (\<lambda>approval_ok.
          act_bind
            (act_try (fenced_task_update run (rc_task_id run) (restore_waiting_task pending))
               (\<lambda>_. act_ret True) (\<lambda>_. act_ret False))
            (\<lambda>task_ok. act_ret (approval_ok \<and> task_ok)))"

text \<open>
  The \<open>except\<close> branch the two transitions share: compensate, close the journal entry when there is
  one and the compensation held, degrade the service when either is not certain, raise.
\<close>

definition abandon_transition ::
  "('a gate_state_scheme, exn, bool) act \<Rightarrow> string option \<Rightarrow> ('a gate_state_scheme, exn, 'b) act" where
  "abandon_transition rollback txn =
     act_bind rollback (\<lambda>ok.
       act_bind
         (case txn of
            None \<Rightarrow> act_ret ok
          | Some t \<Rightarrow>
              if ok then act_try (journal_commit t) (\<lambda>_. act_ret True) (\<lambda>_. act_ret False)
              else act_ret ok)
         (\<lambda>ok'. act_then (act_when (\<not> ok') mark_degraded)
                  (act_raise (App Persistence_Unavailable))))"

section \<open>Requesting\<close>

definition request_start ::
  "gate_config \<Rightarrow> run_context \<Rightarrow> string \<Rightarrow> string \<Rightarrow> json \<Rightarrow> ('a gate_state_scheme, exn, approval) act" where
  "request_start cfg run call tool args =
     act_bind (fresh_id ''apr_'') (\<lambda>aid.
     act_bind utc_now (\<lambda>now.
       let ap = new_approval now aid (rc_task_id run) (rc_run_id run) (rc_owner_id run) call tool
                  (args_digest cfg args) (args_preview cfg args) (now + cf_timeout cfg)
       in
       act_then (act_modify (\<lambda>s.
           s\<lparr>ag_task_gates := obj_put (ag_task_gates s) (rc_task_id run) (rc_gate run)\<rparr>))
       (act_bind (act_get (\<lambda>s. token_cancelled s run)) (\<lambda>cancelled.
         if cancelled then act_raise Run_Cancelled
         else
           act_then
             (act_try (journal_begin ''approval_request'' (rc_task_id run) aid)
                (\<lambda>txn.
                   act_try
                     (act_then (approval_create (ap\<lparr>a_transition_id := Some txn\<rparr>))
                     (act_then
                        (fenced_task_update run (rc_task_id run)
                           (set_pending_approval
                              \<lparr>p_approval_id = aid, p_tool_call_id = call, p_tool_name = tool,
                               p_args_preview = a_args_preview ap, p_created_at = a_created_at ap,
                               p_expires_at = a_expires_at ap\<rparr> (Some txn)))
                        (journal_commit txn)))
                     act_ret
                     (\<lambda>_. abandon_transition (rollback_request run aid) (Some txn)))
                (\<lambda>_. abandon_transition (rollback_request run aid) None))
           (act_then
             (publish_event (rc_task_id run) (rc_run_id run) ''approval.required''
                [(''approval_id'', JStr aid), (''tool_call_id'', JStr call),
                 (''tool_name'', JStr tool), (''args_preview'', a_args_preview ap),
                 (''created_at'', JInt (a_created_at ap)), (''expires_at'', JInt (a_expires_at ap))]
                no_opts)
           (act_then (add_condition aid) (act_ret ap)))))))"

text \<open>
  One turn of \<open>_wait\<close>: the persisted status first, then the token, then the deadline; \<open>None\<close> is the
  call of \<open>cond.wait\<close>.
\<close>

definition wait_poll ::
  "string \<Rightarrow> run_context \<Rightarrow> int \<Rightarrow> ('a gate_state_scheme, exn, approval_outcome option) act" where
  "wait_poll aid run expires_at =
     act_bind (approval_get aid) (\<lambda>current.
       if a_status current \<noteq> A_Pending then act_ret (outcome_of (a_status current))
       else act_bind (act_get (\<lambda>s. token_cancelled s run)) (\<lambda>cancelled.
         if cancelled then act_ret (Some O_Cancelled)
         else act_bind utc_now (\<lambda>now.
           if expires_at - now \<le> 0 then act_ret (Some O_Expired) else act_ret None)))"

text \<open>\<open>_resolve_locked\<close>, whose writes before the commit are \<open>resolve_writes\<close>.\<close>

definition resolve_writes ::
  "string \<Rightarrow> run_context \<Rightarrow> approval_status \<Rightarrow> string \<Rightarrow> string \<Rightarrow> ('a gate_state_scheme, exn, unit) act" where
  "resolve_writes aid run st decision txn =
     act_then
       (fenced_task_update run (rc_task_id run) (clear_pending_approval Running (Some txn)))
       (act_then (decide_approval aid st decision (Some txn)) (act_ret ()))"

definition resolve_locked ::
  "string \<Rightarrow> run_context \<Rightarrow> approval_status \<Rightarrow> string \<Rightarrow> ('a gate_state_scheme, exn, bool) act" where
  "resolve_locked aid run st decision =
     act_bind (task_get (rc_task_id run)) (\<lambda>task.
       act_then
         (act_try (journal_begin ''approval_resolution'' (rc_task_id run) aid)
            (\<lambda>txn.
               act_try
                 (act_then (resolve_writes aid run st decision txn) (journal_commit txn))
                 act_ret
                 (\<lambda>_. abandon_transition (rollback_resolution run aid (t_pending_approval task)) (Some txn)))
            (\<lambda>_. abandon_transition (rollback_resolution run aid (t_pending_approval task)) None))
         (act_then
           (publish_event (rc_task_id run) (rc_run_id run) ''approval.resolved''
              [(''approval_id'', JStr aid), (''status'', JStr (approval_status_value st)),
               (''decision'', JStr decision)] no_opts)
           (act_ret True)))"

definition request_finish ::
  "gate_config \<Rightarrow> run_context \<Rightarrow> string \<Rightarrow> json \<Rightarrow> approval_outcome
     \<Rightarrow> ('a gate_state_scheme, exn, approval_outcome) act" where
  "request_finish cfg run aid args outcome =
     act_then (drop_condition aid)
       (case outcome of
          O_Approved \<Rightarrow>
            act_bind (act_get (\<lambda>s. token_cancelled s run)) (\<lambda>cancelled.
              if cancelled then act_ret O_Cancelled
              else act_bind (approval_get aid) (\<lambda>current.
                if args_digest cfg args \<noteq> a_args_digest current
                then act_then (resolve_locked aid run A_Rejected ''digest_mismatch'')
                       (act_ret O_Rejected)
                else act_ret outcome))
        | O_Expired \<Rightarrow>
            act_bind (act_get (\<lambda>s. token_cancelled s run)) (\<lambda>cancelled.
              if cancelled then act_ret O_Cancelled
              else act_bind (approval_get aid) (\<lambda>current.
                case outcome_of (a_status current) of
                  Some r \<Rightarrow> act_ret r
                | None \<Rightarrow>
                    act_then (resolve_locked aid run A_Expired ''expired'') (act_ret outcome)))
        | _ \<Rightarrow> act_ret outcome)"

section \<open>Deciding\<close>

definition decision_refused :: "task_status \<Rightarrow> bool" where
  "decision_refused st \<longleftrightarrow> st \<in> {Cancel_Requested, Cancelled, Failed, Completed}"

text \<open>The block of \<open>apply_decision\<close> under the gate.\<close>

definition decide_under_gate ::
  "string \<Rightarrow> string \<Rightarrow> run_context \<Rightarrow> ('a gate_state_scheme, exn, unit) act" where
  "decide_under_gate aid decision run =
     act_bind (approval_get aid) (\<lambda>current.
       if a_status current \<noteq> A_Pending then
         (if approval_status_value (a_status current) = decision then act_ret ()
          else act_raise (App Approval_Already_Resolved))
       else act_bind (task_get (rc_task_id run)) (\<lambda>task.
         if decision_refused (t_status task) then act_raise (App Approval_Stale)
         else act_then
                (resolve_locked aid run
                   (if decision = ''approved'' then A_Approved else A_Rejected) decision)
                (act_ret ())))"

definition apply_decision ::
  "string \<Rightarrow> string \<Rightarrow> ('a gate_state_scheme, exn, approval) act" where
  "apply_decision aid decision =
     act_bind (approval_get aid) (\<lambda>approval.
       if a_status approval \<noteq> A_Pending then
         (if approval_status_value (a_status approval) = decision then act_ret approval
          else act_raise (App Approval_Already_Resolved))
       else act_bind utc_now (\<lambda>now.
         if now > a_expires_at approval then act_raise (App Approval_Expired)
         else act_bind (act_get (\<lambda>s. gate_for s (a_task_id approval))) (\<lambda>gate.
           case gate of
             None \<Rightarrow> act_raise (App Approval_Stale)
           | Some g \<Rightarrow>
               act_then
                 (decide_under_gate aid decision
                    \<lparr>rc_task_id = a_task_id approval, rc_run_id = a_run_id approval,
                     rc_owner_id = a_owner_id approval, rc_gate = g, rc_token = None\<rparr>)
                 (approval_get aid))))"

definition cancel_one :: "run_context \<Rightarrow> approval \<Rightarrow> ('a gate_state_scheme, exn, unit) act" where
  "cancel_one run a =
     act_then (decide_approval (a_approval_id a) A_Cancelled ''cancelled'' None)
       (act_then
         (publish_event (rc_task_id run) (rc_run_id run) ''approval.resolved''
            [(''approval_id'', JStr (a_approval_id a)), (''status'', JStr ''cancelled''),
             (''decision'', JStr ''cancelled'')] no_opts)
         (act_ret ()))"

definition cancel_pending :: "run_context \<Rightarrow> ('a gate_state_scheme, exn, unit) act" where
  "cancel_pending run =
     act_bind (list_pending_for_task (rc_task_id run)) (act_each (cancel_one run))"

section \<open>Facts\<close>


lemma fenced_task_update_wp:
  assumes "obj_get (st_tasks s) tid = Some row"
    and "canonical_owner_id (t_owner_id row) = Some (t_owner_id row)"
    and "\<And>runs mir os u. g_generation (gate_of s run) = t_generation row \<Longrightarrow>
       u = (fn row)\<lparr>t_updated_at := st_clock s\<rparr> \<Longrightarrow>
       Q u (task_written u runs mir os s) \<and> E Os_Error (task_written u runs mir os s)"
    and "g_generation (gate_of s run) \<noteq> t_generation row \<Longrightarrow> E Stale_Generation s"
    and "\<And>os. E Os_Error (s\<lparr>st_io := os\<rparr>)"
  shows "act_wp (fenced_task_update run tid fn) Q E s"
proof -
  have [simp]: "row\<lparr>t_owner_id := t_owner_id row\<rparr> = row" by simp
  show ?thesis
    unfolding fenced_task_update_def act_wp_bind act_wp_get
  proof (rule task_update_wp, goal_cases)
    case (1 row' o' runs mir os u)
    then have "row' = row" "o' = t_owner_id row" using assms(1,2) by simp_all
    with 1 assms(3) [of u runs mir os] show ?case by simp
  next
    case (4 row')
    with assms(1,4) show ?case by simp
  qed (use assms(1,2,5) in simp_all)
qed

lemma decide_approval_wp:
  assumes "obj_get (st_approvals s) aid = Some row"
    and "canonical_owner_id (a_owner_id row) = Some (a_owner_id row)"
    and "\<And>mir os a. a = set_decided st d (st_clock s) txn row \<Longrightarrow>
       Q a (approval_written a mir os s) \<and> E Os_Error (approval_written a mir os s)"
    and "\<And>os. E Os_Error (s\<lparr>st_io := os\<rparr>)"
  shows "act_wp (decide_approval aid st d txn) Q E s"
proof -
  have "row\<lparr>a_owner_id := a_owner_id row\<rparr> = row" by simp
  then show ?thesis
    unfolding decide_approval_def using assms by (auto simp: wp_simps intro!: approval_update_wp)
qed

lemma gate_of_simps [simp]:
  "gate_of (task_written u runs mir os s) = gate_of s"
  "gate_of (approval_written a m os s) = gate_of s"
  "gate_of (journaled ls torn os s) = gate_of s"
  "gate_of (published ev uuid sqs sch s) = gate_of s"
  "gate_of (s\<lparr>st_io := os\<rparr>) = gate_of s"
  "gate_of (s\<lparr>st_uuid := n\<rparr>) = gate_of s"
  "gate_of (s\<lparr>sv_degraded := b\<rparr>) = gate_of s"
  by (simp_all add: gate_of_def fun_eq_iff)


definition task_at ::
  "'a store_state_scheme \<Rightarrow> string \<Rightarrow> task_status \<Rightarrow> pending_info option \<Rightarrow> bool" where
  "task_at s tid tst p \<longleftrightarrow>
     (\<exists>row. obj_get (st_tasks s) tid = Some row \<and> t_task_id row = tid
        \<and> canonical_owner_id (t_owner_id row) = Some (t_owner_id row)
        \<and> t_status row = tst \<and> t_pending_approval row = p)"

definition approval_at :: "'a store_state_scheme \<Rightarrow> string \<Rightarrow> approval_status \<Rightarrow> bool" where
  "approval_at s aid ast \<longleftrightarrow>
     (\<exists>row. obj_get (st_approvals s) aid = Some row \<and> a_approval_id row = aid
        \<and> canonical_owner_id (a_owner_id row) = Some (a_owner_id row) \<and> a_status row = ast)"

definition settled ::
  "'a gate_state_scheme \<Rightarrow> run_context \<Rightarrow> string \<Rightarrow> task_status \<Rightarrow> pending_info option
     \<Rightarrow> approval_status \<Rightarrow> bool" where
  "settled s run aid tst p ast \<longleftrightarrow> task_at s (rc_task_id run) tst p \<and> approval_at s aid ast"

lemmas at_defs = settled_def task_at_def approval_at_def

lemma approval_update_same_wp:
  assumes "obj_get (st_approvals s) aid = Some row"
    and "canonical_owner_id (a_owner_id row) = Some (a_owner_id row)"
    and "\<And>mir os. Q (fn row) (approval_written (fn row) mir os s) \<and> E Os_Error (approval_written (fn row) mir os s)"
    and "\<And>os. E Os_Error (s\<lparr>st_io := os\<rparr>)"
  shows "act_wp (approval_update aid fn) Q E s"
proof -
  have "row\<lparr>a_owner_id := a_owner_id row\<rparr> = row" by simp
  then show ?thesis using assms by (auto intro!: approval_update_wp)
qed

lemma rollback_resolution_wp:
  assumes "settled s run aid tst p0 ast"
   and "\<And>t. settled t run aid Waiting_For_Approval p A_Pending \<Longrightarrow> Q True t"
   and "\<And>t. Q False t"
 shows "act_wp (rollback_resolution run aid p) Q E s"
  using assms(1) unfolding at_defs
  apply (elim exE conjE)
  unfolding rollback_resolution_def
  apply (auto simp: wp_simps assms(3) intro!: approval_update_same_wp fenced_task_update_wp)
   apply (auto simp: at_defs restore_waiting_task_def intro!: assms(2))
  done

lemma at_simps [simp]:
  "task_at (journaled ls torn os s') = task_at s'"
  "task_at (s\<lparr>st_uuid := n\<rparr>) = task_at s"
  "task_at (s\<lparr>st_io := os\<rparr>) = task_at s"
  "task_at (t\<lparr>sv_degraded := b\<rparr>) = task_at t"
  "task_at (t\<lparr>ag_task_gates := tg\<rparr>) = task_at t"
  "task_at (t\<lparr>ag_conditions := cs\<rparr>) = task_at t"
  "task_at (published ev uuid sqs sch u) = task_at u"
  "task_at (approval_written a m os s) = task_at s"
  "approval_at (journaled ls torn os s') = approval_at s'"
  "approval_at (s\<lparr>st_uuid := n\<rparr>) = approval_at s"
  "approval_at (s\<lparr>st_io := os\<rparr>) = approval_at s"
  "approval_at (t\<lparr>sv_degraded := b\<rparr>) = approval_at t"
  "approval_at (t\<lparr>ag_task_gates := tg\<rparr>) = approval_at t"
  "approval_at (t\<lparr>ag_conditions := cs\<rparr>) = approval_at t"
  "approval_at (published ev uuid sqs sch u) = approval_at u"
  "approval_at (task_written r runs mir os s) = approval_at s"
  by (simp_all add: task_at_def approval_at_def fun_eq_iff)

lemma settled_simps [simp]:
  "settled (journaled ls torn os s) = settled s"
  "settled (s\<lparr>st_uuid := n\<rparr>) = settled s"
  "settled (s\<lparr>sv_degraded := b\<rparr>) = settled s"
  "settled (published ev uuid sqs sch s) = settled s"
  by (simp_all add: settled_def fun_eq_iff)

lemma abandon_resolution_wp:
  assumes "settled s run aid tst p0 ast"
   and "\<And>t. \<not> sv_degraded t \<Longrightarrow> settled t run aid Waiting_For_Approval p A_Pending \<Longrightarrow> E (App Persistence_Unavailable) t"
   and "\<And>t. sv_degraded t \<Longrightarrow> E (App Persistence_Unavailable) t"
 shows "act_wp (abandon_transition (rollback_resolution run aid p) txn) Q E s"
  unfolding abandon_transition_def act_wp_bind
  apply (rule rollback_resolution_wp [OF assms(1)])
  subgoal for t
    by (cases "sv_degraded t"; cases txn) (auto simp: wp_simps assms(2,3) intro!: journal_commit_wp)
  subgoal for t
    by (cases txn) (auto simp: wp_simps assms(2,3) intro!: journal_commit_wp)
  done


lemma clear_settled_wp:
  assumes "settled s run aid tst p ast"
    and "\<And>u t. settled t run aid st None ast \<Longrightarrow> Q u t"
    and "\<And>e t tst' p'. settled t run aid tst' p' ast \<Longrightarrow> E e t"
  shows "act_wp (fenced_task_update run (rc_task_id run) (clear_pending_approval st txn)) Q E s"
  using assms(1) unfolding at_defs
  apply (elim exE conjE)
  apply (rule fenced_task_update_wp, assumption, assumption)
  subgoal for trow arow runs mir os u
    using assms(2) [of "task_written u runs mir os s"] assms(3) [of "task_written u runs mir os s" st None]
    by (auto simp: at_defs clear_pending_approval_def)
  subgoal for trow arow
    using assms(1) by (rule assms(3))
  subgoal for trow arow os
    using assms(1) assms(3) [of "s\<lparr>st_io := os\<rparr>" tst p] by (simp add: at_defs)
  done

lemma decide_settled_wp:
  assumes "settled s run aid tst p ast"
    and "\<And>u t. settled t run aid tst p st \<Longrightarrow> Q u t"
    and "\<And>e t ast'. settled t run aid tst p ast' \<Longrightarrow> E e t"
  shows "act_wp (decide_approval aid st d txn) Q E s"
  using assms(1) unfolding at_defs
  apply (elim exE conjE)
  apply (rule decide_approval_wp, assumption, assumption)
  subgoal for trow arow mir os a
    using assms(2) [of "approval_written a mir os s"] assms(3) [of "approval_written a mir os s" st]
    by (auto simp: at_defs)
  subgoal for trow arow os
    using assms(1) assms(3) [of "s\<lparr>st_io := os\<rparr>" ast] by (simp add: at_defs)
  done

lemma resolve_locked_wp:
  assumes "settled s run aid tst p ast"
    and "\<And>t. settled t run aid Running None st \<Longrightarrow> Q True t"
    and "\<And>t. sv_degraded t \<or> settled t run aid Waiting_For_Approval p A_Pending \<Longrightarrow>
           E (App Persistence_Unavailable) t"
  shows "act_wp (resolve_locked aid run st d) Q E s"
proof -
  obtain trow where trow: "obj_get (st_tasks s) (rc_task_id run) = Some trow" "t_pending_approval trow = p"
    "canonical_owner_id (t_owner_id trow) = Some (t_owner_id trow)"
    using assms(1) by (auto simp: at_defs)
  have ab: "act_wp (abandon_transition (rollback_resolution run aid p) txn) Q' E t"
    if "settled t run aid a b c" for t a b c txn and Q' :: "unit \<Rightarrow> _"
    by (rule abandon_resolution_wp [OF that]) (use assms(3) in auto)
  show ?thesis
    unfolding resolve_locked_def resolve_writes_def
    apply (simp add: wp_simps trow)
    apply (rule journal_begin_wp, rule conjI)
    subgoal for txn uuid ls torn os
      apply (rule clear_settled_wp, simp, rule assms(1))
      subgoal
        apply (rule decide_settled_wp, assumption)
        subgoal
          by (rule journal_commit_wp)
            (auto intro!: publish_event_wp assms(2) ab)
        subgoal by (rule ab)
        done
      subgoal by (rule ab)
      done
    subgoal using assms(1) by (auto intro!: ab)
    done
qed

definition rolled_back :: "'a gate_state_scheme \<Rightarrow> run_context \<Rightarrow> string \<Rightarrow> bool" where
  "rolled_back s run aid \<longleftrightarrow> task_at s (rc_task_id run) Running None
     \<and> (obj_get (st_approvals s) aid = None \<or> approval_at s aid A_Cancelled)"

definition requested :: "'a gate_state_scheme \<Rightarrow> run_context \<Rightarrow> string \<Rightarrow> bool" where
  "requested s run aid \<longleftrightarrow> (\<exists>tst p. task_at s (rc_task_id run) tst p)
     \<and> (obj_get (st_approvals s) aid = None \<or> (\<exists>ast. approval_at s aid ast))"

lemma rolled_simps [simp]:
  "rolled_back (journaled ls torn os s) = rolled_back s"
  "rolled_back (s\<lparr>sv_degraded := b\<rparr>) = rolled_back s"
  "requested (journaled ls torn os s) = requested s"
  "requested (s\<lparr>st_io := os\<rparr>) = requested s"
  "requested (s\<lparr>st_uuid := n\<rparr>) = requested s"
  "requested (s\<lparr>sv_degraded := b\<rparr>) = requested s"
  "requested (s\<lparr>ag_task_gates := tg\<rparr>) = requested s"
  by (simp_all add: rolled_back_def requested_def fun_eq_iff)

lemma clear_running_wp:
  assumes "task_at s (rc_task_id run) tst p"
    and "\<And>u t. task_at t (rc_task_id run) st None \<Longrightarrow> st_approvals t = st_approvals s \<Longrightarrow> Q u t"
    and "\<And>e t tst' p'. task_at t (rc_task_id run) tst' p' \<Longrightarrow> st_approvals t = st_approvals s \<Longrightarrow> E e t"
  shows "act_wp (fenced_task_update run (rc_task_id run) (clear_pending_approval st txn)) Q E s"
  using assms(1) unfolding task_at_def
  apply (elim exE conjE)
  apply (rule fenced_task_update_wp, assumption, assumption)
  subgoal for trow runs mir os u
    using assms(2) [of "task_written u runs mir os s"] assms(3) [of "task_written u runs mir os s" st None]
    by (auto simp: at_defs clear_pending_approval_def)
  subgoal for trow
    using assms(1) by (rule assms(3)) simp
  subgoal for trow os
    using assms(1) assms(3) [of "s\<lparr>st_io := os\<rparr>" tst p] by (simp add: at_defs)
  done

lemma rollback_request_wp:
  assumes "requested s run aid"
   and "\<And>t. rolled_back t run aid \<Longrightarrow> Q True t" and "\<And>t. Q False t"
 shows "act_wp (rollback_request run aid) Q E s"
proof -
  obtain tst p where task: "task_at s (rc_task_id run) tst p" using assms(1) by (auto simp: requested_def)
  have rest: "act_wp (fenced_task_update run (rc_task_id run) (clear_pending_approval Running None))
      (\<lambda>a t. Q ok t) (\<lambda>e t. Q False t) t"
    if "task_at t (rc_task_id run) tst p"
       "ok \<Longrightarrow> obj_get (st_approvals t) aid = None \<or> approval_at t aid A_Cancelled" for t ok
    by (rule clear_running_wp [OF that(1)])
      (use assms(2,3) that(2) in \<open>cases ok; auto simp: rolled_back_def approval_at_def\<close>)+
  show ?thesis
    using assms(1) unfolding rollback_request_def requested_def
    apply (elim exE conjE disjE)
     apply (auto simp: wp_simps task intro!: rest)[1]
    apply (simp add: approval_at_def, elim exE conjE)
    apply (auto simp: wp_simps task approval_at_def intro!: rest decide_approval_wp)
    done
qed

lemma abandon_request_wp:
  assumes "requested s run aid"
   and "\<And>t. sv_degraded t \<or> rolled_back t run aid \<Longrightarrow> E (App Persistence_Unavailable) t"
 shows "act_wp (abandon_transition (rollback_request run aid) txn) Q E s"
  unfolding abandon_transition_def act_wp_bind
  by (rule rollback_request_wp [OF assms(1)]; cases txn)
    (auto simp: wp_simps assms(2) intro!: journal_commit_wp)

lemma set_pending_wp:
  assumes "task_at s (rc_task_id run) tst p"
    and "\<And>u t. task_at t (rc_task_id run) Waiting_For_Approval (Some info) \<Longrightarrow>
           st_approvals t = st_approvals s \<Longrightarrow> Q u t"
    and "\<And>e t tst' p'. task_at t (rc_task_id run) tst' p' \<Longrightarrow> st_approvals t = st_approvals s \<Longrightarrow> E e t"
  shows "act_wp (fenced_task_update run (rc_task_id run) (set_pending_approval info txn)) Q E s"
  using assms(1) unfolding task_at_def
  apply (elim exE conjE)
  apply (rule fenced_task_update_wp, assumption, assumption)
  subgoal for trow runs mir os u
    using assms(2) [of "task_written u runs mir os s"]
      assms(3) [of "task_written u runs mir os s" Waiting_For_Approval "Some info"]
    by (auto simp: at_defs set_pending_approval_def)
  subgoal for trow
    using assms(1) by (rule assms(3)) simp
  subgoal for trow os
    using assms(1) assms(3) [of "s\<lparr>st_io := os\<rparr>" tst p] by (simp add: at_defs)
  done

lemma new_approval_simps [simp]:
  "a_approval_id (new_approval now aid tid rid oid call tool dig pv ex) = aid"
  "a_owner_id (new_approval now aid tid rid oid call tool dig pv ex) = oid"
  "a_task_id (new_approval now aid tid rid oid call tool dig pv ex) = tid"
  "a_status (new_approval now aid tid rid oid call tool dig pv ex) = A_Pending"
  "a_expires_at (new_approval now aid tid rid oid call tool dig pv ex) = ex"
  "a_args_digest (new_approval now aid tid rid oid call tool dig pv ex) = dig"
  by (simp_all add: new_approval_def)

lemma request_start_wp:
  assumes task: "task_at s (rc_task_id run) tst p"
    and fresh: "obj_get (st_approvals s) (''apr_'' @ nat_str (st_uuid s)) = None"
    and owner: "canonical_owner_id (rc_owner_id run) = Some (rc_owner_id run)"
    and returned: "\<And>ap info t. p_approval_id info = a_approval_id ap \<Longrightarrow>
         a_expires_at ap = st_clock s + cf_timeout cfg \<Longrightarrow> \<not> token_cancelled s run \<Longrightarrow>
         settled t run (a_approval_id ap) Waiting_For_Approval (Some info) A_Pending \<Longrightarrow> Q ap t"
    and cancelled: "\<And>t. token_cancelled s run \<Longrightarrow> st_tasks t = st_tasks s \<Longrightarrow> st_approvals t = st_approvals s \<Longrightarrow>
         E Run_Cancelled t"
    and failed: "\<And>aid t. \<not> token_cancelled s run \<Longrightarrow> sv_degraded t \<or> rolled_back t run (''apr_'' @ nat_str (st_uuid s)) \<Longrightarrow>
         E (App Persistence_Unavailable) t"
  shows "act_wp (request_start cfg run call tool args) Q E s"
proof (cases "token_cancelled s run")
  case True
  then have "token_cancelled (s\<lparr>st_uuid := n, ag_task_gates := tg\<rparr>) run" for n tg
    by (simp add: token_cancelled_def split: option.splits)
  then show ?thesis using True cancelled by (simp add: request_start_def wp_simps)
next
  case False
  define aid where "aid = ''apr_'' @ nat_str (st_uuid s)"
  note aid = aid_def [symmetric]
  have fresh': "obj_get (st_approvals s) aid = None" using fresh by (simp add: aid_def)
  have tc: "\<not> token_cancelled (s\<lparr>st_uuid := n, ag_task_gates := tg\<rparr>) run" for n tg
    using False by (simp add: token_cancelled_def split: option.splits)
  have ab: "act_wp (abandon_transition (rollback_request run aid) txn) Q' E t"
    if "requested t run aid" for t txn and Q' :: "unit \<Rightarrow> _"
    by (rule abandon_request_wp [OF that]) (use failed False in \<open>auto simp: aid_def\<close>)
  have req: "requested t run aid"
    if "task_at t (rc_task_id run) a b" "obj_get (st_approvals t) aid = None" for t a b
    using that by (auto simp: requested_def)
  have req': "requested t run aid"
    if "task_at t (rc_task_id run) a b" "approval_at t aid c" for t a b c
    using that by (auto simp: requested_def)
  show ?thesis
    unfolding request_start_def
    apply (simp add: wp_simps tc Let_def aid del: append_Cons append.simps)
    apply (rule journal_begin_wp, rule conjI)
    subgoal for txn uuid ls torn os
      apply (rule approval_create_wp)
      subgoal for mir os'
        apply (rule conjI)
         apply (rule set_pending_wp, simp, rule task)
        subgoal for u t
          apply (rule journal_commit_wp, rule conjI)
          subgoal for ls' torn' os''
            apply (rule publish_event_wp)
            apply (simp add: add_condition_def wp_simps)
            apply (rule conjI; intro impI; rule returned)
                   apply (auto simp: settled_def False approval_at_def owner)
            done
          subgoal by (intro ab req') (auto simp: approval_at_def owner)
          done
        subgoal by (intro ab req') (auto simp: approval_at_def owner)
        subgoal by (intro ab req') (auto simp: approval_at_def owner intro: task)
        done
      subgoal using fresh by (simp add: aid del: append_Cons append.simps)
      subgoal by (intro ab req) (auto simp: fresh' intro: task)
      done
    subgoal by (intro ab req) (auto simp: fresh' intro: task)
    done
qed


subsection \<open>After the wait\<close>

lemma request_finish_approvedD:
  assumes "request_finish cfg run aid args outcome s = (Inr O_Approved, t)"
  shows "\<not> token_cancelled s run \<and> t = s\<lparr>ag_conditions := filter (\<lambda>c. c \<noteq> aid) (ag_conditions s)\<rparr>
    \<and> (\<exists>row. obj_get (st_approvals s) aid = Some row
         \<and> (outcome = O_Approved \<and> a_args_digest row = args_digest cfg args
            \<or> outcome = O_Expired \<and> a_status row = A_Approved))"
proof -
  have tc: "token_cancelled (s\<lparr>ag_conditions := c\<rparr>) run = token_cancelled s run" for c
    by (simp add: token_cancelled_def split: option.splits)
  obtain s1 where s1: "s1 = s\<lparr>ag_conditions := filter (\<lambda>c. c \<noteq> aid) (ag_conditions s)\<rparr>" by blast
  have rows: "st_approvals s1 = st_approvals s" "token_cancelled s1 run = token_cancelled s run"
    by (simp_all add: s1 tc)
  show ?thesis
  proof (cases outcome)
    case O_Approved
    then show ?thesis using assms rows
      by (auto simp: request_finish_def drop_condition_def act_then_def act_bind_def act_modify_def
          act_get_def act_ret_def approval_get_eq s1 [symmetric] split: if_splits option.splits prod.splits sum.splits)
  next
    case O_Expired
    then show ?thesis using assms rows
      by (auto simp: request_finish_def drop_condition_def act_then_def act_bind_def act_modify_def
          act_get_def act_ret_def approval_get_eq s1 [symmetric] elim!: outcome_of.elims
          split: if_splits option.splits prod.splits sum.splits)
  qed (use assms in \<open>auto simp: request_finish_def drop_condition_def act_defs\<close>)
qed

subsection \<open>Settling what is pending\<close>

definition rows_ok :: "'a store_state_scheme \<Rightarrow> bool" where
  "rows_ok s \<longleftrightarrow>
     (\<forall>k row. obj_get (st_tasks s) k = Some row \<longrightarrow>
        t_task_id row = k \<and> canonical_owner_id (t_owner_id row) = Some (t_owner_id row))
   \<and> (\<forall>k row. obj_get (st_approvals s) k = Some row \<longrightarrow>
        a_approval_id row = k \<and> canonical_owner_id (a_owner_id row) = Some (a_owner_id row))
   \<and> distinct (map fst (st_approvals s))"

definition pending_of :: "'a store_state_scheme \<Rightarrow> string \<Rightarrow> string set" where
  "pending_of s tid =
     {aid. \<exists>row. obj_get (st_approvals s) aid = Some row \<and> a_task_id row = tid \<and> a_status row = A_Pending}"

lemma approvals_from_payloads_ok:
  "\<forall>r\<in>set rs. canonical_owner_id (a_owner_id r) = Some (a_owner_id r) \<Longrightarrow>
     approvals_from_payloads rs s = (Inr rs, s)"
proof (induction rs)
  case (Cons r rs)
  moreover have "r\<lparr>a_owner_id := a_owner_id r\<rparr> = r" by simp
  ultimately show ?case by (simp add: approval_from_payload_def act_bind_def act_ret_def)
qed (simp add: act_ret_def)

lemma list_pending_ok:
  assumes "rows_ok s"
  shows "\<exists>rs. list_pending_for_task tid s = (Inr rs, s) \<and> set (map a_approval_id rs) = pending_of s tid
     \<and> (\<forall>r\<in>set rs. obj_get (st_approvals s) (a_approval_id r) = Some r)"
proof -
  let ?rs = "map snd (filter (\<lambda>(_, r). a_task_id r = tid \<and> a_status r = A_Pending) (st_approvals s))"
  have d: "distinct (map fst (st_approvals s))" using assms by (simp add: rows_ok_def)
  have get: "obj_get (st_approvals s) k = Some r \<longleftrightarrow> (k, r) \<in> set (st_approvals s)" for k r
    using d by (simp add: obj_get_map_of)
  have id: "(k, r) \<in> set (st_approvals s) \<Longrightarrow> a_approval_id r = k \<and> canonical_owner_id (a_owner_id r) = Some (a_owner_id r)" for k r
    using assms get by (auto simp: rows_ok_def)
  have "approvals_from_payloads ?rs s = (Inr ?rs, s)"
    by (rule approvals_from_payloads_ok) (auto dest: id)
  then have "list_pending_for_task tid s = (Inr ?rs, s)"
    by (simp add: list_pending_for_task_def act_bind_def act_get_def)
  moreover have "set (map a_approval_id ?rs) = pending_of s tid"
    using id by (force simp: pending_of_def get)
  moreover have "\<forall>r\<in>set ?rs. obj_get (st_approvals s) (a_approval_id r) = Some r"
    using id by (auto simp: get)
  ultimately show ?thesis by blast
qed

lemma cancel_each_wp:
  assumes "rows_ok s" and "\<forall>r\<in>set rs. \<exists>row. obj_get (st_approvals s) (a_approval_id r) = Some row"
    and "\<And>t. rows_ok t \<Longrightarrow> st_tasks t = st_tasks s \<Longrightarrow>
       (\<And>tid. pending_of t tid = pending_of s tid - a_approval_id ` set rs) \<Longrightarrow> Q () t"
    and "\<And>t e. E e t"
  shows "act_wp (act_each (cancel_one run) rs) Q E s"
  using assms
proof (induction rs arbitrary: s)
  case Nil
  then show ?case by (simp add: wp_simps)
next
  case (Cons r rs)
  obtain row where row: "obj_get (st_approvals s) (a_approval_id r) = Some row" using Cons.prems(2) by auto
  have ok: "canonical_owner_id (a_owner_id row) = Some (a_owner_id row)" "a_approval_id row = a_approval_id r"
    using Cons.prems(1) row by (auto simp: rows_ok_def)
  show ?case
    apply (simp add: wp_simps cancel_one_def [of run r])
    apply (rule decide_approval_wp [OF row ok(1)])
    subgoal for mir os a
      apply (rule conjI)
       apply (rule publish_event_wp)
      subgoal for ev uuid sqs sch
        apply (rule Cons.IH)
        subgoal using Cons.prems(1) ok row by (auto simp: rows_ok_def distinct_obj_put)
        subgoal using Cons.prems(2) by auto
        subgoal for t
          apply (rule Cons.prems(3))
          subgoal by assumption
          subgoal by simp
          subgoal using ok by (auto simp: pending_of_def)
          done
        subgoal by (rule Cons.prems(4))
        done
      subgoal by (rule Cons.prems(4))
      done
    subgoal by (rule Cons.prems(4))
    done
qed

lemma cancel_pending_wp:
  assumes "rows_ok s"
    and "\<And>t. rows_ok t \<Longrightarrow> st_tasks t = st_tasks s \<Longrightarrow> pending_of t (rc_task_id run) = {} \<Longrightarrow> Q () t"
    and "\<And>t e. E e t"
  shows "act_wp (cancel_pending run) Q E s"
proof -
  obtain rs where rs: "list_pending_for_task (rc_task_id run) s = (Inr rs, s)"
    "set (map a_approval_id rs) = pending_of s (rc_task_id run)"
    "\<forall>r\<in>set rs. obj_get (st_approvals s) (a_approval_id r) = Some r"
    using list_pending_ok [OF assms(1)] by blast
  have "act_wp (act_each (cancel_one run) rs) Q E s"
    by (rule cancel_each_wp [OF assms(1)]) (use rs assms(2,3) in auto)
  then show ?thesis by (simp add: cancel_pending_def act_wp_def act_bind_def rs(1))
qed

subsection \<open>The waiting loop\<close>

text \<open>
  The loop of \<open>_wait\<close>: after a turn that does not return, the rest of the system and the clock move
  (\<open>cond.wait\<close> sleeps at most a second), given as the list of what happens during the sleeps.
\<close>

fun wait_loop ::
  "string \<Rightarrow> run_context \<Rightarrow> int \<Rightarrow> ('a gate_state_scheme \<Rightarrow> 'a gate_state_scheme) list
     \<Rightarrow> 'a gate_state_scheme \<Rightarrow> ((exn + approval_outcome) \<times> 'a gate_state_scheme) option" where
  "wait_loop aid run expires_at [] s = None"
| "wait_loop aid run expires_at (env # envs) s =
     (case wait_poll aid run expires_at s of
        (Inl e, t) \<Rightarrow> Some (Inl e, t)
      | (Inr (Some r), t) \<Rightarrow> Some (Inr r, t)
      | (Inr None, t) \<Rightarrow> wait_loop aid run expires_at envs (env t))"

lemma wait_poll_continues:
  "wait_poll aid run expires_at s = (Inr None, t) \<Longrightarrow> t = s \<and> st_clock s < expires_at"
  by (auto simp: wait_poll_def act_defs approval_get_eq utc_now_def elim!: outcome_of.elims
      split: if_splits option.splits prod.splits sum.splits)

text \<open>The state that a turn of the loop finds: the decision, a cancellation or the deadline is there.\<close>

definition wait_over :: "string \<Rightarrow> run_context \<Rightarrow> int \<Rightarrow> 'a gate_state_scheme \<Rightarrow> bool" where
  "wait_over aid run expires_at s \<longleftrightarrow>
     expires_at \<le> st_clock s \<or> token_cancelled s run \<or>
     (\<exists>row. obj_get (st_approvals s) aid = Some row \<and> a_status row \<noteq> A_Pending)"

lemma wait_poll_over:
  assumes "wait_poll aid run expires_at s = (Inr None, t)"
  shows "t = s" and "\<not> wait_over aid run expires_at s"
proof -
  show "t = s" using wait_poll_continues [OF assms] by simp
  have "a_status row = A_Pending" if "obj_get (st_approvals s) aid = Some row" for row
    using assms that
    by (auto simp: wait_poll_def act_defs approval_get_eq utc_now_def elim!: outcome_of.elims
        split: if_splits option.splits)
  moreover have "\<not> token_cancelled s run" "st_clock s < expires_at"
    using assms
    by (auto simp: wait_poll_def act_defs approval_get_eq utc_now_def elim!: outcome_of.elims
        split: if_splits option.splits)
  ultimately show "\<not> wait_over aid run expires_at s" by (auto simp: wait_over_def)
qed

lemma wait_loop_returns:
  assumes "n < length envs" and "wait_over aid run expires_at (foldl (\<lambda>u env. env u) s (take n envs))"
  shows "wait_loop aid run expires_at (take (Suc n) envs) s \<noteq> None"
  using assms
proof (induction n arbitrary: envs s)
  case 0
  then obtain env rest where envs: "envs = env # rest" by (cases envs) auto
  obtain q t where w: "wait_poll aid run expires_at s = (q, t)" by fastforce
  have "q \<noteq> Inr None" using wait_poll_over(2) [of aid run expires_at s t] w 0 by auto
  then show ?case by (auto simp: envs w split: sum.splits option.splits)
next
  case (Suc n)
  then obtain env rest where envs: "envs = env # rest" by (cases envs) auto
  obtain q t where w: "wait_poll aid run expires_at s = (q, t)" by fastforce
  show ?case
  proof (cases "q = Inr None")
    case True
    then have [simp]: "t = s" using wait_poll_over(1) w by blast
    have "wait_loop aid run expires_at (take (Suc n) rest) (env s) \<noteq> None"
      using Suc.prems by (intro Suc.IH) (simp_all add: envs)
    then show ?thesis by (simp add: envs w True)
  qed (auto simp: envs w split: sum.splits option.splits)
qed

subsection \<open>A decision\<close>

lemma apply_decision_wp:
  assumes ok: "rows_ok s" and row: "obj_get (st_approvals s) aid = Some row"
    and decided: "a_status row \<noteq> A_Pending \<Longrightarrow> approval_status_value (a_status row) = d \<Longrightarrow> Q row s"
    and result: "\<And>trow a t. a_status row = A_Pending \<Longrightarrow> st_clock s \<le> a_expires_at row \<Longrightarrow>
         gate_for s (a_task_id row) \<noteq> None \<Longrightarrow> obj_get (st_tasks s) (a_task_id row) = Some trow \<Longrightarrow>
         \<not> decision_refused (t_status trow) \<Longrightarrow> task_at t (a_task_id row) Running None \<Longrightarrow>
         approval_at t aid (a_status a) \<Longrightarrow>
         a_status a = (if d = ''approved'' then A_Approved else A_Rejected) \<Longrightarrow> Q a t"
    and fails: "\<And>e t. E e t"
  shows "act_wp (apply_decision aid d) Q E s"
proof -
  have own: "canonical_owner_id (a_owner_id row) = Some (a_owner_id row)" "a_approval_id row = aid"
    using ok row by (auto simp: rows_ok_def)
  have same: "row\<lparr>a_owner_id := a_owner_id row\<rparr> = row" by simp
  show ?thesis
  proof (cases "a_status row = A_Pending")
    case False
    then show ?thesis using decided fails by (simp add: apply_decision_def wp_simps row own same)
  next
    case True
    let ?run = "\<lambda>g. \<lparr>rc_task_id = a_task_id row, rc_run_id = a_run_id row, rc_owner_id = a_owner_id row,
      rc_gate = g, rc_token = None\<rparr>"
    have fin: "act_wp (decide_under_gate aid d (?run g)) (\<lambda>_. act_wp (approval_get aid) Q E) E s"
      if g: "gate_for s (a_task_id row) = Some g" "st_clock s \<le> a_expires_at row" for g
    proof (cases "obj_get (st_tasks s) (a_task_id row)")
      case None
      then show ?thesis using fails by (simp add: decide_under_gate_def wp_simps row own True)
    next
      case (Some trow)
      then have town: "canonical_owner_id (t_owner_id trow) = Some (t_owner_id trow)" "t_task_id trow = a_task_id row"
        using ok by (auto simp: rows_ok_def)
      have at: "settled s (?run g) aid (t_status trow) (t_pending_approval trow) A_Pending"
        using Some town row own True by (simp add: at_defs)
      have fin': "act_wp (approval_get aid) Q E t"
        if "settled t (?run g) aid Running None st" "\<not> decision_refused (t_status trow)"
           "st = (if d = ''approved'' then A_Approved else A_Rejected)" for t st
      proof -
        from that(1) obtain r where r: "obj_get (st_approvals t) aid = Some r"
          "canonical_owner_id (a_owner_id r) = Some (a_owner_id r)" "a_status r = st"
          by (auto simp: at_defs)
        have "Q r t" using that r(3) g Some True by (intro result) (auto simp: settled_def)
        moreover have "r\<lparr>a_owner_id := a_owner_id r\<rparr> = r" by simp
        ultimately show ?thesis by (simp add: wp_simps r)
      qed
      show ?thesis
        using fails by (auto simp: decide_under_gate_def wp_simps row own True Some town
            intro!: resolve_locked_wp [OF at] fin' [unfolded approval_get_wp])
    qed
    show ?thesis using fails fin
      by (auto simp: apply_decision_def wp_simps row own True split: option.split)
  qed
qed

section \<open>Properties\<close>

definition sample_config :: gate_config where
  "sample_config = \<lparr>cf_mac = (\<lambda>x. x), cf_timeout = 100, cf_preview_max_chars = 1000, cf_redact = (\<lambda>x. x)\<rparr>"

definition sample_run :: run_context where
  "sample_run = \<lparr>rc_task_id = ''task_1'', rc_run_id = ''run_1'', rc_owner_id = sample_owner,
     rc_gate = 0, rc_token = Some 0\<rparr>"

definition sample_pending :: pending_info where
  "sample_pending = \<lparr>p_approval_id = ''apr_0'', p_tool_call_id = ''c1'', p_tool_name = ''run_shell'',
     p_args_preview = JNull, p_created_at = 10, p_expires_at = 100\<rparr>"

definition sample_approval :: approval where
  "sample_approval = new_approval 10 ''apr_0'' ''task_1'' ''run_1'' sample_owner ''c1'' ''run_shell''
     (args_digest sample_config JNull) JNull 100"

text \<open>A run that waits for its approval, and one that is about to ask for it.\<close>

definition sample_gate :: "io_outcome list \<Rightarrow> bool \<Rightarrow> gate_state" where
  "sample_gate io waiting =
     \<lparr>st_tasks = [(''task_1'', if waiting then restore_waiting_task (Some sample_pending) sample_task
                    else sample_task)],
      st_approvals = (if waiting then [(''apr_0'', sample_approval)] else []), st_runs = [],
      st_mirrored = False, st_task_mirror = [], st_approval_mirror = [], st_io = io, st_clock = 20,
      st_uuid = 1, jn_lines = [], jn_torn = False, ev_sequences = [], ev_log = [], br_size = 0,
      br_subs = [], br_queues = [], br_scheduled = [], hp_gates = [new_gate 0], hp_tokens = [False],
      ag_task_gates = [(''task_1'', 0)], ag_conditions = [], sv_degraded = False\<rparr>"

lemma sample_row_simps [simp]:
  "t_task_id sample_task = ''task_1''" "t_owner_id sample_task = sample_owner"
  "t_status sample_task = Running" "t_pending_approval sample_task = None"
  "t_generation sample_task = 0" "t_run_id sample_task = ''run_1''"
  "a_approval_id sample_approval = ''apr_0''" "a_owner_id sample_approval = sample_owner"
  "a_task_id sample_approval = ''task_1''" "a_status sample_approval = A_Pending"
  "a_args_digest sample_approval = args_digest sample_config JNull"
  by (simp_all add: sample_task_def new_task_def sample_approval_def)

lemma sample_gate_waiting:
  "settled (sample_gate io True) sample_run ''apr_0'' Waiting_For_Approval (Some sample_pending) A_Pending"
  by (simp add: at_defs sample_gate_def sample_run_def)

lemmas gate_eval =
  resolve_locked_def resolve_writes_def fenced_task_update_def decide_approval_def
  abandon_transition_def rollback_resolution_def rollback_request_def request_start_def
  act_bind_def act_then_def act_catch_def act_try_def act_modify_def act_get_def act_ret_def act_raise_def
  act_when_def journal_begin_def journal_commit_def journal_append_def fresh_id_def utc_now_def
  task_get_eq approval_get_eq task_update_eq task_read_eq approval_read_eq approval_update_def
  write_task_def write_approval_def io_write_def task_mirror_write_def approval_mirror_write_def
  publish_event_eq gate_of_def mark_degraded_def sample_gate_def sample_run_def new_gate_def
  journal_joined_def published_def Let_def restore_waiting_task_def put_task_row_def upsert_run_def
  put_approval_row_def set_decided_def restore_pending_approval_def clear_pending_approval_def

text \<open>
  C28. A decision is all or nothing: whatever write fails in between, either the approval has the decided
  status and the task runs again, or the call reports the failure and approval and task are pending
  and waiting as before, or the service is marked degraded.
\<close>

theorem resolve_all_or_nothing:
  assumes "settled s run aid Waiting_For_Approval p A_Pending"
    and "resolve_locked aid run st d s = (q, t)" and "\<not> sv_degraded t"
  shows "case q of Inr _ \<Rightarrow> settled t run aid Running None st
    | Inl e \<Rightarrow> e = App Persistence_Unavailable \<and> settled t run aid Waiting_For_Approval p A_Pending"
proof -
  have "act_wp (resolve_locked aid run st d) (\<lambda>_ t. settled t run aid Running None st)
    (\<lambda>e t. e = App Persistence_Unavailable \<and> (sv_degraded t \<or> settled t run aid Waiting_For_Approval p A_Pending)) s"
    by (rule resolve_locked_wp [OF assms(1)]) auto
  then show ?thesis using assms(2,3) by (auto simp: act_wp_def split: sum.splits)
qed

lemma resolve_all_or_nothing_witness:
  "settled (snd (resolve_locked ''apr_0'' sample_run A_Approved ''approved''
     (sample_gate [Io_Ok, Io_Ok, Io_Ok, Io_Fail] True))) sample_run ''apr_0''
     Waiting_For_Approval (Some sample_pending) A_Pending"
proof -
  obtain q t where run: "resolve_locked ''apr_0'' sample_run A_Approved ''approved''
     (sample_gate [Io_Ok, Io_Ok, Io_Ok, Io_Fail] True) = (q, t)" by fastforce
  have "\<not> sv_degraded t \<and> (\<exists>e. q = Inl e)"
    using arg_cong [OF run, of "\<lambda>x. \<not> sv_degraded (snd x)"] arg_cong [OF run, of "\<lambda>x. \<exists>e. fst x = Inl e"]
    by (simp add: gate_eval)
  then show ?thesis
    using resolve_all_or_nothing [OF sample_gate_waiting run] by (auto simp: run)
qed

text \<open>
  C29. Asking for an approval is all or nothing: either the approval is pending and the task waits for
  exactly it; or the run was cancelled and no row changed; or persistence failed, and then the
  service is degraded or the task runs again and no pending approval is left behind.
\<close>

theorem request_all_or_nothing:
  assumes "task_at s (rc_task_id run) tst p"
    and "obj_get (st_approvals s) (''apr_'' @ nat_str (st_uuid s)) = None"
    and "canonical_owner_id (rc_owner_id run) = Some (rc_owner_id run)"
    and "request_start cfg run call tool args s = (q, t)" and "\<not> sv_degraded t"
  shows "case q of
      Inr ap \<Rightarrow> \<not> token_cancelled s run \<and> (\<exists>info. p_approval_id info = a_approval_id ap
                   \<and> settled t run (a_approval_id ap) Waiting_For_Approval (Some info) A_Pending)
    | Inl e \<Rightarrow>
        if token_cancelled s run
        then e = Run_Cancelled \<and> st_tasks t = st_tasks s \<and> st_approvals t = st_approvals s
        else e = App Persistence_Unavailable
             \<and> rolled_back t run (''apr_'' @ nat_str (st_uuid s))"
proof -
  have "act_wp (request_start cfg run call tool args)
    (\<lambda>ap t. \<not> token_cancelled s run \<and> (\<exists>info. p_approval_id info = a_approval_id ap
                   \<and> settled t run (a_approval_id ap) Waiting_For_Approval (Some info) A_Pending))
    (\<lambda>e t. if token_cancelled s run
        then e = Run_Cancelled \<and> st_tasks t = st_tasks s \<and> st_approvals t = st_approvals s
        else e = App Persistence_Unavailable
             \<and> (sv_degraded t \<or> rolled_back t run (''apr_'' @ nat_str (st_uuid s)))) s"
    by (rule request_start_wp [OF assms(1-3)]) auto
  then show ?thesis using assms(4,5) by (auto simp: act_wp_def split: sum.splits if_splits)
qed

lemma request_all_or_nothing_witness:
  "rolled_back (snd (request_start sample_config sample_run ''c1'' ''run_shell'' JNull
     (sample_gate [Io_Ok, Io_Ok, Io_Fail] False))) sample_run ''apr_1''"
proof -
  obtain q t where run: "request_start sample_config sample_run ''c1'' ''run_shell'' JNull
     (sample_gate [Io_Ok, Io_Ok, Io_Fail] False) = (q, t)" by fastforce
  have n: "nat_str (Suc 0) = ''1''" by (subst nat_str.simps) simp
  have "\<not> sv_degraded t \<and> (\<exists>e. q = Inl e)"
    using arg_cong [OF run, of "\<lambda>x. \<not> sv_degraded (snd x)"] arg_cong [OF run, of "\<lambda>x. \<exists>e. fst x = Inl e"]
    by (simp add: gate_eval sample_config_def token_cancelled_def approval_create_def set_pending_approval_def)
  then obtain e where e: "q = Inl e" "\<not> sv_degraded t" by blast
  have task: "task_at (sample_gate [Io_Ok, Io_Ok, Io_Fail] False) (rc_task_id sample_run) Running None"
    by (simp add: task_at_def sample_gate_def sample_run_def)
  have aid: "''apr_'' @ nat_str (st_uuid (sample_gate [Io_Ok, Io_Ok, Io_Fail] False)) = ''apr_1''"
    by (simp add: sample_gate_def n)
  have fresh: "obj_get (st_approvals (sample_gate [Io_Ok, Io_Ok, Io_Fail] False))
      (''apr_'' @ nat_str (st_uuid (sample_gate [Io_Ok, Io_Ok, Io_Fail] False))) = None"
    by (simp add: sample_gate_def)
  have owner: "canonical_owner_id (rc_owner_id sample_run) = Some (rc_owner_id sample_run)"
    and free: "\<not> token_cancelled (sample_gate [Io_Ok, Io_Ok, Io_Fail] False) sample_run"
    by (simp_all add: sample_run_def sample_gate_def token_cancelled_def)
  have "rolled_back t sample_run ''apr_1''"
    using request_all_or_nothing [OF task fresh owner run e(2)] unfolding e(1) aid using free by simp
  then show ?thesis by (simp add: run)
qed

text \<open>
  A tool call is only released as approved when the run is not cancelled at that moment, and then either
  the arguments about to be executed have the digest that was shown for approval, or the wait had run
  out and the decision is already persisted.
\<close>

theorem approval_releases_only:
  assumes "request_finish cfg run aid args outcome s = (Inr O_Approved, t)"
  shows "\<not> token_cancelled s run \<and> t = s\<lparr>ag_conditions := filter (\<lambda>c. c \<noteq> aid) (ag_conditions s)\<rparr>
    \<and> (\<exists>row. obj_get (st_approvals s) aid = Some row
         \<and> (outcome = O_Approved \<and> a_args_digest row = args_digest cfg args
            \<or> outcome = O_Expired \<and> a_status row = A_Approved))"
  using assms by (rule request_finish_approvedD)

lemma approval_releases_only_witness:
  "\<exists>row. obj_get (st_approvals (sample_gate [] True)) ''apr_0'' = Some row
     \<and> a_args_digest row = args_digest sample_config JNull"
proof -
  have "request_finish sample_config sample_run ''apr_0'' JNull O_Approved (sample_gate [] True)
    = (Inr O_Approved, sample_gate [] True)"
    by (simp add: gate_eval request_finish_def drop_condition_def token_cancelled_def)
  from approval_releases_only [OF this] show ?thesis by auto
qed

text \<open>
  The second way looks at no digest: an approval that arrives in the moment the wait runs out releases
  the call whatever its arguments are.
\<close>

theorem late_approval_unchecked:
  assumes "obj_get (st_approvals s) aid = Some row" and "canonical_owner_id (a_owner_id row) = Some (a_owner_id row)"
    and "a_status row = A_Approved" and "\<not> token_cancelled s run"
  shows "fst (request_finish cfg run aid args O_Expired s) = Inr O_Approved"
proof -
  have same: "row\<lparr>a_owner_id := a_owner_id row\<rparr> = row" by simp
  show ?thesis
    using assms
    by (simp add: request_finish_def drop_condition_def act_defs approval_get_eq same token_cancelled_def
        split: option.splits)
qed

lemma late_approval_unchecked_witness:
  "fst (request_finish sample_config sample_run ''apr_0'' (JStr ''other arguments'') O_Expired
     ((sample_gate [] True)\<lparr>st_approvals := [(''apr_0'', sample_approval\<lparr>a_status := A_Approved\<rparr>)]\<rparr>)) = Inr O_Approved"
  by (rule late_approval_unchecked [where row = "sample_approval\<lparr>a_status := A_Approved\<rparr>"])
    (simp_all add: token_cancelled_def sample_run_def sample_gate_def)

text \<open>
  The waiting thread polls the persisted status without holding the gate, so it can see a decision
  that is afterwards rolled back, and the block after the wait does not look at the status again: the
  decision is answered with a failure, approval and task are pending and waiting, the service is not
  degraded, and the tool call is released as approved all the same.
\<close>

theorem approved_although_rolled_back:
  "\<exists>(s :: gate_state) u t. act_bind (journal_begin ''approval_resolution'' ''task_1'' ''apr_0'')
       (resolve_writes ''apr_0'' sample_run A_Approved ''approved'') s = (Inr (), u)
   \<and> wait_poll ''apr_0'' sample_run 100 u = (Inr (Some O_Approved), u)
   \<and> resolve_locked ''apr_0'' sample_run A_Approved ''approved'' s = (Inl (App Persistence_Unavailable), t)
   \<and> \<not> sv_degraded t
   \<and> settled t sample_run ''apr_0'' Waiting_For_Approval (Some sample_pending) A_Pending
   \<and> fst (request_finish sample_config sample_run ''apr_0'' JNull O_Approved t) = Inr O_Approved"
proof -
  let ?s = "sample_gate [Io_Ok, Io_Ok, Io_Ok, Io_Fail] True"
  obtain q u where u: "act_bind (journal_begin ''approval_resolution'' ''task_1'' ''apr_0'')
       (resolve_writes ''apr_0'' sample_run A_Approved ''approved'') ?s = (q, u)" by fastforce
  have q: "q = Inr ()" using arg_cong [OF u, of fst] by (simp add: gate_eval)
  have poll: "wait_poll ''apr_0'' sample_run 100 u = (Inr (Some O_Approved), u)"
    using arg_cong [OF u, of "\<lambda>x. wait_poll ''apr_0'' sample_run 100 (snd x) = (Inr (Some O_Approved), snd x)"]
    by (simp add: gate_eval wait_poll_def)
  obtain r t where t: "resolve_locked ''apr_0'' sample_run A_Approved ''approved'' ?s = (r, t)"
    by fastforce
  have deg: "\<not> sv_degraded t" "r = Inl (App Persistence_Unavailable)" "hp_tokens t = [False]"
    using arg_cong [OF t, of "\<lambda>x. \<not> sv_degraded (snd x)"] arg_cong [OF t, of fst]
      arg_cong [OF t, of "\<lambda>x. hp_tokens (snd x)"]
    by (simp_all add: gate_eval)
  have undone: "settled t sample_run ''apr_0'' Waiting_For_Approval (Some sample_pending) A_Pending"
    using arg_cong [OF t, of "\<lambda>x. settled (snd x) sample_run ''apr_0'' Waiting_For_Approval (Some sample_pending) A_Pending"]
    by (simp add: gate_eval at_defs)
  have fin: "fst (request_finish sample_config sample_run ''apr_0'' JNull O_Approved t) = Inr O_Approved"
    using arg_cong [OF t, of "\<lambda>x. fst (request_finish sample_config sample_run ''apr_0'' JNull O_Approved (snd x))"]
    by (simp add: gate_eval request_finish_def drop_condition_def token_cancelled_def)
  show ?thesis
    by (intro exI [of _ ?s] exI [of _ u] exI [of _ t] conjI) (use u q poll t deg undone fin in simp_all)
qed



text \<open>
  Settling a run's approvals leaves none pending for its task and does not touch any task.
\<close>

theorem cancel_pending_settles:
  assumes "rows_ok s" and "cancel_pending run s = (Inr u, t)"
  shows "pending_of t (rc_task_id run) = {} \<and> st_tasks t = st_tasks s \<and> rows_ok t"
  by (rule act_wp_retD [OF cancel_pending_wp [OF assms(1), where E = "\<lambda>_ _. True"] assms(2)]) auto

lemma cancel_pending_settles_witness:
  "pending_of (snd (cancel_pending sample_run (sample_gate [] True))) ''task_1'' = {}"
proof -
  obtain q t where run: "cancel_pending sample_run (sample_gate [] True) = (q, t)" by fastforce
  have "q = Inr ()"
    using arg_cong [OF run, of fst]
    by (simp add: gate_eval cancel_pending_def list_pending_for_task_def approval_from_payload_def cancel_one_def)
  moreover have "rows_ok (sample_gate [] True)"
    by (simp add: rows_ok_def sample_gate_def restore_waiting_task_def)
  ultimately show ?thesis using cancel_pending_settles [of _ sample_run "()" t] run
    by (simp add: sample_run_def)
qed

text \<open>
  C31. The wait for a decision ends: whatever happens during its sleeps (which may be cut short by a
  notification, so nothing is asked of how long they are), the loop has returned or raised by the first
  turn that finds the approval decided, the run cancelled or the clock at the deadline.
\<close>

theorem wait_returns:
  assumes "n < length envs" and "u = foldl (\<lambda>v env. env v) s (take n envs)"
    and "expires_at \<le> st_clock u \<or> token_cancelled u run \<or>
      (\<exists>row. obj_get (st_approvals u) aid = Some row \<and> a_status row \<noteq> A_Pending)"
  shows "wait_loop aid run expires_at (take (Suc n) envs) s \<noteq> None"
  by (rule wait_loop_returns [OF assms(1)]) (use assms(2,3) in \<open>simp add: wait_over_def\<close>)

lemma wait_returns_witness:
  "wait_loop ''apr_0'' sample_run 22 [\<lambda>s. s, \<lambda>s. s\<lparr>st_clock := 22\<rparr>, \<lambda>s. s] (sample_gate [] True) \<noteq> None"
  using wait_returns [of 2 "[\<lambda>s. s, \<lambda>s. s\<lparr>st_clock := 22\<rparr>, \<lambda>s. s]" _ "sample_gate [] True" 22 sample_run "''apr_0''"]
  by (simp add: numeral_2_eq_2)

end
