(* ===== verification/Redaction.thy ===== *)
theory Redaction
  imports Py_Text
begin

text \<open>
  Redaction of secrets from run artifacts and public previews (\<open>pico/security.py\<close>).  The process
  environment is an argument, in the order \<open>os.environ\<close> lists it.
\<close>

section \<open>Secrets of the environment\<close>

type_synonym environ = "(string \<times> string) list"

definition SENSITIVE_ENV_NAME_MARKERS :: "string list" where
  "SENSITIVE_ENV_NAME_MARKERS = [''API_KEY'', ''TOKEN'', ''SECRET'', ''PASSWORD'']"

definition REDACTED_VALUE :: string where
  "REDACTED_VALUE = ''<redacted>''"

definition normalized_secret_names :: "string list \<Rightarrow> string set" where
  "normalized_secret_names names = py_upper ` set names"

definition looks_sensitive_env_name :: "string \<Rightarrow> bool" where
  "looks_sensitive_env_name name =
     (let u = py_upper name in
      list_ex (\<lambda>m. u = m \<or> ends_with m u \<or> ends_with (''_'' @ m) u) SENSITIVE_ENV_NAME_MARKERS)"

definition is_secret_env_name :: "string \<Rightarrow> string list \<Rightarrow> bool" where
  "is_secret_env_name name names \<longleftrightarrow>
     py_upper name \<in> normalized_secret_names names \<or> looks_sensitive_env_name (py_upper name)"

definition configured_secret_env_items :: "environ \<Rightarrow> string list \<Rightarrow> (string \<times> string) list" where
  "configured_secret_env_items env names =
     sort_key fst (filter (\<lambda>(n, v). py_upper n \<in> normalized_secret_names names \<and> v \<noteq> []) env)"

definition detected_secret_env_items :: "environ \<Rightarrow> string list \<Rightarrow> (string \<times> string) list" where
  "detected_secret_env_items env names =
     sort_key fst (filter (\<lambda>(n, v). is_secret_env_name n names \<and> v \<noteq> []) env)"

text \<open>The names and the count of a summary; the count is the length of the names.\<close>

definition secret_env_summary :: "environ \<Rightarrow> string list \<Rightarrow> nat \<times> string list" where
  "secret_env_summary env names =
     (let ns = map fst (configured_secret_env_items env names) in (length ns, ns))"

definition detected_secret_env_summary :: "environ \<Rightarrow> string list \<Rightarrow> nat \<times> string list" where
  "detected_secret_env_summary env names =
     (let ns = map fst (detected_secret_env_items env names) in (length ns, ns))"

section \<open>Redacting\<close>

text \<open>\<open>sorted(..., key=len, reverse=True)\<close> keeps equal elements in their order.\<close>

definition longest_first :: "(string \<times> string) list \<Rightarrow> (string \<times> string) list" where
  "longest_first items = rev (sort_key (\<lambda>(_, v). length v) (rev items))"

definition redact_text :: "environ \<Rightarrow> string list \<Rightarrow> string \<Rightarrow> string" where
  "redact_text env names text =
     fold (\<lambda>(_, v) t. py_replace v REDACTED_VALUE t)
       (longest_first (detected_secret_env_items env names)) text"

fun redact_artifact :: "environ \<Rightarrow> string list \<Rightarrow> string \<Rightarrow> json \<Rightarrow> json" where
  "redact_artifact env names key v =
     (if key \<noteq> [] \<and> is_secret_env_name key names then JStr REDACTED_VALUE
      else case v of
        JObj kvs \<Rightarrow> JObj (map (\<lambda>(k, x). (k, redact_artifact env names k x)) kvs)
      | JList xs \<Rightarrow> JList (map (redact_artifact env names key) xs)
      | JStr s \<Rightarrow> JStr (redact_text env names s)
      | _ \<Rightarrow> v)"

declare redact_artifact.simps [simp del]

section \<open>Public previews\<close>

definition PUBLIC_TOOL_RESULT_MAX_CHARS :: nat where
  "PUBLIC_TOOL_RESULT_MAX_CHARS = 8000"

definition PUBLIC_TOOL_ARG_MAX_CHARS :: nat where
  "PUBLIC_TOOL_ARG_MAX_CHARS = 1200"

text \<open>\<open>_PUBLIC_TOOL_ARG_FIELDS\<close>; its keys are \<open>PUBLIC_TOOL_ARG_TOOLS\<close>.\<close>

definition public_tool_arg_fields :: "(string \<times> string list) list" where
  "public_tool_arg_fields =
     [(''list_files'', [''path'']), (''read_file'', [''path'', ''start'', ''end'']),
      (''search'', [''pattern'', ''path'']), (''delegate'', [''task'', ''max_steps'']),
      (''run_shell'', [''command''])]"

definition clip_public_text :: "environ \<Rightarrow> string \<Rightarrow> nat \<Rightarrow> string \<times> bool" where
  "clip_public_text env value limit =
     (let text = redact_text env [] value in
      if length text \<le> limit then (text, False)
      else (take (limit - 20) text @ nl @ ''...[truncated]'', True))"

definition public_arg_value :: "environ \<Rightarrow> json \<Rightarrow> json" where
  "public_arg_value env v =
     (case v of
        JStr s \<Rightarrow> JStr (fst (clip_public_text env s PUBLIC_TOOL_ARG_MAX_CHARS))
      | JBool b \<Rightarrow> JBool b
      | JInt i \<Rightarrow> JInt i
      | _ \<Rightarrow> JStr (take PUBLIC_TOOL_ARG_MAX_CHARS (py_str v)))"

definition public_tool_args_preview :: "environ \<Rightarrow> string \<Rightarrow> json \<Rightarrow> json" where
  "public_tool_args_preview env tool args =
     (case (obj_get public_tool_arg_fields tool, args) of
        (Some fields, JObj kvs) \<Rightarrow>
          redact_artifact env [] []
            (JObj (concat (map (\<lambda>f. case obj_get kvs f of
                                 None \<Rightarrow> [] | Some v \<Rightarrow> [(f, public_arg_value env v)]) fields)))
      | _ \<Rightarrow> JObj [])"

definition public_tool_result_preview :: "environ \<Rightarrow> string \<Rightarrow> string option \<Rightarrow> string \<times> bool" where
  "public_tool_result_preview env tool content =
     (case content of
        None \<Rightarrow> ([], False)
      | Some c \<Rightarrow>
          if obj_get public_tool_arg_fields tool = None then ([], False)
          else clip_public_text env c PUBLIC_TOOL_RESULT_MAX_CHARS)"

section \<open>Facts\<close>

text \<open>
  A secret that the marker cannot help to form: it has none of the marker's brackets and does not
  occur inside the word between them.
\<close>

definition apart_from_marker :: "string \<Rightarrow> bool" where
  "apart_from_marker v \<longleftrightarrow>
     v \<noteq> [] \<and> CHR ''<'' \<notin> set v \<and> CHR ''>'' \<notin> set v \<and> \<not> contains v ''redacted''"

lemma contains_ConsD: "contains v (c # s) \<Longrightarrow> c \<notin> set v \<Longrightarrow> v \<noteq> [] \<Longrightarrow> contains v s"
  by (cases v) (auto simp: starts_with_def)

lemma starts_with_append_sep:
  assumes "starts_with v (a @ c # s)" and "c \<notin> set v"
  shows "starts_with v a"
proof (cases "length v \<le> length a")
  case True
  then show ?thesis using assms(1) by (simp add: starts_with_def)
next
  case False
  then have "take (length v) (a @ c # s) = a @ c # take (length v - length a - 1) s"
    by (simp add: take_Cons')
  with assms show ?thesis by (auto simp: starts_with_def) (metis in_set_conv_decomp)
qed

lemma contains_append_sep:
  "contains v (a @ c # s) \<Longrightarrow> c \<notin> set v \<Longrightarrow> v \<noteq> [] \<Longrightarrow> contains v a \<or> contains v s"
proof (induction a)
  case Nil
  then show ?case using contains_ConsD [of v c s] by simp
next
  case (Cons x a)
  then show ?case using starts_with_append_sep [of v "x # a" c s] by auto
qed

lemma contains_marker:
  assumes "contains v (REDACTED_VALUE @ s)" and "apart_from_marker v"
  shows "contains v s"
proof -
  have v: "v \<noteq> []" "CHR ''<'' \<notin> set v" "CHR ''>'' \<notin> set v" "\<not> contains v ''redacted''"
    using assms(2) by (auto simp: apart_from_marker_def)
  have "contains v (CHR ''<'' # (''redacted'' @ CHR ''>'' # s))"
    using assms(1) by (simp only: REDACTED_VALUE_def append.simps)
  then have "contains v (''redacted'' @ CHR ''>'' # s)" using v(2,1) by (rule contains_ConsD)
  from contains_append_sep [OF this v(3,1)] v(4) show ?thesis by blast
qed

lemma starts_with_replace:
  "starts_with v (py_replace w REDACTED_VALUE s) \<Longrightarrow> CHR ''<'' \<notin> set v \<Longrightarrow> starts_with v s"
proof (induction w REDACTED_VALUE s arbitrary: v rule: py_replace.induct)
  case (2 w c cs)
  show ?case
  proof (cases v)
    case (Cons d v')
    show ?thesis
    proof (cases "w \<noteq> [] \<and> starts_with w (c # cs)")
      case True
      then show ?thesis using 2(3,4) Cons by (auto simp: starts_with_def REDACTED_VALUE_def)
    next
      case False
      with 2(3) Cons have "d = c" "starts_with v' (py_replace w REDACTED_VALUE cs)"
        unfolding py_replace.simps if_not_P [OF False] by (auto simp: starts_with_def)
      with 2(2) [OF False] 2(4) Cons show ?thesis by (auto simp: starts_with_def)
    qed
  qed simp
qed simp

lemma contains_replace:
  assumes "apart_from_marker v" and "contains v (py_replace w REDACTED_VALUE s)"
  shows "contains v s \<and> w \<noteq> v"
  using assms
proof (induction w REDACTED_VALUE s rule: py_replace.induct)
  case (1 w)
  then show ?case by (auto simp: apart_from_marker_def)
next
  case (2 w c cs)
  have v: "v \<noteq> []" "CHR ''<'' \<notin> set v" using 2(3) by (auto simp: apart_from_marker_def)
  show ?case
  proof (cases "w \<noteq> [] \<and> starts_with w (c # cs)")
    case True
    then have "contains v (REDACTED_VALUE @ py_replace w REDACTED_VALUE (drop (length w) (c # cs)))"
      using 2(4) by simp
    then have "contains v (py_replace w REDACTED_VALUE (drop (length w) (c # cs)))"
      using 2(3) by (rule contains_marker)
    with 2(1) [OF True 2(3)] have "contains v (drop (length w) (c # cs)) \<and> w \<noteq> v" by blast
    then show ?thesis by (metis append_assoc append_take_drop_id contains_iff)
  next
    case False
    then have "contains v (c # py_replace w REDACTED_VALUE cs)"
      using 2(4) unfolding py_replace.simps if_not_P [OF False] by simp
    then consider (pre) "starts_with v (c # py_replace w REDACTED_VALUE cs)" | (rest) "contains v (py_replace w REDACTED_VALUE cs)"
      by auto
    then show ?thesis
    proof cases
      case pre
      then obtain v' where v': "v = c # v'" "starts_with v' (py_replace w REDACTED_VALUE cs)"
        using v(1) by (cases v) (auto simp: starts_with_def)
      then have "starts_with v (c # cs)"
        using starts_with_replace [of v' w cs] v(2) by (auto simp: starts_with_def)
      with False v(1) show ?thesis by auto
    next
      case rest
      with False "2.prems"(1) "2.hyps"(2) show ?thesis by auto
    qed
  qed
qed

lemma redact_fold_clean:
  assumes "apart_from_marker v" and "v \<in> snd ` set items \<or> \<not> contains v tx"
  shows "\<not> contains v (fold (\<lambda>(_, w) t. py_replace w REDACTED_VALUE t) items tx)"
  using assms(2)
proof (induction items arbitrary: tx)
  case (Cons it items)
  obtain n w where it: "it = (n, w)" by fastforce
  show ?case
  proof (cases "v \<in> snd ` set items")
    case True
    then show ?thesis using Cons.IH by simp
  next
    case False
    then have "v = w \<or> \<not> contains v tx" using Cons.prems by (auto simp: it)
    then have "\<not> contains v (py_replace w REDACTED_VALUE tx)"
      using contains_replace [OF assms(1)] by blast
    then show ?thesis using Cons.IH by (simp add: it)
  qed
qed simp

lemma set_longest_first [simp]: "set (longest_first items) = set items"
  by (simp add: longest_first_def)

lemma redact_text_clean:
  assumes "(n, v) \<in> set env" and "is_secret_env_name n names" and "apart_from_marker v"
  shows "\<not> contains v (redact_text env names t)"
proof -
  have "v \<noteq> []" using assms(3) by (simp add: apart_from_marker_def)
  then have "(n, v) \<in> set (longest_first (detected_secret_env_items env names))"
    using assms(1,2) by (simp add: detected_secret_env_items_def)
  then have "v \<in> snd ` set (longest_first (detected_secret_env_items env names))" by force
  then show ?thesis unfolding redact_text_def by (intro redact_fold_clean [OF assms(3)]) simp
qed

text \<open>The strings of a value that \<open>redact_artifact\<close> can change: those not used as keys.\<close>

fun json_strings :: "json \<Rightarrow> string list" where
  "json_strings (JStr s) = [s]"
| "json_strings (JList xs) = concat (map json_strings xs)"
| "json_strings (JObj kvs) = concat (map (\<lambda>(k, x). json_strings x) kvs)"
| "json_strings _ = []"

lemma redact_artifact_open:
  assumes "\<not> (key \<noteq> [] \<and> is_secret_env_name key names)"
  shows "redact_artifact env names key (JList xs) = JList (map (redact_artifact env names key) xs)"
    and "redact_artifact env names key (JObj kvs) = JObj (map (\<lambda>(k, x). (k, redact_artifact env names k x)) kvs)"
    and "redact_artifact env names key (JStr t) = JStr (redact_text env names t)"
  using assms by (auto simp: redact_artifact.simps)

lemma marker_apart: "apart_from_marker v \<Longrightarrow> \<not> contains v REDACTED_VALUE"
  using contains_marker [of v "[]"] by (auto simp: apart_from_marker_def)

lemma redact_artifact_clean:
  assumes "apart_from_marker v"
  shows "(n, v) \<in> set env \<Longrightarrow> is_secret_env_name n names \<Longrightarrow>
    s \<in> set (json_strings (redact_artifact env names key x)) \<Longrightarrow> \<not> contains v s"
proof (induction env names key x arbitrary: s rule: redact_artifact.induct)
  case (1 env names key x)
  show ?case
  proof (cases "key \<noteq> [] \<and> is_secret_env_name key names")
    case True
    with 1(5) show ?thesis using marker_apart [OF assms] by (simp add: redact_artifact.simps)
  next
    case False
    note IH = 1(1,2) [OF False]
    show ?thesis
    proof (cases x)
      case (JStr t)
      with 1(5) False show ?thesis using redact_text_clean [OF 1(3,4) assms]
        by (auto simp: redact_artifact.simps)
    next
      case (JList xs)
      with 1(5) False obtain y where "y \<in> set xs" "s \<in> set (json_strings (redact_artifact env names key y))"
        by (auto simp: redact_artifact_open [OF False])
      with IH(1) JList 1(3,4) show ?thesis by blast
    next
      case (JObj kvs)
      with 1(5) False obtain k y where "(k, y) \<in> set kvs" "s \<in> set (json_strings (redact_artifact env names k y))"
        by (auto simp: redact_artifact_open [OF False])
      with IH(2) JObj 1(3,4) show ?thesis by blast
    qed (use 1(5) False in \<open>auto simp: redact_artifact.simps\<close>)
  qed
qed

section \<open>Properties\<close>

text \<open>
  C35. A secret of the environment that cannot be formed with the help of the marker (it has no angle
  bracket and does not occur in the word \<open>redacted\<close>) occurs in no text value of a redacted artifact,
  at whatever depth, however the other secrets overlap it and in whatever order they are replaced.  The
  keys of objects are not values: see \<open>keys_are_not_redacted\<close>.
\<close>

theorem redaction_removes_secret:
  assumes "apart_from_marker v" and "(n, v) \<in> set env" and "is_secret_env_name n names"
    and "s \<in> set (json_strings (redact_artifact env names key x))"
  shows "\<not> contains v s"
  using redact_artifact_clean [OF assms] .

lemma redaction_removes_secret_witness:
  "\<not> contains ''sk-1'' (redact_text [(''A_TOKEN'', ''sk-1''), (''B_TOKEN'', ''sk-12'')] [] ''x sk-12 sk-1'')"
proof (rule redaction_removes_secret [where n = "''A_TOKEN''" and names = "[]" and key = "[]"
      and x = "JStr ''x sk-12 sk-1''" and env = "[(''A_TOKEN'', ''sk-1''), (''B_TOKEN'', ''sk-12'')]"])
  show "apart_from_marker ''sk-1''" by (simp add: apart_from_marker_def starts_with_def)
  show "is_secret_env_name ''A_TOKEN'' []"
    by (simp add: is_secret_env_name_def looks_sensitive_env_name_def SENSITIVE_ENV_NAME_MARKERS_def
        ends_with_def starts_with_def py_upper_def upper_char_def)
qed (simp_all add: redact_artifact.simps)

text \<open>A key of an object is passed on as it is, also one that is a secret.\<close>

theorem keys_are_not_redacted:
  assumes "\<not> (key \<noteq> [] \<and> is_secret_env_name key names)"
  shows "\<exists>d. redact_artifact env names key (JObj [(v, JNull)]) = JObj d \<and> v \<in> fst ` set d"
  using redact_artifact_open(2) [OF assms] by simp

lemma keys_are_not_redacted_witness:
  "\<exists>d. redact_artifact [(''A_TOKEN'', ''sk-1'')] [] [] (JObj [(''sk-1'', JNull)]) = JObj d \<and> ''sk-1'' \<in> fst ` set d"
  by (rule keys_are_not_redacted) simp

text \<open>A public preview of a tool result never exceeds its bound, and is marked when it was cut.\<close>

theorem result_preview_bounded:
  "length (fst (public_tool_result_preview env tool content)) \<le> PUBLIC_TOOL_RESULT_MAX_CHARS
   \<and> (snd (public_tool_result_preview env tool content) \<longrightarrow>
      PUBLIC_TOOL_RESULT_MAX_CHARS < length (redact_text env [] (the content)))"
  by (auto simp: public_tool_result_preview_def clip_public_text_def Let_def PUBLIC_TOOL_RESULT_MAX_CHARS_def
      nl_def split: option.split)

lemma result_preview_bounded_witness:
  "length (fst (public_tool_result_preview [] ''read_file'' (Some ''abc''))) \<le> PUBLIC_TOOL_RESULT_MAX_CHARS"
  using result_preview_bounded [of "[]" "''read_file''" "Some ''abc''"] by (rule conjunct1)

end
