(* ===== verification/Task_State.thy ===== *)
theory Task_State
  imports Control_Entities
begin

text \<open>
  The snapshot of one agent run (\<open>pico/task_state.py\<close>): the record that is written to
  \<open>task_state.json\<close> at every step, its two conversions and the operations of the agent loop on it.
  The conversions read a JSON value as \<open>json.loads\<close> returns it; \<open>str\<close>, \<open>int\<close>, \<open>bool\<close> and the list
  comprehensions of the code are the functions below, their exceptions values of \<open>exn\<close>.
\<close>

section \<open>Conversions of JSON values\<close>

definition res_bind :: "'e + 'a \<Rightarrow> ('a \<Rightarrow> 'e + 'b) \<Rightarrow> 'e + 'b" where
  "res_bind r f = (case r of Inl e \<Rightarrow> Inl e | Inr a \<Rightarrow> f a)"

lemma res_bind_simps [simp]: "res_bind (Inl e) f = Inl e" "res_bind (Inr a) f = f a"
  by (simp_all add: res_bind_def)

fun dec_digits :: "nat \<Rightarrow> string \<Rightarrow> nat option" where
  "dec_digits acc [] = Some acc"
| "dec_digits acc (c # cs) =
     (let n = of_char c :: nat in
      if 48 \<le> n \<and> n \<le> 57 then
        (case cs of
           d # (e # es) \<Rightarrow> if d = CHR ''_'' then dec_digits (10 * acc + (n - 48)) (e # es)
                          else dec_digits (10 * acc + (n - 48)) (d # e # es)
         | _ \<Rightarrow> dec_digits (10 * acc + (n - 48)) cs)
      else None)"

text \<open>\<open>int(text)\<close>.\<close>

definition int_of_text :: "string \<Rightarrow> int option" where
  "int_of_text text =
     (let t = py_strip text;
          u = (if starts_with ''-'' t \<or> starts_with ''+'' t then tl t else t)
      in if u = [] then None
         else map_option (\<lambda>n. if starts_with ''-'' t then - int n else int n) (dec_digits 0 u))"

fun py_int :: "json \<Rightarrow> exn + int" where
  "py_int (JInt i) = Inr i"
| "py_int (JBool b) = Inr (if b then 1 else 0)"
| "py_int (JStr s) = (case int_of_text s of None \<Rightarrow> Inl Value_Error | Some i \<Rightarrow> Inr i)"
| "py_int _ = Inl Type_Error"

text \<open>Iteration over a value: the elements of a list, the characters of a text, the keys of a dict.\<close>

fun py_iter :: "json \<Rightarrow> exn + json list" where
  "py_iter (JList xs) = Inr xs"
| "py_iter (JStr s) = Inr (map (\<lambda>c. JStr [c]) s)"
| "py_iter (JObj kvs) = Inr (map (\<lambda>(k, _). JStr k) kvs)"
| "py_iter _ = Inl Type_Error"

definition get_default :: "(string \<times> json) list \<Rightarrow> string \<Rightarrow> json \<Rightarrow> json" where
  "get_default d k v = (case obj_get d k of None \<Rightarrow> v | Some x \<Rightarrow> x)"

definition get_str :: "(string \<times> json) list \<Rightarrow> string \<Rightarrow> string \<Rightarrow> string" where
  "get_str d k v = py_str (get_default d k (JStr v))"

definition get_bool :: "(string \<times> json) list \<Rightarrow> string \<Rightarrow> bool" where
  "get_bool d k = truthy (get_default d k (JBool False))"

definition get_int :: "(string \<times> json) list \<Rightarrow> string \<Rightarrow> int \<Rightarrow> exn + int" where
  "get_int d k v = py_int (get_default d k (JInt v))"

definition get_int_or_zero :: "(string \<times> json) list \<Rightarrow> string \<Rightarrow> exn + int" where
  "get_int_or_zero d k =
     (let x = get_default d k (JInt 0) in if truthy x then py_int x else Inr 0)"

definition get_max_tool_steps :: "(string \<times> json) list \<Rightarrow> exn + int" where
  "get_max_tool_steps d =
     py_int (get_default d ''max_tool_steps'' (get_default d ''max_steps'' (JInt 6)))"

definition get_strs :: "(string \<times> json) list \<Rightarrow> string \<Rightarrow> string list \<Rightarrow> exn + string list" where
  "get_strs d k v =
     res_bind (py_iter (get_default d k (JList (map JStr v)))) (\<lambda>xs. Inr (map py_str xs))"

definition get_dicts :: "(string \<times> json) list \<Rightarrow> string \<Rightarrow> exn + json list" where
  "get_dicts d k =
     res_bind (py_iter (get_default d k (JList [])))
       (\<lambda>xs. Inr (filter (\<lambda>x. case x of JObj _ \<Rightarrow> True | _ \<Rightarrow> False) xs))"

definition get_reasons :: "(string \<times> json) list \<Rightarrow> string \<Rightarrow> exn + string list" where
  "get_reasons d k =
     res_bind (py_iter (get_default d k (JList [])))
       (\<lambda>xs. Inr (filter (\<lambda>s. py_strip s \<noteq> []) (map py_str xs)))"

text \<open>
  \<open>dict(value)\<close>: an object, or an iterable of pairs; a key that is a list or an object cannot be
  hashed.  Keys become texts at once, so \<open>1\<close> and \<open>true\<close>, one key for Python, stay two here.
\<close>

definition dict_pair :: "json \<Rightarrow> exn + (string \<times> json)" where
  "dict_pair v =
     res_bind (py_iter v) (\<lambda>xs.
       case xs of
         [k, x] \<Rightarrow> (case k of JList _ \<Rightarrow> Inl Type_Error | JObj _ \<Rightarrow> Inl Type_Error | _ \<Rightarrow> Inr (py_str k, x))
       | _ \<Rightarrow> Inl Value_Error)"

fun dict_pairs :: "(string \<times> json) list \<Rightarrow> json list \<Rightarrow> exn + (string \<times> json) list" where
  "dict_pairs d [] = Inr d"
| "dict_pairs d (v # vs) = res_bind (dict_pair v) (\<lambda>(k, x). dict_pairs (obj_put d k x) vs)"

definition py_dict :: "json \<Rightarrow> exn + (string \<times> json) list" where
  "py_dict v = (case v of JObj kvs \<Rightarrow> Inr kvs | _ \<Rightarrow> res_bind (py_iter v) (dict_pairs []))"

fun goal_items :: "(string \<times> json) list \<Rightarrow> exn + (string \<times> string list) list" where
  "goal_items [] = Inr []"
| "goal_items ((g, v) # r) =
     res_bind (py_iter v) (\<lambda>xs.
       res_bind (goal_items r) (\<lambda>gs. Inr ((g, map py_str xs) # gs)))"

definition get_goals :: "(string \<times> json) list \<Rightarrow> string \<Rightarrow> exn + (string \<times> string list) list" where
  "get_goals d k = res_bind (py_dict (get_default d k (JObj []))) goal_items"

section \<open>The record\<close>

definition TASK_PHASES :: "string list" where
  "TASK_PHASES = [''UNDERSTAND_REQUEST'', ''GATHER_CONTEXT'', ''ANALYZE_CONTEXT'', ''ACT_OR_ANSWER'',
     ''VERIFY'', ''FINAL'']"

definition DEFAULT_CHECKLIST :: "string list" where
  "DEFAULT_CHECKLIST =
     [''Understand the request and acceptance criteria'', ''Gather the minimum workspace context'',
      ''Analyze evidence and choose the next action'', ''Act or prepare a grounded answer'',
      ''Verify the result before finishing'']"

record task_state =
  ts_run_id :: string
  ts_task_id :: string
  ts_user_request :: string
  ts_session_id :: string
  ts_workspace_id :: string
  ts_status :: string
  ts_tool_steps :: int
  ts_attempts :: int
  ts_last_tool :: string
  ts_stop_reason :: string
  ts_final_answer :: string
  ts_checkpoint_id :: string
  ts_resume_status :: string
  ts_sandbox_violations :: int
  ts_malformed_output_recovered :: int
  ts_affected_paths :: "string list"
  ts_phase :: string
  ts_checklist :: "string list"
  ts_done_when :: "string list"
  ts_completed_items :: "string list"
  ts_step_done_when :: "(string \<times> string list) list"
  ts_next_step :: string
  ts_requires_post_tool_reasoning :: bool
  ts_read_files :: int
  ts_max_tool_steps :: int
  ts_max_read_files :: int
  ts_max_total_steps :: int
  ts_plan_id :: string
  ts_plan_revision :: int
  ts_plan_history :: "json list"
  ts_replan_reasons :: "string list"
  ts_intent :: string
  ts_review_status :: string
  ts_budget_converged :: bool
  ts_run_finished_emitted :: bool
  ts_talk_steps :: int
  ts_evidence :: "json list"
  ts_rejected_finals :: "json list"
  ts_input_tokens :: int
  ts_output_tokens :: int
  ts_error_stage :: string
  ts_error_code :: string
  ts_error_retryable :: bool
  ts_error_attempts :: int
  ts_stagnation_audit :: "json list"
  ts_review_audit :: "json list"

text \<open>\<open>TaskState(run_id, task_id, user_request)\<close>, everything else at its default.\<close>

definition new_task_state :: "string \<Rightarrow> string \<Rightarrow> string \<Rightarrow> task_state" where
  "new_task_state rid tid req =
     \<lparr>ts_run_id = rid,
      ts_task_id = tid,
      ts_user_request = req,
      ts_session_id = [],
      ts_workspace_id = [],
      ts_status = ''running'',
      ts_tool_steps = 0,
      ts_attempts = 0,
      ts_last_tool = [],
      ts_stop_reason = [],
      ts_final_answer = [],
      ts_checkpoint_id = [],
      ts_resume_status = [],
      ts_sandbox_violations = 0,
      ts_malformed_output_recovered = 0,
      ts_affected_paths = [],
      ts_phase = ''UNDERSTAND_REQUEST'',
      ts_checklist = [],
      ts_done_when = [],
      ts_completed_items = [],
      ts_step_done_when = [],
      ts_next_step = ''Understand the request and acceptance criteria'',
      ts_requires_post_tool_reasoning = False,
      ts_read_files = 0,
      ts_max_tool_steps = 6,
      ts_max_read_files = 4,
      ts_max_total_steps = 18,
      ts_plan_id = [],
      ts_plan_revision = 0,
      ts_plan_history = [],
      ts_replan_reasons = [],
      ts_intent = [],
      ts_review_status = [],
      ts_budget_converged = False,
      ts_run_finished_emitted = False,
      ts_talk_steps = 0,
      ts_evidence = [],
      ts_rejected_finals = [],
      ts_input_tokens = 0,
      ts_output_tokens = 0,
      ts_error_stage = [],
      ts_error_code = [],
      ts_error_retryable = False,
      ts_error_attempts = 0,
      ts_stagnation_audit = [],
      ts_review_audit = []\<rparr>"

text \<open>\<open>TaskState.create\<close>, with the generated run id as an argument.\<close>

definition create_task_state ::
  "string \<Rightarrow> string \<Rightarrow> string \<Rightarrow> int \<Rightarrow> int \<Rightarrow> int option \<Rightarrow> string \<Rightarrow> string \<Rightarrow> task_state" where
  "create_task_state rid tid req max_tool_steps max_read_files max_total_steps sid wid =
     (let mts = max 1 max_tool_steps;
          total = (case max_total_steps of None \<Rightarrow> max (mts * 3) (mts + 4) | Some n \<Rightarrow> n)
      in (new_task_state rid tid req)
           \<lparr>ts_session_id := sid, ts_workspace_id := wid, ts_checklist := DEFAULT_CHECKLIST,
            ts_done_when := [''A final answer is grounded in the collected evidence'',
                             ''The requested work is verified or its blocker is explicit''],
            ts_max_tool_steps := mts, ts_max_read_files := max 0 max_read_files,
            ts_max_total_steps := max 1 total\<rparr>)"

definition task_state_to_dict :: "task_state \<Rightarrow> json" where
  "task_state_to_dict t = JObj
    [(''run_id'', JStr (ts_run_id t)),
     (''task_id'', JStr (ts_task_id t)),
     (''user_request'', JStr (ts_user_request t)),
     (''session_id'', JStr (ts_session_id t)),
     (''workspace_id'', JStr (ts_workspace_id t)),
     (''status'', JStr (ts_status t)),
     (''tool_steps'', JInt (ts_tool_steps t)),
     (''attempts'', JInt (ts_attempts t)),
     (''last_tool'', JStr (ts_last_tool t)),
     (''stop_reason'', JStr (ts_stop_reason t)),
     (''final_answer'', JStr (ts_final_answer t)),
     (''checkpoint_id'', JStr (ts_checkpoint_id t)),
     (''resume_status'', JStr (ts_resume_status t)),
     (''sandbox_violations'', JInt (ts_sandbox_violations t)),
     (''malformed_output_recovered'', JInt (ts_malformed_output_recovered t)),
     (''affected_paths'', JList (map JStr (ts_affected_paths t))),
     (''phase'', JStr (ts_phase t)),
     (''checklist'', JList (map JStr (ts_checklist t))),
     (''done_when'', JList (map JStr (ts_done_when t))),
     (''completed_items'', JList (map JStr (ts_completed_items t))),
     (''step_done_when'', JObj (map (\<lambda>(g, xs). (g, JList (map JStr xs))) (ts_step_done_when t))),
     (''next_step'', JStr (ts_next_step t)),
     (''requires_post_tool_reasoning'', JBool (ts_requires_post_tool_reasoning t)),
     (''read_files'', JInt (ts_read_files t)),
     (''max_tool_steps'', JInt (ts_max_tool_steps t)),
     (''max_read_files'', JInt (ts_max_read_files t)),
     (''max_total_steps'', JInt (ts_max_total_steps t)),
     (''plan_id'', JStr (ts_plan_id t)),
     (''plan_revision'', JInt (ts_plan_revision t)),
     (''plan_history'', JList (ts_plan_history t)),
     (''replan_reasons'', JList (map JStr (ts_replan_reasons t))),
     (''intent'', JStr (ts_intent t)),
     (''review_status'', JStr (ts_review_status t)),
     (''budget_converged'', JBool (ts_budget_converged t)),
     (''run_finished_emitted'', JBool (ts_run_finished_emitted t)),
     (''talk_steps'', JInt (ts_talk_steps t)),
     (''evidence'', JList (ts_evidence t)),
     (''rejected_finals'', JList (ts_rejected_finals t)),
     (''input_tokens'', JInt (ts_input_tokens t)),
     (''output_tokens'', JInt (ts_output_tokens t)),
     (''error_stage'', JStr (ts_error_stage t)),
     (''error_code'', JStr (ts_error_code t)),
     (''error_retryable'', JBool (ts_error_retryable t)),
     (''error_attempts'', JInt (ts_error_attempts t)),
     (''stagnation_audit'', JList (ts_stagnation_audit t)),
     (''review_audit'', JList (ts_review_audit t))]"

fun task_state_from_dict :: "json \<Rightarrow> exn + task_state" where
  "task_state_from_dict (JObj d) =
     res_bind (get_int d ''tool_steps'' 0) (\<lambda>tool_steps.
     res_bind (get_int d ''attempts'' 0) (\<lambda>attempts.
     res_bind (get_int d ''sandbox_violations'' 0) (\<lambda>sandbox_violations.
     res_bind (get_int d ''malformed_output_recovered'' 0) (\<lambda>malformed_output_recovered.
     res_bind (get_strs d ''affected_paths'' []) (\<lambda>affected_paths.
     res_bind (get_strs d ''checklist'' DEFAULT_CHECKLIST) (\<lambda>checklist.
     res_bind (get_strs d ''done_when'' []) (\<lambda>done_when.
     res_bind (get_strs d ''completed_items'' []) (\<lambda>completed_items.
     res_bind (get_goals d ''step_done_when'') (\<lambda>step_done_when.
     res_bind (get_int d ''read_files'' 0) (\<lambda>read_files.
     res_bind (get_max_tool_steps d) (\<lambda>max_tool_steps.
     res_bind (get_int d ''max_read_files'' 4) (\<lambda>max_read_files.
     res_bind (get_int d ''max_total_steps'' 18) (\<lambda>max_total_steps.
     res_bind (get_int d ''plan_revision'' 0) (\<lambda>plan_revision.
     res_bind (get_dicts d ''plan_history'') (\<lambda>plan_history.
     res_bind (get_reasons d ''replan_reasons'') (\<lambda>replan_reasons.
     res_bind (get_int d ''talk_steps'' 0) (\<lambda>talk_steps.
     res_bind (get_dicts d ''evidence'') (\<lambda>evidence.
     res_bind (get_dicts d ''rejected_finals'') (\<lambda>rejected_finals.
     res_bind (get_int_or_zero d ''input_tokens'') (\<lambda>input_tokens.
     res_bind (get_int_or_zero d ''output_tokens'') (\<lambda>output_tokens.
     res_bind (get_int_or_zero d ''error_attempts'') (\<lambda>error_attempts.
     res_bind (get_dicts d ''stagnation_audit'') (\<lambda>stagnation_audit.
     res_bind (get_dicts d ''review_audit'') (\<lambda>review_audit.
     Inr \<lparr>ts_run_id = get_str d ''run_id'' [],
         ts_task_id = get_str d ''task_id'' [],
         ts_user_request = get_str d ''user_request'' [],
         ts_session_id = get_str d ''session_id'' [],
         ts_workspace_id = get_str d ''workspace_id'' [],
         ts_status = get_str d ''status'' ''running'',
         ts_tool_steps = tool_steps,
         ts_attempts = attempts,
         ts_last_tool = get_str d ''last_tool'' [],
         ts_stop_reason = get_str d ''stop_reason'' [],
         ts_final_answer = get_str d ''final_answer'' [],
         ts_checkpoint_id = get_str d ''checkpoint_id'' [],
         ts_resume_status = get_str d ''resume_status'' [],
         ts_sandbox_violations = sandbox_violations,
         ts_malformed_output_recovered = malformed_output_recovered,
         ts_affected_paths = affected_paths,
         ts_phase = get_str d ''phase'' ''UNDERSTAND_REQUEST'',
         ts_checklist = checklist,
         ts_done_when = done_when,
         ts_completed_items = completed_items,
         ts_step_done_when = step_done_when,
         ts_next_step = get_str d ''next_step'' ''Understand the request and acceptance criteria'',
         ts_requires_post_tool_reasoning = get_bool d ''requires_post_tool_reasoning'',
         ts_read_files = read_files,
         ts_max_tool_steps = max 1 max_tool_steps,
         ts_max_read_files = max 0 max_read_files,
         ts_max_total_steps = max 1 max_total_steps,
         ts_plan_id = get_str d ''plan_id'' [],
         ts_plan_revision = max 0 plan_revision,
         ts_plan_history = plan_history,
         ts_replan_reasons = replan_reasons,
         ts_intent = get_str d ''intent'' [],
         ts_review_status = get_str d ''review_status'' [],
         ts_budget_converged = get_bool d ''budget_converged'',
         ts_run_finished_emitted = get_bool d ''run_finished_emitted'',
         ts_talk_steps = max 0 talk_steps,
         ts_evidence = evidence,
         ts_rejected_finals = rejected_finals,
         ts_input_tokens = max 0 input_tokens,
         ts_output_tokens = max 0 output_tokens,
         ts_error_stage = get_str d ''error_stage'' [],
         ts_error_code = get_str d ''error_code'' [],
         ts_error_retryable = get_bool d ''error_retryable'',
         ts_error_attempts = max 0 error_attempts,
         ts_stagnation_audit = stagnation_audit,
         ts_review_audit = review_audit\<rparr>))))))))))))))))))))))))"
| "task_state_from_dict _ = Inl Attribute_Error"

section \<open>Operations\<close>

definition set_phase :: "string \<Rightarrow> string \<Rightarrow> string \<Rightarrow> task_state \<Rightarrow> exn + task_state" where
  "set_phase phase next_step completed t =
     (let p = py_upper (py_strip phase) in
      if p \<notin> set TASK_PHASES then Inl Value_Error
      else Inr (let t1 = t\<lparr>ts_phase := p\<rparr>;
                    t2 = (if completed \<noteq> [] \<and> completed \<notin> set (ts_completed_items t1)
                          then t1\<lparr>ts_completed_items := ts_completed_items t1 @ [completed]\<rparr> else t1)
                in if next_step \<noteq> [] then t2\<lparr>ts_next_step := next_step\<rparr> else t2))"

definition begin_post_tool_reasoning :: "string \<Rightarrow> task_state \<Rightarrow> exn + task_state" where
  "begin_post_tool_reasoning tool t =
     set_phase ''ANALYZE_CONTEXT''
       (''Summarize the '' @ tool @ '' result and decide whether more evidence is needed'') []
       (t\<lparr>ts_requires_post_tool_reasoning := True\<rparr>)"

definition add_completed :: "string \<Rightarrow> task_state \<Rightarrow> task_state" where
  "add_completed item t =
     (if item \<in> set (ts_completed_items t) then t
      else t\<lparr>ts_completed_items := ts_completed_items t @ [item]\<rparr>)"

definition finish_post_tool_reasoning :: "string \<Rightarrow> task_state \<Rightarrow> exn + task_state" where
  "finish_post_tool_reasoning decision t =
     (let u = add_completed ''Analyze evidence and choose the next action''
                (add_completed ''Gather the minimum workspace context''
                  (t\<lparr>ts_requires_post_tool_reasoning := False\<rparr>))
      in if decision = ''final''
         then set_phase ''VERIFY'' ''Verify the evidence before returning the final answer'' [] u
         else set_phase ''ACT_OR_ANSWER'' ''Choose the next tool or prepare the final answer'' [] u)"

definition record_read_file :: "task_state \<Rightarrow> task_state" where
  "record_read_file t = t\<lparr>ts_read_files := ts_read_files t + 1\<rparr>"

definition record_attempt :: "task_state \<Rightarrow> task_state" where
  "record_attempt t = t\<lparr>ts_attempts := ts_attempts t + 1\<rparr>"

definition record_tool :: "string \<Rightarrow> task_state \<Rightarrow> task_state" where
  "record_tool name t = t\<lparr>ts_tool_steps := ts_tool_steps t + 1, ts_last_tool := name\<rparr>"

definition record_sandbox_violation :: "task_state \<Rightarrow> task_state" where
  "record_sandbox_violation t = t\<lparr>ts_sandbox_violations := ts_sandbox_violations t + 1\<rparr>"

definition record_malformed_output_recovered :: "task_state \<Rightarrow> task_state" where
  "record_malformed_output_recovered t =
     t\<lparr>ts_malformed_output_recovered := ts_malformed_output_recovered t + 1\<rparr>"

definition record_talk :: "task_state \<Rightarrow> task_state" where
  "record_talk t = t\<lparr>ts_talk_steps := ts_talk_steps t + 1\<rparr>"

definition record_model_usage :: "int \<Rightarrow> int \<Rightarrow> task_state \<Rightarrow> task_state" where
  "record_model_usage inp outp t =
     t\<lparr>ts_input_tokens := ts_input_tokens t + max 0 inp, ts_output_tokens := ts_output_tokens t + max 0 outp\<rparr>"

definition record_error :: "string \<Rightarrow> string \<Rightarrow> bool \<Rightarrow> int \<Rightarrow> task_state \<Rightarrow> task_state" where
  "record_error stage code retryable attempts t =
     t\<lparr>ts_error_stage := take 64 stage, ts_error_code := take 100 code, ts_error_retryable := retryable,
       ts_error_attempts := max 0 attempts\<rparr>"

text \<open>\<open>record_evidence\<close>, with the fresh evidence id and the time stamp as arguments.\<close>

definition record_evidence :: "string \<Rightarrow> string \<Rightarrow> json \<Rightarrow> task_state \<Rightarrow> exn + task_state" where
  "record_evidence eid now evidence t =
     (case evidence of
        JObj kvs \<Rightarrow>
          Inr (t\<lparr>ts_evidence := ts_evidence t @
            [JObj (obj_setdefault (obj_setdefault (obj_setdefault (obj_setdefault kvs
                     ''evidence_id'' (JStr eid)) ''run_id'' (JStr (ts_run_id t)))
                     ''task_id'' (JStr (ts_task_id t))) ''created_at'' (JStr now))]\<rparr>)
      | _ \<Rightarrow> Inl Type_Error)"

definition complete_item :: "string \<Rightarrow> task_state \<Rightarrow> task_state" where
  "complete_item item t =
     (let i = py_strip item in
      if i \<noteq> [] \<and> i \<in> set (ts_checklist t) then add_completed i t else t)"

definition record_affected_paths :: "string list \<Rightarrow> task_state \<Rightarrow> task_state" where
  "record_affected_paths paths t =
     t\<lparr>ts_affected_paths :=
         sorted_list_of_set (set (ts_affected_paths t) \<union> (py_strip ` set paths - {[]}))\<rparr>"

definition stop_run :: "string \<Rightarrow> string \<Rightarrow> string \<Rightarrow> task_state \<Rightarrow> task_state" where
  "stop_run reason status answer t =
     (let u = t\<lparr>ts_status := status, ts_stop_reason := reason\<rparr>
      in if answer \<noteq> [] then u\<lparr>ts_final_answer := answer\<rparr> else u)"

definition finish_success :: "string \<Rightarrow> task_state \<Rightarrow> exn + task_state" where
  "finish_success answer t =
     set_phase ''FINAL'' ''Task complete'' []
       (t\<lparr>ts_status := ''completed'', ts_stop_reason := ''final_answer_returned'',
          ts_final_answer := answer, ts_requires_post_tool_reasoning := False\<rparr>)"

section \<open>Facts\<close>

lemma obj_get_default [simp]:
  "get_default ((k, v) # d) k w = v"
  "k' \<noteq> k \<Longrightarrow> get_default ((k', v) # d) k w = get_default d k w"
  "get_default [] k w = w"
  by (simp_all add: get_default_def)

lemma goal_items_map [simp]:
  "goal_items (map (\<lambda>(g, xs). (g, JList (map JStr xs))) gs) = Inr gs"
  by (induction gs) (auto simp: comp_def)

text \<open>What every snapshot that \<open>from_dict\<close> returns satisfies.\<close>

definition snapshot_plain :: "task_state \<Rightarrow> bool" where
  "snapshot_plain t \<longleftrightarrow>
     1 \<le> ts_max_tool_steps t \<and> 0 \<le> ts_max_read_files t \<and> 1 \<le> ts_max_total_steps t
     \<and> 0 \<le> ts_plan_revision t \<and> 0 \<le> ts_talk_steps t \<and> 0 \<le> ts_input_tokens t \<and> 0 \<le> ts_output_tokens t
     \<and> 0 \<le> ts_error_attempts t
     \<and> (\<forall>x\<in>set (ts_plan_history t @ ts_evidence t @ ts_rejected_finals t @ ts_stagnation_audit t
               @ ts_review_audit t). \<exists>kvs. x = JObj kvs)
     \<and> (\<forall>r\<in>set (ts_replan_reasons t). py_strip r \<noteq> [])"

lemma filter_objs:
  "\<forall>x\<in>set xs. \<exists>kvs. x = JObj kvs \<Longrightarrow> filter (\<lambda>x. case x of JObj _ \<Rightarrow> True | _ \<Rightarrow> False) xs = xs"
  by (induction xs) auto


lemma get_strs_map: "get_default d k (JList (map JStr v)) = JList (map JStr xs) \<Longrightarrow> get_strs d k v = Inr xs"
  by (simp add: get_strs_def comp_def)

lemma task_state_roundtrip:
  assumes "snapshot_plain t"
  shows "task_state_from_dict (task_state_to_dict t) = Inr t"
proof -
  have f: "filter (\<lambda>x. case x of JObj _ \<Rightarrow> True | _ \<Rightarrow> False) (ts_plan_history t) = ts_plan_history t"
    "filter (\<lambda>x. case x of JObj _ \<Rightarrow> True | _ \<Rightarrow> False) (ts_evidence t) = ts_evidence t"
    "filter (\<lambda>x. case x of JObj _ \<Rightarrow> True | _ \<Rightarrow> False) (ts_rejected_finals t) = ts_rejected_finals t"
    "filter (\<lambda>x. case x of JObj _ \<Rightarrow> True | _ \<Rightarrow> False) (ts_stagnation_audit t) = ts_stagnation_audit t"
    "filter (\<lambda>x. case x of JObj _ \<Rightarrow> True | _ \<Rightarrow> False) (ts_review_audit t) = ts_review_audit t"
    by (rule filter_objs, use assms in \<open>simp add: snapshot_plain_def\<close>)+
  have r: "filter (\<lambda>s. py_strip s \<noteq> []) (ts_replan_reasons t) = ts_replan_reasons t"
    using assms by (simp add: snapshot_plain_def filter_id_conv)
  have m: "max 1 (ts_max_tool_steps t) = ts_max_tool_steps t" "max 0 (ts_max_read_files t) = ts_max_read_files t"
    "max 1 (ts_max_total_steps t) = ts_max_total_steps t" "max 0 (ts_plan_revision t) = ts_plan_revision t"
    "max 0 (ts_talk_steps t) = ts_talk_steps t" "max 0 (ts_input_tokens t) = ts_input_tokens t"
    "max 0 (ts_output_tokens t) = ts_output_tokens t" "max 0 (ts_error_attempts t) = ts_error_attempts t"
    using assms by (auto simp: snapshot_plain_def)
  show ?thesis
    unfolding task_state_to_dict_def task_state_from_dict.simps
    by (simp add: get_str_def get_bool_def get_int_def get_int_or_zero_def get_max_tool_steps_def
      get_strs_def get_dicts_def get_reasons_def get_goals_def py_dict_def Let_def comp_def f m r)
qed

lemma res_bind_Inr: "res_bind r f = Inr b \<longleftrightarrow> (\<exists>a. r = Inr a \<and> f a = Inr b)"
  by (cases r) auto

lemma get_dicts_objs: "get_dicts d k = Inr xs \<Longrightarrow> x \<in> set xs \<Longrightarrow> \<exists>kvs. x = JObj kvs"
  by (auto simp: get_dicts_def res_bind_Inr split: json.splits)

lemma get_reasons_text: "get_reasons d k = Inr xs \<Longrightarrow> x \<in> set xs \<Longrightarrow> py_strip x \<noteq> []"
  by (auto simp: get_reasons_def res_bind_Inr)

lemma task_state_from_dict_plain:
  assumes "task_state_from_dict j = Inr t"
  shows "snapshot_plain t"
proof (cases j)
  case (JObj d)
  with assms show ?thesis
    unfolding task_state_from_dict.simps JObj res_bind_Inr
    by (elim exE conjE) (auto simp: snapshot_plain_def dest: get_dicts_objs get_reasons_text)
qed (use assms in auto)

text \<open>One call of the loop on its snapshot; a call that raises leaves it as it was.\<close>

datatype snapshot_op =
    Op_Phase string string string | Op_Begin_Reasoning string | Op_Finish_Reasoning string
  | Op_Read_File | Op_Attempt | Op_Tool string | Op_Violation | Op_Malformed | Op_Talk
  | Op_Usage int int | Op_Error string string bool int | Op_Evidence string string json
  | Op_Complete string | Op_Paths "string list" | Op_Stop string string string | Op_Success string

definition kept :: "task_state \<Rightarrow> exn + task_state \<Rightarrow> task_state" where
  "kept t r = (case r of Inl _ \<Rightarrow> t | Inr u \<Rightarrow> u)"

fun snapshot_step :: "task_state \<Rightarrow> snapshot_op \<Rightarrow> task_state" where
  "snapshot_step t (Op_Phase p n c) = kept t (set_phase p n c t)"
| "snapshot_step t (Op_Begin_Reasoning tool) = kept t (begin_post_tool_reasoning tool t)"
| "snapshot_step t (Op_Finish_Reasoning d) = kept t (finish_post_tool_reasoning d t)"
| "snapshot_step t Op_Read_File = record_read_file t"
| "snapshot_step t Op_Attempt = record_attempt t"
| "snapshot_step t (Op_Tool n) = record_tool n t"
| "snapshot_step t Op_Violation = record_sandbox_violation t"
| "snapshot_step t Op_Malformed = record_malformed_output_recovered t"
| "snapshot_step t Op_Talk = record_talk t"
| "snapshot_step t (Op_Usage i j) = record_model_usage i j t"
| "snapshot_step t (Op_Error st c r n) = record_error st c r n t"
| "snapshot_step t (Op_Evidence eid now e) = kept t (record_evidence eid now e t)"
| "snapshot_step t (Op_Complete i) = complete_item i t"
| "snapshot_step t (Op_Paths ps) = record_affected_paths ps t"
| "snapshot_step t (Op_Stop r st a) = stop_run r st a t"
| "snapshot_step t (Op_Success a) = kept t (finish_success a t)"

lemma set_phase_ok: "snapshot_plain t \<Longrightarrow> set_phase p n c t = Inr u \<Longrightarrow> snapshot_plain u"
  by (auto simp: set_phase_def Let_def snapshot_plain_def split: if_splits)

lemma set_phase_kept: "snapshot_plain t \<Longrightarrow> snapshot_plain u \<Longrightarrow> snapshot_plain (kept t (set_phase p n c u))"
  by (auto simp: kept_def split: sum.splits intro: set_phase_ok)

lemma add_completed_ok: "snapshot_plain t \<Longrightarrow> snapshot_plain (add_completed i t)"
  by (auto simp: add_completed_def snapshot_plain_def)

lemma snapshot_flag_ok [simp]:
  "snapshot_plain (t\<lparr>ts_requires_post_tool_reasoning := b\<rparr>) = snapshot_plain t"
  "snapshot_plain (t\<lparr>ts_status := st\<rparr>) = snapshot_plain t"
  "snapshot_plain (t\<lparr>ts_stop_reason := st\<rparr>) = snapshot_plain t"
  "snapshot_plain (t\<lparr>ts_final_answer := st\<rparr>) = snapshot_plain t"
  by (simp_all add: snapshot_plain_def)

lemma snapshot_step_ok: "snapshot_plain t \<Longrightarrow> snapshot_plain (snapshot_step t l)"
proof (cases l)
  case (Op_Phase p n c)
  assume "snapshot_plain t"
  then show ?thesis by (simp add: Op_Phase set_phase_kept)
next
  case (Op_Begin_Reasoning tool)
  assume "snapshot_plain t"
  then show ?thesis by (simp add: Op_Begin_Reasoning begin_post_tool_reasoning_def set_phase_kept)
next
  case (Op_Success a)
  assume "snapshot_plain t"
  then show ?thesis by (simp add: Op_Success finish_success_def set_phase_kept)
next
  case (Op_Stop r st a)
  assume "snapshot_plain t"
  then show ?thesis by (simp add: Op_Stop stop_run_def Let_def)
next
  case (Op_Finish_Reasoning d)
  assume "snapshot_plain t"
  then show ?thesis
    by (simp add: Op_Finish_Reasoning finish_post_tool_reasoning_def Let_def set_phase_kept add_completed_ok)
next
  case (Op_Evidence eid now e)
  assume "snapshot_plain t"
  then show ?thesis
    by (cases e) (auto simp: Op_Evidence record_evidence_def kept_def snapshot_plain_def)
next
  case (Op_Complete i)
  assume "snapshot_plain t"
  then show ?thesis by (simp add: Op_Complete complete_item_def Let_def add_completed_ok)
qed (auto simp: record_read_file_def record_attempt_def record_tool_def record_sandbox_violation_def
      record_malformed_output_recovered_def record_talk_def record_model_usage_def record_error_def
      record_affected_paths_def snapshot_plain_def)

interpretation snapshot: machine_invariant snapshot_step snapshot_plain
  by unfold_locales (rule snapshot_step_ok)

lemma create_task_state_ok: "snapshot_plain (create_task_state rid tid req mts mrf tot sid wid)"
  by (simp add: create_task_state_def new_task_state_def snapshot_plain_def Let_def)

section \<open>Properties\<close>

text \<open>
  C36. A snapshot survives its file: reading back what was written gives the same snapshot, field by
  field, for every snapshot whose counters are not negative (the limits of tools and of all steps at
  least one), whose histories, evidence and audits hold JSON objects and whose reasons to replan are not blank, and
  after any sequence of operations on it.  What \<open>from_dict\<close> returns is such a snapshot.
\<close>

theorem snapshot_roundtrip:
  assumes "1 \<le> ts_max_tool_steps t" "0 \<le> ts_max_read_files t" "1 \<le> ts_max_total_steps t" "0 \<le> ts_plan_revision t"
    and "0 \<le> ts_talk_steps t" "0 \<le> ts_input_tokens t" "0 \<le> ts_output_tokens t" "0 \<le> ts_error_attempts t"
    and "\<forall>x\<in>set (ts_plan_history t @ ts_evidence t @ ts_rejected_finals t @ ts_stagnation_audit t @ ts_review_audit t).
      \<exists>kvs. x = JObj kvs"
    and "\<forall>r\<in>set (ts_replan_reasons t). py_strip r \<noteq> []"
  shows "task_state_from_dict (task_state_to_dict (foldl snapshot_step t ops)) = Inr (foldl snapshot_step t ops)"
proof -
  have "snapshot_plain t" using assms by (simp add: snapshot_plain_def)
  then show ?thesis by (intro task_state_roundtrip snapshot.run_keeps)
qed

definition sample_snapshot :: task_state where
  "sample_snapshot = (create_task_state ''r'' ''t'' ''fix it'' 6 4 None ''s'' ''w'')
     \<lparr>ts_step_done_when := [(''Fix the parser'', [''file:parser.py'', ''cmd:make test''])],
      ts_plan_history := [JObj [(''revision'', JInt 1)]], ts_plan_revision := 1, ts_replan_reasons := [''review_redirect''],
      ts_review_audit := [JObj [(''verdict'', JStr ''redirect'')]], ts_stagnation_audit := [JObj [(''bad'', JBool True)]]\<rparr>"

theorem snapshot_roundtrip_witness:
  "let u = snapshot_step (snapshot_step sample_snapshot Op_Attempt) (Op_Complete ''Fix the parser'') in
   task_state_from_dict (task_state_to_dict u) = Inr u \<and>
   ts_step_done_when u = [(''Fix the parser'', [''file:parser.py'', ''cmd:make test''])] \<and>
   ts_review_audit u = [JObj [(''verdict'', JStr ''redirect'')]]"
  using snapshot_roundtrip [of sample_snapshot "[Op_Attempt, Op_Complete ''Fix the parser'']"]
  by (simp add: sample_snapshot_def create_task_state_def new_task_state_def py_strip_def is_space_def Let_def
      record_attempt_def complete_item_def add_completed_def)

end
