(* ===== verification/Run_Artifacts.thy ===== *)
theory Run_Artifacts
  imports Approval_Gate Task_State Redaction
begin

text \<open>
  The artifacts of a run (\<open>pico/run_store.py\<close>: \<open>task_state.json\<close>, \<open>trace.jsonl\<close>, \<open>report.json\<close>
  under the run's directory) and their repair by the coordinator
  (\<open>infrastructure/run_reconciliation.py\<close>).

  A JSON file is the value it parses to or bytes that do not parse; the atomic replace of a JSON
  file and the append of a trace line are single physical writes.
\<close>

section \<open>The run store\<close>

datatype json_file = Json_File json | Bad_File

record run_files =
  rf_state :: "json_file option"
  rf_trace :: "json list option"
  rf_report :: "json_file option"

definition no_files :: run_files where
  "no_files = \<lparr>rf_state = None, rf_trace = None, rf_report = None\<rparr>"

record artifact_state = gate_state +
  ar_runs :: "(string \<times> run_files) list"
  ar_env :: environ

definition run_files_of :: "'a artifact_state_scheme \<Rightarrow> string \<Rightarrow> run_files" where
  "run_files_of s rid = (case obj_get (ar_runs s) rid of None \<Rightarrow> no_files | Some f \<Rightarrow> f)"

definition put_run_files ::
  "string \<Rightarrow> (run_files \<Rightarrow> run_files) \<Rightarrow> 'a artifact_state_scheme \<Rightarrow> 'a artifact_state_scheme" where
  "put_run_files rid f s = s\<lparr>ar_runs := obj_put (ar_runs s) rid (f (run_files_of s rid))\<rparr>"

definition run_write_state :: "task_state \<Rightarrow> ('a artifact_state_scheme, exn, unit) act" where
  "run_write_state ts =
     io_write (put_run_files (ts_run_id ts)
       (\<lambda>f. f\<lparr>rf_state := Some (Json_File (task_state_to_dict ts))\<rparr>))"

definition run_start :: "task_state \<Rightarrow> ('a artifact_state_scheme, exn, unit) act" where
  "run_start ts = run_write_state ts"

definition run_append_trace :: "task_state \<Rightarrow> json \<Rightarrow> ('a artifact_state_scheme, exn, unit) act" where
  "run_append_trace ts event =
     io_write (put_run_files (ts_run_id ts)
       (\<lambda>f. f\<lparr>rf_trace := Some (case rf_trace f of None \<Rightarrow> [event] | Some ls \<Rightarrow> ls @ [event])\<rparr>))"

definition run_write_report :: "task_state \<Rightarrow> json \<Rightarrow> ('a artifact_state_scheme, exn, unit) act" where
  "run_write_report ts report =
     io_write (put_run_files (ts_run_id ts) (\<lambda>f. f\<lparr>rf_report := Some (Json_File report)\<rparr>))"

text \<open>\<open>FileNotFoundError\<close> is an \<open>OSError\<close>, \<open>JSONDecodeError\<close> a \<open>ValueError\<close>.\<close>

definition load_json :: "json_file option \<Rightarrow> exn + json" where
  "load_json f =
     (case f of None \<Rightarrow> Inl Os_Error | Some Bad_File \<Rightarrow> Inl Value_Error | Some (Json_File v) \<Rightarrow> Inr v)"

definition load_task_state :: "run_files \<Rightarrow> exn + task_state" where
  "load_task_state f = res_bind (load_json (rf_state f)) task_state_from_dict"

definition caught_load :: "exn \<Rightarrow> bool" where
  "caught_load e \<longleftrightarrow> e \<in> {Os_Error, Value_Error, Type_Error}"

section \<open>Reconciliation\<close>

definition run_status_of :: "task_status \<Rightarrow> string" where
  "run_status_of st =
     (if st = Completed then ''completed'' else if st = Cancelled then ''stopped'' else ''failed'')"

definition run_report :: "task_state \<Rightarrow> string \<Rightarrow> string \<Rightarrow> json" where
  "run_report ts reason answer =
     JObj [(''status'', JStr (ts_status ts)), (''stop_reason'', JStr reason),
           (''final_answer'', JStr answer), (''task_state'', task_state_to_dict ts)]"

definition trace_event :: "string \<Rightarrow> task_state \<Rightarrow> string \<Rightarrow> int \<Rightarrow> json" where
  "trace_event ev ts reason now =
     JObj [(''event'', JStr ev), (''created_at'', JInt now), (''status'', JStr (ts_status ts)),
           (''stop_reason'', JStr reason)]"

text \<open>What \<open>converge_run_artifacts\<close> writes once it has a snapshot to start from.\<close>

definition write_converged ::
  "task_state \<Rightarrow> task_status \<Rightarrow> string \<Rightarrow> string \<Rightarrow> ('a artifact_state_scheme, exn, unit) act" where
  "write_converged ts0 status reason answer =
     (let ts = ts0\<lparr>ts_status := run_status_of status, ts_stop_reason := reason, ts_final_answer := answer\<rparr>
      in act_then (run_start ts)
           (act_bind utc_now (\<lambda>now.
              act_then (run_append_trace ts (trace_event ''run_interrupted'' ts reason now))
                (act_bind (act_get ar_env) (\<lambda>env.
                   run_write_report ts (redact_artifact env [] [] (run_report ts reason answer)))))))"

definition converge_run_artifacts ::
  "task \<Rightarrow> task_status \<Rightarrow> string \<Rightarrow> string \<Rightarrow> ('a artifact_state_scheme, exn, unit) act" where
  "converge_run_artifacts task status reason answer =
     (if t_run_id task = [] then act_ret ()
      else act_bind (act_get (\<lambda>s. load_task_state (run_files_of s (t_run_id task)))) (\<lambda>r.
        case r of
          Inr ts \<Rightarrow> write_converged ts status reason answer
        | Inl e \<Rightarrow>
            if caught_load e
            then write_converged (new_task_state (t_run_id task) (t_task_id task) (t_input task))
                   status reason answer
            else act_raise e))"

definition expected_run_status :: "task_status \<Rightarrow> string option" where
  "expected_run_status st =
     (case st of
        Completed \<Rightarrow> Some ''completed''
      | Cancelled \<Rightarrow> Some ''stopped''
      | Failed \<Rightarrow> Some ''failed''
      | Interrupted \<Rightarrow> Some ''failed''
      | Blocked \<Rightarrow> Some ''failed''
      | _ \<Rightarrow> None)"

definition opt_text :: "string option \<Rightarrow> string" where
  "opt_text x = (case x of None \<Rightarrow> [] | Some t \<Rightarrow> t)"

text \<open>\<open>report.get(key) == text\<close>; a report that is not an object has no \<open>get\<close>.\<close>

definition report_says :: "json \<Rightarrow> string \<Rightarrow> string \<Rightarrow> exn + bool" where
  "report_says report k v =
     (case report of JObj kvs \<Rightarrow> Inr (obj_get kvs k = Some (JStr v)) | _ \<Rightarrow> Inl Attribute_Error)"

text \<open>\<open>value or None\<close> of a text, and the task that a terminal state is written to.\<close>

definition opt_of_text :: "string \<Rightarrow> string option" where
  "opt_of_text x = (if x = [] then None else Some x)"

definition set_terminal :: "task_status \<Rightarrow> string \<Rightarrow> string \<Rightarrow> task \<Rightarrow> task" where
  "set_terminal status reason answer task =
     task\<lparr>t_status := status, t_stop_reason := opt_of_text reason, t_final_answer := opt_of_text answer,
          t_pending_approval := None\<rparr>"

definition run_artifacts_match :: "task \<Rightarrow> 'a artifact_state_scheme \<Rightarrow> exn + bool" where
  "run_artifacts_match task s =
     (if t_run_id task = [] then Inr True
      else
        let f = run_files_of s (t_run_id task) in
        case res_bind (load_task_state f) (\<lambda>ts. res_bind (load_json (rf_report f)) (\<lambda>rep. Inr (ts, rep))) of
          Inl e \<Rightarrow> if caught_load e then Inr False else Inl e
        | Inr (ts, rep) \<Rightarrow>
            (case expected_run_status (t_status task) of
               None \<Rightarrow> Inr False
             | Some st \<Rightarrow>
                 if ts_run_id ts = t_run_id task \<and> ts_task_id ts = t_task_id task
                    \<and> ts_status ts = st \<and> ts_stop_reason ts = opt_text (t_stop_reason task)
                    \<and> ts_final_answer ts = opt_text (t_final_answer task)
                 then res_bind (report_says rep ''status'' st) (\<lambda>a.
                        if \<not> a then Inr False
                        else res_bind (report_says rep ''stop_reason'' (opt_text (t_stop_reason task)))
                               (\<lambda>b. Inr (b \<and> rf_trace f \<noteq> None)))
                 else Inr False))"

definition blocked_reasons :: "string set" where
  "blocked_reasons =
     {''approval_denied'', ''budget_exhausted'', ''convergence_guard_triggered'',
      ''no_changes_to_review'', ''retry_limit_reached'', ''review_retry_limit_reached'',
      ''step_limit_reached''}"

definition interrupted_reasons :: "string set" where
  "interrupted_reasons = {''service_restarted'', ''service_shutdown_timeout''}"

definition terminal_task_from_run ::
  "task \<Rightarrow> 'a artifact_state_scheme \<Rightarrow> exn + (task_status \<times> string \<times> string) option" where
  "terminal_task_from_run task s =
     (if t_run_id task = [] then Inr None
      else case load_task_state (run_files_of s (t_run_id task)) of
        Inl e \<Rightarrow> if caught_load e then Inr None else Inl e
      | Inr ts \<Rightarrow>
          if ts_run_id ts \<noteq> t_run_id task \<or> ts_task_id ts \<noteq> t_task_id task \<or> ts_status ts = ''running''
          then Inr None
          else
            let result = (\<lambda>st. Inr (Some (st, ts_stop_reason ts, ts_final_answer ts))) in
            if ts_status ts = ''completed'' \<and> ts_stop_reason ts = ''final_answer_returned''
            then result Completed
            else if ts_status ts = ''stopped'' \<and> ts_stop_reason ts = ''user_cancelled''
            then result Cancelled
            else if ts_status ts = ''stopped'' \<or> ts_status ts = ''failed''
            then (if ts_stop_reason ts \<in> interrupted_reasons then result Interrupted
                  else if ts_stop_reason ts \<in> blocked_reasons then result Blocked
                  else result Failed)
            else Inr None)"

definition repair_terminal_run_artifacts ::
  "task \<Rightarrow> task_status \<times> string \<times> string \<Rightarrow> ('a artifact_state_scheme, exn, unit) act" where
  "repair_terminal_run_artifacts task recovered =
     (case recovered of (_, reason, answer) \<Rightarrow>
        act_bind (act_get (\<lambda>s. run_files_of s (t_run_id task))) (\<lambda>f.
        act_bind (act_lift (load_task_state f)) (\<lambda>ts.
        act_bind utc_now (\<lambda>now.
        act_then
          (act_when (rf_trace f = None)
             (run_append_trace ts (trace_event ''run_recovered'' ts reason now)))
          (act_bind
             (act_lift
                (case res_bind (load_json (rf_report f)) (\<lambda>rep.
                        res_bind (report_says rep ''status'' (ts_status ts)) (\<lambda>a.
                          if \<not> a then Inr False else report_says rep ''stop_reason'' reason)) of
                   Inl e \<Rightarrow> if caught_load e then Inr False else Inl e
                 | Inr b \<Rightarrow> Inr b))
             (\<lambda>report_ok.
                act_when (\<not> report_ok)
                  (act_bind (act_get ar_env) (\<lambda>env.
                     run_write_report ts (redact_artifact env [] [] (run_report ts reason answer))))))))))"

section \<open>Facts\<close>

lemma opt_text_of_text [simp]: "opt_text (opt_of_text x) = x"
  by (simp add: opt_text_def opt_of_text_def)

lemma set_terminal_simps [simp]:
  "t_run_id (set_terminal st r a t) = t_run_id t"
  "t_task_id (set_terminal st r a t) = t_task_id t"
  "t_status (set_terminal st r a t) = st"
  "t_stop_reason (set_terminal st r a t) = opt_of_text r"
  "t_final_answer (set_terminal st r a t) = opt_of_text a"
  "t_pending_approval (set_terminal st r a t) = None"
  "t_generation (set_terminal st r a t) = t_generation t"
  by (simp_all add: set_terminal_def)

lemma run_files_put [simp]:
  "run_files_of (put_run_files rid f s) rid' = (if rid' = rid then f (run_files_of s rid) else run_files_of s rid')"
  "ar_env (put_run_files rid f s) = ar_env s"
  by (auto simp: put_run_files_def run_files_of_def)

lemma run_files_io [simp]:
  "run_files_of (s\<lparr>st_io := r\<rparr>) rid = run_files_of s rid"
  by (simp add: run_files_of_def)

lemma run_write_state_wp [wp_rules]:
  assumes "\<And>r. Q () (put_run_files (ts_run_id ts) (\<lambda>f. f\<lparr>rf_state := Some (Json_File (task_state_to_dict ts))\<rparr>)
                   (s\<lparr>st_io := r\<rparr>))"
    and "\<And>t. E Os_Error t"
  shows "act_wp (run_write_state ts) Q E s"
  unfolding run_write_state_def by (rule io_write_wp) (rule assms)+

lemma run_append_trace_wp [wp_rules]:
  assumes "\<And>r. Q () (put_run_files (ts_run_id ts)
       (\<lambda>f. f\<lparr>rf_trace := Some (case rf_trace f of None \<Rightarrow> [event] | Some ls \<Rightarrow> ls @ [event])\<rparr>)
       (s\<lparr>st_io := r\<rparr>))"
    and "\<And>t. E Os_Error t"
  shows "act_wp (run_append_trace ts event) Q E s"
  unfolding run_append_trace_def by (rule io_write_wp) (rule assms)+

lemma run_write_report_wp [wp_rules]:
  assumes "\<And>r. Q () (put_run_files (ts_run_id ts) (\<lambda>f. f\<lparr>rf_report := Some (Json_File report)\<rparr>)
                   (s\<lparr>st_io := r\<rparr>))"
    and "\<And>t. E Os_Error t"
  shows "act_wp (run_write_report ts report) Q E s"
  unfolding run_write_report_def by (rule io_write_wp) (rule assms)+

text \<open>The files of a run that say the same in their snapshot and in their report.\<close>

definition files_say :: "run_files \<Rightarrow> environ \<Rightarrow> task_state \<Rightarrow> bool" where
  "files_say f env ts \<longleftrightarrow>
     rf_state f = Some (Json_File (task_state_to_dict ts)) \<and> rf_trace f \<noteq> None
     \<and> rf_report f = Some (Json_File (redact_artifact env [] []
                       (run_report ts (ts_stop_reason ts) (ts_final_answer ts))))"

lemma write_converged_wp:
  assumes "\<And>t. files_say (run_files_of t (ts_run_id ts0)) (ar_env s)
      (ts0\<lparr>ts_status := run_status_of st, ts_stop_reason := reason, ts_final_answer := answer\<rparr>) \<Longrightarrow> Q () t"
    and "\<And>t. E Os_Error t"
  shows "act_wp (write_converged ts0 st reason answer) Q E s"
  unfolding write_converged_def Let_def run_start_def
  by (simp only: wp_simps, intro wp_rules)
    (auto simp: wp_simps files_say_def assms(2) split: option.split intro!: wp_rules assms(1))

lemma plain_key: "\<not> is_secret_env_name ''status'' []" "\<not> is_secret_env_name ''stop_reason'' []"
  by (code_simp)+

lemma report_says_redacted:
  assumes "redact_text env [] (ts_status ts) = ts_status ts" and "redact_text env [] reason = reason"
  shows "report_says (redact_artifact env [] [] (run_report ts reason answer)) ''status'' v
           = Inr (v = ts_status ts)"
    and "report_says (redact_artifact env [] [] (run_report ts reason answer)) ''stop_reason'' v
           = Inr (v = reason)"
  using assms plain_key
  by (auto simp: report_says_def run_report_def redact_artifact.simps [of env "[]" "[]"]
      redact_artifact.simps [of env "[]" "''status''"] redact_artifact.simps [of env "[]" "''stop_reason''"])

lemma snapshot_terminal_plain:
  "snapshot_plain (ts\<lparr>ts_status := a, ts_stop_reason := b, ts_final_answer := c\<rparr>) = snapshot_plain ts"
  by (simp add: snapshot_plain_def)

lemma files_say_match:
  assumes "files_say (run_files_of s (t_run_id task)) env ts" and "snapshot_plain ts"
    and "redact_text env [] (ts_status ts) = ts_status ts"
    and "redact_text env [] (ts_stop_reason ts) = ts_stop_reason ts"
    and "ts_run_id ts = t_run_id task" and "ts_task_id ts = t_task_id task" and "t_run_id task \<noteq> []"
  shows "run_artifacts_match (set_terminal st (ts_stop_reason ts) (ts_final_answer ts) task) s
    = Inr (expected_run_status st = Some (ts_status ts))"
proof -
  have "load_task_state (run_files_of s (t_run_id task)) = Inr ts"
    using assms(1) task_state_roundtrip [OF assms(2)] by (simp add: load_task_state_def load_json_def files_say_def)
  then show ?thesis
    using assms(1,3-7) report_says_redacted [OF assms(3,4)]
    by (auto simp: run_artifacts_match_def Let_def load_json_def files_say_def split: option.split)
qed

lemma new_task_state_plain: "snapshot_plain (new_task_state rid tid req)"
  by (simp add: new_task_state_def snapshot_plain_def)

lemma load_task_state_plain: "load_task_state f = Inr ts \<Longrightarrow> snapshot_plain ts"
  by (auto simp: load_task_state_def res_bind_Inr intro: task_state_from_dict_plain)

text \<open>The snapshot that a repair starts from belongs to the task.\<close>

definition own_snapshot :: "task \<Rightarrow> 'a artifact_state_scheme \<Rightarrow> bool" where
  "own_snapshot task s \<longleftrightarrow>
     (case load_task_state (run_files_of s (t_run_id task)) of
        Inl _ \<Rightarrow> True | Inr ts \<Rightarrow> ts_run_id ts = t_run_id task \<and> ts_task_id ts = t_task_id task)"

definition env_spares :: "environ \<Rightarrow> string \<Rightarrow> bool" where
  "env_spares env v \<longleftrightarrow> redact_text env [] v = v"

lemma expected_run_status_of: "expected_run_status st \<noteq> None \<Longrightarrow> expected_run_status st = Some (run_status_of st)"
  by (cases st) (auto simp: expected_run_status_def run_status_of_def)


text \<open>The files of a run that agree with a terminal snapshot, whoever wrote the report.\<close>

definition repaired :: "run_files \<Rightarrow> task_state \<Rightarrow> string \<Rightarrow> bool" where
  "repaired f ts reason \<longleftrightarrow>
     load_task_state f = Inr ts \<and> rf_trace f \<noteq> None
     \<and> (\<exists>rep. load_json (rf_report f) = Inr rep \<and> report_says rep ''status'' (ts_status ts) = Inr True
              \<and> report_says rep ''stop_reason'' reason = Inr True)"

lemma load_task_state_cong:
  "load_task_state (f\<lparr>rf_trace := x\<rparr>) = load_task_state f"
  "load_task_state (f\<lparr>rf_report := y\<rparr>) = load_task_state f"
  by (simp_all add: load_task_state_def)

lemma repair_report_wp:
  assumes "load_task_state (run_files_of s rid) = Inr ts" and "ts_run_id ts = rid"
    and "rf_trace (run_files_of s rid) \<noteq> None"
    and "env_spares (ar_env s) (ts_status ts)" and "env_spares (ar_env s) reason"
    and "\<And>t. repaired (run_files_of t rid) ts reason \<Longrightarrow> Q () t" and "\<And>t. E Os_Error t"
  shows "act_wp (run_write_report ts (redact_artifact (ar_env s) [] [] (run_report ts reason answer))) Q E s"
  using assms(1-5) report_says_redacted [of "ar_env s" ts reason answer]
  by (auto intro!: wp_rules assms(6,7)
      simp: repaired_def load_task_state_cong load_json_def env_spares_def)

lemma repair_wp:
  assumes ts: "load_task_state (run_files_of s rid) = Inr ts" "ts_run_id ts = rid" "t_run_id task = rid"
    and env: "env_spares (ar_env s) (ts_status ts)" "env_spares (ar_env s) reason"
    and Q: "\<And>t. repaired (run_files_of t rid) ts reason \<Longrightarrow> Q () t" and E: "\<And>e t. E e t"
  shows "act_wp (repair_terminal_run_artifacts task (st, reason, answer)) Q E s"
proof -
  define report where "report = rf_report (run_files_of s rid)"
  let ?rest = "act_bind
     (act_lift
        (case res_bind (load_json report) (\<lambda>rep.
                res_bind (report_says rep ''status'' (ts_status ts)) (\<lambda>a.
                  if \<not> a then Inr False else report_says rep ''stop_reason'' reason)) of
           Inl e \<Rightarrow> if caught_load e then Inr False else Inl e
         | Inr b \<Rightarrow> Inr b))
     (\<lambda>report_ok.
        act_when (\<not> report_ok)
          (act_bind (act_get ar_env) (\<lambda>env.
             run_write_report ts (redact_artifact env [] [] (run_report ts reason answer)))))"
  have rest: "act_wp ?rest Q E u"
    if u: "load_task_state (run_files_of u rid) = Inr ts" "rf_trace (run_files_of u rid) \<noteq> None"
      "rf_report (run_files_of u rid) = report" "ar_env u = ar_env s"
    for u :: "'a artifact_state_scheme"
  proof -
    have ok: "Q () u" if "load_json report = Inr rep" "report_says rep ''status'' (ts_status ts) = Inr True"
        "report_says rep ''stop_reason'' reason = Inr True" for rep
      using that u by (intro Q) (auto simp: repaired_def)
    have fix_report: "act_wp (run_write_report ts (redact_artifact (ar_env u) [] [] (run_report ts reason answer))) Q E u"
      using u ts(2) env by (intro repair_report_wp [where rid = rid]) (auto intro: Q E)
    show ?thesis
      using ok fix_report
      by (auto simp: wp_simps E res_bind_def split: sum.splits if_splits)
  qed
  show ?thesis
  proof (cases "rf_trace (run_files_of s rid)")
    case None
    then show ?thesis
      unfolding repair_terminal_run_artifacts_def
      using ts E rest by (auto simp: wp_simps report_def load_task_state_cong utc_now_wp intro!: run_append_trace_wp)
  next
    case (Some ls)
    then show ?thesis
      unfolding repair_terminal_run_artifacts_def
      using ts E rest [of s] by (auto simp: wp_simps report_def utc_now_wp)
  qed
qed

section \<open>Properties\<close>

definition sample_artifacts :: "run_files \<Rightarrow> artifact_state" where
  "sample_artifacts f = gate_state.extend (sample_gate [] False) (artifact_state.fields [(''run_1'', f)] [])"

definition stopped_snapshot :: task_state where
  "stopped_snapshot = (new_task_state ''run_1'' ''task_1'' ''hello'')
     \<lparr>ts_status := ''stopped'', ts_stop_reason := ''step_limit_reached''\<rparr>"

definition stopped_files :: run_files where
  "stopped_files = no_files\<lparr>rf_state := Some (Json_File (task_state_to_dict stopped_snapshot))\<rparr>"

lemma io_write_ok: "st_io s = [] \<Longrightarrow> io_write f s = (Inr (), f s)"
  by (simp add: io_write_def)

lemma put_run_files_io [simp]: "st_io (put_run_files rid f s) = st_io s"
  by (simp add: put_run_files_def)

lemma sample_loads:
  "load_task_state (run_files_of (sample_artifacts stopped_files) (t_run_id sample_task)) = Inr stopped_snapshot"
  "st_io (sample_artifacts stopped_files) = []" "t_run_id sample_task \<noteq> []"
  "rf_trace (run_files_of (sample_artifacts stopped_files) (t_run_id sample_task)) = None"
  "rf_report (run_files_of (sample_artifacts stopped_files) (t_run_id sample_task)) = None"
  by code_simp+

lemma converge_returns:
  assumes "st_io s = []" and "load_task_state (run_files_of s (t_run_id task)) = Inr ts"
  shows "fst (converge_run_artifacts task st reason answer s) = Inr ()"
  using assms
  by (simp add: converge_run_artifacts_def write_converged_def act_defs run_start_def run_write_state_def
      run_append_trace_def run_write_report_def utc_now_def io_write_ok Let_def)

lemma repair_returns:
  assumes "st_io s = []" and "load_task_state (run_files_of s (t_run_id task)) = Inr ts"
    and "rf_report (run_files_of s (t_run_id task)) = None"
  shows "fst (repair_terminal_run_artifacts task (st, reason, answer) s) = Inr ()"
  using assms
  by (simp add: repair_terminal_run_artifacts_def act_defs act_lift_def run_append_trace_def run_write_report_def
      utc_now_def io_write_ok load_json_def caught_load_def)

text \<open>
  After a run's artifacts were converged to a terminal state, they match the task that has that
  state: the snapshot, the report and the trace agree with the task, whatever was on disk before
  (missing files, a file that does not parse, an older snapshot of the same run).  The texts of the
  status and of the reason must not themselves contain a secret of the environment.
\<close>

theorem converge_then_match:
  assumes "converge_run_artifacts task st reason answer s = (Inr (), t)"
    and "task_terminal st" and "own_snapshot task s"
    and "env_spares (ar_env s) (run_status_of st)" and "env_spares (ar_env s) reason"
  shows "run_artifacts_match (set_terminal st reason answer task) t = Inr True"
proof (cases "t_run_id task = []")
  case True
  then show ?thesis by (simp add: run_artifacts_match_def)
next
  case False
  let ?settle = "\<lambda>ts0. ts0\<lparr>ts_status := run_status_of st, ts_stop_reason := reason, ts_final_answer := answer\<rparr>"
  have st: "expected_run_status st = Some (run_status_of st)"
    using assms(2) by (intro expected_run_status_of) (auto simp: task_terminal_def expected_run_status_def)
  have wp: "act_wp (write_converged ts0 st reason answer)
      (\<lambda>_ t. run_artifacts_match (set_terminal st reason answer task) t = Inr True) (\<lambda>_ _. True) s"
    if "snapshot_plain ts0" "ts_run_id ts0 = t_run_id task" "ts_task_id ts0 = t_task_id task" for ts0
  proof (rule write_converged_wp)
    fix t :: "'a artifact_state_scheme"
    assume "files_say (run_files_of t (ts_run_id ts0)) (ar_env s) (?settle ts0)"
    then show "run_artifacts_match (set_terminal st reason answer task) t = Inr True"
      using files_say_match [of t task "ar_env s" "?settle ts0" st] that assms(4,5) False st
      by (simp add: snapshot_terminal_plain env_spares_def)
  qed simp
  have "act_wp (converge_run_artifacts task st reason answer)
      (\<lambda>_ t. run_artifacts_match (set_terminal st reason answer task) t = Inr True) (\<lambda>_ _. True) s"
    using False assms(3) wp [OF load_task_state_plain] wp [OF new_task_state_plain]
    by (auto simp: converge_run_artifacts_def wp_simps own_snapshot_def new_task_state_def split: sum.splits)
  then show ?thesis using assms(1) by (rule act_wp_retD)
qed


lemma terminal_task_from_runD:
  assumes "terminal_task_from_run task s = Inr (Some (st, reason, answer))"
    and "load_task_state (run_files_of s (t_run_id task)) = Inr ts"
  shows "t_run_id task \<noteq> []" "ts_run_id ts = t_run_id task" "ts_task_id ts = t_task_id task"
    "reason = ts_stop_reason ts" "answer = ts_final_answer ts" "task_terminal st"
    "expected_run_status st = Some (ts_status ts) \<longleftrightarrow> (ts_status ts = ''stopped'' \<longrightarrow> st = Cancelled)"
proof -
  have run: "t_run_id task \<noteq> []" using assms(1) by (auto simp: terminal_task_from_run_def)
  have own: "ts_run_id ts = t_run_id task \<and> ts_task_id ts = t_task_id task"
    using assms(1) run by (auto simp: terminal_task_from_run_def assms(2) split: if_splits)
  have res: "reason = ts_stop_reason ts \<and> answer = ts_final_answer ts"
    using assms(1) run unfolding terminal_task_from_run_def assms(2) Let_def
    by (simp split: if_split_asm)
  have st: "(st = Completed \<and> ts_status ts = ''completed'') \<or> (st = Cancelled \<and> ts_status ts = ''stopped'')
      \<or> (st \<in> {Interrupted, Blocked, Failed} \<and> (ts_status ts = ''stopped'' \<or> ts_status ts = ''failed''))"
    using assms(1) run unfolding terminal_task_from_run_def assms(2) Let_def
    by (simp split: if_split_asm)
  show "t_run_id task \<noteq> []" "ts_run_id ts = t_run_id task" "ts_task_id ts = t_task_id task"
    "reason = ts_stop_reason ts" "answer = ts_final_answer ts"
    using run own res by simp_all
  show "task_terminal st" using st by (auto simp: task_terminal_def)
  show "expected_run_status st = Some (ts_status ts) \<longleftrightarrow> (ts_status ts = ''stopped'' \<longrightarrow> st = Cancelled)"
    using st by (elim disjE conjE insertE emptyE) (simp_all add: expected_run_status_def)
qed

theorem converge_then_match_witness:
  "run_artifacts_match (set_terminal Blocked ''step_limit_reached'' [] sample_task)
     (snd (converge_run_artifacts sample_task Blocked ''step_limit_reached'' [] (sample_artifacts stopped_files)))
   = Inr True"
proof (rule converge_then_match)
  show "converge_run_artifacts sample_task Blocked ''step_limit_reached'' [] (sample_artifacts stopped_files)
      = (Inr (), snd (converge_run_artifacts sample_task Blocked ''step_limit_reached'' [] (sample_artifacts stopped_files)))"
    using converge_returns [OF sample_loads(2,1)] by (simp add: prod_eq_iff)
qed code_simp+

text \<open>
  C7. After a restart the terminal state recovered from a run's snapshot is written to the task and
  the missing artifacts are filled in; they then match the task exactly when the snapshot is not
  \<open>stopped\<close> or the task was cancelled.  So a run that was stopped at a limit and is recovered as
  blocked never matches after the repair, and the next start converges it once more.
\<close>

theorem repair_then_match:
  assumes "terminal_task_from_run task s = Inr (Some (st, reason, answer))"
    and "load_task_state (run_files_of s (t_run_id task)) = Inr ts"
    and "repair_terminal_run_artifacts task (st, reason, answer) s = (Inr (), t)"
    and "env_spares (ar_env s) (ts_status ts)" and "env_spares (ar_env s) reason"
  shows "run_artifacts_match (set_terminal st reason answer task) t
    = Inr (ts_status ts = ''stopped'' \<longrightarrow> st = Cancelled)"
proof -
  note D = terminal_task_from_runD [OF assms(1,2)]
  have "act_wp (repair_terminal_run_artifacts task (st, reason, answer))
      (\<lambda>_ t. repaired (run_files_of t (t_run_id task)) ts reason) (\<lambda>_ _. True) s"
    using assms(2,4,5) D(2) by (intro repair_wp) auto
  then have "repaired (run_files_of t (t_run_id task)) ts reason" using assms(3) by (rule act_wp_retD)
  then show ?thesis
    using D by (auto simp: repaired_def run_artifacts_match_def Let_def split: option.splits if_splits)
qed

theorem repair_then_match_witness:
  "run_artifacts_match (set_terminal Blocked ''step_limit_reached'' [] sample_task)
     (snd (repair_terminal_run_artifacts sample_task (Blocked, ''step_limit_reached'', [])
             (sample_artifacts stopped_files))) = Inr False"
proof -
  let ?s = "sample_artifacts stopped_files"
  let ?r = "repair_terminal_run_artifacts sample_task (Blocked, ''step_limit_reached'', []) ?s"
  have "terminal_task_from_run sample_task ?s = Inr (Some (Blocked, ''step_limit_reached'', []))"
    by code_simp
  moreover have "?r = (Inr (), snd ?r)"
    using repair_returns [OF sample_loads(2,1,5)] by (simp add: prod_eq_iff)
  moreover have "env_spares (ar_env ?s) (ts_status stopped_snapshot)" "env_spares (ar_env ?s) ''step_limit_reached''"
    by code_simp+
  ultimately show ?thesis
    using repair_then_match [of sample_task ?s Blocked "''step_limit_reached''" "[]" stopped_snapshot "snd ?r"]
      sample_loads(1) by (simp add: stopped_snapshot_def)
qed

end
