(* ===== verification/Gate_Frames.thy ===== *)
theory Gate_Frames
  imports Approval_Gate
begin

text \<open>
  What the approval gate, the journal and the event stream leave alone.  A property of the state
  that looks neither at approvals, events, journal, ids nor conditions, and that the fenced task
  update of a run keeps, is kept by every operation of the gate for that run.  The locale is
  interpreted on the cancellation token and on the fence of a closed run in \<open>Task_Runner\<close>.
\<close>

section \<open>Primitive operations\<close>

lemma io_write_keeps:
  assumes "\<And>s os. P s \<Longrightarrow> P (s\<lparr>st_io := os\<rparr>)" and "\<And>s. P s \<Longrightarrow> P (f s)"
  shows "act_keeps P (io_write f)"
  by (rule act_keepsI) (auto simp: io_write_def assms split: list.splits io_outcome.splits)

lemma read_keeps:
  "act_keeps P (task_get tid)" "act_keeps P (task_read tid)"
  "act_keeps P (approval_get aid)" "act_keeps P (approval_read aid)"
  "act_keeps P utc_now" "act_keeps P (owner_arg v)"
  by (rule act_keepsI; simp add: task_get_eq task_read_eq approval_get_eq approval_read_eq utc_now_def
      act_get_def owner_arg_def act_defs split: option.split)+

lemmas [keeps_rules] = read_keeps

lemma approvals_from_payloads_keeps [keeps_rules]: "act_keeps P (approvals_from_payloads rs)"
  by (induction rs)
    (auto simp: approval_from_payload_def intro!: keeps_rules split: option.split)

lemma list_pending_keeps [keeps_rules]: "act_keeps P (list_pending_for_task tid)"
  unfolding list_pending_for_task_def by (intro keeps_rules)

section \<open>Properties that the gate cannot see\<close>

locale gate_blind =
  fixes blind :: "'a gate_state_scheme \<Rightarrow> bool" and fenced_run :: "run_context \<Rightarrow> bool"
  assumes blind_store:
      "blind s \<Longrightarrow> blind (s\<lparr>st_io := os\<rparr>)" "blind s \<Longrightarrow> blind (s\<lparr>st_uuid := n\<rparr>)"
      "blind s \<Longrightarrow> blind (s\<lparr>st_approvals := aps\<rparr>)" "blind s \<Longrightarrow> blind (s\<lparr>st_approval_mirror := mir\<rparr>)"
    and blind_journal: "blind s \<Longrightarrow> blind (s\<lparr>jn_lines := ls\<rparr>)" "blind s \<Longrightarrow> blind (s\<lparr>jn_torn := torn\<rparr>)"
    and blind_events: "blind s \<Longrightarrow> blind (s\<lparr>ev_sequences := sqs\<rparr>)" "blind s \<Longrightarrow> blind (s\<lparr>ev_log := lg\<rparr>)"
      "blind s \<Longrightarrow> blind (s\<lparr>br_scheduled := sch\<rparr>)"
    and blind_gate: "blind s \<Longrightarrow> blind (s\<lparr>ag_task_gates := tg\<rparr>)" "blind s \<Longrightarrow> blind (s\<lparr>ag_conditions := cs\<rparr>)"
      "blind s \<Longrightarrow> blind (s\<lparr>sv_degraded := dg\<rparr>)"
    and blind_update: "fenced_run run \<Longrightarrow> act_keeps blind (fenced_task_update run (rc_task_id run) fn)"
begin

lemmas blind_simps = blind_store blind_journal blind_events blind_gate

lemma journal_append_blind: "act_keeps blind (journal_append r)"
proof (rule act_keepsI)
  fix s assume "blind s"
  then show "blind (snd (journal_append r s))"
    by (auto simp: journal_append_def journal_joined_def intro!: blind_simps split: list.split io_outcome.split)
qed

lemma fresh_id_blind: "act_keeps blind (fresh_id p)"
  by (rule act_keepsI) (simp add: fresh_id_def blind_simps)

lemma journal_blind:
  "act_keeps blind (journal_begin k tid aid)" "act_keeps blind (journal_commit txn)"
  unfolding journal_begin_def journal_commit_def
  by (intro keeps_rules journal_append_blind fresh_id_blind)+

lemma publish_blind: "act_keeps blind (publish_event tid rid ty data opts)"
proof (rule act_keepsI)
  fix s assume "blind s"
  then show "blind (snd (publish_event tid rid ty data opts s))"
    by (auto simp: publish_event_eq Let_def published_def intro!: blind_simps)
qed

lemma approval_write_blind: "act_keeps blind (write_approval a)"
  unfolding write_approval_def approval_mirror_write_def put_approval_row_def
  by (intro keeps_rules io_write_keeps blind_simps)

lemma approval_ops_blind:
  "act_keeps blind (approval_update aid fn)" "act_keeps blind (decide_approval aid st d txn)"
  "act_keeps blind (approval_create a)"
  unfolding approval_update_def decide_approval_def approval_create_def
  by (auto intro!: keeps_rules approval_write_blind split: option.split)

lemma degrade_blind: "act_keeps blind mark_degraded"
  unfolding mark_degraded_def by (intro keeps_rules blind_simps)

lemma condition_blind:
  "act_keeps blind (add_condition aid)" "act_keeps blind (drop_condition aid)"
  "act_keeps blind (release_gate tid)"
  unfolding add_condition_def drop_condition_def release_gate_def
  by (auto intro!: keeps_rules blind_simps)

lemma abandon_blind: "act_keeps blind rb \<Longrightarrow> act_keeps blind (abandon_transition rb txn)"
  unfolding abandon_transition_def
  by (auto intro!: keeps_rules journal_blind degrade_blind split: option.split)

lemma rollback_blind:
  assumes "fenced_run run"
  shows "act_keeps blind (rollback_request run aid)" "act_keeps blind (rollback_resolution run aid p)"
  unfolding rollback_request_def rollback_resolution_def
  by (intro keeps_rules approval_ops_blind blind_update assms)+

lemma resolve_blind:
  assumes "fenced_run run"
  shows "act_keeps blind (resolve_locked aid run st d)"
  unfolding resolve_locked_def resolve_writes_def
  by (intro keeps_rules journal_blind approval_ops_blind blind_update publish_blind abandon_blind
      rollback_blind assms)

lemma request_start_blind:
  assumes "fenced_run run"
  shows "act_keeps blind (request_start cfg run call tool args)"
  unfolding request_start_def
  by (intro keeps_rules fresh_id_blind journal_blind approval_ops_blind blind_update publish_blind
      abandon_blind rollback_blind condition_blind blind_simps assms)

lemma request_finish_blind:
  assumes "fenced_run run"
  shows "act_keeps blind (request_finish cfg run aid args oc)"
  unfolding request_finish_def
  by (cases oc)
    (auto intro!: keeps_rules resolve_blind condition_blind assms split: option.split)

lemma decide_under_gate_blind:
  assumes "fenced_run run"
  shows "act_keeps blind (decide_under_gate aid d run)"
  unfolding decide_under_gate_def by (intro keeps_rules resolve_blind assms)

lemma cancel_pending_blind: "act_keeps blind (cancel_pending run)"
  unfolding cancel_pending_def cancel_one_def
  by (intro keeps_rules approval_ops_blind publish_blind)

lemma boundary_blind: "act_keeps blind (boundary_check run)"
  unfolding boundary_check_def by (intro keeps_rules)

end

end
