(* ===== verification/Task_Runner.thy ===== *)
theory Task_Runner
  imports Run_Artifacts Gate_Frames
begin

text \<open>
  The runner (\<open>infrastructure/task_runner.py\<close>): one active run at a time on a thread of its own,
  its start, its terminal write, cancellation from the API thread and the shutdown of the service.

  The blocks under the gate of a run are single steps.  What the run itself computes is an
  argument: whether the adapter could be built, the snapshot the loop left, whether the processes
  of the run could be stopped.  \<open>run.process_cleanup_succeeded\<close> is kept at the gate's address.
  \<open>TaskRunner._degraded\<close> is the flag the approval gate's callback sets.
\<close>

section \<open>State\<close>

record run_request =
  rq_task_id :: string
  rq_run_id :: string
  rq_session_id :: string
  rq_workspace_id :: string
  rq_owner_id :: string
  rq_input :: string
  rq_max_steps :: int
  rq_session_data :: json
  rq_permission_mode :: string

record runner_state = artifact_state +
  rn_contexts :: "(string \<times> run_context) list"
  rn_active :: "string option"
  rn_shutting_down :: bool
  rn_cleanup :: "bool list"

type_synonym ('a, 'b) runner_act = "('a runner_state_scheme, exn, 'b) act"

definition is_available :: "'a runner_state_scheme \<Rightarrow> bool" where
  "is_available s \<longleftrightarrow> \<not> sv_degraded s \<and> \<not> rn_shutting_down s"

definition runner_context :: "'a runner_state_scheme \<Rightarrow> string \<Rightarrow> run_context option" where
  "runner_context s tid = obj_get (rn_contexts s) tid"

definition set_status :: "task_status \<Rightarrow> task \<Rightarrow> task" where
  "set_status st t = t\<lparr>t_status := st\<rparr>"

section \<open>Registering\<close>

definition new_context :: "run_request \<Rightarrow> 'a runner_state_scheme \<Rightarrow> run_context" where
  "new_context rq s =
     \<lparr>rc_task_id = rq_task_id rq, rc_run_id = rq_run_id rq, rc_owner_id = rq_owner_id rq,
      rc_gate = length (hp_gates s), rc_token = Some (length (hp_tokens s))\<rparr>"

definition claim_slot :: "run_request \<Rightarrow> 'a runner_state_scheme \<Rightarrow> 'a runner_state_scheme" where
  "claim_slot rq s =
     s\<lparr>hp_gates := hp_gates s @ [new_gate 0], hp_tokens := hp_tokens s @ [False],
       rn_cleanup := rn_cleanup s @ [True],
       rn_contexts := obj_put (rn_contexts s) (rq_task_id rq) (new_context rq s),
       rn_active := Some (rq_task_id rq)\<rparr>"

text \<open>\<open>starts\<close> tells whether the operating system could start the thread.\<close>

definition runner_register :: "run_request \<Rightarrow> bool \<Rightarrow> ('a, run_context) runner_act" where
  "runner_register rq starts = (\<lambda>s.
     if \<not> is_available s then (Inl (App Task_Runner_Unavailable), s)
     else case rn_active s of
       Some t \<Rightarrow> (Inl (App (Active_Task_Exists t)), s)
     | None \<Rightarrow>
         let t = claim_slot rq s in
         if starts then (Inr (new_context rq s), t)
         else (Inl (App Task_Runner_Unavailable),
               t\<lparr>rn_contexts := obj_pop (rn_contexts t) (rq_task_id rq), rn_active := None\<rparr>))"

definition release_active :: "string \<Rightarrow> ('a, unit) runner_act" where
  "release_active tid =
     act_then
       (act_modify (\<lambda>s. s\<lparr>rn_contexts := obj_pop (rn_contexts s) tid,
                          rn_active := (if rn_active s = Some tid then None else rn_active s)\<rparr>))
       (release_gate tid)"

section \<open>The terminal write\<close>

definition persist_terminal ::
  "run_context \<Rightarrow> task_status \<Rightarrow> string \<Rightarrow> string \<Rightarrow> ('a, unit) runner_act" where
  "persist_terminal run st reason answer =
     act_bind (act_get (\<lambda>s. g_closed (gate_of s run))) (\<lambda>closed.
       if closed then act_raise Stale_Generation
       else act_bind (task_get (rc_task_id run)) (\<lambda>task.
         act_bind (act_get (run_artifacts_match (set_terminal st reason answer task))) (\<lambda>r.
         act_bind (act_lift r) (\<lambda>ok.
           act_then (act_when (\<not> ok) (converge_run_artifacts task st reason answer))
             (act_then (fenced_task_update run (rc_task_id run) (set_terminal st reason answer))
                (act_ret ()))))))"

definition terminal_event :: "task_status \<Rightarrow> string" where
  "terminal_event st =
     (case st of
        Completed \<Rightarrow> ''task.completed''
      | Cancelled \<Rightarrow> ''task.cancelled''
      | Interrupted \<Rightarrow> ''task.interrupted''
      | Blocked \<Rightarrow> ''task.blocked''
      | _ \<Rightarrow> ''task.failed'')"

definition publish_final ::
  "run_context \<Rightarrow> string \<Rightarrow> (string \<times> json) list \<Rightarrow> string \<Rightarrow> string \<Rightarrow> ('a, unit) runner_act" where
  "publish_final run ty data st summary =
     act_then (publish_event (rc_task_id run) (rc_run_id run) ty data (final_opts st summary)) (act_ret ())"

text \<open>
  The public status of a finished run: the token first, then what the loop's snapshot says
  (status, stop reason, answer; empty texts when there is no snapshot).
\<close>

definition terminal_choice ::
  "bool \<Rightarrow> string \<times> string \<times> string \<Rightarrow> task_status \<times> string \<times> string" where
  "terminal_choice cancelled view =
     (case view of (status, reason, answer) \<Rightarrow>
        if cancelled then (Cancelled, ''user_cancelled'', [])
        else if status = ''completed'' \<and> reason = ''final_answer_returned'' then (Completed, reason, answer)
        else if status = ''stopped'' \<and> reason = ''user_cancelled'' then (Cancelled, reason, answer)
        else
          let reason' = (if reason = [] then ''runtime_error'' else reason) in
          if reason' \<in> interrupted_reasons then (Interrupted, reason', answer)
          else if reason' \<in> blocked_reasons then (Blocked, reason', answer)
          else (Failed, reason', answer))"

definition set_cleanup :: "run_context \<Rightarrow> bool \<Rightarrow> ('a, unit) runner_act" where
  "set_cleanup run b = act_modify (\<lambda>s. s\<lparr>rn_cleanup := (rn_cleanup s)[rc_gate run := b]\<rparr>)"

definition cleanup_of :: "'a runner_state_scheme \<Rightarrow> run_context \<Rightarrow> bool" where
  "cleanup_of s run = rn_cleanup s ! rc_gate run"

definition converge_choice ::
  "run_context \<Rightarrow> string \<times> string \<times> string \<Rightarrow> ('a, task_status \<times> string \<times> string) runner_act" where
  "converge_choice run view =
     act_bind (act_get (\<lambda>s. terminal_choice (token_cancelled s run) view)) (\<lambda>choice.
       act_then
         (act_when (fst (snd choice) = ''process_cleanup_failed'')
            (act_then (set_cleanup run False) mark_degraded))
         (act_bind (act_get (\<lambda>s. cleanup_of s run)) (\<lambda>clean.
            act_ret (if clean then choice else (Failed, ''process_cleanup_failed'', [])))))"

text \<open>
  \<open>_converge_terminal\<close> after the choice: settle pending approvals, write the terminal state, fence
  the run, then publish.
\<close>

definition publish_terminal :: "run_context \<Rightarrow> task_status \<Rightarrow> string \<Rightarrow> string \<Rightarrow> ('a, unit) runner_act" where
  "publish_terminal run st reason answer =
     act_bind (act_get ar_env) (\<lambda>env.
       let shown = redact_artifact env [] [] (JStr answer) in
       act_then
         (act_when (st = Completed)
            (publish_final run ''message.completed'' [(''text'', shown)] ''completed'' []))
         (publish_final run (terminal_event st) [(''final_answer'', shown)] (task_status_value st) reason))"

definition converge_write ::
  "run_context \<Rightarrow> task_status \<Rightarrow> string \<Rightarrow> string \<Rightarrow> ('a, unit) runner_act" where
  "converge_write run st reason answer =
     act_bind (task_get (rc_task_id run)) (\<lambda>task.
       act_then (act_when (t_pending_approval task \<noteq> None) (cancel_pending run))
       (act_then (persist_terminal run st reason answer)
       (act_then (close_gate run) (publish_terminal run st reason answer))))"

definition converge_terminal :: "run_context \<Rightarrow> string \<times> string \<times> string \<Rightarrow> ('a, unit) runner_act" where
  "converge_terminal run view =
     act_bind (converge_choice run view) (\<lambda>(st, reason, answer). converge_write run st reason answer)"

section \<open>The worker thread\<close>

definition worker_cancelled :: "run_context \<Rightarrow> ('a, unit) runner_act" where
  "worker_cancelled run =
     act_then
       (act_catch
          (act_then (persist_terminal run Cancelled ''user_cancelled'' [])
          (act_then (close_gate run)
             (publish_final run ''task.cancelled'' [(''final_answer'', JStr [])] ''cancelled'' ''user_cancelled'')))
          (\<lambda>e. if e = Stale_Generation then act_ret () else mark_degraded))
       (release_active (rc_task_id run))"

definition worker_start_failed :: "run_context \<Rightarrow> ('a, unit) runner_act" where
  "worker_start_failed run =
     act_try (persist_terminal run Failed ''persistence_error'' [])
       (\<lambda>_. act_then (close_gate run)
           (act_then
              (publish_final run ''task.failed'' [(''stop_reason'', JStr ''persistence_error'')]
                 ''failed'' ''persistence_error'')
              (release_active (rc_task_id run))))
       (\<lambda>_. mark_degraded)"

text \<open>The block at the start of \<open>_worker\<close>: whether the run goes on.\<close>

definition worker_start :: "run_context \<Rightarrow> ('a, bool) runner_act" where
  "worker_start run =
     act_bind (act_get (\<lambda>s. token_cancelled s run)) (\<lambda>cancelled.
       if cancelled then act_then (worker_cancelled run) (act_ret False)
       else act_try
         (act_then (fenced_task_update run (rc_task_id run) (set_status Running))
            (act_then
               (publish_event (rc_task_id run) (rc_run_id run) ''task.started'' []
                  (no_opts\<lparr>o_phase := ''system'', o_status := ''running''\<rparr>))
               (act_ret ())))
         (\<lambda>_. act_ret True)
         (\<lambda>e. act_then
              (if e = Stale_Generation then release_active (rc_task_id run) else worker_start_failed run)
              (act_ret False)))"

text \<open>The adapter could not be built; \<open>sandbox\<close> tells a sandbox error from the others.\<close>

definition worker_init_failed :: "run_context \<Rightarrow> bool \<Rightarrow> ('a, unit) runner_act" where
  "worker_init_failed run sandbox =
     act_bind (act_get (\<lambda>s. token_cancelled s run)) (\<lambda>cancelled.
       let st = (if cancelled then Cancelled else Failed);
           reason = (if cancelled then ''user_cancelled''
                     else if sandbox then ''sandbox_unavailable'' else ''task_runner_unavailable'')
       in act_try (persist_terminal run st reason [])
            (\<lambda>_. act_then (close_gate run)
                (act_then (publish_final run (terminal_event st) [(''final_answer'', JStr [])]
                             (task_status_value st) reason)
                   (release_active (rc_task_id run))))
            (\<lambda>_. mark_degraded))"

text \<open>The end of \<open>_worker\<close>: the slot is given up only when the terminal write went through.\<close>

definition worker_end :: "run_context \<Rightarrow> string \<times> string \<times> string \<Rightarrow> ('a, unit) runner_act" where
  "worker_end run view =
     act_try (converge_terminal run view)
       (\<lambda>_. release_active (rc_task_id run)) (\<lambda>_. mark_degraded)"

section \<open>Cancelling\<close>

text \<open>The block of \<open>cancel\<close> under the gate; \<open>Some e\<close> is the persistence error it remembers.\<close>

definition cancel_section :: "run_context \<Rightarrow> ('a, exn option) runner_act" where
  "cancel_section run =
     act_bind
       (act_try
          (act_bind (task_get (rc_task_id run)) (\<lambda>current.
             act_when (\<not> task_terminal (t_status current) \<and> t_status current \<noteq> Cancel_Requested)
               (act_then (fenced_task_update run (rc_task_id run) (set_status Cancel_Requested))
                  (act_then
                    (publish_event (rc_task_id run) (rc_run_id run) ''task.cancel_requested'' []
                       (final_opts ''cancel_requested'' []))
                    (act_ret ())))))
          (\<lambda>_. act_ret None)
          (\<lambda>e. if e = Stale_Generation then act_ret None else act_then mark_degraded (act_ret (Some e))))
       (\<lambda>err. act_then (act_modify (cancel_token run)) (act_ret err))"

text \<open>\<open>terminate_shell\<close>: \<open>None\<close> when there is no adapter yet, else what the adapter answers.\<close>

definition terminate_shell :: "run_context \<Rightarrow> bool option \<Rightarrow> ('a, bool) runner_act" where
  "terminate_shell run shell =
     act_then (case shell of None \<Rightarrow> act_ret () | Some b \<Rightarrow> set_cleanup run b)
       (act_get (\<lambda>s. cleanup_of s run))"

definition cancel_rest :: "run_context \<Rightarrow> bool option \<Rightarrow> exn option \<Rightarrow> ('a, bool) runner_act" where
  "cancel_rest run shell err =
     act_bind
       (act_try (cancel_pending run) (\<lambda>_. act_ret None) (\<lambda>e. act_then mark_degraded (act_ret (Some e))))
       (\<lambda>approval_err.
          act_bind (terminate_shell run shell) (\<lambda>ok.
            act_then (act_when (\<not> ok) mark_degraded)
              (if approval_err \<noteq> None \<or> err \<noteq> None then act_raise (App Persistence_Unavailable)
               else act_ret True)))"

definition runner_cancel :: "string \<Rightarrow> bool option \<Rightarrow> ('a, bool) runner_act" where
  "runner_cancel tid shell =
     act_bind (act_get (\<lambda>s. runner_context s tid)) (\<lambda>ctx.
       case ctx of
         None \<Rightarrow> act_ret False
       | Some run \<Rightarrow> act_bind (cancel_section run) (cancel_rest run shell))"

section \<open>Shutting down\<close>

definition shutdown_begin :: "bool option \<Rightarrow> ('a, unit) runner_act" where
  "shutdown_begin shell =
     act_then (act_modify (\<lambda>s. s\<lparr>rn_shutting_down := True\<rparr>))
       (act_bind (act_get (\<lambda>s. map fst (rn_contexts s)))
         (act_each (\<lambda>tid. act_try (runner_cancel tid shell) (\<lambda>_. act_ret ()) (\<lambda>_. act_ret ()))))"

text \<open>After the wait for the workers: what is left is interrupted, whatever it has written.\<close>

definition shutdown_one :: "string \<Rightarrow> ('a, unit) runner_act" where
  "shutdown_one tid =
     act_bind (act_get (\<lambda>s. runner_context s tid)) (\<lambda>ctx.
       case ctx of
         None \<Rightarrow> act_ret ()
       | Some run \<Rightarrow>
           act_then (close_gate run)
             (act_catch
                (act_bind (task_get tid) (\<lambda>task.
                 act_then (converge_run_artifacts task Interrupted ''service_shutdown_timeout'' [])
                 (act_then (task_update tid (set_terminal Interrupted ''service_shutdown_timeout'' []) None)
                 (act_then (publish_final run ''task.interrupted''
                              [(''stop_reason'', JStr ''service_shutdown_timeout'')] ''interrupted''
                              ''service_shutdown_timeout'')
                    (release_active tid)))))
                (\<lambda>_. mark_degraded)))"

definition shutdown_finish :: "('a, unit) runner_act" where
  "shutdown_finish =
     act_bind (act_get (\<lambda>s. map fst (rn_contexts s))) (act_each shutdown_one)"

section \<open>Steps of one run and of the service\<close>

text \<open>
  What can happen to one run, in pieces that are atomic in the code (each is one block under the
  run's gate, or touches nothing the gate protects).  The pieces of the terminal write and of
  \<open>cancel\<close> may interleave with the API thread, so they are steps of their own and come in any order.
\<close>

definition same_gate :: "run_context \<Rightarrow> run_context \<Rightarrow> bool" where
  "same_gate run run' \<longleftrightarrow> rc_gate run' = rc_gate run \<and> rc_task_id run' = rc_task_id run"

inductive run_step ::
  "gate_config \<Rightarrow> run_context \<Rightarrow> 'a runner_state_scheme \<Rightarrow> 'a runner_state_scheme \<Rightarrow> bool"
  for cfg run where
  start: "run_step cfg run s (snd (worker_start run s))"
| init_failed: "run_step cfg run s (snd (worker_init_failed run sandbox s))"
| request: "run_step cfg run s (snd (request_start cfg run call tool args s))"
| finish: "run_step cfg run s (snd (request_finish cfg run aid args oc s))"
| decide: "same_gate run run' \<Longrightarrow> run_step cfg run s (snd (decide_under_gate aid d run' s))"
| snapshot: "run_step cfg run s (snd (guarded run (run_write_state ts) s))"
| trace: "run_step cfg run s (snd (guarded run (run_append_trace ts ev) s))"
| report: "run_step cfg run s (snd (guarded run (run_write_report ts rep) s))"
| publish: "run_step cfg run s (snd (boundary_publish run ty data opts s))"
| choice: "run_step cfg run s (snd (converge_choice run view s))"
| settle: "run_step cfg run s (snd (cancel_pending run s))"
| persist: "run_step cfg run s (snd (persist_terminal run st reason answer s))"
| close: "run_step cfg run s (snd (close_gate run s))"
| final: "run_step cfg run s (snd (publish_final run ty data stx summary s))"
| release: "run_step cfg run s (snd (release_active (rc_task_id run) s))"
| cancel: "run_step cfg run s (snd (cancel_section run s))"
| shell: "run_step cfg run s (snd (terminate_shell run b s))"

inductive system_step :: "gate_config \<Rightarrow> 'a runner_state_scheme \<Rightarrow> 'a runner_state_scheme \<Rightarrow> bool" for cfg where
  of_run: "run_step cfg run s t \<Longrightarrow> system_step cfg s t"
| register: "system_step cfg s (snd (runner_register rq starts s))"
| interrupt: "system_step cfg s (snd (shutdown_one tid s))"
| clock: "system_step cfg s (s\<lparr>st_clock := now\<rparr>)"
| loop: "system_step cfg s (loop_step s)"

section \<open>Properties that no write of the service can see\<close>

lemma upsert_run_split: "upsert_run t s = s \<or> (\<exists>rs. upsert_run t s = s\<lparr>st_runs := rs\<rparr>)"
  by (auto simp: upsert_run_def)

locale service_blind =
  fixes unseen :: "'a runner_state_scheme \<Rightarrow> bool"
  assumes unseen_store:
      "unseen s \<Longrightarrow> unseen (s\<lparr>st_io := os\<rparr>)" "unseen s \<Longrightarrow> unseen (s\<lparr>st_uuid := n\<rparr>)"
      "unseen s \<Longrightarrow> unseen (s\<lparr>st_approvals := aps\<rparr>)" "unseen s \<Longrightarrow> unseen (s\<lparr>st_approval_mirror := mir\<rparr>)"
      "unseen s \<Longrightarrow> unseen (s\<lparr>st_tasks := tks\<rparr>)" "unseen s \<Longrightarrow> unseen (s\<lparr>st_task_mirror := tmir\<rparr>)"
      "unseen s \<Longrightarrow> unseen (s\<lparr>st_runs := rns\<rparr>)" "unseen s \<Longrightarrow> unseen (s\<lparr>st_clock := now\<rparr>)"
    and unseen_journal: "unseen s \<Longrightarrow> unseen (s\<lparr>jn_lines := ls\<rparr>)" "unseen s \<Longrightarrow> unseen (s\<lparr>jn_torn := torn\<rparr>)"
    and unseen_events: "unseen s \<Longrightarrow> unseen (s\<lparr>ev_sequences := sqs\<rparr>)" "unseen s \<Longrightarrow> unseen (s\<lparr>ev_log := lg\<rparr>)"
      "unseen s \<Longrightarrow> unseen (s\<lparr>br_scheduled := sch\<rparr>)" "unseen s \<Longrightarrow> unseen (s\<lparr>br_queues := qs\<rparr>)"
    and unseen_gate: "unseen s \<Longrightarrow> unseen (s\<lparr>ag_task_gates := tg\<rparr>)" "unseen s \<Longrightarrow> unseen (s\<lparr>ag_conditions := cs\<rparr>)"
      "unseen s \<Longrightarrow> unseen (s\<lparr>sv_degraded := dg\<rparr>)" "unseen s \<Longrightarrow> unseen (s\<lparr>hp_gates := gs\<rparr>)"
    and unseen_run: "unseen s \<Longrightarrow> unseen (s\<lparr>ar_runs := rf\<rparr>)" "unseen s \<Longrightarrow> unseen (s\<lparr>rn_cleanup := cl\<rparr>)"
    and unseen_token: "unseen s \<Longrightarrow> unseen (cancel_token run s)"
    and unseen_release: "act_keeps unseen (release_active tid)"
    and unseen_register: "unseen s \<Longrightarrow> unseen (snd (runner_register rq starts s))"
begin

lemmas unseen_simps = unseen_store unseen_journal unseen_events unseen_gate unseen_run unseen_token

lemma task_update_unseen: "act_keeps unseen (task_update tid fn g)"
proof -
  have row: "unseen (put_task_row t s)" if "unseen s" for t s
  proof -
    have "unseen (s\<lparr>st_tasks := obj_put (st_tasks s) (t_task_id t) t\<rparr>)" using that by (rule unseen_simps)
    then show ?thesis
      unfolding put_task_row_def using upsert_run_split unseen_simps by metis
  qed
  show ?thesis
    unfolding task_update_def write_task_def task_mirror_write_def
    by (intro keeps_rules io_write_keeps unseen_simps row)
qed

end

sublocale service_blind \<subseteq> gate: gate_blind unseen "\<lambda>_. True"
  by unfold_locales
    (use unseen_simps task_update_unseen in \<open>auto simp: fenced_task_update_def intro!: keeps_rules\<close>)

context service_blind
begin

lemma run_writes_unseen:
  "act_keeps unseen (run_write_state ts)" "act_keeps unseen (run_append_trace ts ev)"
  "act_keeps unseen (run_write_report ts rep)"
  unfolding run_write_state_def run_append_trace_def run_write_report_def put_run_files_def
  by (intro io_write_keeps unseen_simps; assumption)+

lemma converge_unseen: "act_keeps unseen (converge_run_artifacts task st reason answer)"
  unfolding converge_run_artifacts_def write_converged_def run_start_def Let_def
  by (auto intro!: keeps_rules run_writes_unseen split: sum.split)

lemma runner_pieces_unseen:
  "act_keeps unseen (close_gate run)"
  "act_keeps unseen (persist_terminal run st reason answer)"
  "act_keeps unseen (publish_final run ty data stx summary)"
  "act_keeps unseen (set_cleanup run b)"
  unfolding close_gate_def persist_terminal_def publish_final_def set_cleanup_def
  by (auto intro!: keeps_rules converge_unseen gate.publish_blind gate.blind_update unseen_simps)

lemmas pieces_unseen =
  runner_pieces_unseen run_writes_unseen unseen_release
  gate.degrade_blind gate.publish_blind gate.blind_update [OF TrueI]
  gate.request_start_blind [OF TrueI] gate.request_finish_blind [OF TrueI]
  gate.decide_under_gate_blind [OF TrueI] gate.cancel_pending_blind gate.boundary_blind

lemma worker_pieces_unseen:
  "act_keeps unseen (worker_start run)"
  "act_keeps unseen (worker_init_failed run sandbox)"
  "act_keeps unseen (converge_choice run view)"
  "act_keeps unseen (cancel_section run)"
  "act_keeps unseen (terminate_shell run b)"
  "act_keeps unseen (boundary_publish run ty data opts)"
  "act_keeps unseen (shutdown_one tid)"
  unfolding worker_start_def worker_cancelled_def worker_start_failed_def worker_init_failed_def
    converge_choice_def cancel_section_def terminate_shell_def boundary_publish_def shutdown_one_def Let_def
  by (auto intro!: keeps_rules pieces_unseen unseen_token converge_unseen task_update_unseen split: option.split)

lemma guarded_unseen: "act_keeps unseen m \<Longrightarrow> act_keeps unseen (guarded run m)"
  unfolding guarded_def by (intro keeps_rules)

lemma run_step_unseen:
  assumes "run_step cfg run s t" and "unseen s"
  shows "unseen t"
  using assms
  by cases (auto elim!: act_keepsD [rotated] intro!: pieces_unseen worker_pieces_unseen guarded_unseen)

lemma system_step_unseen:
  assumes "unseen s" and "system_step cfg s t"
  shows "unseen t"
  using assms(2)
proof cases
  case (of_run run)
  then show ?thesis using assms(1) by (auto intro: run_step_unseen)
next
  case (interrupt tid)
  then show ?thesis using assms(1) by (auto intro: act_keepsD [OF worker_pieces_unseen(7)])
next
  case loop
  then show ?thesis using assms(1)
    by (auto simp: loop_step_def split: list.split intro!: unseen_simps)
qed (use assms(1) in \<open>auto intro: unseen_register unseen_simps\<close>)

lemma system_reach_unseen: "(system_step cfg)\<^sup>*\<^sup>* s t \<Longrightarrow> unseen s \<Longrightarrow> unseen t"
  by (induction rule: rtranclp_induct) (auto intro: system_step_unseen)

end

section \<open>Cancellation is final\<close>

definition cancelled_at :: "nat \<Rightarrow> 'a gate_state_scheme \<Rightarrow> bool" where
  "cancelled_at k s \<longleftrightarrow> k < length (hp_tokens s) \<and> hp_tokens s ! k"

lemma release_active_keeps:
  assumes "\<And>s cx ac tg. P s \<Longrightarrow> P (s\<lparr>rn_contexts := obj_pop (rn_contexts s) tid,
      rn_active := (if rn_active s = Some tid then None else rn_active s)\<rparr>)"
    and "\<And>s tg. P s \<Longrightarrow> P (s\<lparr>ag_task_gates := tg\<rparr>)"
  shows "act_keeps P (release_active tid)"
  unfolding release_active_def release_gate_def by (intro keeps_rules assms)

lemma cancel_token_tokens:
  "length (hp_tokens (cancel_token run s)) = length (hp_tokens s)"
  "hp_tokens s ! k \<Longrightarrow> hp_tokens (cancel_token run s) ! k"
  unfolding cancel_token_def
  by (cases "rc_token run"; simp; metis list_update_beyond linorder_not_less nth_list_update)+

interpretation cancellation: service_blind "cancelled_at k" for k
  by unfold_locales
    (auto simp: cancelled_at_def runner_register_def claim_slot_def Let_def nth_append cancel_token_tokens
      split: option.split intro!: release_active_keeps)

text \<open>A token that exists stays, so cancelling it takes effect whatever went wrong before.\<close>

definition allocated :: "nat \<Rightarrow> 'a gate_state_scheme \<Rightarrow> bool" where
  "allocated k s \<longleftrightarrow> k < length (hp_tokens s)"

interpretation token_there: service_blind "allocated k" for k
  by unfold_locales
    (auto simp: allocated_def runner_register_def claim_slot_def Let_def cancel_token_def split: option.split
      intro!: release_active_keeps)

lemma cancelled_at_token: "cancelled_at k s \<Longrightarrow> rc_token run = Some k \<Longrightarrow> token_cancelled s run"
  by (simp add: cancelled_at_def token_cancelled_def)

lemma cancel_section_cancels:
  fixes s :: "'a runner_state_scheme"
  assumes "rc_token run = Some k" and "k < length (hp_tokens s)"
  shows "cancelled_at k (snd (cancel_section run s))"
proof -
  have token: "act_triple (allocated k) (act_then (act_modify (cancel_token run)) (act_ret err))
      (\<lambda>_. cancelled_at k) (\<lambda>_. cancelled_at k)" for err :: "exn option"
    by (rule act_triple_then [where R = "cancelled_at k"]; intro act_rules)
      (simp_all add: cancelled_at_def allocated_def cancel_token_def assms(1))
  have "act_triple (allocated k :: 'a runner_state_scheme \<Rightarrow> bool) (cancel_section run) (\<lambda>_. cancelled_at k) (\<lambda>_. cancelled_at k)"
    unfolding cancel_section_def
  proof (rule act_triple_bind [where R = "\<lambda>_. allocated k"], goal_cases)
    case 1
    have "act_keeps (allocated k :: 'a runner_state_scheme \<Rightarrow> bool) (act_bind (task_get (rc_task_id run)) (\<lambda>current.
             act_when (\<not> task_terminal (t_status current) \<and> t_status current \<noteq> Cancel_Requested)
               (act_then (fenced_task_update run (rc_task_id run) (set_status Cancel_Requested))
                  (act_then
                    (publish_event (rc_task_id run) (rc_run_id run) ''task.cancel_requested'' []
                       (final_opts ''cancel_requested'' []))
                    (act_ret ())))))"
      by (intro keeps_rules token_there.gate.publish_blind token_there.gate.blind_update TrueI)
    then show ?case
      by (rule act_triple_try) (auto simp: act_triple_wp wp_simps allocated_def)
  qed (rule token)
  then show ?thesis
    using assms(2) by (cases "cancel_section run s"; cases "fst (cancel_section run s)")
      (auto dest: act_triple_retD act_triple_raiseD simp: allocated_def)
qed

lemma outcome_of_None: "outcome_of st = None \<longleftrightarrow> st = A_Pending"
  by (cases st) simp_all

text \<open>
  C1. Cancellation is final for the run: once the block of \<open>cancel\<close> under the gate has
  run (even when its own write failed), whatever the worker, the API threads, other registrations
  and the shutdown do afterwards, no request is answered with an approval, no new approval is asked
  for, no event of the run is published through its boundary, and a waiting call stops waiting.
\<close>

theorem cancel_is_final:
  fixes s :: "'a runner_state_scheme"
  assumes "rc_token run = Some k" and "k < length (hp_tokens s)"
    and "(system_step cfg)\<^sup>*\<^sup>* (snd (cancel_section run s)) t"
  shows "fst (request_finish cfg run aid args oc t) \<noteq> Inr O_Approved
    \<and> fst (request_start cfg run call tool args t) = Inl Run_Cancelled
    \<and> fst (boundary_publish run ty data opts t) = Inl Run_Cancelled
    \<and> wait_poll aid run expires t \<noteq> (Inr None, t)"
proof -
  have "cancelled_at k t"
    using cancellation.system_reach_unseen [OF assms(3) cancel_section_cancels [OF assms(1,2)]] .
  then have c: "token_cancelled t run" using assms(1) by (rule cancelled_at_token)
  have "act_wp (request_start cfg run call tool args) (\<lambda>_ _. False) (\<lambda>e _. e = Run_Cancelled) t"
    using c by (simp add: request_start_def wp_simps Let_def token_cancelled_def assms(1))
  then have "fst (request_start cfg run call tool args t) = Inl Run_Cancelled"
    by (rule act_wp_raises)
  moreover have "act_wp (request_finish cfg run aid args oc) (\<lambda>r _. r \<noteq> O_Approved) (\<lambda>_ _. True) t"
    using c by (cases oc) (simp_all add: request_finish_def drop_condition_def wp_simps token_cancelled_def assms(1))
  then have "fst (request_finish cfg run aid args oc t) \<noteq> Inr O_Approved"
    by (auto dest: act_wp_fst)
  moreover have "fst (boundary_publish run ty data opts t) = Inl Run_Cancelled"
    using c by (simp add: boundary_publish_def boundary_check_def act_defs)
  moreover have "wait_poll aid run expires t \<noteq> (Inr None, t)"
    using c by (auto simp: wait_poll_def act_defs approval_get_eq outcome_of_None split: option.splits if_splits)
  ultimately show ?thesis by blast
qed

section \<open>A fenced run writes nothing\<close>

definition fenced_at :: "run_context \<Rightarrow> task \<Rightarrow> run_files \<Rightarrow> 'a runner_state_scheme \<Rightarrow> bool" where
  "fenced_at run row f s \<longleftrightarrow>
     g_closed (gate_of s run) \<and> t_generation row < g_generation (gate_of s run)
     \<and> obj_get (st_tasks s) (rc_task_id run) = Some row \<and> run_files_of s (rc_run_id run) = f"

lemma fenced_at_simps [simp]:
  "fenced_at run row f (s\<lparr>st_io := os\<rparr>) = fenced_at run row f s"
  "fenced_at run row f (s\<lparr>st_uuid := n\<rparr>) = fenced_at run row f s"
  "fenced_at run row f (s\<lparr>st_approvals := aps\<rparr>) = fenced_at run row f s"
  "fenced_at run row f (s\<lparr>st_approval_mirror := mir\<rparr>) = fenced_at run row f s"
  "fenced_at run row f (s\<lparr>jn_lines := ls\<rparr>) = fenced_at run row f s"
  "fenced_at run row f (s\<lparr>jn_torn := torn\<rparr>) = fenced_at run row f s"
  "fenced_at run row f (s\<lparr>ev_sequences := sqs\<rparr>) = fenced_at run row f s"
  "fenced_at run row f (s\<lparr>ev_log := lg\<rparr>) = fenced_at run row f s"
  "fenced_at run row f (s\<lparr>br_scheduled := sch\<rparr>) = fenced_at run row f s"
  "fenced_at run row f (s\<lparr>ag_task_gates := tg\<rparr>) = fenced_at run row f s"
  "fenced_at run row f (s\<lparr>ag_conditions := cs\<rparr>) = fenced_at run row f s"
  "fenced_at run row f (s\<lparr>sv_degraded := dg\<rparr>) = fenced_at run row f s"
  "fenced_at run row f (s\<lparr>hp_tokens := tk\<rparr>) = fenced_at run row f s"
  "fenced_at run row f (s\<lparr>rn_contexts := cx\<rparr>) = fenced_at run row f s"
  "fenced_at run row f (s\<lparr>rn_active := ac\<rparr>) = fenced_at run row f s"
  "fenced_at run row f (s\<lparr>rn_cleanup := cl\<rparr>) = fenced_at run row f s"
  by (simp_all add: fenced_at_def gate_of_def run_files_of_def)

lemma fenced_update_noop:
  assumes "fenced_at run row f s" and "same_gate run run'"
  shows "snd (fenced_task_update run' (rc_task_id run') fn s) = s"
proof -
  have g: "gate_of s run' = gate_of s run" "rc_task_id run' = rc_task_id run"
    using assms(2) by (simp_all add: same_gate_def gate_of_def)
  have "t_generation row \<noteq> g_generation (gate_of s run)" using assms(1) by (simp add: fenced_at_def)
  then show ?thesis using assms(1)
    by (auto simp: fenced_task_update_def act_bind_def act_get_def task_update_def task_read_eq g fenced_at_def
        act_raise_def split: option.split)
qed

interpretation fence: gate_blind "fenced_at run row f" "same_gate run" for run row f
  by unfold_locales (auto simp: fenced_update_noop intro!: act_keepsI)

lemma same_gate_refl [simp]: "same_gate run run"
  by (simp add: same_gate_def)

lemma persist_fenced: "fenced_at run row f s \<Longrightarrow> persist_terminal run st reason answer s = (Inl Stale_Generation, s)"
  by (simp add: persist_terminal_def act_defs fenced_at_def)

lemma guarded_fenced: "fenced_at run row f s \<Longrightarrow> guarded run m s = (Inl Stale_Runner_Write, s)"
  by (simp add: guarded_def act_defs fenced_at_def)

lemma close_fenced: "fenced_at run row f s \<Longrightarrow> fenced_at run row f (snd (close_gate run s))"
  by (cases "rc_gate run < length (hp_gates s)")
    (auto simp: fenced_at_def close_gate_def act_modify_def gate_of_def run_files_of_def list_update_beyond)

lemma fence_runner_pieces:
  "act_keeps (fenced_at run row f) (persist_terminal run st reason answer)"
  "act_keeps (fenced_at run row f) (close_gate run)"
  "act_keeps (fenced_at run row f) (publish_final run ty data stx summary)"
  "act_keeps (fenced_at run row f) (release_active tid)"
  "act_keeps (fenced_at run row f) (set_cleanup run b)"
  "act_keeps (fenced_at run row f) (guarded run m)"
  "act_keeps (fenced_at run row f) (act_modify (cancel_token run))"
  unfolding publish_final_def release_active_def set_cleanup_def
  by (auto simp: persist_fenced guarded_fenced close_fenced cancel_token_def
      intro!: act_keepsI [of _ "persist_terminal run st reason answer"] act_keepsI [of _ "guarded run m"]
        act_keepsI [of _ "close_gate run"] keeps_rules fence.publish_blind fence.condition_blind split: option.split)

lemmas fence_pieces =
  fence_runner_pieces fence.degrade_blind fence.publish_blind fence.blind_update [OF same_gate_refl]
  fence.request_start_blind [OF same_gate_refl] fence.request_finish_blind [OF same_gate_refl]
  fence.decide_under_gate_blind fence.cancel_pending_blind fence.boundary_blind

lemma fence_worker_pieces:
  "act_keeps (fenced_at run row f) (worker_start run)"
  "act_keeps (fenced_at run row f) (worker_init_failed run sandbox)"
  "act_keeps (fenced_at run row f) (converge_choice run view)"
  "act_keeps (fenced_at run row f) (cancel_section run)"
  "act_keeps (fenced_at run row f) (terminate_shell run b)"
  "act_keeps (fenced_at run row f) (boundary_publish run ty data opts)"
  unfolding worker_start_def worker_cancelled_def worker_start_failed_def worker_init_failed_def
    converge_choice_def cancel_section_def terminate_shell_def boundary_publish_def Let_def
  by (auto intro!: keeps_rules fence_pieces split: option.split)

lemma run_step_fenced:
  assumes "fenced_at run row f s" and "run_step cfg run s t"
  shows "fenced_at run row f t"
  using assms(2,1)
  by cases (auto elim!: act_keepsD [rotated] intro!: fence_pieces fence_worker_pieces)

interpretation fencing: relation_invariant "run_step cfg run" "fenced_at run row f" for cfg run row f
  by unfold_locales (rule run_step_fenced)

text \<open>
  C2. Once the gate of a run is closed, no step of its worker or of a late decision changes the row
  of its task or the artifacts of its run: what the terminal write or the shutdown left there stays.
\<close>

theorem late_worker_is_fenced:
  fixes s t :: "'a runner_state_scheme"
  assumes "rc_gate run < length (hp_gates s)"
    and "obj_get (st_tasks s) (rc_task_id run) = Some row"
    and "t_generation row \<le> g_generation (gate_of s run)"
    and "(run_step cfg run)\<^sup>*\<^sup>* (snd (close_gate run s)) t"
  shows "obj_get (st_tasks t) (rc_task_id run) = Some row
    \<and> run_files_of t (rc_run_id run) = run_files_of s (rc_run_id run)"
proof -
  have "fenced_at run row (run_files_of s (rc_run_id run)) (snd (close_gate run s))"
    using assms(1-3) by (simp add: fenced_at_def close_gate_def act_modify_def gate_of_def run_files_of_def)
  then have "fenced_at run row (run_files_of s (rc_run_id run)) t"
    by (rule fencing.reach_keeps [OF assms(4)])
  then show ?thesis by (simp add: fenced_at_def)
qed

section \<open>One run at a time\<close>

definition slot_agrees :: "string option \<Rightarrow> (string \<times> run_context) list \<Rightarrow> bool" where
  "slot_agrees active contexts \<longleftrightarrow>
     (case active of
        None \<Rightarrow> contexts = []
      | Some tid \<Rightarrow> \<exists>run. contexts = [(tid, run)] \<and> rc_task_id run = tid)"

definition slot_ok :: "'a runner_state_scheme \<Rightarrow> bool" where
  "slot_ok s \<longleftrightarrow> slot_agrees (rn_active s) (rn_contexts s)"

lemma cancel_token_runner [simp]:
  "rn_active (cancel_token run s) = rn_active s" "rn_contexts (cancel_token run s) = rn_contexts s"
  by (simp_all add: cancel_token_def split: option.split)

lemma slot_release:
  "slot_agrees active contexts \<Longrightarrow>
     slot_agrees (if active = Some tid then None else active) (obj_pop contexts tid)"
  by (auto simp: slot_agrees_def obj_pop_def split: option.splits)

lemma slot_register: "slot_ok s \<Longrightarrow> slot_ok (snd (runner_register rq starts s))"
  by (auto simp: slot_ok_def slot_agrees_def runner_register_def claim_slot_def Let_def obj_pop_def new_context_def
      split: option.splits)

lemma slot_release_keeps: "act_keeps slot_ok (release_active tid)"
  by (rule release_active_keeps) (simp_all add: slot_ok_def slot_release)

interpretation slots: service_blind slot_ok
  by unfold_locales (intro slot_register slot_release_keeps | simp add: slot_ok_def)+

text \<open>
  C5. At every moment at most one run is registered, the active bit and the table of contexts agree,
  and a second registration is refused without touching anything.
\<close>

theorem one_run_at_a_time:
  assumes "rn_contexts s = []" and "rn_active s = None" and "(system_step cfg)\<^sup>*\<^sup>* s t"
  shows "length (rn_contexts t) \<le> 1 \<and> (rn_active t = None \<longleftrightarrow> rn_contexts t = [])
    \<and> (rn_active t \<noteq> None \<longrightarrow> (\<exists>e. runner_register rq starts t = (Inl e, t)))"
proof -
  have "slot_ok t" using slots.system_reach_unseen [OF assms(3)] assms(1,2) by (simp add: slot_ok_def slot_agrees_def)
  then show ?thesis by (auto simp: slot_ok_def slot_agrees_def runner_register_def split: option.splits)
qed

section \<open>What the shutdown and the end of the worker leave\<close>

text \<open>The part of the state that only the runner itself and the writes of tasks change.\<close>

definition runner_core :: "'a runner_state_scheme \<Rightarrow> _" where
  "runner_core s = (st_tasks s, hp_gates s, hp_tokens s, rn_active s, rn_contexts s, rn_cleanup s)"

lemma runner_core_eq:
  "runner_core s = runner_core t \<longleftrightarrow>
     st_tasks s = st_tasks t \<and> hp_gates s = hp_gates t \<and> hp_tokens s = hp_tokens t
     \<and> rn_active s = rn_active t \<and> rn_contexts s = rn_contexts t \<and> rn_cleanup s = rn_cleanup t"
  by (simp add: runner_core_def)

interpretation core: gate_blind "\<lambda>s. runner_core s = runner_core s0" "\<lambda>_. False" for s0
  by unfold_locales (simp_all add: runner_core_def)

lemma keeps_wp:
  assumes "act_keeps P m" and "P s" and "\<And>a t. P t \<Longrightarrow> Q a t" and "\<And>e t. P t \<Longrightarrow> E e t"
  shows "act_wp m Q E s"
  using assms by (auto intro!: act_wpI dest: act_triple_retD act_triple_raiseD)

lemma converge_core: "act_keeps (\<lambda>s. runner_core s = runner_core s0) (converge_run_artifacts task st reason answer)"
  unfolding converge_run_artifacts_def write_converged_def run_start_def Let_def run_write_state_def
    run_append_trace_def run_write_report_def put_run_files_def
  by (auto intro!: keeps_rules io_write_keeps simp: runner_core_def split: sum.split)

lemma core_wp:
  assumes "\<And>a t. runner_core t = runner_core s \<Longrightarrow> Q a t" and "\<And>e t. runner_core t = runner_core s \<Longrightarrow> E e t"
    and "act_keeps (\<lambda>t. runner_core t = runner_core s) m"
  shows "act_wp m Q E s"
  using assms(3) by (rule keeps_wp) (auto intro: assms(1,2))

text \<open>A row that the repository can read, under its own id.\<close>

definition good_row :: "'a store_state_scheme \<Rightarrow> string \<Rightarrow> bool" where
  "good_row s tid \<longleftrightarrow>
     (\<exists>row. obj_get (st_tasks s) tid = Some row \<and> t_task_id row = tid
        \<and> canonical_owner_id (t_owner_id row) = Some (t_owner_id row))"

definition terminal_row :: "'a store_state_scheme \<Rightarrow> string \<Rightarrow> task_status \<Rightarrow> string \<Rightarrow> bool" where
  "terminal_row s tid st reason \<longleftrightarrow>
     (\<exists>row. obj_get (st_tasks s) tid = Some row \<and> t_status row = st
        \<and> t_stop_reason row = opt_of_text reason \<and> t_pending_approval row = None)"

lemma written_runner_simps [simp]:
  "rn_active (task_written u runs mir os s) = rn_active s" "rn_contexts (task_written u runs mir os s) = rn_contexts s"
  "rn_cleanup (task_written u runs mir os s) = rn_cleanup s"
  "rn_active (published ev uuid sqs sch s) = rn_active s" "rn_contexts (published ev uuid sqs sch s) = rn_contexts s"
  "rn_cleanup (published ev uuid sqs sch s) = rn_cleanup s" "st_tasks (published ev uuid sqs sch s) = st_tasks s"
  by (simp_all add: task_written_def published_def)

lemma release_active_wp [wp_simps]:
  "act_wp (release_active tid) Q E s \<longleftrightarrow>
     Q () (s\<lparr>rn_contexts := obj_pop (rn_contexts s) tid,
             rn_active := (if rn_active s = Some tid then None else rn_active s),
             ag_task_gates := obj_pop (ag_task_gates s) tid\<rparr>)"
  by (simp add: release_active_def release_gate_def wp_simps)

lemma publish_final_wp:
  assumes "\<And>ev uuid sqs sch. e_task_id ev = rc_task_id run \<Longrightarrow> e_type ev = ty \<Longrightarrow> Q () (published ev uuid sqs sch s)"
  shows "act_wp (publish_final run ty data stx summary) Q E s"
  unfolding publish_final_def by (simp add: wp_simps) (rule publish_event_wp, rule assms)

lemma shutdown_one_wp:
  fixes s :: "'a runner_state_scheme"
  assumes "runner_context s tid = Some run" and "good_row s tid" and "rc_gate run < length (hp_gates s)"
  shows "act_wp (shutdown_one tid)
    (\<lambda>_ t. sv_degraded t \<or>
       (terminal_row t tid Interrupted ''service_shutdown_timeout'' \<and> runner_context t tid = None
        \<and> e_type (last (ev_log t)) = ''task.interrupted'' \<and> g_closed (gate_of t run)))
    (\<lambda>_ _. False) s"
proof -
  define s1 where "s1 = s\<lparr>hp_gates := (hp_gates s)[rc_gate run := gate_close (gate_of s run)]\<rparr>"
  have closed: "g_closed (gate_of t run)" if "hp_gates t = hp_gates s1" for t :: "'a runner_state_scheme"
    using assms(3) that by (simp add: s1_def gate_of_def)
  obtain row where row: "obj_get (st_tasks s1) tid = Some row" "t_task_id row = tid"
      "canonical_owner_id (t_owner_id row) = Some (t_owner_id row)"
    using assms(2) by (auto simp: good_row_def s1_def)
  have row0: "obj_get (st_tasks s) tid = Some row" using row(1) by (simp add: s1_def)
  have row_same: "row\<lparr>t_owner_id := t_owner_id row\<rparr> = row" by simp
  let ?Q = "\<lambda>_ t. sv_degraded t \<or>
       (terminal_row t tid Interrupted ''service_shutdown_timeout'' \<and> runner_context t tid = None
        \<and> e_type (last (ev_log t)) = ''task.interrupted'' \<and> g_closed (gate_of t run))"
  let ?E = "\<lambda>e t. sv_degraded (t\<lparr>sv_degraded := True\<rparr>)"
  have publish: "act_wp (publish_final run ''task.interrupted'' data stx summary)
      (\<lambda>_. act_wp (release_active tid) ?Q ?E) ?E u"
    if "terminal_row u tid Interrupted ''service_shutdown_timeout''" "hp_gates u = hp_gates s1"
    for u :: "'a runner_state_scheme" and data stx summary
    using that closed
    by (intro publish_final_wp)
      (auto simp: wp_simps terminal_row_def runner_context_def published_def)
  have update: "act_wp (task_update tid (set_terminal Interrupted ''service_shutdown_timeout'' []) None)
      (\<lambda>_. act_wp (publish_final run ''task.interrupted'' data stx summary)
         (\<lambda>_. act_wp (release_active tid) ?Q ?E) ?E) ?E t"
    if "runner_core t = runner_core s1" for t :: "'a runner_state_scheme" and data stx summary
  proof (rule task_update_wp, goal_cases)
    case (1 row' o' runs mir os u)
    have "terminal_row (task_written u runs mir os t) tid Interrupted ''service_shutdown_timeout''"
      using 1 row that by (auto simp: terminal_row_def runner_core_eq)
    moreover have "hp_gates (task_written u runs mir os t) = hp_gates s1"
      using that by (simp add: runner_core_eq)
    ultimately show ?case by (intro conjI publish) simp_all
  qed simp_all
  have converge: "act_wp (converge_run_artifacts row Interrupted ''service_shutdown_timeout'' [])
      (\<lambda>_. act_wp (task_update tid (set_terminal Interrupted ''service_shutdown_timeout'' []) None)
         (\<lambda>_. act_wp (publish_final run ''task.interrupted'' data stx summary)
            (\<lambda>_. act_wp (release_active tid) ?Q ?E) ?E) ?E) ?E s1" for data stx summary
    by (rule core_wp [OF _ _ converge_core]) (use update in auto)
  show ?thesis
    unfolding shutdown_one_def
    using converge row0 by (simp add: wp_simps assms(1) s1_def [symmetric] row row_same)
qed

text \<open>
  When the wait of the shutdown is over, a run that is still registered becomes interrupted,
  whatever status its task already has (a completed task that the worker has just written included),
  and a terminal event is published for it; otherwise the service is degraded.
\<close>

theorem shutdown_overwrites:
  fixes s :: "'a runner_state_scheme"
  assumes "runner_context s tid = Some run" and "good_row s tid" and "rc_gate run < length (hp_gates s)"
    and "\<not> sv_degraded (snd (shutdown_one tid s))"
  shows "terminal_row (snd (shutdown_one tid s)) tid Interrupted ''service_shutdown_timeout''
    \<and> runner_context (snd (shutdown_one tid s)) tid = None
    \<and> e_type (last (ev_log (snd (shutdown_one tid s)))) = ''task.interrupted''
    \<and> g_closed (gate_of (snd (shutdown_one tid s)) run)"
  using shutdown_one_wp [OF assms(1-3)] assms(4)
  by (simp add: act_wp_def split: prod.splits sum.splits)

text \<open>What the terminal write leaves when it returns; when it raises, the slot is still taken.\<close>

definition settled_as :: "run_context \<Rightarrow> task_status \<Rightarrow> string \<Rightarrow> 'a runner_state_scheme \<Rightarrow> bool" where
  "settled_as run st reason s \<longleftrightarrow>
     terminal_row s (rc_task_id run) st reason \<and> g_closed (gate_of s run)"

text \<open>
  The runner is fenced out: its gate is closed, or the row is of another generation.  No write of the
  artifacts raises the error that says so.
\<close>

definition fenced_out :: "run_context \<Rightarrow> 'a runner_state_scheme \<Rightarrow> bool" where
  "fenced_out run s \<longleftrightarrow> g_closed (gate_of s run) \<or>
     (\<exists>row. obj_get (st_tasks s) (rc_task_id run) = Some row \<and> t_generation row \<noteq> g_generation (gate_of s run))"

lemma res_bind_Inl: "res_bind r f = Inl e \<longleftrightarrow> r = Inl e \<or> (\<exists>a. r = Inr a \<and> f a = Inl e)"
  by (cases r) auto

lemma conversions_fresh [simp]: "py_int v \<noteq> Inl Stale_Generation" "py_iter v \<noteq> Inl Stale_Generation"
  by (cases v; auto split: option.split)+

lemma dicts_fresh [simp]: "py_dict v \<noteq> Inl Stale_Generation" "goal_items gs \<noteq> Inl Stale_Generation"
proof -
  have "dict_pair v \<noteq> Inl Stale_Generation" for v
    by (simp add: dict_pair_def res_bind_Inl split: list.split json.split)
  then have "dict_pairs d vs \<noteq> Inl Stale_Generation" for d vs
    by (induction vs arbitrary: d) (auto simp: res_bind_Inl split_def)
  then show "py_dict v \<noteq> Inl Stale_Generation"
    by (simp add: py_dict_def res_bind_Inl split: json.split)
  show "goal_items gs \<noteq> Inl Stale_Generation"
    by (induction gs) (auto simp: res_bind_Inl)
qed

lemma fields_fresh [simp]:
  "get_int d k i \<noteq> Inl Stale_Generation" "get_int_or_zero d k \<noteq> Inl Stale_Generation"
  "get_max_tool_steps d \<noteq> Inl Stale_Generation" "get_strs d k xs \<noteq> Inl Stale_Generation"
  "get_dicts d k \<noteq> Inl Stale_Generation" "get_reasons d k \<noteq> Inl Stale_Generation" "get_goals d k \<noteq> Inl Stale_Generation"
  by (simp_all add: get_int_def get_int_or_zero_def get_max_tool_steps_def get_strs_def get_dicts_def get_reasons_def
      get_goals_def res_bind_Inl Let_def)

lemma loads_fresh [simp]: "load_json f \<noteq> Inl Stale_Generation" "load_task_state g \<noteq> Inl Stale_Generation"
proof -
  show json: "load_json f \<noteq> Inl Stale_Generation" for f by (simp add: load_json_def split: option.split json_file.split)
  have "task_state_from_dict j \<noteq> Inl Stale_Generation" for j
    by (cases j) (simp_all add: res_bind_Inl)
  with json show "load_task_state g \<noteq> Inl Stale_Generation" by (simp add: load_task_state_def res_bind_Inl)
qed

lemma match_fresh: "run_artifacts_match t s \<noteq> Inl Stale_Generation"
proof -
  have "report_says rep k v \<noteq> Inl Stale_Generation" for rep k v
    by (simp add: report_says_def split: json.split)
  then show ?thesis
    by (simp add: run_artifacts_match_def Let_def res_bind_Inl caught_load_def split: sum.split option.split)
      (auto simp: res_bind_Inl)
qed

lemma converge_fresh: "fst (converge_run_artifacts task st reason answer s) \<noteq> Inl Stale_Generation"
proof -
  have stored: "act_wp (write_converged ts st reason answer) (\<lambda>_ _. True) (\<lambda>e _. e \<noteq> Stale_Generation) u"
    for ts and u :: "'a artifact_state_scheme"
    unfolding write_converged_def run_start_def run_write_state_def run_append_trace_def run_write_report_def Let_def
    by (auto simp: wp_simps intro!: io_write_wp)
  have "act_wp (converge_run_artifacts task st reason answer) (\<lambda>_ _. True) (\<lambda>e _. e \<noteq> Stale_Generation) s"
    unfolding converge_run_artifacts_def
    by (auto simp: wp_simps stored split: sum.split)
  then show ?thesis by (auto simp: act_wp_def split: prod.splits)
qed

lemma converge_core_wp:
  fixes s :: "'a runner_state_scheme"
  assumes "\<And>t. runner_core t = runner_core s \<Longrightarrow> Q () t"
    and "\<And>e t. runner_core t = runner_core s \<Longrightarrow> e \<noteq> Stale_Generation \<Longrightarrow> E e t"
  shows "act_wp (converge_run_artifacts task st reason answer) Q E s"
  using keeps_wp [OF converge_core [of s task st reason answer], of s "\<lambda>_ t. runner_core t = runner_core s" "\<lambda>_ t. runner_core t = runner_core s"]
    converge_fresh [of task st reason answer s] assms
  by (auto simp: act_wp_def split: prod.splits sum.splits)

lemma persist_terminal_wp:
  fixes s :: "'a runner_state_scheme"
  assumes "good_row s (rc_task_id run)"
    and "\<And>t. terminal_row t (rc_task_id run) st reason \<Longrightarrow> rn_active t = rn_active s \<Longrightarrow>
           length (hp_gates t) = length (hp_gates s) \<Longrightarrow> Q () t"
    and "\<And>e t. rn_active t = rn_active s \<Longrightarrow> (e = Stale_Generation \<Longrightarrow> fenced_out run s) \<Longrightarrow> E e t"
  shows "act_wp (persist_terminal run st reason answer) Q E s"
proof -
  obtain row where row: "obj_get (st_tasks s) (rc_task_id run) = Some row" "t_task_id row = rc_task_id run"
      "canonical_owner_id (t_owner_id row) = Some (t_owner_id row)"
    using assms(1) by (auto simp: good_row_def)
  have row_same: "row\<lparr>t_owner_id := t_owner_id row\<rparr> = row" by simp
  have fenced: "fenced_out run s" if "g_generation (gate_of t run) \<noteq> t_generation row" "runner_core t = runner_core s"
    for t :: "'a runner_state_scheme"
    using that row by (auto simp: fenced_out_def runner_core_eq gate_of_def)
  have update: "act_wp (fenced_task_update run (rc_task_id run) (set_terminal st reason answer))
      (\<lambda>_. Q ()) E t" if "runner_core t = runner_core s" for t :: "'a runner_state_scheme"
  proof (rule fenced_task_update_wp [where row = row], goal_cases)
    case (3 runs mir os u)
    have "terminal_row (task_written u runs mir os t) (rc_task_id run) st reason"
      using 3 row that by (auto simp: terminal_row_def runner_core_eq)
    then show ?case using that by (auto simp: runner_core_eq intro!: assms(2,3))
  next
    case 4
    show ?case using that fenced [OF 4 that] by (intro assms(3)) (auto simp: runner_core_eq)
  qed (use row that in \<open>auto simp: runner_core_eq intro!: assms(3)\<close>)
  have converge: "act_wp (converge_run_artifacts row st reason answer)
      (\<lambda>_. act_wp (fenced_task_update run (rc_task_id run) (set_terminal st reason answer)) (\<lambda>_. Q ()) E) E s"
    by (rule converge_core_wp) (use update in \<open>auto simp: runner_core_eq intro!: assms(3)\<close>)
  have closed: "g_closed (gate_of s run) \<Longrightarrow> fenced_out run s" by (simp add: fenced_out_def)
  show ?thesis
    unfolding persist_terminal_def
    using converge update [of s] closed match_fresh
    by (auto simp: wp_simps row row_same intro!: assms(3) split: sum.split)
qed

lemma settled_published [simp]:
  "settled_as run st reason (published ev uuid sqs sch s) = settled_as run st reason s"
  by (simp add: settled_as_def terminal_row_def)

lemma publish_terminal_wp:
  assumes "settled_as run st reason s" and "\<And>t. settled_as run st reason t \<Longrightarrow> rn_active t = rn_active s \<Longrightarrow> Q () t"
  shows "act_wp (publish_terminal run st reason answer) Q E s"
  unfolding publish_terminal_def Let_def
  using assms by (auto simp: wp_simps intro!: publish_final_wp)

lemma converge_write_wp:
  fixes s :: "'a runner_state_scheme"
  assumes "good_row s (rc_task_id run)" and "rc_gate run < length (hp_gates s)"
    and Q: "\<And>t. settled_as run st reason t \<Longrightarrow> rn_active t = rn_active s \<Longrightarrow> Q () t"
    and E: "\<And>e t. rn_active t = rn_active s \<Longrightarrow> E e t"
  shows "act_wp (converge_write run st reason answer) Q E s"
proof -
  obtain row where row: "obj_get (st_tasks s) (rc_task_id run) = Some row"
      "canonical_owner_id (t_owner_id row) = Some (t_owner_id row)"
    using assms(1) by (auto simp: good_row_def)
  have tail: "act_wp (close_gate run) (\<lambda>_. act_wp (publish_terminal run st reason answer) Q E) E t"
    if t: "terminal_row t (rc_task_id run) st reason" "rn_active t = rn_active s"
      "length (hp_gates t) = length (hp_gates s)" for t :: "'a runner_state_scheme"
    using t assms(2) Q
    by (simp add: wp_simps, intro publish_terminal_wp) (auto simp: settled_as_def terminal_row_def gate_of_def)
  have persist: "act_wp (persist_terminal run st reason answer)
      (\<lambda>_. act_wp (close_gate run) (\<lambda>_. act_wp (publish_terminal run st reason answer) Q E) E) E t"
    if "runner_core t = runner_core s" for t :: "'a runner_state_scheme"
    using that assms(1) E
    by (intro persist_terminal_wp tail) (auto simp: runner_core_eq good_row_def)
  have settle: "act_wp (cancel_pending run) (\<lambda>_. act_wp (persist_terminal run st reason answer)
      (\<lambda>_. act_wp (close_gate run) (\<lambda>_. act_wp (publish_terminal run st reason answer) Q E) E) E) E s"
    by (rule core_wp [OF _ _ core.cancel_pending_blind]) (use persist E in \<open>auto simp: runner_core_eq\<close>)
  show ?thesis
    unfolding converge_write_def act_wp_bind act_wp_then task_get_wp act_wp_when
    using row persist [of s] settle by simp
qed

lemma terminal_choice_terminal: "task_terminal (fst (terminal_choice c view))"
  by (cases view) (simp add: terminal_choice_def task_terminal_def Let_def)

lemma converge_terminal_wp:
  fixes s :: "'a runner_state_scheme"
  assumes "good_row s (rc_task_id run)" and "rc_gate run < length (hp_gates s)"
    and Q: "\<And>t st reason. settled_as run st reason t \<Longrightarrow> rn_active t = rn_active s \<Longrightarrow> task_terminal st \<Longrightarrow>
        (token_cancelled s run \<longrightarrow> st = Cancelled \<or> (st = Failed \<and> reason = ''process_cleanup_failed'')) \<Longrightarrow> Q () t"
    and E: "\<And>e t. rn_active t = rn_active s \<Longrightarrow> E e t"
  shows "act_wp (converge_terminal run view) Q E s"
proof -
  obtain st reason answer where choice: "terminal_choice (token_cancelled s run) view = (st, reason, answer)"
    by (cases "terminal_choice (token_cancelled s run) view")
  have st: "task_terminal st" "token_cancelled s run \<Longrightarrow> st = Cancelled"
    using choice terminal_choice_terminal [of "token_cancelled s run" view]
    by (auto simp: terminal_choice_def split: prod.splits)
  have store: "act_wp (converge_write run st' reason' answer') Q E t"
    if "good_row t (rc_task_id run)" "length (hp_gates t) = length (hp_gates s)" "rn_active t = rn_active s"
      "(st', reason') = (st, reason) \<or> (st', reason') = (Failed, ''process_cleanup_failed'')"
    for st' reason' answer' and t :: "'a runner_state_scheme"
  proof (rule converge_write_wp)
    fix u :: "'a runner_state_scheme" assume u: "settled_as run st' reason' u" "rn_active u = rn_active t"
    have "task_terminal st'" "token_cancelled s run \<longrightarrow> st' = Cancelled \<or> (st' = Failed \<and> reason' = ''process_cleanup_failed'')"
      using that(4) st by (auto simp: task_terminal_def)
    with u that(3) show "Q () u" by (intro Q) simp_all
  qed (use that assms(2) E in auto)
  show ?thesis
    unfolding converge_terminal_def converge_choice_def
    using assms(1) by (auto simp: wp_simps choice set_cleanup_def good_row_def intro!: store)
qed

lemma settled_released [simp]:
  "settled_as run st reason (s\<lparr>rn_contexts := c, rn_active := a, ag_task_gates := g\<rparr>) = settled_as run st reason s"
  by (simp add: settled_as_def terminal_row_def gate_of_def)

text \<open>A terminal write of the worker, the close of its gate and the last event.\<close>

lemma persist_close_wp:
  fixes s :: "'a runner_state_scheme"
  assumes "good_row s (rc_task_id run)" and "rc_gate run < length (hp_gates s)"
    and "\<And>t. settled_as run st reason t \<Longrightarrow> rn_active t = rn_active s \<Longrightarrow> Q () t"
    and "\<And>e t. rn_active t = rn_active s \<Longrightarrow> (e = Stale_Generation \<Longrightarrow> fenced_out run s) \<Longrightarrow> E e t"
  shows "act_wp (persist_terminal run st reason answer)
    (\<lambda>_. act_wp (close_gate run) (\<lambda>_. act_wp (publish_final run ty data stx summary) Q E1) E2) E s"
proof (rule persist_terminal_wp [OF assms(1)])
  fix t :: "'a runner_state_scheme"
  assume t: "terminal_row t (rc_task_id run) st reason" "rn_active t = rn_active s" "length (hp_gates t) = length (hp_gates s)"
  show "act_wp (close_gate run) (\<lambda>_. act_wp (publish_final run ty data stx summary) Q E1) E2 t"
    using t assms(2,3)
    by (simp add: wp_simps, intro publish_final_wp) (auto simp: settled_as_def terminal_row_def gate_of_def)
qed (rule assms(4))

text \<open>
  C3. Whichever way the worker ends (cancelled before it started, refused its first write, no adapter,
  or after the run), it gives its slot up only when a terminal status is stored, the pending approval is
  cleared and the gate is closed; and a cancelled run ends as cancelled, or as failed when its
  processes could not be cleaned up.  There are two exceptions, both in the first block of the worker:
  another generation owns the row or the gate is closed, so the runner is fenced out; or the run was
  cancelled before it started and the terminal write failed, and then the service is degraded.
\<close>

theorem slot_released_when_durable:
  fixes s :: "'a runner_state_scheme"
  assumes "good_row s (rc_task_id run)" and "rc_gate run < length (hp_gates s)"
    and "rn_active s = Some (rc_task_id run)"
    and "t \<in> {snd (worker_start run s), snd (worker_init_failed run sandbox s), snd (worker_end run view s)}"
    and "rn_active t = None"
  shows "(\<exists>st reason. settled_as run st reason t \<and> task_terminal st \<and>
      (token_cancelled s run \<longrightarrow> st = Cancelled \<or> (st = Failed \<and> reason = ''process_cleanup_failed''))) \<or>
    t = snd (worker_start run s) \<and> (fenced_out run s \<or> token_cancelled s run \<and> sv_degraded t)"
proof -
  let ?S = "\<lambda>t. \<exists>st reason. settled_as run st reason t \<and> task_terminal st \<and>
      (token_cancelled s run \<longrightarrow> st = Cancelled \<or> (st = Failed \<and> reason = ''process_cleanup_failed''))"
  let ?T = "\<lambda>t. rn_active t = None \<longrightarrow> ?S t \<or> fenced_out run s \<or> token_cancelled s run \<and> sv_degraded t"
  have active: "rn_active u = rn_active s \<Longrightarrow> rn_active u \<noteq> None" for u :: "'a runner_state_scheme" using assms(3) by simp
  have ended: "act_wp (worker_end run view) (\<lambda>_ t. rn_active t = None \<longrightarrow> ?S t) (\<lambda>_ _. False) s"
    unfolding worker_end_def act_wp_try
    by (rule converge_terminal_wp [OF assms(1,2)]) (use assms(3) in \<open>auto simp: wp_simps\<close>)
  have init: "act_wp (worker_init_failed run sandbox) (\<lambda>_ t. rn_active t = None \<longrightarrow> ?S t) (\<lambda>_ _. False) s"
    unfolding worker_init_failed_def Let_def act_wp_bind act_wp_get act_wp_try act_wp_then
    by (cases "token_cancelled s run"; simp only: if_True if_False; rule persist_close_wp [OF assms(1,2)])
      (use assms(3) in \<open>auto simp: wp_simps task_terminal_def\<close>)
  have cancelled: "act_wp (worker_cancelled run) (\<lambda>_. ?T) (\<lambda>_ _. False) s" if "token_cancelled s run"
    unfolding worker_cancelled_def act_wp_then act_wp_catch
    by (rule persist_close_wp [OF assms(1,2)]) (use that in \<open>auto simp: wp_simps task_terminal_def\<close>)
  have failed: "act_wp (worker_start_failed run) (\<lambda>_ t. rn_active t = None \<longrightarrow> ?S t) (\<lambda>_ _. False) u"
    if "good_row u (rc_task_id run)" "rc_gate run < length (hp_gates u)" "rn_active u = rn_active s" "\<not> token_cancelled s run"
    for u :: "'a runner_state_scheme"
    unfolding worker_start_failed_def act_wp_then act_wp_try
    by (rule persist_close_wp [OF that(1,2)]) (use that(3,4) assms(3) in \<open>auto simp: wp_simps task_terminal_def\<close>)
  obtain row where row: "obj_get (st_tasks s) (rc_task_id run) = Some row" "t_task_id row = rc_task_id run"
      "canonical_owner_id (t_owner_id row) = Some (t_owner_id row)"
    using assms(1) by (auto simp: good_row_def)
  have started: "act_wp (act_try
         (act_then (fenced_task_update run (rc_task_id run) (set_status Running))
            (act_then
               (publish_event (rc_task_id run) (rc_run_id run) ''task.started'' []
                  (no_opts\<lparr>o_phase := ''system'', o_status := ''running''\<rparr>))
               (act_ret ())))
         (\<lambda>_. act_ret True)
         (\<lambda>e. act_then
              (if e = Stale_Generation then release_active (rc_task_id run) else worker_start_failed run)
              (act_ret False))) (\<lambda>_. ?T) (\<lambda>_ _. False) s" if "\<not> token_cancelled s run"
    unfolding act_wp_try act_wp_then
  proof (rule fenced_task_update_wp [OF row(1,3)], goal_cases)
    case (1 runs mir os u)
    have "good_row (task_written u runs mir os s) (rc_task_id run)"
      using 1 row by (auto simp: good_row_def set_status_def)
    then show ?case
      using assms(2,3) that by (auto simp: wp_simps intro!: publish_event_wp act_wp_conseq [OF failed])
  next
    case 2
    then have "fenced_out run s" using row(1) by (auto simp: fenced_out_def)
    then show ?case by (simp add: wp_simps)
  next
    case (3 os)
    show ?case
      using assms(1-3) that by (auto simp: wp_simps good_row_def intro!: act_wp_conseq [OF failed])
  qed
  have start: "act_wp (worker_start run) (\<lambda>_. ?T) (\<lambda>_ _. False) s"
    unfolding worker_start_def act_wp_bind act_wp_get
    using started act_wp_conseq [OF cancelled] by (auto simp: act_wp_then [of "worker_cancelled run"] act_wp_ret)
  show ?thesis
    using assms(4,5) ended init start by (auto simp: act_wp_def split: prod.splits sum.splits)
qed

definition sample_runner :: "task_status \<Rightarrow> runner_state" where
  "sample_runner st =
     artifact_state.extend ((sample_artifacts no_files)\<lparr>st_tasks := [(''task_1'', set_status st sample_task)]\<rparr>)
       (runner_state.fields [(''task_1'', sample_run)] (Some ''task_1'') False [True])"

definition idle_runner :: runner_state where
  "idle_runner = (sample_runner Running)\<lparr>rn_contexts := [], rn_active := None\<rparr>"

lemma sample_runner_simps [simp]:
  "hp_gates (sample_runner st) = [new_gate 0]" "hp_tokens (sample_runner st) = [False]"
  "st_io (sample_runner st) = []" "sv_degraded (sample_runner st) = False"
  "rn_active (sample_runner st) = Some ''task_1''" "rn_contexts (sample_runner st) = [(''task_1'', sample_run)]"
  "rn_cleanup (sample_runner st) = [True]" "rn_shutting_down (sample_runner st) = False"
  "st_tasks (sample_runner st) = [(''task_1'', set_status st sample_task)]"
  "st_mirrored (sample_runner st) = False" "ar_runs (sample_runner st) = [(''run_1'', no_files)]"
  "ar_env (sample_runner st) = []"
  "t_task_id (set_status st task) = t_task_id task" "t_owner_id (set_status st task) = t_owner_id task"
  "t_generation (set_status st task) = t_generation task" "t_run_id (set_status st task) = t_run_id task"
  by (simp_all add: sample_runner_def sample_artifacts_def sample_gate_def artifact_state.defs gate_state.defs
      runner_state.defs set_status_def)

lemma sample_run_simps [simp]:
  "rc_task_id sample_run = ''task_1''" "rc_run_id sample_run = ''run_1''" "rc_gate sample_run = 0"
  "rc_token sample_run = Some 0"
  by (simp_all add: sample_run_def)

lemma sample_good_row: "good_row (sample_runner st) ''task_1''"
  by (simp add: good_row_def)

theorem cancel_is_final_witness:
  "fst (request_finish sample_config sample_run ''apr_0'' JNull O_Approved
      (snd (cancel_pending sample_run (snd (cancel_section sample_run (sample_runner Running)))))) \<noteq> Inr O_Approved"
proof -
  have "(system_step sample_config)\<^sup>*\<^sup>* (snd (cancel_section sample_run (sample_runner Running)))
      (snd (cancel_pending sample_run (snd (cancel_section sample_run (sample_runner Running)))))"
    by (rule r_into_rtranclp, rule system_step.of_run, rule run_step.settle)
  then show ?thesis
    using cancel_is_final [of sample_run 0 "sample_runner Running" sample_config
        "snd (cancel_pending sample_run (snd (cancel_section sample_run (sample_runner Running))))"] by simp
qed

theorem late_worker_is_fenced_witness:
  "obj_get (st_tasks (snd (persist_terminal sample_run Completed ''final_answer_returned'' ''done''
      (snd (close_gate sample_run (sample_runner Interrupted)))))) ''task_1''
   = Some (set_status Interrupted sample_task)"
proof -
  have "(run_step sample_config sample_run)\<^sup>*\<^sup>* (snd (close_gate sample_run (sample_runner Interrupted)))
      (snd (persist_terminal sample_run Completed ''final_answer_returned'' ''done''
         (snd (close_gate sample_run (sample_runner Interrupted)))))"
    by (intro r_into_rtranclp persist)
  then show ?thesis
    using late_worker_is_fenced [of sample_run "sample_runner Interrupted" "set_status Interrupted sample_task"]
    by (simp add: gate_of_def new_gate_def)
qed

definition sample_request :: run_request where
  "sample_request = \<lparr>rq_task_id = ''task_1'', rq_run_id = ''run_1'', rq_session_id = ''ses_1'',
     rq_workspace_id = ''ws'', rq_owner_id = sample_owner, rq_input = ''hello'', rq_max_steps = 6,
     rq_session_data = JNull, rq_permission_mode = ''default''\<rparr>"

theorem one_run_at_a_time_witness:
  "\<exists>e. runner_register sample_request True (snd (runner_register sample_request True idle_runner))
     = (Inl e, snd (runner_register sample_request True idle_runner))"
proof -
  let ?t = "snd (runner_register sample_request True idle_runner)"
  have "(system_step sample_config)\<^sup>*\<^sup>* idle_runner ?t"
    by (intro r_into_rtranclp register)
  moreover have "rn_contexts idle_runner = []" "rn_active idle_runner = None"
    by (simp_all add: idle_runner_def)
  moreover have "rn_active ?t \<noteq> None"
    by (simp add: runner_register_def idle_runner_def is_available_def claim_slot_def Let_def)
  ultimately show ?thesis using one_run_at_a_time by blast
qed

lemma shutdown_sample: "\<not> sv_degraded (snd (shutdown_one ''task_1'' (sample_runner Completed)))"
  by (simp add: shutdown_one_def act_defs runner_context_def close_gate_def task_get_eq
      converge_run_artifacts_def write_converged_def run_start_def run_write_state_def run_append_trace_def
      run_write_report_def utc_now_def io_write_ok Let_def run_files_of_def load_task_state_def load_json_def
      no_files_def caught_load_def task_update_eq write_task_def task_mirror_write_def task_read_eq
      publish_final_def publish_event_eq published_def release_active_def release_gate_def put_task_row_def
      upsert_run_def put_run_files_def)

theorem shutdown_overwrites_witness:
  "terminal_row (snd (shutdown_one ''task_1'' (sample_runner Completed))) ''task_1'' Interrupted
     ''service_shutdown_timeout''"
  using shutdown_overwrites [of "sample_runner Completed" "''task_1''" sample_run] sample_good_row shutdown_sample
  by (simp add: runner_context_def)

lemma worker_end_sample:
  "rn_active (snd (worker_end sample_run (''failed'', ''model_error'', []) (sample_runner Running))) = None"
  by (simp add: worker_end_def converge_terminal_def converge_choice_def converge_write_def publish_terminal_def
      persist_terminal_def fenced_task_update_def act_lift_def terminal_choice_def token_cancelled_def cleanup_of_def
      interrupted_reasons_def blocked_reasons_def run_artifacts_match_def gate_of_def new_gate_def
      act_defs close_gate_def task_get_eq
      converge_run_artifacts_def write_converged_def run_start_def run_write_state_def run_append_trace_def
      run_write_report_def utc_now_def io_write_ok Let_def run_files_of_def load_task_state_def load_json_def
      no_files_def caught_load_def task_update_eq write_task_def task_mirror_write_def task_read_eq
      publish_final_def publish_event_eq published_def release_active_def release_gate_def put_task_row_def
      upsert_run_def put_run_files_def set_status_def)

theorem slot_released_when_durable_witness:
  "\<exists>st reason. settled_as sample_run st reason
       (snd (worker_end sample_run (''failed'', ''model_error'', []) (sample_runner Running))) \<and> task_terminal st"
  using slot_released_when_durable [of "sample_runner Running" sample_run
      "snd (worker_end sample_run (''failed'', ''model_error'', []) (sample_runner Running))" False
      "(''failed'', ''model_error'', [])"] sample_good_row worker_end_sample
  by (auto simp: token_cancelled_def fenced_out_def gate_of_def new_gate_def)
end
