(* ===== verification/Startup_Reconcile.thy ===== *)
theory Startup_Reconcile
  imports Task_Runner
begin

text \<open>
  The start of the service: the import of the JSON mirror into the database
  (\<open>ControlPlaneMigrator\<close> in \<open>infrastructure/sqlite_repositories.py\<close>) and the reconciliation of
  what a previous process left behind (\<open>AppContainer.reconcile\<close> in \<open>lifespan.py\<close>).

  The checks of workspaces and sessions, the recovery of leases and the provider migrations only
  decide whether the result may still be true; they are the argument \<open>checks\<close>.
\<close>

section \<open>Importing the mirror\<close>

text \<open>A record without an owner is claimed by the configured one before it is parsed.\<close>

definition claim_task :: "string option \<Rightarrow> task \<Rightarrow> task" where
  "claim_task owner t =
     (case owner of None \<Rightarrow> t | Some o' \<Rightarrow> if t_owner_id t = [] then t\<lparr>t_owner_id := o'\<rparr> else t)"

definition claim_approval :: "string option \<Rightarrow> approval \<Rightarrow> approval" where
  "claim_approval owner a =
     (case owner of None \<Rightarrow> a | Some o' \<Rightarrow> if a_owner_id a = [] then a\<lparr>a_owner_id := o'\<rparr> else a)"

fun read_mirror ::
  "('r \<Rightarrow> ('a store_state_scheme, exn, 'r) act) \<Rightarrow> (string \<times> 'r option) list
     \<Rightarrow> ('a store_state_scheme, exn, 'r list) act" where
  "read_mirror parse [] = act_ret []"
| "read_mirror parse ((k, r) # rs) =
     (case r of
        None \<Rightarrow> act_raise (App Record_Corrupted)
      | Some p \<Rightarrow> act_bind (parse p) (\<lambda>x.
          act_bind (read_mirror parse rs) (\<lambda>xs. act_ret (x # xs))))"

definition read_all_tasks :: "string option \<Rightarrow> ('a store_state_scheme, exn, task list) act" where
  "read_all_tasks owner =
     act_bind (act_get (\<lambda>s. if st_mirrored s then sort_key fst (st_task_mirror s) else []))
       (read_mirror (\<lambda>t. task_from_payload (claim_task owner t)))"

definition read_all_approvals :: "string option \<Rightarrow> ('a store_state_scheme, exn, approval list) act" where
  "read_all_approvals owner =
     act_bind (act_get (\<lambda>s. if st_mirrored s then sort_key fst (st_approval_mirror s) else []))
       (read_mirror (\<lambda>a. approval_from_payload (claim_approval owner a)))"

definition import_json :: "string option \<Rightarrow> ('a store_state_scheme, exn, nat \<times> nat) act" where
  "import_json owner =
     act_bind (read_all_tasks owner) (\<lambda>tasks.
     act_bind (read_all_approvals owner) (\<lambda>approvals.
       act_then (act_each write_task tasks)
         (act_then (act_each write_approval approvals)
            (act_ret (length tasks, length approvals)))))"

section \<open>Reconciling\<close>

definition RECONCILE_ACTIVE :: "task_status set" where
  "RECONCILE_ACTIVE = {Queued, Running, Waiting_For_Approval, Cancel_Requested}"

definition set_failed_restarted :: "task \<Rightarrow> task" where
  "set_failed_restarted t =
     t\<lparr>t_status := Interrupted, t_stop_reason := Some ''service_restarted'', t_pending_approval := None\<rparr>"

definition set_recovered_terminal :: "task_status \<times> string \<times> string \<Rightarrow> task \<Rightarrow> task" where
  "set_recovered_terminal recovered t =
     (case recovered of (st, reason, answer) \<Rightarrow>
        t\<lparr>t_status := st, t_stop_reason := opt_of_text reason, t_final_answer := opt_of_text answer,
          t_pending_approval := None\<rparr>)"

definition set_approval_status :: "approval_status \<Rightarrow> string \<Rightarrow> int \<Rightarrow> approval \<Rightarrow> approval" where
  "set_approval_status st decision now a =
     a\<lparr>a_status := st, a_decision := Some decision, a_decided_at := Some now\<rparr>"

definition fail_service_restarted :: "task \<Rightarrow> ('a artifact_state_scheme, exn, unit) act" where
  "fail_service_restarted task =
     act_then
       (converge_run_artifacts task Interrupted ''service_restarted''
          ''agent run interrupted by service restart'')
       (act_then (task_update (t_task_id task) set_failed_restarted None) (act_ret ()))"

text \<open>The outcome of a step whose exceptions are caught: whether it went through.\<close>

definition succeeds :: "('s, 'e, 'b) act \<Rightarrow> ('s, 'e, bool) act" where
  "succeeds m = act_try m (\<lambda>_. act_ret True) (\<lambda>_. act_ret False)"

definition recover_active :: "task \<Rightarrow> ('a artifact_state_scheme, exn, unit) act" where
  "recover_active task =
     (if t_execution_environment task = ''local_worker''
      then act_then (task_update (t_task_id task) set_failed_restarted None) (act_ret ())
      else act_bind (act_get (terminal_task_from_run task)) (\<lambda>r.
        act_bind (act_lift r) (\<lambda>recovered.
          case recovered of
            None \<Rightarrow> fail_service_restarted task
          | Some rec \<Rightarrow>
              act_then (repair_terminal_run_artifacts task rec)
                (act_then (task_update (t_task_id task) (set_recovered_terminal rec) None) (act_ret ())))))"

text \<open>
  One task of the first loop.  The comparison of a terminal task with its artifacts stands in the
  condition of the \<open>elif\<close>, outside every \<open>try\<close>.
\<close>

definition reconcile_task :: "string \<Rightarrow> ('a artifact_state_scheme, exn, bool) act" where
  "reconcile_task tid =
     act_bind (act_try (task_get tid) (\<lambda>t. act_ret (Some t)) (\<lambda>_. act_ret None)) (\<lambda>task.
       case task of
         None \<Rightarrow> act_ret False
       | Some t \<Rightarrow>
           if t_status t \<in> RECONCILE_ACTIVE then succeeds (recover_active t)
           else if t_execution_environment t \<noteq> ''local_worker'' \<and> task_terminal (t_status t)
           then act_bind (act_get (run_artifacts_match t)) (\<lambda>r.
                act_bind (act_lift r) (\<lambda>same.
                  if same then act_ret True
                  else succeeds (converge_run_artifacts t (t_status t)
                         (if opt_text (t_stop_reason t) = [] then ''runtime_error''
                          else opt_text (t_stop_reason t))
                         (opt_text (t_final_answer t)))))
           else act_ret True)"

definition reconcile_approval :: "string \<Rightarrow> ('a artifact_state_scheme, exn, bool) act" where
  "reconcile_approval aid =
     act_bind (act_try (approval_get aid) (\<lambda>a. act_ret (Some a)) (\<lambda>_. act_ret None)) (\<lambda>approval.
       case approval of
         None \<Rightarrow> act_ret False
       | Some a \<Rightarrow>
           if a_status a = A_Pending
           then succeeds (act_bind utc_now (\<lambda>now.
                  approval_update aid (set_approval_status A_Expired ''expired'' now)))
           else act_ret True)"

text \<open>
  One open transition of the journal: an approval it may have left pending or approved is expired,
  then the transition is closed.  An approval that does not exist is fine.
\<close>

definition text_field :: "json \<Rightarrow> string \<Rightarrow> string" where
  "text_field v k = (case v of JObj kvs \<Rightarrow> py_str (get_default kvs k (JStr [])) | _ \<Rightarrow> [])"

definition expire_left_open :: "string \<Rightarrow> ('a artifact_state_scheme, exn, bool) act" where
  "expire_left_open aid =
     act_try
       (act_bind (approval_get aid) (\<lambda>a.
          act_when (a_status a = A_Pending \<or> a_status a = A_Approved)
            (act_bind utc_now (\<lambda>now.
               act_then (approval_update aid (set_approval_status A_Expired ''service_restarted'' now))
                 (act_ret ())))))
       (\<lambda>_. act_ret True) (\<lambda>e. act_ret (e = App Approval_Not_Found))"

definition reconcile_transition :: "json \<Rightarrow> ('a artifact_state_scheme, exn, bool) act" where
  "reconcile_transition transition =
     act_bind (expire_left_open (text_field transition ''approval_id'')) (\<lambda>ok.
       if ok then succeeds (journal_commit (text_field transition ''transition_id''))
       else act_ret False)"

text \<open>\<open>for x in xs\<close> with the flag \<open>ok\<close>.\<close>

fun all_succeed :: "('x \<Rightarrow> ('s, 'e, bool) act) \<Rightarrow> 'x list \<Rightarrow> bool \<Rightarrow> ('s, 'e, bool) act" where
  "all_succeed f [] ok = act_ret ok"
| "all_succeed f (x # xs) ok = act_bind (f x) (\<lambda>b. all_succeed f xs (ok \<and> b))"

definition reconcile :: "string option \<Rightarrow> bool \<Rightarrow> ('a artifact_state_scheme, exn, bool) act" where
  "reconcile owner checks =
     act_bind (succeeds (import_json owner)) (\<lambda>imported.
     act_bind (act_get task_list_stable) (\<lambda>tids.
     act_bind (all_succeed reconcile_task tids (checks \<and> imported)) (\<lambda>ok1.
     act_bind (act_get approval_list_stable) (\<lambda>aids.
     act_bind (all_succeed reconcile_approval aids ok1) (\<lambda>ok2.
     act_try journal_incomplete (\<lambda>open. all_succeed reconcile_transition open ok2) (\<lambda>_. act_ret False))))))"


section \<open>Facts\<close>

lemma all_succeed_wp:
  assumes step: "\<And>x s. x \<in> set xs \<Longrightarrow> I s \<Longrightarrow>
      act_wp (f x) (\<lambda>b t. I t \<and> (b \<longrightarrow> D x t) \<and> (\<forall>y. y \<noteq> x \<longrightarrow> D y s \<longrightarrow> D y t)) (\<lambda>_ _. True) s"
    and "I s"
  shows "act_wp (all_succeed f xs ok)
    (\<lambda>b t. I t \<and> (b \<longrightarrow> ok \<and> (\<forall>x\<in>set xs. D x t)) \<and> (\<forall>y. y \<notin> set xs \<longrightarrow> D y s \<longrightarrow> D y t)) (\<lambda>_ _. True) s"
  using assms
proof (induction xs arbitrary: s ok)
  case Nil
  then show ?case by (simp add: wp_simps)
next
  case (Cons x xs)
  have "act_wp (f x) (\<lambda>b t. I t \<and> (b \<longrightarrow> D x t) \<and> (\<forall>y. y \<noteq> x \<longrightarrow> D y s \<longrightarrow> D y t)) (\<lambda>_ _. True) s"
    using Cons.prems by simp
  then show ?case
    unfolding all_succeed.simps act_wp_bind
  proof (rule act_wp_conseq, goal_cases)
    case (1 b t)
    have "act_wp (all_succeed f xs (ok \<and> b))
       (\<lambda>b' t'. I t' \<and> (b' \<longrightarrow> (ok \<and> b) \<and> (\<forall>x\<in>set xs. D x t')) \<and> (\<forall>y. y \<notin> set xs \<longrightarrow> D y t \<longrightarrow> D y t'))
       (\<lambda>_ _. True) t"
      using 1 Cons.prems by (intro Cons.IH) auto
    then show ?case by (rule act_wp_conseq) (use 1 in auto)
  qed simp
qed

definition rows_of :: "'a store_state_scheme \<Rightarrow> (string \<times> task) list \<times> (string \<times> approval) list" where
  "rows_of s = (st_tasks s, st_approvals s)"

lemma converge_rows: "act_keeps (\<lambda>s. rows_of s = r) (converge_run_artifacts task st reason answer)"
  unfolding converge_run_artifacts_def write_converged_def run_start_def Let_def run_write_state_def
    run_append_trace_def run_write_report_def put_run_files_def
  by (auto intro!: keeps_rules io_write_keeps simp: rows_of_def split: sum.split)

lemma repair_rows: "act_keeps (\<lambda>s. rows_of s = r) (repair_terminal_run_artifacts task rec)"
  unfolding repair_terminal_run_artifacts_def run_append_trace_def run_write_report_def put_run_files_def
  by (auto intro!: keeps_rules io_write_keeps simp: rows_of_def split: prod.split)

lemma rows_ok_task_put:
  "rows_ok s \<Longrightarrow> canonical_owner_id (t_owner_id u) = Some (t_owner_id u) \<Longrightarrow> rows_ok (task_written u runs mir os s)"
  by (auto simp: rows_ok_def)

lemma rows_ok_approval_put:
  "rows_ok s \<Longrightarrow> canonical_owner_id (a_owner_id a) = Some (a_owner_id a) \<Longrightarrow> rows_ok (approval_written a mir os s)"
  by (auto simp: rows_ok_def distinct_obj_put)

lemma rows_ok_of: "rows_of t = rows_of s \<Longrightarrow> rows_ok t = rows_ok s"
  by (simp add: rows_ok_def rows_of_def)

lemma rows_ok_io [simp]: "rows_ok (s\<lparr>st_io := os\<rparr>) = rows_ok s"
  by (simp add: rows_ok_def)

text \<open>A task that is not active any more, an approval that is not pending.\<close>

definition task_done :: "string \<Rightarrow> 'a store_state_scheme \<Rightarrow> bool" where
  "task_done tid s \<longleftrightarrow> (\<forall>row. obj_get (st_tasks s) tid = Some row \<longrightarrow> t_status row \<notin> RECONCILE_ACTIVE)"

definition approval_done :: "string \<Rightarrow> 'a store_state_scheme \<Rightarrow> bool" where
  "approval_done aid s \<longleftrightarrow> (\<forall>row. obj_get (st_approvals s) aid = Some row \<longrightarrow> a_status row \<noteq> A_Pending)"

text \<open>What a step of the first loop respects.\<close>

definition task_step_ok :: "string \<Rightarrow> 'a store_state_scheme \<Rightarrow> 'a store_state_scheme \<Rightarrow> bool" where
  "task_step_ok tid s t \<longleftrightarrow> rows_ok t \<and> st_approvals t = st_approvals s
     \<and> (\<forall>k. k \<noteq> tid \<longrightarrow> obj_get (st_tasks t) k = obj_get (st_tasks s) k)
     \<and> (obj_get (st_tasks s) tid = None \<longrightarrow> obj_get (st_tasks t) tid = None)"

lemma task_step_same: "rows_ok s \<Longrightarrow> rows_of t = rows_of s \<Longrightarrow> task_step_ok tid s t"
  using rows_ok_of [of t s] by (auto simp: task_step_ok_def rows_of_def)

lemma settle_update_wp:
  assumes ok: "rows_ok s" and row: "obj_get (st_tasks s) tid = Some row" and t: "rows_of t = rows_of s"
    and fn: "\<And>r. t_task_id (fn r) = t_task_id r" "\<And>r. t_owner_id (fn r) = t_owner_id r"
      "\<And>r. t_status (fn r) \<notin> RECONCILE_ACTIVE"
    and Q: "\<And>a u. task_step_ok tid s u \<Longrightarrow> task_done tid u \<Longrightarrow> Q a u" and E: "\<And>e u. task_step_ok tid s u \<Longrightarrow> E e u"
  shows "act_wp (task_update tid fn None) Q E t"
proof -
  have same: "task_step_ok tid s (t\<lparr>st_io := os\<rparr>)" "task_step_ok tid s t" for os
    using ok t by (simp_all add: task_step_same rows_of_def)
  have trow: "obj_get (st_tasks t) tid = Some row" "rows_ok t" "st_approvals t = st_approvals s"
      "st_tasks t = st_tasks s"
    using ok row t rows_ok_of [OF t] by (simp_all add: rows_of_def)
  have good: "t_task_id row = tid" "canonical_owner_id (t_owner_id row) = Some (t_owner_id row)"
    using trow by (auto simp: rows_ok_def)
  show ?thesis
  proof (rule task_update_wp, goal_cases)
    case (1 row' o' runs mir os u)
    then have u: "t_task_id u = tid" "t_owner_id u = t_owner_id row" "t_status u \<notin> RECONCILE_ACTIVE"
      using trow good fn by simp_all
    have "rows_ok (task_written u runs mir os t)"
      using trow(2) good u by (intro rows_ok_task_put) simp_all
    then have "task_step_ok tid s (task_written u runs mir os t)"
      using trow u row by (simp add: task_step_ok_def)
    moreover have "task_done tid (task_written u runs mir os t)" using u by (simp add: task_done_def)
    ultimately show ?case by (intro conjI Q E)
  qed (auto intro: E same)
qed

lemma succeeds_wp [wp_simps]: "act_wp (succeeds m) Q E = act_wp m (\<lambda>_. Q True) (\<lambda>_. Q False)"
  by (simp add: succeeds_def wp_simps)

lemma terminal_task_from_run_done:
  assumes "terminal_task_from_run task s = Inr (Some (st, reason, answer))"
  shows "st \<notin> RECONCILE_ACTIVE"
proof (cases "load_task_state (run_files_of s (t_run_id task))")
  case (Inr ts)
  with assms have "task_terminal st" by (rule terminal_task_from_runD)
  then show ?thesis by (auto simp: task_terminal_def RECONCILE_ACTIVE_def)
qed (use assms in \<open>auto simp: terminal_task_from_run_def split: if_splits\<close>)

lemma rows_wp:
  assumes "act_keeps (\<lambda>t. rows_of t = rows_of s) m"
    and "\<And>a t. rows_of t = rows_of s \<Longrightarrow> Q a t" and "\<And>e t. rows_of t = rows_of s \<Longrightarrow> E e t"
  shows "act_wp m Q E s"
  using assms(1) by (rule keeps_wp) (auto intro: assms(2,3))

lemma recover_active_wp:
  assumes "rows_ok s" and "obj_get (st_tasks s) tid = Some row"
    and Q: "\<And>a u. task_step_ok tid s u \<Longrightarrow> task_done tid u \<Longrightarrow> Q a u" and E: "\<And>e u. task_step_ok tid s u \<Longrightarrow> E e u"
  shows "act_wp (recover_active row) Q E s"
proof -
  have tid: "t_task_id row = tid" using assms(1,2) by (simp add: rows_ok_def)
  have restarted: "act_wp (task_update tid set_failed_restarted None) (\<lambda>_. Q ()) E t"
    if "rows_of t = rows_of s" for t
    by (rule settle_update_wp [OF assms(1,2) that _ _ _ Q E])
      (simp_all add: set_failed_restarted_def RECONCILE_ACTIVE_def)
  have recovered: "act_wp (task_update tid (set_recovered_terminal (st, reason, answer)) None) (\<lambda>_. Q ()) E t"
    if "rows_of t = rows_of s" "st \<notin> RECONCILE_ACTIVE" for t st reason answer
    by (rule settle_update_wp [OF assms(1,2) that(1) _ _ _ Q E])
      (simp_all add: set_recovered_terminal_def that(2))
  have fail: "act_wp (fail_service_restarted row) Q E s"
    unfolding fail_service_restarted_def
    by (auto simp: wp_simps tid intro!: rows_wp [OF converge_rows] restarted E task_step_same assms(1))
  have repair: "act_wp (repair_terminal_run_artifacts row rec)
      (\<lambda>_. act_wp (task_update tid (set_recovered_terminal rec) None) (\<lambda>_. Q ()) E) E s"
    if "terminal_task_from_run row s = Inr (Some rec)" for rec
  proof (rule rows_wp [OF repair_rows])
    obtain st reason answer where rec: "rec = (st, reason, answer)" by (cases rec)
    with that have "st \<notin> RECONCILE_ACTIVE" by (auto dest: terminal_task_from_run_done)
    then show "act_wp (task_update tid (set_recovered_terminal rec) None) (\<lambda>_. Q ()) E t"
      if "rows_of t = rows_of s" for t using that rec recovered by simp
  qed (intro E task_step_same assms(1))
  have here: "task_step_ok tid s s" using assms(1) by (simp add: task_step_same)
  show ?thesis
    unfolding recover_active_def
    using restarted [of s] fail repair here
    by (auto simp: wp_simps tid intro: E split: sum.split option.split)
qed

lemma reconcile_task_wp:
  assumes "rows_ok s"
  shows "act_wp (reconcile_task tid) (\<lambda>b t. task_step_ok tid s t \<and> (b \<longrightarrow> task_done tid t)) (\<lambda>_ _. True) s"
proof (cases "obj_get (st_tasks s) tid")
  case None
  then show ?thesis using task_step_same [OF assms, of s]
    by (simp add: reconcile_task_def wp_simps)
next
  case (Some row)
  then have row: "canonical_owner_id (t_owner_id row) = Some (t_owner_id row)" "row\<lparr>t_owner_id := t_owner_id row\<rparr> = row"
    using assms by (auto simp: rows_ok_def)
  have recover: "act_wp (recover_active row) (\<lambda>_ t. task_step_ok tid s t \<and> task_done tid t)
      (\<lambda>_ t. task_step_ok tid s t) s"
    using assms Some by (rule recover_active_wp) auto
  have converge: "act_wp (converge_run_artifacts row st reason answer)
      (\<lambda>_ t. task_step_ok tid s t \<and> task_done tid t) (\<lambda>_ t. task_step_ok tid s t) s"
    if "t_status row \<notin> RECONCILE_ACTIVE" for st reason answer
    using that assms Some
    by (intro rows_wp [OF converge_rows]) (auto intro: task_step_same simp: task_done_def rows_of_def)
  have here: "task_step_ok tid s s" "t_status row \<notin> RECONCILE_ACTIVE \<Longrightarrow> task_done tid s"
    using assms Some by (simp_all add: task_step_same task_done_def)
  show ?thesis
    unfolding reconcile_task_def
    using recover converge here
    by (auto simp: wp_simps Some row split: sum.split)
qed

lemma reconcile_tasks_wp:
  fixes s :: "'a artifact_state_scheme"
  assumes "rows_ok s"
  shows "act_wp (all_succeed reconcile_task tids ok)
    (\<lambda>b t. rows_ok t \<and> st_approvals t = st_approvals s
       \<and> (b \<longrightarrow> ok \<and> (\<forall>tid. tid \<in> set tids \<or> obj_get (st_tasks s) tid = None \<longrightarrow> task_done tid t)))
    (\<lambda>_ _. True) s"
proof (rule act_wp_conseq [OF all_succeed_wp
    [where I = "\<lambda>t. rows_ok t \<and> st_approvals t = st_approvals s" and D = task_done]])
  fix x and t :: "'a artifact_state_scheme" assume t: "rows_ok t \<and> st_approvals t = st_approvals s"
  show "act_wp (reconcile_task x) (\<lambda>b u. (rows_ok u \<and> st_approvals u = st_approvals s) \<and> (b \<longrightarrow> task_done x u)
      \<and> (\<forall>y. y \<noteq> x \<longrightarrow> task_done y t \<longrightarrow> task_done y u)) (\<lambda>_ _. True) t"
    using t by (intro act_wp_conseq [OF reconcile_task_wp]) (auto simp: task_step_ok_def task_done_def)
qed (use assms in \<open>auto simp: task_done_def\<close>)

subsection \<open>Approvals and open transitions\<close>

lemma expire_wp:
  assumes "rows_ok s" and Q: "\<And>a t. rows_ok t \<Longrightarrow> st_tasks t = st_tasks s \<Longrightarrow> approval_done aid t \<Longrightarrow>
      (\<And>k. approval_done k s \<Longrightarrow> approval_done k t) \<Longrightarrow> Q a t"
    and E: "\<And>e t. rows_ok t \<Longrightarrow> st_tasks t = st_tasks s \<Longrightarrow>
      (\<And>k. approval_done k s \<Longrightarrow> approval_done k t) \<Longrightarrow> E e t"
  shows "act_wp (approval_update aid (set_approval_status A_Expired d now)) Q E s"
proof -
  have same: "rows_ok (s\<lparr>st_io := os\<rparr>)" "st_tasks (s\<lparr>st_io := os\<rparr>) = st_tasks s"
    "approval_done k s \<Longrightarrow> approval_done k (s\<lparr>st_io := os\<rparr>)" for os k
    using assms(1) by (simp_all add: approval_done_def)
  have put: "rows_ok (approval_written a mir os s)" "approval_done aid (approval_written a mir os s)"
    "approval_done k s \<Longrightarrow> approval_done k (approval_written a mir os s)"
    if "a_approval_id a = aid" "canonical_owner_id (a_owner_id a) = Some (a_owner_id a)" "a_status a = A_Expired"
    for a mir os k
    using that assms(1) rows_ok_approval_put [of s a mir os] by (auto simp: approval_done_def)
  show ?thesis
    unfolding approval_update_def
    using assms(1)
    by (auto simp: wp_simps rows_ok_def set_approval_status_def intro!: write_approval_wp Q E put same
        split: option.split)
qed

definition approval_step_ok :: "'a store_state_scheme \<Rightarrow> 'a store_state_scheme \<Rightarrow> bool" where
  "approval_step_ok s t \<longleftrightarrow> rows_ok t \<and> st_tasks t = st_tasks s
     \<and> (\<forall>k. approval_done k s \<longrightarrow> approval_done k t)"

lemma approval_step_refl: "rows_ok s \<Longrightarrow> approval_step_ok s s"
  by (simp add: approval_step_ok_def)

lemma expire_step_wp:
  assumes "rows_ok s" and "\<And>a t. approval_step_ok s t \<Longrightarrow> approval_done aid t \<Longrightarrow> Q a t"
    and "\<And>e t. approval_step_ok s t \<Longrightarrow> E e t"
  shows "act_wp (approval_update aid (set_approval_status A_Expired d now)) Q E s"
  by (rule expire_wp [OF assms(1)]) (auto intro: assms(2,3) simp: approval_step_ok_def)

lemma reconcile_approval_wp:
  assumes "rows_ok s"
  shows "act_wp (reconcile_approval aid) (\<lambda>b t. approval_step_ok s t \<and> (b \<longrightarrow> approval_done aid t)) (\<lambda>_ _. True) s"
proof -
  have expire: "act_wp (approval_update aid (set_approval_status A_Expired ''expired'' now))
      (\<lambda>_ t. approval_step_ok s t \<and> approval_done aid t) (\<lambda>_ t. approval_step_ok s t) s" for now
    by (rule expire_step_wp [OF assms]) auto
  show ?thesis
    unfolding reconcile_approval_def
    using expire assms approval_step_refl [OF assms]
    by (auto simp: wp_simps approval_done_def split: option.split)
qed

lemma reconcile_approvals_wp:
  fixes s :: "'a artifact_state_scheme"
  assumes "rows_ok s"
  shows "act_wp (all_succeed reconcile_approval aids ok)
    (\<lambda>b t. approval_step_ok s t
       \<and> (b \<longrightarrow> ok \<and> (\<forall>aid. aid \<in> set aids \<or> obj_get (st_approvals s) aid = None \<longrightarrow> approval_done aid t)))
    (\<lambda>_ _. True) s"
proof (rule act_wp_conseq [OF all_succeed_wp
    [where I = "\<lambda>t. approval_step_ok s t" and D = approval_done]])
  fix x and t :: "'a artifact_state_scheme" assume t: "approval_step_ok s t"
  then have "rows_ok t" by (simp add: approval_step_ok_def)
  from reconcile_approval_wp [OF this, of x]
  show "act_wp (reconcile_approval x) (\<lambda>b u. approval_step_ok s u \<and> (b \<longrightarrow> approval_done x u)
      \<and> (\<forall>y. y \<noteq> x \<longrightarrow> approval_done y t \<longrightarrow> approval_done y u)) (\<lambda>_ _. True) t"
    by (rule act_wp_conseq) (use t in \<open>auto simp: approval_step_ok_def\<close>)
qed (use approval_step_refl [OF assms] in \<open>auto simp: approval_done_def\<close>)

lemma journal_wp:
  assumes "\<And>a t. rows_of t = rows_of s \<Longrightarrow> Q a t" and "\<And>e t. rows_of t = rows_of s \<Longrightarrow> E e t"
  shows "act_wp (journal_commit txn) (\<lambda>_. Q ()) E s" and "act_wp journal_incomplete (\<lambda>_. Q ()) E s"
proof -
  have append: "act_keeps (\<lambda>t. rows_of t = rows_of s) (journal_append r)" for r
    by (rule act_keepsI)
      (auto simp: journal_append_def journal_joined_def rows_of_def split: list.split io_outcome.split)
  show "act_wp (journal_commit txn) (\<lambda>_. Q ()) E s"
    unfolding journal_commit_def by (rule rows_wp) (auto intro!: keeps_rules append assms)
  show "act_wp journal_incomplete (\<lambda>_. Q ()) E s"
    unfolding journal_incomplete_def
    by (rule rows_wp)
      (auto intro!: keeps_rules io_write_keeps assms simp: rows_of_def split: sum.split)
qed

lemma approval_step_rows: "rows_of u = rows_of t \<Longrightarrow> approval_step_ok s t \<Longrightarrow> approval_step_ok s u"
  using rows_ok_of [of u t] by (auto simp: approval_step_ok_def rows_of_def approval_done_def)

lemma approval_step_trans: "approval_step_ok s t \<Longrightarrow> approval_step_ok t u \<Longrightarrow> approval_step_ok s u"
  by (auto simp: approval_step_ok_def)

lemma reconcile_transition_wp:
  assumes "rows_ok s"
  shows "act_wp (reconcile_transition tr) (\<lambda>_. approval_step_ok s) (\<lambda>_ _. True) s"
proof -
  have here: "approval_step_ok s s" using assms by (rule approval_step_refl)
  have commit: "act_wp (journal_commit txn) (\<lambda>_. approval_step_ok s) (\<lambda>_. approval_step_ok s) t"
    if "approval_step_ok s t" for txn t
    by (rule journal_wp) (use that in \<open>auto intro: approval_step_rows\<close>)
  show ?thesis
    unfolding reconcile_transition_def expire_left_open_def
    using here commit by (auto simp: wp_simps intro!: expire_step_wp [OF assms] split: option.split)
qed

lemma reconcile_transitions_wp:
  fixes s :: "'a artifact_state_scheme"
  assumes "rows_ok s"
  shows "act_wp (all_succeed reconcile_transition trs ok) (\<lambda>b t. approval_step_ok s t \<and> (b \<longrightarrow> ok)) (\<lambda>_ _. True) s"
proof (rule act_wp_conseq [OF all_succeed_wp [where I = "approval_step_ok s" and D = "\<lambda>_ _. True"]])
  fix x and t :: "'a artifact_state_scheme" assume t: "approval_step_ok s t"
  then have "rows_ok t" by (simp add: approval_step_ok_def)
  from reconcile_transition_wp [OF this, of x]
  show "act_wp (reconcile_transition x) (\<lambda>b u. approval_step_ok s u \<and> (b \<longrightarrow> True)
      \<and> (\<forall>y. y \<noteq> x \<longrightarrow> True \<longrightarrow> True)) (\<lambda>_ _. True) t"
    by (rule act_wp_conseq) (use t in \<open>auto intro: approval_step_trans\<close>)
qed (use approval_step_refl [OF assms] in auto)

subsection \<open>The import\<close>

lemma read_mirror_wp:
  assumes "\<And>r. act_wp (parse r) (\<lambda>x t. t = s \<and> P x) (\<lambda>_ t. t = s) s"
  shows "act_wp (read_mirror parse rs) (\<lambda>xs t. t = s \<and> (\<forall>x\<in>set xs. P x)) (\<lambda>_ t. t = s) s"
proof (induction rs)
  case (Cons r rs)
  obtain k v where r: "r = (k, v)" by (cases r)
  show ?case
  proof (cases v)
    case (Some p)
    have "act_wp (parse p) (\<lambda>x. act_wp (read_mirror parse rs)
        (\<lambda>xs t. t = s \<and> P x \<and> (\<forall>x\<in>set xs. P x)) (\<lambda>_ t. t = s)) (\<lambda>_ t. t = s) s"
      by (rule act_wp_conseq [OF assms]) (use Cons.IH in \<open>auto elim: act_wp_conseq\<close>)
    then show ?thesis by (simp add: r Some wp_simps)
  qed (simp add: r wp_simps)
qed (simp add: wp_simps)

lemma read_all_wp:
  "act_wp (read_all_tasks owner)
     (\<lambda>ts t. t = s \<and> (\<forall>x\<in>set ts. canonical_owner_id (t_owner_id x) = Some (t_owner_id x))) (\<lambda>_ t. t = s) s"
  "act_wp (read_all_approvals owner)
     (\<lambda>as t. t = s \<and> (\<forall>x\<in>set as. canonical_owner_id (a_owner_id x) = Some (a_owner_id x))) (\<lambda>_ t. t = s) s"
  unfolding read_all_tasks_def read_all_approvals_def act_wp_bind act_wp_get
  by (rule read_mirror_wp;
      simp add: task_from_payload_def approval_from_payload_def wp_simps canonical_owner_id_fixed split: option.split)+

lemma writes_ok:
  "\<forall>x\<in>set ts. canonical_owner_id (t_owner_id x) = Some (t_owner_id x) \<Longrightarrow> act_keeps rows_ok (act_each write_task ts)"
  "\<forall>x\<in>set as. canonical_owner_id (a_owner_id x) = Some (a_owner_id x) \<Longrightarrow> act_keeps rows_ok (act_each write_approval as)"
proof -
  show "\<forall>x\<in>set ts. canonical_owner_id (t_owner_id x) = Some (t_owner_id x) \<Longrightarrow> act_keeps rows_ok (act_each write_task ts)"
    by (rule act_keeps_each) (auto simp: act_triple_wp intro!: write_task_wp rows_ok_task_put)
  show "\<forall>x\<in>set as. canonical_owner_id (a_owner_id x) = Some (a_owner_id x) \<Longrightarrow> act_keeps rows_ok (act_each write_approval as)"
    by (rule act_keeps_each) (auto simp: act_triple_wp intro!: write_approval_wp rows_ok_approval_put)
qed

lemma import_json_ok:
  assumes "rows_ok s"
  shows "act_wp (import_json owner) (\<lambda>_. rows_ok) (\<lambda>_. rows_ok) s"
proof -
  have writes: "act_wp (act_each write_task ts) (\<lambda>_. act_wp (act_each write_approval as) (\<lambda>_. rows_ok) (\<lambda>_. rows_ok))
      (\<lambda>_. rows_ok) s"
    if "\<forall>x\<in>set ts. canonical_owner_id (t_owner_id x) = Some (t_owner_id x)"
      "\<forall>x\<in>set as. canonical_owner_id (a_owner_id x) = Some (a_owner_id x)" for ts as
    by (rule keeps_wp [OF writes_ok(1) [OF that(1)] assms])
      (auto intro: keeps_wp [OF writes_ok(2) [OF that(2)]])
  have approvals: "act_wp (read_all_approvals owner) (\<lambda>as. act_wp (act_each write_task ts)
      (\<lambda>_. act_wp (act_each write_approval as) (\<lambda>_. rows_ok) (\<lambda>_. rows_ok)) (\<lambda>_. rows_ok)) (\<lambda>_. rows_ok) s"
    if "\<forall>x\<in>set ts. canonical_owner_id (t_owner_id x) = Some (t_owner_id x)" for ts
    by (rule act_wp_conseq [OF read_all_wp(2)]) (use that writes assms in auto)
  show ?thesis
    unfolding import_json_def
    by (simp add: wp_simps, rule act_wp_conseq [OF read_all_wp(1)]) (use approvals assms in auto)
qed

section \<open>Properties\<close>

lemma in_list_stable:
  "obj_get (st_tasks s) tid \<noteq> None \<Longrightarrow> tid \<in> set (task_list_stable s)"
  "obj_get (st_approvals s) aid \<noteq> None \<Longrightarrow> aid \<in> set (approval_list_stable s)"
proof -
  have key: "obj_get d k \<noteq> None \<Longrightarrow> k \<in> set (map fst d)" for d :: "(string \<times> 'v) list" and k
    by (induction d) (auto split: if_splits)
  show "obj_get (st_tasks s) tid \<noteq> None \<Longrightarrow> tid \<in> set (task_list_stable s)"
    using key by (fastforce simp: task_list_stable_def tasks_newest_first_def)
  show "obj_get (st_approvals s) aid \<noteq> None \<Longrightarrow> aid \<in> set (approval_list_stable s)"
    using key by (fastforce simp: approval_list_stable_def)
qed

lemma reconcile_wp:
  fixes s :: "'a artifact_state_scheme"
  assumes "rows_ok s"
  shows "act_wp (reconcile owner checks)
    (\<lambda>b t. b \<longrightarrow> checks \<and> (\<forall>tid. task_done tid t) \<and> (\<forall>aid. approval_done aid t)) (\<lambda>_ _. True) s"
proof -
  let ?Q = "\<lambda>b t. b \<longrightarrow> checks \<and> (\<forall>tid. task_done tid t) \<and> (\<forall>aid. approval_done aid t)"
  let ?E = "\<lambda>_ _. True"
  have same_tasks: "task_done tid u = task_done tid t" if "st_tasks u = st_tasks t"
    for tid and u t :: "'a artifact_state_scheme"
    using that by (simp add: task_done_def)
  have transitions: "act_wp (all_succeed reconcile_transition trs ok2) ?Q ?E t"
    if "rows_ok t" "ok2 \<longrightarrow> checks \<and> (\<forall>tid. task_done tid t) \<and> (\<forall>aid. approval_done aid t)"
    for t :: "'a artifact_state_scheme" and trs ok2
  proof (rule act_wp_conseq [OF reconcile_transitions_wp [OF that(1)]], goal_cases)
    case (1 b u)
    then have u: "st_tasks u = st_tasks t" "\<And>aid. approval_done aid t \<Longrightarrow> approval_done aid u"
      by (simp_all add: approval_step_ok_def)
    show ?case using 1 that(2) u(2) same_tasks [OF u(1)] by blast
  qed simp
  have journal: "act_wp (act_try journal_incomplete (\<lambda>open. all_succeed reconcile_transition open ok2)
      (\<lambda>_. act_ret False)) ?Q ?E t"
    if "rows_ok t" "ok2 \<longrightarrow> checks \<and> (\<forall>tid. task_done tid t) \<and> (\<forall>aid. approval_done aid t)"
    for t :: "'a artifact_state_scheme" and ok2
    unfolding act_wp_try act_wp_ret
  proof (rule act_wpI, goal_cases)
    case (1 trs u)
    have "act_wp journal_incomplete (\<lambda>_ u. rows_of u = rows_of t) (\<lambda>_ _. True) t"
      using journal_wp(2) [of t "\<lambda>_ u. rows_of u = rows_of t" "\<lambda>_ _. True"] by simp
    then have "rows_of u = rows_of t" using 1 by (rule act_wp_retD)
    then have "rows_ok u" "\<And>tid. task_done tid u = task_done tid t" "\<And>aid. approval_done aid u = approval_done aid t"
      using that(1) rows_ok_of [of u t] by (auto simp: rows_of_def task_done_def approval_done_def)
    then show ?case using that(2) by (intro transitions) auto
  qed simp
  have approvals: "act_wp (all_succeed reconcile_approval (approval_list_stable t) ok1)
      (\<lambda>ok2. act_wp (act_try journal_incomplete (\<lambda>open. all_succeed reconcile_transition open ok2)
         (\<lambda>_. act_ret False)) ?Q ?E) ?E t"
    if "rows_ok t" "ok1 \<longrightarrow> checks \<and> (\<forall>tid. task_done tid t)" for t :: "'a artifact_state_scheme" and ok1
  proof (rule act_wp_conseq [OF reconcile_approvals_wp [OF that(1)]], goal_cases)
    case (1 b u)
    then have u: "rows_ok u" "st_tasks u = st_tasks t" by (simp_all add: approval_step_ok_def)
    have "b \<longrightarrow> approval_done aid u" for aid using 1 in_list_stable(2) [of t aid] by blast
    then show ?case using 1 that(2) u same_tasks [OF u(2)] by (intro journal) auto
  qed simp
  have tasks: "act_wp (all_succeed reconcile_task (task_list_stable t) ok)
      (\<lambda>ok1. act_wp (act_bind (act_get approval_list_stable) (\<lambda>aids. act_bind (all_succeed reconcile_approval aids ok1)
         (\<lambda>ok2. act_try journal_incomplete (\<lambda>open. all_succeed reconcile_transition open ok2)
           (\<lambda>_. act_ret False)))) ?Q ?E) ?E t"
    if "rows_ok t" "ok \<longrightarrow> checks" for t :: "'a artifact_state_scheme" and ok
  proof (rule act_wp_conseq [OF reconcile_tasks_wp [OF that(1)]], goal_cases)
    case (1 b u)
    have "b \<longrightarrow> task_done tid u" for tid using 1 in_list_stable(1) [of t tid] by blast
    then show ?case unfolding act_wp_bind act_wp_get using 1 that(2) by (intro approvals) auto
  qed simp
  show ?thesis
    unfolding reconcile_def act_wp_bind [of "succeeds (import_json owner)"] succeeds_wp
    by (rule act_wp_conseq [OF import_json_ok [OF assms]])
      (use tasks in \<open>auto simp: wp_simps\<close>)
qed

text \<open>
  C4. When the reconciliation at start-up returns true, nothing of the previous process is left
  running: no task is queued, running, waiting or being cancelled, and no approval is pending,
  whatever the journal, the artifacts and the mirror held.
\<close>

theorem reconcile_settles:
  fixes s :: "'a artifact_state_scheme"
  assumes "rows_ok s" and "reconcile owner checks s = (Inr True, t)"
  shows "checks \<and> (\<forall>tid row. obj_get (st_tasks t) tid = Some row \<longrightarrow> t_status row \<notin> RECONCILE_ACTIVE)
    \<and> (\<forall>aid row. obj_get (st_approvals t) aid = Some row \<longrightarrow> a_status row \<noteq> A_Pending)"
  using act_wp_retD [OF reconcile_wp [OF assms(1)] assms(2)] by (simp add: task_done_def approval_done_def)

definition sample_boot :: "task_status \<Rightarrow> run_files \<Rightarrow> artifact_state" where
  "sample_boot st f = (sample_artifacts f)\<lparr>st_tasks := [(''task_1'', sample_task\<lparr>t_status := st\<rparr>)],
     st_approvals := [(''apr_0'', sample_approval)]\<rparr>"

lemma sample_boot_simps [simp]:
  "st_tasks (sample_boot st f) = [(''task_1'', sample_task\<lparr>t_status := st\<rparr>)]"
  "st_approvals (sample_boot st f) = [(''apr_0'', sample_approval)]"
  "st_io (sample_boot st f) = []" "st_mirrored (sample_boot st f) = False"
  "ar_runs (sample_boot st f) = [(''run_1'', f)]" "jn_lines (sample_boot st f) = []" "jn_torn (sample_boot st f) = False"
  by (simp_all add: sample_boot_def sample_artifacts_def sample_gate_def artifact_state.defs gate_state.defs)

lemma sample_boot_rows: "rows_ok (sample_boot st f)"
  by (simp add: rows_ok_def)

lemmas boot_eval =
  reconcile_def import_json_def read_all_tasks_def read_all_approvals_def succeeds_def act_defs
  task_list_stable_def tasks_newest_first_def approval_list_stable_def reconcile_task_def reconcile_approval_def
  recover_active_def fail_service_restarted_def task_get_eq approval_get_eq act_lift_def
  converge_run_artifacts_def write_converged_def run_start_def run_write_state_def run_append_trace_def
  run_write_report_def utc_now_def io_write_ok Let_def run_files_of_def load_task_state_def load_json_def
  no_files_def caught_load_def task_update_eq write_task_def task_mirror_write_def task_read_eq put_task_row_def
  upsert_run_def put_run_files_def approval_update_def approval_read_eq write_approval_def approval_mirror_write_def
  put_approval_row_def journal_incomplete_def set_failed_restarted_def set_approval_status_def
  terminal_task_from_run_def run_artifacts_match_def

theorem reconcile_settles_witness:
  "fst (reconcile None True (sample_boot Running no_files)) = Inr True \<and>
   (\<exists>row. obj_get (st_tasks (snd (reconcile None True (sample_boot Running no_files)))) ''task_1'' = Some row \<and>
     t_status row \<notin> RECONCILE_ACTIVE)"
proof -
  let ?r = "reconcile None True (sample_boot Running no_files)"
  have ok: "fst ?r = Inr True" and kept: "obj_get (st_tasks (snd ?r)) ''task_1'' \<noteq> None"
    by (simp_all add: boot_eval RECONCILE_ACTIVE_def)
  from ok have "?r = (Inr True, snd ?r)" by (simp add: prod_eq_iff)
  from reconcile_settles [OF sample_boot_rows this] ok kept show ?thesis by blast
qed

text \<open>
  C9. A \<open>task_state.json\<close> that is valid JSON but not an object makes the start of the
  service fail: the comparison of a terminal task with its artifacts raises
  \<open>AttributeError\<close>, which neither it nor the loop around it catches.
\<close>

theorem bad_artifact_stops_start:
  fixes s :: "'a artifact_state_scheme"
  assumes "st_tasks s = [(tid, row)]" and "st_mirrored s = False"
    and "canonical_owner_id (t_owner_id row) = Some (t_owner_id row)" and "task_terminal (t_status row)"
    and "t_execution_environment row \<noteq> ''local_worker''" and "t_run_id row \<noteq> []"
    and "rf_state (run_files_of s (t_run_id row)) = Some (Json_File (JList vs))"
  shows "fst (reconcile owner checks s) = Inl Attribute_Error"
proof -
  have row: "row\<lparr>t_owner_id := t_owner_id row\<rparr> = row" by simp
  have active: "t_status row \<notin> RECONCILE_ACTIVE"
    using assms(4) by (auto simp: RECONCILE_ACTIVE_def task_terminal_def)
  have "run_artifacts_match row s = Inl Attribute_Error"
    using assms(6,7) by (simp add: run_artifacts_match_def Let_def load_task_state_def load_json_def caught_load_def)
  then have "reconcile_task tid s = (Inl Attribute_Error, s)"
    using assms(1,3,4,5) row active by (simp add: reconcile_task_def act_defs task_get_eq act_lift_def)
  moreover have "import_json owner s = (Inr (0, 0), s)"
    using assms(2) by (simp add: import_json_def read_all_tasks_def read_all_approvals_def act_defs)
  ultimately show ?thesis
    using assms(1) by (simp add: reconcile_def succeeds_def act_defs task_list_stable_def tasks_newest_first_def)
qed

lemma sample_task_env [simp]: "t_execution_environment sample_task = ''backend_process''"
  by (simp add: sample_task_def new_task_def)

theorem bad_artifact_stops_start_witness:
  "fst (reconcile None True (sample_boot Completed (no_files\<lparr>rf_state := Some (Json_File (JList []))\<rparr>)))
   = Inl Attribute_Error"
  by (rule bad_artifact_stops_start
      [where tid = "''task_1''" and row = "sample_task\<lparr>t_status := Completed\<rparr>" and vs = "[]"])
    (simp_all add: task_terminal_def run_files_of_def)

text \<open>What the import reads is what it writes.\<close>

definition imported_task :: "string option \<Rightarrow> task \<Rightarrow> task option" where
  "imported_task owner r =
     map_option (\<lambda>o'. (claim_task owner r)\<lparr>t_owner_id := o'\<rparr>)
       (canonical_owner_id (t_owner_id (claim_task owner r)))"

lemma read_tasks_exact:
  "read_mirror (\<lambda>t. task_from_payload (claim_task owner t)) rs s = (Inr ts, s') \<Longrightarrow>
     s' = s \<and> map (\<lambda>(k, r). Option.bind r (imported_task owner)) rs = map Some ts"
proof (induction rs arbitrary: ts s')
  case (Cons r rs)
  obtain k v where r: "r = (k, v)" by (cases r)
  from Cons.prems obtain p where v: "v = Some p" by (cases v) (auto simp: r act_defs)
  from Cons.prems obtain o' us where o: "canonical_owner_id (t_owner_id (claim_task owner p)) = Some o'"
    and us: "read_mirror (\<lambda>t. task_from_payload (claim_task owner t)) rs s = (Inr us, s')"
    and ts: "ts = (claim_task owner p)\<lparr>t_owner_id := o'\<rparr> # us"
    by (auto simp: r v act_defs task_from_payload_def split: option.splits prod.splits sum.splits)
  from Cons.IH [OF us] show ?case by (simp add: r v imported_task_def o ts)
qed (simp add: act_defs)

lemma written_rows_wp:
  "distinct (map t_task_id ts) \<Longrightarrow> \<forall>u\<in>set us. obj_get (st_tasks s) (t_task_id u) = Some u \<Longrightarrow>
     \<forall>u\<in>set us. t_task_id u \<notin> t_task_id ` set ts \<Longrightarrow>
     act_wp (act_each write_task ts)
       (\<lambda>_ t. \<forall>u\<in>set ts \<union> set us. obj_get (st_tasks t) (t_task_id u) = Some u) (\<lambda>_ _. True) s"
proof (induction ts arbitrary: us s)
  case (Cons x ts)
  have "act_wp (act_each write_task ts)
       (\<lambda>_ t. \<forall>u\<in>set ts \<union> set (x # us). obj_get (st_tasks t) (t_task_id u) = Some u) (\<lambda>_ _. True)
       (task_written x runs mir os s)" for runs mir os
    using Cons.prems by (intro Cons.IH) auto
  then show ?case by (auto simp: wp_simps intro!: write_task_wp)
qed (simp add: wp_simps)

lemma distinct_map_fst_sort_key: "distinct (map fst (sort_key fst xs)) = distinct (map fst xs)"
  by (simp add: distinct_map)

text \<open>
  The import at start-up writes every record of the mirror back over the row of the database,
  whatever the row holds: a committed update whose mirror file was not yet replaced is undone.
\<close>

theorem import_restores_mirror:
  fixes s :: "'a store_state_scheme"
  assumes "import_json owner s = (Inr n, t)" and "st_mirrored s"
    and "distinct (map fst (st_task_mirror s))"
    and "\<forall>k r. (k, Some r) \<in> set (st_task_mirror s) \<longrightarrow> t_task_id r = k"
    and "(tid, Some rec) \<in> set (st_task_mirror s)"
  shows "obj_get (st_tasks t) tid = imported_task owner rec"
proof -
  let ?rs = "sort_key fst (st_task_mirror s)"
  obtain ts as where ts: "read_mirror (\<lambda>t. task_from_payload (claim_task owner t)) ?rs s = (Inr ts, s)"
    and run: "act_then (act_each write_task ts) (act_then (act_each write_approval as)
               (act_ret (length ts, length as))) s = (Inr n, t)"
  proof -
    obtain ts s1 where ts: "read_mirror (\<lambda>t. task_from_payload (claim_task owner t)) ?rs s = (Inr ts, s1)"
      and rest: "act_bind (read_all_approvals owner) (\<lambda>as. act_then (act_each write_task ts)
         (act_then (act_each write_approval as) (act_ret (length ts, length as)))) s1 = (Inr n, t)"
      using assms(1,2) unfolding import_json_def read_all_tasks_def
      by (auto simp: act_bind_def act_get_def split: prod.splits sum.splits)
    have s1: "s1 = s" using read_tasks_exact [OF ts] by simp
    obtain as s2 where as: "read_all_approvals owner s = (Inr as, s2)"
      and run: "act_then (act_each write_task ts)
         (act_then (act_each write_approval as) (act_ret (length ts, length as))) s2 = (Inr n, t)"
      using rest unfolding s1 act_bind_def by (auto split: prod.splits sum.splits)
    have "s2 = s" using act_wp_retD [OF read_all_wp(2) as] by simp
    with ts s1 run show thesis by (intro that) simp_all
  qed
  have exact: "map (\<lambda>(k, r). Option.bind r (imported_task owner)) ?rs = map Some ts"
    using read_tasks_exact [OF ts] by simp
  have id: "t_task_id x = k" if "(k, r) \<in> set ?rs" "Option.bind r (imported_task owner) = Some x" for k r x
    using that assms(4) by (cases r) (auto simp: imported_task_def claim_task_def split: option.splits)
  have "map t_task_id ts = map fst ?rs"
  proof (rule nth_equalityI)
    show len: "length (map t_task_id ts) = length (map fst ?rs)" using exact by (metis length_map)
    fix i assume i: "i < length (map t_task_id ts)"
    obtain k r where kr: "?rs ! i = (k, r)" by (cases "?rs ! i")
    have mem: "(k, r) \<in> set ?rs" using i len kr by (metis length_map nth_mem)
    have "Option.bind r (imported_task owner) = Some (ts ! i)"
      using arg_cong [OF exact, of "\<lambda>xs. xs ! i"] i len kr by simp
    then show "map t_task_id ts ! i = map fst ?rs ! i" using id [OF mem] i len kr by simp
  qed
  then have dist: "distinct (map t_task_id ts)" using assms(3) by (metis distinct_map_fst_sort_key)
  have approvals: "act_keeps (\<lambda>u. st_tasks u = st_tasks v) (act_each write_approval as)" for v :: "'a store_state_scheme"
    by (rule act_keeps_each) (auto simp: act_triple_wp intro!: write_approval_wp)
  have "act_wp (act_then (act_each write_task ts) (act_then (act_each write_approval as)
          (act_ret (length ts, length as))))
      (\<lambda>_ t. \<forall>u\<in>set ts. obj_get (st_tasks t) (t_task_id u) = Some u) (\<lambda>_ _. True) s"
    unfolding act_wp_then
    by (rule act_wp_conseq [OF written_rows_wp [OF dist, of "[]" s]])
      (auto simp: wp_simps intro!: keeps_wp [OF approvals refl])
  then have rows: "\<forall>u\<in>set ts. obj_get (st_tasks t) (t_task_id u) = Some u" using run by (rule act_wp_retD)
  have mem: "(tid, Some rec) \<in> set ?rs" using assms(5) by simp
  then have "imported_task owner rec \<in> set (map (\<lambda>(k, r). Option.bind r (imported_task owner)) ?rs)"
    by force
  then obtain x where x: "imported_task owner rec = Some x" "x \<in> set ts" unfolding exact by auto
  then show ?thesis using rows id [OF mem, of x] by auto
qed

definition lost_commit :: store_state where
  "lost_commit = (sample_store [])\<lparr>st_tasks := [(''task_1'', sample_task\<lparr>t_status := Completed\<rparr>)]\<rparr>"

theorem import_restores_mirror_witness:
  "t_status (the (obj_get (st_tasks (snd (import_json None lost_commit))) ''task_1'')) = Running"
proof -
  have s: "st_mirrored lost_commit" "st_task_mirror lost_commit = [(''task_1'', Some sample_task)]"
    by (simp_all add: lost_commit_def sample_store_def)
  have "fst (import_json None lost_commit) = Inr (1, 0)"
    by (simp add: lost_commit_def sample_store_def import_json_def read_all_tasks_def read_all_approvals_def
        task_from_payload_def claim_task_def write_task_def task_mirror_write_def act_defs io_write_def
        put_task_row_def upsert_run_def)
  then have "import_json None lost_commit = (Inr (1, 0), snd (import_json None lost_commit))"
    by (simp add: prod_eq_iff)
  from import_restores_mirror [OF this, of "''task_1''" sample_task] s
  show ?thesis by (simp add: imported_task_def claim_task_def)
qed
end
