(* ===== verification/Approval_Policy.thy ===== *)
theory Approval_Policy
  imports Approval_Gate
begin

text \<open>
  Who decides about a risky tool call (\<open>pico/approval.py\<close>): the permission modes and the strategies
  they select.  What a person answers at the terminal (\<open>None\<close> at the end of the input), and what a
  strategy from outside the module decides, are arguments.
\<close>

record approval_request =
  rq_name :: string
  rq_args :: json
  rq_call_id :: string

datatype permission_mode = Plan | Accept_Edits | Default_Mode | Bypass

fun permission_mode_value :: "permission_mode \<Rightarrow> string" where
  "permission_mode_value Plan = ''plan''"
| "permission_mode_value Accept_Edits = ''acceptEdits''"
| "permission_mode_value Default_Mode = ''default''"
| "permission_mode_value Bypass = ''bypass''"

definition permission_modes :: "permission_mode list" where
  "permission_modes = [Plan, Accept_Edits, Default_Mode, Bypass]"

definition EDIT_TOOLS :: "string set" where
  "EDIT_TOOLS = {''write_file'', ''patch_file''}"

datatype approval_strategy =
    Auto_Approval
  | Never_Approval
  | Ask_Approval
  | Accept_Edits_Approval approval_strategy
  | Injected_Strategy

definition ask_decide :: "string option \<Rightarrow> approval_outcome" where
  "ask_decide answer =
     (case answer of
        None \<Rightarrow> O_Rejected
      | Some a \<Rightarrow> if py_lower (py_strip a) \<in> {''y'', ''yes''} then O_Approved else O_Rejected)"

fun strategy_decide ::
  "(approval_request \<Rightarrow> string option) \<Rightarrow> (approval_request \<Rightarrow> approval_outcome) \<Rightarrow>
   approval_strategy \<Rightarrow> approval_request \<Rightarrow> approval_outcome" where
  "strategy_decide input injected Auto_Approval r = O_Approved"
| "strategy_decide input injected Never_Approval r = O_Rejected"
| "strategy_decide input injected Ask_Approval r = ask_decide (input r)"
| "strategy_decide input injected (Accept_Edits_Approval fallback) r =
     (if rq_name r \<in> EDIT_TOOLS then O_Approved else strategy_decide input injected fallback r)"
| "strategy_decide input injected Injected_Strategy r = injected r"

text \<open>A mode is given as a member of the enumeration or as text.\<close>

definition mode_value :: "permission_mode + string \<Rightarrow> string" where
  "mode_value mode = (case mode of Inl m \<Rightarrow> permission_mode_value m | Inr s \<Rightarrow> py_strip s)"

definition strategy_for_mode :: "permission_mode + string \<Rightarrow> approval_strategy option \<Rightarrow> approval_strategy" where
  "strategy_for_mode mode fallback =
     (let fb = (case fallback of None \<Rightarrow> Ask_Approval | Some f \<Rightarrow> f);
          value = mode_value mode
      in if value \<in> {permission_mode_value Bypass, ''auto''} then Auto_Approval
         else if value \<in> {permission_mode_value Plan, ''never''} then Never_Approval
         else if value = permission_mode_value Accept_Edits then Accept_Edits_Approval fb
         else fb)"

definition strategy_for_policy :: "string \<Rightarrow> approval_strategy" where
  "strategy_for_policy policy =
     (if policy = ''auto'' then Auto_Approval
      else if policy = ''never'' then Never_Approval
      else if policy \<in> set (map permission_mode_value permission_modes)
      then strategy_for_mode (Inr policy) (Some Ask_Approval)
      else Ask_Approval)"

text \<open>\<open>Pico.approve_outcome\<close>: a read-only agent refuses before it asks.\<close>

definition approve_outcome ::
  "bool \<Rightarrow> (approval_request \<Rightarrow> approval_outcome) \<Rightarrow> string \<Rightarrow> json \<Rightarrow> string \<Rightarrow> approval_outcome" where
  "approve_outcome read_only decide name args call_id =
     (if read_only then O_Rejected
      else decide \<lparr>rq_name = name, rq_args = args, rq_call_id = call_id\<rparr>)"

lemma mode_names: "permission_mode_value ` set permission_modes = {''plan'', ''acceptEdits'', ''default'', ''bypass''}"
  by (auto simp: permission_modes_def)

lemma mode_texts:
  "py_strip ''plan'' = ''plan''" "py_strip ''acceptEdits'' = ''acceptEdits''"
  "py_strip ''default'' = ''default''" "py_strip ''bypass'' = ''bypass''"
  by (simp_all add: py_strip_def is_space_def)

lemmas policy_defs = strategy_for_policy_def mode_names strategy_for_mode_def mode_value_def mode_texts

lemma strategy_auto: "strategy_for_policy ''auto'' = Auto_Approval" by (simp add: strategy_for_policy_def)
lemma strategy_never: "strategy_for_policy ''never'' = Never_Approval" by (simp add: strategy_for_policy_def)
lemma strategy_plan: "strategy_for_policy ''plan'' = Never_Approval" by (simp add: policy_defs)
lemma strategy_bypass: "strategy_for_policy ''bypass'' = Auto_Approval" by (simp add: policy_defs)
lemma strategy_default: "strategy_for_policy ''default'' = Ask_Approval" by (simp add: policy_defs)
lemma strategy_edits: "strategy_for_policy ''acceptEdits'' = Accept_Edits_Approval Ask_Approval"
  by (simp add: policy_defs)

lemmas strategy_for_policy_values =
  strategy_auto strategy_never strategy_plan strategy_bypass strategy_default strategy_edits

lemma strategy_for_policy_other:
  assumes "policy \<notin> {''auto'', ''never'', ''plan'', ''acceptEdits'', ''default'', ''bypass''}"
  shows "strategy_for_policy policy = Ask_Approval"
proof -
  have "policy \<notin> permission_mode_value ` set permission_modes" using assms by (simp add: mode_names)
  with assms show ?thesis by (simp add: strategy_for_policy_def)
qed

text \<open>
  A policy approves a call without the yes of a person only when it is auto or bypass, or
  acceptEdits for a call that edits a file; plan and never approve nothing.
\<close>

theorem policy_approves_only:
  assumes "strategy_decide input injected (strategy_for_policy policy) r = O_Approved"
  shows "policy \<in> {''auto'', ''bypass''} \<or> (policy = ''acceptEdits'' \<and> rq_name r \<in> EDIT_TOOLS) \<or>
    (policy \<notin> {''never'', ''plan''} \<and> ask_decide (input r) = O_Approved)"
proof (cases "policy \<in> {''auto'', ''never'', ''plan'', ''acceptEdits'', ''default'', ''bypass''}")
  case True
  then show ?thesis
  proof (elim insertE emptyE)
    assume "policy = ''never''"
    with assms show ?thesis by (simp add: strategy_never)
  next
    assume "policy = ''plan''"
    with assms show ?thesis by (simp add: strategy_plan)
  next
    assume "policy = ''acceptEdits''"
    with assms show ?thesis by (cases "rq_name r \<in> EDIT_TOOLS") (simp_all add: strategy_edits)
  next
    assume "policy = ''default''"
    with assms show ?thesis by (simp add: strategy_default)
  qed simp_all
next
  case False
  have "ask_decide (input r) = O_Approved"
    using assms unfolding strategy_for_policy_other [OF False] by simp
  with False show ?thesis by simp
qed

theorem policy_approves_only_witness:
  "strategy_decide (\<lambda>_. None) (\<lambda>_. O_Rejected) (strategy_for_policy ''acceptEdits'')
     \<lparr>rq_name = ''write_file'', rq_args = JNull, rq_call_id = []\<rparr> = O_Approved \<and>
   ''write_file'' \<in> EDIT_TOOLS"
proof -
  have "strategy_decide (\<lambda>_. None) (\<lambda>_. O_Rejected) (strategy_for_policy ''acceptEdits'')
      \<lparr>rq_name = ''write_file'', rq_args = JNull, rq_call_id = []\<rparr> = O_Approved"
    by (simp add: strategy_for_policy_values EDIT_TOOLS_def)
  from this policy_approves_only [OF this] show ?thesis
    by (simp add: ask_decide_def)
qed

end
