(* ===== verification/Read_Ranges.thy ===== *)
theory Read_Ranges
  imports Task_State
begin

text \<open>
  The line ranges of \<open>read_file\<close> calls (\<open>pico/agent_loop.py\<close>): normalisation of the two bounds,
  the overlap test of the repetition check, the union of ranges, the count of lines that a new
  range adds, and the slicing of long ranges.  A range is a pair of optional bounds, \<open>None\<close> for a
  bound that is missing or is no number.
\<close>

type_synonym interval = "int option \<times> int option"

definition READ_OVERLAP_RATIO :: "int \<times> int" where
  "READ_OVERLAP_RATIO = (3, 5)"

definition MAX_READ_CHUNK_LINES :: int where
  "MAX_READ_CHUNK_LINES = 200"

text \<open>\<open>int(start) if start is not None else None\<close>; one bad bound makes both ends open.\<close>

definition read_bound :: "json \<Rightarrow> exn + int option" where
  "read_bound v = (if v = JNull then Inr None else res_bind (py_int v) (\<lambda>i. Inr (Some i)))"

definition normalize_read_interval :: "json \<Rightarrow> json \<Rightarrow> interval" where
  "normalize_read_interval start stop =
     (case res_bind (read_bound start) (\<lambda>s. res_bind (read_bound stop) (\<lambda>e. Inr (s, e))) of
        Inl _ \<Rightarrow> (None, None)
      | Inr iv \<Rightarrow> iv)"

section \<open>Overlap\<close>

text \<open>
  The ratio is kept as numerator and denominator; the denominator is positive.  The code divides
  and compares with \<open>0.6\<close> in floating point.
\<close>

definition interval_overlap_ratio :: "interval \<Rightarrow> interval \<Rightarrow> int \<times> int" where
  "interval_overlap_ratio a b =
     (let a_start = (case fst a of Some s \<Rightarrow> s | None \<Rightarrow> (case fst b of Some s \<Rightarrow> s | None \<Rightarrow> 1));
          a_end = (case snd a of Some e \<Rightarrow> e | None \<Rightarrow> (case snd b of Some e \<Rightarrow> e | None \<Rightarrow> a_start));
          b_start = (case fst b of Some s \<Rightarrow> s | None \<Rightarrow> a_start);
          b_end = (case snd b of Some e \<Rightarrow> e | None \<Rightarrow> a_end)
      in if a_end \<le> a_start then
           if b_end \<le> b_start then (if a_start = b_start \<and> a_end = b_end then (1, 1) else (0, 1))
           else if b_start \<le> a_start \<and> a_start \<le> b_end then (1, 1) else (0, 1)
         else if a_end < b_start \<or> b_end < a_start then (0, 1)
         else let overlap = min a_end b_end - max a_start b_start
              in if overlap \<le> 0 then (0, 1) else (overlap, max 1 (a_end - a_start)))"

definition overlaps_enough :: "interval \<Rightarrow> interval \<Rightarrow> bool" where
  "overlaps_enough a b \<longleftrightarrow>
     (let r = interval_overlap_ratio a b
      in snd READ_OVERLAP_RATIO * fst r \<ge> fst READ_OVERLAP_RATIO * snd r)"

section \<open>Union of ranges\<close>

definition is_definite :: "interval \<Rightarrow> bool" where
  "is_definite iv \<longleftrightarrow> fst iv \<noteq> None \<and> snd iv \<noteq> None"

definition bounds_of :: "interval \<Rightarrow> int \<times> int" where
  "bounds_of iv = (the (fst iv), the (snd iv))"

definition definite :: "int \<times> int \<Rightarrow> interval" where
  "definite r = (Some (fst r), Some (snd r))"

text \<open>The loop over the sorted ranges; \<open>(ps, pe)\<close> is \<open>merged[-1]\<close>.\<close>

fun merge_from :: "int \<times> int \<Rightarrow> (int \<times> int) list \<Rightarrow> (int \<times> int) list" where
  "merge_from (ps, pe) [] = [(ps, pe)]"
| "merge_from (ps, pe) ((s, e) # r) =
     (if s \<le> pe + 1 then merge_from (ps, max pe e) r else (ps, pe) # merge_from (s, e) r)"

definition merge_ranges :: "(int \<times> int) list \<Rightarrow> (int \<times> int) list" where
  "merge_ranges rs = (case sort rs of [] \<Rightarrow> [] | x # xs \<Rightarrow> merge_from x xs)"

definition merge_read_intervals :: "interval list \<Rightarrow> interval list" where
  "merge_read_intervals ivs =
     (let definites = map bounds_of (filter is_definite ivs);
          open_ended = filter (\<lambda>iv. \<not> is_definite iv) ivs
      in if definites = [] then ivs else map definite (merge_ranges definites) @ open_ended)"

section \<open>New lines of a range\<close>

text \<open>
  Python compares tuples at the first position where they differ; an integer and \<open>None\<close> cannot be
  compared.  A comparison sort compares every two neighbours of its result, so \<open>sorted\<close> raises
  exactly when two of the ranges cannot be compared.
\<close>

fun comparable :: "interval \<Rightarrow> interval \<Rightarrow> bool" where
  "comparable (s, e) (s', e') =
     (if s \<noteq> s' then s \<noteq> None \<and> s' \<noteq> None else e = e' \<or> (e \<noteq> None \<and> e' \<noteq> None))"

fun all_comparable :: "interval list \<Rightarrow> bool" where
  "all_comparable [] = True"
| "all_comparable (x # xs) = (list_all (comparable x) xs \<and> all_comparable xs)"

text \<open>The loop: \<open>continue\<close> on a range before the cursor, \<open>break\<close> behind the end.\<close>

fun uncovered_from :: "int \<Rightarrow> int \<Rightarrow> int \<Rightarrow> (int \<times> int) list \<Rightarrow> int" where
  "uncovered_from stop cursor n [] = (if cursor \<le> stop then n + (stop - cursor + 1) else n)"
| "uncovered_from stop cursor n ((s, e) # r) =
     (if e < cursor then uncovered_from stop cursor n r
      else if s > stop then (if cursor \<le> stop then n + (stop - cursor + 1) else n)
      else let n' = (if s > cursor then n + (s - cursor) else n);
               cursor' = max cursor (e + 1)
           in if cursor' > stop then n' else uncovered_from stop cursor' n' r)"

definition uncovered_read_lines :: "interval \<Rightarrow> interval list \<Rightarrow> exn + int" where
  "uncovered_read_lines iv merged =
     (if \<not> is_definite iv then Inr 0
      else if \<not> all_comparable merged then Inl Type_Error
      else let (start, stop) = bounds_of iv
           in Inr (uncovered_from stop start 0 (sort (map bounds_of (filter is_definite merged)))))"

section \<open>Slices\<close>

function chunk_from :: "int \<Rightarrow> int \<Rightarrow> (int \<times> int) list" where
  "chunk_from stop cursor =
     (if cursor \<le> stop
      then let chunk_end = min stop (cursor + MAX_READ_CHUNK_LINES - 1)
           in (cursor, chunk_end) # chunk_from stop (chunk_end + 1)
      else [])"
  by pat_completeness auto
termination
  by (relation "measure (\<lambda>(stop, cursor). nat (stop + 1 - cursor))")
    (auto simp: MAX_READ_CHUNK_LINES_def)

declare chunk_from.simps [simp del]

fun chunk_read_intervals :: "interval list \<Rightarrow> interval list" where
  "chunk_read_intervals [] = []"
| "chunk_read_intervals ((Some s, Some e) # r) =
     (if e - s + 1 \<le> MAX_READ_CHUNK_LINES then [(Some s, Some e)]
      else map definite (chunk_from e s)) @ chunk_read_intervals r"
| "chunk_read_intervals (iv # r) = iv # chunk_read_intervals r"

section \<open>The lines of a range\<close>

text \<open>
  What a range asks for.  A read with an open end is a read of the whole file: this is how
  \<open>_normalize_batch_reads\<close> replaces it.
\<close>

definition range_lines :: "int \<times> int \<Rightarrow> int set" where
  "range_lines r = {fst r .. snd r}"

definition ranges_lines :: "(int \<times> int) list \<Rightarrow> int set" where
  "ranges_lines rs = (\<Union>r \<in> set rs. range_lines r)"

definition interval_lines :: "interval \<Rightarrow> int set" where
  "interval_lines iv = (if is_definite iv then range_lines (bounds_of iv) else UNIV)"

definition intervals_lines :: "interval list \<Rightarrow> int set" where
  "intervals_lines ivs = (\<Union>iv \<in> set ivs. interval_lines iv)"

text \<open>Ranges in ascending order with at least one line between any two of them.\<close>

definition separated :: "(int \<times> int) list \<Rightarrow> bool" where
  "separated = sorted_wrt (\<lambda>a b. snd a + 1 < fst b)"

lemma ranges_lines_simps [simp]:
  "ranges_lines [] = {}"
  "ranges_lines (r # rs) = range_lines r \<union> ranges_lines rs"
  "ranges_lines (rs @ rs') = ranges_lines rs \<union> ranges_lines rs'"
  by (auto simp: ranges_lines_def)

lemma ranges_lines_sort [simp]: "ranges_lines (sort rs) = ranges_lines rs"
  by (simp add: ranges_lines_def)

lemma intervals_lines_simps [simp]:
  "intervals_lines [] = {}"
  "intervals_lines (iv # ivs) = interval_lines iv \<union> intervals_lines ivs"
  "intervals_lines (ivs @ ivs') = intervals_lines ivs \<union> intervals_lines ivs'"
  by (auto simp: intervals_lines_def)

lemma definite_simps [simp]:
  "is_definite (definite r)" "bounds_of (definite r) = r" "interval_lines (definite r) = range_lines r"
  "is_definite (Some s, Some e)" "bounds_of (Some s, Some e) = (s, e)"
  "definite (s, e) = (Some s, Some e)"
  by (auto simp: definite_def is_definite_def bounds_of_def interval_lines_def)

lemma definite_bounds_of [simp]: "is_definite iv \<Longrightarrow> definite (bounds_of iv) = iv"
  by (cases iv) (auto simp: definite_def is_definite_def bounds_of_def)

lemma intervals_lines_definite [simp]: "intervals_lines (map definite rs) = ranges_lines rs"
  by (induction rs) (auto simp del: definite_simps(6))

lemma intervals_lines_split:
  "intervals_lines ivs =
     ranges_lines (map bounds_of (filter is_definite ivs)) \<union>
     intervals_lines (filter (\<lambda>iv. \<not> is_definite iv) ivs)"
  by (induction ivs) (auto simp: interval_lines_def)

subsection \<open>Merging keeps the lines\<close>

lemma merge_from_lines:
  assumes "sorted (map fst rs)" and "\<And>r. r \<in> set rs \<Longrightarrow> ps \<le> fst r"
  shows "ranges_lines (merge_from (ps, pe) rs) = range_lines (ps, pe) \<union> ranges_lines rs"
  using assms
proof (induction rs arbitrary: ps pe)
  case (Cons r rs)
  obtain s e where r: "r = (s, e)" by (cases r)
  show ?case
  proof (cases "s \<le> pe + 1")
    case True
    have "range_lines (ps, max pe e) = range_lines (ps, pe) \<union> range_lines (s, e)"
      using True Cons.prems(2) [of r] r by (auto simp: range_lines_def)
    with True Cons r show ?thesis by auto
  next
    case False
    with Cons r show ?thesis by auto
  qed
qed simp

lemma merge_from_bounds:
  assumes "sorted (map fst rs)" and "\<And>r. r \<in> set rs \<Longrightarrow> ps \<le> fst r"
  shows "\<forall>r \<in> set (merge_from (ps, pe) rs). ps \<le> fst r"
  using assms
proof (induction rs arbitrary: ps pe)
  case (Cons r rs)
  obtain s e where r: "r = (s, e)" by (cases r)
  from Cons.prems(2) [of r] r have "ps \<le> s" by simp
  moreover have "\<forall>r \<in> set (merge_from (ps, max pe e) rs). ps \<le> fst r"
    using Cons.prems by (intro Cons.IH) auto
  moreover have "\<forall>r \<in> set (merge_from (s, e) rs). s \<le> fst r"
    using Cons.prems r by (intro Cons.IH) auto
  ultimately show ?case by (auto simp: r)
qed simp

lemma merge_from_gap:
  assumes "sorted (map fst rs)" and "\<And>r. r \<in> set rs \<Longrightarrow> ps \<le> fst r"
  shows "separated (merge_from (ps, pe) rs)"
  using assms
proof (induction rs arbitrary: ps pe)
  case (Cons r rs)
  obtain s e where r: "r = (s, e)" by (cases r)
  show ?case
  proof (cases "s \<le> pe + 1")
    case True
    with Cons r show ?thesis by auto
  next
    case False
    have "\<forall>r \<in> set (merge_from (s, e) rs). s \<le> fst r"
      using Cons.prems r by (intro merge_from_bounds) auto
    with False Cons r show ?thesis by (auto simp: separated_def)
  qed
qed (simp add: separated_def)

lemma sorted_fst: "sorted (rs :: (int \<times> int) list) \<Longrightarrow> sorted (map fst rs)"
  by (induction rs) (auto simp: less_eq_prod_def)

lemma sort_first: "sort rs = x # xs \<Longrightarrow> sorted (map fst xs) \<and> (\<forall>r \<in> set xs. fst (x :: int \<times> int) \<le> fst r)"
proof -
  assume "sort rs = x # xs"
  then have "sorted (map fst (x # xs))" by (metis sorted_fst sorted_sort)
  then show ?thesis by auto
qed

lemma merge_ranges_lines [simp]: "ranges_lines (merge_ranges rs) = ranges_lines rs"
proof (cases "sort rs")
  case Nil
  then have "rs = []" by (metis sort_key_simps(1) length_0_conv length_sort)
  then show ?thesis by (simp add: merge_ranges_def)
next
  case (Cons x xs)
  with sort_first [OF Cons] have "ranges_lines (merge_ranges rs) = ranges_lines (x # xs)"
    by (cases x) (simp add: merge_ranges_def merge_from_lines)
  also have "\<dots> = ranges_lines rs" by (metis Cons ranges_lines_sort)
  finally show ?thesis .
qed

lemma merge_ranges_separated: "separated (merge_ranges rs)"
proof (cases "sort rs")
  case Nil
  then show ?thesis by (simp add: merge_ranges_def separated_def)
next
  case (Cons x xs)
  with sort_first [OF Cons] show ?thesis by (cases x) (simp add: merge_ranges_def merge_from_gap)
qed

lemma separated_Cons: "separated (r # rs) \<longleftrightarrow> (\<forall>q \<in> set rs. snd r + 1 < fst q) \<and> separated rs"
  by (simp add: separated_def)

subsection \<open>Counting the lines that are not covered\<close>

text \<open>
  What is left of the new range at the cursor.  Ranges that end before they start ask for nothing;
  the loop may then count a line twice, so the exact count needs ranges that are at worst empty.
\<close>

definition rest_lines :: "int \<Rightarrow> int \<Rightarrow> (int \<times> int) list \<Rightarrow> int set" where
  "rest_lines stop cursor rs = {cursor..stop} - ranges_lines rs"

lemma finite_rest [simp]: "finite (rest_lines stop cursor rs)"
  by (simp add: rest_lines_def)

lemma card_interval: "a \<le> b + 1 \<Longrightarrow> int (card {a..b :: int}) = b - a + 1"
  by simp

lemma rest_skip: "e < cursor \<Longrightarrow> rest_lines stop cursor ((s, e) # rs) = rest_lines stop cursor rs"
  by (auto simp: rest_lines_def range_lines_def)

lemma rest_beyond:
  "\<forall>r \<in> set rs. stop < fst r \<Longrightarrow> rest_lines stop cursor rs = {cursor..stop}"
  by (force simp: rest_lines_def ranges_lines_def range_lines_def)

lemma rest_step:
  assumes "sorted (map fst ((s, e) # rs))" and "s \<le> e + 1" and "cursor \<le> e" and "s \<le> stop"
  shows "rest_lines stop cursor ((s, e) # rs) =
           {cursor..<s} \<union> rest_lines stop (max cursor (e + 1)) rs" (is "?l = ?r")
    and "{cursor..<s} \<inter> rest_lines stop (max cursor (e + 1)) rs = {}"
proof -
  have "\<forall>r \<in> set rs. s \<le> fst r" using assms(1) by auto
  then have "{cursor..<s} \<inter> ranges_lines rs = {}"
    by (force simp: ranges_lines_def range_lines_def)
  with assms(2-4) show "?l = ?r" by (force simp: rest_lines_def range_lines_def)
  from assms(2,3) show "{cursor..<s} \<inter> rest_lines stop (max cursor (e + 1)) rs = {}"
    by (auto simp: rest_lines_def)
qed

lemma uncovered_from_cases:
  "e < cursor \<Longrightarrow> uncovered_from stop cursor n ((s, e) # rs) = uncovered_from stop cursor n rs"
  "cursor \<le> e \<Longrightarrow> stop < s \<Longrightarrow>
     uncovered_from stop cursor n ((s, e) # rs) = (if cursor \<le> stop then n + (stop - cursor + 1) else n)"
  "cursor \<le> e \<Longrightarrow> s \<le> stop \<Longrightarrow> stop < max cursor (e + 1) \<Longrightarrow>
     uncovered_from stop cursor n ((s, e) # rs) = n + max 0 (s - cursor)"
  "cursor \<le> e \<Longrightarrow> s \<le> stop \<Longrightarrow> max cursor (e + 1) \<le> stop \<Longrightarrow>
     uncovered_from stop cursor n ((s, e) # rs) =
       uncovered_from stop (max cursor (e + 1)) (n + max 0 (s - cursor)) rs"
  by (auto simp: Let_def max_def)

declare uncovered_from.simps(2) [simp del]

lemma uncovered_from_exact:
  assumes "sorted (map fst rs)" and "\<forall>r \<in> set rs. fst r \<le> snd r + 1"
  shows "uncovered_from stop cursor n rs = n + int (card (rest_lines stop cursor rs))"
  using assms
proof (induction rs arbitrary: cursor n)
  case Nil
  then show ?case by (auto simp: rest_lines_def)
next
  case (Cons r rs)
  obtain s e where r: "r = (s, e)" by (cases r)
  note prems = Cons.prems [unfolded r]
  consider "e < cursor" | "cursor \<le> e" "stop < s"
    | "cursor \<le> e" "s \<le> stop" "stop < max cursor (e + 1)"
    | "cursor \<le> e" "s \<le> stop" "max cursor (e + 1) \<le> stop" by linarith
  then show ?case
  proof cases
    case 1
    with Cons r show ?thesis by (simp add: rest_skip uncovered_from_cases)
  next
    case 2
    with prems have "\<forall>q \<in> set (r # rs). stop < fst q" using r by auto
    from rest_beyond [OF this] 2 show ?thesis by (auto simp: r uncovered_from_cases)
  next
    case 3
    have "rest_lines stop cursor (r # rs) = {cursor..<s}"
      using rest_step(1) [OF prems(1) _ 3(1,2)] prems(2) 3(3) unfolding r by (auto simp: rest_lines_def)
    with 3 show ?thesis by (simp add: r uncovered_from_cases)
  next
    case 4
    have "int (card (rest_lines stop cursor (r # rs))) =
        max 0 (s - cursor) + int (card (rest_lines stop (max cursor (e + 1)) rs))"
      unfolding r using rest_step [OF prems(1) _ 4(1,2)] prems(2) by (simp add: card_Un_disjoint)
    with Cons.IH [of "max cursor (e + 1)" "n + max 0 (s - cursor)"] prems 4 show ?thesis
      by (simp add: r uncovered_from_cases)
  qed
qed

text \<open>Whether anything is new is decided exactly for every list of ranges.\<close>

lemma uncovered_from_ge: "n \<le> uncovered_from stop cursor n rs"
proof (induction rs arbitrary: cursor n)
  case (Cons r rs)
  obtain s e where r: "r = (s, e)" by (cases r)
  consider "e < cursor" | "cursor \<le> e" "stop < s"
    | "cursor \<le> e" "s \<le> stop" "stop < max cursor (e + 1)"
    | "cursor \<le> e" "s \<le> stop" "max cursor (e + 1) \<le> stop" by linarith
  then show ?case
  proof cases
    case 4
    have "n \<le> n + max 0 (s - cursor)" by simp
    also have "\<dots> \<le> uncovered_from stop cursor n (r # rs)"
      using Cons.IH 4 by (simp add: r uncovered_from_cases)
    finally show ?thesis .
  qed (use Cons.IH in \<open>auto simp: r uncovered_from_cases\<close>)
qed simp

lemma uncovered_from_positive:
  assumes "sorted (map fst rs)"
  shows "uncovered_from stop cursor n rs > n \<longleftrightarrow> rest_lines stop cursor rs \<noteq> {}"
  using assms
proof (induction rs arbitrary: cursor n)
  case Nil
  then show ?case by (auto simp: rest_lines_def)
next
  case (Cons r rs)
  obtain s e where r: "r = (s, e)" by (cases r)
  note prems = Cons.prems [unfolded r]
  consider "e < cursor" | "cursor \<le> e" "stop < s" | "cursor \<le> e" "s \<le> stop" "cursor < s"
    | "s \<le> cursor" "cursor \<le> e" "s \<le> stop" by linarith
  then show ?case
  proof cases
    case 1
    with Cons r show ?thesis by (simp add: rest_skip uncovered_from_cases)
  next
    case 2
    with prems have "\<forall>q \<in> set (r # rs). stop < fst q" using r by auto
    from rest_beyond [OF this] 2 show ?thesis by (auto simp: r uncovered_from_cases)
  next
    case 3
    have "\<forall>q \<in> set (r # rs). cursor < fst q" using prems 3 r by auto
    then have "cursor \<in> rest_lines stop cursor (r # rs)"
      using 3 by (force simp: rest_lines_def ranges_lines_def range_lines_def)
    moreover have "n < uncovered_from stop cursor n (r # rs)"
      using 3 uncovered_from_ge [of "n + max 0 (s - cursor)" stop "max cursor (e + 1)" rs]
      by (cases "stop < max cursor (e + 1)") (auto simp: r uncovered_from_cases)
    ultimately show ?thesis by blast
  next
    case 4
    then have "rest_lines stop cursor (r # rs) = rest_lines stop (e + 1) rs"
      unfolding r by (auto simp: rest_lines_def range_lines_def)
    with 4 Cons.IH [of n "e + 1"] prems show ?thesis
      by (cases "stop < e + 1") (auto simp: r uncovered_from_cases max_def rest_lines_def)
  qed
qed

subsection \<open>Slices cover the range\<close>

lemma chunk_from_lines: "ranges_lines (chunk_from stop cursor) = {cursor..stop}"
proof (induction stop cursor rule: chunk_from.induct)
  case (1 stop cursor)
  show ?case
  proof (cases "cursor \<le> stop")
    case True
    let ?c = "min stop (cursor + MAX_READ_CHUNK_LINES - 1)"
    have "{cursor..stop} = {cursor..?c} \<union> {?c + 1..stop}"
      using True by (auto simp: MAX_READ_CHUNK_LINES_def)
    with 1 [OF True refl] True show ?thesis
      by (subst chunk_from.simps) (simp add: Let_def range_lines_def)
  next
    case False
    then show ?thesis by (subst chunk_from.simps) simp
  qed
qed

lemma chunk_from_bounded:
  "(s, e) \<in> set (chunk_from stop cursor) \<Longrightarrow>
     cursor \<le> s \<and> s \<le> e \<and> e \<le> stop \<and> e - s + 1 \<le> MAX_READ_CHUNK_LINES"
proof (induction stop cursor rule: chunk_from.induct)
  case (1 stop cursor)
  show ?case
  proof (cases "cursor \<le> stop")
    case True
    let ?c = "min stop (cursor + MAX_READ_CHUNK_LINES - 1)"
    from 1(2) True consider "s = cursor" "e = ?c" | "(s, e) \<in> set (chunk_from stop (?c + 1))"
      by (subst (asm) chunk_from.simps) (auto simp: Let_def)
    then show ?thesis
    proof cases
      case 1
      with True show ?thesis by (auto simp: MAX_READ_CHUNK_LINES_def)
    next
      case 2
      with 1(1) [OF True refl] True show ?thesis by (auto simp: MAX_READ_CHUNK_LINES_def)
    qed
  next
    case False
    with 1(2) show ?thesis by (subst (asm) chunk_from.simps) simp
  qed
qed

lemma chunk_intervals_lines: "intervals_lines (chunk_read_intervals ivs) = intervals_lines ivs"
proof (induction ivs rule: chunk_read_intervals.induct)
  case (2 s e r)
  then show ?case by (auto simp: chunk_from_lines interval_lines_def range_lines_def)
qed auto

lemma chunk_intervals_bounded:
  "(Some s, Some e) \<in> set (chunk_read_intervals ivs) \<Longrightarrow> e - s + 1 \<le> MAX_READ_CHUNK_LINES"
  by (induction ivs rule: chunk_read_intervals.induct)
    (auto split: if_splits dest: chunk_from_bounded simp: definite_def)

lemma merge_intervals_lines: "intervals_lines (merge_read_intervals ivs) = intervals_lines ivs"
  using intervals_lines_split [of ivs] by (simp add: merge_read_intervals_def Let_def)


subsection \<open>Ranges that cannot be compared\<close>

lemma all_comparable_iff: "all_comparable xs \<longleftrightarrow> sorted_wrt comparable xs"
  by (induction xs) (auto simp: list_all_iff)

lemma comparable_definite: "is_definite a \<Longrightarrow> is_definite b \<Longrightarrow> comparable a b"
  by (cases a; cases b) (auto simp: is_definite_def)

lemma all_comparable_definite: "\<forall>iv \<in> set ivs. is_definite iv \<Longrightarrow> all_comparable ivs"
  by (induction ivs) (auto simp: list_all_iff comparable_definite)

lemma comparable_sym: "comparable a b = comparable b a"
  by (cases a; cases b) auto

lemma all_comparable_pair:
  assumes "all_comparable xs" and "a \<in> set xs" and "b \<in> set xs" and "a \<noteq> b"
  shows "comparable a b"
  using assms by (induction xs) (auto simp: list_all_iff comparable_sym)

lemma mixed_not_comparable:
  assumes "(None, None) \<in> set ivs" and "iv \<in> set ivs" and "is_definite iv"
  shows "\<not> all_comparable ivs"
proof
  assume "all_comparable ivs"
  moreover have "iv \<noteq> (None, None)" using assms(3) by (auto simp: is_definite_def)
  ultimately have "comparable iv (None, None)" using assms(1,2) by (blast intro: all_comparable_pair)
  with assms(3) show False by (cases iv) (auto simp: is_definite_def)
qed

lemma merge_intervals_definite:
  "map bounds_of (filter is_definite (merge_read_intervals ivs)) =
     merge_ranges (map bounds_of (filter is_definite ivs))"
  by (auto simp: merge_read_intervals_def Let_def filter_map o_def merge_ranges_def
      intro!: arg_cong [where f = "map bounds_of"] simp del: definite_simps(6))

lemma merge_intervals_open:
  "filter (\<lambda>iv. \<not> is_definite iv) (merge_read_intervals ivs) = filter (\<lambda>iv. \<not> is_definite iv) ivs"
  by (auto simp: merge_read_intervals_def Let_def filter_map o_def simp del: definite_simps(6))

section \<open>Properties\<close>

text \<open>
  Merging the ranges of one file is equivalent to keeping them: the definite ranges of the
  result cover exactly the lines of the definite ranges given, they stand in ascending order with a
  gap of at least one line between any two (so no two of them overlap or touch), and the open ranges
  are kept as they are.
\<close>

theorem merged_ranges_equivalent:
  "ranges_lines (map bounds_of (filter is_definite (merge_read_intervals ivs))) =
     ranges_lines (map bounds_of (filter is_definite ivs)) \<and>
   separated (map bounds_of (filter is_definite (merge_read_intervals ivs))) \<and>
   filter (\<lambda>iv. \<not> is_definite iv) (merge_read_intervals ivs) = filter (\<lambda>iv. \<not> is_definite iv) ivs"
  by (simp add: merge_intervals_definite merge_intervals_open merge_ranges_separated)

text \<open>
  For ranges that can be compared and that are not reversed, the scan with its cursor returns
  exactly the number of lines of the new range that no earlier range covers.
\<close>

theorem new_lines_counted:
  assumes "is_definite iv" and "all_comparable ivs"
    and "\<forall>r \<in> set ivs. is_definite r \<longrightarrow> fst (bounds_of r) \<le> snd (bounds_of r) + 1"
  shows "uncovered_read_lines iv ivs =
           Inr (int (card (range_lines (bounds_of iv) - ranges_lines (map bounds_of (filter is_definite ivs)))))"
proof -
  let ?rs = "sort (map bounds_of (filter is_definite ivs))"
  obtain start stop where b: "bounds_of iv = (start, stop)" by (cases "bounds_of iv")
  have "uncovered_from stop start 0 ?rs = int (card (rest_lines stop start ?rs))"
    using uncovered_from_exact [of ?rs stop start 0] assms(3) by (auto simp: sorted_fst)
  with assms(1,2) b show ?thesis
    by (simp add: uncovered_read_lines_def rest_lines_def range_lines_def)
qed

theorem new_lines_counted_witness:
  "uncovered_read_lines (Some 150, Some 260) [(Some 40, Some 60), (Some 1, Some 200)] =
     Inr (int (card ({150..260} - ({40..60} \<union> {1..200 :: int}))))"
  using new_lines_counted [of "(Some 150, Some 260)" "[(Some 40, Some 60), (Some 1, Some 200)]"]
  by (simp add: range_lines_def)

lemma uncovered_positive:
  assumes "is_definite iv" and "all_comparable ivs"
  shows "\<exists>n. uncovered_read_lines iv ivs = Inr n \<and> 0 \<le> n \<and>
           (0 < n \<longleftrightarrow> \<not> range_lines (bounds_of iv) \<subseteq> ranges_lines (map bounds_of (filter is_definite ivs)))"
proof -
  let ?rs = "sort (map bounds_of (filter is_definite ivs))"
  obtain start stop where b: "bounds_of iv = (start, stop)" by (cases "bounds_of iv")
  have "0 < uncovered_from stop start 0 ?rs \<longleftrightarrow> rest_lines stop start ?rs \<noteq> {}"
    by (rule uncovered_from_positive) (simp add: sorted_fst)
  with assms b uncovered_from_ge [of 0 stop start ?rs] show ?thesis
    by (simp add: uncovered_read_lines_def rest_lines_def range_lines_def)
qed

text \<open>
  Slicing merged ranges loses no line and adds none, and no slice of a definite range is longer
  than 200 lines.
\<close>

theorem slices_cover_range:
  "intervals_lines (chunk_read_intervals (merge_read_intervals ivs)) = intervals_lines ivs \<and>
   list_all (\<lambda>iv. is_definite iv \<longrightarrow> snd (bounds_of iv) - fst (bounds_of iv) + 1 \<le> MAX_READ_CHUNK_LINES)
     (chunk_read_intervals (merge_read_intervals ivs))"
proof (intro conjI)
  show "intervals_lines (chunk_read_intervals (merge_read_intervals ivs)) = intervals_lines ivs"
    by (simp add: chunk_intervals_lines merge_intervals_lines)
  show "list_all (\<lambda>iv. is_definite iv \<longrightarrow> snd (bounds_of iv) - fst (bounds_of iv) + 1 \<le> MAX_READ_CHUNK_LINES)
     (chunk_read_intervals (merge_read_intervals ivs))"
    by (auto simp: list_all_iff is_definite_def bounds_of_def dest: chunk_intervals_bounded)
qed

theorem slices_cover_range_witness:
  "chunk_read_intervals (merge_read_intervals [(Some 201, Some 450), (None, None), (Some 1, Some 200)]) =
     [(Some 1, Some 200), (Some 201, Some 400), (Some 401, Some 450), (None, None)]
   \<and> intervals_lines [(Some 1, Some 200), (Some 201, Some 400), (Some 401, Some 450), (None, None)] =
     intervals_lines [(Some 201, Some 450), (None, None), (Some 1, Some 200)]"
proof -
  have "chunk_read_intervals (merge_read_intervals [(Some 201, Some 450), (None, None), (Some 1, Some 200)]) =
     [(Some 1, Some 200), (Some 201, Some 400), (Some 401, Some 450), (None, None)]"
    by (simp add: merge_read_intervals_def is_definite_def bounds_of_def merge_ranges_def definite_def
        MAX_READ_CHUNK_LINES_def chunk_from.simps)
  with slices_cover_range [of "[(Some 201, Some 450), (None, None), (Some 1, Some 200)]"]
  show ?thesis by simp
qed

end
