(* ===== verification/Tool_Batches.thy ===== *)
theory Tool_Batches
  imports Read_Ranges
begin

text \<open>
  Batches of tool calls (\<open>pico/agent_loop.py\<close>): fingerprints of calls, the repetition check before
  and after a call, the truncation, deduplication and read merging of a batch, and its division into
  calls that run concurrently and calls that run one after the other.

  A call is the dict the model sent, an association list with the keys \<open>name\<close> and \<open>args\<close>.
\<close>

section \<open>Calls and their arguments\<close>

type_synonym tool_item = "(string \<times> json) list"

definition MAX_PARALLEL_TOOLS :: nat where
  "MAX_PARALLEL_TOOLS = 8"

definition TOOL_REPEAT_WINDOW :: nat where
  "TOOL_REPEAT_WINDOW = 6"

definition READ_ONLY_TOOL_NAMES :: "string set" where
  "READ_ONLY_TOOL_NAMES = {''list_files'', ''read_file'', ''search''}"

definition item_name :: "tool_item \<Rightarrow> string" where
  "item_name item = get_str item ''name'' []"

definition item_raw_args :: "tool_item \<Rightarrow> json" where
  "item_raw_args item = get_default item ''args'' (JObj [])"

definition dict_or_empty :: "json \<Rightarrow> (string \<times> json) list" where
  "dict_or_empty v = (case v of JObj d \<Rightarrow> d | _ \<Rightarrow> [])"

definition item_args :: "tool_item \<Rightarrow> (string \<times> json) list" where
  "item_args item = dict_or_empty (item_raw_args item)"

text \<open>\<open>x or default\<close>.\<close>

definition or_default :: "json \<Rightarrow> json \<Rightarrow> json" where
  "or_default v d = (if truthy v then v else d)"

definition slashes :: "string \<Rightarrow> string" where
  "slashes s = py_replace [CHR 0x5C] ''/'' s"

definition rstrip_slash :: "string \<Rightarrow> string" where
  "rstrip_slash s = rev (dropWhile (\<lambda>c. c = CHR ''/'') (rev s))"

text \<open>\<open>runtime._normalize_tool_args\<close>.\<close>

definition normalize_args :: "string \<Rightarrow> (string \<times> json) list \<Rightarrow> (string \<times> json) list" where
  "normalize_args name args =
     (let d = (if name \<in> READ_ONLY_TOOL_NAMES then
                 (case obj_get args ''path'' of
                    None \<Rightarrow> args
                  | Some v \<Rightarrow>
                      (let path = rstrip_slash (slashes (py_strip (py_str v)))
                       in obj_put args ''path'' (JStr (if path = [] then ''.'' else path))))
               else args)
      in if name = ''read_file'' then obj_pop (obj_pop d ''start'') ''end'' else d)"

definition normalize_tool_args :: "string \<Rightarrow> json \<Rightarrow> json" where
  "normalize_tool_args name args =
     (case args of JObj d \<Rightarrow> JObj (normalize_args name d) | _ \<Rightarrow> args)"

definition dumps_sorted :: "json \<Rightarrow> string" where
  "dumps_sorted v = json_dumps True '', '' '': '' v"

section \<open>Results\<close>

record tool_result =
  tr_content :: string
  tr_metadata :: "(string \<times> json) list"

definition tool_status :: "tool_result \<Rightarrow> string" where
  "tool_status r = get_str (tr_metadata r) ''tool_status'' []"

definition tool_counts_as_write :: "string \<Rightarrow> tool_result \<Rightarrow> bool" where
  "tool_counts_as_write name r =
     (if name \<in> {''write_file'', ''patch_file''} then True
      else if name = ''run_shell'' then get_bool (tr_metadata r) ''workspace_changed''
      else False)"

text \<open>The hash of the content is a parameter.\<close>

definition result_fingerprint :: "(string \<Rightarrow> string) \<Rightarrow> string \<Rightarrow> tool_result \<Rightarrow> string option" where
  "result_fingerprint digest name r =
     (if name \<notin> READ_ONLY_TOOL_NAMES then None
      else if tool_status r \<notin> {''ok'', ''partial_success''} then None
      else if py_strip (tr_content r) = [] then None
      else Some (digest (tr_content r)))"

section \<open>Fingerprints\<close>

datatype tool_fp =
    Read_Fp string interval
  | Shell_Fp string
  | Search_Fp string string
  | Other_Fp string string

fun fp_name :: "tool_fp \<Rightarrow> string" where
  "fp_name (Read_Fp _ _) = ''read_file''"
| "fp_name (Shell_Fp _) = ''run_shell''"
| "fp_name (Search_Fp _ _) = ''search''"
| "fp_name (Other_Fp name _) = name"

definition normalized_path :: "string \<Rightarrow> (string \<times> json) list \<Rightarrow> string" where
  "normalized_path name args =
     py_str (or_default (get_default (normalize_args name args) ''path'' (JStr [])) (JStr ''.''))"

definition stripped_arg :: "(string \<times> json) list \<Rightarrow> string \<Rightarrow> string" where
  "stripped_arg args k = py_strip (py_str (or_default (get_default args k (JStr [])) (JStr [])))"

definition args_interval :: "(string \<times> json) list \<Rightarrow> interval" where
  "args_interval args =
     normalize_read_interval (get_default args ''start'' JNull) (get_default args ''end'' JNull)"

definition tool_fingerprint :: "string \<Rightarrow> json \<Rightarrow> tool_fp" where
  "tool_fingerprint name raw =
     (let args = dict_or_empty raw
      in if name = ''read_file'' then Read_Fp (normalized_path name args) (args_interval args)
         else if name = ''run_shell'' then Shell_Fp (stripped_arg args ''command'')
         else if name = ''search'' then Search_Fp (normalized_path name args) (stripped_arg args ''pattern'')
         else Other_Fp name (dumps_sorted (JObj (normalize_args name args))))"

fun tool_fingerprints_match :: "tool_fp \<Rightarrow> tool_fp \<Rightarrow> bool" where
  "tool_fingerprints_match (Read_Fp path_a interval_a) (Read_Fp path_b interval_b) =
     (path_a = path_b \<and> overlaps_enough interval_a interval_b)"
| "tool_fingerprints_match a b = (a = b)"

lemma fp_name_tool_fingerprint [simp]: "fp_name (tool_fingerprint name raw) = name"
  by (simp add: tool_fingerprint_def Let_def)

section \<open>Repetition\<close>

text \<open>The window holds pairs of a fingerprint and the hash of the result.\<close>

type_synonym fp_entry = "tool_fp \<times> string option"

fun read_interval_of :: "string \<Rightarrow> tool_fp \<Rightarrow> interval option" where
  "read_interval_of path (Read_Fp p iv) = (if p = path then Some iv else None)"
| "read_interval_of path _ = None"

definition window_intervals :: "string \<Rightarrow> fp_entry list \<Rightarrow> interval list" where
  "window_intervals path recent = List.map_filter (read_interval_of path \<circ> fst) recent"

fun partial_overlap :: "tool_fp \<Rightarrow> tool_fp \<Rightarrow> bool" where
  "partial_overlap (Read_Fp _ a) (Read_Fp _ b) = (a \<noteq> b)"
| "partial_overlap _ _ = False"

text \<open>The lines a read adds to what the window holds of its file.\<close>

fun new_lines :: "fp_entry list \<Rightarrow> tool_fp \<Rightarrow> exn + int" where
  "new_lines recent (Read_Fp path iv) =
     uncovered_read_lines iv (merge_read_intervals (window_intervals path recent))"
| "new_lines recent _ = Inr 0"

definition writes_after :: "fp_entry list \<Rightarrow> bool" where
  "writes_after tail = list_ex (\<lambda>(fp, _). fp_name fp \<notin> READ_ONLY_TOOL_NAMES) tail"

definition result_changed :: "string option \<Rightarrow> string option \<Rightarrow> bool" where
  "result_changed a b \<longleftrightarrow> a \<noteq> None \<and> b \<noteq> None \<and> a \<noteq> b"

fun repeats_from :: "tool_fp \<Rightarrow> string option \<Rightarrow> fp_entry list \<Rightarrow> fp_entry list \<Rightarrow> exn + bool" where
  "repeats_from fp result_fp recent [] = Inr False"
| "repeats_from fp result_fp recent ((previous, result_prev) # tail) =
     (if \<not> tool_fingerprints_match fp previous then repeats_from fp result_fp recent tail
      else if partial_overlap fp previous then
        res_bind (new_lines recent fp)
          (\<lambda>n. if n > 0 then repeats_from fp result_fp recent tail else Inr True)
      else if result_changed result_fp result_prev then repeats_from fp result_fp recent tail
      else if writes_after tail then repeats_from fp result_fp recent tail
      else Inr True)"

definition tool_call_repeats :: "string \<Rightarrow> json \<Rightarrow> string option \<Rightarrow> fp_entry list \<Rightarrow> exn + bool" where
  "tool_call_repeats name args result_fp recent =
     repeats_from (tool_fingerprint name args) result_fp recent recent"

text \<open>The check of \<open>_execute_tool_action\<close> before a \<open>read_file\<close>.\<close>

fun pre_read_from :: "tool_fp \<Rightarrow> fp_entry list \<Rightarrow> fp_entry list \<Rightarrow> exn + bool" where
  "pre_read_from fp recent [] = Inr False"
| "pre_read_from fp recent ((previous, _) # tail) =
     (if \<not> tool_fingerprints_match fp previous then pre_read_from fp recent tail
      else if writes_after tail then pre_read_from fp recent tail
      else if \<not> partial_overlap fp previous then Inr True
      else res_bind (new_lines recent fp)
             (\<lambda>n. if n = 0 then Inr True else pre_read_from fp recent tail))"

definition pre_repeat :: "string \<Rightarrow> json \<Rightarrow> fp_entry list \<Rightarrow> exn + bool" where
  "pre_repeat name args recent =
     (if name = ''read_file'' then pre_read_from (tool_fingerprint name args) recent recent
      else tool_call_repeats name args None recent)"

text \<open>\<open>deque(maxlen=TOOL_REPEAT_WINDOW).append\<close>.\<close>

definition window_append :: "fp_entry list \<Rightarrow> fp_entry \<Rightarrow> fp_entry list" where
  "window_append recent x =
     (let r = recent @ [x] in drop (length r - TOOL_REPEAT_WINDOW) r)"

section \<open>The repetition check of the executor\<close>

text \<open>
  \<open>runtime.repeated_tool_call\<close> compares dicts with Python's \<open>==\<close>: key by key, whatever the order,
  and a truth value equals the integer it stands for.
\<close>

fun num_of :: "json \<Rightarrow> int option" where
  "num_of (JInt i) = Some i"
| "num_of (JBool b) = Some (if b then 1 else 0)"
| "num_of _ = None"

function py_eq :: "json \<Rightarrow> json \<Rightarrow> bool" where
  "py_eq (JList xs) v =
     (case v of JList ys \<Rightarrow> length xs = length ys \<and> list_all (\<lambda>(x, y). py_eq x y) (zip xs ys) | _ \<Rightarrow> False)"
| "py_eq (JObj a) v =
     (case v of
        JObj b \<Rightarrow> length a = length b \<and>
          list_all (\<lambda>(k, x). case obj_get b k of None \<Rightarrow> False | Some y \<Rightarrow> py_eq x y) a
      | _ \<Rightarrow> False)"
| "py_eq (JStr s) v = (v = JStr s)"
| "py_eq JNull v = (v = JNull)"
| "py_eq (JInt i) v = (num_of v = Some i)"
| "py_eq (JBool b) v = (num_of v = Some (if b then 1 else 0))"
  by pat_completeness auto
termination
proof (relation "measure (\<lambda>(x, y). size x)", goal_cases)
  case (2 xs v ys z x y)
  then have "x \<in> set xs" by (auto dest: set_zip_leftD)
  then have "size x \<le> size_list size xs" by (rule size_list_estimation') simp
  then show ?case by simp
next
  case (3 a v b z k x y)
  have "size x \<le> size_prod (\<lambda>_. 0) size (k, x)" by simp
  with 3 have "size x \<le> size_list (size_prod (\<lambda>_. 0) size) a"
    by (intro size_list_estimation' [of "(k, x)"]) auto
  then show ?case by simp
qed simp

fun tool_events :: "(string \<times> json) list list \<Rightarrow> exn + (string \<times> json) list list" where
  "tool_events [] = Inr []"
| "tool_events (item # items) =
     (case obj_get item ''role'' of
        None \<Rightarrow> Inl Key_Error
      | Some role \<Rightarrow>
          res_bind (tool_events items) (\<lambda>r. Inr (if role = JStr ''tool'' then item # r else r)))"

definition event_read_only :: "(string \<times> json) list \<Rightarrow> bool" where
  "event_read_only item \<longleftrightarrow>
     (case obj_get item ''name'' of Some (JStr n) \<Rightarrow> n \<in> READ_ONLY_TOOL_NAMES | _ \<Rightarrow> False)"

fun repeated_from :: "string \<Rightarrow> json \<Rightarrow> (string \<times> json) list list \<Rightarrow> bool" where
  "repeated_from name normalized [] = False"
| "repeated_from name normalized (item # tail) =
     (if get_default item ''name'' JNull \<noteq> JStr name then repeated_from name normalized tail
      else if \<not> py_eq (normalize_tool_args name (get_default item ''args'' JNull)) normalized
      then repeated_from name normalized tail
      else if list_ex (\<lambda>e. \<not> event_read_only e) tail then repeated_from name normalized tail
      else True)"

definition repeated_tool_call :: "(string \<times> json) list list \<Rightarrow> string \<Rightarrow> json \<Rightarrow> exn + bool" where
  "repeated_tool_call history name args =
     (if name \<in> READ_ONLY_TOOL_NAMES then Inr False
      else res_bind (tool_events history) (\<lambda>events.
        if length events < 2 then Inr False
        else Inr (repeated_from name (normalize_tool_args name args) (drop (length events - 6) events))))"

section \<open>Deduplication\<close>

definition dedupe_key :: "tool_item \<Rightarrow> string \<times> string" where
  "dedupe_key item =
     (item_name item, dumps_sorted (normalize_tool_args (item_name item) (item_raw_args item)))"

fun dedupe_from :: "(string \<times> string) list \<Rightarrow> tool_item list \<Rightarrow> tool_item list" where
  "dedupe_from seen [] = []"
| "dedupe_from seen (item # items) =
     (if dedupe_key item \<in> set seen then dedupe_from seen items
      else item # dedupe_from (dedupe_key item # seen) items)"

definition dedupe_batch :: "tool_item list \<Rightarrow> tool_item list" where
  "dedupe_batch tools = dedupe_from [] tools"

section \<open>Merging the reads of a batch\<close>

definition read_key :: "tool_item \<Rightarrow> string" where
  "read_key item =
     slashes (py_strip (py_str (or_default (get_default (item_args item) ''path'' (JStr [])) (JStr ''.''))))"

definition is_read :: "tool_item \<Rightarrow> bool" where
  "is_read item \<longleftrightarrow> item_name item = ''read_file''"

text \<open>\<open>read_groups.setdefault(path, []).append(item)\<close>.\<close>

definition group_add :: "(string \<times> tool_item list) list \<Rightarrow> tool_item \<Rightarrow> (string \<times> tool_item list) list" where
  "group_add groups item =
     obj_put groups (read_key item)
       ((case obj_get groups (read_key item) of None \<Rightarrow> [] | Some g \<Rightarrow> g) @ [item])"

definition read_groups :: "tool_item list \<Rightarrow> (string \<times> tool_item list) list" where
  "read_groups tools = foldl group_add [] (filter is_read tools)"

text \<open>\<open>item.get("args", {}).get(...)\<close> raises when the arguments are no dict.\<close>

definition item_interval :: "tool_item \<Rightarrow> exn + interval" where
  "item_interval item =
     (case item_raw_args item of JObj d \<Rightarrow> Inr (args_interval d) | _ \<Rightarrow> Inl Attribute_Error)"

fun item_intervals :: "tool_item list \<Rightarrow> exn + interval list" where
  "item_intervals [] = Inr []"
| "item_intervals (item # items) =
     res_bind (item_interval item) (\<lambda>iv. res_bind (item_intervals items) (\<lambda>ivs. Inr (iv # ivs)))"

definition whole_read :: "string \<Rightarrow> tool_item" where
  "whole_read path = [(''name'', JStr ''read_file''), (''args'', JObj [(''path'', JStr path)])]"

definition range_read :: "string \<Rightarrow> int \<Rightarrow> int \<Rightarrow> tool_item" where
  "range_read path s e =
     [(''name'', JStr ''read_file''),
      (''args'', JObj [(''path'', JStr path), (''start'', JInt s), (''end'', JInt e)])]"

fun read_of :: "string \<Rightarrow> interval \<Rightarrow> tool_item" where
  "read_of path (Some s, Some e) = range_read path s e"
| "read_of path _ = whole_read path"

definition group_reads :: "string \<Rightarrow> interval list \<Rightarrow> tool_item list" where
  "group_reads path merged = concat (map (\<lambda>iv. map (read_of path) (chunk_read_intervals [iv])) merged)"

fun normalize_groups :: "(string \<times> tool_item list) list \<Rightarrow> exn + (tool_item list \<times> int)" where
  "normalize_groups [] = Inr ([], 0)"
| "normalize_groups ((path, grp) # groups) =
     res_bind (item_intervals grp) (\<lambda>ivs.
       let merged = merge_read_intervals ivs
       in res_bind (normalize_groups groups) (\<lambda>(items, n).
            Inr (group_reads path merged @ items, (int (length grp) - int (length merged)) + n)))"

definition normalize_batch_reads :: "tool_item list \<Rightarrow> exn + (tool_item list \<times> int)" where
  "normalize_batch_reads tools =
     res_bind (normalize_groups (read_groups tools))
       (\<lambda>(reads, n). Inr (filter (\<lambda>item. \<not> is_read item) tools @ reads, n))"

section \<open>Partition\<close>

definition extract_tool_path :: "json \<Rightarrow> string option" where
  "extract_tool_path args =
     (case args of
        JObj d \<Rightarrow>
          (case obj_get d ''path'' of
             Some (JStr p) \<Rightarrow> (if py_strip p \<noteq> [] then Some (slashes (py_strip p)) else None)
           | _ \<Rightarrow> None)
      | _ \<Rightarrow> None)"

definition item_path :: "tool_item \<Rightarrow> string option" where
  "item_path item = extract_tool_path (JObj (item_args item))"

record batch_state =
  bs_dirty :: "string option set"
  bs_touched :: "string option set"
  bs_write :: bool
  bs_shell :: bool
  bs_concurrent :: "(nat \<times> tool_item) list"
  bs_serial :: "(nat \<times> tool_item) list"

definition batch_init :: batch_state where
  "batch_init = \<lparr>bs_dirty = {}, bs_touched = {}, bs_write = False, bs_shell = False,
     bs_concurrent = [], bs_serial = []\<rparr>"

abbreviation go_concurrent :: "nat \<times> tool_item \<Rightarrow> batch_state \<Rightarrow> batch_state" where
  "go_concurrent x b \<equiv> b\<lparr>bs_concurrent := bs_concurrent b @ [x]\<rparr>"

abbreviation go_serial :: "nat \<times> tool_item \<Rightarrow> batch_state \<Rightarrow> batch_state" where
  "go_serial x b \<equiv> b\<lparr>bs_serial := bs_serial b @ [x]\<rparr>"

abbreviation touch :: "string option \<Rightarrow> batch_state \<Rightarrow> batch_state" where
  "touch p b \<equiv> b\<lparr>bs_touched := insert p (bs_touched b)\<rparr>"

abbreviation dirty :: "string option \<Rightarrow> batch_state \<Rightarrow> batch_state" where
  "dirty p b \<equiv> b\<lparr>bs_dirty := insert p (bs_dirty b), bs_touched := insert p (bs_touched b)\<rparr>"

definition EVERYTHING :: "string option" where
  "EVERYTHING = Some ''*''"

definition place_scan :: "nat \<times> tool_item \<Rightarrow> batch_state \<Rightarrow> batch_state" where
  "place_scan x b =
     (if \<not> bs_write b \<and> \<not> bs_shell b then touch EVERYTHING (go_concurrent x b) else go_serial x b)"

definition place_read :: "nat \<times> tool_item \<Rightarrow> batch_state \<Rightarrow> batch_state" where
  "place_read x b =
     (let path = item_path (snd x)
      in if \<not> bs_shell b \<and> path \<notin> bs_dirty b then touch path (go_concurrent x b) else go_serial x b)"

definition place_shell :: "nat \<times> tool_item \<Rightarrow> batch_state \<Rightarrow> batch_state" where
  "place_shell x b = go_serial x (dirty EVERYTHING (b\<lparr>bs_write := True, bs_shell := True\<rparr>))"

definition place_write :: "nat \<times> tool_item \<Rightarrow> batch_state \<Rightarrow> batch_state" where
  "place_write x b =
     (let path = item_path (snd x);
          placed = (if \<not> bs_shell b \<and> path \<noteq> None \<and> path \<notin> bs_touched b \<and> EVERYTHING \<notin> bs_touched b
                    then go_concurrent x b else go_serial x b)
      in dirty (if path \<noteq> None then path else EVERYTHING) (placed\<lparr>bs_write := True\<rparr>))"

definition partition_step :: "batch_state \<Rightarrow> nat \<times> tool_item \<Rightarrow> batch_state" where
  "partition_step b x =
     (let name = item_name (snd x)
      in if name \<in> READ_ONLY_TOOL_NAMES then
           (if name \<in> {''list_files'', ''search''} then place_scan x b else place_read x b)
         else if name = ''run_shell'' then place_shell x b
         else place_write x b)"

definition partition_batch_tools ::
  "tool_item list \<Rightarrow> (nat \<times> tool_item) list \<times> (nat \<times> tool_item) list" where
  "partition_batch_tools tools =
     (let b = foldl partition_step batch_init (List.enumerate 0 tools)
      in (bs_concurrent b, bs_serial b))"

text \<open>The plan of a batch: truncation, deduplication, read merging, partition.\<close>

definition plan_batch ::
  "tool_item list \<Rightarrow> exn + ((nat \<times> tool_item) list \<times> (nat \<times> tool_item) list)" where
  "plan_batch tools =
     res_bind (normalize_batch_reads (dedupe_batch (take MAX_PARALLEL_TOOLS tools)))
       (\<lambda>(items, _). Inr (partition_batch_tools items))"

section \<open>Dependent calls\<close>

text \<open>
  Two calls depend on each other when one of them is a shell command, or one writes a path and the
  other scans the workspace or names the same path.  A write without a path is refused by the
  validation of its arguments.
\<close>

definition is_scan :: "tool_item \<Rightarrow> bool" where
  "is_scan item \<longleftrightarrow> item_name item \<in> {''list_files'', ''search''}"

definition is_shell :: "tool_item \<Rightarrow> bool" where
  "is_shell item \<longleftrightarrow> item_name item = ''run_shell''"

definition is_write :: "tool_item \<Rightarrow> bool" where
  "is_write item \<longleftrightarrow> \<not> is_scan item \<and> \<not> is_read item \<and> \<not> is_shell item"

definition write_conflict :: "tool_item \<Rightarrow> tool_item \<Rightarrow> bool" where
  "write_conflict a b \<longleftrightarrow>
     is_write a \<and> (is_scan b \<or> (item_path a \<noteq> None \<and> item_path a = item_path b))"

definition conflict :: "tool_item \<Rightarrow> tool_item \<Rightarrow> bool" where
  "conflict a b \<longleftrightarrow> is_shell a \<or> is_shell b \<or> write_conflict a b \<or> write_conflict b a"

lemma conflict_sym: "conflict a b = conflict b a"
  by (auto simp: conflict_def)

lemma tool_cases:
  obtains (scan) "is_scan item" "\<not> is_read item" "\<not> is_shell item" "\<not> is_write item"
  | (read) "is_read item" "\<not> is_scan item" "\<not> is_shell item" "\<not> is_write item"
  | (shell) "is_shell item" "\<not> is_scan item" "\<not> is_read item" "\<not> is_write item"
  | (store) "is_write item" "\<not> is_scan item" "\<not> is_read item" "\<not> is_shell item"
  by (auto simp: is_scan_def is_read_def is_shell_def is_write_def)

lemma partition_step_simps:
  "is_scan (snd x) \<Longrightarrow> partition_step b x = place_scan x b"
  "is_read (snd x) \<Longrightarrow> partition_step b x = place_read x b"
  "is_shell (snd x) \<Longrightarrow> partition_step b x = place_shell x b"
  "is_write (snd x) \<Longrightarrow> partition_step b x = place_write x b"
  by (auto simp: partition_step_def is_scan_def is_read_def is_shell_def is_write_def
      READ_ONLY_TOOL_NAMES_def Let_def)

text \<open>What the bookkeeping of the loop knows of the calls it has placed.\<close>

definition placed_ok :: "batch_state \<Rightarrow> (nat \<times> tool_item) set \<Rightarrow> bool" where
  "placed_ok b xs \<longleftrightarrow>
     set (bs_concurrent b) \<union> set (bs_serial b) = xs \<and>
     (\<forall>x \<in> xs. is_shell (snd x) \<longrightarrow> bs_shell b \<and> x \<notin> set (bs_concurrent b)) \<and>
     (\<forall>x \<in> xs. is_write (snd x) \<or> is_shell (snd x) \<longrightarrow> bs_write b) \<and>
     (\<forall>x \<in> xs. is_write (snd x) \<and> item_path (snd x) \<noteq> None \<longrightarrow> item_path (snd x) \<in> bs_dirty b) \<and>
     (\<forall>x \<in> xs. is_read (snd x) \<longrightarrow> item_path (snd x) \<in> bs_touched b \<or> bs_shell b) \<and>
     (\<forall>x \<in> set (bs_concurrent b). is_scan (snd x) \<longrightarrow> EVERYTHING \<in> bs_touched b) \<and>
     bs_dirty b \<subseteq> bs_touched b"

lemmas place_defs = place_scan_def place_read_def place_shell_def place_write_def Let_def

lemma placed_step: "placed_ok b xs \<Longrightarrow> placed_ok (partition_step b x) (insert x xs)"
proof (cases "snd x" rule: tool_cases)
  case scan
  then show "placed_ok b xs \<Longrightarrow> ?thesis"
    by (simp add: partition_step_simps place_defs placed_ok_def) blast
next
  case read
  then show "placed_ok b xs \<Longrightarrow> ?thesis"
    by (simp add: partition_step_simps place_defs placed_ok_def) blast
next
  case shell
  then show "placed_ok b xs \<Longrightarrow> ?thesis"
    by (simp add: partition_step_simps place_defs placed_ok_def) blast
next
  case store
  then show "placed_ok b xs \<Longrightarrow> ?thesis"
    by (simp add: partition_step_simps place_defs placed_ok_def) blast
qed

text \<open>A call that goes to the concurrent group depends on no earlier call, a scan apart.\<close>

lemma goes_concurrent:
  assumes "x \<notin> set (bs_concurrent b)"
  shows "x \<in> set (bs_concurrent (partition_step b x)) \<longleftrightarrow>
     (is_scan (snd x) \<and> \<not> bs_write b \<and> \<not> bs_shell b) \<or>
     (is_read (snd x) \<and> \<not> bs_shell b \<and> item_path (snd x) \<notin> bs_dirty b) \<or>
     (is_write (snd x) \<and> \<not> bs_shell b \<and> item_path (snd x) \<noteq> None \<and>
      item_path (snd x) \<notin> bs_touched b \<and> EVERYTHING \<notin> bs_touched b)"
  using assms by (cases "snd x" rule: tool_cases) (simp_all add: partition_step_simps place_defs)

lemma concurrent_new:
  assumes p: "placed_ok b xs" and "x \<notin> xs" and x: "x \<in> set (bs_concurrent (partition_step b x))"
    and y: "y \<in> xs" and c: "conflict (snd y) (snd x)"
  shows "is_scan (snd y) \<and> is_write (snd x) \<and> y \<notin> set (bs_concurrent b)"
proof -
  have new: "x \<notin> set (bs_concurrent b)" using p assms(2) by (auto simp: placed_ok_def)
  have shell: "\<not> is_shell (snd x)" "\<not> bs_shell b" "\<not> is_shell (snd y)"
    using x p y unfolding goes_concurrent [OF new] placed_ok_def
    by (auto simp: is_scan_def is_read_def is_shell_def is_write_def)
  then have wc: "write_conflict (snd y) (snd x) \<or> write_conflict (snd x) (snd y)"
    using c by (simp add: conflict_def)
  consider (scan) "is_scan (snd x)" "\<not> bs_write b" | (read) "is_read (snd x)" "item_path (snd x) \<notin> bs_dirty b"
    | (store) "is_write (snd x)" "item_path (snd x) \<noteq> None" "item_path (snd x) \<notin> bs_touched b"
        "EVERYTHING \<notin> bs_touched b"
    using x unfolding goes_concurrent [OF new] by blast
  then show ?thesis
  proof cases
    case scan
    then have "\<not> is_write (snd y)" "\<not> is_write (snd x)" using p y by (auto simp: placed_ok_def is_write_def)
    with wc show ?thesis by (simp add: write_conflict_def)
  next
    case read
    then have "\<not> is_write (snd x)" "\<not> is_scan (snd x)" by (auto simp: is_write_def is_read_def is_scan_def)
    with wc have "is_write (snd y)" "item_path (snd y) = item_path (snd x)" "item_path (snd y) \<noteq> None"
      unfolding write_conflict_def by metis+
    with p y have "item_path (snd x) \<in> bs_dirty b" unfolding placed_ok_def by metis
    with read show ?thesis by blast
  next
    case store
    have "item_path (snd y) \<noteq> item_path (snd x)" if "is_write (snd y) \<or> is_read (snd y)"
      using that p y store shell unfolding placed_ok_def by (metis subsetD)
    moreover have "\<not> is_scan (snd x)" using store by (simp add: is_write_def)
    ultimately have "is_scan (snd y)"
      using wc shell by (cases "snd y" rule: tool_cases) (auto simp: write_conflict_def)
    moreover from this have "y \<notin> set (bs_concurrent b)" using p store unfolding placed_ok_def by blast
    ultimately show ?thesis using store by blast
  qed
qed

text \<open>
  The division of a list of calls with ascending numbers: every call is placed once, in order, no
  two concurrent calls depend on each other, and a concurrent call that was declared after a serial
  one on which it depends is a write after a scan.
\<close>

definition late_scans_only :: "(nat \<times> tool_item) set \<Rightarrow> (nat \<times> tool_item) set \<Rightarrow> bool" where
  "late_scans_only xs conc \<longleftrightarrow>
     (\<forall>x \<in> xs. \<forall>y \<in> conc. fst x < fst y \<and> conflict (snd x) (snd y) \<longrightarrow>
        x \<notin> conc \<and> is_scan (snd x) \<and> is_write (snd y))"

definition divided :: "batch_state \<Rightarrow> (nat \<times> tool_item) list \<Rightarrow> bool" where
  "divided b xs \<longleftrightarrow>
     placed_ok b (set xs) \<and> set (bs_concurrent b) \<inter> set (bs_serial b) = {} \<and>
     sorted_wrt (\<lambda>x y. fst x < fst y) (bs_concurrent b) \<and>
     sorted_wrt (\<lambda>x y. fst x < fst y) (bs_serial b) \<and>
     late_scans_only (set xs) (set (bs_concurrent b))"

lemma placed_append:
  "(bs_concurrent (partition_step b x) = bs_concurrent b @ [x] \<and> bs_serial (partition_step b x) = bs_serial b) \<or>
   (bs_concurrent (partition_step b x) = bs_concurrent b \<and> bs_serial (partition_step b x) = bs_serial b @ [x])"
  by (cases "snd x" rule: tool_cases) (auto simp: partition_step_simps place_defs)

lemma divided_step:
  assumes d: "divided b xs" and lt: "\<forall>y \<in> set xs. fst y < fst x"
  shows "divided (partition_step b x) (xs @ [x])"
proof -
  let ?b = "partition_step b x"
  have p: "placed_ok b (set xs)" and x: "x \<notin> set xs" using d lt by (auto simp: divided_def)
  have sub: "set (bs_concurrent b) \<subseteq> set xs" "set (bs_serial b) \<subseteq> set xs"
    using p by (auto simp: placed_ok_def)
  have p': "placed_ok ?b (set (xs @ [x]))" using placed_step [OF p] by simp
  have new: "is_scan (snd y) \<and> is_write (snd x) \<and> y \<notin> set (bs_concurrent b)"
    if "x \<in> set (bs_concurrent ?b)" "y \<in> set xs" "conflict (snd y) (snd x)" for y
    by (rule concurrent_new [OF p x that])
  have late: "late_scans_only (set xs) (set (bs_concurrent b))" using d by (simp add: divided_def)
  from placed_append [of b x] show ?thesis
  proof (elim disjE conjE)
    assume b: "bs_concurrent ?b = bs_concurrent b @ [x]" "bs_serial ?b = bs_serial b"
    have "late_scans_only (set (xs @ [x])) (set (bs_concurrent ?b))"
      unfolding late_scans_only_def
    proof (intro ballI impI, elim conjE)
      fix y z
      assume yz: "y \<in> set (xs @ [x])" "z \<in> set (bs_concurrent ?b)" "fst y < fst z"
        "conflict (snd y) (snd z)"
      then have y: "y \<in> set xs" using b sub lt by fastforce
      show "y \<notin> set (bs_concurrent ?b) \<and> is_scan (snd y) \<and> is_write (snd z)"
      proof (cases "z = x")
        case True
        with new [of y] b yz y x show ?thesis by auto
      next
        case False
        with late yz y b x show ?thesis unfolding late_scans_only_def by auto
      qed
    qed
    with d sub lt x p' show ?thesis unfolding divided_def b by (auto simp: sorted_wrt_append)
  next
    assume b: "bs_concurrent ?b = bs_concurrent b" "bs_serial ?b = bs_serial b @ [x]"
    have "late_scans_only (set (xs @ [x])) (set (bs_concurrent ?b))"
      using late sub lt unfolding late_scans_only_def b by fastforce
    with d sub lt x p' show ?thesis unfolding divided_def b by (auto simp: sorted_wrt_append)
  qed
qed

lemma divided_foldl:
  assumes "sorted_wrt (\<lambda>x y. fst x < fst y) xs"
  shows "divided (foldl partition_step batch_init xs) xs"
  using assms
proof (induction xs rule: rev_induct)
  case Nil
  then show ?case by (auto simp: divided_def placed_ok_def batch_init_def late_scans_only_def)
next
  case (snoc x xs)
  then show ?case by (auto simp: sorted_wrt_append intro!: divided_step)
qed

lemma sorted_enumerate_less: "sorted_wrt (\<lambda>x y. fst x < fst y) (List.enumerate n xs)"
  by (induction xs arbitrary: n) (auto simp: in_set_enumerate_eq)

lemma partition_divided:
  assumes "partition_batch_tools tools = (concurrent, serial)"
  shows "set concurrent \<union> set serial = set (List.enumerate 0 tools)"
    and "set concurrent \<inter> set serial = {}"
    and "sorted_wrt (\<lambda>x y. fst x < fst y) concurrent" and "sorted_wrt (\<lambda>x y. fst x < fst y) serial"
    and "\<And>x y. x \<in> set concurrent \<Longrightarrow> y \<in> set concurrent \<Longrightarrow> x \<noteq> y \<Longrightarrow> \<not> conflict (snd x) (snd y)"
    and "\<And>x y. x \<in> set serial \<Longrightarrow> y \<in> set concurrent \<Longrightarrow> fst x < fst y \<Longrightarrow> conflict (snd x) (snd y) \<Longrightarrow>
           is_scan (snd x) \<and> is_write (snd y)"
    and "\<And>x. x \<in> set concurrent \<Longrightarrow> \<not> is_shell (snd x)"
proof -
  let ?b = "foldl partition_step batch_init (List.enumerate 0 tools)"
  have d: "divided ?b (List.enumerate 0 tools)" by (rule divided_foldl [OF sorted_enumerate_less])
  have b: "concurrent = bs_concurrent ?b" "serial = bs_serial ?b"
    using assms by (auto simp: partition_batch_tools_def Let_def)
  have sub: "set concurrent \<union> set serial = set (List.enumerate 0 tools)"
    using d b by (simp add: divided_def placed_ok_def)
  then show "set concurrent \<union> set serial = set (List.enumerate 0 tools)" .
  show "set concurrent \<inter> set serial = {}" "sorted_wrt (\<lambda>x y. fst x < fst y) concurrent"
    "sorted_wrt (\<lambda>x y. fst x < fst y) serial"
    using d b by (auto simp: divided_def)
  show "is_scan (snd x) \<and> is_write (snd y)"
    if "x \<in> set serial" "y \<in> set concurrent" "fst x < fst y" "conflict (snd x) (snd y)" for x y
    using d b sub that unfolding divided_def late_scans_only_def by blast
  show "\<not> is_shell (snd x)" if "x \<in> set concurrent" for x
    using d b sub that unfolding divided_def placed_ok_def by blast
  show "\<not> conflict (snd x) (snd y)" if "x \<in> set concurrent" "y \<in> set concurrent" "x \<noteq> y" for x y
  proof
    assume c: "conflict (snd x) (snd y)"
    have "inj_on fst (set (List.enumerate 0 tools))"
      by (metis distinct_map distinct_upt map_fst_enumerate)
    then have "fst x \<noteq> fst y" using that sub by (metis Un_iff inj_on_contraD)
    then consider "fst x < fst y" | "fst y < fst x" by linarith
    then show False
    proof cases
      case 1
      with d b sub that c show False unfolding divided_def late_scans_only_def by blast
    next
      case 2
      with d b sub that c show False unfolding divided_def late_scans_only_def by (metis Un_iff conflict_sym)
    qed
  qed
qed

section \<open>Read merging keeps what is asked for\<close>

definition item_lines :: "tool_item \<Rightarrow> int set" where
  "item_lines item = interval_lines (args_interval (item_args item))"

text \<open>The lines of one file that the reads of a batch ask for.\<close>

definition requested :: "string \<Rightarrow> tool_item list \<Rightarrow> int set" where
  "requested path items = (\<Union>item \<in> {i \<in> set items. is_read i \<and> read_key i = path}. item_lines item)"

lemma requested_append [simp]: "requested path (xs @ ys) = requested path xs \<union> requested path ys"
  by (auto simp: requested_def)

lemma requested_others [simp]: "requested path (filter (\<lambda>i. \<not> is_read i) items) = {}"
  by (auto simp: requested_def)

lemma py_replace_char: "py_replace [a] [b] s = map (\<lambda>c. if c = a then b else c) s"
  by (induction "[a]" "[b]" s rule: py_replace.induct) (auto simp: starts_with_def)

lemma slashes_map: "slashes s = map (\<lambda>c. if c = CHR 0x5C then CHR ''/'' else c) s"
  by (simp add: slashes_def py_replace_char)

lemma dropWhile_map_same: "(\<And>c. P (f c) = P c) \<Longrightarrow> dropWhile P (map f s) = map f (dropWhile P s)"
  by (induction s) auto

lemma py_strip_slashes: "py_strip (slashes s) = slashes (py_strip s)"
proof -
  have "is_space (if c = CHR 0x5C then CHR ''/'' else c) = is_space c" for c
    by (auto simp: is_space_def)
  then show ?thesis by (simp add: py_strip_def slashes_map dropWhile_map_same rev_map)
qed

lemma slashes_idem [simp]: "slashes (slashes s) = slashes s"
  by (auto simp: slashes_map)

lemma read_key_normal: "slashes (py_strip (read_key item)) = read_key item"
  by (simp add: read_key_def py_strip_slashes)

lemma read_of_simps:
  assumes "path \<noteq> []" and "slashes (py_strip path) = path"
  shows "is_read (read_of path iv)" "read_key (read_of path iv) = path"
    "item_lines (read_of path iv) = interval_lines iv"
  by (cases iv rule: prod.exhaust; cases "fst iv"; cases "snd iv";
      use assms in \<open>simp add: is_read_def item_name_def get_str_def get_default_def whole_read_def range_read_def
        read_key_def item_args_def item_raw_args_def dict_or_empty_def or_default_def item_lines_def
        args_interval_def normalize_read_interval_def read_bound_def interval_lines_def is_definite_def\<close>)+

lemma groups_get:
  "obj_get (foldl group_add g items) p =
     (let f = filter (\<lambda>i. read_key i = p) items
      in case obj_get g p of None \<Rightarrow> if f = [] then None else Some f | Some h \<Rightarrow> Some (h @ f))"
proof (induction items arbitrary: g)
  case (Cons i items)
  then show ?case by (auto simp: group_add_def Let_def split: option.splits)
qed (auto split: option.splits)

lemma read_groups_get:
  "obj_get (read_groups tools) p =
     (let f = filter (\<lambda>i. is_read i \<and> read_key i = p) tools in if f = [] then None else Some f)"
  by (simp add: read_groups_def groups_get Let_def conj_commute)

lemma group_add_distinct: "distinct (map fst g) \<Longrightarrow> distinct (map fst (foldl group_add g items))"
  by (induction items arbitrary: g) (auto simp: group_add_def distinct_obj_put)

lemma item_intervals_lines:
  "item_intervals grp = Inr ivs \<Longrightarrow> intervals_lines ivs = (\<Union>i \<in> set grp. item_lines i) \<and> length ivs = length grp"
proof (induction grp arbitrary: ivs)
  case (Cons i grp)
  then show ?case
    by (cases "item_raw_args i"; cases "item_intervals grp")
      (auto simp: item_interval_def item_lines_def item_args_def dict_or_empty_def)
qed simp

lemma chunk_intervals_append:
  "chunk_read_intervals (xs @ ys) = chunk_read_intervals xs @ chunk_read_intervals ys"
  by (induction xs rule: chunk_read_intervals.induct) auto

lemma group_reads_map: "group_reads path merged = map (read_of path) (chunk_read_intervals merged)"
proof (induction merged)
  case (Cons iv merged)
  then show ?case
    using chunk_intervals_append [of "[iv]" merged] by (simp add: group_reads_def)
qed (simp add: group_reads_def)

lemma requested_group:
  assumes "path \<noteq> []" and "slashes (py_strip path) = path"
  shows "requested p (group_reads path merged) = (if p = path then intervals_lines merged else {})"
proof -
  have "requested p (map (read_of path) ivs) = (if p = path then intervals_lines ivs else {})" for ivs
    using read_of_simps [OF assms] by (auto simp: requested_def intervals_lines_def)
  then show ?thesis by (simp add: group_reads_map chunk_intervals_lines)
qed

lemma normalize_groups_requested:
  assumes "normalize_groups groups = Inr (items, n)" and "distinct (map fst groups)"
    and "\<And>p grp. (p, grp) \<in> set groups \<Longrightarrow> p \<noteq> [] \<and> slashes (py_strip p) = p"
  shows "requested p items = (case obj_get groups p of None \<Rightarrow> {} | Some grp \<Rightarrow> \<Union>i \<in> set grp. item_lines i)
    \<and> list_all is_read items"
  using assms
proof (induction groups arbitrary: items n)
  case Nil
  then show ?case by (simp add: requested_def)
next
  case (Cons g groups)
  obtain path grp where g: "g = (path, grp)" by (cases g)
  from Cons.prems(1) obtain ivs items' n' where ok: "item_intervals grp = Inr ivs"
    "normalize_groups groups = Inr (items', n')"
    "items = group_reads path (merge_read_intervals ivs) @ items'"
    unfolding g by (auto simp: Let_def res_bind_def split: sum.splits)
  have path: "path \<noteq> []" "slashes (py_strip path) = path" using Cons.prems(3) [of path grp] g by auto
  have IH: "requested p items' = (case obj_get groups p of None \<Rightarrow> {} | Some grp \<Rightarrow> \<Union>i \<in> set grp. item_lines i)
      \<and> list_all is_read items'"
    using Cons.prems by (intro Cons.IH [OF ok(2)]) (auto simp: g)
  have "obj_get groups path = None"
    using Cons.prems(2) by (auto simp: g obj_get_map_of map_of_eq_None_iff)
  with IH ok(3) item_intervals_lines [OF ok(1)] requested_group [OF path] read_of_simps(1) [OF path] show ?case
    by (auto simp: g merge_intervals_lines group_reads_map list_all_iff)
qed

text \<open>
  Merging the reads of a batch keeps, for every path, exactly the lines the batch asks for (a
  read with an open end counts as the whole file), and the new batch is the calls that are no reads,
  in their order, followed by reads.
\<close>

theorem batch_keeps_requests:
  assumes "normalize_batch_reads tools = Inr (items, n)"
    and "list_all (\<lambda>i. is_read i \<longrightarrow> read_key i \<noteq> []) tools"
  shows "requested p items = requested p tools \<and>
    (\<exists>reads. items = filter (\<lambda>i. \<not> is_read i) tools @ reads \<and> list_all is_read reads)"
proof -
  from assms(1) obtain reads n' where ok: "normalize_groups (read_groups tools) = Inr (reads, n')"
    "items = filter (\<lambda>i. \<not> is_read i) tools @ reads"
    by (auto simp: normalize_batch_reads_def res_bind_def split: sum.splits)
  have d: "distinct (map fst (read_groups tools))"
    by (simp add: read_groups_def group_add_distinct)
  have keys: "path \<noteq> [] \<and> slashes (py_strip path) = path" if "(path, grp) \<in> set (read_groups tools)" for path grp
  proof -
    have "obj_get (read_groups tools) path = Some grp" using that d by (simp add: obj_get_map_of)
    then have "filter (\<lambda>i. is_read i \<and> read_key i = path) tools \<noteq> []"
      by (auto simp: read_groups_get Let_def split: if_splits)
    then obtain i where "i \<in> set tools" "is_read i" "read_key i = path" by (auto simp: filter_empty_conv)
    with assms(2) read_key_normal [of i] show ?thesis by (auto simp: list_all_iff)
  qed
  from normalize_groups_requested [OF ok(1) d keys, where p = p]
  have "requested p reads = requested p tools \<and> list_all is_read reads"
    by (auto simp: read_groups_get Let_def requested_def filter_empty_conv split: if_splits)
  with ok(2) show ?thesis by auto
qed

theorem batch_keeps_requests_witness:
  "normalize_batch_reads
     [range_read ''a'' 1 10, [(''name'', JStr ''run_shell'')], range_read ''a'' 5 260] =
     Inr ([[(''name'', JStr ''run_shell'')], range_read ''a'' 1 200, range_read ''a'' 201 260], 1) \<and>
   requested ''a'' [[(''name'', JStr ''run_shell'')], range_read ''a'' 1 200, range_read ''a'' 201 260] =
   requested ''a'' [range_read ''a'' 1 10, [(''name'', JStr ''run_shell'')], range_read ''a'' 5 260]"
proof -
  let ?in = "[range_read ''a'' 1 10, [(''name'', JStr ''run_shell'')], range_read ''a'' 5 260]"
  have key: "is_read (range_read ''a'' s e)" "read_key (range_read ''a'' s e) = ''a''"
    "item_raw_args (range_read ''a'' s e) =
       JObj [(''path'', JStr ''a''), (''start'', JInt s), (''end'', JInt e)]" for s e
    using read_of_simps(1,2) [of "''a''" "(Some s, Some e)"]
    by (simp_all add: py_strip_def is_space_def slashes_map range_read_def item_raw_args_def get_default_def)
  have shell: "\<not> is_read [(''name'', JStr ''run_shell'')]"
    by (simp add: is_read_def item_name_def get_str_def get_default_def)
  have n: "normalize_batch_reads ?in =
      Inr ([[(''name'', JStr ''run_shell'')], range_read ''a'' 1 200, range_read ''a'' 201 260], 1)"
    by (simp add: normalize_batch_reads_def read_groups_def group_add_def key shell item_interval_def
        args_interval_def get_default_def normalize_read_interval_def read_bound_def group_reads_def
        merge_read_intervals_def is_definite_def bounds_of_def merge_ranges_def definite_def
        MAX_READ_CHUNK_LINES_def chunk_from.simps)
  with batch_keeps_requests [OF n, of "''a''"] show ?thesis by (simp add: key shell)
qed

section \<open>What deduplication drops\<close>

lemma dedupe_key_range: "dedupe_key (range_read path s e) = dedupe_key (range_read path s' e')"
  by (simp add: dedupe_key_def range_read_def item_name_def item_raw_args_def get_str_def get_default_def
      normalize_tool_args_def normalize_args_def READ_ONLY_TOOL_NAMES_def obj_pop_def Let_def)

lemma dedupe_from_seen:
  "(\<And>i. i \<in> set items \<Longrightarrow> dedupe_key i \<in> set seen) \<Longrightarrow> dedupe_from seen items = []"
  by (induction items) auto

text \<open>
  The deduplication before the merge identifies all reads of one path: of a batch that reads any
  ranges of one file only the first range is left, so the other lines are never read.
\<close>

theorem dedupe_drops_ranges:
  "dedupe_batch (map (\<lambda>(s, e). range_read path s e) ((s0, e0) # ranges)) = [range_read path s0 e0]"
  using dedupe_key_range [of path _ _ s0 e0]
  by (auto simp: dedupe_batch_def intro!: dedupe_from_seen)

section \<open>What the repetition check refuses\<close>

lemma overlaps_whole: "overlaps_enough (Some s, Some e) (None, None)" "overlaps_enough (None, None) (Some s, Some e)"
  by (auto simp: overlaps_enough_def interval_overlap_ratio_def READ_OVERLAP_RATIO_def Let_def)

lemma window_intervals_simps [simp]:
  "window_intervals path [] = []"
  "window_intervals path ((Read_Fp p iv, h) # w) =
     (if p = path then [iv] else []) @ window_intervals path w"
  by (simp_all add: window_intervals_def List.map_filter_def)

lemma window_intervals_mem: "(Read_Fp path iv, h) \<in> set w \<Longrightarrow> iv \<in> set (window_intervals path w)"
  by (force simp: window_intervals_def List.map_filter_def)

text \<open>Only a definite read adds lines; what it adds is counted against the definite reads.\<close>

lemma new_lines_zero:
  assumes "new_lines recent (Read_Fp path iv) = Inr n" and "n \<le> 0" and "is_definite iv"
  shows "range_lines (bounds_of iv) \<subseteq>
           ranges_lines (map bounds_of (filter is_definite (window_intervals path recent)))"
proof -
  let ?m = "merge_read_intervals (window_intervals path recent)"
  have "all_comparable ?m" using assms(1,3) by (auto simp: uncovered_read_lines_def split: if_splits)
  from uncovered_positive [OF assms(3) this] assms(1,2) show ?thesis
    by (auto simp: merge_intervals_definite)
qed

lemma pre_read_from_refuses:
  assumes "pre_read_from (Read_Fp path iv) recent w = Inr True" and "is_definite iv"
    and "set w \<subseteq> set recent"
  shows "range_lines (bounds_of iv) \<subseteq>
           ranges_lines (map bounds_of (filter is_definite (window_intervals path recent))) \<and>
         (\<exists>before previous h tail. w = before @ (previous, h) # tail \<and>
            tool_fingerprints_match (Read_Fp path iv) previous \<and> \<not> writes_after tail)"
  using assms
proof (induction w)
  case (Cons x tail)
  obtain previous h where x: "x = (previous, h)" by (cases x)
  consider "pre_read_from (Read_Fp path iv) recent tail = Inr True"
    | "tool_fingerprints_match (Read_Fp path iv) previous" "\<not> writes_after tail"
      "\<not> partial_overlap (Read_Fp path iv) previous"
    | "tool_fingerprints_match (Read_Fp path iv) previous" "\<not> writes_after tail"
      "new_lines recent (Read_Fp path iv) = Inr 0"
    using Cons.prems(1) unfolding x by (auto simp: res_bind_def split: if_splits sum.splits)
  then show ?case
  proof cases
    case 1
    with Cons have "range_lines (bounds_of iv) \<subseteq>
           ranges_lines (map bounds_of (filter is_definite (window_intervals path recent))) \<and>
         (\<exists>before previous h tail'. tail = before @ (previous, h) # tail' \<and>
            tool_fingerprints_match (Read_Fp path iv) previous \<and> \<not> writes_after tail')"
      by simp
    then show ?thesis by (metis append_Cons)
  next
    case 2
    then have "previous = Read_Fp path iv" by (cases previous) auto
    with Cons.prems(3) x have "iv \<in> set (window_intervals path recent)" by (auto intro: window_intervals_mem)
    then have "range_lines (bounds_of iv) \<subseteq>
        ranges_lines (map bounds_of (filter is_definite (window_intervals path recent)))"
      using assms(2) by (auto simp: ranges_lines_def)
    with 2 x show ?thesis by blast
  next
    case 3
    from new_lines_zero [OF this(3) _ assms(2)] 3 x show ?thesis by blast
  qed
qed simp

text \<open>
  A read of a definite range that is refused before it runs asks for no line that the definite
  reads in the window have not covered, and some earlier read of the file that it overlaps is
  followed by no write.
\<close>

theorem refused_read_is_covered:
  assumes "pre_repeat ''read_file'' args recent = Inr True"
    and "tool_fingerprint ''read_file'' args = Read_Fp path iv" and "is_definite iv"
  shows "range_lines (bounds_of iv) \<subseteq>
           ranges_lines (map bounds_of (filter is_definite (window_intervals path recent))) \<and>
         (\<exists>before previous h tail. recent = before @ (previous, h) # tail \<and>
            tool_fingerprints_match (Read_Fp path iv) previous \<and> \<not> writes_after tail)"
  using assms pre_read_from_refuses [of path iv recent recent] by (simp add: pre_repeat_def)

lemma fingerprint_range:
  assumes "path \<noteq> []" and "normalized_path ''read_file'' [(''path'', JStr path)] = path"
  shows "tool_fingerprint ''read_file'' (JObj [(''path'', JStr path), (''start'', JInt s), (''end'', JInt e)]) =
      Read_Fp path (Some s, Some e)"
    "tool_fingerprint ''read_file'' (JObj [(''path'', JStr path)]) = Read_Fp path (None, None)"
  using assms
  by (simp_all add: tool_fingerprint_def dict_or_empty_def args_interval_def get_default_def
      normalize_read_interval_def read_bound_def normalized_path_def normalize_args_def
      READ_ONLY_TOOL_NAMES_def obj_pop_def Let_def)

lemma normalized_a: "normalized_path ''read_file'' [(''path'', JStr ''a'')] = ''a''"
  by (simp add: normalized_path_def get_default_def normalize_args_def READ_ONLY_TOOL_NAMES_def
      obj_pop_def Let_def slashes_map py_strip_def is_space_def rstrip_slash_def or_default_def)

theorem refused_read_is_covered_witness:
  "pre_repeat ''read_file'' (JObj [(''path'', JStr ''a''), (''start'', JInt 40), (''end'', JInt 120)])
     [(Read_Fp ''a'' (Some 1, Some 100), Some ''h1''), (Read_Fp ''a'' (Some 90, Some 200), Some ''h2'')] =
     Inr True \<and>
   {40..120 :: int} \<subseteq> {1..100} \<union> {90..200}"
proof -
  let ?w = "[(Read_Fp ''a'' (Some 1, Some 100), Some ''h1''), (Read_Fp ''a'' (Some 90, Some 200), Some ''h2'')]"
  have fp: "tool_fingerprint ''read_file'' (JObj [(''path'', JStr ''a''), (''start'', JInt 40), (''end'', JInt 120)]) =
      Read_Fp ''a'' (Some 40, Some 120)"
    by (simp add: fingerprint_range normalized_a)
  have r: "pre_repeat ''read_file'' (JObj [(''path'', JStr ''a''), (''start'', JInt 40), (''end'', JInt 120)]) ?w =
      Inr True"
    by (simp add: pre_repeat_def fp overlaps_enough_def interval_overlap_ratio_def READ_OVERLAP_RATIO_def
        writes_after_def READ_ONLY_TOOL_NAMES_def uncovered_read_lines_def merge_read_intervals_def
        merge_ranges_def definite_def uncovered_from.simps)
  with refused_read_is_covered [OF r fp] show ?thesis by (simp add: range_lines_def)
qed

text \<open>One whole read and one read of a range in the window make every later read of the file raise.\<close>

lemma merge_from_nonempty: "merge_from r rs \<noteq> []"
  by (induction r rs rule: merge_from.induct) auto

lemma mixed_new_lines:
  assumes "(None, None) \<in> set (window_intervals path recent)" and "iv' \<in> set (window_intervals path recent)"
    and "is_definite iv'" and "is_definite iv"
  shows "new_lines recent (Read_Fp path iv) = Inl Type_Error"
proof -
  let ?ws = "window_intervals path recent"
  let ?ms = "merge_read_intervals ?ws"
  have "(None, None) \<in> set (filter (\<lambda>iv. \<not> is_definite iv) ?ms)"
    unfolding merge_intervals_open using assms(1) by (simp add: is_definite_def)
  moreover have "merge_ranges (map bounds_of (filter is_definite ?ws)) \<noteq> []"
  proof -
    have "sort (map bounds_of (filter is_definite ?ws)) \<noteq> []"
      using assms(2,3) by (metis filter_empty_conv length_0_conv length_sort map_is_Nil_conv)
    then show ?thesis
      by (cases "sort (map bounds_of (filter is_definite ?ws))") (auto simp: merge_ranges_def merge_from_nonempty)
  qed
  then obtain r where "r \<in> set (merge_ranges (map bounds_of (filter is_definite ?ws)))"
    by (metis list.set_intros(1) neq_Nil_conv)
  then have "r \<in> bounds_of ` set (filter is_definite ?ms)" by (metis merge_intervals_definite set_map)
  ultimately have "\<not> all_comparable ?ms" using mixed_not_comparable by auto
  with assms(4) show ?thesis by (simp add: uncovered_read_lines_def)
qed

text \<open>
  When the window holds a read of a whole file and, after it and without a write in between, a
  read of a range of that file, the check of the next read of any range of the file raises TypeError
  (it sorts bounds that are numbers and None).
\<close>

theorem mixed_reads_raise:
  assumes "tool_fingerprint ''read_file'' args = Read_Fp path (Some s, Some e)"
    and "recent = (Read_Fp path (None, None), h) # w" and "\<not> writes_after w"
    and "(Read_Fp path (Some a, Some b), h') \<in> set w"
  shows "pre_repeat ''read_file'' args recent = Inl Type_Error"
proof -
  have "new_lines recent (Read_Fp path (Some s, Some e)) = Inl Type_Error"
    using assms(2,4) by (intro mixed_new_lines [where iv' = "(Some a, Some b)"])
      (auto dest: window_intervals_mem)
  with assms(1-3) show ?thesis by (simp add: pre_repeat_def overlaps_whole)
qed

theorem mixed_reads_raise_witness:
  "pre_repeat ''read_file'' (JObj [(''path'', JStr ''a''), (''start'', JInt 300), (''end'', JInt 350)])
     [(tool_fingerprint ''read_file'' (JObj [(''path'', JStr ''a'')]), Some ''h1''),
      (tool_fingerprint ''read_file'' (JObj [(''path'', JStr ''a''), (''start'', JInt 201), (''end'', JInt 250)]),
       Some ''h2'')] = Inl Type_Error"
  by (rule mixed_reads_raise [of _ "''a''" 300 350 _ "Some ''h1''"
        "[(Read_Fp ''a'' (Some 201, Some 250), Some ''h2'')]" 201 250 "Some ''h2''"])
    (simp_all add: fingerprint_range normalized_a writes_after_def READ_ONLY_TOOL_NAMES_def)

section \<open>The two groups of a batch\<close>

text \<open>
  The partition places every call of a batch exactly once and in order, no two calls of the
  concurrent group depend on each other, and the only concurrent calls that overtake an earlier
  serial call on which they depend are writes that overtake a scan.
\<close>

theorem concurrent_calls_independent:
  assumes "partition_batch_tools tools = (concurrent, serial)"
  shows "set concurrent \<union> set serial = set (List.enumerate 0 tools) \<and>
    set concurrent \<inter> set serial = {} \<and>
    sorted_wrt (\<lambda>x y. fst x < fst y) concurrent \<and> sorted_wrt (\<lambda>x y. fst x < fst y) serial \<and>
    (\<forall>x \<in> set concurrent. \<forall>y \<in> set concurrent. x \<noteq> y \<longrightarrow> \<not> conflict (snd x) (snd y)) \<and>
    (\<forall>x \<in> set serial. \<forall>y \<in> set concurrent.
       fst x < fst y \<and> conflict (snd x) (snd y) \<longrightarrow> is_scan (snd x) \<and> is_write (snd y))"
  using partition_divided [OF assms] by blast

definition call_of :: "string \<Rightarrow> string \<Rightarrow> tool_item" where
  "call_of name path = [(''name'', JStr name), (''args'', JObj [(''path'', JStr path)])]"

lemma call_of_simps [simp]:
  "item_name (call_of name path) = name"
  "py_strip path \<noteq> [] \<Longrightarrow> item_path (call_of name path) = Some (slashes (py_strip path))"
  by (simp_all add: call_of_def item_name_def get_str_def get_default_def item_path_def item_args_def
      item_raw_args_def dict_or_empty_def extract_tool_path_def)

lemma call_of_kinds [simp]:
  "is_scan (call_of ''list_files'' p)" "is_write (call_of ''write_file'' p)" "is_read (call_of ''read_file'' p)"
  by (simp_all add: is_scan_def is_write_def is_read_def is_shell_def)

lemma placed_evaluate:
  "py_strip path \<noteq> [] \<Longrightarrow> partition_step b (n, call_of ''write_file'' path) =
     place_write (n, call_of ''write_file'' path) b"
  "partition_step b (n, call_of ''list_files'' path) = place_scan (n, call_of ''list_files'' path) b"
  "partition_step b (n, call_of ''read_file'' path) = place_read (n, call_of ''read_file'' path) b"
  by (simp_all add: partition_step_simps)

lemma plain_paths: "py_strip ''a'' = ''a''" "py_strip ''b'' = ''b''" "slashes ''a'' = ''a''" "slashes ''b'' = ''b''"
  by (simp_all add: py_strip_def is_space_def slashes_map)

theorem concurrent_calls_independent_witness:
  "partition_batch_tools
     [call_of ''write_file'' ''a'', call_of ''read_file'' ''b'', call_of ''write_file'' ''b''] =
     ([(0, call_of ''write_file'' ''a''), (1, call_of ''read_file'' ''b'')], [(2, call_of ''write_file'' ''b'')]) \<and>
   \<not> conflict (call_of ''write_file'' ''a'') (call_of ''read_file'' ''b'')"
proof -
  have p: "partition_batch_tools
     [call_of ''write_file'' ''a'', call_of ''read_file'' ''b'', call_of ''write_file'' ''b''] =
     ([(0, call_of ''write_file'' ''a''), (1, call_of ''read_file'' ''b'')], [(2, call_of ''write_file'' ''b'')])"
    by (simp add: partition_batch_tools_def placed_evaluate plain_paths place_defs batch_init_def EVERYTHING_def)
  from concurrent_calls_independent [OF p]
  have "\<not> conflict (call_of ''write_file'' ''a'') (call_of ''read_file'' ''b'')" by simp
  with p show ?thesis by blast
qed

text \<open>
  A listing between two writes is put into the serial group while the later write runs
  concurrently: the listing, declared before that write, runs after it.
\<close>

theorem scan_sees_later_write:
  "partition_batch_tools
     [call_of ''write_file'' ''a'', call_of ''list_files'' ''.'', call_of ''write_file'' ''b''] =
     ([(0, call_of ''write_file'' ''a''), (2, call_of ''write_file'' ''b'')], [(1, call_of ''list_files'' ''.'')]) \<and>
   conflict (call_of ''list_files'' ''.'') (call_of ''write_file'' ''b'')"
  by (simp add: partition_batch_tools_def placed_evaluate plain_paths place_defs batch_init_def EVERYTHING_def
      conflict_def write_conflict_def)

text \<open>
  Once the window holds any definite read of a file with no write after it, a read of the whole
  file is refused as a repetition, however few lines were read.
\<close>

theorem whole_read_refused:
  assumes "tool_fingerprint ''read_file'' args = Read_Fp path (None, None)"
    and "recent = before @ (Read_Fp path (Some s, Some e), h) # w" and "\<not> writes_after w"
  shows "pre_repeat ''read_file'' args recent = Inr True"
proof -
  have "pre_read_from (Read_Fp path (None, None)) recent (before @ (Read_Fp path (Some s, Some e), h) # w) = Inr True"
    using assms(3)
    by (induction before) (auto simp: overlaps_whole uncovered_read_lines_def is_definite_def
        elim!: partial_overlap.elims elim: tool_fingerprints_match.elims)
  with assms(1,2) show ?thesis by (simp add: pre_repeat_def)
qed

theorem whole_read_refused_witness:
  "pre_repeat ''read_file'' (JObj [(''path'', JStr ''a'')]) [(Read_Fp ''a'' (Some 900, Some 901), Some ''h'')] =
     Inr True"
  by (rule whole_read_refused [where before = "[]" and w = "[]"])
    (auto simp: fingerprint_range normalized_a writes_after_def)

end
