(* ===== verification/Workspace_Tools.thy ===== *)
theory Workspace_Tools
  imports Tool_Batches
begin

text \<open>
  The tools an agent can call (\<open>pico/tools.py\<close>): the validation of their arguments and what they
  do to the workspace, and the resolution of a path with its check that it stays below the root
  (\<open>Pico.path\<close>).

  The file system maps resolved paths (lists of components) to texts, beside the set of its
  directories.  Parameters are what the operating system and other programs decide: how a raw path
  resolves, the order of directory entries, the outcome of \<open>rg\<close>, the regular expressions of Python,
  the clock of the search and the outcome of a shell command with the workspace it leaves.
\<close>

section \<open>Exceptions of a tool\<close>

text \<open>
  An exception with the text \<open>str(exc)\<close> that ends up in the result, and the two that pass the
  executor.
\<close>

datatype tool_exn =
    Tool_Error exn string
  | Process_Cleanup_Failed
  | Tool_Cancelled

abbreviation value_error :: "string \<Rightarrow> ('s, tool_exn, 'a) act" where
  "value_error msg \<equiv> act_raise (Tool_Error Value_Error msg)"

section \<open>The workspace\<close>

type_synonym rpath = "string list"

record workspace =
  ws_files :: "rpath \<Rightarrow> string option"
  ws_dirs :: "rpath set"

definition is_file :: "workspace \<Rightarrow> rpath \<Rightarrow> bool" where
  "is_file w p \<longleftrightarrow> ws_files w p \<noteq> None"

definition is_dir :: "workspace \<Rightarrow> rpath \<Rightarrow> bool" where
  "is_dir w p \<longleftrightarrow> p \<in> ws_dirs w"

definition read_text :: "workspace \<Rightarrow> rpath \<Rightarrow> string" where
  "read_text w p = (case ws_files w p of None \<Rightarrow> [] | Some t \<Rightarrow> t)"

text \<open>The outcome of \<open>rg\<close>: not installed, not started or timed out, or ended.\<close>

datatype rg_outcome =
    Rg_Missing
  | Rg_Stuck
  | Rg_Ended int string string

record shell_result =
  sh_returncode :: int
  sh_stdout :: string
  sh_stderr :: string
  sh_cancelled :: bool
  sh_timed_out :: bool
  sh_truncated :: bool
  sh_cleaned :: bool

record tool_context =
  tc_root :: rpath
  tc_resolve :: "string \<Rightarrow> rpath"
  tc_iterdir :: "workspace \<Rightarrow> rpath \<Rightarrow> rpath list"
  tc_walk :: "workspace \<Rightarrow> rpath \<Rightarrow> rpath list"
  tc_python_message :: "exn \<Rightarrow> json \<Rightarrow> string"
  tc_rg :: "string \<Rightarrow> rpath \<Rightarrow> workspace \<Rightarrow> rg_outcome"
  tc_compile :: "string \<Rightarrow> bool \<Rightarrow> string + (string \<Rightarrow> bool)"
  tc_late :: "nat \<Rightarrow> bool"
  tc_shell :: "string \<Rightarrow> int \<Rightarrow> workspace \<Rightarrow> (tool_exn + shell_result) \<times> workspace"
  tc_depth :: nat
  tc_max_depth :: nat
  tc_delegate :: "(string \<times> json) list \<Rightarrow> workspace \<Rightarrow> (tool_exn + string) \<times> workspace"

type_synonym 'a tool_act = "(workspace, tool_exn, 'a) act"

section \<open>Paths\<close>

text \<open>
  \<open>os.path.commonpath([root, resolved]) == root\<close>. \<open>Path\<close> raises for a value that is not text.
\<close>

definition under_root :: "rpath \<Rightarrow> rpath \<Rightarrow> bool" where
  "under_root root p \<longleftrightarrow> take (length root) p = root"

definition path_escape_message :: "string \<Rightarrow> string" where
  "path_escape_message raw = ''path escapes workspace: '' @ raw"

definition context_path :: "tool_context \<Rightarrow> json \<Rightarrow> rpath tool_act" where
  "context_path c raw =
     (case raw of
        JStr text \<Rightarrow>
          (let resolved = tc_resolve c text
           in if under_root (tc_root c) resolved then act_ret resolved
              else value_error (path_escape_message text))
      | _ \<Rightarrow> act_raise (Tool_Error Type_Error (tc_python_message c Type_Error raw)))"

text \<open>\<open>path.relative_to(root)\<close> as text.\<close>

definition relative_text :: "tool_context \<Rightarrow> rpath \<Rightarrow> string" where
  "relative_text c p =
     (let r = drop (length (tc_root c)) p in if r = [] then ''.'' else py_join ''/'' r)"

section \<open>Arguments\<close>

definition required :: "(string \<times> json) list \<Rightarrow> string \<Rightarrow> json tool_act" where
  "required args k =
     (case obj_get args k of
        None \<Rightarrow> act_raise (Tool_Error Key_Error (repr_str k))
      | Some v \<Rightarrow> act_ret v)"

definition int_arg :: "tool_context \<Rightarrow> (string \<times> json) list \<Rightarrow> string \<Rightarrow> int \<Rightarrow> int tool_act" where
  "int_arg c args k d =
     (let v = get_default args k (JInt d)
      in case py_int v of
           Inl e \<Rightarrow> act_raise (Tool_Error e (tc_python_message c e v))
         | Inr i \<Rightarrow> act_ret i)"

definition check :: "bool \<Rightarrow> string \<Rightarrow> unit tool_act" where
  "check ok msg = (if ok then act_ret () else value_error msg)"

definition check_ws :: "(workspace \<Rightarrow> bool) \<Rightarrow> string \<Rightarrow> unit tool_act" where
  "check_ws ok msg = act_bind (act_get ok) (\<lambda>b. check b msg)"

section \<open>Counting and replacing\<close>

text \<open>\<open>text.count(old)\<close> for a nonempty \<open>old\<close>: occurrences without overlap.\<close>

function py_count :: "string \<Rightarrow> string \<Rightarrow> nat" where
  "py_count old [] = 0"
| "py_count old (c # cs) =
     (if old \<noteq> [] \<and> starts_with old (c # cs) then Suc (py_count old (drop (length old) (c # cs)))
      else py_count old cs)"
  by pat_completeness auto
termination
  by (relation "measure (\<lambda>(old, s). length s)") (auto simp: neq_Nil_conv)

text \<open>\<open>text.replace(old, new, 1)\<close>.\<close>

fun py_replace_first :: "string \<Rightarrow> string \<Rightarrow> string \<Rightarrow> string" where
  "py_replace_first old new [] = []"
| "py_replace_first old new (c # cs) =
     (if old \<noteq> [] \<and> starts_with old (c # cs) then new @ drop (length old) (c # cs)
      else c # py_replace_first old new cs)"

section \<open>Validation\<close>

definition read_range :: "tool_context \<Rightarrow> (string \<times> json) list \<Rightarrow> (int \<times> int) tool_act" where
  "read_range c args =
     act_bind (int_arg c args ''start'' 1) (\<lambda>start.
     act_bind (int_arg c args ''end'' 200) (\<lambda>stop.
     act_then (check (\<not> (start < 1 \<or> stop < start)) ''invalid line range'')
       (act_ret (start, stop))))"

definition shell_args :: "tool_context \<Rightarrow> (string \<times> json) list \<Rightarrow> (string \<times> int) tool_act" where
  "shell_args c args =
     (let command = py_strip (get_str args ''command'' []) in
      act_then (check (command \<noteq> []) ''command must not be empty'')
        (act_bind (int_arg c args ''timeout'' 20) (\<lambda>timeout.
         act_then (check (\<not> (timeout < 1 \<or> timeout > 120)) ''timeout must be in [1, 120]'')
           (act_ret (command, timeout)))))"

text \<open>The checks that \<open>patch_file\<close> makes twice; the result is the text of the file.\<close>

definition patch_checks :: "(string \<times> json) list \<Rightarrow> rpath \<Rightarrow> string tool_act" where
  "patch_checks args path =
     act_then (check_ws (\<lambda>w. is_file w path) ''path is not a file'')
       (let old_text = get_str args ''old_text'' [] in
        act_then (check (old_text \<noteq> []) ''old_text must not be empty'')
          (act_then (check (obj_get args ''new_text'' \<noteq> None) ''missing new_text'')
             (act_bind (act_get (\<lambda>w. read_text w path)) (\<lambda>text.
              let count = py_count old_text text in
              act_then (check (count = 1)
                  (''old_text must occur exactly once, found '' @ nat_str count))
                (act_ret text)))))"

definition delegate_checks :: "tool_context \<Rightarrow> (string \<times> json) list \<Rightarrow> bool \<Rightarrow> unit tool_act" where
  "delegate_checks c args depth_first =
     (let task_ok = check (py_strip (get_str args ''task'' []) \<noteq> []) ''task must not be empty'';
          depth_ok = check (\<not> tc_depth c \<ge> tc_max_depth c) ''delegate depth exceeded''
      in if depth_first then act_then depth_ok task_ok else act_then task_ok depth_ok)"

definition validate_list :: "tool_context \<Rightarrow> (string \<times> json) list \<Rightarrow> unit tool_act" where
  "validate_list c args =
     act_bind (context_path c (get_default args ''path'' (JStr ''.''))) (\<lambda>path.
       check_ws (\<lambda>w. is_dir w path) ''path is not a directory'')"

definition validate_read :: "tool_context \<Rightarrow> (string \<times> json) list \<Rightarrow> unit tool_act" where
  "validate_read c args =
     act_bind (required args ''path'') (\<lambda>raw.
     act_bind (context_path c raw) (\<lambda>path.
     act_then (check_ws (\<lambda>w. is_file w path) ''path is not a file'')
       (act_then (read_range c args) (act_ret ()))))"

definition validate_search :: "tool_context \<Rightarrow> (string \<times> json) list \<Rightarrow> unit tool_act" where
  "validate_search c args =
     act_then (check (py_strip (get_str args ''pattern'' []) \<noteq> []) ''pattern must not be empty'')
       (act_then (context_path c (get_default args ''path'' (JStr ''.''))) (act_ret ()))"

definition validate_write :: "tool_context \<Rightarrow> (string \<times> json) list \<Rightarrow> unit tool_act" where
  "validate_write c args =
     act_bind (required args ''path'') (\<lambda>raw.
     act_bind (context_path c raw) (\<lambda>path.
     act_then (check_ws (\<lambda>w. \<not> is_dir w path) ''path is a directory'')
       (check (obj_get args ''content'' \<noteq> None) ''missing content'')))"

definition validate_patch :: "tool_context \<Rightarrow> (string \<times> json) list \<Rightarrow> unit tool_act" where
  "validate_patch c args =
     act_bind (required args ''path'') (\<lambda>raw.
     act_bind (context_path c raw) (\<lambda>path.
     act_then (patch_checks args path) (act_ret ())))"

definition validate_tool :: "tool_context \<Rightarrow> string \<Rightarrow> (string \<times> json) list \<Rightarrow> unit tool_act" where
  "validate_tool c name args =
     (if name = ''list_files'' then validate_list c args
      else if name = ''read_file'' then validate_read c args
      else if name = ''search'' then validate_search c args
      else if name = ''run_shell'' then act_then (shell_args c args) (act_ret ())
      else if name = ''write_file'' then validate_write c args
      else if name = ''patch_file'' then validate_patch c args
      else if name = ''delegate'' then delegate_checks c args False
      else act_ret ())"

section \<open>Listing and reading\<close>

definition IGNORED_PATH_NAMES :: "string set" where
  "IGNORED_PATH_NAMES =
     {''.git'', ''.pico'', ''__pycache__'', ''.pytest_cache'', ''.ruff_cache'', ''.venv'', ''venv''}"

definition SEARCH_IGNORED_PATH_NAMES :: "string set" where
  "SEARCH_IGNORED_PATH_NAMES = IGNORED_PATH_NAMES \<union>
     {''node_modules'', ''build'', ''dist'', ''release-desktop'', ''coverage'', ''target''}"

definition entry_key :: "workspace \<Rightarrow> rpath \<Rightarrow> bool \<times> string" where
  "entry_key w q = (is_file w q, py_lower (last q))"

definition listing_line :: "tool_context \<Rightarrow> workspace \<Rightarrow> rpath \<Rightarrow> string" where
  "listing_line c w q = (if is_dir w q then ''[D]'' else ''[F]'') @ '' '' @ relative_text c q"

definition listing :: "tool_context \<Rightarrow> workspace \<Rightarrow> rpath \<Rightarrow> string" where
  "listing c w p =
     (let entries = filter (\<lambda>q. last q \<notin> IGNORED_PATH_NAMES) (sort_key (entry_key w) (tc_iterdir c w p));
          lines = map (listing_line c w) (take 200 entries)
      in if lines = [] then ''(empty)'' else py_join nl lines)"

definition tool_list_files :: "tool_context \<Rightarrow> (string \<times> json) list \<Rightarrow> string tool_act" where
  "tool_list_files c args =
     act_bind (context_path c (get_default args ''path'' (JStr ''.''))) (\<lambda>path.
       act_then (check_ws (\<lambda>w. is_dir w path) ''path is not a directory'')
         (act_get (\<lambda>w. listing c w path)))"

text \<open>\<open>f"{number:>4}"\<close>.\<close>

definition pad4 :: "string \<Rightarrow> string" where
  "pad4 s = replicate (4 - length s) (CHR '' '') @ s"

definition numbered :: "int \<Rightarrow> string list \<Rightarrow> string list" where
  "numbered start lines = map (\<lambda>(n, line). pad4 (int_str (start + int n)) @ '': '' @ line) (List.enumerate 0 lines)"

text \<open>\<open>lines[start - 1:end]\<close> for \<open>1 \<le> start \<le> end\<close>.\<close>

definition line_slice :: "int \<Rightarrow> int \<Rightarrow> string list \<Rightarrow> string list" where
  "line_slice start stop lines = drop (nat (start - 1)) (take (nat stop) lines)"

definition excerpt :: "tool_context \<Rightarrow> workspace \<Rightarrow> rpath \<Rightarrow> int \<times> int \<Rightarrow> string" where
  "excerpt c w p = (\<lambda>(start, stop).
     ''# '' @ relative_text c p @ nl @
     py_join nl (numbered start (line_slice start stop (splitlines (read_text w p)))))"

definition tool_read_file :: "tool_context \<Rightarrow> (string \<times> json) list \<Rightarrow> string tool_act" where
  "tool_read_file c args =
     act_bind (required args ''path'') (\<lambda>raw.
     act_bind (context_path c raw) (\<lambda>path.
     act_then (check_ws (\<lambda>w. is_file w path) ''path is not a file'')
       (act_bind (read_range c args) (\<lambda>range. act_get (\<lambda>w. excerpt c w path range)))))"

section \<open>Searching\<close>

definition SEARCH_MAX_FILES :: nat where "SEARCH_MAX_FILES = 5000"
definition SEARCH_MAX_FILE_BYTES :: nat where "SEARCH_MAX_FILE_BYTES = 2097152"
definition SEARCH_MAX_MATCHES :: nat where "SEARCH_MAX_MATCHES = 200"

text \<open>The files that \<open>os.walk\<close> reaches when the ignored directories are removed from its lists of names.\<close>

definition walk_files :: "tool_context \<Rightarrow> workspace \<Rightarrow> rpath \<Rightarrow> rpath list" where
  "walk_files c w p =
     filter (\<lambda>q. list_all (\<lambda>n. n \<notin> SEARCH_IGNORED_PATH_NAMES) (butlast (drop (length p) q))) (tc_walk c w p)"

definition line_matches :: "tool_context \<Rightarrow> (string \<Rightarrow> bool) \<Rightarrow> rpath \<Rightarrow> string \<Rightarrow> string list" where
  "line_matches c rx q text =
     map (\<lambda>(n, line). relative_text c q @ '':'' @ nat_str n @ '':'' @ line)
       (filter (\<lambda>(n, line). rx line) (List.enumerate 1 (splitlines text)))"

text \<open>
  The scan: \<open>scanned\<close> files so far, and the matches; \<open>Some\<close> of the truncation flag.  A full list of
  matches is returned at once.
\<close>

fun scan_files ::
  "tool_context \<Rightarrow> (string \<Rightarrow> bool) \<Rightarrow> workspace \<Rightarrow> nat \<Rightarrow> string list \<Rightarrow> rpath list \<Rightarrow> string list \<times> bool" where
  "scan_files c rx w scanned matches [] = (matches, False)"
| "scan_files c rx w scanned matches (q # qs) =
     (if scanned \<ge> SEARCH_MAX_FILES \<or> tc_late c scanned then (matches, True)
      else let text = read_text w q
           in if utf8_len text > SEARCH_MAX_FILE_BYTES \<or> CHR 0x00 \<in> set text
              then scan_files c rx w (Suc scanned) matches qs
              else let found = matches @ line_matches c rx q text
                   in if length found \<ge> SEARCH_MAX_MATCHES \<and> line_matches c rx q text \<noteq> []
                      then (take SEARCH_MAX_MATCHES found, False)
                      else scan_files c rx w (Suc scanned) found qs)"

definition search_note :: "string \<Rightarrow> string" where
  "search_note reason =
     ''(no matches; fallback search reached its scan limit'' @
     (if reason = [] then [] else ''; '' @ reason) @ '')''"

definition fallback_search :: "tool_context \<Rightarrow> string \<Rightarrow> rpath \<Rightarrow> string \<Rightarrow> string tool_act" where
  "fallback_search c pattern path reason =
     (case tc_compile c pattern (\<not> list_ex (\<lambda>ch. ch \<noteq> lower_char ch) pattern) of
        Inl msg \<Rightarrow> value_error (''invalid search pattern: '' @ msg)
      | Inr rx \<Rightarrow>
          act_get (\<lambda>w.
            let (matches, truncated) =
                  scan_files c rx w 0 [] (if is_file w path then [path] else walk_files c w path)
            in if matches \<noteq> [] then py_join nl matches
               else if truncated \<or> reason \<noteq> [] then search_note reason
               else ''(no matches)''))"

definition tool_search :: "tool_context \<Rightarrow> (string \<times> json) list \<Rightarrow> string tool_act" where
  "tool_search c args =
     (let pattern = py_strip (get_str args ''pattern'' []) in
      act_then (check (pattern \<noteq> []) ''pattern must not be empty'')
        (act_bind (context_path c (get_default args ''path'' (JStr ''.''))) (\<lambda>path.
         act_bind (act_get (tc_rg c pattern path)) (\<lambda>rg.
           case rg of
             Rg_Missing \<Rightarrow> fallback_search c pattern path []
           | Rg_Stuck \<Rightarrow>
               fallback_search c pattern path ''rg unavailable or timed out; used fallback scanner''
           | Rg_Ended code out err \<Rightarrow>
               (if code = 0 \<or> code = 1
                then act_ret (if py_strip out = [] then ''(no matches)'' else py_strip out)
                else if py_strip err \<noteq> [] then act_ret (py_strip err)
                else fallback_search c pattern path ''rg exited unexpectedly'')))))"

section \<open>Shell commands\<close>

text \<open>
  \<open>textwrap.dedent\<close>: lines of blanks become empty, then the longest common prefix of blanks and
  tabs of the other lines is removed.
\<close>

definition is_blank :: "char \<Rightarrow> bool" where
  "is_blank ch \<longleftrightarrow> ch = CHR '' '' \<or> ch = CHR 0x09"

fun split_nl :: "string \<Rightarrow> string list" where
  "split_nl [] = [[]]"
| "split_nl (ch # s) =
     (if ch = CHR 0x0A then [] # split_nl s
      else (case split_nl s of l # ls \<Rightarrow> (ch # l) # ls | [] \<Rightarrow> [[ch]]))"

fun common_prefix :: "string \<Rightarrow> string \<Rightarrow> string" where
  "common_prefix (a # as) (b # bs) = (if a = b then a # common_prefix as bs else [])"
| "common_prefix _ _ = []"

definition blank_line :: "string \<Rightarrow> bool" where
  "blank_line l \<longleftrightarrow> list_all is_blank l"

definition margin :: "string list \<Rightarrow> string" where
  "margin lines =
     (case map (takeWhile is_blank) (filter (\<lambda>l. \<not> blank_line l) lines) of
        [] \<Rightarrow> []
      | m # ms \<Rightarrow> foldl common_prefix m ms)"

definition py_dedent :: "string \<Rightarrow> string" where
  "py_dedent s =
     (let lines = map (\<lambda>l. if blank_line l then [] else l) (split_nl s);
          m = margin lines
      in py_join nl (map (\<lambda>l. if starts_with m l then drop (length m) l else l) lines))"

definition or_empty :: "string \<Rightarrow> string" where
  "or_empty s = (if py_strip s = [] then ''(empty)'' else py_strip s)"

definition indent8 :: string where
  "indent8 = ''        ''"

definition shell_text :: "int \<Rightarrow> shell_result \<Rightarrow> string" where
  "shell_text timeout r =
     py_strip (py_dedent
       (indent8 @ ''exit_code: '' @ int_str (sh_returncode r) @ nl @
        indent8 @ ''stdout:'' @ nl @ indent8 @ or_empty (sh_stdout r) @ nl @
        indent8 @ ''stderr:'' @ nl @ indent8 @ or_empty (sh_stderr r) @ nl @ indent8)) @
     (if sh_timed_out r then nl @ ''[tool timed out after '' @ int_str timeout @ ''s]'' else []) @
     (if sh_truncated r then nl @ ''[output truncated]'' else [])"

definition shell_outcome :: "int \<Rightarrow> shell_result \<Rightarrow> string tool_act" where
  "shell_outcome timeout r =
     (if \<not> sh_cleaned r then act_raise Process_Cleanup_Failed
      else if sh_cancelled r then act_raise Tool_Cancelled
      else act_ret (shell_text timeout r))"

definition tool_run_shell :: "tool_context \<Rightarrow> (string \<times> json) list \<Rightarrow> string tool_act" where
  "tool_run_shell c args =
     act_bind (shell_args c args) (\<lambda>(command, timeout).
       act_bind (tc_shell c command timeout) (shell_outcome timeout))"

section \<open>Writing\<close>

text \<open>
  \<open>path.parent.mkdir(parents=True, exist_ok=True)\<close>: the missing directories, outermost first; a file
  on the way is an error of the operating system.
\<close>

definition ancestors :: "rpath \<Rightarrow> rpath list" where
  "ancestors p = map (\<lambda>n. take n p) [0..<length p]"

definition make_parents :: "tool_context \<Rightarrow> rpath \<Rightarrow> unit tool_act" where
  "make_parents c p =
     act_bind (act_get (\<lambda>w. list_ex (is_file w) (ancestors p))) (\<lambda>blocked.
       if blocked then act_raise (Tool_Error Os_Error (tc_python_message c Os_Error JNull))
       else act_modify (\<lambda>w. w\<lparr>ws_dirs := ws_dirs w \<union> set (ancestors p)\<rparr>))"

definition write_text :: "tool_context \<Rightarrow> rpath \<Rightarrow> string \<Rightarrow> unit tool_act" where
  "write_text c p text =
     act_bind (act_get (\<lambda>w. is_dir w p)) (\<lambda>dir.
       if dir then act_raise (Tool_Error Os_Error (tc_python_message c Os_Error JNull))
       else act_modify (\<lambda>w. w\<lparr>ws_files := (ws_files w)(p \<mapsto> text)\<rparr>))"

definition tool_write_file :: "tool_context \<Rightarrow> (string \<times> json) list \<Rightarrow> string tool_act" where
  "tool_write_file c args =
     act_bind (required args ''path'') (\<lambda>raw.
     act_bind (context_path c raw) (\<lambda>path.
     act_bind (required args ''content'') (\<lambda>value.
       let content = py_str value in
       act_then (make_parents c path)
         (act_then (write_text c path content)
           (act_ret (''wrote '' @ relative_text c path @ '' ('' @ nat_str (length content) @ '' chars)''))))))"

definition tool_patch_file :: "tool_context \<Rightarrow> (string \<times> json) list \<Rightarrow> string tool_act" where
  "tool_patch_file c args =
     act_bind (required args ''path'') (\<lambda>raw.
     act_bind (context_path c raw) (\<lambda>path.
     act_bind (patch_checks args path) (\<lambda>text.
       act_then (write_text c path
           (py_replace_first (get_str args ''old_text'' []) (get_str args ''new_text'' []) text))
         (act_ret (''patched '' @ relative_text c path)))))"

definition tool_delegate :: "tool_context \<Rightarrow> (string \<times> json) list \<Rightarrow> string tool_act" where
  "tool_delegate c args = act_then (delegate_checks c args True) (tc_delegate c args)"

section \<open>The registry\<close>

definition TOOL_RUNNERS :: "(string \<times> (tool_context \<Rightarrow> (string \<times> json) list \<Rightarrow> string tool_act)) list" where
  "TOOL_RUNNERS =
     [(''list_files'', tool_list_files), (''read_file'', tool_read_file), (''search'', tool_search),
      (''run_shell'', tool_run_shell), (''write_file'', tool_write_file), (''patch_file'', tool_patch_file)]"

record tool_spec =
  sp_schema :: "(string \<times> string) list"
  sp_risky :: bool
  sp_description :: string

definition BASE_TOOL_SPECS :: "(string \<times> tool_spec) list" where
  "BASE_TOOL_SPECS =
     [(''list_files'', \<lparr>sp_schema = [(''path'', ''str='' @ repr_str ''.'')], sp_risky = False,
        sp_description = ''List files in the workspace.''\<rparr>),
      (''read_file'', \<lparr>sp_schema = [(''path'', ''str''), (''start'', ''int=1''), (''end'', ''int=200'')],
        sp_risky = False, sp_description = ''Read a UTF-8 file by line range.''\<rparr>),
      (''search'', \<lparr>sp_schema = [(''pattern'', ''str''), (''path'', ''str='' @ repr_str ''.'')], sp_risky = False,
        sp_description =
          ''Search file contents with a regular expression; this does not search path names.''\<rparr>),
      (''run_shell'', \<lparr>sp_schema = [(''command'', ''str''), (''timeout'', ''int=20'')], sp_risky = True,
        sp_description = ''Run a shell command in the repo root.''\<rparr>),
      (''write_file'', \<lparr>sp_schema = [(''path'', ''str''), (''content'', ''str'')], sp_risky = True,
        sp_description = ''Write a text file.''\<rparr>),
      (''patch_file'', \<lparr>sp_schema = [(''path'', ''str''), (''old_text'', ''str''), (''new_text'', ''str'')],
        sp_risky = True, sp_description = ''Replace one exact text block in a file.''\<rparr>)]"

text \<open>\<open>provider_tool_definitions\<close>: what the provider of the model is told about the tools.\<close>

definition json_type_of :: "string \<Rightarrow> string" where
  "json_type_of declaration =
     (let t = py_strip (fst (py_partition (CHR ''='') declaration))
      in if t = ''int'' then ''integer'' else if t = ''float'' then ''number''
         else if t = ''bool'' then ''boolean'' else ''string'')"

definition provider_tool_definition :: "string \<times> tool_spec \<Rightarrow> json" where
  "provider_tool_definition = (\<lambda>(name, spec).
     JObj [(''type'', JStr ''function''), (''name'', JStr name), (''description'', JStr (sp_description spec)),
       (''parameters'', JObj
         [(''type'', JStr ''object''),
          (''properties'', JObj (map (\<lambda>(k, d). (k, JObj [(''type'', JStr (json_type_of d))])) (sp_schema spec))),
          (''required'', JList (map (\<lambda>(k, _). JStr k) (sp_schema spec))),
          (''additionalProperties'', JBool False)]),
       (''strict'', JBool True)])"

definition provider_tool_definitions :: "(string \<times> tool_spec) list \<Rightarrow> json list" where
  "provider_tool_definitions tools = map provider_tool_definition tools"

text \<open>\<open>build\<close>: the runner of every registered tool, with its context.\<close>

record tool =
  tl_risky :: bool
  tl_run :: "(string \<times> json) list \<Rightarrow> string tool_act"

definition build_tools :: "tool_context \<Rightarrow> (string \<times> tool) list" where
  "build_tools c =
     map (\<lambda>(name, run). (name, \<lparr>tl_risky = (case obj_get BASE_TOOL_SPECS name of Some spec \<Rightarrow> sp_risky spec | None \<Rightarrow> False), tl_run = run c\<rparr>))
       TOOL_RUNNERS"

definition legal_tool_names :: "string set" where
  "legal_tool_names = insert ''delegate'' (set (map fst BASE_TOOL_SPECS))"

section \<open>Frames of the tools\<close>

text \<open>\<open>act_reads m\<close>: the code leaves the state alone.\<close>

definition act_reads :: "('s, 'e, 'a) act \<Rightarrow> bool" where
  "act_reads m \<longleftrightarrow> (\<forall>s. snd (m s) = s)"

named_theorems reads_rules \<open>rules for code that leaves the state alone\<close>

lemma act_reads_rules [reads_rules]:
  "act_reads (act_ret a)" "act_reads (act_raise e)" "act_reads (act_get f)"
  by (auto simp: act_reads_def act_defs)

lemma act_reads_bind [reads_rules]: "act_reads m \<Longrightarrow> (\<And>a. act_reads (f a)) \<Longrightarrow> act_reads (act_bind m f)"
  by (auto simp: act_reads_def act_defs split: prod.splits sum.splits) (metis snd_conv)+

lemma act_reads_then [reads_rules]: "act_reads m \<Longrightarrow> act_reads n \<Longrightarrow> act_reads (act_then m n)"
  unfolding act_then_def by (intro reads_rules)

lemma act_reads_cases [reads_rules]:
  "(b \<Longrightarrow> act_reads m) \<Longrightarrow> (\<not> b \<Longrightarrow> act_reads n) \<Longrightarrow> act_reads (if b then m else n)"
  "act_reads m \<Longrightarrow> (\<And>x. act_reads (f x)) \<Longrightarrow> act_reads (case v of None \<Rightarrow> m | Some x \<Rightarrow> f x)"
  "(\<And>e. act_reads (g e)) \<Longrightarrow> (\<And>x. act_reads (h x)) \<Longrightarrow> act_reads (case r of Inl e \<Rightarrow> g e | Inr x \<Rightarrow> h x)"
  by (auto split: option.splits sum.splits)

lemma act_reads_rg [reads_rules]:
  "act_reads m \<Longrightarrow> act_reads n \<Longrightarrow> (\<And>a b c. act_reads (k a b c)) \<Longrightarrow>
     act_reads (case rg of Rg_Missing \<Rightarrow> m | Rg_Stuck \<Rightarrow> n | Rg_Ended a b c \<Rightarrow> k a b c)"
  by (auto split: rg_outcome.splits)

lemma act_reads_check [reads_rules]: "act_reads (check ok msg)" "act_reads (check_ws p msg)"
  unfolding check_ws_def check_def by (intro reads_rules)+

lemma act_reads_args [reads_rules]:
  "act_reads (required args k)" "act_reads (int_arg c args k d)"
  unfolding required_def int_arg_def Let_def by (intro reads_rules)+

lemma act_reads_path [reads_rules]: "act_reads (context_path c raw)"
proof (cases raw)
  case (JStr t)
  show ?thesis unfolding context_path_def JStr Let_def json.simps by (intro reads_rules)
qed (simp_all add: context_path_def act_reads_rules)

lemma act_reads_ranges [reads_rules]:
  "act_reads (read_range c args)" "act_reads (shell_args c args)"
  "act_reads (patch_checks args p)" "act_reads (delegate_checks c args b)"
  unfolding read_range_def shell_args_def patch_checks_def delegate_checks_def Let_def
  by (intro reads_rules)+

lemma act_reads_validate [reads_rules]: "act_reads (validate_tool c name args)"
  unfolding validate_tool_def validate_list_def validate_read_def validate_search_def
    validate_write_def validate_patch_def Let_def
  by (intro reads_rules)

lemma act_reads_fallback [reads_rules]: "act_reads (fallback_search c pattern p reason)"
  unfolding fallback_search_def by (intro reads_rules)

lemma act_reads_tools [reads_rules]:
  "act_reads (tool_list_files c args)" "act_reads (tool_read_file c args)" "act_reads (tool_search c args)"
  unfolding tool_list_files_def tool_read_file_def tool_search_def Let_def by (intro reads_rules)+

lemma act_readsD: "act_reads m \<Longrightarrow> m s = (r, t) \<Longrightarrow> t = s"
  by (metis act_reads_def snd_conv)

lemma act_bind_reads:
  "act_reads m \<Longrightarrow> act_bind m f s = (case fst (m s) of Inl e \<Rightarrow> (Inl e, s) | Inr a \<Rightarrow> f a s)"
  "act_reads m \<Longrightarrow> act_then m n s = (case fst (m s) of Inl e \<Rightarrow> (Inl e, s) | Inr a \<Rightarrow> n s)"
  by (cases "m s"; auto simp: act_defs dest: act_readsD split: sum.splits)+

text \<open>A resolved path argument is below the root.\<close>

definition path_of :: "tool_context \<Rightarrow> json \<Rightarrow> rpath option" where
  "path_of c raw =
     (case raw of
        JStr text \<Rightarrow> (if under_root (tc_root c) (tc_resolve c text) then Some (tc_resolve c text) else None)
      | _ \<Rightarrow> None)"

definition path_error :: "tool_context \<Rightarrow> json \<Rightarrow> tool_exn" where
  "path_error c raw =
     (case raw of
        JStr text \<Rightarrow> Tool_Error Value_Error (path_escape_message text)
      | _ \<Rightarrow> Tool_Error Type_Error (tc_python_message c Type_Error raw))"

lemma context_path_eq:
  "context_path c raw w =
     (case path_of c raw of None \<Rightarrow> Inl (path_error c raw) | Some p \<Rightarrow> Inr p, w)"
  by (cases raw) (simp_all add: context_path_def path_of_def path_error_def Let_def act_defs)

lemma path_of_under: "path_of c raw = Some p \<Longrightarrow> under_root (tc_root c) p"
  by (auto simp: path_of_def split: json.splits if_splits)

lemma check_eq: "check ok msg w = (if ok then Inr () else Inl (Tool_Error Value_Error msg), w)"
  by (simp add: check_def act_defs)

lemma check_ws_eq: "check_ws ok msg w = (if ok w then Inr () else Inl (Tool_Error Value_Error msg), w)"
  by (simp add: check_ws_def check_def act_defs)

lemma required_eq:
  "required args k w =
     (case obj_get args k of None \<Rightarrow> Inl (Tool_Error Key_Error (repr_str k)) | Some v \<Rightarrow> Inr v, w)"
  by (auto simp: required_def act_defs split: option.splits)

lemmas arg_eqs = context_path_eq check_eq check_ws_eq required_eq

text \<open>The one file a call names.\<close>

definition arg_path :: "tool_context \<Rightarrow> (string \<times> json) list \<Rightarrow> rpath option" where
  "arg_path c args =
     (case obj_get args ''path'' of None \<Rightarrow> None | Some raw \<Rightarrow> path_of c raw)"

definition with_parents :: "rpath \<Rightarrow> workspace \<Rightarrow> workspace" where
  "with_parents p w = w\<lparr>ws_dirs := ws_dirs w \<union> set (ancestors p)\<rparr>"

definition with_file :: "rpath \<Rightarrow> string \<Rightarrow> workspace \<Rightarrow> workspace" where
  "with_file p t w = w\<lparr>ws_files := (ws_files w)(p \<mapsto> t)\<rparr>"

lemma write_text_eq:
  "write_text c p t w =
     (if is_dir w p then (Inl (Tool_Error Os_Error (tc_python_message c Os_Error JNull)), w)
      else (Inr (), with_file p t w))"
  by (simp add: write_text_def act_defs with_file_def)

lemma make_parents_eq:
  "make_parents c p w =
     (if list_ex (is_file w) (ancestors p)
      then (Inl (Tool_Error Os_Error (tc_python_message c Os_Error JNull)), w)
      else (Inr (), with_parents p w))"
  by (simp add: make_parents_def act_defs with_parents_def)

lemma ws_simps [simp]:
  "ws_files (with_parents p w) = ws_files w" "ws_dirs (with_parents p w) = ws_dirs w \<union> set (ancestors p)"
  "ws_files (with_file p t w) = (ws_files w)(p \<mapsto> t)" "ws_dirs (with_file p t w) = ws_dirs w"
  by (simp_all add: with_parents_def with_file_def)

lemma ancestors_not_self [simp]: "p \<notin> set (ancestors p)"
proof
  assume "p \<in> set (ancestors p)"
  then obtain n where "n < length p" "p = take n p" by (auto simp: ancestors_def)
  then have "length p = n" by (metis length_take min.absorb4)
  with \<open>n < length p\<close> show False by simp
qed

lemma tool_write_eq:
  "tool_write_file c args w =
     (case obj_get args ''path'' of
        None \<Rightarrow> (Inl (Tool_Error Key_Error (repr_str ''path'')), w)
      | Some raw \<Rightarrow>
          (case arg_path c args of
             None \<Rightarrow> (Inl (path_error c raw), w)
           | Some p \<Rightarrow>
               (case obj_get args ''content'' of
                  None \<Rightarrow> (Inl (Tool_Error Key_Error (repr_str ''content'')), w)
                | Some v \<Rightarrow>
                    (if list_ex (is_file w) (ancestors p)
                     then (Inl (Tool_Error Os_Error (tc_python_message c Os_Error JNull)), w)
                     else if is_dir w p
                     then (Inl (Tool_Error Os_Error (tc_python_message c Os_Error JNull)), with_parents p w)
                     else (Inr (''wrote '' @ relative_text c p @ '' ('' @ nat_str (length (py_str v)) @ '' chars)''),
                           with_file p (py_str v) (with_parents p w))))))"
  by (auto simp: tool_write_file_def act_bind_def act_then_def arg_eqs arg_path_def make_parents_eq
      write_text_eq Let_def act_ret_def is_dir_def split: option.splits)

lemma patch_checks_eq:
  "patch_checks args p w =
     (let old = get_str args ''old_text'' []; n = py_count old (read_text w p) in
      if \<not> is_file w p then Inl (Tool_Error Value_Error ''path is not a file'')
      else if old = [] then Inl (Tool_Error Value_Error ''old_text must not be empty'')
      else if obj_get args ''new_text'' = None then Inl (Tool_Error Value_Error ''missing new_text'')
      else if n \<noteq> 1 then Inl (Tool_Error Value_Error (''old_text must occur exactly once, found '' @ nat_str n))
      else Inr (read_text w p), w)"
  by (auto simp: patch_checks_def act_defs arg_eqs Let_def)

lemma tool_patch_eq:
  "tool_patch_file c args w =
     (case obj_get args ''path'' of
        None \<Rightarrow> (Inl (Tool_Error Key_Error (repr_str ''path'')), w)
      | Some raw \<Rightarrow>
          (case arg_path c args of
             None \<Rightarrow> (Inl (path_error c raw), w)
           | Some p \<Rightarrow>
               (case fst (patch_checks args p w) of
                  Inl e \<Rightarrow> (Inl e, w)
                | Inr t \<Rightarrow>
                    (if is_dir w p
                     then (Inl (Tool_Error Os_Error (tc_python_message c Os_Error JNull)), w)
                     else (Inr (''patched '' @ relative_text c p),
                           with_file p (py_replace_first (get_str args ''old_text'' []) (get_str args ''new_text'' []) t) w)))))"
  by (auto simp: tool_patch_file_def act_bind_def act_then_def context_path_eq required_eq patch_checks_eq
      arg_path_def write_text_eq Let_def act_ret_def split: option.splits)

section \<open>Confinement\<close>

lemma tools_by_name:
  assumes "obj_get TOOL_RUNNERS name = Some run"
  obtains "name = ''list_files''" "run = tool_list_files" | "name = ''read_file''" "run = tool_read_file"
  | "name = ''search''" "run = tool_search" | "name = ''run_shell''" "run = tool_run_shell"
  | "name = ''write_file''" "run = tool_write_file" | "name = ''patch_file''" "run = tool_patch_file"
  using assms by (auto simp: TOOL_RUNNERS_def split: if_splits)

lemma write_text_frame:
  assumes "tool_write_file c args w = (r, w')"
  shows "ws_files w' q = ws_files w q \<or> (arg_path c args = Some q)"
  using assms by (auto simp: tool_write_eq split: option.splits if_splits)

lemma patch_frame:
  assumes "tool_patch_file c args w = (r, w')"
  shows "ws_files w' q = ws_files w q \<or> (arg_path c args = Some q)"
  using assms by (auto simp: tool_patch_eq split: option.splits if_splits sum.splits)

lemma arg_path_under: "arg_path c args = Some p \<Longrightarrow> under_root (tc_root c) p"
  by (auto simp: arg_path_def path_of_under split: option.splits)

text \<open>
  C39. Whatever arguments the model sends and however a path resolves, no tool except the shell
  changes a file outside the root of the workspace.
\<close>

theorem tools_stay_in_root:
  assumes "obj_get TOOL_RUNNERS name = Some run" and "name \<noteq> ''run_shell''"
    and "run c args w = (r, w')" and "\<not> under_root (tc_root c) q"
  shows "ws_files w' q = ws_files w q"
  using assms(1)
proof (cases rule: tools_by_name)
  case 5
  with assms write_text_frame [of c args w r w' q] show ?thesis by (auto dest: arg_path_under)
next
  case 6
  with assms patch_frame [of c args w r w' q] show ?thesis by (auto dest: arg_path_under)
qed (use assms act_reads_tools in \<open>auto dest!: act_readsD [rotated]\<close>)

section \<open>Patching\<close>

lemma py_count_zero: "old \<noteq> [] \<Longrightarrow> py_count old s = 0 \<longleftrightarrow> \<not> contains old s"
  by (induction old s rule: py_count.induct) auto

lemma py_count_one:
  assumes "old \<noteq> []" and "py_count old s = 1"
  shows "\<exists>a b. s = a @ old @ b \<and> py_replace_first old new s = a @ new @ b \<and> py_count old b = 0 \<and>
           (\<forall>a' b'. s = a' @ old @ b' \<longrightarrow> length a \<le> length a')"
  using assms
proof (induction s)
  case (Cons ch s)
  show ?case
  proof (cases "starts_with old (ch # s)")
    case True
    then obtain b where b: "ch # s = old @ b" by (auto elim: starts_withE)
    with True Cons.prems have "py_count old b = 0"
      by (metis One_nat_def add_diff_cancel_left' append_eq_conv_conj diff_Suc_1 py_count.simps(2))
    moreover have "py_replace_first old new (ch # s) = new @ b"
      using True Cons.prems b by (metis append_eq_conv_conj py_replace_first.simps(2))
    ultimately show ?thesis using b by (intro exI [of _ "[]"] exI [of _ b]) auto
  next
    case False
    with Cons obtain a b where ab: "s = a @ old @ b" "py_replace_first old new s = a @ new @ b"
      "py_count old b = 0" "\<forall>a' b'. s = a' @ old @ b' \<longrightarrow> length a \<le> length a'"
      by auto
    have "length (ch # a) \<le> length a'" if "ch # s = a' @ old @ b'" for a' b'
    proof (cases a')
      case Nil
      with that False show ?thesis by (metis append_Nil starts_with_append)
    next
      case (Cons x xs)
      with that ab(4) show ?thesis by auto
    qed
    with ab False show ?thesis
      by (intro exI [of _ "ch # a"] exI [of _ b]) auto
  qed
qed simp

text \<open>
  A patch that succeeds replaces one occurrence of the old text by the new text and changes
  nothing else in the workspace; every other occurrence of the old text overlaps the replaced one.
\<close>

theorem patch_changes_one_place:
  assumes "tool_patch_file c args w = (Inr msg, w')"
  shows "\<exists>p a b. arg_path c args = Some p \<and>
    read_text w p = a @ get_str args ''old_text'' [] @ b \<and>
    w' = with_file p (a @ get_str args ''new_text'' [] @ b) w \<and>
    (\<forall>a' b'. read_text w p = a' @ get_str args ''old_text'' [] @ b' \<longrightarrow>
       length a \<le> length a' \<and> length a' < length a + length (get_str args ''old_text'' []))"
proof -
  let ?old = "get_str args ''old_text'' []" and ?new = "get_str args ''new_text'' []"
  from assms obtain p where p: "arg_path c args = Some p" "?old \<noteq> []" "py_count ?old (read_text w p) = 1"
    "w' = with_file p (py_replace_first ?old ?new (read_text w p)) w"
    by (auto simp: tool_patch_eq patch_checks_eq Let_def split: option.splits if_splits)
  from py_count_one [OF p(2,3), of ?new] obtain a b where ab:
    "read_text w p = a @ ?old @ b" "py_replace_first ?old ?new (read_text w p) = a @ ?new @ b"
    "py_count ?old b = 0" "\<forall>a' b'. read_text w p = a' @ ?old @ b' \<longrightarrow> length a \<le> length a'"
    by blast
  have "length a' < length a + length ?old" if eq: "read_text w p = a' @ ?old @ b'" for a' b'
  proof (rule ccontr)
    assume "\<not> ?thesis"
    then have "length (a @ ?old) \<le> length a'" by simp
    moreover have "(a @ ?old) @ b = a' @ ?old @ b'" using ab(1) eq by simp
    ultimately obtain d where "b = d @ ?old @ b'" by (auto simp: append_eq_append_conv_if)
    then have "contains ?old b" by (auto simp: contains_iff)
    with ab(3) p(2) show False by (simp add: py_count_zero)
  qed
  with p ab show ?thesis by metis
qed

text \<open>
  The check that the old text occurs exactly once counts occurrences without overlap: two
  overlapping occurrences pass it, although the place of the change is then not determined by the
  text.
\<close>

theorem patch_accepts_overlap:
  "patch_checks [(''old_text'', JStr ''aa''), (''new_text'', JStr ''b'')] p \<lparr>ws_files = [p \<mapsto> ''aaa''], ws_dirs = {}\<rparr> =
     (Inr ''aaa'', \<lparr>ws_files = [p \<mapsto> ''aaa''], ws_dirs = {}\<rparr>) \<and>
   ''aaa'' = [] @ ''aa'' @ ''a'' \<and> ''aaa'' = ''a'' @ ''aa'' @ []"
  by (simp add: patch_checks_eq get_str_def get_default_def is_file_def read_text_def starts_with_def Let_def)

section \<open>Writing and reading back\<close>

text \<open>
  What is written is read back: after a successful write_file, read_file of the same path
  returns the requested lines of the written text, numbered, and changes nothing.
\<close>

theorem write_then_read:
  assumes "tool_write_file c wargs w = (Inr msg, w')" and "obj_get wargs ''content'' = Some v"
    and "arg_path c rargs = arg_path c wargs" and "fst (read_range c rargs w') = Inr (start, stop)"
  shows "\<exists>p. arg_path c wargs = Some p \<and>
    tool_read_file c rargs w' =
      (Inr (''# '' @ relative_text c p @ nl @
            py_join nl (numbered start (line_slice start stop (splitlines (py_str v))))), w')"
proof -
  from assms(1,2) obtain p where p: "arg_path c wargs = Some p" "ws_files w' p = Some (py_str v)"
    by (auto simp: tool_write_eq split: option.splits if_splits)
  from p(1) assms(3) obtain raw where raw: "obj_get rargs ''path'' = Some raw" "path_of c raw = Some p"
    by (auto simp: arg_path_def split: option.splits)
  from assms(4) have range: "read_range c rargs w' = (Inr (start, stop), w')"
    using act_reads_ranges(1) [of c rargs] by (metis act_reads_def prod.collapse)
  show ?thesis
    using p raw range
    by (auto simp: tool_read_file_def act_bind_def act_then_def arg_eqs act_get_def excerpt_def is_file_def
        read_text_def)
qed

section \<open>A validated call\<close>

text \<open>
  A listing, read, write or patch whose arguments pass validate_tool does not fail in the same
  workspace, provided no file stands where a directory of its path has to be.
\<close>

theorem validated_call_runs:
  assumes "fst (validate_tool c name args w) = Inr ()"
    and "name \<in> {''list_files'', ''read_file'', ''write_file'', ''patch_file''}"
    and "obj_get TOOL_RUNNERS name = Some run"
    and "\<forall>p. arg_path c args = Some p \<longrightarrow> \<not> is_dir w p \<longrightarrow>
           \<not> list_ex (is_file w) (ancestors p)"
    and "\<forall>p. is_file w p \<longrightarrow> \<not> is_dir w p"
  shows "\<exists>text. fst (run c args w) = Inr text"
  using assms(3)
proof (cases rule: tools_by_name)
  case 1
  with assms(1) show ?thesis
    by (auto simp: validate_tool_def validate_list_def tool_list_files_def act_defs arg_eqs
        split: if_splits option.splits)
next
  case 2
  with assms(1) act_reads_ranges(1) [of c args] show ?thesis
    by (auto simp: validate_tool_def validate_read_def tool_read_file_def act_defs arg_eqs act_reads_def
        split: if_splits option.splits prod.splits sum.splits)
next
  case 5
  with assms(1,4) show ?thesis
    by (auto simp: validate_tool_def validate_write_def act_defs arg_eqs tool_write_eq arg_path_def Let_def
        split: if_splits option.splits)
next
  case 6
  with assms(1,5) show ?thesis
    by (auto simp: validate_tool_def validate_patch_def act_defs arg_eqs tool_patch_eq arg_path_def Let_def
        patch_checks_eq split: if_splits option.splits sum.splits)
qed (use assms(2) in auto)

section \<open>An example workspace\<close>

definition sample_context :: tool_context where
  "sample_context = \<lparr>tc_root = [''w''],
     tc_resolve = (\<lambda>t. if starts_with ''/'' t then [tl t] else [''w'', t]),
     tc_iterdir = (\<lambda>_ _. []), tc_walk = (\<lambda>_ _. []), tc_python_message = (\<lambda>_ _. []),
     tc_rg = (\<lambda>_ _ _. Rg_Missing), tc_compile = (\<lambda>p _. Inr (contains p)), tc_late = (\<lambda>_. False),
     tc_shell = (\<lambda>_ _ w. (Inl Process_Cleanup_Failed, w)), tc_depth = 0, tc_max_depth = 1,
     tc_delegate = (\<lambda>_ w. (Inl Tool_Cancelled, w))\<rparr>"

definition sample_ws :: workspace where
  "sample_ws = \<lparr>ws_files = [[''w'', ''a''] \<mapsto> ''one two''], ws_dirs = {[], [''w'']}\<rparr>"

lemmas sample_eval =
  sample_context_def sample_ws_def arg_path_def path_of_def get_str_def get_default_def under_root_def is_file_def
  is_dir_def read_text_def starts_with_def ancestors_def with_file_def with_parents_def Let_def

definition sample_write :: "(string \<times> json) list" where
  "sample_write = [(''path'', JStr ''b''), (''content'', JStr ''x'')]"

definition sample_patch :: "(string \<times> json) list" where
  "sample_patch = [(''path'', JStr ''a''), (''old_text'', JStr ''one''), (''new_text'', JStr ''1'')]"

lemma sample_write_runs:
  "tool_write_file sample_context sample_write sample_ws =
     (Inr (''wrote b ('' @ nat_str 1 @ '' chars)''), with_file [''w'', ''b''] ''x'' (with_parents [''w'', ''b''] sample_ws))"
  by (simp add: tool_write_eq sample_eval sample_write_def relative_text_def upt_rec)

lemma sample_patch_runs:
  "tool_patch_file sample_context sample_patch sample_ws =
     (Inr ''patched a'', with_file [''w'', ''a''] ''1 two'' sample_ws)"
  by (simp add: tool_patch_eq patch_checks_eq sample_eval sample_patch_def relative_text_def)

theorem tools_stay_in_root_witness:
  "ws_files (snd (tool_write_file sample_context sample_write sample_ws)) [''etc''] = ws_files sample_ws [''etc'']"
  by (rule tools_stay_in_root [of "''write_file''" tool_write_file sample_context sample_write sample_ws
        "fst (tool_write_file sample_context sample_write sample_ws)"])
    (simp_all add: TOOL_RUNNERS_def sample_eval)

theorem patch_changes_one_place_witness:
  "\<exists>p a b. arg_path sample_context sample_patch = Some p \<and> read_text sample_ws p = a @ ''one'' @ b \<and>
     with_file [''w'', ''a''] ''1 two'' sample_ws = with_file p (a @ ''1'' @ b) sample_ws"
proof -
  have "get_str sample_patch ''old_text'' [] = ''one''" "get_str sample_patch ''new_text'' [] = ''1''"
    by (simp_all add: sample_patch_def get_str_def get_default_def)
  with patch_changes_one_place [OF sample_patch_runs] show ?thesis by auto
qed

theorem write_then_read_witness:
  "\<exists>p. arg_path sample_context sample_write = Some p \<and>
    tool_read_file sample_context [(''path'', JStr ''b'')] (snd (tool_write_file sample_context sample_write sample_ws)) =
      (Inr (''# '' @ relative_text sample_context p @ nl @
            py_join nl (numbered 1 (line_slice 1 200 (splitlines ''x'')))),
       snd (tool_write_file sample_context sample_write sample_ws))"
  using write_then_read [OF sample_write_runs, of "JStr ''x''" "[(''path'', JStr ''b'')]" 1 200]
  by (simp add: sample_write_runs read_range_def int_arg_def get_default_def act_defs check_eq)
    (simp add: sample_write_def arg_path_def)

theorem validated_call_runs_witness:
  "\<exists>text. fst (tool_write_file sample_context sample_write sample_ws) = Inr text"
  by (rule validated_call_runs [where name = "''write_file''"])
    (auto simp: validate_tool_def validate_write_def act_defs arg_eqs sample_eval sample_write_def
      TOOL_RUNNERS_def upt_rec split: if_splits)

end
