(* ===== verification/Batch_Order.thy ===== *)
theory Batch_Order
  imports Workspace_Tools
begin

text \<open>
  The order in which the calls of a batch run.  A locale states what two independent calls promise:
  they can change places without changing a result or the workspace.  In it, two orders that agree
  on the dependent calls have the same outcome.  The tools of the workspace provide the contract, so
  the concurrent group of a batch followed by its serial group has the outcome of the order in which
  the model declared the calls.
\<close>

section \<open>Running a list of numbered calls\<close>

fun run_calls :: "('c \<Rightarrow> 's \<Rightarrow> 'r \<times> 's) \<Rightarrow> (nat \<times> 'c) list \<Rightarrow> 's \<Rightarrow> (nat \<times> 'r) list \<times> 's" where
  "run_calls run [] s = ([], s)"
| "run_calls run ((i, x) # xs) s =
     (let (r, s1) = run x s; (rs, s2) = run_calls run xs s1 in ((i, r) # rs, s2))"

definition outcome :: "('c \<Rightarrow> 's \<Rightarrow> 'r \<times> 's) \<Rightarrow> (nat \<times> 'c) list \<Rightarrow> 's \<Rightarrow> (nat \<times> 'r) set \<times> 's" where
  "outcome run xs s = (set (fst (run_calls run xs s)), snd (run_calls run xs s))"

lemma outcome_simps:
  "outcome run [] s = ({}, s)"
  "outcome run ((i, x) # xs) s =
     (let (r, s1) = run x s; (rs, s2) = outcome run xs s1 in (insert (i, r) rs, s2))"
  by (auto simp: outcome_def Let_def split: prod.splits)

definition precedes :: "'a list \<Rightarrow> 'a \<Rightarrow> 'a \<Rightarrow> bool" where
  "precedes xs x y \<longleftrightarrow> (\<exists>a b c. xs = a @ x # b @ y # c)"

lemma precedes_head: "distinct (y # ys) \<Longrightarrow> \<not> precedes (y # ys) x y"
  unfolding precedes_def by (auto simp: Cons_eq_append_conv)

lemma precedes_drop_head: "precedes (y # ys) a b \<Longrightarrow> a \<noteq> y \<Longrightarrow> precedes ys a b"
  unfolding precedes_def by (auto simp: Cons_eq_append_conv)

lemma precedes_mem: "precedes xs a b \<Longrightarrow> a \<in> set xs \<and> b \<in> set xs"
  by (auto simp: precedes_def)

lemma precedes_insert: "precedes (pre @ post) a b \<Longrightarrow> precedes (pre @ x # post) a b"
proof -
  assume "precedes (pre @ post) a b"
  then obtain u v w where eq: "pre @ post = u @ a # v @ b # w" unfolding precedes_def by blast
  then consider d where "u = pre @ d" "post = d @ a # v @ b # w"
    | d where "pre = u @ a # d" "v @ b # w = d @ post"
    by (auto simp: append_eq_append_conv2 Cons_eq_append_conv append_eq_Cons_conv)
  then show ?thesis
  proof cases
    case 1
    then have "pre @ x # post = (pre @ x # d) @ a # v @ b # w" by simp
    then show ?thesis unfolding precedes_def by blast
  next
    case 2
    then consider e where "d = v @ b # e" "w = e @ post" | e where "v = d @ e" "post = e @ b # w"
      by (auto simp: append_eq_append_conv2 Cons_eq_append_conv append_eq_Cons_conv)
    then show ?thesis
    proof cases
      case 1
      with 2 have "pre @ x # post = u @ a # v @ b # (e @ x # post)" by simp
      then show ?thesis unfolding precedes_def by blast
    next
      case (2 e)
      with \<open>pre = u @ a # d\<close> have "pre @ x # post = u @ a # (d @ x # e) @ b # w" by simp
      then show ?thesis unfolding precedes_def by blast
    qed
  qed
qed

lemma precedes_sorted:
  assumes "sorted_wrt (\<lambda>x y. fst x < (fst y :: nat)) xs" and "x \<in> set xs" and "y \<in> set xs" and "fst x < fst y"
  shows "precedes xs x y"
proof -
  obtain a b where xs: "xs = a @ y # b" using assms(3) by (auto dest: split_list)
  have "x \<in> set a"
    using assms xs by (auto simp: sorted_wrt_append)
  then obtain u v where "a = u @ x # v" by (auto dest: split_list)
  then have "xs = u @ x # v @ y # b" by (simp add: xs)
  then show ?thesis unfolding precedes_def by blast
qed

lemma precedes_append:
  "precedes ys x y \<Longrightarrow> precedes (xs @ ys) x y"
  "x \<in> set xs \<Longrightarrow> y \<in> set ys \<Longrightarrow> precedes (xs @ ys) x y"
  unfolding precedes_def by (metis append_assoc) (metis append.assoc append_Cons split_list)

section \<open>The contract of independent calls\<close>

locale independent_calls =
  fixes run :: "'c \<Rightarrow> 's \<Rightarrow> 'r \<times> 's"
    and depends :: "'c \<Rightarrow> 'c \<Rightarrow> bool"
  assumes swap: "\<not> depends a b \<Longrightarrow> run a s = (ra, s1) \<Longrightarrow> run b s1 = (rb, s2) \<Longrightarrow>
      \<exists>s1'. run b s = (rb, s1') \<and> run a s1' = (ra, s2)"
begin

lemma outcome_swap:
  assumes "\<not> depends a b"
  shows "outcome run ((i, a) # (j, b) # xs) s = outcome run ((j, b) # (i, a) # xs) s"
proof -
  obtain ra s1 rb s2 where r: "run a s = (ra, s1)" "run b s1 = (rb, s2)" by fastforce
  from swap [OF assms r] obtain s1' where "run b s = (rb, s1')" "run a s1' = (ra, s2)" by blast
  with r show ?thesis by (auto simp: outcome_simps insert_commute split: prod.splits)
qed

lemma outcome_Cons: "(\<And>s. outcome run xs s = outcome run ys s) \<Longrightarrow> outcome run (x # xs) s = outcome run (x # ys) s"
  by (cases x) (simp add: outcome_simps)

lemma outcome_move_front:
  assumes "\<And>z. z \<in> set pre \<Longrightarrow> \<not> depends (snd z) (snd x)"
  shows "outcome run (pre @ x # post) s = outcome run (x # pre @ post) s"
  using assms
proof (induction pre arbitrary: s)
  case (Cons z pre)
  have "outcome run (z # pre @ x # post) s = outcome run (z # x # pre @ post) s"
    using Cons by (intro outcome_Cons) auto
  also have "\<dots> = outcome run (x # z # pre @ post) s"
    using Cons.prems [of z] outcome_swap [of "snd z" "snd x" "fst z" "fst x"] by simp
  finally show ?case by simp
qed simp

theorem outcome_reorder:
  assumes "distinct xs" and "distinct ys" and "set xs = set ys"
    and "\<And>x y. precedes xs x y \<Longrightarrow> depends (snd x) (snd y) \<Longrightarrow> precedes ys x y"
  shows "outcome run xs s = outcome run ys s"
  using assms
proof (induction ys arbitrary: xs s)
  case (Cons y ys)
  from Cons.prems(3) have "y \<in> set xs" by simp
  then obtain pre post where xs: "xs = pre @ y # post" by (auto dest: split_list)
  have "\<not> depends (snd z) (snd y)" if "z \<in> set pre" for z
  proof
    assume dep: "depends (snd z) (snd y)"
    from that have "precedes xs z y" unfolding xs by (intro precedes_append(2)) auto
    with Cons.prems(4) dep have "precedes (y # ys) z y" by blast
    with Cons.prems(2) precedes_head show False by metis
  qed
  then have "outcome run xs s = outcome run (y # pre @ post) s"
    unfolding xs by (rule outcome_move_front)
  also have "\<dots> = outcome run (y # ys) s"
  proof (rule outcome_Cons, rule Cons.IH)
    show "distinct (pre @ post)" "distinct ys" using Cons.prems xs by auto
    show "set (pre @ post) = set ys" using Cons.prems(1-3) xs by auto
    show "precedes ys a b" if ab: "precedes (pre @ post) a b" "depends (snd a) (snd b)" for a b
    proof -
      have "precedes xs a b" unfolding xs by (rule precedes_insert [OF ab(1)])
      moreover have "a \<noteq> y" using precedes_mem [OF ab(1)] Cons.prems(1) xs by auto
      ultimately show ?thesis using Cons.prems(4) ab(2) precedes_drop_head by metis
    qed
  qed
  finally show ?case .
qed (simp add: outcome_simps)

end

section \<open>Calls on the workspace\<close>

text \<open>
  A call as the executor runs it: refused when the name is unknown or the arguments are not valid.
\<close>

definition unknown_tool :: "string \<Rightarrow> tool_exn" where
  "unknown_tool name = Tool_Error Key_Error name"

definition run_call :: "tool_context \<Rightarrow> tool_item \<Rightarrow> workspace \<Rightarrow> (tool_exn + string) \<times> workspace" where
  "run_call c item =
     (let name = item_name item; args = item_args item
      in case obj_get TOOL_RUNNERS name of
           None \<Rightarrow> act_raise (unknown_tool name)
         | Some run \<Rightarrow> act_then (validate_tool c name args) (run c args))"

definition call_path :: "tool_context \<Rightarrow> tool_item \<Rightarrow> rpath option" where
  "call_path c item = arg_path c (item_args item)"

definition apart :: "rpath option \<Rightarrow> rpath option \<Rightarrow> bool" where
  "apart p q \<longleftrightarrow>
     (case (p, q) of
        (Some a, Some b) \<Rightarrow> take (length a) b \<noteq> a \<and> take (length b) a \<noteq> b
      | _ \<Rightarrow> True)"

definition writes_into :: "tool_context \<Rightarrow> tool_item \<Rightarrow> tool_item \<Rightarrow> bool" where
  "writes_into c a b \<longleftrightarrow>
     is_write a \<and>
     (is_scan b \<or> (is_read b \<and> call_path c a \<noteq> None \<and> call_path c a = call_path c b) \<or>
      (is_write b \<and> \<not> apart (call_path c a) (call_path c b)))"

definition depends_on :: "tool_context \<Rightarrow> tool_item \<Rightarrow> tool_item \<Rightarrow> bool" where
  "depends_on c a b \<longleftrightarrow> is_shell a \<or> is_shell b \<or> writes_into c a b \<or> writes_into c b a"

lemma depends_on_sym: "depends_on c a b = depends_on c b a"
  by (auto simp: depends_on_def)

text \<open>What a write sees of the workspace, and what it does to it.\<close>

definition view :: "rpath \<Rightarrow> workspace \<Rightarrow> bool \<times> bool \<times> string option" where
  "view p w = (is_dir w p, list_ex (is_file w) (ancestors p), ws_files w p)"

definition store :: "rpath \<Rightarrow> bool \<Rightarrow> string option \<Rightarrow> workspace \<Rightarrow> workspace" where
  "store p dirs t w =
     (let w1 = (if dirs then with_parents p w else w)
      in case t of None \<Rightarrow> w1 | Some x \<Rightarrow> with_file p x w1)"

lemma store_simps [simp]:
  "ws_files (store p dirs t w) = (case t of None \<Rightarrow> ws_files w | Some x \<Rightarrow> (ws_files w)(p \<mapsto> x))"
  "ws_dirs (store p dirs t w) = (if dirs then ws_dirs w \<union> set (ancestors p) else ws_dirs w)"
  by (auto simp: store_def Let_def split: option.splits)

lemma ancestors_iff: "q \<in> set (ancestors p) \<longleftrightarrow> take (length q) p = q \<and> q \<noteq> p"
proof
  assume "q \<in> set (ancestors p)"
  then show "take (length q) p = q \<and> q \<noteq> p"
    using ancestors_not_self [of p] by (auto simp: ancestors_def min_def)
next
  assume q: "take (length q) p = q \<and> q \<noteq> p"
  then have "length q < length p" by (metis length_take linorder_not_less min.cobounded1 nat_less_le take_all)
  with q show "q \<in> set (ancestors p)" by (force simp: ancestors_def)
qed

lemma view_store:
  assumes "take (length p) q \<noteq> p" and "take (length q) p \<noteq> q"
  shows "view p (store q dirs t w) = view p w"
proof -
  have "p \<notin> set (ancestors q)" "q \<notin> set (ancestors p)" "p \<noteq> q" using assms by (auto simp: ancestors_iff)
  then show ?thesis
    by (auto simp: view_def is_dir_def is_file_def list_ex_iff split: option.splits)
qed

lemma store_commute:
  "p \<noteq> q \<Longrightarrow> store p d t (store q d' t' w) = store q d' t' (store p d t w)"
  by (rule workspace.equality) (auto simp: fun_upd_twist split: option.splits)

lemma view_read: "view p w = view p w' \<Longrightarrow> is_file w p = is_file w' p \<and> read_text w p = read_text w' p \<and> is_dir w p = is_dir w' p"
  by (auto simp: view_def is_file_def read_text_def)

lemma validate_names:
  "validate_tool c ''write_file'' args = validate_write c args"
  "validate_tool c ''patch_file'' args = validate_patch c args"
  "validate_tool c ''read_file'' args = validate_read c args"
  by (auto simp: validate_tool_def)

text \<open>A write is decided by what it sees at its path and changes nothing but its path and the directories above.\<close>

lemma store_nothing: "store p False None w = w"
  by (simp add: store_def)

lemma arg_path_SomeE:
  assumes "arg_path c args = Some p"
  obtains raw where "obj_get args ''path'' = Some raw" "path_of c raw = Some p"
  using assms by (auto simp: arg_path_def split: option.splits)

lemma effectI:
  assumes "\<And>w. view p w = view p w0 \<Longrightarrow> f w = (fst (f w0), store p d t w)"
  shows "\<exists>r d t. \<forall>w. view p w = view p w0 \<longrightarrow> f w = (r, store p d t w)"
  using assms by blast

lemma write_file_effect:
  assumes "arg_path c args = Some p"
  shows "\<exists>r d t. \<forall>w. view p w = view p w0 \<longrightarrow>
     act_then (validate_write c args) (tool_write_file c args) w = (r, store p d t w)"
proof -
  from assms obtain raw where raw: "obj_get args ''path'' = Some raw" "path_of c raw = Some p"
    by (rule arg_path_SomeE)
  note eqs = validate_write_def act_bind_def act_then_def arg_eqs raw tool_write_eq assms view_def
  consider "is_dir w0 p" | "\<not> is_dir w0 p" "obj_get args ''content'' = None"
    | v where "\<not> is_dir w0 p" "obj_get args ''content'' = Some v" "list_ex (is_file w0) (ancestors p)"
    | v where "\<not> is_dir w0 p" "obj_get args ''content'' = Some v" "\<not> list_ex (is_file w0) (ancestors p)"
    by fastforce
  then show ?thesis
  proof cases
    case 1
    then show ?thesis by (intro effectI [where d = False and t = None]) (simp add: eqs store_nothing)
  next
    case 2
    then show ?thesis by (intro effectI [where d = False and t = None]) (simp add: eqs store_nothing)
  next
    case (3 v)
    then show ?thesis by (intro effectI [where d = False and t = None]) (simp add: eqs store_nothing)
  next
    case (4 v)
    then show ?thesis
      by (intro effectI [where d = True and t = "Some (py_str v)"]) (simp add: eqs store_def)
  qed
qed

lemma patch_file_effect:
  assumes "arg_path c args = Some p"
  shows "\<exists>r d t. \<forall>w. view p w = view p w0 \<longrightarrow>
     act_then (validate_patch c args) (tool_patch_file c args) w = (r, store p d t w)"
proof -
  from assms obtain raw where raw: "obj_get args ''path'' = Some raw" "path_of c raw = Some p"
    by (rule arg_path_SomeE)
  have checks: "snd (patch_checks args p w) = w" for w
    using act_reads_ranges(3) [of args p] by (simp add: act_reads_def)
  have same: "fst (patch_checks args p w) = fst (patch_checks args p w0) \<and> is_dir w p = is_dir w0 p"
    if "view p w = view p w0" for w
    using view_read [OF that] by (auto simp: patch_checks_eq Let_def)
  have run: "act_then (validate_patch c args) (tool_patch_file c args) w =
      (case fst (patch_checks args p w) of
         Inl e \<Rightarrow> (Inl e, w)
       | Inr x \<Rightarrow> tool_patch_file c args w)" for w
    using checks [of w] by (cases "patch_checks args p w"; cases "fst (patch_checks args p w)")
      (simp_all add: validate_patch_def act_bind_def act_then_def arg_eqs raw act_ret_def)
  show ?thesis
  proof (cases "fst (patch_checks args p w0)")
    case (Inl e)
    show ?thesis
    proof (rule effectI [where d = False and t = None])
      show "act_then (validate_patch c args) (tool_patch_file c args) w =
          (fst (act_then (validate_patch c args) (tool_patch_file c args) w0), store p False None w)"
        if "view p w = view p w0" for w
        using same [OF that] Inl by (simp add: run store_nothing)
    qed
  next
    case (Inr x)
    let ?t = "py_replace_first (get_str args ''old_text'' []) (get_str args ''new_text'' []) x"
    show ?thesis
    proof (rule effectI [where d = False and t = "if is_dir w0 p then None else Some ?t"])
      show "act_then (validate_patch c args) (tool_patch_file c args) w =
          (fst (act_then (validate_patch c args) (tool_patch_file c args) w0),
           store p False (if is_dir w0 p then None else Some ?t) w)"
        if "view p w = view p w0" for w
        using same [OF that] Inr by (simp add: run tool_patch_eq raw assms store_def)
    qed
  qed
qed

lemma no_path_effect:
  assumes "arg_path c args = None"
  shows "\<exists>r. \<forall>w. act_then (validate_write c args) (tool_write_file c args) w = (r, w)"
    and "\<exists>r. \<forall>w. act_then (validate_patch c args) (tool_patch_file c args) w = (r, w)"
    and "\<exists>r. \<forall>w. act_then (validate_read c args) (tool_read_file c args) w = (r, w)"
  using assms
  by (cases "obj_get args ''path''";
      auto simp: validate_write_def validate_patch_def validate_read_def act_bind_def act_then_def arg_eqs
        arg_path_def)+

lemma write_call_cases:
  assumes "is_write item"
  obtains (store) "item_name item = ''write_file''" | (patch) "item_name item = ''patch_file''"
  | (unknown) "obj_get TOOL_RUNNERS (item_name item) = None"
  using assms
  by (cases "obj_get TOOL_RUNNERS (item_name item)")
    (auto simp: is_write_def is_scan_def is_read_def is_shell_def elim: tools_by_name)

lemma write_call_effect:
  assumes "is_write item" and "call_path c item = Some p"
  shows "\<exists>r d t. \<forall>w. view p w = view p w0 \<longrightarrow> run_call c item w = (r, store p d t w)"
  using assms(1)
proof (cases rule: write_call_cases)
  case store
  then show ?thesis
    using write_file_effect [of c "item_args item" p w0] assms(2)
    by (simp add: run_call_def call_path_def TOOL_RUNNERS_def validate_names Let_def)
next
  case patch
  then show ?thesis
    using patch_file_effect [of c "item_args item" p w0] assms(2)
    by (simp add: run_call_def call_path_def TOOL_RUNNERS_def validate_names Let_def)
next
  case unknown
  then show ?thesis
    by (intro effectI [where d = False and t = None])
      (simp add: run_call_def Let_def act_raise_def store_nothing)
qed

lemma write_call_no_path:
  assumes "is_write item" and "call_path c item = None"
  shows "\<exists>r. \<forall>w. run_call c item w = (r, w)"
  using assms(1)
proof (cases rule: write_call_cases)
  case store
  then show ?thesis
    using no_path_effect(1) [of c "item_args item"] assms(2)
    by (simp add: run_call_def call_path_def TOOL_RUNNERS_def validate_names Let_def)
next
  case patch
  then show ?thesis
    using no_path_effect(2) [of c "item_args item"] assms(2)
    by (simp add: run_call_def call_path_def TOOL_RUNNERS_def validate_names Let_def)
next
  case unknown
  then show ?thesis by (simp add: run_call_def Let_def act_raise_def)
qed

text \<open>Reads and scans leave the workspace alone; a read depends on its file only.\<close>

lemma read_only_call: "is_read item \<or> is_scan item \<Longrightarrow> snd (run_call c item w) = w"
proof -
  assume "is_read item \<or> is_scan item"
  then have "act_reads (run_call c item)"
    unfolding run_call_def Let_def
    by (auto simp: is_read_def is_scan_def TOOL_RUNNERS_def intro!: reads_rules)
  then show ?thesis by (simp add: act_reads_def)
qed

lemma read_call_local:
  assumes "is_read item"
    and "\<And>p. call_path c item = Some p \<Longrightarrow> ws_files w p = ws_files w' p"
  shows "fst (run_call c item w) = fst (run_call c item w')"
proof -
  let ?args = "item_args item"
  have run: "run_call c item = act_then (validate_read c ?args) (tool_read_file c ?args)"
    using assms(1) by (simp add: run_call_def is_read_def TOOL_RUNNERS_def validate_names Let_def)
  have ranges: "read_range c ?args w' = (fst (read_range c ?args w), w')"
    by (simp add: read_range_def int_arg_def act_defs check_eq Let_def split: sum.splits)
  obtain r where r: "read_range c ?args w = (r, w)"
    using act_reads_ranges(1) [of c ?args] by (metis act_reads_def prod.collapse)
  show ?thesis
  proof (cases "call_path c item")
    case None
    with no_path_effect(3) [of c ?args] show ?thesis by (auto simp: run call_path_def)
  next
    case (Some p)
    then obtain raw where raw: "obj_get ?args ''path'' = Some raw" "path_of c raw = Some p"
      by (auto simp: call_path_def elim: arg_path_SomeE)
    from assms(2) [OF Some] have same: "is_file w p = is_file w' p" "read_text w p = read_text w' p"
      by (auto simp: is_file_def read_text_def)
    show ?thesis
      unfolding run using same ranges [unfolded r] r
      by (auto simp: validate_read_def tool_read_file_def act_bind_def act_then_def arg_eqs raw act_ret_def
          act_get_def excerpt_def split: sum.splits prod.splits)
  qed
qed

section \<open>Independent calls commute\<close>

lemma apart_simps:
  "apart (Some p) (Some q) \<longleftrightarrow> take (length p) q \<noteq> p \<and> take (length q) p \<noteq> q"
  by (simp add: apart_def)

lemma write_then_read_commute:
  assumes "is_write a" and "is_read b" and "\<not> depends_on c a b"
    and "run_call c a s = (ra, s1)" and "run_call c b s1 = (rb, s2)"
  shows "run_call c b s = (rb, s) \<and> run_call c a s = (ra, s2)"
proof -
  have s2: "s2 = s1" using read_only_call [of b c s1] assms(2,5) by simp
  have same: "ws_files s p = ws_files s1 p" if b: "call_path c b = Some p" for p
  proof (cases "call_path c a")
    case None
    with write_call_no_path [OF assms(1)] assms(4) show ?thesis by (metis snd_conv)
  next
    case (Some q)
    with b assms(1-3) have "p \<noteq> q" by (auto simp: depends_on_def writes_into_def)
    moreover from write_call_effect [OF assms(1) Some, of s] obtain r d t where "s1 = store q d t s"
      using assms(4) by auto
    ultimately show ?thesis by (auto split: option.splits)
  qed
  have "fst (run_call c b s) = rb" using read_call_local [OF assms(2) same] assms(5) by simp
  moreover have "snd (run_call c b s) = s" using read_only_call assms(2) by blast
  ultimately show ?thesis using assms(4) s2 by (metis prod.collapse)
qed

lemma writes_commute:
  assumes "is_write a" and "is_write b" and "\<not> depends_on c a b"
    and "run_call c a s = (ra, s1)" and "run_call c b s1 = (rb, s2)"
  shows "\<exists>s1'. run_call c b s = (rb, s1') \<and> run_call c a s1' = (ra, s2)"
proof (cases "call_path c a")
  case None
  from write_call_no_path [OF assms(1) this] obtain r where "\<And>w. run_call c a w = (r, w)" by blast
  with assms(4,5) show ?thesis by auto
next
  case p: (Some p)
  show ?thesis
  proof (cases "call_path c b")
    case None
    from write_call_no_path [OF assms(2) this] obtain r where "\<And>w. run_call c b w = (r, w)" by blast
    with assms(4,5) show ?thesis by auto
  next
    case q: (Some q)
    have pq: "take (length p) q \<noteq> p" "take (length q) p \<noteq> q"
      using assms(1-3) p q by (auto simp: depends_on_def writes_into_def apart_simps)
    obtain r d t where a: "\<And>w. view p w = view p s \<Longrightarrow> run_call c a w = (r, store p d t w)"
      using write_call_effect [OF assms(1) p, of s] by blast
    obtain r' d' t' where b: "\<And>w. view q w = view q s \<Longrightarrow> run_call c b w = (r', store q d' t' w)"
      using write_call_effect [OF assms(2) q, of s] by blast
    have "run_call c a s = (r, store p d t s)" "run_call c b s = (r', store q d' t' s)"
      by (rule a, rule refl) (rule b, rule refl)
    moreover have "run_call c b (store p d t s) = (r', store q d' t' (store p d t s))"
      "run_call c a (store q d' t' s) = (r, store p d t (store q d' t' s))"
      using pq by (auto intro!: a b view_store)
    moreover have "store p d t (store q d' t' s) = store q d' t' (store p d t s)"
      using pq(1) by (intro store_commute) auto
    ultimately show ?thesis using assms(4,5) by auto
  qed
qed

text \<open>The tools of the workspace keep the contract.\<close>

interpretation ws: independent_calls "run_call c" "depends_on c" for c
proof
  fix a b s ra s1 rb s2
  assume d: "\<not> depends_on c a b" and a: "run_call c a s = (ra, s1)" and b: "run_call c b s1 = (rb, s2)"
  have quiet: "is_read x \<or> is_scan x \<or> is_write x" if "x = a \<or> x = b" for x
    using d that by (auto simp: depends_on_def is_write_def)
  have same: "w' = w" if "is_read x \<or> is_scan x" "run_call c x w = (r, w')" for x w r w'
    using read_only_call [OF that(1), of c w] that(2) by simp
  consider (ro) "is_read a \<or> is_scan a" "is_read b \<or> is_scan b"
    | (wr) "is_write a" "is_read b" | (rw) "is_read a" "is_write b" | (ww) "is_write a" "is_write b"
    using quiet [of a] quiet [of b] d by (auto simp: depends_on_def writes_into_def)
  then show "\<exists>s1'. run_call c b s = (rb, s1') \<and> run_call c a s1' = (ra, s2)"
  proof cases
    case ro
    with same a b show ?thesis by metis
  next
    case wr
    from write_then_read_commute [OF this d a b] show ?thesis by blast
  next
    case rw
    have "s1 = s" using same a rw(1) by blast
    then have b': "run_call c b s = (rb, s2)" using b by simp
    have "fst (run_call c a s2) = ra"
    proof -
      obtain ra' where ra': "run_call c a s2 = (ra', s2)"
        using same rw(1) by (metis prod.collapse)
      from write_then_read_commute [OF rw(2,1) _ b' ra'] d have "run_call c a s = (ra', s)"
        by (simp add: depends_on_sym)
      with a ra' show ?thesis by simp
    qed
    then have "run_call c a s2 = (ra, s2)" using same rw(1) by (metis prod.collapse)
    with b' show ?thesis by blast
  next
    case ww
    from writes_commute [OF this d a b] show ?thesis .
  qed
qed

section \<open>The plan of a batch has the outcome of the declared order\<close>

lemma distinct_sorted_fst: "sorted_wrt (\<lambda>x y. fst x < (fst y :: nat)) xs \<Longrightarrow> distinct xs"
  by (induction xs) auto

lemma precedes_enumerate:
  assumes "precedes (List.enumerate 0 tools) x y"
  shows "fst x < fst y"
proof -
  from assms obtain a b d where "List.enumerate 0 tools = a @ x # b @ y # d" unfolding precedes_def by blast
  with sorted_enumerate_less [of 0 tools] show ?thesis by (simp add: sorted_wrt_append)
qed

text \<open>
  \<open>run_order\<close> is any order in which the concurrent group may finish its calls, then the serial group.
\<close>

text \<open>
  C37. A batch run as planned, its concurrent group in any order and then its serial group, gives
  every call the result, and leaves the workspace, that running the calls one by one in the declared
  order would give.  Each call is one step.  This needs that calls which depend on each other are
  recognised by the planner's comparison of path texts (two texts of one place are not), and that no
  scan moved to the serial group was declared before a write of the concurrent group: such a write
  overtakes the scan, see scan_sees_later_write.
\<close>

theorem batch_runs_as_declared:
  assumes "partition_batch_tools tools = (concurrent, serial)"
    and "distinct run_order" and "set run_order = set concurrent"
    and "\<forall>x \<in> set tools. \<forall>y \<in> set tools. depends_on c x y \<longrightarrow> conflict x y"
    and "\<forall>x \<in> set serial. \<forall>y \<in> set concurrent. is_scan (snd x) \<and> is_write (snd y) \<longrightarrow> fst y < fst x"
  shows "outcome (run_call c) (run_order @ serial) w = outcome (run_call c) (List.enumerate 0 tools) w"
proof -
  note part = partition_divided [OF assms(1)]
  have "outcome (run_call c) (List.enumerate 0 tools) w = outcome (run_call c) (run_order @ serial) w"
  proof (rule ws.outcome_reorder)
    show "distinct (List.enumerate 0 tools)" by simp
    show "distinct (run_order @ serial)"
      using assms(2,3) part(2) distinct_sorted_fst [OF part(4)] by auto
    show "set (List.enumerate 0 tools) = set (run_order @ serial)" using part(1) assms(3) by auto
    show "precedes (run_order @ serial) x y"
      if xy: "precedes (List.enumerate 0 tools) x y" "depends_on c (snd x) (snd y)" for x y
    proof -
      have lt: "fst x < fst y" by (rule precedes_enumerate [OF xy(1)])
      have mem: "x \<in> set concurrent \<union> set serial" "y \<in> set concurrent \<union> set serial"
        using precedes_mem [OF xy(1)] part(1) by auto
      have "snd x \<in> set tools" "snd y \<in> set tools"
        using precedes_mem [OF xy(1)] by (auto simp: in_set_enumerate_eq) (metis nth_mem)+
      with assms(4) xy(2) have conf: "conflict (snd x) (snd y)" by blast
      have "x \<notin> set concurrent \<or> y \<notin> set concurrent" using part(5) [of x y] conf lt by auto
      moreover have "\<not> (x \<in> set serial \<and> y \<in> set concurrent)"
        using part(6) [of x y] lt conf assms(5) by fastforce
      ultimately consider "x \<in> set serial" "y \<in> set serial" | "x \<in> set concurrent" "y \<in> set serial"
        using mem by blast
      then show ?thesis
      proof cases
        case 1
        show ?thesis by (rule precedes_append(1) [OF precedes_sorted [OF part(4) 1 lt]])
      next
        case 2
        with assms(3) show ?thesis by (intro precedes_append(2)) auto
      qed
    qed
  qed
  then show ?thesis by simp
qed

definition write_b :: tool_item where
  "write_b = [(''name'', JStr ''write_file''), (''args'', JObj sample_write)]"

lemma write_b_simps:
  "item_name write_b = ''write_file''" "item_path write_b = Some ''b''"
  "call_path sample_context write_b = Some [''w'', ''b'']"
  "call_path sample_context (call_of ''read_file'' ''a'') = Some [''w'', ''a'']"
  "call_path sample_context (call_of ''read_file'' ''b'') = Some [''w'', ''b'']"
  by (simp_all add: write_b_def sample_write_def item_name_def get_str_def get_default_def item_path_def
      item_args_def item_raw_args_def dict_or_empty_def extract_tool_path_def plain_paths call_path_def
      call_of_def sample_context_def arg_path_def path_of_def under_root_def starts_with_def Let_def)

lemma sample_kinds:
  "is_write write_b" "\<not> is_scan write_b" "\<not> is_read write_b" "\<not> is_shell write_b"
  "\<not> is_write (call_of ''read_file'' p)" "\<not> is_scan (call_of ''read_file'' p)"
  "\<not> is_shell (call_of ''read_file'' p)"
  by (simp_all add: is_write_def is_scan_def is_read_def is_shell_def write_b_simps)

lemma sample_partition:
  "partition_batch_tools [write_b, call_of ''read_file'' ''a'', call_of ''read_file'' ''b''] =
     ([(0, write_b), (1, call_of ''read_file'' ''a'')], [(2, call_of ''read_file'' ''b'')])"
proof -
  have "partition_step b (n, write_b) = place_write (n, write_b) b" for b n
    by (simp add: partition_step_simps sample_kinds)
  then show ?thesis
    by (simp add: partition_batch_tools_def placed_evaluate plain_paths place_defs batch_init_def EVERYTHING_def
        write_b_simps)
qed

theorem batch_runs_as_declared_witness:
  "outcome (run_call sample_context)
     [(1, call_of ''read_file'' ''a''), (0, write_b), (2, call_of ''read_file'' ''b'')] sample_ws =
   outcome (run_call sample_context)
     [(0, write_b), (1, call_of ''read_file'' ''a''), (2, call_of ''read_file'' ''b'')] sample_ws"
proof -
  have "outcome (run_call sample_context)
      ([(1, call_of ''read_file'' ''a''), (0, write_b)] @ [(2, call_of ''read_file'' ''b'')]) sample_ws =
    outcome (run_call sample_context)
      (List.enumerate 0 [write_b, call_of ''read_file'' ''a'', call_of ''read_file'' ''b'']) sample_ws"
    by (rule batch_runs_as_declared [OF sample_partition])
      (auto simp: sample_kinds write_b_simps plain_paths depends_on_def writes_into_def conflict_def
        write_conflict_def)
  then show ?thesis by (simp add: numeral_2_eq_2)
qed

end
