(* ===== verification/Tool_Executor.thy ===== *)
theory Tool_Executor
  imports Approval_Policy Batch_Order
begin

text \<open>
  One tool call from the request of the model to its result (\<open>pico/tool_executor.py\<close>), with the
  snapshots that tell which files it changed (\<open>pico/runtime.py\<close>).

  The state holds the workspace, the task snapshot, the history of the session, a log of what the
  executor did in order, and the environment of the hooks.  The hooks of the run, the token, the
  memory notes and the decision about a risky call are arguments that act on the environment; each
  of them may raise.
\<close>

section \<open>Metadata\<close>

record meta =
  mt_status :: string
  mt_code :: string
  mt_event :: string
  mt_risk :: string
  mt_read_only :: bool
  mt_paths :: "string list"
  mt_changed :: bool
  mt_fingerprint :: string
  mt_diff :: "string list"
  mt_call_id :: string

definition meta_default :: "string \<Rightarrow> string \<Rightarrow> meta" where
  "meta_default status call_id =
     \<lparr>mt_status = status, mt_code = [], mt_event = [], mt_risk = ''low'', mt_read_only = True,
      mt_paths = [], mt_changed = False, mt_fingerprint = [], mt_diff = [], mt_call_id = call_id\<rparr>"

definition metadata :: "meta \<Rightarrow> (string \<times> json) list" where
  "metadata m =
     [(''tool_status'', JStr (mt_status m)), (''tool_error_code'', JStr (mt_code m)),
      (''security_event_type'', JStr (mt_event m)), (''risk_level'', JStr (mt_risk m)),
      (''read_only'', JBool (mt_read_only m)), (''affected_paths'', JList (map JStr (mt_paths m))),
      (''workspace_changed'', JBool (mt_changed m)), (''diff_summary'', JList (map JStr (mt_diff m))),
      (''tool_call_id'', JStr (mt_call_id m))] @
     (if mt_fingerprint m = [] then [] else [(''workspace_fingerprint'', JStr (mt_fingerprint m))])"

definition result_of :: "string \<Rightarrow> meta \<Rightarrow> tool_result" where
  "result_of content m = \<lparr>tr_content = content, tr_metadata = metadata m\<rparr>"

section \<open>Snapshots of the workspace\<close>

type_synonym ws_snapshot = "(string \<times> string) list"

definition posix :: "rpath \<Rightarrow> rpath \<Rightarrow> string" where
  "posix root p = py_join ''/'' (drop (length root) p)"

text \<open>\<open>capture_path_snapshot\<close>: the hash of one file, under the text of its path.\<close>

definition capture_path_snapshot ::
  "(string \<Rightarrow> string) \<Rightarrow> tool_context \<Rightarrow> workspace \<Rightarrow> string \<Rightarrow> ws_snapshot" where
  "capture_path_snapshot digest c w relative =
     (let key = slashes (py_strip relative); target = tc_resolve c key
      in if key = [] \<or> \<not> under_root (tc_root c) target \<or> \<not> is_file w target then []
         else [(key, digest (read_text w target))])"

text \<open>\<open>capture_workspace_snapshot\<close>: every file below the root that no ignored name is above.\<close>

definition capture_workspace_snapshot ::
  "(string \<Rightarrow> string) \<Rightarrow> tool_context \<Rightarrow> workspace \<Rightarrow> ws_snapshot" where
  "capture_workspace_snapshot digest c w =
     map (\<lambda>p. (posix (tc_root c) p, digest (read_text w p)))
       (filter (\<lambda>p. is_file w p \<and>
                 list_all (\<lambda>n. n \<notin> IGNORED_PATH_NAMES) (drop (length (tc_root c)) p))
         (tc_walk c w (tc_root c)))"

definition changed_keys :: "ws_snapshot \<Rightarrow> ws_snapshot \<Rightarrow> string list" where
  "changed_keys before after =
     filter (\<lambda>k. obj_get before k \<noteq> obj_get after k)
       (sort (remdups (map fst before @ map fst after)))"

definition diff_line :: "ws_snapshot \<Rightarrow> ws_snapshot \<Rightarrow> string \<Rightarrow> string" where
  "diff_line before after k =
     (if obj_get before k = None then ''created:''
      else if obj_get after k = None then ''deleted:'' else ''modified:'') @ k"

definition diff_workspace_snapshots :: "ws_snapshot \<Rightarrow> ws_snapshot \<Rightarrow> string list \<times> string list" where
  "diff_workspace_snapshots before after =
     (changed_keys before after, map (diff_line before after) (changed_keys before after))"

section \<open>The exit code in the text of a shell call\<close>

definition is_digit :: "char \<Rightarrow> bool" where
  "is_digit ch \<longleftrightarrow> (let n = of_char ch :: nat in 48 \<le> n \<and> n \<le> 57)"

definition digits_value :: "string \<Rightarrow> nat" where
  "digits_value ds = foldl (\<lambda>a ch. 10 * a + (of_char ch - 48)) 0 ds"

text \<open>\<open>\s*(-?\d+)\<close> at the start of a text.\<close>

definition match_int :: "string \<Rightarrow> int option" where
  "match_int s =
     (let t = dropWhile is_space s; neg = starts_with ''-'' t;
          ds = takeWhile is_digit (if neg then tl t else t)
      in if ds = [] then None
         else Some (if neg then - int (digits_value ds) else int (digits_value ds)))"

text \<open>\<open>re.search(r"exit_code:\s*(-?\d+)", content)\<close>.\<close>

fun find_exit_code :: "string \<Rightarrow> int option" where
  "find_exit_code [] = None"
| "find_exit_code (ch # s) =
     (if starts_with ''exit_code:'' (ch # s)
      then (case match_int (drop 10 (ch # s)) of Some n \<Rightarrow> Some n | None \<Rightarrow> find_exit_code s)
      else find_exit_code s)"

definition exit_code_of :: "string \<Rightarrow> int" where
  "exit_code_of content = (case find_exit_code content of None \<Rightarrow> 0 | Some n \<Rightarrow> n)"

definition timeout_mark :: string where
  "timeout_mark = ''[tool timed out''"

text \<open>Status and error code of a call whose tool returned.\<close>

definition final_status :: "string \<Rightarrow> string \<Rightarrow> bool \<Rightarrow> string \<times> string" where
  "final_status name content changed =
     (if name \<noteq> ''run_shell'' then (''ok'', [])
      else if contains timeout_mark content
      then (if changed then ''partial_success'' else ''error'', ''tool_timeout'')
      else if exit_code_of content \<noteq> 0 \<and> changed then (''partial_success'', ''tool_partial_success'')
      else if exit_code_of content \<noteq> 0 then (''error'', ''tool_failed'')
      else (''ok'', []))"

section \<open>State and configuration\<close>

datatype exec_event =
    E_Violation string string
  | E_Requested string string
  | E_Asked string approval_outcome
  | E_Before string
  | E_Ran string
  | E_After tool_result

record 'h exec_state =
  ex_ws :: workspace
  ex_task :: "task_state option"
  ex_history :: "(string \<times> json) list list"
  ex_log :: "exec_event list"
  ex_env :: 'h

type_synonym ('h, 'a) exec_act = "('h exec_state, tool_exn, 'a) act"

type_synonym ('h, 'a) env_act = "('h, tool_exn, 'a) act"

record 'h exec_config =
  xc_context :: tool_context
  xc_tools :: "(string \<times> tool) list"
  xc_allowed :: "string list option"
  xc_read_only :: bool
  xc_digest :: "string \<Rightarrow> string"
  xc_fingerprint :: "workspace \<Rightarrow> string"
  xc_example :: "string \<Rightarrow> string"
  xc_decide :: "approval_request \<Rightarrow> ('h, approval_outcome) env_act"
  xc_requested :: "string \<Rightarrow> json \<Rightarrow> string \<Rightarrow> ('h, unit) env_act"
  xc_check_cancelled :: "('h, unit) env_act"
  xc_before :: "string \<Rightarrow> json \<Rightarrow> string \<Rightarrow> ('h, unit) env_act"
  xc_after :: "tool_result \<Rightarrow> ('h, unit) env_act"
  xc_violation :: "string \<Rightarrow> string \<Rightarrow> string \<Rightarrow> ('h, unit) env_act"
  xc_memory :: "string \<Rightarrow> json \<Rightarrow> string \<Rightarrow> ('h, unit) env_act"
  xc_note :: "string \<Rightarrow> (string \<times> json) list \<Rightarrow> ('h, unit) env_act"

definition on_env :: "('h, 'a) env_act \<Rightarrow> ('h, 'a) exec_act" where
  "on_env m = (\<lambda>s. case m (ex_env s) of (r, h) \<Rightarrow> (r, s\<lparr>ex_env := h\<rparr>))"

definition on_ws :: "'a tool_act \<Rightarrow> ('h, 'a) exec_act" where
  "on_ws m = (\<lambda>s. case m (ex_ws s) of (r, w) \<Rightarrow> (r, s\<lparr>ex_ws := w\<rparr>))"

definition log_event :: "exec_event \<Rightarrow> ('h, unit) exec_act" where
  "log_event e = act_modify (\<lambda>s. s\<lparr>ex_log := ex_log s @ [e]\<rparr>)"

section \<open>The executor\<close>

text \<open>\<open>_record_sandbox_violation\<close>: nothing without a task.\<close>

definition record_violation :: "'h exec_config \<Rightarrow> string \<Rightarrow> string \<Rightarrow> string \<Rightarrow> ('h, unit) exec_act" where
  "record_violation x code event name =
     act_bind (act_get ex_task) (\<lambda>t.
       case t of
         None \<Rightarrow> act_ret ()
       | Some task \<Rightarrow>
           act_then (act_modify (\<lambda>s. s\<lparr>ex_task := Some (record_sandbox_violation task)\<rparr>))
             (act_then (log_event (E_Violation code event))
               (on_env (xc_violation x code event name))))"

definition is_escape :: "string \<Rightarrow> bool" where
  "is_escape msg \<longleftrightarrow> contains ''path escapes workspace'' msg"

definition escape_event :: "string \<Rightarrow> string" where
  "escape_event msg = (if is_escape msg then ''path_escape'' else [])"

text \<open>\<open>agent.repeated_tool_call\<close>; an exception of it passes the executor.\<close>

definition repeated_here :: "string \<Rightarrow> json \<Rightarrow> ('h, bool) exec_act" where
  "repeated_here name args =
     act_bind (act_get (\<lambda>s. repeated_tool_call (ex_history s) name args)) (\<lambda>r.
       case r of Inl e \<Rightarrow> act_raise (Tool_Error e []) | Inr b \<Rightarrow> act_ret b)"

text \<open>What the first section hands to the second: the tool and the snapshot it took.\<close>

record pending =
  pd_tool :: tool
  pd_path :: string
  pd_before :: ws_snapshot

definition snapshot_text :: "tool \<Rightarrow> json \<Rightarrow> string" where
  "snapshot_text t args =
     (if tl_risky t then
        (case obj_get (dict_or_empty args) ''path'' of
           Some (JStr p) \<Rightarrow> slashes (py_strip p)
         | _ \<Rightarrow> [])
      else [])"

definition take_snapshot :: "'h exec_config \<Rightarrow> tool \<Rightarrow> string \<Rightarrow> workspace \<Rightarrow> ws_snapshot" where
  "take_snapshot x t path w =
     (if \<not> tl_risky t then []
      else if path \<noteq> [] then capture_path_snapshot (xc_digest x) (xc_context x) w path
      else capture_workspace_snapshot (xc_digest x) (xc_context x) w)"

abbreviation risk_of :: "tool \<Rightarrow> string" where
  "risk_of t \<equiv> if tl_risky t then ''high'' else ''low''"

definition refuse :: "string \<Rightarrow> meta \<Rightarrow> ('h, tool_result + pending) exec_act" where
  "refuse content m = act_ret (Inl (result_of content m))"

definition finish_refused :: "'h exec_config \<Rightarrow> string \<Rightarrow> meta \<Rightarrow> ('h, tool_result + pending) exec_act" where
  "finish_refused x content m =
     (let r = result_of content m in
      act_then (log_event (E_After r))
        (act_then (on_env (xc_after x r)) (act_ret (Inl r))))"

definition quoted :: "string \<Rightarrow> string" where
  "quoted s = [CHR 0x27] @ s @ [CHR 0x27]"

definition high_risk :: "meta \<Rightarrow> meta" where
  "high_risk m = m\<lparr>mt_risk := ''high'', mt_read_only := False\<rparr>"

text \<open>\<open>approve_outcome\<close>: a read-only agent does not ask.\<close>

definition ask_approval :: "'h exec_config \<Rightarrow> string \<Rightarrow> json \<Rightarrow> string \<Rightarrow> ('h, approval_outcome) exec_act" where
  "ask_approval x name args call_id =
     act_bind
       (if xc_read_only x then act_ret O_Rejected
        else on_env (xc_decide x \<lparr>rq_name = name, rq_args = args, rq_call_id = call_id\<rparr>)) (\<lambda>outcome.
       act_then (log_event (E_Asked name outcome)) (act_ret outcome))"

definition exec_expired :: "'h exec_config \<Rightarrow> string \<Rightarrow> string \<Rightarrow> ('h, tool_result + pending) exec_act" where
  "exec_expired x name call_id =
     finish_refused x (''error: approval expired for '' @ name)
       (high_risk ((meta_default ''rejected'' call_id)
          \<lparr>mt_code := ''approval_expired'', mt_event := ''approval_denied''\<rparr>))"

definition exec_denied :: "'h exec_config \<Rightarrow> string \<Rightarrow> string \<Rightarrow> ('h, tool_result + pending) exec_act" where
  "exec_denied x name call_id =
     (let event = (if xc_read_only x then ''read_only_block'' else ''approval_denied'') in
      act_then (act_when (xc_read_only x) (record_violation x ''approval_denied'' event name))
        (finish_refused x (''error: approval denied for '' @ name)
          (high_risk ((meta_default ''rejected'' call_id)\<lparr>mt_code := ''approval_denied'', mt_event := event\<rparr>))))"

definition exec_start :: "'h exec_config \<Rightarrow> tool \<Rightarrow> string \<Rightarrow> json \<Rightarrow> string \<Rightarrow> ('h, tool_result + pending) exec_act" where
  "exec_start x t name args call_id =
     act_then (on_env (xc_check_cancelled x))
       (act_then (log_event (E_Before name))
         (act_then (on_env (xc_before x name args call_id))
           (act_bind (act_get (\<lambda>s. take_snapshot x t (snapshot_text t args) (ex_ws s))) (\<lambda>before.
             act_ret (Inr \<lparr>pd_tool = t, pd_path = snapshot_text t args, pd_before = before\<rparr>)))))"

definition exec_approved :: "'h exec_config \<Rightarrow> tool \<Rightarrow> string \<Rightarrow> json \<Rightarrow> string \<Rightarrow> ('h, tool_result + pending) exec_act" where
  "exec_approved x t name args call_id =
     (if tl_risky t then
        act_bind (ask_approval x name args call_id) (\<lambda>outcome.
          case outcome of
            O_Cancelled \<Rightarrow> act_raise Tool_Cancelled
          | O_Expired \<Rightarrow> exec_expired x name call_id
          | O_Rejected \<Rightarrow> exec_denied x name call_id
          | O_Approved \<Rightarrow> exec_start x t name args call_id)
      else exec_start x t name args call_id)"

definition invalid_message :: "'h exec_config \<Rightarrow> string \<Rightarrow> string \<Rightarrow> string" where
  "invalid_message x name msg =
     ''error: invalid arguments for '' @ name @ '': '' @ msg @
     (if xc_example x name = [] then [] else nl @ ''example: '' @ xc_example x name)"

fun exn_text :: "tool_exn \<Rightarrow> string" where
  "exn_text (Tool_Error _ msg) = msg"
| "exn_text _ = []"

definition exec_invalid :: "'h exec_config \<Rightarrow> tool \<Rightarrow> string \<Rightarrow> string \<Rightarrow> tool_exn \<Rightarrow> ('h, tool_result + pending) exec_act" where
  "exec_invalid x t name call_id e =
     (let event = escape_event (exn_text e) in
      act_then (act_when (event \<noteq> []) (record_violation x ''invalid_arguments'' event name))
        (refuse (invalid_message x name (exn_text e))
          ((meta_default ''rejected'' call_id)
             \<lparr>mt_code := ''invalid_arguments'', mt_event := event, mt_risk := risk_of t,
              mt_read_only := \<not> tl_risky t\<rparr>)))"

text \<open>The section under the lock before the tool runs.\<close>

definition exec_known :: "'h exec_config \<Rightarrow> tool \<Rightarrow> string \<Rightarrow> json \<Rightarrow> string \<Rightarrow> ('h, tool_result + pending) exec_act" where
  "exec_known x t name args call_id =
     act_try (on_ws (validate_tool (xc_context x) name (dict_or_empty args)))
       (\<lambda>_. act_bind (repeated_here name args) (\<lambda>again.
          if again then
            refuse (''error: repeated identical tool call for '' @ name @
                    ''; choose a different tool or return a final answer'')
              ((meta_default ''rejected'' call_id)
                 \<lparr>mt_code := ''repeated_identical_call'', mt_risk := risk_of t, mt_read_only := \<not> tl_risky t\<rparr>)
          else
            act_then (log_event (E_Requested name call_id))
              (act_then (on_env (xc_requested x name args call_id))
                (exec_approved x t name args call_id))))
       (exec_invalid x t name call_id)"

definition exec_before :: "'h exec_config \<Rightarrow> string \<Rightarrow> json \<Rightarrow> string \<Rightarrow> ('h, tool_result + pending) exec_act" where
  "exec_before x name args call_id =
     (if (case xc_allowed x of None \<Rightarrow> False | Some names \<Rightarrow> name \<notin> set names) then
        act_then (record_violation x ''tool_not_allowed'' ''tool_not_allowed'' name)
          (refuse (''error: tool '' @ quoted name @ '' is not allowed in this run'')
            (high_risk ((meta_default ''rejected'' call_id)
               \<lparr>mt_code := ''tool_not_allowed'', mt_event := ''tool_not_allowed''\<rparr>)))
      else
        (case obj_get (xc_tools x) name of
           None \<Rightarrow>
             refuse (''error: unknown tool '' @ quoted name)
               (high_risk ((meta_default ''rejected'' call_id)\<lparr>mt_code := ''unknown_tool''\<rparr>))
         | Some t \<Rightarrow> exec_known x t name args call_id))"

text \<open>The section after the tool raised, and the one after it returned.\<close>

definition diff_now :: "'h exec_config \<Rightarrow> pending \<Rightarrow> workspace \<Rightarrow> string list \<times> string list" where
  "diff_now x p w =
     diff_workspace_snapshots (pd_before p)
       (if tl_risky (pd_tool p) then take_snapshot x (pd_tool p) (pd_path p) w else pd_before p)"

definition exec_failed :: "'h exec_config \<Rightarrow> pending \<Rightarrow> string \<Rightarrow> string \<Rightarrow> string \<Rightarrow> ('h, tool_result) exec_act" where
  "exec_failed x p name call_id msg =
     act_bind (act_get ex_ws) (\<lambda>w.
       let (paths, diff) = diff_now x p w; changed = (paths \<noteq> []); event = escape_event msg;
           t = pd_tool p;
           m = (meta_default (if changed then ''partial_success'' else ''error'') call_id)
                 \<lparr>mt_code := (if changed then ''tool_partial_success'' else ''tool_failed''),
                  mt_event := event, mt_risk := risk_of t, mt_read_only := \<not> tl_risky t,
                  mt_paths := paths, mt_changed := changed, mt_fingerprint := xc_fingerprint x w,
                  mt_diff := diff\<rparr>;
           r = result_of (''error: tool '' @ name @ '' failed: '' @ msg) m
       in act_then (act_when (event \<noteq> []) (record_violation x ''tool_failed'' event name))
            (act_then (on_env (xc_note x name (metadata m)))
              (act_then (log_event (E_After r))
                (act_then (on_env (xc_after x r)) (act_ret r)))))"

definition exec_returned :: "'h exec_config \<Rightarrow> pending \<Rightarrow> string \<Rightarrow> json \<Rightarrow> string \<Rightarrow> string \<Rightarrow> ('h, tool_result) exec_act" where
  "exec_returned x p name args call_id content =
     act_then (on_env (xc_memory x name args content))
       (act_bind (act_get ex_ws) (\<lambda>w.
         let (paths, diff) = diff_now x p w; changed = (paths \<noteq> []); t = pd_tool p;
             (status, code) = final_status name content changed;
             m = (meta_default status call_id)
                   \<lparr>mt_code := code, mt_risk := risk_of t, mt_read_only := \<not> tl_risky t, mt_paths := paths,
                    mt_changed := changed, mt_fingerprint := xc_fingerprint x w, mt_diff := diff\<rparr>;
             r = result_of content m
         in act_then (on_env (xc_note x name (metadata m)))
              (act_then (log_event (E_After r))
                (act_then (on_env (xc_after x r)) (act_ret r)))))"

definition exec_run :: "'h exec_config \<Rightarrow> pending \<Rightarrow> string \<Rightarrow> json \<Rightarrow> string \<Rightarrow> ('h, tool_result) exec_act" where
  "exec_run x p name args call_id =
     act_then (log_event (E_Ran name))
       (act_try (on_ws (tl_run (pd_tool p) (dict_or_empty args)))
         (\<lambda>content. exec_returned x p name args call_id (clip content MAX_TOOL_OUTPUT))
         (\<lambda>e. case e of
                Tool_Error _ msg \<Rightarrow> exec_failed x p name call_id msg
              | _ \<Rightarrow> act_raise e))"

definition execute :: "'h exec_config \<Rightarrow> string \<Rightarrow> json \<Rightarrow> string \<Rightarrow> ('h, tool_result) exec_act" where
  "execute x name args call_id =
     act_bind (exec_before x name args call_id) (\<lambda>r.
       case r of Inl result \<Rightarrow> act_ret result | Inr p \<Rightarrow> exec_run x p name args call_id)"

section \<open>What has happened before a tool runs\<close>

text \<open>
  Since a call began with log \<open>l\<close> and workspace \<open>w\<close>: no tool has run, the workspace is the same, and
  the events of \<open>seen\<close> have been logged.
\<close>

definition ran :: "exec_event \<Rightarrow> bool" where
  "ran e \<longleftrightarrow> (case e of E_Ran _ \<Rightarrow> True | _ \<Rightarrow> False)"

definition quiet :: "exec_event list \<Rightarrow> workspace \<Rightarrow> exec_event set \<Rightarrow> 'h exec_state \<Rightarrow> bool" where
  "quiet l w seen s \<longleftrightarrow>
     ex_ws s = w \<and> (\<exists>new. ex_log s = l @ new \<and> list_all (\<lambda>e. \<not> ran e) new \<and> seen \<subseteq> set new)"

lemma quiet_mono: "quiet l w seen s \<Longrightarrow> seen' \<subseteq> seen \<Longrightarrow> quiet l w seen' s"
  by (auto simp: quiet_def)

lemma quiet_env [keeps_rules]: "act_keeps (quiet l w seen) (on_env m)"
  by (auto simp: act_triple_def on_env_def quiet_def split: prod.splits sum.splits)

lemma quiet_reads [keeps_rules]: "act_reads m \<Longrightarrow> act_keeps (quiet l w seen) (on_ws m)"
  by (rule act_tripleI) (auto simp: on_ws_def quiet_def act_reads_def split: prod.splits; metis snd_conv)+

lemma quiet_log:
  "\<not> ran e \<Longrightarrow> act_triple (quiet l w seen) (log_event e) (\<lambda>_. quiet l w (insert e seen)) (\<lambda>_. quiet l w seen)"
  by (auto simp: act_triple_def log_event_def act_modify_def quiet_def)

lemma quiet_log_keeps [keeps_rules]: "\<not> ran e \<Longrightarrow> act_keeps (quiet l w seen) (log_event e)"
  by (rule act_triple_conseq [OF quiet_log]) (auto intro: quiet_mono)

lemma quiet_ran_simps [simp]:
  "\<not> ran (E_Violation a b)" "\<not> ran (E_Requested a b)" "\<not> ran (E_Asked a ou)" "\<not> ran (E_Before a)"
  "\<not> ran (E_After r)" "ran (E_Ran a)"
  by (simp_all add: ran_def)

lemma quiet_violation [keeps_rules]: "act_keeps (quiet l w seen) (record_violation x code event name)"
proof -
  have "act_keeps (quiet l w seen)
      (case t of None \<Rightarrow> act_ret ()
       | Some task \<Rightarrow>
           act_then (act_modify (\<lambda>s. s\<lparr>ex_task := Some (record_sandbox_violation task)\<rparr>))
             (act_then (log_event (E_Violation code event)) (on_env (xc_violation x code event name))))" for t
    by (cases t) (auto intro!: keeps_rules simp: quiet_def)
  then show ?thesis unfolding record_violation_def by (intro keeps_rules)
qed

text \<open>What the first section has established when it hands a tool over.\<close>

definition cleared_events :: "'h exec_config \<Rightarrow> tool \<Rightarrow> string \<Rightarrow> string \<Rightarrow> exec_event set" where
  "cleared_events x t name call_id =
     {E_Requested name call_id, E_Before name} \<union> (if tl_risky t then {E_Asked name O_Approved} else {})"

definition cleared ::
  "'h exec_config \<Rightarrow> string \<Rightarrow> string \<Rightarrow> exec_event list \<Rightarrow> workspace \<Rightarrow> tool_result + pending \<Rightarrow> 'h exec_state \<Rightarrow> bool" where
  "cleared x name call_id l w r s \<longleftrightarrow>
     quiet l w {} s \<and>
     (case r of
        Inl _ \<Rightarrow> True
      | Inr p \<Rightarrow>
          obj_get (xc_tools x) name = Some (pd_tool p) \<and>
          (\<forall>names. xc_allowed x = Some names \<longrightarrow> name \<in> set names) \<and>
          (tl_risky (pd_tool p) \<longrightarrow> \<not> xc_read_only x) \<and>
          quiet l w (cleared_events x (pd_tool p) name call_id) s)"

lemma keeps_weaken: "act_keeps (quiet l w seen) m \<Longrightarrow> act_triple (quiet l w seen) m (\<lambda>_. quiet l w seen) (\<lambda>_. quiet l w {})"
  by (erule act_triple_conseq) (auto intro: quiet_mono)

lemma refuse_cleared: "act_triple (quiet l w seen) (refuse content m) (cleared x name call_id l w) (\<lambda>_. quiet l w {})"
  unfolding refuse_def by (rule act_triple_ret) (auto simp: cleared_def intro: quiet_mono)

lemma finish_refused_cleared:
  "act_triple (quiet l w seen) (finish_refused x content m) (cleared x name call_id l w) (\<lambda>_. quiet l w {})"
  unfolding finish_refused_def Let_def
  by (rule act_triple_then [OF keeps_weaken] act_triple_ret | intro keeps_rules | simp)+
    (auto simp: cleared_def intro: quiet_mono)

lemma quiet_log_weak:
  "\<not> ran e \<Longrightarrow> act_triple (quiet l w seen) (log_event e) (\<lambda>_. quiet l w (insert e seen)) (\<lambda>_. quiet l w {})"
  by (rule act_triple_conseq [OF quiet_log [where seen = seen]]) (auto intro: quiet_mono)

lemma start_cleared:
  assumes "obj_get (xc_tools x) name = Some t" and "\<forall>names. xc_allowed x = Some names \<longrightarrow> name \<in> set names"
    and "tl_risky t \<Longrightarrow> \<not> xc_read_only x"
    and "cleared_events x t name call_id \<subseteq> insert (E_Before name) seen"
  shows "act_triple (quiet l w seen) (exec_start x t name args call_id) (cleared x name call_id l w) (\<lambda>_. quiet l w {})"
  unfolding exec_start_def
proof (rule act_triple_then [OF keeps_weaken [OF quiet_env]], rule act_triple_then [OF quiet_log_weak],
    simp, rule act_triple_then [OF keeps_weaken [OF quiet_env]])
  have c: "cleared x name call_id l w (Inr \<lparr>pd_tool = t, pd_path = a, pd_before = b\<rparr>) s"
    if "quiet l w (insert (E_Before name) seen) s" for a b and s :: "'a exec_state"
    using assms quiet_mono [OF that assms(4)] quiet_mono [OF that, of "{}"] by (simp add: cleared_def)
  show "act_triple (quiet l w (insert (E_Before name) seen))
     (act_bind (act_get (\<lambda>s. take_snapshot x t (snapshot_text t args) (ex_ws s)))
       (\<lambda>before. act_ret (Inr \<lparr>pd_tool = t, pd_path = snapshot_text t args, pd_before = before\<rparr>)))
     (cleared x name call_id l w) (\<lambda>_. quiet l w {})"
    using c by (auto simp: act_triple_def act_defs)
qed

lemma denied_cleared:
  "act_triple (quiet l w seen) (exec_denied x name call_id) (cleared x name call_id l w) (\<lambda>_. quiet l w {})"
  unfolding exec_denied_def Let_def
  by (rule act_triple_then [OF keeps_weaken finish_refused_cleared]) (intro keeps_rules)

lemma ask_triple:
  "act_triple (quiet l w seen) (ask_approval x name args call_id)
     (\<lambda>outcome s. quiet l w (insert (E_Asked name outcome) seen) s \<and> (outcome = O_Approved \<longrightarrow> \<not> xc_read_only x))
     (\<lambda>_. quiet l w {})"
  unfolding ask_approval_def
proof (rule act_triple_bind)
  show "act_triple (quiet l w seen)
      (if xc_read_only x then act_ret O_Rejected
       else on_env (xc_decide x \<lparr>rq_name = name, rq_args = args, rq_call_id = call_id\<rparr>))
      (\<lambda>outcome s. quiet l w seen s \<and> (outcome = O_Approved \<longrightarrow> \<not> xc_read_only x)) (\<lambda>_. quiet l w {})"
    by (cases "xc_read_only x")
      (auto intro!: act_triple_ret act_triple_conseq [OF keeps_weaken [OF quiet_env [where seen = seen]]])
  show "act_triple (\<lambda>s. quiet l w seen s \<and> (outcome = O_Approved \<longrightarrow> \<not> xc_read_only x))
      (act_then (log_event (E_Asked name outcome)) (act_ret outcome))
      (\<lambda>outcome s. quiet l w (insert (E_Asked name outcome) seen) s \<and> (outcome = O_Approved \<longrightarrow> \<not> xc_read_only x))
      (\<lambda>_. quiet l w {})" for outcome
    using quiet_log_weak [of "E_Asked name outcome" l w seen]
    by (auto simp: act_triple_def act_defs split: prod.splits sum.splits)
qed

lemma approved_cleared:
  assumes "obj_get (xc_tools x) name = Some t" and "\<forall>names. xc_allowed x = Some names \<longrightarrow> name \<in> set names"
  shows "act_triple (quiet l w {E_Requested name call_id}) (exec_approved x t name args call_id)
    (cleared x name call_id l w) (\<lambda>_. quiet l w {})"
proof (cases "tl_risky t")
  case False
  with assms show ?thesis
    unfolding exec_approved_def by (auto intro!: start_cleared simp: cleared_events_def)
next
  case True
  have "act_triple (\<lambda>s. quiet l w (insert (E_Asked name outcome) {E_Requested name call_id}) s \<and>
          (outcome = O_Approved \<longrightarrow> \<not> xc_read_only x))
      (case outcome of
         O_Cancelled \<Rightarrow> act_raise Tool_Cancelled
       | O_Expired \<Rightarrow> exec_expired x name call_id
       | O_Rejected \<Rightarrow> exec_denied x name call_id
       | O_Approved \<Rightarrow> exec_start x t name args call_id)
      (cleared x name call_id l w) (\<lambda>_. quiet l w {})" for outcome
  proof (cases outcome)
    case O_Approved
    show ?thesis
    proof (cases "xc_read_only x")
      case True
      with O_Approved show ?thesis by (simp add: act_triple_def)
    next
      case False
      have "act_triple (quiet l w {E_Asked name O_Approved, E_Requested name call_id})
          (exec_start x t name args call_id) (cleared x name call_id l w) (\<lambda>_. quiet l w {})"
        by (rule start_cleared [OF assms]) (auto simp: False cleared_events_def)
      with O_Approved False show ?thesis by simp
    qed
  next
    case O_Rejected
    then show ?thesis using denied_cleared by (auto elim!: act_triple_conseq)
  next
    case O_Expired
    then show ?thesis unfolding exec_expired_def by (simp add: finish_refused_cleared)
  next
    case O_Cancelled
    then show ?thesis by (auto intro!: act_triple_raise intro: quiet_mono)
  qed
  with True show ?thesis
    unfolding exec_approved_def by (simp add: act_triple_bind [OF ask_triple])
qed

lemma exec_before_cleared:
  "act_triple (quiet l w {}) (exec_before x name args call_id) (cleared x name call_id l w) (\<lambda>_. quiet l w {})"
proof -
  have invalid: "act_triple (quiet l w {}) (exec_invalid x t name call_id e) (cleared x name call_id l w)
      (\<lambda>_. quiet l w {})" for t e
    unfolding exec_invalid_def Let_def
    by (rule act_triple_then [where R = "quiet l w {}", OF _ refuse_cleared]) (intro keeps_rules)
  have known: "act_triple (quiet l w {}) (exec_known x t name args call_id) (cleared x name call_id l w)
      (\<lambda>_. quiet l w {})"
    if "obj_get (xc_tools x) name = Some t" "\<forall>names. xc_allowed x = Some names \<longrightarrow> name \<in> set names" for t
    unfolding exec_known_def
  proof (rule act_triple_try [OF quiet_reads])
    show "act_reads (validate_tool (xc_context x) name (dict_or_empty args))" by (rule reads_rules)
    have again: "act_keeps (quiet l w {}) (repeated_here name args)"
      unfolding repeated_here_def by (auto intro!: keeps_rules split: sum.splits)
    have go: "act_triple (quiet l w {})
        (act_then (log_event (E_Requested name call_id))
          (act_then (on_env (xc_requested x name args call_id)) (exec_approved x t name args call_id)))
        (cleared x name call_id l w) (\<lambda>_. quiet l w {})"
      by (rule act_triple_then [OF quiet_log_weak], simp)
        (rule act_triple_then [OF keeps_weaken [OF quiet_env] approved_cleared [OF that]])
    show "act_triple (quiet l w {})
        (act_bind (repeated_here name args) (\<lambda>again.
          if again then
            refuse (''error: repeated identical tool call for '' @ name @
                    ''; choose a different tool or return a final answer'')
              ((meta_default ''rejected'' call_id)
                 \<lparr>mt_code := ''repeated_identical_call'', mt_risk := risk_of t, mt_read_only := \<not> tl_risky t\<rparr>)
          else
            act_then (log_event (E_Requested name call_id))
              (act_then (on_env (xc_requested x name args call_id))
                (exec_approved x t name args call_id))))
        (cleared x name call_id l w) (\<lambda>_. quiet l w {})"
      by (rule act_triple_bind [OF again]) (auto intro: refuse_cleared go)
  qed (rule invalid)
  show ?thesis
    unfolding exec_before_def
    by (auto split: option.splits intro!: refuse_cleared known act_triple_then [where R = "quiet l w {}", OF _ refuse_cleared] keeps_rules)
qed

text \<open>Once the tool runs the log only grows by events that are no runs.\<close>

definition logged :: "exec_event list \<Rightarrow> 'h exec_state \<Rightarrow> bool" where
  "logged l s \<longleftrightarrow> (\<exists>new. ex_log s = l @ new \<and> list_all (\<lambda>e. \<not> ran e) new)"

lemma logged_keeps [keeps_rules]:
  "act_keeps (logged l) (on_env m)" "act_keeps (logged l) (on_ws n)"
  by (auto simp: act_triple_def on_env_def on_ws_def logged_def split: prod.splits sum.splits)

lemma logged_log [keeps_rules]: "\<not> ran e \<Longrightarrow> act_keeps (logged l) (log_event e)"
  by (auto simp: act_triple_def log_event_def act_modify_def logged_def)

lemma logged_violation [keeps_rules]: "act_keeps (logged l) (record_violation x code event name)"
proof -
  have "act_keeps (logged l)
      (case t of None \<Rightarrow> act_ret ()
       | Some task \<Rightarrow>
           act_then (act_modify (\<lambda>s. s\<lparr>ex_task := Some (record_sandbox_violation task)\<rparr>))
             (act_then (log_event (E_Violation code event)) (on_env (xc_violation x code event name))))" for t
    by (cases t) (auto intro!: keeps_rules simp: logged_def)
  then show ?thesis unfolding record_violation_def by (intro keeps_rules)
qed

lemma failed_logged: "act_keeps (logged l) (exec_failed x p name call_id msg)"
  unfolding exec_failed_def Let_def by (auto intro!: keeps_rules split: prod.splits)

lemma returned_logged: "act_keeps (logged l) (exec_returned x p name args call_id content)"
  unfolding exec_returned_def Let_def by (auto intro!: keeps_rules split: prod.splits)

lemma exec_run_log: "logged (ex_log s @ [E_Ran name]) (snd (exec_run x p name args call_id s))"
proof -
  let ?s = "s\<lparr>ex_log := ex_log s @ [E_Ran name]\<rparr>"
  have "act_keeps (logged (ex_log s @ [E_Ran name]))
     (act_try (on_ws (tl_run (pd_tool p) (dict_or_empty args)))
         (\<lambda>content. exec_returned x p name args call_id (clip content MAX_TOOL_OUTPUT))
         (\<lambda>e. case e of Tool_Error _ msg \<Rightarrow> exec_failed x p name call_id msg | _ \<Rightarrow> act_raise e))"
    by (intro keeps_rules returned_logged) (auto intro!: keeps_rules failed_logged split: tool_exn.splits)
  moreover have "logged (ex_log s @ [E_Ran name]) ?s" by (simp add: logged_def)
  ultimately show ?thesis
    unfolding exec_run_def act_then_def act_bind_def log_event_def act_modify_def
    by (auto dest: act_keepsD)
qed

lemma execute_cases:
  obtains (refused) "quiet (ex_log s) (ex_ws s) {} (snd (execute x name args call_id s))"
      "\<And>r. fst (execute x name args call_id s) = Inr r \<Longrightarrow> fst (exec_before x name args call_id s) = Inr (Inl r)"
  | (run) p s1 where "exec_before x name args call_id s = (Inr (Inr p), s1)"
      "cleared x name call_id (ex_log s) (ex_ws s) (Inr p) s1"
      "execute x name args call_id s = exec_run x p name args call_id s1"
proof -
  have start: "quiet (ex_log s) (ex_ws s) {} s" by (simp add: quiet_def)
  obtain r s1 where b: "exec_before x name args call_id s = (r, s1)" by fastforce
  show thesis
  proof (cases r)
    case (Inl e)
    with act_triple_raiseD [OF exec_before_cleared start] b refused show thesis
      by (auto simp: execute_def act_bind_def)
  next
    case (Inr q)
    with act_triple_retD [OF exec_before_cleared start] b
    have c: "cleared x name call_id (ex_log s) (ex_ws s) q s1" by metis
    show thesis
    proof (cases q)
      case (Inl res)
      with c b Inr refused show thesis by (auto simp: execute_def act_bind_def act_ret_def cleared_def)
    next
      case (Inr p)
      with c b \<open>r = Inr q\<close> run show thesis by (auto simp: execute_def act_bind_def)
    qed
  qed
qed

lemma split_at_ran:
  assumes "new @ E_Ran m # rest = a @ E_Ran n # b" and "list_all (\<lambda>e. \<not> ran e) new" and "list_all (\<lambda>e. \<not> ran e) rest"
  shows "a = new \<and> n = m"
proof -
  have "filter ran (new @ E_Ran m # rest) = [E_Ran m]" using assms(2,3) by (auto simp: list_all_iff filter_empty_conv)
  then have "filter ran a = [] \<and> n = m" unfolding assms(1) by (auto simp: append_eq_Cons_conv)
  moreover have "takeWhile (\<lambda>e. \<not> ran e) (new @ E_Ran m # rest) = new"
    using assms(2) by (induction new) auto
  moreover have "takeWhile (\<lambda>e. \<not> ran e) (a @ E_Ran n # b) = a" if "filter ran a = []"
    using that by (induction a) (auto split: if_splits)
  ultimately show ?thesis using assms(1) by metis
qed

text \<open>
  C38. Whenever a call of \<open>ToolExecutor.execute\<close> runs a tool, it is the tool that was called, it is
  registered and allowed, the request was published and the start announced before, and a risky tool
  was approved before by a strategy that was asked because the agent is not read-only.  The theorem
  is about this one way of running tools: the review of a run calls its tools past the executor and
  without approval, see review_shell_unasked.
\<close>

theorem risky_runs_only_approved:
  assumes "execute x name args call_id s = (r, s')" and "ex_log s' = ex_log s @ a @ E_Ran n # b"
  shows "n = name \<and> (\<exists>t. obj_get (xc_tools x) name = Some t \<and>
    (\<forall>names. xc_allowed x = Some names \<longrightarrow> name \<in> set names) \<and>
    E_Requested name call_id \<in> set a \<and> E_Before name \<in> set a \<and>
    (tl_risky t \<longrightarrow> E_Asked name O_Approved \<in> set a \<and> \<not> xc_read_only x))"
proof (cases rule: execute_cases [of s x name args call_id])
  case refused
  with assms show ?thesis by (auto simp: quiet_def)
next
  case (run p s1)
  obtain new where new: "ex_log s1 = ex_log s @ new" "list_all (\<lambda>e. \<not> ran e) new"
    "cleared_events x (pd_tool p) name call_id \<subseteq> set new"
    using run(2) unfolding cleared_def quiet_def by auto
  obtain rest where rest: "ex_log s' = ex_log s1 @ E_Ran name # rest" "list_all (\<lambda>e. \<not> ran e) rest"
    using exec_run_log [of s1 name x p args call_id] run(3) [symmetric] assms(1) by (auto simp: logged_def)
  have "new @ E_Ran name # rest = a @ E_Ran n # b" using assms(2) new(1) rest(1) by simp
  from split_at_ran [OF this new(2) rest(2)] have "a = new" "n = name" by auto
  with run(2) new(3) show ?thesis
    by (cases "tl_risky (pd_tool p)") (auto simp: cleared_def cleared_events_def)
qed

section \<open>A refused call\<close>

lemma meta_default_status [simp]: "mt_status (meta_default status call_id) = status"
  by (simp add: meta_default_def)

lemma status_of_result: "tool_status (result_of content m) = mt_status m"
  by (simp add: tool_status_def result_of_def metadata_def get_str_def get_default_def)

lemma final_status_not_rejected: "fst (final_status name content changed) \<noteq> ''rejected''"
  by (simp add: final_status_def)

abbreviation not_rejected :: "tool_result \<Rightarrow> bool" where
  "not_rejected r \<equiv> tool_status r \<noteq> ''rejected''"

lemma triple_true: "act_triple P m (\<lambda>_ _. True) (\<lambda>_ _. True)"
  by (auto simp: act_triple_def split: prod.splits sum.splits)

lemma ret_last: "act_triple (\<lambda>_. True) (act_then m (act_ret r)) (\<lambda>r _. not_rejected r) (\<lambda>_ _. True)"
  if "not_rejected r"
  using that by (auto simp: act_triple_def act_defs split: prod.splits sum.splits)

lemma last_then: "act_triple (\<lambda>_. True) n Q (\<lambda>_ _. True) \<Longrightarrow> act_triple (\<lambda>_. True) (act_then m n) Q (\<lambda>_ _. True)"
  by (auto simp: act_triple_def act_defs split: prod.splits sum.splits)

lemma last_bind: "(\<And>a. act_triple (\<lambda>_. True) (f a) Q (\<lambda>_ _. True)) \<Longrightarrow> act_triple (\<lambda>_. True) (act_bind m f) Q (\<lambda>_ _. True)"
  by (rule act_triple_bind [where R = "\<lambda>_ _. True"]) (simp_all add: triple_true)

lemma failed_status:
  "act_triple (\<lambda>_. True) (exec_failed x p name call_id msg) (\<lambda>r _. not_rejected r) (\<lambda>_ _. True)"
  unfolding exec_failed_def Let_def
  by (auto intro!: last_bind last_then ret_last simp: status_of_result split: prod.splits)

lemma returned_status:
  "act_triple (\<lambda>_. True) (exec_returned x p name args call_id content) (\<lambda>r _. not_rejected r) (\<lambda>_ _. True)"
  unfolding exec_returned_def Let_def
  using final_status_not_rejected [of name content]
  by (auto intro!: last_bind last_then ret_last simp: status_of_result split: prod.splits) (metis fst_conv)+

lemma exec_run_status:
  assumes "exec_run x p name args call_id s = (Inr r, s')"
  shows "not_rejected r"
proof -
  have "act_triple (\<lambda>_. True) (exec_run x p name args call_id) (\<lambda>r _. not_rejected r) (\<lambda>_ _. True)"
    unfolding exec_run_def
    by (intro last_then act_triple_try [OF triple_true returned_status])
      (auto intro!: failed_status act_triple_raise split: tool_exn.splits)
  from act_triple_retD [OF this _ assms] show ?thesis by simp
qed

text \<open>
  A call that ends as rejected ran no tool and left the workspace as it was.
\<close>

theorem refused_call_changes_nothing:
  assumes "execute x name args call_id s = (Inr r, s')" and "tool_status r = ''rejected''"
  shows "ex_ws s' = ex_ws s \<and> (\<forall>n. E_Ran n \<notin> set (drop (length (ex_log s)) (ex_log s')))"
proof (cases rule: execute_cases [of s x name args call_id])
  case refused
  with assms show ?thesis by (fastforce simp: quiet_def list_all_iff)
next
  case (run p s1)
  with assms exec_run_status [of x p name args call_id s1 r s'] show ?thesis by simp
qed

section \<open>The exit code is read back\<close>

lemma digit_char: "n < 10 \<Longrightarrow> is_digit (''0123456789'' ! n) \<and> of_char (''0123456789'' ! n) - 48 = n"
proof -
  assume "n < 10"
  then have "n \<in> {0, 1, 2, 3, 4, 5, 6, 7, 8, 9}" by auto
  then show ?thesis by (auto simp: is_digit_def)
qed

lemma nat_str_digits: "list_all is_digit (nat_str n) \<and> digits_value (nat_str n) = n"
proof (induction n rule: nat_str.induct)
  case (1 n)
  show ?case
  proof (cases "n < 10")
    case True
    with digit_char [OF True] show ?thesis by (subst (1 2) nat_str.simps) (simp add: digits_value_def)
  next
    case False
    have "n mod 10 < 10" by simp
    from digit_char [OF this] 1 [OF False] False show ?thesis
      by (subst (1 2) nat_str.simps) (simp add: digits_value_def)
  qed
qed

lemma takeWhile_digits:
  assumes "list_all is_digit ds" and "z = [] \<or> \<not> is_digit (hd z)"
  shows "takeWhile is_digit (ds @ z) = ds"
  using assms by (cases z) (auto simp: list_all_iff takeWhile_append2)

lemma digit_not_space: "is_digit ch \<Longrightarrow> \<not> is_space ch"
  by (auto simp: is_digit_def is_space_def Let_def)

lemma digit_not_minus: "is_digit ch \<Longrightarrow> ch \<noteq> CHR ''-''"
  by (auto simp: is_digit_def Let_def)

lemma nat_str_hd: "\<exists>d ds. nat_str n = d # ds \<and> is_digit d"
  using nat_str_digits [of n] nat_str_nonempty [of n] by (cases "nat_str n") auto

lemma match_int_str:
  assumes "z = [] \<or> \<not> is_digit (hd z)"
  shows "match_int ('' '' @ int_str i @ z) = Some i"
proof -
  obtain d ds where d: "nat_str (nat (abs i)) = d # ds" "is_digit d" using nat_str_hd by blast
  have n: "takeWhile is_digit (nat_str (nat (abs i)) @ z) = nat_str (nat (abs i))"
    by (rule takeWhile_digits) (use nat_str_digits assms in auto)
  have v: "digits_value (nat_str (nat (abs i))) = nat (abs i)" using nat_str_digits by blast
  show ?thesis
  proof (cases "i < 0")
    case True
    then have "int_str i = ''-'' @ nat_str (nat (abs i))" by (simp add: int_str_def)
    with True n v d show ?thesis
      by (simp add: match_int_def is_space_def starts_with_def Let_def)
  next
    case False
    then have "int_str i = nat_str (nat (abs i))" by (simp add: int_str_def)
    with False n v d digit_not_space [OF d(2)] digit_not_minus [OF d(2)] show ?thesis
      by (simp add: match_int_def starts_with_def Let_def is_space_def [of "CHR '' ''"])
  qed
qed

lemma find_exit_code_here:
  assumes "z = [] \<or> \<not> is_digit (hd z)"
  shows "find_exit_code (''exit_code: '' @ int_str i @ z) = Some i"
  using match_int_str [OF assms, of i] by (simp add: starts_with_def)

lemma int_str_plain: "ch \<in> set (int_str i) \<Longrightarrow> is_digit ch \<or> ch = CHR ''-''"
  using nat_str_digits [of "nat i"] nat_str_digits [of "nat (- i)"]
  by (auto simp: int_str_def list_all_iff split: if_splits)

lemma nl_eq: "nl = [CHR 0x0A]"
  unfolding nl_def by code_simp

lemma takeWhile_replicate: "P x \<Longrightarrow> takeWhile P (replicate n x @ ys) = replicate n x @ takeWhile P ys"
  by (induction n) auto

lemma dropWhile_replicate: "P x \<Longrightarrow> dropWhile P (replicate n x @ ys) = dropWhile P ys"
  by (induction n) auto

lemma blank_space: "is_blank (CHR '' '')" "is_space (CHR '' '')"
  by (simp_all add: is_blank_def is_space_def)

lemma split_nl_line:
  "CHR 0x0A \<notin> set l \<Longrightarrow> split_nl (l @ CHR 0x0A # s) = l # split_nl s"
  by (induction l) auto

lemma split_nl_nonempty: "split_nl s \<noteq> []"
  by (induction s) (auto split: list.splits)

lemma common_prefix_prefix: "\<exists>t. as = common_prefix as bs @ t"
  by (induction as bs rule: common_prefix.induct) auto

lemma margin_prefix: "\<exists>t. m = foldl common_prefix m ms @ t"
proof (induction ms arbitrary: m)
  case (Cons b ms)
  obtain t where "m = common_prefix m b @ t" using common_prefix_prefix by blast
  moreover obtain u where "common_prefix m b = foldl common_prefix (common_prefix m b) ms @ u" using Cons by blast
  ultimately have "m = foldl common_prefix (common_prefix m b) ms @ u @ t" by (metis append_assoc)
  then show ?case by auto
qed simp

text \<open>Whatever the other lines are, the first line keeps its text, and at most loses its indentation.\<close>

lemma dedent_first_line:
  assumes "CHR 0x0A \<notin> set l" and "l \<noteq> []" and "\<not> is_space (hd l)"
  shows "\<exists>k rest. py_dedent (indent8 @ l @ nl @ s) = replicate k (CHR '' '') @ l @ nl @ rest"
proof -
  have ind: "indent8 = replicate 8 (CHR '' '')" by (simp add: indent8_def numeral_eq_Suc)
  have blank: "\<not> is_blank (hd l)" using assms(3) by (auto simp: is_blank_def is_space_def)
  have nonblank: "\<not> blank_line (indent8 @ l)"
    using assms(2) blank by (cases l) (auto simp: blank_line_def)
  let ?first = "indent8 @ l"
  have sp: "split_nl (indent8 @ l @ nl @ s) = ?first # split_nl s"
    using split_nl_line [of ?first s] assms(1) by (simp add: ind nl_eq)
  let ?f = "\<lambda>l. if blank_line l then [] else l"
  define ls where "ls = map ?f (split_nl s)"
  have lines: "map ?f (?first # split_nl s) = ?first # ls" using nonblank by (simp add: ls_def)
  have tw: "takeWhile is_blank ?first = indent8"
    unfolding ind using assms(2) blank by (cases l) (simp_all add: takeWhile_replicate blank_space(1))
  obtain u where u: "indent8 = margin (?first # ls) @ u"
    using nonblank tw margin_prefix by (auto simp: margin_def)
  define m where "m = margin (?first # ls)"
  obtain k where k: "u = replicate k (CHR '' '')" "m = replicate (8 - k) (CHR '' '')" "k \<le> 8"
  proof -
    have "length m + length u = 8" using u ind m_def by (metis length_append length_replicate)
    moreover have "\<forall>t \<in> set m. t = CHR '' ''" "\<forall>t \<in> set u. t = CHR '' ''"
      using u unfolding ind m_def by (metis Un_iff in_set_replicate set_append)+
    then have "m = replicate (length m) (CHR '' '')" "u = replicate (length u) (CHR '' '')"
      by (metis replicate_length_same)+
    moreover have "8 - length u = length m" "length u \<le> 8" using calculation(1) by linarith+
    ultimately show ?thesis by (metis that)
  qed
  have "ls \<noteq> []" using split_nl_nonempty by (simp add: ls_def)
  define rest where "rest = py_join nl (map (\<lambda>l. if starts_with m l then drop (length m) l else l) ls)"
  have "py_dedent (indent8 @ l @ nl @ s) =
      py_join nl (map (\<lambda>l. if starts_with m l then drop (length m) l else l) (?first # ls))"
    by (simp only: py_dedent_def sp lines Let_def m_def)
  also have "\<dots> = (if starts_with m ?first then drop (length m) ?first else ?first) @ nl @ rest"
    using \<open>ls \<noteq> []\<close> by (simp add: py_join_Cons rest_def)
  also have "\<dots> = replicate k (CHR '' '') @ l @ nl @ rest"
  proof -
    have first: "?first = m @ replicate k (CHR '' '') @ l" using u k(1) by (simp add: m_def)
    show ?thesis unfolding first by simp
  qed
  finally show ?thesis by blast
qed

lemma strip_keeps_word:
  assumes "l \<noteq> []" and "\<not> is_space (hd l)" and "\<not> is_space (last l)"
  shows "\<exists>z. py_strip (replicate k (CHR '' '') @ l @ nl @ rest) = l @ z \<and> (z = [] \<or> hd z = CHR 0x0A)"
proof -
  have "dropWhile is_space (replicate k (CHR '' '') @ l @ nl @ rest) = l @ nl @ rest"
    using assms(1,2) by (cases l) (simp_all add: dropWhile_replicate blank_space(2))
  then have "py_strip (replicate k (CHR '' '') @ l @ nl @ rest) = rev (dropWhile is_space (rev (l @ nl @ rest)))"
    by (simp add: py_strip_def)
  moreover have "\<exists>z. rev (dropWhile is_space (rev (l @ nl @ rest))) = l @ z \<and> (z = [] \<or> hd z = CHR 0x0A)"
  proof (cases "\<forall>ch \<in> set rest. is_space ch")
    case True
    then have "\<And>ch. ch \<in> set (rev rest @ rev nl) \<Longrightarrow> is_space ch" by (auto simp: nl_eq is_space_def)
    then have "dropWhile is_space ((rev rest @ rev nl) @ rev l) = dropWhile is_space (rev l)"
      by (intro dropWhile_append2) auto
    also have "\<dots> = rev l"
      using assms(1,3) by (cases "rev l") (auto simp: hd_rev [symmetric] rev_is_Nil_conv last_rev)
    finally show ?thesis by (intro exI [of _ "[]"]) simp
  next
    case False
    then obtain ch where "ch \<in> set (rev rest)" "\<not> is_space ch" by auto
    then have "dropWhile is_space (rev rest @ rev nl @ rev l) = dropWhile is_space (rev rest) @ rev nl @ rev l"
      by (rule dropWhile_append1)
    then show ?thesis
      by (intro exI [of _ "nl @ rev (dropWhile is_space (rev rest))"]) (simp add: nl_eq)
  qed
  ultimately show ?thesis by simp
qed

definition shell_suffix :: "int \<Rightarrow> shell_result \<Rightarrow> string" where
  "shell_suffix timeout r =
     (if sh_timed_out r then nl @ ''[tool timed out after '' @ int_str timeout @ ''s]'' else []) @
     (if sh_truncated r then nl @ ''[output truncated]'' else [])"

lemma shell_text_start:
  "\<exists>z. shell_text timeout r = ''exit_code: '' @ int_str (sh_returncode r) @ z \<and> (z = [] \<or> hd z = CHR 0x0A)"
proof -
  let ?l = "''exit_code: '' @ int_str (sh_returncode r)"
  define tail where "tail = indent8 @ ''stdout:'' @ nl @ indent8 @ or_empty (sh_stdout r) @ nl @
    indent8 @ ''stderr:'' @ nl @ indent8 @ or_empty (sh_stderr r) @ nl @ indent8"
  have no_nl: "CHR 0x0A \<notin> set ?l"
    using int_str_plain [of "CHR 0x0A" "sh_returncode r"] by (auto simp: is_digit_def)
  have ne: "int_str (sh_returncode r) \<noteq> []" by (simp add: int_str_def)
  then have "is_digit (last (int_str (sh_returncode r)))"
    using nat_str_digits [of "nat (sh_returncode r)"] nat_str_digits [of "nat (- sh_returncode r)"]
    by (auto simp: int_str_def list_all_iff)
  then have last: "\<not> is_space (last ?l)" using ne digit_not_space by simp
  from dedent_first_line [OF no_nl, of tail] obtain k rest where
    "py_dedent (indent8 @ ?l @ nl @ tail) = replicate k (CHR '' '') @ ?l @ nl @ rest"
    by (auto simp: is_space_def)
  moreover obtain z where z: "py_strip (replicate k (CHR '' '') @ ?l @ nl @ rest) = ?l @ z" "z = [] \<or> hd z = CHR 0x0A"
    using strip_keeps_word [of ?l k rest] last by (auto simp: is_space_def)
  moreover have "indent8 @ ?l @ nl @ tail = indent8 @ ''exit_code: '' @ int_str (sh_returncode r) @ nl @ tail" by simp
  ultimately have body: "shell_text timeout r = ?l @ z @ shell_suffix timeout r"
    unfolding shell_text_def tail_def shell_suffix_def by simp
  moreover have "shell_suffix timeout r = [] \<or> hd (shell_suffix timeout r) = CHR 0x0A"
    by (simp add: shell_suffix_def nl_eq)
  then have "z @ shell_suffix timeout r = [] \<or> hd (z @ shell_suffix timeout r) = CHR 0x0A"
    using z(2) by (cases z) auto
  ultimately show ?thesis by (metis append_assoc)
qed

lemma clip_keeps_start:
  assumes "length p < limit" and "z = [] \<or> hd z = CHR 0x0A"
  shows "\<exists>z'. clip (p @ z) limit = p @ z' \<and> (z' = [] \<or> hd z' = CHR 0x0A)"
proof (cases "length (p @ z) \<le> limit")
  case True
  with assms(2) show ?thesis by (intro exI [of _ z]) simp
next
  case False
  with assms obtain zs where "z = CHR 0x0A # zs" by (cases z) auto
  with assms False show ?thesis
    by (intro exI [of _ "take (limit - length p) z @ clip_note (length (p @ z) - limit)"])
      (auto simp: clip_def take_Cons' )
qed

text \<open>
  Printing and parsing of the exit code of a shell command are inverse: whatever the command
  prints and however the result is cut to the limit of a tool result, the executor reads back the
  code that the command returned.
\<close>

theorem exit_code_read_back:
  assumes "length (int_str (sh_returncode r)) \<le> 20"
  shows "exit_code_of (clip (shell_text timeout r) MAX_TOOL_OUTPUT) = sh_returncode r"
proof -
  obtain z where z: "shell_text timeout r = (''exit_code: '' @ int_str (sh_returncode r)) @ z" "z = [] \<or> hd z = CHR 0x0A"
    using shell_text_start [of timeout r] by auto
  have "length (''exit_code: '' @ int_str (sh_returncode r)) < MAX_TOOL_OUTPUT"
    using assms by (simp add: MAX_TOOL_OUTPUT_def)
  from clip_keeps_start [OF this z(2)] obtain z' where
    "clip (shell_text timeout r) MAX_TOOL_OUTPUT = ''exit_code: '' @ int_str (sh_returncode r) @ z'"
    "z' = [] \<or> hd z' = CHR 0x0A"
    unfolding z(1) by auto
  moreover have "\<not> is_digit (CHR 0x0A)" by (simp add: is_digit_def)
  ultimately have "find_exit_code (clip (shell_text timeout r) MAX_TOOL_OUTPUT) = Some (sh_returncode r)"
    using find_exit_code_here [of z' "sh_returncode r"] by metis
  then show ?thesis by (simp only: exit_code_of_def option.case)
qed

definition sample_shell :: "int \<Rightarrow> string \<Rightarrow> shell_result" where
  "sample_shell code out = \<lparr>sh_returncode = code, sh_stdout = out, sh_stderr = [], sh_cancelled = False,
     sh_timed_out = False, sh_truncated = False, sh_cleaned = True\<rparr>"

theorem exit_code_read_back_witness:
  "exit_code_of (clip (shell_text 20 (sample_shell (-9) ''exit_code: 0'')) MAX_TOOL_OUTPUT) = -9"
  using exit_code_read_back [of "sample_shell (-9) ''exit_code: 0''" 20]
  by (simp add: sample_shell_def int_str_def nat_str.simps)

text \<open>The mark of a timeout is searched in the whole text, so the output of the command can contain it.\<close>

text \<open>
  A command that ends with exit code 0 but prints the text of the timeout mark is recorded as an
  error with code tool_timeout.
\<close>

theorem timeout_mark_spoofed:
  "final_status ''run_shell'' (''exit_code: 0'' @ nl @ ''stdout:'' @ nl @ ''[tool timed out'') False =
     (''error'', ''tool_timeout'') \<and>
   exit_code_of (''exit_code: 0'' @ nl @ ''stdout:'' @ nl @ ''[tool timed out'') = 0"
proof -
  let ?t = "''exit_code: 0'' @ nl @ ''stdout:'' @ nl @ ''[tool timed out''"
  have "contains timeout_mark ?t"
    unfolding contains_iff timeout_mark_def
    by (intro exI [of _ "''exit_code: 0'' @ nl @ ''stdout:'' @ nl"] exI [of _ "[]"]) simp
  moreover have "find_exit_code (''exit_code: '' @ int_str 0 @ nl @ ''stdout:'' @ nl @ ''[tool timed out'') = Some 0"
    by (rule find_exit_code_here) (simp add: nl_eq is_digit_def)
  ultimately show ?thesis by (simp add: final_status_def exit_code_of_def int_str_def nat_str.simps)
qed

section \<open>An example\<close>

definition sample_exec :: "unit exec_config" where
  "sample_exec = \<lparr>xc_context = sample_context, xc_tools = build_tools sample_context, xc_allowed = None,
     xc_read_only = False, xc_digest = (\<lambda>t. t), xc_fingerprint = (\<lambda>_. []), xc_example = (\<lambda>_. []),
     xc_decide = (\<lambda>_. act_ret O_Approved), xc_requested = (\<lambda>_ _ _. act_ret ()), xc_check_cancelled = act_ret (),
     xc_before = (\<lambda>_ _ _. act_ret ()), xc_after = (\<lambda>_. act_ret ()), xc_violation = (\<lambda>_ _ _. act_ret ()),
     xc_memory = (\<lambda>_ _ _. act_ret ()), xc_note = (\<lambda>_ _. act_ret ())\<rparr>"

definition sample_state :: "unit exec_state" where
  "sample_state = \<lparr>ex_ws = sample_ws, ex_task = None, ex_history = [], ex_log = [], ex_env = ()\<rparr>"

lemma sample_validates: "validate_tool sample_context ''write_file'' sample_write sample_ws = (Inr (), sample_ws)"
  by (simp add: validate_tool_def validate_write_def act_defs arg_eqs sample_eval sample_write_def)

lemma sample_tools:
  "obj_get (build_tools sample_context) ''write_file'' = Some \<lparr>tl_risky = True, tl_run = tool_write_file sample_context\<rparr>"
  "obj_get (build_tools sample_context) ''nope'' = None"
  by (simp_all add: build_tools_def TOOL_RUNNERS_def BASE_TOOL_SPECS_def)

lemma sample_before:
  "\<exists>p s1. exec_before sample_exec ''write_file'' (JObj sample_write) ''c1'' sample_state = (Inr (Inr p), s1)"
  by (simp add: exec_before_def exec_known_def exec_approved_def exec_start_def ask_approval_def repeated_here_def
      sample_exec_def sample_state_def sample_tools act_defs on_ws_def on_env_def log_event_def dict_or_empty_def
      sample_validates repeated_tool_call_def READ_ONLY_TOOL_NAMES_def)

theorem risky_runs_only_approved_witness:
  "\<exists>a b. ex_log (snd (execute sample_exec ''write_file'' (JObj sample_write) ''c1'' sample_state)) =
      a @ E_Ran ''write_file'' # b \<and> E_Asked ''write_file'' O_Approved \<in> set a"
proof -
  let ?x = "execute sample_exec ''write_file'' (JObj sample_write) ''c1'' sample_state"
  obtain p s1 where b: "exec_before sample_exec ''write_file'' (JObj sample_write) ''c1'' sample_state = (Inr (Inr p), s1)"
    using sample_before by blast
  then have run: "?x = exec_run sample_exec p ''write_file'' (JObj sample_write) ''c1'' s1"
    by (simp add: execute_def act_bind_def)
  obtain rest where "ex_log (snd ?x) = ex_log s1 @ E_Ran ''write_file'' # rest"
    using exec_run_log [of s1 "''write_file''" sample_exec p] by (auto simp: run logged_def)
  then have log: "ex_log (snd ?x) = ex_log sample_state @ ex_log s1 @ E_Ran ''write_file'' # rest"
    by (simp add: sample_state_def)
  from risky_runs_only_approved [OF prod.collapse [symmetric] log]
  have "E_Asked ''write_file'' O_Approved \<in> set (ex_log s1)"
    by (auto simp: sample_exec_def sample_tools)
  with log show ?thesis by (auto simp: sample_state_def)
qed

theorem refused_call_changes_nothing_witness:
  "ex_ws (snd (execute sample_exec ''nope'' JNull ''c1'' sample_state)) = sample_ws"
proof -
  have e: "execute sample_exec ''nope'' JNull ''c1'' sample_state =
      (Inr (result_of (''error: unknown tool '' @ quoted ''nope'')
        (high_risk ((meta_default ''rejected'' ''c1'')\<lparr>mt_code := ''unknown_tool''\<rparr>))), sample_state)"
    by (simp add: execute_def exec_before_def sample_exec_def sample_tools refuse_def act_defs)
  from refused_call_changes_nothing [OF e] show ?thesis
    unfolding e by (simp add: status_of_result high_risk_def sample_state_def)
qed

end
