(* ===== verification/Model_Reply.thy ===== *)
theory Model_Reply
  imports Tool_Executor
begin

text \<open>
  From the output of the model to a decision (\<open>Pico.parse\<close> and its helpers in
  \<open>pico/runtime.py\<close>): the native form of a tool call, a JSON object, the \<open><tool>\<close> protocol with a
  JSON body or with attributes and child tags, \<open><talk>\<close> and \<open><final>\<close>.

  An output is a JSON value: an object for a native call, otherwise its text.  \<open>json.loads\<close> is an
  argument, \<open>None\<close> when it raises.  Characters are those of the development (codes below 256), so
  the alternatives of a pattern that are written in Chinese never match and are left out.
\<close>

section \<open>Searching in a text\<close>

text \<open>\<open>text.find(p)\<close>.\<close>

fun py_find :: "string \<Rightarrow> string \<Rightarrow> nat option" where
  "py_find p [] = (if p = [] then Some 0 else None)"
| "py_find p (c # cs) = (if starts_with p (c # cs) then Some 0 else map_option Suc (py_find p cs))"

text \<open>\<open>p in text and (q not in text or text.find(p) < text.find(q))\<close>.\<close>

definition comes_first :: "string \<Rightarrow> string \<Rightarrow> string \<Rightarrow> bool" where
  "comes_first p q text \<longleftrightarrow>
     (case py_find p text of
        None \<Rightarrow> False
      | Some i \<Rightarrow> (case py_find q text of None \<Rightarrow> True | Some j \<Rightarrow> i < j))"

definition open_tag :: "string \<Rightarrow> string" where
  "open_tag tag = ''<'' @ tag @ ''>''"

definition close_tag :: "string \<Rightarrow> string" where
  "close_tag tag = ''</'' @ tag @ ''>''"

text \<open>\<open>extract_raw\<close>: the text between the first opening tag and the next closing tag.\<close>

definition extract_raw :: "string \<Rightarrow> string \<Rightarrow> string" where
  "extract_raw text tag =
     (case py_find (open_tag tag) text of
        None \<Rightarrow> text
      | Some i \<Rightarrow>
          let rest = drop (i + length (open_tag tag)) text
          in (case py_find (close_tag tag) rest of None \<Rightarrow> rest | Some j \<Rightarrow> take j rest))"

text \<open>\<open>extract\<close> strips what it found, and returns a text without the tag as it is.\<close>

definition py_extract :: "string \<Rightarrow> string \<Rightarrow> string" where
  "py_extract text tag =
     (if py_find (open_tag tag) text = None then text else py_strip (extract_raw text tag))"

section \<open>Decisions\<close>

datatype model_reply =
    Reply_Tool "(string \<times> json) list"
  | Reply_Batch "json list"
  | Reply_Talk string
  | Reply_Final string
  | Reply_Retry string

definition retry_notice :: "string \<Rightarrow> string" where
  "retry_notice problem =
     ''Runtime notice: '' @ (if problem = [] then ''model returned malformed tool output'' else problem) @
     ''. Reply with one non-empty <talk>, a valid <tool> call, or a non-empty <final> answer. '' @
     ''For multi-line files, prefer <tool name='' @ [CHR 0x22] @ ''write_file'' @ [CHR 0x22] @ '' path='' @
     [CHR 0x22] @ ''file.py'' @ [CHR 0x22] @ ''><content>...</content></tool>.''"

definition retry :: "string \<Rightarrow> model_reply" where
  "retry problem = Reply_Retry (retry_notice problem)"

definition fence :: string where
  "fence = replicate 3 (CHR 0x60)"

text \<open>The text inside a Markdown fence.\<close>

definition unfence :: "string \<Rightarrow> string" where
  "unfence text =
     (if starts_with fence text \<and> ends_with fence text \<and> 3 \<le> length (splitlines text)
      then py_strip (py_join nl (butlast (tl (splitlines text)))) else text)"

definition is_obj :: "json \<Rightarrow> bool" where
  "is_obj v \<longleftrightarrow> (case v of JObj _ \<Rightarrow> True | _ \<Rightarrow> False)"

text \<open>\<open>value.get(k)\<close>, with \<open>None\<close> for a missing key.\<close>

definition get_none :: "(string \<times> json) list \<Rightarrow> string \<Rightarrow> json" where
  "get_none d k = get_default d k JNull"

text \<open>\<open>str(value.get("name") or value.get("tool") or "").strip()\<close>.\<close>

definition name_of_call :: "(string \<times> json) list \<Rightarrow> string" where
  "name_of_call d =
     py_strip (py_str (or_default (get_none d ''name'') (or_default (get_none d ''tool'') (JStr []))))"

text \<open>\<open>args\<close> or \<open>arguments\<close>, a text being read as JSON; \<open>None\<close> when it is not an object.\<close>

definition args_of_call :: "(string \<Rightarrow> json option) \<Rightarrow> (string \<times> json) list \<Rightarrow> (string \<times> json) list option" where
  "args_of_call loads d =
     (let args = get_default d ''args'' (get_default d ''arguments'' (JObj []));
          read = (case args of JStr s \<Rightarrow> loads s | _ \<Rightarrow> Some args)
      in case read of
           None \<Rightarrow> None
         | Some JNull \<Rightarrow> Some []
         | Some (JObj kvs) \<Rightarrow> Some kvs
         | Some _ \<Rightarrow> None)"

text \<open>The wrappers of proxies around a call; only the first call of a list is taken.\<close>

definition unwrap_call :: "(string \<times> json) list \<Rightarrow> json" where
  "unwrap_call d =
     (case get_none d ''tool_call'' of
        JObj c \<Rightarrow> JObj c
      | _ \<Rightarrow>
          (case get_none d ''tool_calls'' of
             JList (JObj c # _) \<Rightarrow> get_default c ''function'' (JObj c)
           | JList (_ # _) \<Rightarrow> JObj d
           | _ \<Rightarrow> (case get_none d ''function'' of JObj c \<Rightarrow> JObj c | _ \<Rightarrow> JObj d)))"

definition tool_payload :: "string \<Rightarrow> (string \<times> json) list \<Rightarrow> (string \<times> json) list" where
  "tool_payload name args = [(''name'', JStr name), (''args'', JObj args)]"

definition parse_json_tool ::
  "(string \<Rightarrow> json option) \<Rightarrow> string \<Rightarrow> exn + (string \<times> json) list option" where
  "parse_json_tool loads raw =
     (let text = unfence (py_strip raw) in
      if \<not> starts_with ''{'' text \<or> \<not> ends_with ''}'' text then Inr None
      else
        (case loads text of
           Some (JObj d) \<Rightarrow>
             (case unwrap_call d of
                JObj c \<Rightarrow>
                  Inr (if name_of_call c = [] then None
                       else map_option (tool_payload (name_of_call c)) (args_of_call loads c))
              | _ \<Rightarrow> Inl Attribute_Error)
         | _ \<Rightarrow> Inr None))"

section \<open>The tag protocol\<close>

text \<open>
  \<open>re.search("<tool([^>]*)>(.*?)</tool>")\<close> with dots matching everything: the first \<open><tool\<close> decides,
  for what is missing after it is missing after every later one too.
\<close>

definition match_tool :: "string \<Rightarrow> (string \<times> string) option" where
  "match_tool raw =
     (case py_find ''<tool'' raw of
        None \<Rightarrow> None
      | Some i \<Rightarrow>
          let r = drop (i + 5) raw; attrs = takeWhile (\<lambda>c. c \<noteq> CHR ''>'') r;
              rest = dropWhile (\<lambda>c. c \<noteq> CHR ''>'') r
          in if rest = [] then None
             else map_option (\<lambda>j. (attrs, take j (tl rest))) (py_find ''</tool>'' (tl rest)))"

definition ident_start :: "char \<Rightarrow> bool" where
  "ident_start c \<longleftrightarrow>
     (let n = of_char c :: nat in (65 \<le> n \<and> n \<le> 90) \<or> (97 \<le> n \<and> n \<le> 122) \<or> n = 95)"

definition ident_char :: "char \<Rightarrow> bool" where
  "ident_char c \<longleftrightarrow> ident_start c \<or> is_digit c"

text \<open>One match of the attribute pattern at the start of a text: name, value and the rest.\<close>

definition attr_here :: "string \<Rightarrow> ((string \<times> string) \<times> string) option" where
  "attr_here s =
     (let name = takeWhile ident_char s; r = dropWhile is_space (dropWhile ident_char s);
          v = dropWhile is_space (tl r); q = hd v; rest = dropWhile (\<lambda>c. c \<noteq> q) (tl v)
      in if s = [] \<or> \<not> ident_start (hd s) then None
         else if r = [] \<or> hd r \<noteq> CHR ''='' then None
         else if v = [] \<or> q \<notin> {CHR 0x22, CHR 0x27} \<or> rest = [] then None
         else Some ((name, takeWhile (\<lambda>c. c \<noteq> q) (tl v)), tl rest))"

lemma attr_here_shorter: "attr_here s = Some (a, r) \<Longrightarrow> length r < length s"
proof -
  assume a: "attr_here s = Some (a, r)"
  let ?r = "dropWhile is_space (dropWhile ident_char s)"
  let ?v = "dropWhile is_space (tl ?r)"
  let ?rest = "dropWhile (\<lambda>c. c \<noteq> hd ?v) (tl ?v)"
  from a have r: "r = tl ?rest" and ne: "?rest \<noteq> []"
    by (simp_all add: attr_here_def Let_def split: if_splits)
  have "length ?rest \<le> length s"
    using length_dropWhile_le [of "\<lambda>c. c \<noteq> hd ?v" "tl ?v"] length_dropWhile_le [of is_space "tl ?r"]
      length_dropWhile_le [of is_space "dropWhile ident_char s"] length_dropWhile_le [of ident_char s]
    by simp
  moreover have "length (tl ?rest) < length ?rest" using ne by simp
  ultimately show ?thesis unfolding r by (rule less_le_trans [rotated])
qed

function find_attrs :: "string \<Rightarrow> (string \<times> string) list" where
  "find_attrs [] = []"
| "find_attrs (c # s) =
     (case attr_here (c # s) of
        None \<Rightarrow> find_attrs s
      | Some (a, rest) \<Rightarrow> a # find_attrs rest)"
  by pat_completeness auto
termination
  by (relation "measure length") (auto dest: attr_here_shorter)

definition parse_attrs :: "string \<Rightarrow> (string \<times> json) list" where
  "parse_attrs text = foldl (\<lambda>d (k, v). obj_put d k (JStr v)) [] (find_attrs text)"

definition BODY_KEYS :: "string list" where
  "BODY_KEYS = [''content'', ''old_text'', ''new_text'', ''command'', ''task'', ''pattern'', ''path'']"

definition body_args :: "string \<Rightarrow> (string \<times> json) list \<Rightarrow> (string \<times> json) list" where
  "body_args body args =
     foldl (\<lambda>d k. if contains (open_tag k) body then obj_put d k (JStr (extract_raw body k)) else d)
       args BODY_KEYS"

definition strip_newlines :: "string \<Rightarrow> string" where
  "strip_newlines s =
     rev (dropWhile (\<lambda>c. c = CHR 0x0A) (rev (dropWhile (\<lambda>c. c = CHR 0x0A) s)))"

definition parse_xml_tool :: "string \<Rightarrow> (string \<times> json) list option" where
  "parse_xml_tool raw =
     (case match_tool raw of
        None \<Rightarrow> None
      | Some (attr_text, body) \<Rightarrow>
          let attrs = parse_attrs attr_text;
              name = py_strip (py_str (get_default attrs ''name'' (JStr [])));
              args = body_args body (obj_pop attrs ''name'');
              body_text = strip_newlines body;
              args = (if name = ''write_file'' \<and> obj_get args ''content'' = None \<and> body_text \<noteq> []
                      then obj_put args ''content'' (JStr body_text) else args);
              args = (if name = ''delegate'' \<and> obj_get args ''task'' = None \<and> body_text \<noteq> []
                      then obj_put args ''task'' (JStr (py_strip body_text)) else args)
          in if name = [] then None else Some (tool_payload name args))"

section \<open>parse\<close>

text \<open>A call in the native form; the args of a call without any become an empty object.\<close>

definition native_tool :: "(string \<times> json) list \<Rightarrow> model_reply" where
  "native_tool d =
     (case get_none d ''args'' of
        JNull \<Rightarrow> Reply_Tool (obj_put d ''args'' (JObj []))
      | JObj _ \<Rightarrow> Reply_Tool d
      | _ \<Rightarrow> retry ''native tool args must be an object'')"

fun native_items :: "json list \<Rightarrow> json list \<Rightarrow> model_reply" where
  "native_items acc [] = Reply_Batch acc"
| "native_items acc (JObj d # items) =
     (if py_strip (get_str d ''name'' []) = []
      then retry ''native tool batch contains an invalid item''
      else
        (case get_none d ''args'' of
           JNull \<Rightarrow> native_items (acc @ [JObj (obj_put d ''args'' (JObj []))]) items
         | JObj _ \<Rightarrow> native_items (acc @ [JObj d]) items
         | _ \<Rightarrow> retry ''native tool batch args must be objects''))"
| "native_items acc (_ # items) = retry ''native tool batch contains an invalid item''"

definition json_body_tool :: "(string \<Rightarrow> json option) \<Rightarrow> string \<Rightarrow> model_reply" where
  "json_body_tool loads raw =
     (case loads (py_extract raw ''tool'') of
        None \<Rightarrow> retry ''model returned malformed tool JSON''
      | Some (JObj d) \<Rightarrow>
          if py_strip (get_str d ''name'' []) = [] then retry ''tool payload is missing a tool name''
          else
            (case get_default d ''args'' (JObj []) of
               JNull \<Rightarrow> Reply_Tool (obj_put d ''args'' (JObj []))
             | JObj _ \<Rightarrow> Reply_Tool d
             | _ \<Rightarrow> retry [])
      | Some _ \<Rightarrow> retry ''tool payload must be a JSON object'')"

definition tagged_reply :: "(string \<Rightarrow> json option) \<Rightarrow> string \<Rightarrow> model_reply" where
  "tagged_reply loads raw =
     (if comes_first ''<tool>'' ''<final>'' raw then json_body_tool loads raw
      else if comes_first ''<tool'' ''<final>'' raw then
        (case parse_xml_tool raw of Some call \<Rightarrow> Reply_Tool call | None \<Rightarrow> retry [])
      else if comes_first ''<talk>'' ''<final>'' raw then
        (let talk = py_strip (py_extract raw ''talk'') in
         if talk \<noteq> [] then Reply_Talk talk else retry ''model returned an empty <talk> update'')
      else if contains ''<final>'' raw then
        (let final = py_strip (py_extract raw ''final'') in
         if final \<noteq> [] then Reply_Final final else retry ''model returned an empty <final> answer'')
      else if py_strip raw \<noteq> [] then retry ''model response did not declare talk, tool, or final''
      else retry ''model returned an empty response'')"

definition text_reply :: "(string \<Rightarrow> json option) \<Rightarrow> string \<Rightarrow> exn + model_reply" where
  "text_reply loads raw =
     res_bind (parse_json_tool loads raw) (\<lambda>call.
       Inr (case call of Some payload \<Rightarrow> Reply_Tool payload | None \<Rightarrow> tagged_reply loads raw))"

definition parse :: "(string \<Rightarrow> json option) \<Rightarrow> json \<Rightarrow> exn + model_reply" where
  "parse loads raw =
     (case raw of
        JObj d \<Rightarrow>
          if truthy (get_none d ''name'') then Inr (native_tool d)
          else
            (case get_none d ''tools'' of
               JList (item # items) \<Rightarrow> Inr (native_items [] (item # items))
             | _ \<Rightarrow> text_reply loads (py_str raw))
      | _ \<Rightarrow> text_reply loads (py_str raw))"

section \<open>Answers that only announce work\<close>

text \<open>\<open>" ".join(text.strip().split())\<close>.\<close>

fun words_of :: "string \<Rightarrow> string \<Rightarrow> string list" where
  "words_of acc [] = (if acc = [] then [] else [acc])"
| "words_of acc (c # s) =
     (if is_space c then (if acc = [] then words_of [] s else acc # words_of [] s)
      else words_of (acc @ [c]) s)"

definition one_spaced :: "string \<Rightarrow> string" where
  "one_spaced s = py_join '' '' (words_of [] s)"

definition LEADS :: "string list" where
  "LEADS = [''i'' @ [CHR 0x27] @ ''ll'', ''i will'', ''i am going to'', ''let me'', ''next'',
     ''next i'' @ [CHR 0x27] @ ''ll'', ''next i will'', ''first'', ''first i'' @ [CHR 0x27] @ ''ll'',
     ''first i will'']"

definition ANNOUNCED :: "string list" where
  "ANNOUNCED = [''re-read'', ''reread'', ''continue'', ''start'', ''check'', ''inspect'', ''read'', ''locate'',
     ''confirm'', ''review'', ''analyse'', ''analyze'', ''investigate'', ''trace'']"

definition lead_matches :: "string \<Rightarrow> string \<Rightarrow> bool" where
  "lead_matches text lead \<longleftrightarrow>
     starts_with lead text \<and>
     (let rest = drop (length lead) text in
      rest \<noteq> [] \<and> is_space (hd rest) \<and>
      list_ex (\<lambda>verb. starts_with verb (dropWhile is_space rest)) ANNOUNCED)"

definition after_okay :: "string \<Rightarrow> string" where
  "after_okay s =
     (if starts_with ''okay'' s
      then dropWhile (\<lambda>c. c \<in> {CHR '','', CHR ''.'', CHR ''!'', CHR '':''} \<or> is_space c) (drop 4 s) else s)"

definition is_deferred_action_answer :: "string \<Rightarrow> bool" where
  "is_deferred_action_answer answer \<longleftrightarrow>
     (let text = one_spaced answer; low = py_lower text in
      text \<noteq> [] \<and> length text \<le> 600 \<and> list_ex (lead_matches (after_okay low)) LEADS)"

text \<open>The decision the loop works with: a final answer that only announces work is a retry.\<close>

definition decide_reply :: "(string \<Rightarrow> json option) \<Rightarrow> json \<Rightarrow> exn + model_reply" where
  "decide_reply loads raw =
     res_bind (parse loads raw) (\<lambda>r. Inr (case r of
        Reply_Final answer \<Rightarrow>
          if is_deferred_action_answer answer
          then retry ''model announced future work instead of performing it'' else r
      | _ \<Rightarrow> r))"

section \<open>What a decision looks like\<close>

definition call_ok :: "(string \<times> json) list \<Rightarrow> bool" where
  "call_ok d \<longleftrightarrow> obj_get d ''name'' \<noteq> None \<and> is_obj (get_default d ''args'' (JObj []))"

fun reply_ok :: "model_reply \<Rightarrow> bool" where
  "reply_ok (Reply_Tool d) \<longleftrightarrow> call_ok d"
| "reply_ok (Reply_Batch items) \<longleftrightarrow> items \<noteq> [] \<and> list_all (\<lambda>v. case v of JObj d \<Rightarrow> call_ok d | _ \<Rightarrow> False) items"
| "reply_ok (Reply_Talk t) \<longleftrightarrow> t \<noteq> [] \<and> py_strip t = t"
| "reply_ok (Reply_Final t) \<longleftrightarrow> t \<noteq> [] \<and> py_strip t = t"
| "reply_ok (Reply_Retry t) \<longleftrightarrow> True"

lemma retry_ok [simp]: "reply_ok (retry p)"
  by (simp add: retry_def)

lemma call_ok_payload [simp]: "call_ok (tool_payload name args)"
  by (simp add: call_ok_def tool_payload_def get_default_def is_obj_def)

lemma call_ok_put: "obj_get d ''name'' \<noteq> None \<Longrightarrow> call_ok (obj_put d ''args'' (JObj []))"
  by (simp add: call_ok_def get_default_def is_obj_def)

lemma call_ok_dict:
  "obj_get d ''name'' \<noteq> None \<Longrightarrow> get_default d ''args'' v = JObj kvs \<Longrightarrow> call_ok d"
  by (auto simp: call_ok_def get_default_def is_obj_def split: option.splits)

lemma named: "py_strip (get_str d ''name'' []) \<noteq> [] \<Longrightarrow> obj_get d ''name'' \<noteq> None"
  by (cases "obj_get d ''name''") (simp_all add: get_str_def get_default_def)

lemma named_native: "truthy (get_none d ''name'') \<Longrightarrow> obj_get d ''name'' \<noteq> None"
  by (cases "obj_get d ''name''") (simp_all add: get_none_def get_default_def)

lemma native_tool_ok: "obj_get d ''name'' \<noteq> None \<Longrightarrow> reply_ok (native_tool d)"
  unfolding native_tool_def get_none_def
  by (auto simp: call_ok_put intro: call_ok_dict split: json.split)

lemma native_items_ok:
  "list_all (\<lambda>v. case v of JObj d \<Rightarrow> call_ok d | _ \<Rightarrow> False) acc \<Longrightarrow> acc \<noteq> [] \<or> items \<noteq> [] \<Longrightarrow>
   reply_ok (native_items acc items)"
proof (induction acc items rule: native_items.induct)
  case (2 acc d items)
  then show ?case
    using named [of d] call_ok_put [of d] call_ok_dict [of d] by (auto simp: get_none_def split: json.split)
qed auto

lemma json_body_tool_ok: "reply_ok (json_body_tool loads raw)"
  unfolding json_body_tool_def
  by (auto dest: named intro: call_ok_put call_ok_dict split: option.split json.split)

lemma parse_xml_tool_ok: "parse_xml_tool raw = Some d \<Longrightarrow> call_ok d"
  by (auto simp: parse_xml_tool_def Let_def split: option.splits if_splits)

lemma tagged_reply_ok: "reply_ok (tagged_reply loads raw)"
  unfolding tagged_reply_def Let_def
  by (auto simp: json_body_tool_ok dest: parse_xml_tool_ok split: option.split)

lemma parse_json_tool_ok: "parse_json_tool loads raw = Inr (Some d) \<Longrightarrow> call_ok d"
  by (auto simp: parse_json_tool_def Let_def split: if_splits option.splits json.splits)

text \<open>
  C22. Every decision that \<open>parse\<close> returns is well formed: a tool call has a name and an argument
  object, a batch is not empty and so are its calls, a talk or a final answer is not blank and has
  no space around it.
\<close>

theorem parse_well_formed:
  assumes "parse loads raw = Inr r"
  shows "reply_ok r"
proof -
  have plain: "reply_ok r" if "text_reply loads s = Inr r" for s
    using that parse_json_tool_ok [of loads s] by (auto simp: text_reply_def res_bind_Inr tagged_reply_ok split: option.splits)
  show ?thesis
    using assms plain unfolding parse_def
    by (auto simp: native_items_ok named_native native_tool_ok simp del: native_items.simps
        split: json.splits if_splits list.splits)
qed

theorem parse_well_formed_witness: "reply_ok (Reply_Final ''done'')"
proof -
  have "parse (\<lambda>_. None) (JStr ''<final> done </final>'') = Inr (Reply_Final ''done'')"
    by code_simp
  then show ?thesis by (rule parse_well_formed)
qed

text \<open>
  Cn. A proxy reply whose first tool call has a \<open>function\<close> that is not an object makes \<open>parse\<close>
  raise \<open>AttributeError\<close>, although every other malformed output is answered with a retry notice.
\<close>

theorem function_text_raises:
  assumes "loads s = Some (JObj [(''tool_calls'', JList (JObj [(''function'', JStr f)] # others))])"
    and "py_strip s = s" and "starts_with ''{'' s" and "ends_with ''}'' s"
  shows "parse loads (JStr s) = Inl Attribute_Error"
proof -
  have "\<not> starts_with fence s"
    using assms(3) by (cases s) (auto simp: fence_def starts_with_def numeral_3_eq_3)
  then have "unfence s = s" by (simp add: unfence_def)
  with assms show ?thesis
    by (simp add: parse_def text_reply_def parse_json_tool_def unwrap_call_def get_none_def get_default_def Let_def)
qed

theorem function_text_raises_witness:
  "parse (\<lambda>s. Some (JObj [(''tool_calls'', JList [JObj [(''function'', JStr ''f'')]])])) (JStr ''{}'') =
     Inl Attribute_Error"
  by (rule function_text_raises [where f = "''f''" and others = "[]"])
    (simp_all add: py_strip_def is_space_def starts_with_def ends_with_def)

section \<open>Tags in a text\<close>

lemma contains_Nil_iff [simp]: "contains p [] \<longleftrightarrow> p = []"
  by simp

lemma starts_with_Cons [simp]: "starts_with (p # ps) (c # cs) \<longleftrightarrow> p = c \<and> starts_with ps cs"
  by (auto simp: starts_with_def)

lemma starts_with_short [simp]: "starts_with (p # ps) [] \<longleftrightarrow> False"
  by (simp add: starts_with_def)

lemma py_find_None: "py_find p s = None \<longleftrightarrow> \<not> contains p s"
  by (induction p s rule: py_find.induct) auto

text \<open>A tag has its first character nowhere else, so it cannot begin in one text and end inside another tag.\<close>

definition tag_like :: "string \<Rightarrow> bool" where
  "tag_like p \<longleftrightarrow> (\<exists>q. p = CHR ''<'' # q \<and> CHR ''<'' \<notin> set q)"

lemma tag_like_over:
  assumes "tag_like p" and "starts_with p (a @ CHR ''<'' # b)" and "a \<noteq> []"
  shows "starts_with p a"
proof -
  from assms(1) obtain q where p: "p = CHR ''<'' # q" "CHR ''<'' \<notin> set q" by (auto simp: tag_like_def)
  from assms(3) obtain c a' where a: "a = c # a'" by (cases a) auto
  from assms(2) a p(1) have c: "c = CHR ''<''" and q: "starts_with q (a' @ CHR ''<'' # b)" by auto
  have "length q \<le> length a'"
  proof (rule ccontr)
    assume "\<not> ?thesis"
    then have "CHR ''<'' \<in> set (take (length q) (a' @ CHR ''<'' # b))"
      by (auto simp: take_Cons' split: if_splits)
    with q p(2) show False by (simp add: starts_with_def)
  qed
  with q c show ?thesis by (simp add: a p(1) starts_with_def)
qed

lemma contains_at_tag:
  assumes "tag_like p"
  shows "contains p (a @ CHR ''<'' # b) \<longleftrightarrow> contains p a \<or> contains p (CHR ''<'' # b)"
proof (induction a)
  case Nil
  from assms show ?case by (auto simp: tag_like_def)
next
  case (Cons c a)
  have "starts_with p ((c # a) @ CHR ''<'' # b) \<longleftrightarrow> starts_with p (c # a)"
    using tag_like_over [OF assms, of "c # a" b] by (metis append.assoc list.distinct(1) starts_with_iff)
  with Cons show ?case by simp
qed

lemma py_find_at_tag:
  assumes "tag_like (CHR ''<'' # q)" and "\<not> contains (CHR ''<'' # q) a" and "starts_with q b"
  shows "py_find (CHR ''<'' # q) (a @ CHR ''<'' # b) = Some (length a)"
  using assms(2)
proof (induction a)
  case Nil
  from assms(3) show ?case by simp
next
  case (Cons c a)
  have "\<not> starts_with (CHR ''<'' # q) ((c # a) @ CHR ''<'' # b)"
    using tag_like_over [OF assms(1), of "c # a" b] Cons.prems by auto
  with Cons show ?case by simp
qed

lemma contains_no_start: "c \<notin> set s \<Longrightarrow> contains (c # q) s \<longleftrightarrow> False"
  by (induction s) auto

lemma contains_skip: "tag_like p \<Longrightarrow> CHR ''<'' \<notin> set a \<Longrightarrow> contains p (a @ s) \<longleftrightarrow> contains p s"
  by (induction a) (auto simp: tag_like_def)

lemma takeWhile_until: "c \<notin> set p \<Longrightarrow> takeWhile (\<lambda>x. x \<noteq> c) (p @ c # r) = p"
  by (induction p) auto

lemma dropWhile_until: "c \<notin> set p \<Longrightarrow> dropWhile (\<lambda>x. x \<noteq> c) (p @ c # r) = c # r"
  by (induction p) auto

section \<open>Writing a file through the tag protocol\<close>

definition quote :: string where
  "quote = [CHR 0x22]"

definition write_call :: "string \<Rightarrow> string \<Rightarrow> string" where
  "write_call path content =
     ''<tool name='' @ quote @ ''write_file'' @ quote @ '' path='' @ quote @ path @ quote @
     ''><content>'' @ content @ ''</content></tool>''"

definition write_attrs :: "string \<Rightarrow> string" where
  "write_attrs path = '' name='' @ quote @ ''write_file'' @ quote @ '' path='' @ quote @ path @ quote"

definition write_body :: "string \<Rightarrow> string" where
  "write_body content = ''<content>'' @ content @ ''</content>''"

definition plain_content :: "string \<Rightarrow> bool" where
  "plain_content c \<longleftrightarrow>
     list_all (\<lambda>t. \<not> contains t c)
       ([''<tool>'', ''</tool>'', ''</content>''] @ map open_tag BODY_KEYS)"

definition plain_path :: "string \<Rightarrow> bool" where
  "plain_path p \<longleftrightarrow> set p \<inter> {CHR 0x22, CHR ''<'', CHR ''>''} = {}"

lemma write_call_eq: "write_call p c = ''<tool'' @ write_attrs p @ ''>'' @ write_body c @ ''</tool>''"
  by (simp add: write_call_def write_attrs_def write_body_def)

lemma write_attrs_plain: "plain_path p \<Longrightarrow> set (write_attrs p) \<inter> {CHR ''<'', CHR ''>''} = {}"
  by (auto simp: write_attrs_def plain_path_def quote_def)

lemma find_write_attrs:
  "plain_path p \<Longrightarrow> find_attrs (write_attrs p) = [(''name'', ''write_file''), (''path'', p)]"
  by (simp add: write_attrs_def quote_def attr_here_def ident_start_def ident_char_def is_digit_def is_space_def
      takeWhile_until dropWhile_until plain_path_def Let_def)

lemma body_tags:
  assumes "plain_content c" and "k \<in> set BODY_KEYS"
  shows "contains (open_tag k) (write_body c) \<longleftrightarrow> k = ''content''"
proof -
  have "\<not> contains (open_tag k) c"
    using assms by (simp add: plain_content_def list_all_iff)
  moreover have t: "tag_like (open_tag k)" "open_tag k \<noteq> []"
    using assms(2) by (auto simp: tag_like_def open_tag_def BODY_KEYS_def)
  moreover have "contains (open_tag k) ''</content>'' \<longleftrightarrow> False"
    using assms(2) by (auto simp: open_tag_def BODY_KEYS_def)
  moreover have "contains (open_tag k) (write_body c) \<longleftrightarrow>
      starts_with (open_tag k) (write_body c) \<or> contains (open_tag k) c \<or> contains (open_tag k) ''</content>''"
    using contains_at_tag [OF t(1), of "''content>'' @ c" "''/content>''"] contains_skip [OF t(1), of "''content>''" c]
    by (auto simp: write_body_def)
  ultimately show ?thesis
    using assms(2) by (auto simp: write_body_def open_tag_def BODY_KEYS_def)
qed

lemma extract_write_body:
  assumes "plain_content c"
  shows "extract_raw (write_body c) ''content'' = c"
  using assms py_find_at_tag [of "''/content>''" c "''/content>''"]
  by (simp add: extract_raw_def open_tag_def close_tag_def write_body_def plain_content_def tag_like_def)

lemma args_write_body:
  assumes "plain_content c"
  shows "body_args (write_body c) [(''path'', JStr p)] = [(''path'', JStr p), (''content'', JStr c)]"
proof -
  have "contains (open_tag k) (write_body c) = (k = ''content'')"
    if "k \<in> {''content'', ''old_text'', ''new_text'', ''command'', ''task'', ''pattern'', ''path''}" for k
    using body_tags [OF assms, of k] that by (simp add: BODY_KEYS_def)
  then show ?thesis
    by (simp add: body_args_def BODY_KEYS_def extract_write_body [OF assms])
qed

lemma match_write_call:
  assumes "plain_content c" and "plain_path p"
  shows "match_tool (write_call p c) = Some (write_attrs p, write_body c)"
proof -
  have "py_find ''<tool'' (write_call p c) = Some 0" by (simp add: write_call_def)
  moreover have drop: "drop 5 (write_call p c) = write_attrs p @ CHR ''>'' # write_body c @ ''</tool>''"
    by (simp add: write_call_eq)
  moreover have "CHR ''>'' \<notin> set (write_attrs p)" using write_attrs_plain [OF assms(2)] by auto
  moreover have "\<not> contains ''</tool>'' (write_body c)"
    using assms(1) by (simp add: write_body_def plain_content_def contains_at_tag tag_like_def starts_with_def)
  then have "py_find ''</tool>'' (write_body c @ ''</tool>'') = Some (length (write_body c))"
    using py_find_at_tag [of "''/tool>''" "write_body c" "''/tool>''"] by (simp add: tag_like_def)
  ultimately show ?thesis
    by (simp add: match_tool_def Let_def takeWhile_until dropWhile_until)
qed

lemma parse_write_call:
  assumes "plain_content c" and "plain_path p"
  shows "parse_xml_tool (write_call p c) =
    Some (tool_payload ''write_file'' [(''path'', JStr p), (''content'', JStr c)])"
  using args_write_body [OF assms(1), of p]
  by (simp add: parse_xml_tool_def match_write_call [OF assms] parse_attrs_def find_write_attrs [OF assms(2)]
      obj_pop_def get_default_def py_strip_def is_space_def)

lemma write_call_no_json:
  assumes "plain_content c" and "plain_path p"
  shows "\<not> contains ''<tool>'' (write_call p c)"
proof -
  have a: "\<not> contains ''<tool>'' (''<tool'' @ write_attrs p @ ''>'')"
    using write_attrs_plain [OF assms(2)]
    by (simp add: contains_no_start write_attrs_def)
  have "contains ''<tool>'' (write_call p c) \<longleftrightarrow>
      contains ''<tool>'' (''<tool'' @ write_attrs p @ ''>'') \<or> contains ''<tool>'' (write_body c @ ''</tool>'')"
    using contains_at_tag [of "''<tool>''" "''<tool'' @ write_attrs p @ ''>''" "''content>'' @ c @ ''</content></tool>''"]
    by (simp add: write_call_eq write_body_def tag_like_def)
  moreover have "\<not> contains ''<tool>'' (write_body c @ ''</tool>'')"
    using assms(1) by (simp add: write_body_def plain_content_def contains_at_tag tag_like_def starts_with_def)
  ultimately show ?thesis using a by simp
qed

lemma write_call_no_brace: "starts_with ''{'' (unfence (py_strip (write_call p c))) \<longleftrightarrow> False"
proof -
  have "hd (py_strip (write_call p c)) = CHR ''<''"
    by (simp add: write_call_def py_strip_def is_space_def)
  then show ?thesis
    by (cases "py_strip (write_call p c)") (auto simp: unfence_def fence_def numeral_3_eq_3)
qed

text \<open>
  C23. A file written through the tag protocol reaches the tool as the model wrote it: the call is
  parsed to exactly its path and its content, with every blank, newline and quote.  This needs a
  content in which none of \<open><tool>\<close>, \<open></tool>\<close>, \<open></content>\<close> and the opening tags of the
  arguments (content, old_text, new_text, command, task, pattern, path) occurs, and a path without
  double quote and angle brackets; for other contents it does not hold, see content_redirects_path.
\<close>

theorem write_call_roundtrip:
  assumes "plain_content c" and "plain_path p"
  shows "parse loads (JStr (write_call p c)) =
    Inr (Reply_Tool (tool_payload ''write_file'' [(''path'', JStr p), (''content'', JStr c)]))"
proof -
  have "py_find ''<tool>'' (write_call p c) = None"
    using write_call_no_json [OF assms] by (simp add: py_find_None)
  moreover have "comes_first ''<tool'' ''<final>'' (write_call p c)"
    by (auto simp: comes_first_def write_call_def split: option.splits)
  ultimately show ?thesis
    by (simp add: parse_def text_reply_def parse_json_tool_def tagged_reply_def parse_write_call [OF assms] write_call_no_brace
        comes_first_def [of "''<tool>''"] py_str_JStr)
qed

theorem write_call_roundtrip_witness:
  "parse (\<lambda>_. None) (JStr (write_call ''a.txt'' (''  x = '' @ quote @ ''1 < 2'' @ quote @ nl))) =
     Inr (Reply_Tool (tool_payload ''write_file''
       [(''path'', JStr ''a.txt''), (''content'', JStr (''  x = '' @ quote @ ''1 < 2'' @ quote @ nl))]))"
  by (rule write_call_roundtrip)
    (simp_all add: plain_content_def plain_path_def BODY_KEYS_def open_tag_def quote_def nl_eq)

text \<open>
  Cn. The child tags are searched in the whole body, the content included: a content with a
  \<open>path\<close> element replaces the path attribute, and another file than the named one is written.
\<close>

theorem content_redirects_path:
  "parse loads (JStr (write_call ''icon.svg'' ''<path>other.txt</path>'')) =
     Inr (Reply_Tool (tool_payload ''write_file''
       [(''path'', JStr ''other.txt''), (''content'', JStr ''<path>other.txt</path>'')]))"
proof -
  let ?w = "write_call ''icon.svg'' ''<path>other.txt</path>''"
  have m: "match_tool ?w = Some (write_attrs ''icon.svg'', write_body ''<path>other.txt</path>'')"
    by (simp add: match_tool_def write_call_def write_attrs_def write_body_def quote_def)
  have "body_args (write_body ''<path>other.txt</path>'') [(''path'', JStr ''icon.svg'')] =
      [(''path'', JStr ''other.txt''), (''content'', JStr ''<path>other.txt</path>'')]"
    by (simp add: body_args_def BODY_KEYS_def open_tag_def close_tag_def extract_raw_def write_body_def)
  then have "parse_xml_tool ?w = Some (tool_payload ''write_file''
       [(''path'', JStr ''other.txt''), (''content'', JStr ''<path>other.txt</path>'')])"
    by (simp add: parse_xml_tool_def m parse_attrs_def find_write_attrs plain_path_def obj_pop_def get_default_def
        py_strip_def is_space_def)
  moreover have "py_find ''<tool>'' ?w = None" "comes_first ''<tool'' ''<final>'' ?w"
    by (simp_all add: comes_first_def write_call_def quote_def)
  ultimately show ?thesis
    by (simp add: parse_def text_reply_def parse_json_tool_def tagged_reply_def write_call_no_brace
        comes_first_def [of "''<tool>''"] py_str_JStr)
qed

end
