(* ===== verification/Agent_World.thy ===== *)
theory Agent_World
  imports Model_Reply
begin

text \<open>
  What the agent loop, its reviews and its plans share: the state they work on, the calls they make
  to the rest of the runtime, and the parts of \<open>pico/agent_loop.py\<close> and \<open>pico/planning.py\<close> below
  the control loop (summary of an interrupted run, acceptance criteria, plans).

  The state holds the state of the tool executor (workspace, session history, environment), the
  task snapshot, the flag \<open>review_verified\<close> that a review sets on it, and a log of the calls in their
  order.  Every call that leaves the modelled code - the trace, the run store, the session store,
  the model - is an argument that acts on the environment and may raise; the log holds the name of
  a trace event, not its payload.  Progress lines for a terminal and durations are left out.
\<close>

section \<open>State and configuration\<close>

datatype agent_event =
    A_Start
  | A_Trace string
  | A_State string
  | A_Save
  | A_Record string string
  | A_Report
  | A_Checkpoint string
  | A_Model bool
  | A_Commentary string
  | A_Protocol_Retry nat
  | A_Tool string
  | A_Review string string

text \<open>What the model client is asked for: a round of the loop, a summary, a review, a plan.\<close>

datatype model_request =
    Round_Request string bool
  | Summary_Request string
  | Review_Request string
  | Plan_Request string

record prompt_info =
  pi_text :: string
  pi_resume :: string
  pi_reduced :: bool

record 'h agent_world =
  aw_exec :: "'h exec_state"
  aw_task :: task_state
  aw_verified :: bool
  aw_log :: "agent_event list"

type_synonym ('h, 'a) agent_act = "('h agent_world, tool_exn, 'a) act"

record 'h agent_config =
  ag_exec :: "'h exec_config"
  ag_out :: "agent_event \<Rightarrow> task_state \<Rightarrow> ('h, unit) env_act"
  ag_checkpoint :: "string \<Rightarrow> task_state \<Rightarrow> ('h, string) env_act"
  ag_complete :: "model_request \<Rightarrow> ('h, json) env_act"
  ag_usage :: "'h \<Rightarrow> int \<times> int"
  ag_prompt :: "string \<Rightarrow> ('h, prompt_info) env_act"
  ag_before_model :: "task_state \<Rightarrow> ('h, unit) env_act"
  ag_after_model :: "task_state \<Rightarrow> ('h, unit) env_act"
  ag_summarize :: "string \<Rightarrow> json \<Rightarrow> tool_result \<Rightarrow> ('h, string) env_act"
  ag_promote :: "string \<Rightarrow> string \<Rightarrow> ('h, unit) env_act"
  ag_fresh :: "('h, string) env_act"
  ag_now :: "'h \<Rightarrow> string"
  ag_elapsed :: "'h \<Rightarrow> int"
  ag_loads :: "string \<Rightarrow> json option"
  ag_best_effort :: "string \<Rightarrow> task_state \<Rightarrow> string"
  ag_summary_prompt :: "task_state \<Rightarrow> string"
  ag_interrupted :: "string \<Rightarrow> string \<Rightarrow> string"
  ag_review_prompt :: "'h exec_state \<Rightarrow> task_state \<Rightarrow> string \<Rightarrow> bool \<Rightarrow> string \<Rightarrow> string list \<Rightarrow> string"
  ag_plan_prompt :: "'h \<Rightarrow> task_state \<Rightarrow> string \<Rightarrow> bool \<Rightarrow> string"
  ag_exn_name :: "tool_exn \<Rightarrow> string"
  ag_rebuttals :: "string list"
  ag_read_hint :: string
  ag_task_summary :: "string \<Rightarrow> ('h, unit) env_act"
  ag_resume_status :: "'h \<Rightarrow> string"
  ag_read_limit :: int
  ag_total_limit :: "int option"
  ag_feature :: "string \<Rightarrow> bool"
  ag_allow_checkpoint :: bool
  ag_allow_memory :: bool
  ag_max_steps :: int
  ag_max_elapsed :: int
  ag_max_tokens :: int

section \<open>Calls\<close>

definition on_exec :: "('h, 'a) exec_act \<Rightarrow> ('h, 'a) agent_act" where
  "on_exec m = (\<lambda>w. case m ((aw_exec w)\<lparr>ex_task := Some (aw_task w)\<rparr>) of
     (r, s) \<Rightarrow> (r, w\<lparr>aw_exec := s, aw_task := (case ex_task s of Some t \<Rightarrow> t | None \<Rightarrow> aw_task w)\<rparr>))"

definition on_agent_env :: "('h, 'a) env_act \<Rightarrow> ('h, 'a) agent_act" where
  "on_agent_env m = (\<lambda>w. case m (ex_env (aw_exec w)) of
     (r, h) \<Rightarrow> (r, w\<lparr>aw_exec := (aw_exec w)\<lparr>ex_env := h\<rparr>\<rparr>))"

definition note_event :: "agent_event \<Rightarrow> ('h, unit) agent_act" where
  "note_event e = act_modify (\<lambda>w. w\<lparr>aw_log := aw_log w @ [e]\<rparr>)"

definition out :: "'h agent_config \<Rightarrow> agent_event \<Rightarrow> ('h, unit) agent_act" where
  "out x e = act_then (note_event e)
     (act_bind (act_get aw_task) (\<lambda>t. on_agent_env (ag_out x e t)))"

abbreviation trace :: "'h agent_config \<Rightarrow> string \<Rightarrow> ('h, unit) agent_act" where
  "trace x name \<equiv> out x (A_Trace name)"

text \<open>\<open>run_store.write_task_state\<close>.\<close>

abbreviation save :: "'h agent_config \<Rightarrow> ('h, unit) agent_act" where
  "save x \<equiv> out x A_Save"

text \<open>\<open>emit_agent_state\<close>.\<close>

abbreviation show_state :: "'h agent_config \<Rightarrow> string \<Rightarrow> ('h, unit) agent_act" where
  "show_state x reason \<equiv> out x (A_State reason)"

definition on_task :: "(task_state \<Rightarrow> task_state) \<Rightarrow> ('h, unit) agent_act" where
  "on_task f = act_modify (\<lambda>w. w\<lparr>aw_task := f (aw_task w)\<rparr>)"

text \<open>An operation of the snapshot that may raise; the snapshot keeps its value then.\<close>

definition try_task :: "(task_state \<Rightarrow> exn + task_state) \<Rightarrow> ('h, unit) agent_act" where
  "try_task f = act_bind (act_get aw_task) (\<lambda>t.
     case f t of Inl e \<Rightarrow> act_raise (Tool_Error e []) | Inr u \<Rightarrow> on_task (\<lambda>_. u))"

definition to_phase :: "string \<Rightarrow> string \<Rightarrow> ('h, unit) agent_act" where
  "to_phase phase next_step = try_task (set_phase phase next_step [])"

definition check_cancelled :: "'h agent_config \<Rightarrow> ('h, unit) agent_act" where
  "check_cancelled x = on_agent_env (xc_check_cancelled (ag_exec x))"

text \<open>\<open>agent.record\<close>: the history grows before the session is saved.\<close>

definition record_item :: "'h agent_config \<Rightarrow> string \<Rightarrow> string \<Rightarrow> (string \<times> json) list \<Rightarrow> ('h, unit) agent_act" where
  "record_item x role content extra =
     act_then (act_modify (\<lambda>w. w\<lparr>aw_exec := (aw_exec w)\<lparr>ex_history := ex_history (aw_exec w) @
        [(''role'', JStr role) # extra @
         [(''content'', JStr content), (''created_at'', JStr (ag_now x (ex_env (aw_exec w))))]]\<rparr>\<rparr>))
       (out x (A_Record role content))"

text \<open>\<open>create_checkpoint\<close>: the checkpoint goes into the session, its id into the snapshot.\<close>

definition make_checkpoint :: "'h agent_config \<Rightarrow> string \<Rightarrow> ('h, unit) agent_act" where
  "make_checkpoint x trigger =
     act_then (note_event (A_Checkpoint trigger))
       (act_bind (act_get aw_task) (\<lambda>t.
          act_bind (on_agent_env (ag_checkpoint x trigger t)) (\<lambda>cid.
            on_task (\<lambda>t. t\<lparr>ts_checkpoint_id := cid\<rparr>))))"

section \<open>The summary of an interrupted run\<close>

definition has_content :: "json \<Rightarrow> bool" where
  "has_content item \<longleftrightarrow>
     (case item of JObj d \<Rightarrow> py_strip (py_str (or_default (get_default d ''content'' (JStr [])) (JStr []))) \<noteq> []
      | _ \<Rightarrow> False)"

text \<open>\<open>str(value or "")\<close>.\<close>

definition text_or_empty :: "json \<Rightarrow> string" where
  "text_or_empty v = (if truthy v then py_str v else [])"

text \<open>
  \<open>_convergence_summary\<close>: with evidence or rejected answers the model is asked for a summary, and
  every exception of that call is swallowed; otherwise, and when the model says nothing, the text
  is put together from the evidence.
\<close>

definition convergence_summary :: "'h agent_config \<Rightarrow> string \<Rightarrow> ('h, string) agent_act" where
  "convergence_summary x reason =
     act_bind (act_get aw_task) (\<lambda>t.
       if filter has_content (ts_rejected_finals t) = [] \<and> ts_evidence t = []
       then act_ret (ag_best_effort x reason t)
       else
         act_try (on_agent_env (ag_complete x (Summary_Request (ag_summary_prompt x t))))
           (\<lambda>raw. let text = py_strip (text_or_empty raw) in
              act_ret (if text \<noteq> [] then ag_interrupted x reason text else ag_best_effort x reason t))
           (\<lambda>_. act_ret (ag_best_effort x reason t)))"

section \<open>Acceptance criteria\<close>

type_synonym cmd_cache = "(string \<times> bool) list"

definition says_exit_zero :: "string \<Rightarrow> bool" where
  "says_exit_zero content \<longleftrightarrow> contains ''exit_code: 0'' content"

definition shell_call :: "string \<Rightarrow> json" where
  "shell_call command = JObj [(''command'', JStr command), (''timeout'', JInt 30)]"

text \<open>The command of a criterion goes through the executor; every exception counts as a failure.\<close>

definition verify_command :: "'h agent_config \<Rightarrow> cmd_cache \<Rightarrow> string \<Rightarrow> ('h, bool \<times> cmd_cache) agent_act" where
  "verify_command x cache command =
     (case obj_get cache command of
        Some ok \<Rightarrow> act_ret (ok, cache)
      | None \<Rightarrow>
          act_try
            (act_bind (on_agent_env (ag_fresh x)) (\<lambda>cid.
               on_exec (execute (ag_exec x) ''run_shell'' (shell_call command) cid)))
            (\<lambda>r. let ok = says_exit_zero (tr_content r) in act_ret (ok, obj_put cache command ok))
            (\<lambda>_. act_ret (False, cache)))"

text \<open>\<open>_verify_done_when\<close>: \<open>None\<close> for a criterion in prose.\<close>

definition verify_done_when ::
  "'h agent_config \<Rightarrow> cmd_cache \<Rightarrow> string \<Rightarrow> ('h, bool option \<times> cmd_cache) agent_act" where
  "verify_done_when x cache criterion =
     (let t = py_strip criterion; c = xc_context (ag_exec x) in
      if starts_with ''file:'' t then
        (let path = py_strip (drop 5 t) in
         act_get (\<lambda>w. (Some (path \<noteq> [] \<and> is_file (ex_ws (aw_exec w)) (tc_resolve c path)), cache)))
      else if starts_with ''grep:'' t then
        (let (path, _, pattern) = py_partition (CHR '':'') (drop 5 t) in
         act_get (\<lambda>w. let ws = ex_ws (aw_exec w); p = tc_resolve c path in
           (Some (path \<noteq> [] \<and> pattern \<noteq> [] \<and> is_file ws p \<and> contains pattern (read_text ws p)), cache)))
      else if starts_with ''cmd:'' t then
        (let command = py_strip (drop 4 t) in
         if command = [] then act_ret (Some False, cache)
         else act_bind (verify_command x cache command) (\<lambda>(ok, cache). act_ret (Some ok, cache)))
      else act_ret (None, cache))"

text \<open>The criteria of one goal: the first that holds completes it, one in prose ends the search.\<close>

fun check_goal ::
  "'h agent_config \<Rightarrow> string \<Rightarrow> cmd_cache \<Rightarrow> string list \<Rightarrow> ('h, bool \<times> cmd_cache) agent_act" where
  "check_goal x goal cache [] = act_ret (False, cache)"
| "check_goal x goal cache (dw # dws) =
     act_bind (verify_done_when x cache dw) (\<lambda>(r, cache).
       case r of
         None \<Rightarrow> act_ret (False, cache)
       | Some True \<Rightarrow>
           act_then (on_task (complete_item goal))
             (act_then (trace x ''checklist_item_checked'') (act_ret (True, cache)))
       | Some False \<Rightarrow> check_goal x goal cache dws)"

definition goal_criteria :: "task_state \<Rightarrow> string \<Rightarrow> string list" where
  "goal_criteria t goal = (case obj_get (ts_step_done_when t) goal of None \<Rightarrow> [] | Some dws \<Rightarrow> dws)"

text \<open>The goals that were open when the check began; a goal completed meanwhile is checked again.\<close>

fun check_goals ::
  "'h agent_config \<Rightarrow> cmd_cache \<Rightarrow> string list \<Rightarrow> ('h, bool \<times> cmd_cache) agent_act" where
  "check_goals x cache [] = act_ret (False, cache)"
| "check_goals x cache (goal # goals) =
     act_bind (act_get (\<lambda>w. goal_criteria (aw_task w) goal)) (\<lambda>dws.
       act_bind (check_goal x goal cache dws) (\<lambda>(one, cache).
         act_bind (check_goals x cache goals) (\<lambda>(others, cache). act_ret (one \<or> others, cache))))"

definition check_checklist_progress :: "'h agent_config \<Rightarrow> cmd_cache \<Rightarrow> ('h, cmd_cache) agent_act" where
  "check_checklist_progress x cache =
     act_bind (act_get (\<lambda>w. filter (\<lambda>g. g \<notin> set (ts_completed_items (aw_task w))) (ts_checklist (aw_task w)))) (\<lambda>goals.
       act_bind (check_goals x cache goals) (\<lambda>(checked, cache).
         act_then (act_when checked (act_then (save x) (show_state x ''checklist_progress'')))
           (act_ret cache)))"

end
