(* ===== verification/Plans.thy ===== *)
theory Plans
  imports Agent_World
begin

text \<open>
  The plan of a run (\<open>pico/planning.py\<close>) and its two uses in the loop, \<open>_initial_plan\<close> and
  \<open>_replan\<close> (\<open>pico/agent_loop.py\<close>).  The planning prompt is an argument; a plan that cannot be had
  leaves the checklist as it is.
\<close>

section \<open>Small talk\<close>

definition GREETINGS :: "string list" where
  "GREETINGS = [''hi'', ''hello'', ''hey'', ''thanks'', ''ok'', ''okay'', ''yes'', ''no'']"

definition is_plain_conversation :: "string \<Rightarrow> bool" where
  "is_plain_conversation task \<longleftrightarrow>
     (let low = py_lower (py_strip task);
          core = rev (dropWhile (\<lambda>c. c \<in> {CHR ''!'', CHR ''.'', CHR ''?''} \<or> is_space c) (rev low));
          after_thank = drop 5 core
      in core \<in> set GREETINGS \<or>
         (starts_with ''thank'' core \<and> after_thank \<noteq> [] \<and> is_space (hd after_thank) \<and>
          dropWhile is_space after_thank = ''you''))"

section \<open>Steps\<close>

type_synonym plan_step = "string \<times> string list"

definition MIN_PLAN_STEPS :: nat where "MIN_PLAN_STEPS = 1"
definition MAX_PLAN_STEPS :: nat where "MAX_PLAN_STEPS = 20"

text \<open>The text inside a fence that may be left open.\<close>

definition open_unfence :: "string \<Rightarrow> string" where
  "open_unfence text =
     (if starts_with fence text \<and> 3 \<le> length (splitlines text)
      then py_strip (py_join nl (butlast (tl (splitlines text)))) else text)"

definition step_criteria :: "string \<Rightarrow> json \<Rightarrow> string list" where
  "step_criteria goal raw_done =
     (let dws = (case raw_done of
                   JList xs \<Rightarrow> filter (\<lambda>s. s \<noteq> []) (map (\<lambda>v. py_strip (py_str v)) xs) | _ \<Rightarrow> [])
      in if dws = [] then [goal] else dws)"

definition plan_step_of :: "json \<Rightarrow> plan_step" where
  "plan_step_of item =
     (case item of
        JObj d \<Rightarrow>
          (let goal = py_strip (text_or_empty (get_default d ''goal'' (JStr []))) in
           (goal, step_criteria goal (get_default d ''done_when'' (JList []))))
      | _ \<Rightarrow> (let goal = py_strip (text_or_empty item) in (goal, if goal \<noteq> [] then [goal] else [])))"

definition parse_plan_steps :: "(string \<Rightarrow> json option) \<Rightarrow> json \<Rightarrow> exn + plan_step list" where
  "parse_plan_steps loads raw =
     (let text = open_unfence (py_strip (text_or_empty raw)) in
      if \<not> starts_with ''{'' text \<or> \<not> ends_with ''}'' text then Inl Value_Error
      else
        (case loads text of
           Some (JObj d) \<Rightarrow>
             (case obj_get d ''steps'' of
                Some (JList items) \<Rightarrow>
                  (let steps = filter (\<lambda>s. fst s \<noteq> []) (map plan_step_of items) in
                   if MIN_PLAN_STEPS \<le> length steps \<and> length steps \<le> MAX_PLAN_STEPS then Inr steps
                   else Inl Value_Error)
              | _ \<Rightarrow> Inl Value_Error)
         | _ \<Rightarrow> Inl Value_Error))"

text \<open>\<open>run_planning\<close>: no plan when the model fails, for whatever reason, or answers otherwise.\<close>

definition run_planning :: "'h agent_config \<Rightarrow> string \<Rightarrow> bool \<Rightarrow> ('h, plan_step list) agent_act" where
  "run_planning x task replan =
     act_bind (act_get (\<lambda>w. ag_plan_prompt x (ex_env (aw_exec w)) (aw_task w) task replan)) (\<lambda>prompt.
       act_try (on_agent_env (ag_complete x (Plan_Request prompt)))
         (\<lambda>raw. case parse_plan_steps (ag_loads x) raw of
            Inl e \<Rightarrow> act_then (trace x ''planning_failed'') (act_ret [])
          | Inr steps \<Rightarrow> act_then (trace x ''planning_completed'') (act_ret steps))
         (\<lambda>_. act_then (trace x ''planning_failed'') (act_ret [])))"

definition with_plan :: "plan_step list \<Rightarrow> task_state \<Rightarrow> task_state" where
  "with_plan steps t = t\<lparr>ts_checklist := map fst steps, ts_done_when := concat (map snd steps),
     ts_step_done_when := foldl (\<lambda>d (g, dws). obj_put d g dws) [] steps\<rparr>"

definition initial_plan :: "'h agent_config \<Rightarrow> string \<Rightarrow> ('h, bool) agent_act" where
  "initial_plan x user_message =
     (if \<not> ag_feature x ''planning'' \<or> is_plain_conversation user_message then act_ret False
      else
        act_bind (run_planning x user_message False) (\<lambda>steps.
          if steps = [] then act_ret False
          else
            act_then (on_task (with_plan steps))
              (act_then (save x) (act_then (trace x ''plan_checklist_created'') (act_ret True)))))"

definition make_replan :: "'h agent_config \<Rightarrow> string \<Rightarrow> string \<Rightarrow> ('h, bool) agent_act" where
  "make_replan x user_message feedback =
     (if \<not> ag_feature x ''planning'' then act_ret False
      else
        act_bind (run_planning x user_message True) (\<lambda>steps.
          if steps = [] then act_ret False
          else
            act_then (on_task (\<lambda>t. (with_plan steps t)
                        \<lparr>ts_replan_reasons := ts_replan_reasons t @ [take 200 feedback]\<rparr>))
              (act_then (save x) (act_then (trace x ''plan_replanned'') (act_ret True)))))"

section \<open>Plans are well formed\<close>

lemma step_criteria_nonempty: "goal \<noteq> [] \<Longrightarrow> step_criteria goal v \<noteq> []"
  by (simp add: step_criteria_def Let_def)

lemma step_criteria_nonblank: "goal \<noteq> [] \<Longrightarrow> [] \<notin> set (step_criteria goal v)"
  by (auto simp: step_criteria_def Let_def split: json.splits)

definition step_ok :: "plan_step \<Rightarrow> bool" where
  "step_ok s \<longleftrightarrow> fst s \<noteq> [] \<and> py_strip (fst s) = fst s \<and> snd s \<noteq> [] \<and> [] \<notin> set (snd s)"

lemma plan_step_of_ok: "fst (plan_step_of item) \<noteq> [] \<Longrightarrow> step_ok (plan_step_of item)"
  by (cases item) (simp_all add: plan_step_of_def step_ok_def Let_def step_criteria_nonempty step_criteria_nonblank)

text \<open>
  A plan that is accepted has between one and twenty steps; every step has a goal that is not
  blank and at least one acceptance criterion, none of them blank.
\<close>

theorem plan_well_formed:
  assumes "parse_plan_steps loads raw = Inr steps"
  shows "1 \<le> length steps \<and> length steps \<le> 20 \<and> list_all step_ok steps"
proof -
  have ok: "list_all step_ok (filter (\<lambda>s. fst s \<noteq> []) (map plan_step_of items))" for items
    by (induction items) (simp_all add: plan_step_of_ok)
  show ?thesis
    using assms ok
    by (auto simp: parse_plan_steps_def Let_def MIN_PLAN_STEPS_def MAX_PLAN_STEPS_def
        split: if_splits option.splits json.splits)
qed

theorem plan_well_formed_witness:
  "list_all step_ok [(''Read the file'', [''Read the file''])]"
proof -
  have "parse_plan_steps (\<lambda>_. Some (JObj [(''steps'', JList [JStr ''Read the file''])])) (JStr ''{}'') =
      Inr [(''Read the file'', [''Read the file''])]"
    by (simp add: parse_plan_steps_def open_unfence_def fence_def numeral_3_eq_3 py_strip_def is_space_def
        text_or_empty_def py_str_JStr ends_with_def MIN_PLAN_STEPS_def MAX_PLAN_STEPS_def plan_step_of_def Let_def)
  from plan_well_formed [OF this] show ?thesis by blast
qed

end
