(* ===== verification/Review_Run.thy ===== *)
theory Review_Run
  imports Plans
begin

text \<open>
  The review of a run (\<open>pico/evaluation/review_subagent.py\<close>): a second conversation with a model,
  forced by the program every few actions and before a final answer.  It may run tools of its own,
  outside the executor, and ends in a verdict that two gates of the program can turn into a
  rejection.  The review prompt and the durations are left out.
\<close>

section \<open>Verdicts\<close>

definition REVIEW_POLL_ACTIONS :: nat where "REVIEW_POLL_ACTIONS = 6"
definition REVIEW_BATTLE_MAX_ROUNDS :: nat where "REVIEW_BATTLE_MAX_ROUNDS = 2"
definition REVIEW_MAX_STEPS :: nat where "REVIEW_MAX_STEPS = 5"

definition REVIEW_ALLOWED_TOOLS :: "string list" where
  "REVIEW_ALLOWED_TOOLS = [''list_files'', ''read_file'', ''run_shell'', ''search'']"

definition REVIEW_VERDICTS :: "string list" where
  "REVIEW_VERDICTS = [''finalize'', ''continue'', ''redirect'']"

record review_decision =
  rd_verdict :: string
  rd_feedback :: string
  rd_reason :: string
  rd_steps :: "string list"
  rd_failed :: bool

definition decision :: "string \<Rightarrow> string \<Rightarrow> string \<Rightarrow> review_decision" where
  "decision verdict feedback reason =
     \<lparr>rd_verdict = verdict, rd_feedback = feedback, rd_reason = reason, rd_steps = [], rd_failed = False\<rparr>"

definition parsed_verdict :: "(string \<times> json) list \<Rightarrow> review_decision" where
  "parsed_verdict d =
     (let verdict = py_lower (py_strip (get_str d ''verdict'' [])) in
      if verdict \<notin> set REVIEW_VERDICTS
      then decision ''redirect'' ''review verdict must be finalize/continue/redirect'' ''malformed_review_verdict''
      else
        \<lparr>rd_verdict = verdict,
         rd_feedback = py_strip (text_or_empty (get_default d ''feedback'' (JStr []))),
         rd_reason = py_strip (text_or_empty (get_default d ''reason'' (JStr []))),
         rd_steps = (case get_default d ''completed_steps'' (JList []) of
             JList goals \<Rightarrow> filter (\<lambda>g. g \<noteq> []) (map (\<lambda>g. py_strip (py_str g)) goals)
           | _ \<Rightarrow> []),
         rd_failed = False\<rparr>)"

definition parse_review_output :: "(string \<Rightarrow> json option) \<Rightarrow> string \<Rightarrow> review_decision" where
  "parse_review_output loads raw =
     (case loads (open_unfence (py_strip raw)) of
        None \<Rightarrow> decision ''redirect'' ''review output was not valid JSON; please follow the required format''
                 ''malformed_review_output''
      | Some (JObj d) \<Rightarrow> parsed_verdict d
      | Some _ \<Rightarrow> decision ''redirect'' ''review output must be a JSON object'' ''malformed_review_output'')"

datatype review_action =
    RA_Verdict review_decision
  | RA_Tool string json
  | RA_Invalid string

definition tagged_review_tool :: "(string \<Rightarrow> json option) \<Rightarrow> string \<Rightarrow> review_action option" where
  "tagged_review_tool loads text =
     (case match_tool text of
        None \<Rightarrow> None
      | Some (_, body) \<Rightarrow>
          (case loads (py_strip body) of
             Some (JObj d) \<Rightarrow>
               map_option (\<lambda>name. RA_Tool (py_str name) (get_default d ''args'' (JObj []))) (obj_get d ''name'')
           | _ \<Rightarrow> None))"

definition parse_review_action :: "(string \<Rightarrow> json option) \<Rightarrow> json \<Rightarrow> review_action" where
  "parse_review_action loads raw =
     (let text = py_strip (text_or_empty raw) in
      case tagged_review_tool loads text of
        Some action \<Rightarrow> action
      | None \<Rightarrow>
          (case loads (open_unfence text) of
             None \<Rightarrow> RA_Invalid ''review output was not valid JSON; emit a tool call or a verdict JSON''
           | Some (JObj d) \<Rightarrow>
               if obj_get d ''verdict'' \<noteq> None then
                 (let v = parse_review_output loads (open_unfence text) in
                  if rd_verdict v \<in> set REVIEW_VERDICTS then RA_Verdict v else RA_Invalid (rd_feedback v))
               else
                 (case obj_get d ''name'' of
                    Some name \<Rightarrow> RA_Tool (py_str name) (get_default d ''args'' (JObj []))
                  | None \<Rightarrow> RA_Invalid ''review output must contain a verdict or a tool name'')
           | Some _ \<Rightarrow> RA_Invalid ''review output must be a JSON object''))"

section \<open>Obstacles\<close>

definition checklist_is_explicit :: "task_state \<Rightarrow> bool" where
  "checklist_is_explicit t \<longleftrightarrow> ts_checklist t \<noteq> [] \<and> \<not> set (ts_checklist t) \<subseteq> set DEFAULT_CHECKLIST"

definition remaining_items :: "task_state \<Rightarrow> string list" where
  "remaining_items t = filter (\<lambda>i. i \<notin> set (ts_completed_items t)) (ts_checklist t)"

definition audit_failed :: "json \<Rightarrow> bool" where
  "audit_failed item \<longleftrightarrow>
     (case item of
        JObj d \<Rightarrow> (case get_default d ''reasons'' (JList []) of
                     JList rs \<Rightarrow> JStr ''tool_repeated_or_failed'' \<in> set rs | _ \<Rightarrow> False)
      | _ \<Rightarrow> False)"

definition build_review_obstacles :: "task_state \<Rightarrow> bool \<Rightarrow> bool \<Rightarrow> string list" where
  "build_review_obstacles t wrote verified =
     (if wrote \<and> \<not> verified then [''verification''] else []) @
     (if remaining_items t \<noteq> [] \<and> checklist_is_explicit t then [''checklist''] else []) @
     (if list_ex audit_failed (ts_stagnation_audit t) then [''failed''] else [])"

text \<open>
  The keywords of evidence; \<open>extra\<close> stands for the two of them that are not ASCII (the words for
  passed and for verified).
\<close>

definition REBUTTALS :: "string list" where
  "REBUTTALS = [''pass'', ''verified'', ''complete'', ''evidence'', ''test'']"

definition check_rebuttals :: "string list \<Rightarrow> string \<Rightarrow> bool" where
  "check_rebuttals extra feedback \<longleftrightarrow> list_ex (\<lambda>k. contains k (py_lower feedback)) (REBUTTALS @ extra)"

section \<open>Tools of a review\<close>

text \<open>
  \<open>_execute_review_tool\<close>: validation and the runner of the tool, nothing else of the executor.
  Arguments that are no object make the access to them raise.
\<close>

definition review_tool_run :: "'h agent_config \<Rightarrow> tool \<Rightarrow> string \<Rightarrow> json \<Rightarrow> ('h, string) exec_act" where
  "review_tool_run x t name args =
     (let c = xc_context (ag_exec x);
          no_object = act_raise (Tool_Error Attribute_Error (tc_python_message c Attribute_Error args)) in
      case args of
        JObj d \<Rightarrow> act_then (on_ws (validate_tool c name d)) (on_ws (tl_run t d))
      | _ \<Rightarrow> if truthy args then no_object else act_then (on_ws (validate_tool c name [])) no_object)"

fun message_of :: "tool_exn \<Rightarrow> string" where
  "message_of (Tool_Error _ msg) = msg"
| "message_of _ = ''process cleanup failed''"

definition execute_review_tool :: "'h agent_config \<Rightarrow> string \<Rightarrow> json \<Rightarrow> ('h, string) agent_act" where
  "execute_review_tool x name args =
     (if name \<notin> set REVIEW_ALLOWED_TOOLS then
        act_ret (''error: tool not allowed in review; allowed: '' @ py_join '', '' REVIEW_ALLOWED_TOOLS)
      else
        (case obj_get (xc_tools (ag_exec x)) name of
           None \<Rightarrow> act_ret (''error: unknown tool '' @ quoted name)
         | Some t \<Rightarrow>
             act_try (on_exec (review_tool_run x t name args))
               (\<lambda>content. act_ret (clip content 4000))
               (\<lambda>e. if e = Tool_Cancelled then act_raise e
                     else act_ret (''error: '' @ ag_exn_name x e @ '': '' @ message_of e))))"

section \<open>The review\<close>

datatype review_result =
    RR_Decided review_decision nat bool
  | RR_Failed tool_exn

definition step_limit_decision :: review_decision where
  "step_limit_decision =
     decision ''redirect'' ''review did not produce a verdict within its step limit'' ''review_step_limit''"

definition tool_note :: "nat \<Rightarrow> string \<Rightarrow> json \<Rightarrow> string \<Rightarrow> string" where
  "tool_note n name args result =
     nl @ nl @ ''[review tool round '' @ nat_str n @ ''] '' @ name @ ''('' @
     take 300 (json_dumps False '', '' '': '' args) @ '')'' @ nl @ ''Result:'' @ nl @ result"

definition shell_verified :: "string \<Rightarrow> string \<Rightarrow> bool" where
  "shell_verified name result \<longleftrightarrow> name = ''run_shell'' \<and> says_exit_zero result"

text \<open>
  The conversation: at most \<open>steps\<close> more requests, \<open>n\<close> tools run so far, \<open>ok\<close> once a command of the
  review has succeeded.
\<close>

fun review_steps ::
  "'h agent_config \<Rightarrow> nat \<Rightarrow> nat \<Rightarrow> bool \<Rightarrow> string \<Rightarrow> ('h, review_result) agent_act" where
  "review_steps x 0 n ok context = act_ret (RR_Decided step_limit_decision n ok)"
| "review_steps x (Suc steps) n ok context =
     act_bind (act_try (on_agent_env (ag_complete x (Review_Request context)))
       (\<lambda>raw. act_ret (Inr raw)) (\<lambda>e. if e = Tool_Cancelled then act_raise e else act_ret (Inl e))) (\<lambda>reply.
       case reply of
         Inl e \<Rightarrow> act_ret (RR_Failed e)
       | Inr raw \<Rightarrow>
           (case parse_review_action (ag_loads x) raw of
              RA_Verdict d \<Rightarrow> act_ret (RR_Decided d n ok)
            | RA_Tool name args \<Rightarrow>
                act_bind (execute_review_tool x name args) (\<lambda>result.
                  act_then (act_when (shell_verified name result) (act_modify (\<lambda>w. w\<lparr>aw_verified := True\<rparr>)))
                    (review_steps x steps (Suc n) (ok \<or> shell_verified name result)
                      (context @ tool_note (Suc n) name args result)))
            | RA_Invalid msg \<Rightarrow> review_steps x steps n ok (context @ nl @ nl @ msg)))"

text \<open>The two gates of the program.\<close>

definition review_gate ::
  "string list \<Rightarrow> bool \<Rightarrow> bool \<Rightarrow> bool \<Rightarrow> string list \<Rightarrow> review_decision \<Rightarrow> review_decision" where
  "review_gate extra wrote verified shell_ok obstacles d =
     (if rd_verdict d = ''finalize'' \<and> wrote \<and> \<not> verified \<and> \<not> shell_ok then
        decision ''redirect''
          (''finalize rejected by runtime gate: this run performed write/shell '' @
           ''actions but no verification (test/compile/syntax check) has passed. '' @
           ''Run a verification action and include its result in evidence before finishing.'')
          ''verification_gate_unpassed''
      else if rd_verdict d = ''finalize'' \<and> obstacles \<noteq> [] \<and> \<not> check_rebuttals extra (rd_feedback d) then
        decision ''redirect''
          (''finalize rejected: the runtime listed obstacles that must be '' @
           ''rebutted with evidence before finishing. Obstacles: '' @ py_join ''; '' obstacles)
          ''unrebutted_obstacles''
      else d)"

definition audit_record ::
  "nat \<Rightarrow> string \<Rightarrow> review_decision \<Rightarrow> string list \<Rightarrow> (string \<times> json) list \<Rightarrow> json" where
  "audit_record seq trigger d obstacles counters =
     JObj ([(''seq'', JInt (int seq)), (''trigger'', JStr trigger), (''verdict'', JStr (rd_verdict d)),
       (''feedback'', JStr (take 1000 (rd_feedback d))), (''reason'', JStr (take 500 (rd_reason d))),
       (''obstacles'', JList (map JStr obstacles))] @ counters @ [(''failed'', JBool (rd_failed d))])"

definition audit_review ::
  "'h agent_config \<Rightarrow> string \<Rightarrow> review_decision \<Rightarrow> string list \<Rightarrow> (string \<times> json) list \<Rightarrow>
   ('h, review_decision) agent_act" where
  "audit_review x trigger d obstacles counters =
     act_then (on_task (\<lambda>t. t\<lparr>ts_review_audit := ts_review_audit t @
         [audit_record (length (ts_review_audit t) + 1) trigger d obstacles counters]\<rparr>))
       (act_then (save x) (act_ret d))"

definition failed_decision :: "'h agent_config \<Rightarrow> tool_exn \<Rightarrow> review_decision" where
  "failed_decision x e = (decision ''continue'' [] (''review model call failed: '' @ ag_exn_name x e))\<lparr>rd_failed := True\<rparr>"

text \<open>What the reviewer is asked, and the review.\<close>

definition review_prompt :: "'h agent_config \<Rightarrow> string \<Rightarrow> bool \<Rightarrow> bool \<Rightarrow> string \<Rightarrow> 'h agent_world \<Rightarrow> string" where
  "review_prompt x request wrote verified prior w =
     ag_review_prompt x (aw_exec w) (aw_task w) request wrote prior (build_review_obstacles (aw_task w) wrote verified)"

definition run_review :: "'h agent_config \<Rightarrow> string \<Rightarrow> string \<Rightarrow> bool \<Rightarrow> bool \<Rightarrow> string \<Rightarrow> ('h, review_decision) agent_act" where
  "run_review x request trigger wrote verified prior =
     act_bind (act_get id) (\<lambda>w.
       let obstacles = build_review_obstacles (aw_task w) wrote verified in
       act_bind (review_steps x REVIEW_MAX_STEPS 0 False (review_prompt x request wrote verified prior w)) (\<lambda>r.
         case r of
           RR_Failed e \<Rightarrow>
             act_then (trace x ''review_failed'') (audit_review x trigger (failed_decision x e) obstacles [])
         | RR_Decided d n ok \<Rightarrow>
             (let gated = review_gate (ag_rebuttals x) wrote (verified \<or> aw_verified w) ok obstacles d in
              act_then (out x (A_Review trigger (rd_verdict gated)))
                (audit_review x trigger gated obstacles
                  [(''tool_rounds'', JInt (int n)), (''review_shell_ok'', JBool ok)]))))"

text \<open>\<open>_maybe_run_review\<close> and \<open>_apply_review_completed_steps\<close> of the loop.\<close>

definition maybe_run_review :: "'h agent_config \<Rightarrow> string \<Rightarrow> string \<Rightarrow> bool \<Rightarrow> bool \<Rightarrow> string \<Rightarrow> ('h, review_decision) agent_act" where
  "maybe_run_review x request trigger wrote verified prior =
     (if \<not> ag_feature x ''review_subagent'' then act_ret (decision ''continue'' [] ''review_subagent_disabled'')
      else run_review x request trigger wrote verified prior)"

definition apply_step :: "'h agent_config \<Rightarrow> string \<Rightarrow> ('h, unit) agent_act" where
  "apply_step x goal = act_then (on_task (complete_item goal)) (trace x ''checklist_item_checked'')"

fun apply_steps :: "'h agent_config \<Rightarrow> bool \<Rightarrow> string list \<Rightarrow> ('h, bool) agent_act" where
  "apply_steps x checked [] = act_ret checked"
| "apply_steps x checked (goal # goals) =
     act_bind (act_get aw_task) (\<lambda>t.
       let g = py_strip goal in
       if g \<in> set (ts_checklist t) \<and> g \<notin> set (ts_completed_items t)
       then act_then (apply_step x g) (apply_steps x True goals)
       else apply_steps x checked goals)"

definition apply_review_completed_steps :: "'h agent_config \<Rightarrow> review_decision \<Rightarrow> ('h, unit) agent_act" where
  "apply_review_completed_steps x d =
     act_bind (apply_steps x False (rd_steps d)) (\<lambda>checked.
       act_when checked (act_then (save x) (show_state x ''checklist_progress'')))"

section \<open>What a verdict rests on\<close>

lemma on_agent_env_wp: "(\<And>r h. m (ex_env (aw_exec w)) = (r, h) \<Longrightarrow>
    (case r of Inl e \<Rightarrow> E e (w\<lparr>aw_exec := (aw_exec w)\<lparr>ex_env := h\<rparr>\<rparr>) | Inr a \<Rightarrow> Q a (w\<lparr>aw_exec := (aw_exec w)\<lparr>ex_env := h\<rparr>\<rparr>)))
   \<Longrightarrow> act_wp (on_agent_env m) Q E w"
  by (auto simp: act_wp_def on_agent_env_def split: prod.splits sum.splits)

lemma review_gate_finalize:
  assumes "rd_verdict (review_gate extra wrote verified ok obs d) = ''finalize''"
  shows "(wrote \<longrightarrow> verified \<or> ok) \<and>
    (obs \<noteq> [] \<longrightarrow> check_rebuttals extra (rd_feedback (review_gate extra wrote verified ok obs d)))"
  using assms by (auto simp: review_gate_def decision_def split: if_splits)

text \<open>
  \<open>review_runs x k n ctx w name args result\<close>: the conversation that starts in the world \<open>w\<close> calls the
  tool \<open>name\<close>, at once or after other calls and invalid replies, and the call gives this result.
\<close>

inductive review_runs ::
  "'h agent_config \<Rightarrow> nat \<Rightarrow> nat \<Rightarrow> string \<Rightarrow> 'h agent_world \<Rightarrow> string \<Rightarrow> json \<Rightarrow> string \<Rightarrow> bool"
  for x :: "'h agent_config" where
  Call: "on_agent_env (ag_complete x (Review_Request ctx)) w = (Inr raw, w1) \<Longrightarrow>
    parse_review_action (ag_loads x) raw = RA_Tool name args \<Longrightarrow>
    execute_review_tool x name args w1 = (Inr result, w2) \<Longrightarrow> review_runs x (Suc k) n ctx w name args result"
| After_Call: "on_agent_env (ag_complete x (Review_Request ctx)) w = (Inr raw, w1) \<Longrightarrow>
    parse_review_action (ag_loads x) raw = RA_Tool nm as \<Longrightarrow>
    execute_review_tool x nm as w1 = (Inr res, w2) \<Longrightarrow>
    review_runs x k (Suc n) (ctx @ tool_note (Suc n) nm as res)
      (if shell_verified nm res then w2\<lparr>aw_verified := True\<rparr> else w2) name args result \<Longrightarrow>
    review_runs x (Suc k) n ctx w name args result"
| After_Invalid: "on_agent_env (ag_complete x (Review_Request ctx)) w = (Inr raw, w1) \<Longrightarrow>
    parse_review_action (ag_loads x) raw = RA_Invalid msg \<Longrightarrow>
    review_runs x k n (ctx @ nl @ nl @ msg) w1 name args result \<Longrightarrow> review_runs x (Suc k) n ctx w name args result"

definition shell_passed :: "'h agent_config \<Rightarrow> nat \<Rightarrow> nat \<Rightarrow> string \<Rightarrow> 'h agent_world \<Rightarrow> bool" where
  "shell_passed x k n ctx w \<longleftrightarrow>
     (\<exists>args result. review_runs x k n ctx w ''run_shell'' args result \<and> says_exit_zero result)"

lemma review_steps_ok:
  fixes x :: "'h agent_config" and w :: "'h agent_world"
  shows "act_wp (review_steps x k n ok ctx)
     (\<lambda>r _. case r of RR_Decided _ _ ok' \<Rightarrow> ok' \<longrightarrow> ok \<or> shell_passed x k n ctx w | RR_Failed _ \<Rightarrow> True) (\<lambda>_ _. True) w"
proof (induction k arbitrary: n ok ctx w)
  case (0 n ok ctx w)
  show ?case by (simp add: wp_simps)
next
  case (Suc k n ok ctx w)
  let ?Q = "\<lambda>r _. case r of RR_Decided _ _ ok' \<Rightarrow> ok' \<longrightarrow> ok \<or> shell_passed x (Suc k) n ctx w | RR_Failed _ \<Rightarrow> True"
  let ?ask = "on_agent_env (ag_complete x (Review_Request ctx))"
  have tool: "act_wp (execute_review_tool x name args)
      (\<lambda>result. act_wp (act_when (shell_verified name result) (act_modify (aw_verified_update (\<lambda>_. True))))
          (\<lambda>_. act_wp (review_steps x k (Suc n) (ok \<or> shell_verified name result) (ctx @ tool_note (Suc n) name args result)) ?Q (\<lambda>_ _. True))
          (\<lambda>_ _. True)) (\<lambda>_ _. True) v"
    if ask: "?ask w = (Inr raw, v)" "parse_review_action (ag_loads x) raw = RA_Tool name args" for name args raw v
  proof (rule act_wpI, goal_cases)
    case (1 result u)
    let ?u = "if shell_verified name result then u\<lparr>aw_verified := True\<rparr> else u"
    have now: "shell_passed x (Suc k) n ctx w" if "shell_verified name result"
      using that Call [OF ask 1] unfolding shell_passed_def shell_verified_def by blast
    have later: "shell_passed x (Suc k) n ctx w" if "shell_passed x k (Suc n) (ctx @ tool_note (Suc n) name args result) ?u"
      using that After_Call [OF ask 1] unfolding shell_passed_def by blast
    have "act_wp (review_steps x k (Suc n) (ok \<or> shell_verified name result) (ctx @ tool_note (Suc n) name args result)) ?Q (\<lambda>_ _. True) ?u"
      by (rule act_wp_conseq [OF Suc.IH]) (use now later in \<open>auto split: review_result.splits\<close>)
    then show ?case by (simp add: wp_simps split: if_splits)
  qed simp
  have again: "act_wp (review_steps x k n ok (ctx @ nl @ nl @ msg)) ?Q (\<lambda>_ _. True) v"
    if ask: "?ask w = (Inr raw, v)" "parse_review_action (ag_loads x) raw = RA_Invalid msg" for msg raw v
  proof -
    have "shell_passed x (Suc k) n ctx w" if "shell_passed x k n (ctx @ nl @ nl @ msg) v"
      using that After_Invalid [OF ask] unfolding shell_passed_def by blast
    then show ?thesis by (intro act_wp_conseq [OF Suc.IH]) (auto split: review_result.splits)
  qed
  have reply: "act_wp ?ask (\<lambda>raw v. ?ask w = (Inr raw, v)) (\<lambda>_ _. True) w"
    by (simp add: act_wp_def split: prod.split sum.split)
  show ?case
    unfolding review_steps.simps act_wp_bind act_wp_try
    by (rule act_wp_conseq [OF reply])
      (auto simp: wp_simps intro: tool again split: review_action.split)
qed

lemma out_wp: "(\<And>s. Q () s) \<Longrightarrow> act_wp (out x e) Q (\<lambda>_ _. True) w"
  by (auto simp: out_def note_event_def wp_simps intro!: on_agent_env_wp split: sum.split)

lemma audit_review_wp:
  "(\<And>s. Q d s) \<Longrightarrow> act_wp (audit_review x trigger d obs counters) Q (\<lambda>_ _. True) w"
  by (simp add: audit_review_def on_task_def wp_simps out_wp)

lemma run_review_checked:
  assumes "run_review x request trigger wrote verified prior w = (Inr d, w')" and "rd_verdict d = ''finalize''"
  shows "(wrote \<and> \<not> verified \<and> \<not> aw_verified w \<longrightarrow>
       shell_passed x REVIEW_MAX_STEPS 0 (review_prompt x request wrote verified prior w) w) \<and>
    (build_review_obstacles (aw_task w) wrote verified \<noteq> [] \<longrightarrow> check_rebuttals (ag_rebuttals x) (rd_feedback d))"
proof -
  let ?obs = "build_review_obstacles (aw_task w) wrote verified"
  let ?passed = "shell_passed x REVIEW_MAX_STEPS 0 (review_prompt x request wrote verified prior w) w"
  let ?Q = "\<lambda>d _. rd_verdict d = ''finalize'' \<longrightarrow>
    (wrote \<and> \<not> verified \<and> \<not> aw_verified w \<longrightarrow> ?passed) \<and> (?obs \<noteq> [] \<longrightarrow> check_rebuttals (ag_rebuttals x) (rd_feedback d))"
  have "act_wp (run_review x request trigger wrote verified prior) ?Q (\<lambda>_ _. True) w"
    unfolding run_review_def Let_def act_wp_bind act_wp_get
    by (rule act_wp_conseq [OF review_steps_ok])
      (auto simp: act_wp_then failed_decision_def decision_def split: review_result.split
        intro!: out_wp audit_review_wp dest!: review_gate_finalize)
  with assms show ?thesis by (auto dest: act_wp_retD)
qed

text \<open>
  C21. A review ends in \<open>finalize\<close> only past both gates.  When the run has changed files and no check
  is known to have passed, a shell command that this review itself ran, in its own conversation and
  from the world it started in, printed \<open>exit_code: 0\<close>.  When there are obstacles, the feedback
  contains one of the keywords of evidence.
\<close>

theorem finalize_is_checked:
  assumes "run_review x request trigger wrote verified prior w = (Inr d, w')" and "rd_verdict d = ''finalize''"
  shows "(wrote \<and> \<not> verified \<and> \<not> aw_verified w \<longrightarrow>
       (\<exists>args result. says_exit_zero result \<and>
          review_runs x REVIEW_MAX_STEPS 0 (review_prompt x request wrote verified prior w) w ''run_shell'' args result)) \<and>
    (build_review_obstacles (aw_task w) wrote verified \<noteq> [] \<longrightarrow>
       list_ex (\<lambda>k. contains k (py_lower (rd_feedback d))) (REBUTTALS @ ag_rebuttals x))"
  using run_review_checked [OF assms] by (auto simp: shell_passed_def check_rebuttals_def)

text \<open>
  The gate takes a command as successful when its text contains \<open>exit_code: 0\<close> anywhere.
\<close>

text \<open>
  Cn. A command that fails but prints \<open>exit_code: 0\<close> counts as a passed verification, for the
  reviews and for the acceptance criteria of the checklist.
\<close>

theorem failed_command_verifies:
  "exit_code_of (shell_text 20 (sample_shell 1 ''exit_code: 0'')) = 1 \<and>
   shell_verified ''run_shell'' (clip (shell_text 20 (sample_shell 1 ''exit_code: 0'')) 4000)"
proof -
  have t: "shell_text 20 (sample_shell 1 ''exit_code: 0'') =
      ''exit_code: 1'' @ nl @ ''stdout:'' @ nl @ ''exit_code: 0'' @ nl @ ''stderr:'' @ nl @ ''(empty)''"
    by (simp add: shell_text_def sample_shell_def int_str_def nat_str.simps indent8_def or_empty_def py_strip_def
        is_space_def nl_eq py_dedent_def margin_def blank_line_def is_blank_def starts_with_def Let_def)
  show ?thesis
    unfolding t
    by (simp add: shell_verified_def says_exit_zero_def clip_def exit_code_of_def match_int_def is_digit_def
        digits_value_def is_space_def nl_eq starts_with_def Let_def)
qed

section \<open>The tools of a review and approvals\<close>

text \<open>
  A review runs the shell command its model names without asking anybody: whatever the decision
  function of the run says, the command changes the workspace, and the executor logs nothing.
\<close>

theorem review_shell_unasked:
  fixes w :: "'h agent_world"
  assumes "xc_tools (ag_exec x) = build_tools (xc_context (ag_exec x))"
    and "tc_shell (xc_context (ag_exec x)) (py_strip command) 20 (ex_ws (aw_exec w)) = (Inr r, ws)"
    and "py_strip command \<noteq> []" and "sh_cleaned r" and "\<not> sh_cancelled r"
  shows "execute_review_tool x ''run_shell'' (JObj [(''command'', JStr command)]) w =
    (Inr (clip (shell_text 20 r) 4000),
     w\<lparr>aw_exec := (aw_exec w)\<lparr>ex_ws := ws, ex_task := Some (aw_task w)\<rparr>\<rparr>)"
proof -
  let ?c = "xc_context (ag_exec x)"
  have tool: "obj_get (build_tools ?c) ''run_shell'' = Some \<lparr>tl_risky = True, tl_run = tool_run_shell ?c\<rparr>"
    by (simp add: build_tools_def TOOL_RUNNERS_def BASE_TOOL_SPECS_def)
  have args: "shell_args ?c [(''command'', JStr command)] v = (Inr (py_strip command, 20), v)" for v
    using assms(3) by (simp add: shell_args_def get_str_def get_default_def py_str_JStr int_arg_def check_def act_defs)
  show ?thesis
    using assms(2,4,5)
    by (simp add: execute_review_tool_def REVIEW_ALLOWED_TOOLS_def assms(1) tool review_tool_run_def on_exec_def on_ws_def
        validate_tool_def tool_run_shell_def args shell_outcome_def act_defs)
qed

section \<open>An example\<close>

text \<open>A runtime whose model gives a list of answers, whose shell writes a file and that approves nothing.\<close>

definition answering :: "model_request \<Rightarrow> (json list, json) env_act" where
  "answering _ answers = (case answers of [] \<Rightarrow> (Inl (Tool_Error Os_Error []), []) | a # r \<Rightarrow> (Inr a, r))"

definition writing_shell :: tool_context where
  "writing_shell = sample_context\<lparr>tc_shell := (\<lambda>command t w.
     (Inr (sample_shell 0 command), with_file [''w'', ''out''] command w))\<rparr>"

definition refusing_exec :: "json list exec_config" where
  "refusing_exec = \<lparr>xc_context = writing_shell, xc_tools = build_tools writing_shell, xc_allowed = None,
     xc_read_only = False, xc_digest = (\<lambda>t. t), xc_fingerprint = (\<lambda>_. []), xc_example = (\<lambda>_. []),
     xc_decide = (\<lambda>_. act_ret O_Rejected), xc_requested = (\<lambda>_ _ _. act_ret ()), xc_check_cancelled = act_ret (),
     xc_before = (\<lambda>_ _ _. act_ret ()), xc_after = (\<lambda>_. act_ret ()), xc_violation = (\<lambda>_ _ _. act_ret ()),
     xc_memory = (\<lambda>_ _ _. act_ret ()), xc_note = (\<lambda>_ _. act_ret ())\<rparr>"

definition sample_loads :: "string \<Rightarrow> json option" where
  "sample_loads s =
     (if s = ''{check}'' then
        Some (JObj [(''name'', JStr ''run_shell''), (''args'', JObj [(''command'', JStr ''make test'')])])
      else if s = ''{done}'' then
        Some (JObj [(''verdict'', JStr ''finalize''), (''feedback'', JStr ''tests pass'')])
      else if s = ''{go}'' then Some (JObj [(''verdict'', JStr ''continue''), (''feedback'', JStr [])])
      else None)"

definition sample_agent :: "json list agent_config" where
  "sample_agent = \<lparr>ag_exec = refusing_exec, ag_out = (\<lambda>_ _. act_ret ()), ag_checkpoint = (\<lambda>_ _. act_ret ''ck''),
     ag_complete = answering, ag_usage = (\<lambda>_. (1, 1)),
     ag_prompt = (\<lambda>_. act_ret \<lparr>pi_text = [], pi_resume = [], pi_reduced = False\<rparr>),
     ag_before_model = (\<lambda>_. act_ret ()), ag_after_model = (\<lambda>_. act_ret ()), ag_summarize = (\<lambda>_ _ _. act_ret []),
     ag_promote = (\<lambda>_ _. act_ret ()), ag_fresh = act_ret ''call_1'', ag_now = (\<lambda>_. []), ag_elapsed = (\<lambda>_. 0),
     ag_loads = sample_loads, ag_best_effort = (\<lambda>reason _. reason), ag_summary_prompt = (\<lambda>_. []),
     ag_interrupted = (\<lambda>reason text. reason @ text), ag_review_prompt = (\<lambda>_ _ _ _ _ _. []),
     ag_plan_prompt = (\<lambda>_ _ _ _. []), ag_exn_name = (\<lambda>_. ''OSError''), ag_rebuttals = [], ag_read_hint = [],
     ag_task_summary = (\<lambda>_. act_ret ()), ag_resume_status = (\<lambda>_. ''no-checkpoint''),
     ag_read_limit = 4, ag_total_limit = None, ag_feature = (\<lambda>f. f = ''review_subagent''),
     ag_allow_checkpoint = False, ag_allow_memory = False, ag_max_steps = 6, ag_max_elapsed = 3600,
     ag_max_tokens = 500000\<rparr>"

definition sample_world :: "json list \<Rightarrow> json list agent_world" where
  "sample_world answers = \<lparr>aw_exec = \<lparr>ex_ws = sample_ws, ex_task = None, ex_history = [], ex_log = [], ex_env = answers\<rparr>,
     aw_task = new_task_state ''r'' ''t'' ''do it'', aw_verified = False, aw_log = []\<rparr>"

lemma sample_agent_simps [simp]:
  "xc_context refusing_exec = writing_shell" "xc_tools refusing_exec = build_tools writing_shell"
  "xc_check_cancelled refusing_exec = act_ret ()"
  "ag_exec sample_agent = refusing_exec" "ag_complete sample_agent = answering" "ag_loads sample_agent = sample_loads"
  "ag_out sample_agent e t = act_ret ()" "ag_feature sample_agent f \<longleftrightarrow> f = ''review_subagent''"
  "answering q [] = (Inl (Tool_Error Os_Error []), [])" "answering q (a # r) = (Inr a, r)"
  "tc_shell writing_shell command n w = (Inr (sample_shell 0 command), with_file [''w'', ''out''] command w)"
  by (simp_all add: refusing_exec_def sample_agent_def answering_def writing_shell_def)

lemma sample_world_simps [simp]:
  "aw_task (sample_world as) = new_task_state ''r'' ''t'' ''do it''" "ex_env (aw_exec (sample_world as)) = as"
  "ex_ws (aw_exec (sample_world as)) = sample_ws" "aw_verified (sample_world as) = False"
  by (simp_all add: sample_world_def)

theorem review_shell_unasked_witness:
  "\<exists>r. execute_review_tool sample_agent ''run_shell'' (JObj [(''command'', JStr ''make test'')]) (sample_world []) =
    (Inr (clip (shell_text 20 r) 4000),
     (sample_world [])\<lparr>aw_exec := (aw_exec (sample_world []))
       \<lparr>ex_ws := with_file [''w'', ''out''] ''make test'' sample_ws, ex_task := Some (aw_task (sample_world []))\<rparr>\<rparr>)"
  by (rule exI [of _ "sample_shell 0 ''make test''"], rule review_shell_unasked)
    (simp_all add: py_strip_def is_space_def sample_shell_def)

lemma sample_shell_text:
  "shell_text 20 (sample_shell 0 ''make test'') =
     ''exit_code: 0'' @ nl @ ''stdout:'' @ nl @ ''make test'' @ nl @ ''stderr:'' @ nl @ ''(empty)''"
  by (simp add: shell_text_def sample_shell_def int_str_def nat_str.simps indent8_def or_empty_def py_strip_def
      is_space_def nl_eq py_dedent_def margin_def blank_line_def is_blank_def starts_with_def Let_def)

lemma sample_review_shell:
  "ex_ws (aw_exec w) = ws \<Longrightarrow>
   execute_review_tool sample_agent ''run_shell'' (JObj [(''command'', JStr ''make test'')]) w =
    (Inr (''exit_code: 0'' @ nl @ ''stdout:'' @ nl @ ''make test'' @ nl @ ''stderr:'' @ nl @ ''(empty)''),
     w\<lparr>aw_exec := (aw_exec w)\<lparr>ex_ws := with_file [''w'', ''out''] ''make test'' ws, ex_task := Some (aw_task w)\<rparr>\<rparr>)"
  by (subst review_shell_unasked [of _ _ _ "sample_shell 0 ''make test''"])
    (simp_all add: py_strip_def is_space_def sample_shell_def sample_shell_text [unfolded sample_shell_def] clip_def nl_eq)

lemma sample_actions:
  "parse_review_action sample_loads (JStr ''{check}'') = RA_Tool ''run_shell'' (JObj [(''command'', JStr ''make test'')])"
  "parse_review_action sample_loads (JStr ''{done}'') =
     RA_Verdict \<lparr>rd_verdict = ''finalize'', rd_feedback = ''tests pass'', rd_reason = [], rd_steps = [], rd_failed = False\<rparr>"
  "parse_review_action sample_loads (JStr ''{go}'') =
     RA_Verdict \<lparr>rd_verdict = ''continue'', rd_feedback = [], rd_reason = [], rd_steps = [], rd_failed = False\<rparr>"
  by (simp_all add: parse_review_action_def text_or_empty_def py_str_JStr py_strip_def is_space_def tagged_review_tool_def
      match_tool_def sample_loads_def open_unfence_def fence_def numeral_3_eq_3 get_default_def parse_review_output_def
      parsed_verdict_def get_str_def py_lower_def lower_char_def REVIEW_VERDICTS_def Let_def)

lemma sample_review:
  "\<exists>w'. run_review sample_agent ''do it'' ''final_before'' True False []
       (sample_world [JStr ''{check}'', JStr ''{done}'']) =
     (Inr \<lparr>rd_verdict = ''finalize'', rd_feedback = ''tests pass'', rd_reason = [], rd_steps = [], rd_failed = False\<rparr>, w') \<and>
     \<not> ts_requires_post_tool_reasoning (aw_task w')"
  "\<exists>w'. run_review sample_agent ''do it'' ''final_before'' True False [] (sample_world [JStr ''{go}'']) =
     (Inr \<lparr>rd_verdict = ''continue'', rd_feedback = [], rd_reason = [], rd_steps = [], rd_failed = False\<rparr>, w') \<and>
     \<not> ts_requires_post_tool_reasoning (aw_task w')"
  by (simp_all add: run_review_def Let_def act_defs eval_nat_numeral REVIEW_MAX_STEPS_def on_agent_env_def sample_actions
      sample_review_shell shell_verified_def says_exit_zero_def nl_eq review_gate_def review_prompt_def check_rebuttals_def REBUTTALS_def
      py_lower_def lower_char_def audit_review_def out_def note_event_def on_task_def
      new_task_state_def)

theorem finalize_is_checked_witness:
  "(\<exists>args result. says_exit_zero result \<and>
      review_runs sample_agent REVIEW_MAX_STEPS 0
        (review_prompt sample_agent ''do it'' True False [] (sample_world [JStr ''{check}'', JStr ''{done}'']))
        (sample_world [JStr ''{check}'', JStr ''{done}'']) ''run_shell'' args result) \<and>
    list_ex (\<lambda>k. contains k (py_lower ''tests pass'')) (REBUTTALS @ ag_rebuttals sample_agent)"
proof -
  let ?w = "sample_world [JStr ''{check}'', JStr ''{done}'']"
  obtain d w' where r: "run_review sample_agent ''do it'' ''final_before'' True False [] ?w = (Inr d, w')"
    and d: "rd_verdict d = ''finalize''" "rd_feedback d = ''tests pass''"
    using sample_review(1) by force
  from finalize_is_checked [OF r d(1)] d(2) show ?thesis by (simp add: build_review_obstacles_def)
qed

end
