(* ===== verification/Agent_Loop.thy ===== *)
theory Agent_Loop
  imports Review_Run
begin

text \<open>
  The control loop of the agent (\<open>AgentLoop\<close> in \<open>pico/agent_loop.py\<close>): a request to the model per
  round, its tool calls, the reviews, and the ways a run ends.

  The locals of \<open>_run_loop\<close> are a record; every part of the body maps them to a decision (go on,
  leave the loop, return an answer) and their new values, as code that acts on the world of the
  runtime and may raise.  The concurrent calls of a batch run one after the other in the order of
  their declaration; \<open>Batch_Order\<close> shows that this order gives what every other one gives.  The
  keyword arguments of the model client other than \<open>finalization_only\<close>, the queue of recent tool
  names, which nothing reads, and the payloads of the trace are left out; texts that the code has
  in Chinese are arguments.
\<close>

section \<open>Constants and locals\<close>

definition MAX_CONSECUTIVE_TALKS :: nat where "MAX_CONSECUTIVE_TALKS = 2"
definition MAX_PROTOCOL_REPAIRS :: nat where "MAX_PROTOCOL_REPAIRS = 1"
definition MAX_ATTEMPTS_SAFETY :: nat where "MAX_ATTEMPTS_SAFETY = 500"
definition STAGNATION_TOLERANCE :: nat where "STAGNATION_TOLERANCE = 3"
definition STAGNATION_WINDOW :: nat where "STAGNATION_WINDOW = 6"

definition stagnation_threshold :: "int \<Rightarrow> nat" where
  "stagnation_threshold remaining_turns = STAGNATION_TOLERANCE"

record loop_vars =
  lv_tool_steps :: int
  lv_attempts :: nat
  lv_talks :: nat
  lv_repairs :: nat
  lv_feedback :: string
  lv_protocol_failed :: bool
  lv_finalization_attempted :: bool
  lv_final_only :: bool
  lv_window :: "fp_entry list"
  lv_prev_end :: "(nat \<times> nat) option"
  lv_called :: bool
  lv_repeated :: bool
  lv_talked :: bool
  lv_rejected :: bool
  lv_actions :: nat
  lv_rejected_rounds :: nat
  lv_since_review :: nat
  lv_wrote :: bool
  lv_verified :: bool
  lv_prior :: string
  lv_awaiting :: bool
  lv_interval :: nat
  lv_tracking :: nat
  lv_pending :: "review_decision option"
  lv_battles :: nat
  lv_cmds :: cmd_cache
  lv_tools :: "tool_item list option"

definition loop_start :: loop_vars where
  "loop_start = \<lparr>lv_tool_steps = 0, lv_attempts = 0, lv_talks = 0, lv_repairs = 0, lv_feedback = [],
     lv_protocol_failed = False, lv_finalization_attempted = False, lv_final_only = False, lv_window = [],
     lv_prev_end = None, lv_called = False, lv_repeated = False, lv_talked = False, lv_rejected = False,
     lv_actions = 0, lv_rejected_rounds = 0, lv_since_review = 0, lv_wrote = False, lv_verified = False,
     lv_prior = [], lv_awaiting = False, lv_interval = REVIEW_POLL_ACTIONS, lv_tracking = 0, lv_pending = None,
     lv_battles = 0, lv_cmds = [], lv_tools = None\<rparr>"

datatype flow =
    Go_On
  | Leave
  | Answer string

type_synonym 'h round_act = "('h, flow \<times> loop_vars) agent_act"

definition last_n :: "nat \<Rightarrow> 'a list \<Rightarrow> 'a list" where
  "last_n n xs = drop (length xs - n) xs"

section \<open>One tool action\<close>

definition metadata_paths :: "tool_result \<Rightarrow> string list" where
  "metadata_paths r =
     (case get_default (tr_metadata r) ''affected_paths'' (JList []) of JList xs \<Rightarrow> map py_str xs | _ \<Rightarrow> [])"

definition requested_path :: "json \<Rightarrow> string list" where
  "requested_path args =
     (case get_none (dict_or_empty args) ''path'' of
        JStr p \<Rightarrow> (if py_strip p \<noteq> [] then [slashes (py_strip p)] else []) | _ \<Rightarrow> [])"

definition evidence_of :: "string \<Rightarrow> string \<Rightarrow> json \<Rightarrow> tool_result \<Rightarrow> string \<Rightarrow> json" where
  "evidence_of call_id name args r summary =
     (let affected = metadata_paths r in
      JObj [(''tool_call_id'', JStr call_id), (''tool_name'', JStr name), (''status'', JStr (tool_status r)),
        (''read_only'', JBool (get_bool (tr_metadata r) ''read_only'')),
        (''affected_paths'', JList (map JStr affected)),
        (''relative_paths'', JList (map JStr (sorted_list_of_set (set (affected @ requested_path args))))),
        (''freshness'', JStr ''current_run''), (''sensitivity'', JStr ''workspace''), (''summary'', JStr summary)])"

definition add_evidence :: "'h agent_config \<Rightarrow> string \<Rightarrow> string \<Rightarrow> json \<Rightarrow> tool_result \<Rightarrow> ('h, unit) agent_act" where
  "add_evidence x call_id name args r =
     act_bind (on_agent_env (ag_summarize x name args r)) (\<lambda>summary.
     act_bind (on_agent_env (ag_fresh x)) (\<lambda>eid.
     act_bind (act_get (\<lambda>w. ag_now x (ex_env (aw_exec w)))) (\<lambda>now.
       try_task (record_evidence eid now (evidence_of call_id name args r summary)))))"

definition succeeded :: "tool_result \<Rightarrow> bool" where
  "succeeded r \<longleftrightarrow> tool_status r \<in> {''ok'', ''partial_success''}"

definition checkpoint_and_trace :: "'h agent_config \<Rightarrow> string \<Rightarrow> ('h, unit) agent_act" where
  "checkpoint_and_trace x trigger =
     act_then (make_checkpoint x trigger) (act_then (save x) (trace x ''checkpoint_created''))"

text \<open>What \<open>_commit_tool_action\<close> does after the repetition check: whether it repeats and the new window.\<close>

definition report_tool :: "'h agent_config \<Rightarrow> string \<Rightarrow> json \<Rightarrow> tool_result \<Rightarrow> ('h, unit) agent_act" where
  "report_tool x name args r =
     act_bind (on_agent_env (ag_summarize x name args r)) (\<lambda>_.
     act_then (try_task (begin_post_tool_reasoning name))
      (act_then (record_item x ''tool'' (tr_content r) [(''name'', JStr name), (''args'', args)])
       (act_then (save x)
        (act_then (trace x ''tool_executed'')
         (act_then (act_when (ag_allow_checkpoint x) (checkpoint_and_trace x ''tool_executed''))
          (act_then (trace x ''post_tool_reasoning'')
           (act_then (try_task (finish_post_tool_reasoning ''continue''))
            (act_then (save x) (show_state x ''post_tool_reasoning'')))))))))"

definition commit_tool_action ::
  "'h agent_config \<Rightarrow> string \<Rightarrow> json \<Rightarrow> string \<Rightarrow> fp_entry list \<Rightarrow> tool_result \<Rightarrow>
   ('h, bool \<times> fp_entry list) agent_act" where
  "commit_tool_action x name args call_id window r =
     (let fp = result_fingerprint (xc_digest (ag_exec x)) name r in
      act_then (on_task (record_affected_paths (metadata_paths r)))
        (case tool_call_repeats name args fp window of
           Inl e \<Rightarrow> act_raise (Tool_Error e [])
         | Inr repeated \<Rightarrow>
             act_then (act_when (name = ''read_file'' \<and> \<not> repeated) (on_task record_read_file))
               (act_then (act_when (succeeded r \<and> \<not> repeated) (add_evidence x call_id name args r))
                 (act_then (report_tool x name args r)
                   (act_ret (repeated,
                      if repeated then window else window_append window (tool_fingerprint name args, fp)))))))"

definition repeat_refusal :: "'h agent_config \<Rightarrow> string \<Rightarrow> tool_result" where
  "repeat_refusal x name =
     \<lparr>tr_content = ''error: repeated identical call ('' @ name @ ''); '' @
        (if name = ''read_file'' then ag_read_hint x
         else ''use the existing evidence or try a different action''),
      tr_metadata = [(''tool_status'', JStr ''rejected''), (''tool_error_code'', JStr ''repeated_identical_call''),
        (''read_only'', JBool (name \<in> READ_ONLY_TOOL_NAMES)), (''affected_paths'', JList [])]\<rparr>"

text \<open>The part of \<open>_execute_tool_action\<close> that a concurrent call runs (\<open>defer_commit\<close>).\<close>

definition perform_tool ::
  "'h agent_config \<Rightarrow> string \<Rightarrow> json \<Rightarrow> string \<Rightarrow> fp_entry list \<Rightarrow> ('h, tool_result) agent_act" where
  "perform_tool x name args call_id window =
     (case pre_repeat name args window of
        Inl e \<Rightarrow> act_raise (Tool_Error e [])
      | Inr True \<Rightarrow>
          act_then (on_task record_malformed_output_recovered)
            (act_then (trace x ''tool_rejected_repeat'') (act_ret (repeat_refusal x name)))
      | Inr False \<Rightarrow>
          act_then (note_event (A_Tool name)) (on_exec (execute (ag_exec x) name args call_id)))"

definition execute_tool_action ::
  "'h agent_config \<Rightarrow> string \<Rightarrow> json \<Rightarrow> string \<Rightarrow> fp_entry list \<Rightarrow>
   ('h, tool_result \<times> bool \<times> fp_entry list) agent_act" where
  "execute_tool_action x name args call_id window =
     act_bind (perform_tool x name args call_id window) (\<lambda>r.
     act_bind (commit_tool_action x name args call_id window r) (\<lambda>(repeated, window). act_ret (r, repeated, window)))"

section \<open>Reviews between tool calls\<close>

definition redirected :: "'h agent_config \<Rightarrow> string \<Rightarrow> review_decision \<Rightarrow> loop_vars \<Rightarrow> 'h round_act" where
  "redirected x msg d v =
     act_then (act_bind (make_replan x msg (rd_feedback d)) (\<lambda>_. act_ret ()))
       (let v = v\<lparr>lv_prior := rd_feedback d, lv_feedback := rd_feedback d,
                  lv_interval := max 2 (lv_interval v div 2), lv_tracking := lv_tracking v + 1\<rparr>
        in if 2 \<le> lv_tracking v
           then act_then (trace x ''review_tracking_converged'')
                  (act_ret (Leave, v\<lparr>lv_finalization_attempted := True\<rparr>))
           else act_ret (Go_On, v))"

definition poll_review :: "'h agent_config \<Rightarrow> string \<Rightarrow> loop_vars \<Rightarrow> 'h round_act" where
  "poll_review x msg v =
     (if lv_since_review v < lv_interval v then act_ret (Go_On, v)
      else
        act_bind (maybe_run_review x msg ''action_poll'' (lv_wrote v) (lv_verified v) (lv_prior v)) (\<lambda>d.
          act_then (apply_review_completed_steps x d)
            (let v = v\<lparr>lv_since_review := 0\<rparr> in
             if rd_verdict d = ''redirect'' then redirected x msg d v
             else act_ret (Go_On, v\<lparr>lv_interval := REVIEW_POLL_ACTIONS, lv_tracking := 0\<rparr>))))"

text \<open>Calling a tool while the review waits for a confirmation refuses to end; the flag is cleared.\<close>

definition rebut :: "'h agent_config \<Rightarrow> loop_vars \<Rightarrow> ('h, unit) agent_act" where
  "rebut x v = act_when (lv_awaiting v \<and> lv_pending v \<noteq> None) (trace x ''main_loop_rebuttal'')"

definition acting :: "loop_vars \<Rightarrow> loop_vars" where
  "acting v = v\<lparr>lv_awaiting := False, lv_pending := None, lv_talks := 0\<rparr>"

definition tool_round :: "'h agent_config \<Rightarrow> string \<Rightarrow> (string \<times> json) list \<Rightarrow> loop_vars \<Rightarrow> 'h round_act" where
  "tool_round x msg payload v =
     (let name = item_name payload; args = item_raw_args payload in
      act_then (rebut x v)
        (act_then (on_task (record_tool name))
          (act_bind (on_agent_env (ag_fresh x)) (\<lambda>call_id.
            act_bind (execute_tool_action x name args call_id (lv_window v)) (\<lambda>(r, repeated, window).
              let v = acting v in
              poll_review x msg (v\<lparr>lv_tool_steps := lv_tool_steps v + 1, lv_actions := lv_actions v + 1,
                lv_window := window, lv_called := True, lv_repeated := repeated,
                lv_since_review := lv_since_review v + 1,
                lv_wrote := lv_wrote v \<or> tool_counts_as_write name r\<rparr>))))))"

section \<open>Batches\<close>

record executed =
  xd_index :: nat
  xd_name :: string
  xd_args :: json
  xd_call_id :: string
  xd_result :: tool_result

definition perform_item ::
  "'h agent_config \<Rightarrow> fp_entry list \<Rightarrow> nat \<times> tool_item \<Rightarrow> ('h, executed) agent_act" where
  "perform_item x window item =
     (let name = item_name (snd item); args = item_raw_args (snd item) in
      act_bind (on_agent_env (ag_fresh x)) (\<lambda>call_id.
      act_bind (perform_tool x name args call_id window) (\<lambda>r.
        act_ret \<lparr>xd_index = fst item, xd_name = name, xd_args = args, xd_call_id = call_id, xd_result = r\<rparr>)))"

text \<open>
  The thread pool: every call runs to its end, then the first failure in the order of submission is
  raised.
\<close>

fun run_pool ::
  "'h agent_config \<Rightarrow> fp_entry list \<Rightarrow> (nat \<times> tool_item) list \<Rightarrow> ('h, (tool_exn + executed) list) agent_act" where
  "run_pool x window [] = act_ret []"
| "run_pool x window (item # items) =
     act_bind (act_try (perform_item x window item) (\<lambda>r. act_ret (Inr r)) (\<lambda>e. act_ret (Inl e))) (\<lambda>r.
     act_bind (run_pool x window items) (\<lambda>rs. act_ret (r # rs)))"

fun pool_results :: "(tool_exn + executed) list \<Rightarrow> tool_exn + executed list" where
  "pool_results [] = Inr []"
| "pool_results (Inl e # rs) = Inl e"
| "pool_results (Inr r # rs) = res_bind (pool_results rs) (\<lambda>xs. Inr (r # xs))"

definition run_concurrent ::
  "'h agent_config \<Rightarrow> fp_entry list \<Rightarrow> (nat \<times> tool_item) list \<Rightarrow> ('h, executed list) agent_act" where
  "run_concurrent x window items =
     act_bind (run_pool x window items) (\<lambda>rs.
       case pool_results rs of Inl e \<Rightarrow> act_raise e | Inr xs \<Rightarrow> act_ret xs)"

fun run_serial ::
  "'h agent_config \<Rightarrow> fp_entry list \<Rightarrow> (nat \<times> tool_item) list \<Rightarrow> ('h, executed list) agent_act" where
  "run_serial x window [] = act_ret []"
| "run_serial x window (item # items) =
     act_bind (perform_item x window item) (\<lambda>r.
     act_bind (run_serial x window items) (\<lambda>rs. act_ret (r # rs)))"

text \<open>The commits, in the order of declaration: the window, and whether every call was bad.\<close>

fun commit_all ::
  "'h agent_config \<Rightarrow> fp_entry list \<Rightarrow> bool \<Rightarrow> executed list \<Rightarrow> ('h, fp_entry list \<times> bool) agent_act" where
  "commit_all x window all_bad [] = act_ret (window, all_bad)"
| "commit_all x window all_bad (d # ds) =
     act_then (on_task (record_tool (xd_name d)))
       (act_bind (commit_tool_action x (xd_name d) (xd_args d) (xd_call_id d) window (xd_result d)) (\<lambda>(repeated, window).
          act_bind (on_agent_env (ag_summarize x (xd_name d) (xd_args d) (xd_result d))) (\<lambda>_.
            commit_all x window (all_bad \<and> \<not> (succeeded (xd_result d) \<and> \<not> repeated)) ds)))"

definition objects_of :: "json list \<Rightarrow> tool_item list" where
  "objects_of items = map (\<lambda>v. case v of JObj d \<Rightarrow> d | _ \<Rightarrow> []) items"

text \<open>The rebuttal of a batch names the calls of the last batch: the first one has none to name.\<close>

definition rebut_batch :: "'h agent_config \<Rightarrow> loop_vars \<Rightarrow> ('h, unit) agent_act" where
  "rebut_batch x v =
     (if lv_awaiting v \<and> lv_pending v \<noteq> None then
        (case lv_tools v of
           None \<Rightarrow> act_raise (Tool_Error Name_Error [])
         | Some _ \<Rightarrow> trace x ''main_loop_rebuttal'')
      else act_ret ())"

definition run_batch :: "'h agent_config \<Rightarrow> string \<Rightarrow> tool_item list \<Rightarrow> loop_vars \<Rightarrow> 'h round_act" where
  "run_batch x msg tools v =
     (case normalize_batch_reads (dedupe_batch (take MAX_PARALLEL_TOOLS tools)) of
        Inl e \<Rightarrow> act_raise (Tool_Error e [])
      | Inr (items, merged) \<Rightarrow>
          (let (concurrent, serial) = partition_batch_tools items in
           act_then (trace x ''tool_batch_started'')
             (act_bind (run_concurrent x (lv_window v) concurrent) (\<lambda>first.
              act_bind (run_serial x (lv_window v) serial) (\<lambda>second.
              let done = sort_key xd_index (first @ second) in
              act_bind (commit_all x (lv_window v) True done) (\<lambda>(window, all_bad).
              act_then (trace x ''tool_batch_completed'')
                (poll_review x msg (v\<lparr>lv_tools := Some items, lv_window := window,
                   lv_tool_steps := lv_tool_steps v + int (length done),
                   lv_actions := lv_actions v + length done, lv_called := True, lv_repeated := all_bad,
                   lv_since_review := lv_since_review v + length items,
                   lv_wrote := lv_wrote v \<or>
                     list_ex (\<lambda>d. tool_counts_as_write (xd_name d) (xd_result d)) done\<rparr>))))))))"

definition batch_round :: "'h agent_config \<Rightarrow> string \<Rightarrow> json list \<Rightarrow> loop_vars \<Rightarrow> 'h round_act" where
  "batch_round x msg items v =
     act_then (rebut_batch x v)
       (let tools = objects_of items; v = (acting v)\<lparr>lv_tools := Some tools\<rparr> in
        if tools = [] then
          act_then (on_task record_malformed_output_recovered)
            (act_then (trace x ''tool_batch_rejected'') (act_ret (Go_On, v)))
        else run_batch x msg tools v)"

section \<open>Talk and malformed output\<close>

definition act_phase :: "string \<Rightarrow> ('h, unit) agent_act" where
  "act_phase next_step = to_phase ''ACT_OR_ANSWER'' next_step"

definition talk_round :: "'h agent_config \<Rightarrow> string \<Rightarrow> loop_vars \<Rightarrow> 'h round_act" where
  "talk_round x talk v =
     (if MAX_CONSECUTIVE_TALKS \<le> lv_talks v then
        act_then (on_task record_malformed_output_recovered)
          (act_then (act_phase ''Choose a tool or submit a grounded final answer'')
            (act_then (trace x ''talk_rejected'')
              (act_then (save x) (act_then (show_state x ''assistant_commentary'')
                (act_ret (Go_On, v\<lparr>lv_talked := True\<rparr>))))))
      else
        act_then (on_task record_talk)
          (act_then (out x (A_Commentary talk))
            (act_then (trace x ''assistant_commentary'')
              (act_then (act_phase ''Continue with a tool or submit a grounded final answer'')
                (act_then (save x) (act_then (show_state x ''assistant_commentary'')
                  (act_ret (Go_On, v\<lparr>lv_talked := True, lv_talks := lv_talks v + 1\<rparr>))))))))"

definition retry_round :: "'h agent_config \<Rightarrow> string \<Rightarrow> loop_vars \<Rightarrow> 'h round_act" where
  "retry_round x notice v =
     act_then (on_task record_malformed_output_recovered)
       (act_then (act_phase ''Retry with a valid tool call or final answer'')
         (if lv_repairs v < MAX_PROTOCOL_REPAIRS then
            act_then (out x (A_Protocol_Retry (lv_repairs v + 1)))
              (act_then (save x) (act_then (show_state x ''malformed_output_recovered'')
                (act_ret (Go_On, v\<lparr>lv_talks := 0, lv_repairs := lv_repairs v + 1, lv_feedback := notice\<rparr>))))
          else
            act_then (trace x ''model_protocol_failed'')
              (act_ret (Leave, v\<lparr>lv_talks := 0, lv_protocol_failed := True\<rparr>))))"

section \<open>A final answer\<close>

definition read_only_decision :: review_decision where
  "read_only_decision = decision ''finalize'' [] ''read_only_no_result_review''"

definition final_review :: "'h agent_config \<Rightarrow> string \<Rightarrow> loop_vars \<Rightarrow> ('h, review_decision) agent_act" where
  "final_review x msg v =
     (if \<not> lv_wrote v then act_ret read_only_decision
      else maybe_run_review x msg ''final_before'' (lv_wrote v) (lv_verified v) (lv_prior v))"

definition rejected_final :: "string \<Rightarrow> string \<Rightarrow> review_decision \<Rightarrow> json" where
  "rejected_final now content d =
     JObj [(''status'', JStr ''final_rejected''), (''content'', JStr (take 4000 content)),
       (''feedback'', JStr (take 500 (rd_feedback d))), (''reason'', JStr (take 200 (rd_reason d))),
       (''created_at'', JStr now)]"

definition note_rejected :: "'h agent_config \<Rightarrow> string \<Rightarrow> review_decision \<Rightarrow> ('h, unit) agent_act" where
  "note_rejected x payload d =
     act_bind (act_get (\<lambda>w. ag_now x (ex_env (aw_exec w)))) (\<lambda>now.
       act_when (py_strip payload \<noteq> []) (on_task (\<lambda>t. t\<lparr>ts_rejected_finals := ts_rejected_finals t @
         [rejected_final now (py_strip payload) d]\<rparr>)))"

definition reject_final :: "'h agent_config \<Rightarrow> string \<Rightarrow> string \<Rightarrow> review_decision \<Rightarrow> loop_vars \<Rightarrow> 'h round_act" where
  "reject_final x msg payload d v =
     act_then (note_rejected x payload d)
       (act_then (act_phase ''Apply review feedback and converge on a verified final answer'')
         (act_then (trace x ''final_rejected_by_review'')
           (act_then (save x)
             (act_bind (make_replan x msg (rd_feedback d)) (\<lambda>_.
               act_ret (Go_On, v\<lparr>lv_rejected := True, lv_awaiting := False, lv_pending := None,
                                 lv_prior := rd_feedback d\<rparr>))))))"

definition await_confirmation :: "'h agent_config \<Rightarrow> review_decision \<Rightarrow> loop_vars \<Rightarrow> 'h round_act" where
  "await_confirmation x d v =
     act_then (act_phase ''Review approves completion; re-submit final to confirm or keep working'')
       (act_then (trace x ''review_awaiting_confirmation'')
         (act_then (save x)
           (act_ret (Go_On, v\<lparr>lv_awaiting := True, lv_pending := Some d,
              lv_feedback := ''The review approves completion. Re-submit your final answer to '' @
                ''confirm, or keep working if you still have work (your next action '' @
                ''will be treated as a rebuttal and recorded).''\<rparr>))))"

definition run_finished :: "'h agent_config \<Rightarrow> ('h, unit) agent_act" where
  "run_finished x =
     act_then (on_task (\<lambda>t. t\<lparr>ts_run_finished_emitted := True\<rparr>))
       (act_then (trace x ''run_finished'') (out x A_Report))"

definition leave_reasoning :: "('h, unit) agent_act" where
  "leave_reasoning =
     act_bind (act_get aw_task) (\<lambda>t.
       act_when (ts_requires_post_tool_reasoning t) (try_task (finish_post_tool_reasoning ''final'')))"

definition finish_run :: "'h agent_config \<Rightarrow> string \<Rightarrow> string \<Rightarrow> ('h, unit) agent_act" where
  "finish_run x msg answer =
     act_then leave_reasoning
       (act_then (try_task (set_phase ''VERIFY'' ''Verify the collected evidence before returning the final answer''
                    ''Gather the minimum workspace context''))
         (act_then (save x)
           (act_then (show_state x ''verify_before_final'')
             (act_then (record_item x ''assistant'' answer [])
               (act_then (try_task (finish_success answer))
                 (act_then (save x)
                   (act_then (show_state x ''final'')
                     (act_then (act_when (ag_allow_memory x) (on_agent_env (ag_promote x msg answer)))
                       (act_then (act_when (ag_allow_checkpoint x) (make_checkpoint x ''run_finished''))
                         (act_then (save x)
                           (act_then (act_when (ag_allow_checkpoint x) (trace x ''checkpoint_created''))
                             (run_finished x))))))))))))"

definition accept_final :: "'h agent_config \<Rightarrow> string \<Rightarrow> string \<Rightarrow> loop_vars \<Rightarrow> 'h round_act" where
  "accept_final x msg payload v =
     act_then (finish_run x msg (py_strip payload))
       (act_ret (Answer (py_strip payload),
         v\<lparr>lv_awaiting := False, lv_pending := None, lv_rejected := False, lv_rejected_rounds := 0\<rparr>))"

definition NO_CONFIRMATION :: "string list" where
  "NO_CONFIRMATION = [''review_subagent_disabled'', ''review_skipped_read_only'', ''read_only_no_result_review'']"

text \<open>After the review of a final answer: reject it, accept it, or wait for a confirmation.\<close>

definition settle_final :: "'h agent_config \<Rightarrow> string \<Rightarrow> string \<Rightarrow> review_decision \<Rightarrow> loop_vars \<Rightarrow> 'h round_act" where
  "settle_final x msg payload d v =
     (if rd_verdict d = ''redirect'' \<and> lv_wrote v then reject_final x msg payload d v
      else if lv_awaiting v \<or> rd_verdict d = ''redirect'' then accept_final x msg payload v
      else if rd_reason d \<in> set NO_CONFIRMATION \<or> rd_failed d then accept_final x msg payload v
      else if REVIEW_BATTLE_MAX_ROUNDS \<le> lv_battles v then
        act_then (trace x ''review_battle_cap_reached'') (accept_final x msg payload v)
      else await_confirmation x d v)"

definition final_round :: "'h agent_config \<Rightarrow> string \<Rightarrow> string \<Rightarrow> loop_vars \<Rightarrow> 'h round_act" where
  "final_round x msg payload v =
     act_then (check_cancelled x)
       (act_bind (final_review x msg v) (\<lambda>d.
          act_then (apply_review_completed_steps x d)
            (settle_final x msg payload d
              (v\<lparr>lv_battles := lv_battles v + (if rd_reason d = ''read_only_no_result_review'' then 0 else 1)\<rparr>))))"

section \<open>The start of a round\<close>

definition stop_with ::
  "'h agent_config \<Rightarrow> (task_state \<Rightarrow> task_state) \<Rightarrow> string \<Rightarrow> loop_vars \<Rightarrow> 'h round_act" where
  "stop_with x f answer v =
     act_then (on_task f)
       (act_then (save x) (act_then (show_state x ''run_stopped'')
         (act_then (record_item x ''assistant'' answer []) (act_ret (Answer answer, v)))))"

definition cap_reason :: "'h agent_config \<Rightarrow> 'h agent_world \<Rightarrow> string" where
  "cap_reason x w =
     (if ag_max_elapsed x \<le> ag_elapsed x (ex_env (aw_exec w)) then ''wall_clock_cap''
      else if ag_max_tokens x \<le> ts_input_tokens (aw_task w) + ts_output_tokens (aw_task w)
      then ''token_budget_cap'' else [])"

text \<open>The wall clock and the tokens: the run is stopped before another request.\<close>

definition stop_at_cap :: "'h agent_config \<Rightarrow> string \<Rightarrow> loop_vars \<Rightarrow> 'h round_act" where
  "stop_at_cap x reason v =
     act_bind (convergence_summary x reason) (\<lambda>answer.
     act_then (on_task (\<lambda>t. record_error ''budget_cap'' reason False (int (lv_attempts v))
                  (stop_run ''budget_exhausted'' ''stopped'' answer t)))
       (act_then (trace x ''budget_cap_hit'') (stop_with x id answer v)))"

definition bad_reasons :: "loop_vars \<Rightarrow> string list" where
  "bad_reasons v =
     (if \<not> lv_rejected v \<and> \<not> lv_called v \<and> \<not> lv_talked v then [''silent_turn_no_output'']
      else if lv_called v \<and> lv_repeated v then [''tool_repeated_or_failed''] else [])"

definition audit_item :: "loop_vars \<Rightarrow> nat \<Rightarrow> task_state \<Rightarrow> json" where
  "audit_item v evidence_count t =
     JObj [(''turn'', JInt (int (lv_attempts v))), (''bad'', JBool (bad_reasons v \<noteq> [])),
       (''reasons'', JList (map JStr (bad_reasons v))), (''evidence_count'', JInt (int evidence_count)),
       (''tool_name'', JStr (ts_last_tool t)), (''actions'', JInt (int (lv_actions v)))]"

definition audit_bad :: "json \<Rightarrow> bool" where
  "audit_bad item \<longleftrightarrow> (case item of JObj d \<Rightarrow> get_bool d ''bad'' | _ \<Rightarrow> False)"

text \<open>The last \<open>n\<close> audited rounds of the window were all bad.\<close>

definition stagnated :: "nat \<Rightarrow> json list \<Rightarrow> bool" where
  "stagnated n audit \<longleftrightarrow>
     (let bad_window = map audit_bad (last_n STAGNATION_WINDOW audit) in
      n \<le> length bad_window \<and> list_all id (last_n n bad_window))"

text \<open>The judgement on the last round; the first round has none before it.\<close>

definition judge_round :: "'h agent_config \<Rightarrow> loop_vars \<Rightarrow> ('h, loop_vars) agent_act" where
  "judge_round x v =
     act_bind (act_get (\<lambda>w. (length (ts_evidence (aw_task w)), length (ts_completed_items (aw_task w))))) (\<lambda>current.
     act_bind (check_checklist_progress x (lv_cmds v)) (\<lambda>cmds.
       let v1 = v\<lparr>lv_cmds := cmds, lv_prev_end := Some current, lv_final_only := False\<rparr> in
       case lv_prev_end v of
         None \<Rightarrow> act_ret v1
       | Some _ \<Rightarrow>
           act_then (on_task (\<lambda>t. t\<lparr>ts_stagnation_audit := ts_stagnation_audit t @ [audit_item v (fst current) t]\<rparr>))
             (act_bind (act_get (\<lambda>w. stagnated (stagnation_threshold (max 0 (ag_max_steps x - lv_tool_steps v)))
                 (ts_stagnation_audit (aw_task w)))) (\<lambda>stop.
                if stop then
                  act_then (on_task record_malformed_output_recovered)
                    (act_then (act_phase ''Converge on a grounded final answer using the collected evidence'')
                      (act_then (trace x ''stagnation_detected'')
                        (act_ret (v1\<lparr>lv_final_only := True, lv_finalization_attempted := True\<rparr>))))
                else act_ret v1))))"

definition count_rejected :: "loop_vars \<Rightarrow> loop_vars" where
  "count_rejected v =
     v\<lparr>lv_rejected_rounds := (if lv_rejected v \<and> \<not> lv_called v then lv_rejected_rounds v + 1 else 0)\<rparr>"

text \<open>Two answers in a row rejected without a tool call between them.\<close>

definition stop_rejected :: "'h agent_config \<Rightarrow> loop_vars \<Rightarrow> 'h round_act" where
  "stop_rejected x v =
     act_then (on_task record_malformed_output_recovered)
       (act_then (act_phase ''Converge on a best-effort answer using collected evidence and rejected candidates'')
         (act_then (trace x ''stagnation_detected'')
           (act_bind (convergence_summary x ''finals_rejected'') (\<lambda>answer.
             stop_with x (stop_run ''convergence_guard_triggered'' ''stopped'' answer) answer v))))"

section \<open>The request to the model\<close>

definition reset_turn :: "loop_vars \<Rightarrow> loop_vars" where
  "reset_turn v = v\<lparr>lv_called := False, lv_repeated := False, lv_talked := False, lv_rejected := False,
     lv_actions := 0, lv_attempts := lv_attempts v + 1\<rparr>"

definition feedback_note :: "string \<Rightarrow> string" where
  "feedback_note feedback =
     (if feedback = [] then []
      else nl @ nl @ ''Runtime control feedback:'' @ nl @ feedback @ nl @
        ''This feedback is control-plane input, not an assistant message.'')"

definition final_only_note :: "bool \<Rightarrow> string" where
  "final_only_note only =
     (if \<not> only then []
      else nl @ nl @ ''Runtime control feedback:'' @ nl @
        ''Evidence stagnation detected: recent rounds produced no new '' @
        ''progress. Do not call another tool. Use the evidence already '' @
        ''collected and return a grounded final answer now.'')"

definition prompt_checkpoints :: "'h agent_config \<Rightarrow> prompt_info \<Rightarrow> ('h, unit) agent_act" where
  "prompt_checkpoints x p =
     act_then
       (if ag_allow_checkpoint x \<and> pi_resume p = ''partial-stale'' then checkpoint_and_trace x ''freshness_mismatch''
        else if ag_allow_checkpoint x \<and> pi_resume p = ''workspace-mismatch''
        then act_then (trace x ''runtime_identity_mismatch'') (checkpoint_and_trace x ''workspace_mismatch'')
        else act_ret ())
       (act_when (ag_allow_checkpoint x \<and> pi_reduced p) (checkpoint_and_trace x ''context_reduction''))"

definition ask_model :: "'h agent_config \<Rightarrow> string \<Rightarrow> bool \<Rightarrow> ('h, json) agent_act" where
  "ask_model x prompt only =
     act_then (check_cancelled x)
       (act_bind (act_get aw_task) (\<lambda>t.
        act_then (on_agent_env (ag_before_model x t))
          (act_then (note_event (A_Model only))
            (act_bind (on_agent_env (ag_complete x (Round_Request prompt only))) (\<lambda>raw.
             act_bind (act_get (\<lambda>w. ag_usage x (ex_env (aw_exec w)))) (\<lambda>(inp, outp).
             act_then (on_task (record_model_usage inp outp))
               (act_then (check_cancelled x)
                 (act_bind (act_get aw_task) (\<lambda>t.
                    act_then (on_agent_env (ag_after_model x t)) (act_ret raw))))))))))"

definition decide_round :: "'h agent_config \<Rightarrow> string \<Rightarrow> loop_vars \<Rightarrow> ('h, json \<times> model_reply) agent_act" where
  "decide_round x msg v =
     act_then (on_task record_attempt)
       (act_then (act_phase ''Choose a tool or prepare a final answer'')
         (act_then (save x)
           (act_then (show_state x ''model_decision'')
             (act_bind (on_agent_env (ag_prompt x msg)) (\<lambda>p.
              act_then (trace x ''prompt_built'')
                (act_then (prompt_checkpoints x p)
                  (act_then (trace x ''model_requested'')
                    (act_bind (ask_model x (pi_text p @ feedback_note (lv_feedback v) @ final_only_note (lv_final_only v))
                        (lv_final_only v)) (\<lambda>raw.
                      case decide_reply (ag_loads x) raw of
                        Inl e \<Rightarrow> act_raise (Tool_Error e [])
                      | Inr reply \<Rightarrow> act_then (trace x ''model_parsed'') (act_ret (raw, reply)))))))))))"

definition is_retry :: "model_reply \<Rightarrow> bool" where
  "is_retry r \<longleftrightarrow> (case r of Reply_Retry _ \<Rightarrow> True | _ \<Rightarrow> False)"

definition is_final :: "model_reply \<Rightarrow> bool" where
  "is_final r \<longleftrightarrow> (case r of Reply_Final _ \<Rightarrow> True | _ \<Rightarrow> False)"

definition ACTION_MARKERS :: "string list" where
  "ACTION_MARKERS = [''<tool'', ''<retry'', ''<talk'', quote @ ''name'' @ quote, quote @ ''tools'' @ quote]"

definition plain_answer :: "json \<Rightarrow> string" where
  "plain_answer raw =
     (let t = py_strip (text_or_empty raw) in
      if list_ex (\<lambda>m. contains m t) ACTION_MARKERS then [] else t)"

definition round_by_kind :: "'h agent_config \<Rightarrow> string \<Rightarrow> model_reply \<Rightarrow> loop_vars \<Rightarrow> 'h round_act" where
  "round_by_kind x msg reply v =
     (case reply of
        Reply_Talk t \<Rightarrow> talk_round x t v
      | Reply_Tool payload \<Rightarrow> tool_round x msg payload v
      | Reply_Batch items \<Rightarrow> batch_round x msg items v
      | Reply_Retry notice \<Rightarrow> retry_round x notice v
      | Reply_Final answer \<Rightarrow> final_round x msg answer v)"

text \<open>In the last round only an answer counts; for a run that changed nothing plain text is one.\<close>

definition last_round :: "'h agent_config \<Rightarrow> string \<Rightarrow> json \<Rightarrow> loop_vars \<Rightarrow> 'h round_act" where
  "last_round x msg raw v =
     (if \<not> lv_wrote v \<and> plain_answer raw \<noteq> [] then
        act_then (trace x ''finalization_plain_text_accepted'') (final_round x msg (plain_answer raw) v)
      else
        act_then (on_task record_malformed_output_recovered)
          (act_then (trace x ''finalization_protocol_rejected'') (act_ret (Leave, v))))"

definition model_round :: "'h agent_config \<Rightarrow> string \<Rightarrow> loop_vars \<Rightarrow> 'h round_act" where
  "model_round x msg v0 =
     (let v = reset_turn v0 in
      act_bind (decide_round x msg v) (\<lambda>(raw, reply).
        let v = (if is_retry reply then v else v\<lparr>lv_feedback := []\<rparr>) in
        if lv_final_only v \<and> \<not> is_final reply then last_round x msg raw v
        else round_by_kind x msg reply v))"

text \<open>One iteration of the loop.\<close>

definition loop_round :: "'h agent_config \<Rightarrow> string \<Rightarrow> loop_vars \<Rightarrow> 'h round_act" where
  "loop_round x msg v =
     act_then (check_cancelled x)
       (act_bind (act_get (cap_reason x)) (\<lambda>reason.
          if reason \<noteq> [] then stop_at_cap x reason v
          else
            act_bind (judge_round x v) (\<lambda>v1.
              let v2 = count_rejected v1 in
              if 2 \<le> lv_rejected_rounds v2 then stop_rejected x v2 else model_round x msg v2)))"

section \<open>Results of code\<close>

text \<open>\<open>act_gives P m\<close>: whenever the code returns, its result satisfies \<open>P\<close>.\<close>

named_theorems gives_rules \<open>rules for the results of code\<close>

definition act_gives :: "('a \<Rightarrow> bool) \<Rightarrow> ('s, 'e, 'a) act \<Rightarrow> bool" where
  "act_gives P m \<longleftrightarrow> (\<forall>s a t. m s = (Inr a, t) \<longrightarrow> P a)"

lemma act_givesD: "act_gives P m \<Longrightarrow> m s = (Inr a, t) \<Longrightarrow> P a"
  by (auto simp: act_gives_def)

lemma gives_ret [gives_rules]: "P a \<Longrightarrow> act_gives P (act_ret a)"
  and gives_raise [gives_rules]: "act_gives P (act_raise e)"
  by (auto simp: act_gives_def act_defs)

lemma gives_bind: "act_gives Q m \<Longrightarrow> (\<And>a. Q a \<Longrightarrow> act_gives P (f a)) \<Longrightarrow> act_gives P (act_bind m f)"
  by (fastforce simp: act_gives_def act_bind_def split: prod.splits sum.splits)

lemma gives_any: "act_gives (\<lambda>_. True) m"
  by (simp add: act_gives_def)

lemma gives_after [gives_rules]: "(\<And>a. act_gives P (f a)) \<Longrightarrow> act_gives P (act_bind m f)"
  by (rule gives_bind [OF gives_any])

lemma gives_then [gives_rules]: "act_gives P n \<Longrightarrow> act_gives P (act_then m n)"
  unfolding act_then_def by (rule gives_after)

lemma gives_if [gives_rules]: "(b \<Longrightarrow> act_gives P m) \<Longrightarrow> (\<not> b \<Longrightarrow> act_gives P n) \<Longrightarrow> act_gives P (if b then m else n)"
  by simp

lemma gives_pair [gives_rules]: "(\<And>a b. p = (a, b) \<Longrightarrow> act_gives P (f a b)) \<Longrightarrow> act_gives P (case p of (a, b) \<Rightarrow> f a b)"
  by (cases p) simp

lemma gives_option [gives_rules]:
  "(z = None \<Longrightarrow> act_gives P m) \<Longrightarrow> (\<And>y. z = Some y \<Longrightarrow> act_gives P (f y)) \<Longrightarrow>
   act_gives P (case z of None \<Rightarrow> m | Some y \<Rightarrow> f y)"
  by (cases z) simp_all

lemma gives_sum [gives_rules]:
  "(\<And>e. z = Inl e \<Longrightarrow> act_gives P (m e)) \<Longrightarrow> (\<And>y. z = Inr y \<Longrightarrow> act_gives P (f y)) \<Longrightarrow>
   act_gives P (case z of Inl e \<Rightarrow> m e | Inr y \<Rightarrow> f y)"
  by (cases z) simp_all

lemma gives_let [gives_rules]: "act_gives P (m v) \<Longrightarrow> act_gives P (let y = v in m y)"
  by simp

section \<open>The loop ends\<close>

text \<open>A part of a round leaves the number of rounds alone.\<close>

abbreviation rounds_are :: "nat \<Rightarrow> flow \<times> loop_vars \<Rightarrow> bool" where
  "rounds_are n r \<equiv> lv_attempts (snd r) = n"

named_theorems part_defs \<open>the parts of a round\<close>

lemmas [part_defs] =
  redirected_def poll_review_def tool_round_def run_batch_def batch_round_def talk_round_def retry_round_def
  reject_final_def await_confirmation_def accept_final_def settle_final_def final_round_def last_round_def
  round_by_kind_def stop_with_def stop_at_cap_def stop_rejected_def acting_def

lemma poll_review_rounds: "lv_attempts v = n \<Longrightarrow> act_gives (rounds_are n) (poll_review x msg v)"
  unfolding poll_review_def redirected_def by (intro gives_rules) (simp_all add: Let_def)

lemma round_by_kind_rounds: "lv_attempts v = n \<Longrightarrow> act_gives (rounds_are n) (round_by_kind x msg reply v)"
  unfolding round_by_kind_def part_defs
  by (cases reply) (auto intro!: gives_rules simp: poll_review_rounds)

lemma last_round_rounds: "lv_attempts v = n \<Longrightarrow> act_gives (rounds_are n) (last_round x msg raw v)"
  unfolding part_defs by (intro gives_rules) simp_all

lemma model_round_rounds: "act_gives (rounds_are (Suc (lv_attempts v))) (model_round x msg v)"
  unfolding model_round_def Let_def
  by (intro gives_rules) (auto simp: reset_turn_def intro!: round_by_kind_rounds last_round_rounds)

lemma judge_round_rounds: "act_gives (\<lambda>u. lv_attempts u = lv_attempts v) (judge_round x v)"
  unfolding judge_round_def Let_def by (intro gives_rules) simp_all

definition goes_on :: "flow \<times> loop_vars \<Rightarrow> bool" where
  "goes_on r \<longleftrightarrow> fst r = Go_On"

lemma loop_round_counts:
  "act_gives (\<lambda>r. goes_on r \<longrightarrow> lv_attempts (snd r) = Suc (lv_attempts v)) (loop_round x msg v)"
proof -
  have stop: "act_gives (\<lambda>r. goes_on r \<longrightarrow> lv_attempts (snd r) = n) (stop_with x f answer u)" for n f answer u
    unfolding stop_with_def by (intro gives_rules) (simp add: goes_on_def)
  have cap: "act_gives (\<lambda>r. goes_on r \<longrightarrow> lv_attempts (snd r) = n) (stop_at_cap x reason u)" for n reason u
    unfolding stop_at_cap_def by (intro gives_rules stop)
  have rej: "act_gives (\<lambda>r. goes_on r \<longrightarrow> lv_attempts (snd r) = n) (stop_rejected x u)" for n u
    unfolding stop_rejected_def by (intro gives_rules stop)
  have model: "act_gives (\<lambda>r. goes_on r \<longrightarrow> lv_attempts (snd r) = Suc (lv_attempts u)) (model_round x msg u)" for u
    using model_round_rounds [of u x msg] by (auto simp: act_gives_def)
  have "act_gives (\<lambda>r. goes_on r \<longrightarrow> lv_attempts (snd r) = Suc (lv_attempts v))
      (if 2 \<le> lv_rejected_rounds (count_rejected u) then stop_rejected x (count_rejected u)
       else model_round x msg (count_rejected u))" if "lv_attempts u = lv_attempts v" for u
    using model [of "count_rejected u"] rej that by (simp add: count_rejected_def)
  then have rest: "act_gives (\<lambda>r. goes_on r \<longrightarrow> lv_attempts (snd r) = Suc (lv_attempts v))
      (act_bind (judge_round x v) (\<lambda>u. if 2 \<le> lv_rejected_rounds (count_rejected u)
        then stop_rejected x (count_rejected u) else model_round x msg (count_rejected u)))"
    by (rule gives_bind [OF judge_round_rounds])
  show ?thesis
    unfolding loop_round_def Let_def
    by (rule gives_then, rule gives_after, rule gives_if, rule cap, rule rest)
qed

text \<open>
  \<open>while attempts < max_attempts and not finalization_attempted\<close>: an iteration that goes on has
  counted one more attempt, so the loop ends whatever the model answers.
\<close>

definition may_go_on :: "loop_vars \<Rightarrow> bool" where
  "may_go_on v \<longleftrightarrow> lv_attempts v < MAX_ATTEMPTS_SAFETY \<and> \<not> lv_finalization_attempted v"

lemma loop_round_less:
  assumes "(Inr r, w') = loop_round x msg v w" and "goes_on r" and "may_go_on v"
  shows "MAX_ATTEMPTS_SAFETY - lv_attempts (snd r) < MAX_ATTEMPTS_SAFETY - lv_attempts v"
proof -
  have "lv_attempts (snd r) = Suc (lv_attempts v)"
    using act_givesD [OF loop_round_counts assms(1) [symmetric]] assms(2) by simp
  with assms(3) show ?thesis by (simp add: may_go_on_def) linarith
qed

function run_rounds :: "'h agent_config \<Rightarrow> string \<Rightarrow> loop_vars \<Rightarrow> 'h agent_world \<Rightarrow>
    (tool_exn + flow \<times> loop_vars) \<times> 'h agent_world" where
  "run_rounds x msg v w =
     (if \<not> may_go_on v then (Inr (Leave, v), w)
      else
        (case loop_round x msg v w of
           (Inl e, w') \<Rightarrow> (Inl e, w')
         | (Inr (flow, v'), w') \<Rightarrow>
             if goes_on (flow, v') then run_rounds x msg v' w' else (Inr (flow, v'), w')))"
  by pat_completeness auto
termination
  by (relation "measure (\<lambda>(x, msg, v, w). MAX_ATTEMPTS_SAFETY - lv_attempts v)")
    (auto dest!: loop_round_less)

declare run_rounds.simps [simp del]

section \<open>The end of the loop and the run\<close>

definition stop_loop :: "'h agent_config \<Rightarrow> string \<Rightarrow> loop_vars \<Rightarrow> ('h, string) agent_act" where
  "stop_loop x msg v =
     (let limit = (lv_protocol_failed v \<or> MAX_ATTEMPTS_SAFETY \<le> lv_attempts v);
          reason = (if limit then ''retry_limit_reached'' else ''convergence_guard_triggered'') in
      act_bind (convergence_summary x reason) (\<lambda>answer.
      act_then (on_task (stop_run reason ''stopped'' answer))
        (act_then (to_phase ''FINAL'' ''Explain the budget or execution blocker'')
          (act_then (save x)
            (act_then (show_state x ''run_stopped'')
              (act_then (record_item x ''assistant'' answer [])
                (act_then (act_when (ag_allow_memory x) (on_agent_env (ag_promote x msg answer)))
                  (act_then (save x)
                    (act_then (act_when (ag_allow_checkpoint x)
                        (act_then (make_checkpoint x reason) (trace x ''checkpoint_created'')))
                      (act_then (run_finished x) (act_ret answer)))))))))))"

definition run_loop :: "'h agent_config \<Rightarrow> string \<Rightarrow> ('h, string) agent_act" where
  "run_loop x msg =
     act_then (check_cancelled x)
       (act_bind (run_rounds x msg loop_start) (\<lambda>(flow, v).
          case flow of Answer answer \<Rightarrow> act_ret answer | _ \<Rightarrow> stop_loop x msg v))"

text \<open>The snapshot of a new run, and what is published before the first phase.\<close>

definition new_snapshot :: "'h agent_config \<Rightarrow> string \<Rightarrow> string \<Rightarrow> string \<Rightarrow> 'h \<Rightarrow> task_state" where
  "new_snapshot x rid tid msg h =
     (create_task_state rid tid msg (ag_max_steps x) (ag_read_limit x) (ag_total_limit x) [] [])
       \<lparr>ts_resume_status := ag_resume_status x h\<rparr>"

definition start_run :: "'h agent_config \<Rightarrow> string \<Rightarrow> string \<Rightarrow> string \<Rightarrow> ('h, unit) agent_act" where
  "start_run x rid tid msg =
     act_then (on_agent_env (ag_task_summary x msg))
       (act_then (record_item x ''user'' msg [])
         (act_then (act_modify (\<lambda>w. w\<lparr>aw_task := new_snapshot x rid tid msg (ex_env (aw_exec w)), aw_verified := False\<rparr>))
           (act_then (out x A_Start)
             (act_then (trace x ''run_started'')
               (act_then (try_task (set_phase ''UNDERSTAND_REQUEST'' ''Gather the minimum workspace context''
                            ''Understand the request and acceptance criteria''))
                 (act_then (save x) (show_state x ''run_started'')))))))"

text \<open>The body of the \<open>try\<close>.\<close>

definition run_body :: "'h agent_config \<Rightarrow> string \<Rightarrow> ('h, string) agent_act" where
  "run_body x msg =
     act_then (to_phase ''GATHER_CONTEXT'' ''Inspect the workspace only when evidence is needed'')
       (act_then (save x)
         (act_then (show_state x ''context_requested'')
           (act_bind (initial_plan x msg) (\<lambda>_. run_loop x msg))))"

definition cleanup_answer :: string where
  "cleanup_answer = ''agent run failed: shell process cleanup could not be confirmed''"

definition end_run :: "'h agent_config \<Rightarrow> (task_state \<Rightarrow> task_state) \<Rightarrow> ('h, unit) agent_act" where
  "end_run x f = act_then (on_task f) (act_then (save x) (run_finished x))"

definition run_interrupted :: "'h agent_config \<Rightarrow> tool_exn \<Rightarrow> ('h, string) agent_act" where
  "run_interrupted x e =
     (case e of
        Process_Cleanup_Failed \<Rightarrow>
          act_then (end_run x (stop_run ''process_cleanup_failed'' ''failed'' cleanup_answer))
            (act_get (\<lambda>w. ts_final_answer (aw_task w)))
      | Tool_Cancelled \<Rightarrow>
          act_then (end_run x (stop_run ''user_cancelled'' ''stopped'' [])) (act_ret [])
      | _ \<Rightarrow> act_raise e)"

definition run_agent :: "'h agent_config \<Rightarrow> string \<Rightarrow> string \<Rightarrow> string \<Rightarrow> ('h, string) agent_act" where
  "run_agent x rid tid msg =
     act_then (start_run x rid tid msg) (act_catch (run_body x msg) (run_interrupted x))"

section \<open>Lifecycle finalization\<close>

text \<open>
  \<open>pico/run_lifecycle.py\<close>: the artifacts of a run are written one by one, so that a failing write
  does not keep the others back.
\<close>

definition persistence_stop :: "task_state \<Rightarrow> task_state" where
  "persistence_stop = stop_run ''persistence_error'' ''failed'' ''agent run finalization failed: persistence error''"

text \<open>\<open>try: m  except Exception: persistence_error = True\<close>.\<close>

definition attempt :: "('h, unit) agent_act \<Rightarrow> ('h, bool) agent_act" where
  "attempt m = act_try m (\<lambda>_. act_ret True) (\<lambda>_. act_ret False)"

definition finalize_run :: "'h agent_config \<Rightarrow> ('h, unit) agent_act" where
  "finalize_run x =
     act_bind (attempt (save x)) (\<lambda>saved.
     act_bind (act_get (\<lambda>w. ts_run_finished_emitted (aw_task w))) (\<lambda>emitted.
     act_bind (if emitted then act_ret True
               else attempt (act_then (trace x ''run_finished'')
                      (on_task (\<lambda>t. t\<lparr>ts_run_finished_emitted := True\<rparr>)))) (\<lambda>finished.
     act_then (act_when (\<not> (saved \<and> finished)) (on_task persistence_stop))
       (act_bind (attempt (out x A_Report)) (\<lambda>reported.
          act_when (\<not> reported)
            (act_then (on_task persistence_stop) (act_bind (attempt (save x)) (\<lambda>_. act_ret ()))))))))"

definition LIFECYCLE_REASONS :: "string list" where
  "LIFECYCLE_REASONS = [''model_error'', ''runtime_error'', ''persistence_error'']"

definition finalize_failed_run :: "'h agent_config \<Rightarrow> string \<Rightarrow> string \<Rightarrow> ('h, unit) agent_act" where
  "finalize_failed_run x error_type stop_reason =
     (let reason = (if stop_reason \<in> set LIFECYCLE_REASONS then stop_reason else ''runtime_error'') in
      act_then (act_bind (act_get aw_task) (\<lambda>t.
         act_when (ts_status t = ''running'')
           (on_task (stop_run reason ''failed'' (''agent run failed: '' @ error_type)))))
        (finalize_run x))"

end
