(* ===== verification/Agent_Sample.thy ===== *)
theory Agent_Sample
  imports Agent_Loop
begin

text \<open>
  A run of the agent loop on the runtime of \<open>Review_Run\<close> whose model answers at once, and rules that
  evaluate such runs: each says what a call does to the world.
\<close>

section \<open>What the calls do\<close>

lemma wp_env_ret [simp]: "act_wp (on_agent_env (act_ret a)) Q E w = Q a w"
  by (simp add: act_wp_def on_agent_env_def act_ret_def)

lemma wp_on_task [simp]: "act_wp (on_task f) Q E w = Q () (w\<lparr>aw_task := f (aw_task w)\<rparr>)"
  by (simp add: on_task_def wp_simps)

lemma wp_note [simp]: "act_wp (note_event e) Q E w = Q () (w\<lparr>aw_log := aw_log w @ [e]\<rparr>)"
  by (simp add: note_event_def wp_simps)

section \<open>The runtime of the examples\<close>

lemma sample_env [simp]:
  "ag_task_summary sample_agent m = act_ret ()" "ag_now sample_agent h = []" "ag_max_steps sample_agent = 6"
  "ag_read_limit sample_agent = 4" "ag_total_limit sample_agent = None" "ag_resume_status sample_agent h = ''no-checkpoint''"
  "ag_max_elapsed sample_agent = 3600" "ag_max_tokens sample_agent = 500000" "ag_elapsed sample_agent h = 0"
  "ag_prompt sample_agent m = act_ret \<lparr>pi_text = [], pi_resume = [], pi_reduced = False\<rparr>"
  "ag_before_model sample_agent t = act_ret ()" "ag_after_model sample_agent t = act_ret ()"
  "ag_usage sample_agent h = (1, 1)" "ag_allow_checkpoint sample_agent = False" "ag_allow_memory sample_agent = False"
  by (simp_all add: sample_agent_def)

lemma wp_out_sample [simp]: "act_wp (out sample_agent e) Q E w = Q () (w\<lparr>aw_log := aw_log w @ [e]\<rparr>)"
  by (simp add: out_def wp_simps)

lemma wp_record_sample [simp]: "act_wp (record_item sample_agent role content []) Q E w =
   Q () (w\<lparr>aw_exec := (aw_exec w)\<lparr>ex_history := ex_history (aw_exec w) @
     [[(''role'', JStr role), (''content'', JStr content), (''created_at'', JStr [])]]\<rparr>,
     aw_log := aw_log w @ [A_Record role content]\<rparr>)"
  by (simp add: record_item_def wp_simps)

lemma sample_final: "decide_reply sample_loads (JStr ''<final>done</final>'') = Inr (Reply_Final ''done'')"
  by code_simp

lemma plain: "py_strip ''done'' = ''done''" by code_simp

text \<open>Every phase of the loop is one of the list.\<close>

lemma phases: "py_upper (py_strip p) \<in> set TASK_PHASES"
  if "p \<in> {''UNDERSTAND_REQUEST'', ''GATHER_CONTEXT'', ''VERIFY'', ''ACT_OR_ANSWER'', ''FINAL''}"
  using that by (elim insertE emptyE; simp only:; code_simp)

lemma wp_phase [simp]: "py_upper (py_strip p) \<in> set TASK_PHASES \<Longrightarrow>
   act_wp (try_task (set_phase p n c)) Q E w =
   Q () (w\<lparr>aw_task := (let t = (aw_task w)\<lparr>ts_phase := py_upper (py_strip p)\<rparr>;
      t = (if c \<noteq> [] \<and> c \<notin> set (ts_completed_items t) then t\<lparr>ts_completed_items := ts_completed_items t @ [c]\<rparr> else t) in
      if n \<noteq> [] then t\<lparr>ts_next_step := n\<rparr> else t)\<rparr>)"
  by (simp add: try_task_def set_phase_def wp_simps Let_def)

lemma wp_answering [simp]: "ex_env (aw_exec w) = a # r \<Longrightarrow>
   act_wp (on_agent_env (answering q)) Q E w = Q a (w\<lparr>aw_exec := (aw_exec w)\<lparr>ex_env := r\<rparr>\<rparr>)"
  by (simp add: act_wp_def on_agent_env_def)

lemma wp_success [simp]: "act_wp (try_task (finish_success answer)) Q E w = 
   Q () (w\<lparr>aw_task := (aw_task w)\<lparr>ts_status := ''completed'', ts_stop_reason := ''final_answer_returned'',
          ts_final_answer := answer, ts_requires_post_tool_reasoning := False,
     ts_phase := py_upper (py_strip ''FINAL''), ts_next_step := ''Task complete''\<rparr>\<rparr>)"
  by (simp add: try_task_def finish_success_def set_phase_def wp_simps Let_def phases)

lemma wp_runs: "act_wp m Q (\<lambda>_ _. False) w \<Longrightarrow> \<exists>a w'. m w = (Inr a, w') \<and> Q a w'"
  by (cases "m w"; cases "fst (m w)") (auto simp: act_wp_def)

section \<open>A run\<close>

lemma run_rounds_wp:
  assumes "may_go_on v"
    and "act_wp (loop_round x msg v)
      (\<lambda>r w. if goes_on r then act_wp (run_rounds x msg (snd r)) Q E w else Q r w) E w"
  shows "act_wp (run_rounds x msg v) Q E w"
proof -
  obtain r u where round: "loop_round x msg v w = (r, u)" by fastforce
  show ?thesis
    using assms by (cases r) (auto simp: act_wp_def run_rounds.simps [of x msg v] round split: if_splits)
qed

lemma no_criteria [simp]:
  "ts_step_done_when (aw_task w) = [] \<Longrightarrow> act_wp (check_goals x cache goals) Q E w = Q (False, cache) w"
  by (induction goals arbitrary: Q) (simp_all add: wp_simps goal_criteria_def)

text \<open>The snapshot of a run that answered at once.\<close>

definition plainly_done :: "task_state \<Rightarrow> bool" where
  "plainly_done t \<longleftrightarrow> ts_status t = ''completed'' \<and> ts_final_answer t = ''done'' \<and> ts_tool_steps t = 0 \<and>
     ts_evidence t = [] \<and> ts_last_tool t = []"

definition untouched :: "task_state \<Rightarrow> bool" where
  "untouched t \<longleftrightarrow> ts_tool_steps t = 0 \<and> ts_evidence t = [] \<and> ts_last_tool t = []"

lemma sample_final_round:
  assumes "\<not> lv_wrote v" and "\<not> ts_requires_post_tool_reasoning (aw_task w)" and "untouched (aw_task w)"
  shows "act_wp (final_round sample_agent msg ''done'' v)
    (\<lambda>r w. fst r = Answer ''done'' \<and> plainly_done (aw_task w)) (\<lambda>_ _. False) w"
  using assms
  by (simp add: final_round_def final_review_def wp_simps check_cancelled_def read_only_decision_def decision_def
      settle_final_def NO_CONFIRMATION_def accept_final_def finish_run_def leave_reasoning_def run_finished_def
      apply_review_completed_steps_def plain phases untouched_def plainly_done_def Let_def)

lemma sample_rounds:
  assumes "ts_input_tokens (aw_task w) = 0" and "ts_output_tokens (aw_task w) = 0"
    and "ts_step_done_when (aw_task w) = []" and "\<not> ts_requires_post_tool_reasoning (aw_task w)"
    and "ex_env (aw_exec w) = [JStr ''<final>done</final>'']" and "untouched (aw_task w)"
  shows "act_wp (run_rounds sample_agent msg loop_start)
    (\<lambda>r w. fst r = Answer ''done'' \<and> plainly_done (aw_task w)) (\<lambda>_ _. False) w"
  using assms
  by (intro run_rounds_wp)
    (auto simp: loop_round_def wp_simps check_cancelled_def cap_reason_def judge_round_def check_checklist_progress_def
      loop_start_def count_rejected_def model_round_def decide_round_def reset_turn_def act_phase_def to_phase_def phases
      prompt_checkpoints_def ask_model_def Let_def sample_final is_retry_def may_go_on_def goes_on_def MAX_ATTEMPTS_SAFETY_def
      round_by_kind_def record_model_usage_def record_attempt_def untouched_def intro!: act_wp_conseq [OF sample_final_round])

lemma sample_run_done:
  "act_wp (run_agent sample_agent ''r'' ''t'' ''do it'') (\<lambda>a w. a = ''done'' \<and> plainly_done (aw_task w)) (\<lambda>_ _. False)
      (w\<lparr>aw_exec := (aw_exec w)\<lparr>ex_env := [JStr ''<final>done</final>'']\<rparr>\<rparr>)"
    by (simp add: run_agent_def start_run_def new_snapshot_def create_task_state_def run_body_def initial_plan_def
        run_loop_def wp_simps to_phase_def phases check_cancelled_def Let_def new_task_state_def)
      (rule act_wp_conseq [OF sample_rounds]; auto simp: wp_simps untouched_def)

lemma sample_run:
  obtains w' where "run_agent sample_agent ''r'' ''t'' ''do it'' (sample_world [JStr ''<final>done</final>'']) = (Inr ''done'', w')"
  using wp_runs [OF sample_run_done [of "sample_world []"]] that by (auto simp: sample_world_def)

lemma sample_accept:
  assumes "\<not> ts_requires_post_tool_reasoning (aw_task w)"
  shows "act_wp (accept_final sample_agent msg ''done'' v) (\<lambda>r w. fst r = Answer ''done'') (\<lambda>_ _. False) w"
  using assms
  by (simp add: wp_simps accept_final_def finish_run_def leave_reasoning_def run_finished_def plain phases)

text \<open>A final answer of a run that has written, confirmed and judged by the second review.\<close>

definition sample_wrote :: loop_vars where
  "sample_wrote = loop_start\<lparr>lv_wrote := True, lv_awaiting := True\<rparr>"

lemma sample_confirmed:
  assumes "run_review sample_agent ''do it'' ''final_before'' True False [] w =
      (Inr \<lparr>rd_verdict = verdict, rd_feedback = f, rd_reason = [], rd_steps = [], rd_failed = False\<rparr>, w1)"
    and "verdict \<noteq> ''redirect''" and "\<not> ts_requires_post_tool_reasoning (aw_task w1)"
  shows "\<exists>v' w'. final_round sample_agent ''do it'' ''done'' sample_wrote w = (Inr (Answer ''done'', v'), w')"
proof -
  have "act_wp (final_round sample_agent ''do it'' ''done'' sample_wrote) (\<lambda>r w. fst r = Answer ''done'') (\<lambda>_ _. False) w"
    using assms
    by (auto simp: final_round_def final_review_def wp_simps check_cancelled_def sample_wrote_def loop_start_def
        maybe_run_review_def apply_review_completed_steps_def settle_final_def act_wp_def [of "run_review _ _ _ _ _ _"]
        intro!: sample_accept)
  from wp_runs [OF this] show ?thesis by auto
qed

end
