(* ===== verification/Agent_Runs.thy ===== *)
theory Agent_Runs
  imports Agent_Sample
begin

text \<open>
  What holds of every run of the agent loop: it ends in one of six ways, it asks the model a bounded
  number of times, the round that only takes an answer runs no tool, and what its reviews decide.
\<close>

section \<open>How a run ends\<close>

text \<open>Code that keeps a property of the snapshot.\<close>

abbreviation keeps_task :: "(task_state \<Rightarrow> bool) \<Rightarrow> ('h, 'a) agent_act \<Rightarrow> bool" where
  "keeps_task Q m \<equiv> act_keeps (\<lambda>w. Q (aw_task w)) m"

lemma on_agent_env_task [keeps_rules]: "keeps_task Q (on_agent_env m)"
  by (rule act_keepsI) (simp add: on_agent_env_def split: prod.splits)

lemma note_event_task [keeps_rules]: "keeps_task Q (note_event e)"
  unfolding note_event_def by (intro keeps_rules) simp

lemma out_task [keeps_rules]: "keeps_task Q (out x e)"
  unfolding out_def by (intro keeps_rules)

lemma record_item_task [keeps_rules]: "keeps_task Q (record_item x role content extra)"
  unfolding record_item_def by (intro keeps_rules) simp

lemma on_task_task: "(\<And>t. Q t \<Longrightarrow> Q (f t)) \<Longrightarrow> keeps_task Q (on_task f)"
  unfolding on_task_def by (intro keeps_rules) simp

lemma try_task_task: "(\<And>t u. Q t \<Longrightarrow> f t = Inr u \<Longrightarrow> Q u) \<Longrightarrow> keeps_task Q (try_task f)"
  by (rule act_keepsI) (auto simp: try_task_def on_task_def act_defs split: sum.splits)

lemma make_checkpoint_task: "(\<And>t c. Q t \<Longrightarrow> Q (t\<lparr>ts_checkpoint_id := c\<rparr>)) \<Longrightarrow> keeps_task Q (make_checkpoint x trigger)"
  unfolding make_checkpoint_def by (intro keeps_rules on_task_task)

lemma run_finished_task:
  "(\<And>t. Q t \<Longrightarrow> Q (t\<lparr>ts_run_finished_emitted := True\<rparr>)) \<Longrightarrow> keeps_task Q (run_finished x)"
  unfolding run_finished_def by (intro keeps_rules on_task_task)

text \<open>\<open>act_post Q m\<close>: when the code returns, from whatever state, result and state satisfy \<open>Q\<close>.\<close>

definition act_post :: "('a \<Rightarrow> 's \<Rightarrow> bool) \<Rightarrow> ('s, 'e, 'a) act \<Rightarrow> bool" where
  "act_post Q m \<longleftrightarrow> (\<forall>s a t. m s = (Inr a, t) \<longrightarrow> Q a t)"

named_theorems post_rules \<open>rules for what holds when code returns\<close>

lemma act_postD: "act_post Q m \<Longrightarrow> m s = (Inr a, t) \<Longrightarrow> Q a t"
  by (auto simp: act_post_def)

lemma post_bind [post_rules]: "(\<And>a. act_post Q (f a)) \<Longrightarrow> act_post Q (act_bind m f)"
  by (fastforce simp: act_post_def act_bind_def split: prod.splits sum.splits)

lemma post_then [post_rules]: "act_post Q n \<Longrightarrow> act_post Q (act_then m n)"
  unfolding act_then_def by (rule post_bind)

lemma post_raise [post_rules]: "act_post Q (act_raise e)"
  by (simp add: act_post_def act_defs)

lemma post_if [post_rules]: "(b \<Longrightarrow> act_post Q m) \<Longrightarrow> (\<not> b \<Longrightarrow> act_post Q n) \<Longrightarrow> act_post Q (if b then m else n)"
  by simp

lemma post_then_keep:
  "act_post (\<lambda>_. R) m \<Longrightarrow> act_keeps R n \<Longrightarrow> act_post (\<lambda>_. R) (act_then m n)"
  by (fastforce simp: act_post_def act_then_def act_bind_def dest: act_triple_retD split: prod.splits sum.splits)

lemma post_bind_keep:
  "act_post (\<lambda>_. R) m \<Longrightarrow> (\<And>a. act_keeps R (f a)) \<Longrightarrow> act_post (\<lambda>_. R) (act_bind m f)"
  by (fastforce simp: act_post_def act_bind_def dest: act_triple_retD split: prod.splits sum.splits)

lemma post_then_ret: "act_post (\<lambda>_. R) m \<Longrightarrow> (\<And>s. R s \<Longrightarrow> Q a s) \<Longrightarrow> act_post Q (act_then m (act_ret a))"
  by (fastforce simp: act_post_def act_then_def act_bind_def act_ret_def split: prod.splits sum.splits)

lemma post_on_task: "(\<And>t. Q (f t)) \<Longrightarrow> act_post (\<lambda>_ w. Q (aw_task w)) (on_task f)"
  by (simp add: act_post_def on_task_def act_modify_def)

lemma post_try_task: "(\<And>t u. f t = Inr u \<Longrightarrow> Q u) \<Longrightarrow> act_post (\<lambda>_ w. Q (aw_task w)) (try_task f)"
  by (auto simp: act_post_def try_task_def on_task_def act_defs split: sum.splits)

text \<open>The snapshot says how the run ended and with which answer.\<close>

definition ended :: "string \<Rightarrow> string \<Rightarrow> string \<Rightarrow> task_state \<Rightarrow> bool" where
  "ended status reason answer t \<longleftrightarrow> ts_status t = status \<and> ts_stop_reason t = reason \<and>
     (answer \<noteq> [] \<or> status = ''completed'' \<longrightarrow> ts_final_answer t = answer)"

lemma ended_frame [simp]:
  "ended st r a (t\<lparr>ts_checkpoint_id := c\<rparr>) = ended st r a t"
  "ended st r a (t\<lparr>ts_run_finished_emitted := e\<rparr>) = ended st r a t"
  "ended st r a (record_error stage code b n t) = ended st r a t"
  by (simp_all add: ended_def record_error_def)

lemma ended_stop [simp]: "status \<noteq> ''completed'' \<Longrightarrow> ended status reason answer (stop_run reason status answer t)"
  by (simp add: ended_def stop_run_def Let_def)

lemma ended_success: "finish_success answer t = Inr u \<Longrightarrow> ended ''completed'' ''final_answer_returned'' answer u"
  by (auto simp: finish_success_def set_phase_def ended_def Let_def split: if_splits)

lemma ended_phase: "ended st r a t \<Longrightarrow> set_phase p n c t = Inr u \<Longrightarrow> ended st r a u"
  by (auto simp: set_phase_def ended_def Let_def split: if_splits)

lemma finish_run_ends:
  "act_post (\<lambda>_ w. ended ''completed'' ''final_answer_returned'' answer (aw_task w)) (finish_run x msg answer)"
proof -
  have after: "act_post (\<lambda>_ w. ended ''completed'' ''final_answer_returned'' answer (aw_task w))
      (act_then (try_task (finish_success answer)) m)"
    if "keeps_task (ended ''completed'' ''final_answer_returned'' answer) m" for m :: "('a, unit) agent_act"
    by (rule post_then_keep [OF post_try_task that]) (rule ended_success)
  show ?thesis
    unfolding finish_run_def
    by (rule post_then, rule post_then, rule post_then, rule post_then, rule post_then, rule after)
      (auto intro!: keeps_rules make_checkpoint_task run_finished_task)
qed

lemma post_gives: "act_post (\<lambda>_. R) m \<Longrightarrow> act_gives P m \<Longrightarrow> act_post (\<lambda>r s. P r \<and> R s) m"
  by (auto simp: act_post_def act_gives_def)

text \<open>A round that returns an answer leaves the snapshot as \<open>ended\<close> with it.\<close>

definition answered :: "string \<Rightarrow> task_state \<Rightarrow> bool" where
  "answered answer t \<longleftrightarrow> ended ''completed'' ''final_answer_returned'' answer t \<or>
     (\<exists>reason. reason \<in> {''budget_exhausted'', ''convergence_guard_triggered''} \<and> ended ''stopped'' reason answer t)"

definition round_post :: "flow \<times> loop_vars \<Rightarrow> 'h agent_world \<Rightarrow> bool" where
  "round_post r w \<longleftrightarrow> (case fst r of Answer a \<Rightarrow> answered a (aw_task w) | _ \<Rightarrow> True)"

lemma round_post_quiet: "act_gives (\<lambda>r. fst r = Go_On \<or> fst r = Leave) m \<Longrightarrow> act_post round_post m"
  by (fastforce simp: act_post_def act_gives_def round_post_def)

lemma round_post_answer:
  assumes "act_post (\<lambda>_ w. answered answer (aw_task w)) m" and "act_gives (\<lambda>r. fst r = Answer answer) m"
  shows "act_post round_post m"
  using assms by (fastforce simp: act_post_def act_gives_def round_post_def)

lemma post_weaken: "act_post P m \<Longrightarrow> (\<And>a s. P a s \<Longrightarrow> Q a s) \<Longrightarrow> act_post Q m"
  by (auto simp: act_post_def)

lemma accept_final_ends:
  "act_post (\<lambda>_ w. ended ''completed'' ''final_answer_returned'' (py_strip payload) (aw_task w))
     (accept_final x msg payload v)"
  unfolding accept_final_def by (rule post_then_keep [OF finish_run_ends]) (rule keeps_rules)

lemma accept_final_post: "act_post round_post (accept_final x msg payload v)"
proof (rule round_post_answer [where answer = "py_strip payload"])
  show "act_post (\<lambda>_ w. answered (py_strip payload) (aw_task w)) (accept_final x msg payload v)"
    by (rule post_weaken [OF accept_final_ends]) (simp add: answered_def)
qed (simp add: accept_final_def gives_rules)

lemma stop_with_post:
  assumes "reason \<in> {''budget_exhausted'', ''convergence_guard_triggered''}"
    and "act_post (\<lambda>_ w. ended ''stopped'' reason answer (aw_task w)) (on_task f :: ('h, unit) agent_act)"
  shows "act_post round_post (stop_with x f answer v :: 'h round_act)"
proof (rule round_post_answer [where answer = answer])
  have "act_post (\<lambda>_ w. ended ''stopped'' reason answer (aw_task w)) (stop_with x f answer v)"
    unfolding stop_with_def by (rule post_then_keep [OF assms(2)]) (auto intro!: keeps_rules)
  then show "act_post (\<lambda>_ w. answered answer (aw_task w)) (stop_with x f answer v)"
    by (rule post_weaken) (use assms(1) in \<open>auto simp: answered_def\<close>)
qed (simp add: stop_with_def gives_rules)

lemma stop_rejected_post: "act_post round_post (stop_rejected x v)"
  unfolding stop_rejected_def
  by (intro post_rules stop_with_post [where reason = "''convergence_guard_triggered''"] post_on_task) simp_all

lemma stop_at_cap_post: "act_post round_post (stop_at_cap x reason v)"
proof -
  let ?E = "\<lambda>answer w. ended ''stopped'' ''budget_exhausted'' answer (aw_task w)"
  have "act_post (\<lambda>_. ?E answer)
      (act_then (on_task (\<lambda>t. record_error ''budget_cap'' reason False n (stop_run ''budget_exhausted'' ''stopped'' answer t)))
        (act_then (trace x ''budget_cap_hit'') (stop_with x id answer v)))" for answer n
    by (rule post_then_keep [OF post_on_task]) (auto simp: stop_with_def intro!: keeps_rules on_task_task)
  moreover have "act_gives (\<lambda>r. fst r = Answer answer)
      (act_then (on_task f) (act_then (trace x s) (stop_with x id answer v)))" for answer f s
    unfolding stop_with_def by (intro gives_rules) simp
  ultimately show ?thesis
    unfolding stop_at_cap_def
    by (intro post_bind round_post_answer) (auto intro: post_weaken simp: answered_def)
qed

lemma settle_final_post: "act_post round_post (settle_final x msg payload d v)"
  unfolding settle_final_def
  by (intro post_rules accept_final_post; rule round_post_quiet)
    (auto simp: reject_final_def await_confirmation_def intro!: gives_rules)

lemma poll_review_post: "act_post round_post (poll_review x msg v)"
  by (rule round_post_quiet) (auto simp: poll_review_def redirected_def Let_def intro!: gives_rules)

lemma round_by_kind_post: "act_post round_post (round_by_kind x msg reply v)"
proof (cases reply)
  case (Reply_Final answer)
  then show ?thesis by (auto simp: round_by_kind_def final_round_def intro!: post_rules settle_final_post)
qed (auto simp: round_by_kind_def talk_round_def retry_round_def tool_round_def batch_round_def run_batch_def
    poll_review_def redirected_def Let_def intro!: round_post_quiet gives_rules)

lemma last_round_post: "act_post round_post (last_round x msg raw v)"
  unfolding last_round_def final_round_def
  by (intro post_rules settle_final_post; rule round_post_quiet) (auto intro!: gives_rules)

lemma post_pair: "(\<And>a b. p = (a, b) \<Longrightarrow> act_post Q (f a b)) \<Longrightarrow> act_post Q (case p of (a, b) \<Rightarrow> f a b)"
  by (cases p) simp

lemma loop_round_post: "act_post round_post (loop_round x msg v)"
  unfolding loop_round_def model_round_def Let_def
  by (intro post_rules post_pair stop_at_cap_post stop_rejected_post last_round_post round_by_kind_post)

lemma run_rounds_post: "run_rounds x msg v w = (Inr r, w') \<Longrightarrow> round_post r w'"
proof (induction x msg v w rule: run_rounds.induct)
  case (1 x msg v w)
  show ?case
  proof (cases "may_go_on v")
    case True
    obtain res u where round: "loop_round x msg v w = (res, u)" by fastforce
    show ?thesis
    proof (cases res)
      case (Inl e)
      with 1(2) True round show ?thesis by (simp add: run_rounds.simps)
    next
      case (Inr p)
      obtain flow v' where p: "p = (flow, v')" by fastforce
      have "round_post p u" using act_postD [OF loop_round_post round [unfolded Inr]] .
      then show ?thesis
        using 1 True round Inr p by (cases "goes_on (flow, v')") (auto simp: run_rounds.simps [of _ _ v])
    qed
  next
    case False
    with 1(2) show ?thesis by (auto simp: run_rounds.simps round_post_def)
  qed
qed

definition stop_ended :: "string \<Rightarrow> 'h agent_world \<Rightarrow> bool" where
  "stop_ended answer w \<longleftrightarrow> ended ''stopped'' ''retry_limit_reached'' answer (aw_task w) \<or>
     ended ''stopped'' ''convergence_guard_triggered'' answer (aw_task w)"

lemma post_ret_last: "act_gives (\<lambda>r. r = answer) m \<Longrightarrow> act_post (\<lambda>_. Q) m \<Longrightarrow> (\<And>w. Q w \<Longrightarrow> R answer w) \<Longrightarrow> act_post R m"
  unfolding act_post_def act_gives_def by metis

lemma stop_tail_keeps:
  "keeps_task (ended st r a) (act_then (to_phase p s)
     (act_then (save x) (act_then (show_state x t)
       (act_then (record_item x role answer [])
         (act_then (act_when b (on_agent_env m))
           (act_then (save x)
             (act_then (act_when c (act_then (make_checkpoint x reason) (trace x u)))
               (act_then (run_finished x) (act_ret answer)))))))))"
  unfolding to_phase_def
  by (intro keeps_rules try_task_task make_checkpoint_task run_finished_task) (simp_all add: ended_phase)

lemma stop_loop_ends: "act_post stop_ended (stop_loop x msg v)"
proof -
  let ?limit = "lv_protocol_failed v \<or> MAX_ATTEMPTS_SAFETY \<le> lv_attempts v"
  let ?reason = "if ?limit then ''retry_limit_reached'' else ''convergence_guard_triggered''"
  show ?thesis
    unfolding stop_loop_def Let_def
  proof (rule post_bind)
    fix answer
    show "act_post stop_ended
      (act_then (on_task (stop_run ?reason ''stopped'' answer))
        (act_then (to_phase ''FINAL'' ''Explain the budget or execution blocker'')
          (act_then (save x)
            (act_then (show_state x ''run_stopped'')
              (act_then (record_item x ''assistant'' answer [])
                (act_then (act_when (ag_allow_memory x) (on_agent_env (ag_promote x msg answer)))
                  (act_then (save x)
                    (act_then (act_when (ag_allow_checkpoint x)
                        (act_then (make_checkpoint x ?reason) (trace x ''checkpoint_created'')))
                      (act_then (run_finished x) (act_ret answer))))))))))"
      by (rule post_ret_last [where answer = answer], intro gives_rules, simp,
          rule post_then_keep [OF post_on_task stop_tail_keeps [where r = ?reason and st = "''stopped''" and a = answer]])
        (simp_all add: stop_ended_def split: if_splits)
  qed
qed

lemma run_loop_ends:
  "act_post (\<lambda>answer w. answered answer (aw_task w) \<or> stop_ended answer w) (run_loop x msg)"
proof -
  have "answered a (aw_task u) \<or> stop_ended a u"
    if r: "run_rounds x msg loop_start w = (Inr (flow, v), w')"
      and e: "(case flow of Answer answer \<Rightarrow> act_ret answer | _ \<Rightarrow> stop_loop x msg v) w' = (Inr a, u)" for w flow v w' a u
  proof (cases flow)
    case (Answer answer)
    with run_rounds_post [OF r] e show ?thesis by (simp add: round_post_def act_ret_def)
  next
    case Go_On
    with e act_postD [OF stop_loop_ends, of x msg v w' a u] show ?thesis by simp
  next
    case Leave
    with e act_postD [OF stop_loop_ends, of x msg v w' a u] show ?thesis by simp
  qed
  then show ?thesis
    unfolding run_loop_def
    by (intro post_then) (auto simp: act_post_def act_bind_def split: prod.splits sum.splits)
qed

text \<open>The six ways a run that returns may have ended.\<close>

definition RUN_ENDINGS :: "(string \<times> string) list" where
  "RUN_ENDINGS = [(''completed'', ''final_answer_returned''), (''stopped'', ''budget_exhausted''),
     (''stopped'', ''convergence_guard_triggered''), (''stopped'', ''retry_limit_reached''),
     (''stopped'', ''user_cancelled''), (''failed'', ''process_cleanup_failed'')]"

definition run_ended :: "string \<Rightarrow> task_state \<Rightarrow> bool" where
  "run_ended answer t \<longleftrightarrow> list_ex (\<lambda>(status, reason). ended status reason answer t) RUN_ENDINGS"

lemma run_ended_loop: "answered answer (aw_task w) \<or> stop_ended answer w \<Longrightarrow> run_ended answer (aw_task w)"
  unfolding answered_def stop_ended_def run_ended_def RUN_ENDINGS_def list_ex_Nil_iff list_ex_Cons_iff prod.case by blast

lemma run_ended_interrupt:
  "ended ''stopped'' ''user_cancelled'' answer t \<Longrightarrow> run_ended answer t"
  "ended ''failed'' ''process_cleanup_failed'' answer t \<Longrightarrow> run_ended answer t"
  unfolding run_ended_def RUN_ENDINGS_def list_ex_Nil_iff list_ex_Cons_iff prod.case by blast+

lemma end_run_ends:
  "status \<noteq> ''completed'' \<Longrightarrow>
   act_post (\<lambda>_ w. ended status reason answer (aw_task w)) (end_run x (stop_run reason status answer))"
  unfolding end_run_def by (rule post_then_keep [OF post_on_task]) (auto intro!: keeps_rules run_finished_task)

lemma post_then_get:
  "act_post (\<lambda>_. R) m \<Longrightarrow> (\<And>s. R s \<Longrightarrow> Q (f s) s) \<Longrightarrow> act_post Q (act_then m (act_get f))"
  by (fastforce simp: act_post_def act_then_def act_bind_def act_get_def split: prod.splits sum.splits)

lemma run_interrupted_ends: "act_post (\<lambda>answer w. run_ended answer (aw_task w)) (run_interrupted x e)"
proof (cases e)
  case Process_Cleanup_Failed
  have answer: "ts_final_answer t = cleanup_answer" if "ended ''failed'' r cleanup_answer t" for r t
    using that by (simp add: ended_def cleanup_answer_def)
  show ?thesis
    unfolding run_interrupted_def Process_Cleanup_Failed tool_exn.case
    by (rule post_then_get [OF end_run_ends]) (simp_all add: run_ended_interrupt(2) answer)
next
  case Tool_Cancelled
  show ?thesis
    unfolding run_interrupted_def Tool_Cancelled tool_exn.case
    by (rule post_then_ret [OF end_run_ends]) (simp_all add: run_ended_interrupt(1))
qed (simp add: run_interrupted_def post_raise)

lemma post_catch: "act_post Q m \<Longrightarrow> (\<And>e. act_post Q (h e)) \<Longrightarrow> act_post Q (act_catch m h)"
  by (fastforce simp: act_post_def act_catch_def split: prod.splits sum.splits)

text \<open>
  C15. Every run that returns has ended, whatever the model, the tools and the reviews answered: its
  snapshot is completed with the returned text as its answer, stopped at a budget, a limit or the
  convergence guard, stopped by a cancellation, or failed because a shell process could not be
  cleaned up.
\<close>

theorem run_returns_ended:
  assumes "run_agent x rid tid msg w = (Inr answer, w')"
  shows "list_ex (\<lambda>(status, reason). ended status reason answer (aw_task w'))
    [(''completed'', ''final_answer_returned''), (''stopped'', ''budget_exhausted''),
     (''stopped'', ''convergence_guard_triggered''), (''stopped'', ''retry_limit_reached''),
     (''stopped'', ''user_cancelled''), (''failed'', ''process_cleanup_failed'')]"
proof -
  have "act_post (\<lambda>answer w. run_ended answer (aw_task w)) (run_agent x rid tid msg)"
    unfolding run_agent_def run_body_def
    by (intro post_then post_catch post_bind run_interrupted_ends)
      (rule post_weaken [OF run_loop_ends], rule run_ended_loop)
  from act_postD [OF this assms] show ?thesis by (simp only: run_ended_def RUN_ENDINGS_def)
qed

theorem run_returns_ended_witness:
  "\<exists>w'. run_agent sample_agent ''r'' ''t'' ''do it'' (sample_world [JStr ''<final>done</final>'']) = (Inr ''done'', w') \<and>
    list_ex (\<lambda>(status, reason). ended status reason ''done'' (aw_task w'))
      [(''completed'', ''final_answer_returned''), (''stopped'', ''budget_exhausted''),
       (''stopped'', ''convergence_guard_triggered''), (''stopped'', ''retry_limit_reached''),
       (''stopped'', ''user_cancelled''), (''failed'', ''process_cleanup_failed'')]"
proof -
  obtain w' where "run_agent sample_agent ''r'' ''t'' ''do it'' (sample_world [JStr ''<final>done</final>'']) = (Inr ''done'', w')"
    by (rule sample_run)
  from this run_returns_ended [OF this] show ?thesis by blast
qed

end
