(* ===== verification/Loop_Log.thy ===== *)
theory Loop_Log
  imports Agent_Runs
begin

text \<open>
  What the log of a run shows: how often the model is asked, and that no tool runs once it has been
  asked for an answer only.
\<close>

section \<open>Code that logs nothing of the model and of its tools\<close>

lemma keeps_pair: "(\<And>a b. p = (a, b) \<Longrightarrow> act_keeps P (f a b)) \<Longrightarrow> act_keeps P (case p of (a, b) \<Rightarrow> f a b)"
  by (cases p) simp

lemma keeps_option: "act_keeps P m \<Longrightarrow> (\<And>y. act_keeps P (g y)) \<Longrightarrow> act_keeps P (case z of None \<Rightarrow> m | Some y \<Rightarrow> g y)"
  by (cases z) simp_all

lemma keeps_sum:
  "(\<And>e. act_keeps P (h e)) \<Longrightarrow> (\<And>y. act_keeps P (k y)) \<Longrightarrow> act_keeps P (case u of Inl e \<Rightarrow> h e | Inr y \<Rightarrow> k y)"
  by (cases u) simp_all

lemmas case_keeps = keeps_pair keeps_option keeps_sum

definition quiet_event :: "agent_event \<Rightarrow> bool" where
  "quiet_event e \<longleftrightarrow> (case e of A_Model _ \<Rightarrow> False | A_Tool _ \<Rightarrow> False | _ \<Rightarrow> True)"

abbreviation keeps_log :: "(agent_event list \<Rightarrow> bool) \<Rightarrow> ('h, 'a) agent_act \<Rightarrow> bool" where
  "keeps_log P m \<equiv> act_keeps (\<lambda>w. P (aw_log w)) m"

locale quiet_log =
  fixes P :: "agent_event list \<Rightarrow> bool"
  assumes quiet: "P l \<Longrightarrow> quiet_event e \<Longrightarrow> P (l @ [e])"
begin

lemma note_quiet: "quiet_event e \<Longrightarrow> keeps_log P (note_event e)"
  unfolding note_event_def by (intro keeps_rules) (simp add: quiet)

lemma env_log [keeps_rules]: "keeps_log P (on_agent_env m)"
  by (rule act_keepsI) (simp add: on_agent_env_def split: prod.splits)

lemma exec_log [keeps_rules]: "keeps_log P (on_exec m)"
  by (rule act_keepsI) (simp add: on_exec_def split: prod.splits)

lemma task_log [keeps_rules]: "keeps_log P (on_task f)"
  unfolding on_task_def by (intro keeps_rules) simp

lemma try_log [keeps_rules]: "keeps_log P (try_task f)"
  unfolding try_task_def by (intro keeps_rules case_keeps)

lemma phase_log [keeps_rules]: "keeps_log P (to_phase p n)" "keeps_log P (act_phase n)"
  unfolding act_phase_def to_phase_def by (intro keeps_rules)+

lemma out_log: "quiet_event e \<Longrightarrow> keeps_log P (out x e)"
  unfolding out_def by (intro keeps_rules note_quiet)

lemma out_logs [keeps_rules]:
  "keeps_log P (trace x name)" "keeps_log P (save x)" "keeps_log P (show_state x reason)" "keeps_log P (out x A_Start)"
  "keeps_log P (out x (A_Record r t))" "keeps_log P (out x A_Report)" "keeps_log P (out x (A_Commentary t))"
  "keeps_log P (out x (A_Protocol_Retry n))" "keeps_log P (out x (A_Review r v))"
  by (intro out_log; simp add: quiet_event_def)+

lemma small_logs [keeps_rules]:
  "keeps_log P (check_cancelled x)" "keeps_log P (record_item x role content extra)" "keeps_log P (make_checkpoint x trigger)"
  "keeps_log P (run_finished x)" "keeps_log P leave_reasoning"
  unfolding check_cancelled_def record_item_def make_checkpoint_def run_finished_def leave_reasoning_def
  by (auto intro!: keeps_rules note_quiet simp: quiet_event_def)

lemma summary_log [keeps_rules]: "keeps_log P (convergence_summary x reason)"
  unfolding convergence_summary_def Let_def by (intro keeps_rules)

lemma criterion_log [keeps_rules]: "keeps_log P (verify_done_when x cache criterion)"
  unfolding verify_done_when_def verify_command_def Let_def by (intro keeps_rules case_keeps)

lemma goal_log [keeps_rules]: "keeps_log P (check_goal x goal cache dws)"
proof (induction dws arbitrary: cache)
  case (Cons dw dws cache)
  have "keeps_log P (case r of None \<Rightarrow> act_ret (False, c)
       | Some True \<Rightarrow> act_then (on_task (complete_item goal)) (act_then (trace x s) (act_ret (True, c)))
       | Some False \<Rightarrow> check_goal x goal c dws)" for r c s
    by (cases r) (auto intro!: keeps_rules Cons.IH split: bool.split)
  then show ?case by (auto intro!: keeps_rules keeps_pair)
qed (simp add: keeps_rules)

lemma goals_log [keeps_rules]: "keeps_log P (check_goals x cache goals)"
  by (induction goals arbitrary: cache) (auto intro!: keeps_rules keeps_pair)

lemma checklist_log [keeps_rules]: "keeps_log P (check_checklist_progress x cache)"
  unfolding check_checklist_progress_def by (intro keeps_rules keeps_pair)

lemma planning_log [keeps_rules]: "keeps_log P (run_planning x task replan)"
  unfolding run_planning_def by (intro keeps_rules keeps_sum)

lemma plan_logs [keeps_rules]: "keeps_log P (initial_plan x msg)" "keeps_log P (make_replan x msg feedback)"
  unfolding initial_plan_def make_replan_def by (intro keeps_rules)+

lemma review_tool_log [keeps_rules]: "keeps_log P (execute_review_tool x name args)"
  unfolding execute_review_tool_def by (intro keeps_rules keeps_option)

lemma review_steps_log [keeps_rules]: "keeps_log P (review_steps x k n ok ctx)"
proof (induction k arbitrary: n ok ctx)
  case (Suc k n ok ctx)
  show ?case
    by (auto intro!: keeps_rules Suc.IH split: sum.split review_action.split)
qed (simp add: keeps_rules)

lemma review_log [keeps_rules]: "keeps_log P (maybe_run_review x request trigger wrote verified prior)"
  unfolding maybe_run_review_def run_review_def audit_review_def Let_def
  by (intro keeps_rules) (auto intro!: keeps_rules split: review_result.split)

lemma apply_steps_log [keeps_rules]: "keeps_log P (apply_steps x checked goals)"
  by (induction goals arbitrary: checked) (auto simp: apply_step_def Let_def intro!: keeps_rules)

lemma apply_log [keeps_rules]: "keeps_log P (apply_review_completed_steps x d)"
  unfolding apply_review_completed_steps_def by (intro keeps_rules)

lemma final_log [keeps_rules]: "keeps_log P (final_round x msg answer v)"
  unfolding final_round_def final_review_def settle_final_def reject_final_def note_rejected_def accept_final_def
    finish_run_def await_confirmation_def
  by (intro keeps_rules)

lemma last_log [keeps_rules]: "keeps_log P (last_round x msg raw v)"
  unfolding last_round_def by (intro keeps_rules)

lemma stop_logs [keeps_rules]: "keeps_log P (stop_at_cap x reason v)" "keeps_log P (stop_rejected x v)"
  "keeps_log P (stop_loop x msg v)"
  unfolding stop_at_cap_def stop_rejected_def stop_loop_def stop_with_def Let_def by (intro keeps_rules)+

lemma judge_log [keeps_rules]: "keeps_log P (judge_round x v)"
  unfolding judge_round_def Let_def by (intro keeps_rules keeps_option)

lemma interrupted_log [keeps_rules]: "keeps_log P (run_interrupted x e)"
  unfolding run_interrupted_def end_run_def by (cases e) (auto intro!: keeps_rules)

lemma start_log [keeps_rules]: "keeps_log P (start_run x rid tid msg)"
  unfolding start_run_def by (intro keeps_rules) simp

end


section \<open>Code that runs tools\<close>

locale tools_log = quiet_log +
  assumes tool: "P l \<Longrightarrow> P (l @ [A_Tool name])"
begin

lemma perform_log [keeps_rules]: "keeps_log P (perform_tool x name args call_id window)"
proof -
  have "keeps_log P (note_event (A_Tool name))"
    unfolding note_event_def by (intro keeps_rules) (simp add: tool)
  then show ?thesis
    unfolding perform_tool_def by (auto intro!: keeps_rules split: sum.split bool.split)
qed

lemma commit_log [keeps_rules]: "keeps_log P (commit_tool_action x name args call_id window r)"
  unfolding commit_tool_action_def report_tool_def add_evidence_def checkpoint_and_trace_def Let_def
  by (intro keeps_rules keeps_sum)

lemma poll_log [keeps_rules]: "keeps_log P (poll_review x msg v)"
  unfolding poll_review_def redirected_def Let_def by (intro keeps_rules)

lemma tool_round_log [keeps_rules]: "keeps_log P (tool_round x msg payload v)"
  unfolding tool_round_def execute_tool_action_def rebut_def Let_def by (intro keeps_rules keeps_pair)

lemma item_log [keeps_rules]: "keeps_log P (perform_item x window item)"
  unfolding perform_item_def Let_def by (intro keeps_rules)

lemma pool_log [keeps_rules]: "keeps_log P (run_pool x window items)" "keeps_log P (run_serial x window items)"
  by (induction items) (auto intro!: keeps_rules)

lemma concurrent_log [keeps_rules]: "keeps_log P (run_concurrent x window items)"
  unfolding run_concurrent_def by (intro keeps_rules keeps_sum)

lemma commits_log [keeps_rules]: "keeps_log P (commit_all x window all_bad ds)"
  by (induction ds arbitrary: window all_bad) (auto intro!: keeps_rules keeps_pair)

lemma batch_log [keeps_rules]: "keeps_log P (batch_round x msg items v)"
  unfolding batch_round_def run_batch_def rebut_batch_def Let_def by (intro keeps_rules case_keeps)

lemma kind_log [keeps_rules]: "keeps_log P (round_by_kind x msg reply v)"
  unfolding round_by_kind_def talk_round_def retry_round_def by (cases reply) (auto intro!: keeps_rules)

end

section \<open>Code that weakens what holds of the log once\<close>

text \<open>\<open>act_moves P R m\<close>: started with \<open>P\<close>, the code ends with the weaker \<open>R\<close>.\<close>

abbreviation act_moves :: "('s \<Rightarrow> bool) \<Rightarrow> ('s \<Rightarrow> bool) \<Rightarrow> ('s, 'e, 'a) act \<Rightarrow> bool" where
  "act_moves P R m \<equiv> act_triple P m (\<lambda>_. R) (\<lambda>_. R)"

lemma moves_keeps:
  assumes "\<And>s. P s \<Longrightarrow> R s" and "act_keeps P m"
  shows "act_moves P R m"
  by (rule act_triple_conseq [OF assms(2)]) (use assms(1) in auto)

lemma moves_after:
  assumes "\<And>s. P s \<Longrightarrow> R s" and "act_keeps P m" and "\<And>a. act_moves P R (f a)"
  shows "act_moves P R (act_bind m f)"
proof -
  have "act_triple P m (\<lambda>_. P) (\<lambda>_. R)"
    by (rule act_triple_conseq [OF assms(2)]) (use assms(1) in auto)
  then show ?thesis by (rule act_triple_bind) (rule assms(3))
qed

lemma moves_then:
  "(\<And>s. P s \<Longrightarrow> R s) \<Longrightarrow> act_keeps P m \<Longrightarrow> act_moves P R k \<Longrightarrow> act_moves P R (act_then m k)"
  unfolding act_then_def by (rule moves_after)

lemma moves_before: "act_moves P R m \<Longrightarrow> (\<And>a. act_keeps R (f a)) \<Longrightarrow> act_moves P R (act_bind m f)"
  by (rule act_triple_bind)

lemma moves_first: "act_moves P R m \<Longrightarrow> act_keeps R k \<Longrightarrow> act_moves P R (act_then m k)"
  unfolding act_then_def by (rule moves_before)

lemma moves_catch: "act_moves P R m \<Longrightarrow> (\<And>e. act_keeps R (h e)) \<Longrightarrow> act_moves P R (act_catch m h)"
  by (rule act_triple_catch)

lemma moves_if: "(b \<Longrightarrow> act_moves P R m) \<Longrightarrow> (\<not> b \<Longrightarrow> act_moves P R k) \<Longrightarrow> act_moves P R (if b then m else k)"
  by simp

text \<open>The request of a round: \<open>P\<close> holds before it, \<open>R\<close> after it.\<close>

lemma decide_round_moves:
  fixes x :: "'h agent_config"
  assumes weak: "\<And>l. P l \<Longrightarrow> R l" and "quiet_log P" and "quiet_log R"
    and asked: "\<And>l. P l \<Longrightarrow> R (l @ [A_Model (lv_final_only v)])"
  shows "act_moves (\<lambda>w. P (aw_log w)) (\<lambda>w. R (aw_log w)) (decide_round x msg v)"
proof -
  note p = quiet_log.env_log [OF assms(2)] quiet_log.task_log [OF assms(2)] quiet_log.phase_log [OF assms(2)]
    quiet_log.out_logs [OF assms(2)] quiet_log.small_logs [OF assms(2)]
  note r = quiet_log.env_log [OF assms(3)] quiet_log.task_log [OF assms(3)] quiet_log.small_logs [OF assms(3)]
    quiet_log.out_logs [OF assms(3)]
  have once: "act_moves (\<lambda>w. P (aw_log w)) (\<lambda>w. R (aw_log w)) (note_event (A_Model (lv_final_only v)))"
    by (auto simp: note_event_def asked intro!: act_rules)
  have ask: "act_moves (\<lambda>w. P (aw_log w)) (\<lambda>w. R (aw_log w)) (ask_model x prompt (lv_final_only v))" for prompt
    unfolding ask_model_def
    by (rule moves_then, erule weak, rule p, rule moves_after, erule weak, rule keeps_rules, rule moves_then,
        erule weak, rule p, rule moves_first [OF once]) (intro keeps_rules r keeps_pair)
  show ?thesis
    unfolding decide_round_def prompt_checkpoints_def checkpoint_and_trace_def
    by (intro moves_then moves_after moves_before [OF ask] weak keeps_rules p r keeps_sum)
qed

section \<open>The number of requests\<close>

definition requests :: "agent_event list \<Rightarrow> nat" where
  "requests l = length (filter (\<lambda>e. case e of A_Model _ \<Rightarrow> True | _ \<Rightarrow> False) l)"

lemma requests_add: "requests (l @ [e]) = requests l + (case e of A_Model _ \<Rightarrow> 1 | _ \<Rightarrow> 0)"
  by (simp add: requests_def split: agent_event.split)

interpretation asked: tools_log "\<lambda>l. requests l \<le> n" for n
  by unfold_locales (auto simp: requests_add quiet_event_def split: agent_event.splits)

abbreviation asked_at_most :: "nat \<Rightarrow> 'h agent_world \<Rightarrow> bool" where
  "asked_at_most n w \<equiv> requests (aw_log w) \<le> n"

lemma model_round_asks: "act_moves (asked_at_most n) (asked_at_most (Suc n)) (model_round x msg v)"
proof -
  have "act_moves (asked_at_most n) (asked_at_most (Suc n)) (decide_round x msg u)" for u
    by (rule decide_round_moves) (simp_all add: requests_add asked.quiet_log_axioms)
  then show ?thesis
    unfolding model_round_def Let_def by (rule moves_before) (intro keeps_rules keeps_pair)
qed

lemma loop_round_asks: "act_moves (asked_at_most n) (asked_at_most (Suc n)) (loop_round x msg v)"
  unfolding loop_round_def Let_def
  by (rule moves_then, simp, rule keeps_rules, rule moves_after, simp, rule keeps_rules, rule moves_if,
      rule moves_keeps, simp, rule keeps_rules, rule moves_after, simp, rule keeps_rules, rule moves_if,
      rule moves_keeps, simp, rule keeps_rules, rule model_round_asks)

lemma run_rounds_asks:
  "run_rounds x msg v w = (r, w') \<Longrightarrow>
   requests (aw_log w') \<le> requests (aw_log w) + (MAX_ATTEMPTS_SAFETY - lv_attempts v)"
proof (induction x msg v w arbitrary: r w' rule: run_rounds.induct)
  case (1 x msg v w)
  show ?case
  proof (cases "may_go_on v")
    case True
    obtain res u where round: "loop_round x msg v w = (res, u)" by fastforce
    have "asked_at_most (Suc (requests (aw_log w))) u"
      using loop_round_asks [of "requests (aw_log w)" x msg v] round
      by (cases res) (auto simp: act_triple_def)
    moreover have "lv_attempts v < MAX_ATTEMPTS_SAFETY" using True by (simp add: may_go_on_def)
    moreover have "requests (aw_log w') \<le> requests (aw_log u) + (MAX_ATTEMPTS_SAFETY - Suc (lv_attempts v))"
    proof (cases res)
      case (Inl e)
      with 1(2) True round show ?thesis by (simp add: run_rounds.simps)
    next
      case (Inr p)
      obtain flow v' where p: "p = (flow, v')" by fastforce
      show ?thesis
      proof (cases "goes_on (flow, v')")
        case go: True
        have "lv_attempts v' = Suc (lv_attempts v)"
          using act_givesD [OF loop_round_counts round [unfolded Inr p]] go by simp
        moreover have "run_rounds x msg v' u = (r, w')"
          using 1(2) True round Inr p go by (subst (asm) run_rounds.simps) simp
        ultimately show ?thesis
          using 1(1) [OF _ round [symmetric] Inr p [symmetric] go] True by simp
      qed (use 1(2) True round Inr p in \<open>simp add: run_rounds.simps [of _ _ v]\<close>)
    qed
    ultimately show ?thesis by linarith
  next
    case False
    with 1(2) show ?thesis by (simp add: run_rounds.simps)
  qed
qed


lemma run_loop_asks:
  "act_moves (asked_at_most n) (asked_at_most (n + MAX_ATTEMPTS_SAFETY)) (run_loop x msg)"
proof -
  have "act_moves (asked_at_most n) (asked_at_most (n + MAX_ATTEMPTS_SAFETY)) (run_rounds x msg loop_start)"
    by (rule act_tripleI; drule run_rounds_asks; simp add: loop_start_def)
  then show ?thesis
    unfolding run_loop_def
    by (intro moves_then moves_before) (auto intro!: keeps_rules split: flow.split)
qed

text \<open>
  C19. A run asks the model for at most 500 rounds, however it ends.
\<close>

theorem requests_bounded:
  assumes "run_agent x rid tid msg w = (r, w')"
  shows "requests (aw_log w') \<le> requests (aw_log w) + 500"
proof -
  let ?n = "requests (aw_log w)"
  have "act_moves (asked_at_most ?n) (asked_at_most (?n + MAX_ATTEMPTS_SAFETY)) (run_agent x rid tid msg)"
    unfolding run_agent_def run_body_def
    by (intro moves_then moves_after moves_catch run_loop_asks; (intro keeps_rules)?; simp)
  with assms show ?thesis
    by (cases r) (auto simp: act_triple_def MAX_ATTEMPTS_SAFETY_def)
qed


theorem requests_bounded_witness:
  "\<exists>w'. run_agent sample_agent ''r'' ''t'' ''do it'' (sample_world [JStr ''<final>done</final>'']) = (Inr ''done'', w') \<and>
    requests (aw_log w') \<le> requests [] + 500"
proof -
  obtain w' where run: "run_agent sample_agent ''r'' ''t'' ''do it'' (sample_world [JStr ''<final>done</final>'']) = (Inr ''done'', w')"
    by (rule sample_run)
  from run requests_bounded [OF run] show ?thesis by (simp add: sample_world_def)
qed

section \<open>Tools and the last round\<close>

definition is_tool_event :: "agent_event \<Rightarrow> bool" where
  "is_tool_event e \<longleftrightarrow> (case e of A_Tool _ \<Rightarrow> True | _ \<Rightarrow> False)"

definition unforced :: "agent_event list \<Rightarrow> bool" where
  "unforced l \<longleftrightarrow> A_Model True \<notin> set l"

text \<open>No tool after a request that admits only an answer.\<close>

definition tools_first :: "agent_event list \<Rightarrow> bool" where
  "tools_first l \<longleftrightarrow> list_all (\<lambda>e. \<not> is_tool_event e) (dropWhile (\<lambda>e. e \<noteq> A_Model True) l)"

lemma unforced_first:
  assumes "unforced l"
  shows "tools_first l"
proof -
  have none: "dropWhile (\<lambda>e. e \<noteq> A_Model True) l = []"
    using assms by (auto simp: unforced_def dropWhile_eq_Nil_conv)
  show ?thesis unfolding tools_first_def none by simp
qed

lemma tools_first_add: "tools_first l \<Longrightarrow> \<not> is_tool_event e \<Longrightarrow> tools_first (l @ [e])"
  by (auto simp: tools_first_def dropWhile_append)

interpretation free: tools_log unforced
  by unfold_locales (auto simp: unforced_def quiet_event_def)

interpretation ordered: quiet_log tools_first
  by unfold_locales (auto intro!: tools_first_add simp: is_tool_event_def quiet_event_def split: agent_event.splits)

abbreviation unforced_world :: "'h agent_world \<Rightarrow> bool" where
  "unforced_world w \<equiv> unforced (aw_log w)"

abbreviation ordered_world :: "'h agent_world \<Rightarrow> bool" where
  "ordered_world w \<equiv> tools_first (aw_log w)"

lemma triple_gives:
  "act_triple P m Q E \<Longrightarrow> act_gives G m \<Longrightarrow> act_triple P m (\<lambda>a s. G a \<and> Q a s) E"
  by (fastforce simp: act_triple_def act_gives_def split: prod.splits sum.splits)

lemma judge_round_final: "act_gives (\<lambda>u. lv_final_only u \<longrightarrow> lv_finalization_attempted u) (judge_round x v)"
  unfolding judge_round_def Let_def by (intro gives_rules) simp_all

lemma final_round_stops: "lv_finalization_attempted v \<Longrightarrow>
   act_gives (\<lambda>r. lv_finalization_attempted (snd r)) (final_round x msg answer v)"
  unfolding final_round_def settle_final_def reject_final_def accept_final_def await_confirmation_def
  by (intro gives_rules) simp_all

lemma last_round_stops: "lv_finalization_attempted v \<Longrightarrow>
   act_gives (\<lambda>r. lv_finalization_attempted (snd r)) (last_round x msg raw v)"
  unfolding last_round_def by (intro gives_rules final_round_stops) simp_all

text \<open>After a round: the loop has ended, or no answer has been demanded yet.\<close>

definition still_free :: "flow \<times> loop_vars \<Rightarrow> 'h agent_world \<Rightarrow> bool" where
  "still_free r w \<longleftrightarrow> ordered_world w \<and> (goes_on r \<and> may_go_on (snd r) \<longrightarrow> unforced_world w)"

lemma still_free_unforced:
  assumes "act_keeps unforced_world m"
  shows "act_triple unforced_world m still_free (\<lambda>_. ordered_world)"
  by (rule act_triple_conseq [OF assms]) (auto simp: still_free_def unforced_first)

lemma still_free_final:
  assumes "act_keeps ordered_world m" and "act_gives (\<lambda>r. lv_finalization_attempted (snd r)) m"
  shows "act_triple ordered_world m still_free (\<lambda>_. ordered_world)"
  by (rule act_triple_conseq [OF triple_gives [OF assms]]) (auto simp: still_free_def may_go_on_def)

lemma model_round_free:
  assumes "lv_final_only v \<longrightarrow> lv_finalization_attempted v"
  shows "act_triple unforced_world (model_round x msg v) still_free (\<lambda>_. ordered_world)"
proof (cases "lv_final_only v")
  case True
  have "act_moves unforced_world ordered_world (decide_round x msg (reset_turn v))"
    by (rule decide_round_moves)
      (auto intro: tools_first_add unforced_first simp: is_tool_event_def free.quiet_log_axioms ordered.quiet_log_axioms)
  then show ?thesis
    unfolding model_round_def Let_def
    by (rule act_triple_bind)
      (use True assms in \<open>auto simp: reset_turn_def round_by_kind_def is_final_def split: model_reply.splits
        intro!: still_free_final last_round_stops final_round_stops keeps_rules\<close>)
next
  case False
  have "act_keeps unforced_world (decide_round x msg (reset_turn v))"
    by (rule decide_round_moves)
      (simp_all add: free.quiet_log_axioms, use False in \<open>simp add: unforced_def reset_turn_def\<close>)
  then have "act_keeps unforced_world (model_round x msg v)"
    unfolding model_round_def Let_def by (intro keeps_rules keeps_pair)
  then show ?thesis by (rule still_free_unforced)
qed


lemma free_after:
  assumes "act_keeps unforced_world m" and "act_gives G m"
    and "\<And>a. G a \<Longrightarrow> act_triple unforced_world (f a) still_free (\<lambda>_. ordered_world)"
  shows "act_triple unforced_world (act_bind m f) still_free (\<lambda>_. ordered_world)"
proof -
  have "act_triple unforced_world m (\<lambda>a s. G a \<and> unforced_world s) (\<lambda>_. ordered_world)"
    by (rule act_triple_conseq [OF triple_gives [OF assms(1,2)]]) (auto intro: unforced_first)
  then show ?thesis
    by (rule act_triple_bind) (use assms(3) in \<open>auto simp: act_triple_def\<close>)
qed

lemma loop_round_free: "act_triple unforced_world (loop_round x msg v) still_free (\<lambda>_. ordered_world)"
  unfolding loop_round_def act_then_def Let_def
  by (rule free_after [OF _ gives_any], rule keeps_rules, rule free_after [OF _ gives_any], rule keeps_rules,
      rule act_triple_if, rule still_free_unforced, rule keeps_rules, rule free_after [OF _ judge_round_final],
      rule keeps_rules, rule act_triple_if, rule still_free_unforced, rule keeps_rules, rule model_round_free)
    (simp add: count_rejected_def)

lemma run_rounds_free:
  "run_rounds x msg v w = (r, w') \<Longrightarrow> ordered_world w \<Longrightarrow> (may_go_on v \<longrightarrow> unforced_world w) \<Longrightarrow> ordered_world w'"
proof (induction x msg v w arbitrary: r w' rule: run_rounds.induct)
  case (1 x msg v w)
  show ?case
  proof (cases "may_go_on v")
    case True
    obtain res u where round: "loop_round x msg v w = (res, u)" by fastforce
    with 1(4) True loop_round_free [of x msg v]
    have post: "case res of Inl e \<Rightarrow> ordered_world u | Inr p \<Rightarrow> still_free p u"
      by (cases res) (auto simp: act_triple_def)
    show ?thesis
    proof (cases res)
      case (Inl e)
      have "w' = u" using 1(2) True round Inl by (simp add: run_rounds.simps)
      with post Inl show ?thesis by simp
    next
      case (Inr p)
      obtain flow v' where p: "p = (flow, v')" by fastforce
      show ?thesis
      proof (cases "goes_on (flow, v')")
        case go: True
        have "run_rounds x msg v' u = (r, w')"
          using 1(2) True round Inr p go by (subst (asm) run_rounds.simps) simp
        then show ?thesis
          using 1(1) [OF _ round [symmetric] Inr p [symmetric] go] True post Inr p go by (simp add: still_free_def)
      next
        case stop: False
        have "w' = u" using 1(2) True round Inr p stop by (simp add: run_rounds.simps)
        with post Inr show ?thesis by (simp add: still_free_def)
      qed
    qed
  next
    case False
    with 1(2,3) show ?thesis by (simp add: run_rounds.simps)
  qed
qed

lemma run_loop_free: "act_moves unforced_world ordered_world (run_loop x msg)"
proof -
  have "act_moves unforced_world ordered_world (run_rounds x msg loop_start)"
    by (rule act_tripleI; drule run_rounds_free) (auto intro: unforced_first)
  then show ?thesis
    unfolding run_loop_def
    by (intro moves_then moves_before) (auto intro!: keeps_rules unforced_first split: flow.split)
qed

text \<open>
  C20. Once the runtime has asked the model for an answer only, because the run stagnates, no tool
  call of the model runs any more, whatever it answers and however the run ends.
\<close>

theorem no_tool_after_last_request:
  assumes "run_agent x rid tid msg w = (r, w')" and "A_Model True \<notin> set (aw_log w)"
  shows "tools_first (aw_log w')"
proof -
  have "act_moves unforced_world ordered_world (run_agent x rid tid msg)"
    unfolding run_agent_def run_body_def
    by (intro moves_then moves_after moves_catch run_loop_free; (intro keeps_rules)?; simp add: unforced_first)
  with assms show ?thesis
    by (cases r) (auto simp: act_triple_def unforced_def)
qed

theorem no_tool_after_last_request_witness:
  "\<exists>r w'. run_agent sample_agent ''r'' ''t'' ''do it'' (sample_world [JStr ''<final>done</final>'']) = (r, w') \<and>
    tools_first (aw_log w')"
proof -
  obtain w' where run: "run_agent sample_agent ''r'' ''t'' ''do it'' (sample_world [JStr ''<final>done</final>'']) = (Inr ''done'', w')"
    by (rule sample_run)
  have "A_Model True \<notin> set (aw_log (sample_world [JStr ''<final>done</final>'']))" by (simp add: sample_world_def)
  from run no_tool_after_last_request [OF run this] show ?thesis by blast
qed

end
