(* ===== verification/Agent_Rounds.thy ===== *)
theory Agent_Rounds
  imports Agent_Runs
begin

text \<open>
  What a round of the loop decides: the stagnation test, commentary, a batch that answers an
  approval, final answers and their reviews, and the finalization of a run.
\<close>

section \<open>Stagnation\<close>

lemma last_n_rev: "last_n n xs = rev (take n (rev xs))"
  by (simp add: last_n_def take_rev)

lemma take_while_take: "n \<le> length (takeWhile p xs) \<longleftrightarrow> n \<le> length xs \<and> list_all p (take n xs)"
  by (induction xs arbitrary: n) (auto simp: take_Cons split: nat.splits)

lemma list_all_rev: "list_all p (rev xs) = list_all p xs"
  by (auto simp: list_all_iff)

lemma stagnated_streak:
  assumes "n \<le> STAGNATION_WINDOW"
  shows "stagnated n audit \<longleftrightarrow> n \<le> length (takeWhile audit_bad (rev audit))"
proof -
  have "last_n n (map audit_bad (last_n STAGNATION_WINDOW audit)) = map audit_bad (last_n n audit)"
    using assms by (simp add: last_n_rev rev_map take_map min_absorb1)
  moreover have "n \<le> length (last_n STAGNATION_WINDOW audit) \<longleftrightarrow> n \<le> length audit"
    using assms by (auto simp: last_n_def)
  moreover have "list_all id (map audit_bad (last_n n audit)) \<longleftrightarrow> list_all audit_bad (take n (rev audit))"
    by (simp add: last_n_rev list_all_rev list_all_iff)
  ultimately show ?thesis by (simp add: stagnated_def Let_def take_while_take)
qed

definition streak_step :: "nat \<Rightarrow> json \<Rightarrow> nat" where
  "streak_step k item = (if audit_bad item then k + 1 else 0)"

lemma streak_fold: "foldl streak_step 0 audit = length (takeWhile audit_bad (rev audit))"
  by (induction audit rule: rev_induct) (simp_all add: streak_step_def)

text \<open>
  C27. The stagnation test over the window of audited rounds implements a counter of consecutive bad
  rounds: it stops a run exactly when three rounds in a row, the last three, were bad, whatever
  the turns that are left.
\<close>

theorem stagnation_counts_bad_rounds:
  "stagnated (stagnation_threshold remaining) audit \<longleftrightarrow> 3 \<le> foldl streak_step 0 audit"
  unfolding stagnation_threshold_def
  by (subst stagnated_streak) (simp_all add: STAGNATION_TOLERANCE_def STAGNATION_WINDOW_def streak_fold)

section \<open>Commentary\<close>

text \<open>
  A model that only talks is never stopped for it: a round whose reply is commentary goes on,
  leaves nothing for the stagnation audit to hold against it and resets the count of rejected
  answers, however many such rounds came before.
\<close>

theorem talk_is_never_bad:
  assumes "decide_round x msg (reset_turn v) w = (Inr (raw, Reply_Talk t), w1)" and "\<not> lv_final_only v"
    and "model_round x msg v w = (Inr (flow, v'), w')"
  shows "flow = Go_On \<and> bad_reasons v' = [] \<and> lv_rejected_rounds (count_rejected v') = 0"
proof -
  let ?u = "(reset_turn v)\<lparr>lv_feedback := []\<rparr>"
  have "act_gives (\<lambda>r. fst r = Go_On \<and> bad_reasons (snd r) = [] \<and> lv_rejected_rounds (count_rejected (snd r)) = 0)
      (talk_round x t ?u)"
    unfolding talk_round_def
    by (intro gives_rules) (simp_all add: bad_reasons_def count_rejected_def reset_turn_def)
  moreover have "talk_round x t ?u w1 = (Inr (flow, v'), w')"
    using assms by (simp add: model_round_def act_bind_def is_retry_def is_final_def reset_turn_def round_by_kind_def Let_def)
  ultimately show ?thesis by (auto dest: act_givesD)
qed

theorem talk_is_never_bad_witness:
  "\<exists>v' w'. model_round sample_agent ''do it'' loop_start (sample_world [JStr ''<talk>hi</talk>'']) = (Inr (Go_On, v'), w') \<and>
    bad_reasons v' = []"
proof -
  let ?w = "sample_world [JStr ''<talk>hi</talk>'']"
  have reply: "decide_reply sample_loads (JStr ''<talk>hi</talk>'') = Inr (Reply_Talk ''hi'')" by code_simp
  have "act_wp (decide_round sample_agent ''do it'' (reset_turn loop_start))
      (\<lambda>r _. r = (JStr ''<talk>hi</talk>'', Reply_Talk ''hi'')) (\<lambda>_ _. False) ?w"
    by (simp add: decide_round_def wp_simps act_phase_def to_phase_def phases prompt_checkpoints_def ask_model_def
        check_cancelled_def loop_start_def reset_turn_def reply)
  from wp_runs [OF this] obtain w1 where d: "decide_round sample_agent ''do it'' (reset_turn loop_start) ?w =
      (Inr (JStr ''<talk>hi</talk>'', Reply_Talk ''hi''), w1)" by auto
  have "act_wp (model_round sample_agent ''do it'' loop_start) (\<lambda>_ _. True) (\<lambda>_ _. False) ?w"
    by (simp add: model_round_def decide_round_def wp_simps act_phase_def to_phase_def phases prompt_checkpoints_def
        ask_model_def check_cancelled_def loop_start_def reset_turn_def reply is_retry_def round_by_kind_def
        talk_round_def MAX_CONSECUTIVE_TALKS_def Let_def)
  from wp_runs [OF this] obtain flow v' w' where m: "model_round sample_agent ''do it'' loop_start ?w = (Inr (flow, v'), w')"
    by auto
  show ?thesis using talk_is_never_bad [OF d _ m] m by (auto simp: loop_start_def)
qed

section \<open>Batches\<close>

text \<open>
  The first batch of a run that answers an approval raises: the rebuttal names the tools of the
  batch before they are assigned.
\<close>

theorem first_batch_rebuttal_raises:
  assumes "lv_awaiting v" and "lv_pending v = Some d" and "lv_tools v = None"
  shows "batch_round x msg items v w = (Inl (Tool_Error Name_Error []), w)"
  using assms by (simp add: batch_round_def rebut_batch_def act_defs)

theorem first_batch_rebuttal_raises_witness:
  "batch_round sample_agent ''do it'' [JObj [(''name'', JStr ''list_files'')]]
     (loop_start\<lparr>lv_awaiting := True, lv_pending := Some (decision ''finalize'' ''looks right'' [])\<rparr>) (sample_world []) =
   (Inl (Tool_Error Name_Error []), sample_world [])"
  by (rule first_batch_rebuttal_raises) (simp_all add: loop_start_def)

section \<open>Answers\<close>



text \<open>
  Cn. The verdict \<open>continue\<close> passes both gates of the review: confirmed once, an answer of a run that
  has changed files is accepted with it although nothing was verified.
\<close>

theorem continue_accepts_unverified:
  assumes "lv_wrote v" and "lv_awaiting v" and "check_cancelled x w = (Inr (), w0)"
    and "maybe_run_review x msg ''final_before'' True (lv_verified v) (lv_prior v) w0 = (Inr d, w1)"
    and "rd_verdict d = ''continue''" and "final_round x msg payload v w = (Inr (flow, v'), w')"
  shows "flow = Answer (py_strip payload) \<and> ts_status (aw_task w') = ''completed''"
proof -
  let ?u = "v\<lparr>lv_battles := lv_battles v + (if rd_reason d = ''read_only_no_result_review'' then 0 else 1)\<rparr>"
  obtain w2 where w2: "settle_final x msg payload d ?u w2 = (Inr (flow, v'), w')"
    using assms by (auto simp: final_round_def final_review_def act_defs split: prod.splits sum.splits)
  then have acc: "accept_final x msg payload ?u w2 = (Inr (flow, v'), w')"
    using assms(2,5) by (simp add: settle_final_def)
  have "act_gives (\<lambda>r. fst r = Answer (py_strip payload)) (accept_final x msg payload ?u)"
    unfolding accept_final_def by (intro gives_rules) simp
  then have "flow = Answer (py_strip payload)" using acc by (auto dest: act_givesD)
  moreover have "ts_status (aw_task w') = ''completed''"
    using act_postD [OF accept_final_ends acc] by (simp add: ended_def)
  ultimately show ?thesis by simp
qed


theorem continue_accepts_unverified_witness:
  "\<exists>v' w'. final_round sample_agent ''do it'' ''done'' sample_wrote (sample_world [JStr ''{go}'']) =
      (Inr (Answer (py_strip ''done''), v'), w') \<and> ts_status (aw_task w') = ''completed''"
proof -
  let ?w = "sample_world [JStr ''{go}'']"
  obtain w1 where r: "run_review sample_agent ''do it'' ''final_before'' True False [] ?w =
     (Inr \<lparr>rd_verdict = ''continue'', rd_feedback = [], rd_reason = [], rd_steps = [], rd_failed = False\<rparr>, w1)"
    and "\<not> ts_requires_post_tool_reasoning (aw_task w1)"
    using sample_review(2) by blast
  from sample_confirmed [OF r _ this(2)] obtain v' w' where
    f: "final_round sample_agent ''do it'' ''done'' sample_wrote ?w = (Inr (Answer ''done'', v'), w')" by auto
  have c: "check_cancelled sample_agent ?w = (Inr (), ?w)"
    by (simp add: check_cancelled_def on_agent_env_def act_ret_def)
  have m: "maybe_run_review sample_agent ''do it'' ''final_before'' True (lv_verified sample_wrote) (lv_prior sample_wrote) ?w =
     (Inr \<lparr>rd_verdict = ''continue'', rd_feedback = [], rd_reason = [], rd_steps = [], rd_failed = False\<rparr>, w1)"
    by (simp add: maybe_run_review_def sample_wrote_def loop_start_def r)
  from continue_accepts_unverified [OF _ _ c m _ f] f show ?thesis by (auto simp: sample_wrote_def loop_start_def plain)
qed

text \<open>
  An answer approved in the round that only takes an answer is lost: the run waits for a
  confirmation, but the loop has no further round, so the run leaves it without the answer.
\<close>

theorem approved_answer_lost:
  assumes "lv_finalization_attempted v" and "lv_wrote v" and "\<not> lv_awaiting v"
    and "lv_battles v + 1 < REVIEW_BATTLE_MAX_ROUNDS"
    and "check_cancelled x w = (Inr (), w0)"
    and "maybe_run_review x msg ''final_before'' True (lv_verified v) (lv_prior v) w0 = (Inr d, w1)"
    and "rd_verdict d = ''finalize''" and "rd_reason d \<notin> set NO_CONFIRMATION" and "\<not> rd_failed d"
    and "final_round x msg payload v w = (Inr (flow, v'), w')"
  shows "flow = Go_On \<and> run_rounds x msg v' w' = (Inr (Leave, v'), w')"
proof -
  let ?u = "v\<lparr>lv_battles := lv_battles v + 1\<rparr>"
  have reason: "rd_reason d \<noteq> ''read_only_no_result_review''" using assms(8) by (auto simp: NO_CONFIRMATION_def)
  obtain w2 where "settle_final x msg payload d ?u w2 = (Inr (flow, v'), w')"
    using assms(2,5,6,10) reason by (auto simp: final_round_def final_review_def act_defs split: prod.splits sum.splits)
  then have wait: "await_confirmation x d ?u w2 = (Inr (flow, v'), w')"
    using assms(3,4,7,8,9) by (simp add: settle_final_def)
  have "act_gives (\<lambda>r. fst r = Go_On \<and> lv_finalization_attempted (snd r)) (await_confirmation x d ?u)"
    unfolding await_confirmation_def by (intro gives_rules) (simp add: assms(1))
  with wait have "flow = Go_On" and "lv_finalization_attempted v'" by (auto dest: act_givesD)
  then show ?thesis by (simp add: run_rounds.simps may_go_on_def)
qed

theorem approved_answer_lost_witness:
  "\<exists>v' w'. final_round sample_agent ''do it'' ''done'' (loop_start\<lparr>lv_wrote := True, lv_finalization_attempted := True\<rparr>)
      (sample_world [JStr ''{check}'', JStr ''{done}'']) = (Inr (Go_On, v'), w') \<and>
    run_rounds sample_agent ''do it'' v' w' = (Inr (Leave, v'), w')"
proof -
  let ?w = "sample_world [JStr ''{check}'', JStr ''{done}'']"
  let ?v = "loop_start\<lparr>lv_wrote := True, lv_finalization_attempted := True\<rparr>"
  let ?d = "\<lparr>rd_verdict = ''finalize'', rd_feedback = ''tests pass'', rd_reason = [], rd_steps = [], rd_failed = False\<rparr>"
  obtain w1 where r: "run_review sample_agent ''do it'' ''final_before'' True False [] ?w = (Inr ?d, w1)"
    using sample_review(1) by blast
  have c: "check_cancelled sample_agent ?w = (Inr (), ?w)"
    by (simp add: check_cancelled_def on_agent_env_def act_ret_def)
  have m: "maybe_run_review sample_agent ''do it'' ''final_before'' True (lv_verified ?v) (lv_prior ?v) ?w = (Inr ?d, w1)"
    by (simp add: maybe_run_review_def loop_start_def r)
  have "act_wp (final_round sample_agent ''do it'' ''done'' ?v) (\<lambda>_ _. True) (\<lambda>_ _. False) ?w"
    by (simp add: final_round_def final_review_def wp_simps check_cancelled_def loop_start_def maybe_run_review_def
        apply_review_completed_steps_def settle_final_def act_wp_def [of "run_review _ _ _ _ _ _"] r NO_CONFIRMATION_def
        REVIEW_BATTLE_MAX_ROUNDS_def await_confirmation_def act_phase_def to_phase_def phases)
  from wp_runs [OF this] obtain flow v' w' where f: "final_round sample_agent ''do it'' ''done'' ?v ?w = (Inr (flow, v'), w')"
    by auto
  from approved_answer_lost [OF _ _ _ _ c m _ _ _ f] f show ?thesis
    by (auto simp: loop_start_def REVIEW_BATTLE_MAX_ROUNDS_def NO_CONFIRMATION_def)
qed

section \<open>Lifecycle finalization\<close>

definition finished_traces :: "agent_event list \<Rightarrow> nat" where
  "finished_traces l = length (filter (\<lambda>e. e = A_Trace ''run_finished'') l)"

lemma attempt_wp: "act_wp (attempt m) Q E w = Q (fst (m w) = Inr ()) (snd (m w))"
  by (cases "m w"; cases "fst (m w)") (auto simp: attempt_def act_defs act_wp_def)

lemma out_frame: "aw_task (snd (out x e w)) = aw_task w" "aw_log (snd (out x e w)) = aw_log w @ [e]"
  by (auto simp: out_def note_event_def act_defs on_agent_env_def split: prod.splits sum.splits)

lemma trace_then_task:
  "snd (act_then (trace x s) (on_task f) w) =
     (let u = snd (trace x s w) in if fst (trace x s w) = Inr () then u\<lparr>aw_task := f (aw_task u)\<rparr> else u)"
  "fst (act_then (trace x s) (on_task f) w) = fst (trace x s w)"
  by (auto simp: act_defs on_task_def Let_def split: prod.splits sum.splits)

lemma persistence_stopped: "ts_status (persistence_stop t) = ''failed''" "ts_stop_reason (persistence_stop t) = ''persistence_error''"
  by (simp_all add: persistence_stop_def stop_run_def Let_def)

lemma finalize_run_returns:
  "\<exists>w'. finalize_run x w = (Inr (), w') \<and>
    finished_traces (aw_log w') \<le> finished_traces (aw_log w) + (if ts_run_finished_emitted (aw_task w) then 0 else 1) \<and>
    (fst (save x w) = Inr () \<or> ts_status (aw_task w') = ''failed'' \<and> ts_stop_reason (aw_task w') = ''persistence_error'')"
proof -
  have "act_wp (finalize_run x) (\<lambda>_ w'.
      finished_traces (aw_log w') \<le> finished_traces (aw_log w) + (if ts_run_finished_emitted (aw_task w) then 0 else 1) \<and>
      (fst (save x w) = Inr () \<or> ts_status (aw_task w') = ''failed'' \<and> ts_stop_reason (aw_task w') = ''persistence_error''))
      (\<lambda>_ _. False) w"
    by (simp add: finalize_run_def wp_simps attempt_wp wp_on_task out_frame trace_then_task finished_traces_def
        persistence_stopped Let_def)
  then show ?thesis
    by (cases "finalize_run x w"; cases "fst (finalize_run x w)") (auto simp: act_wp_def)
qed

text \<open>
  The finalization of a run always returns, whatever the stores do: it reports the end of the run
  at most once, not again when it was reported before, and a run whose snapshot cannot be written
  ends as failed.
\<close>

theorem finalize_run_total:
  "\<exists>w'. finalize_run x w = (Inr (), w') \<and>
    finished_traces (aw_log w') \<le> finished_traces (aw_log w) + (if ts_run_finished_emitted (aw_task w) then 0 else 1) \<and>
    (fst (save x w) = Inr () \<or> ts_status (aw_task w') = ''failed'' \<and> ts_stop_reason (aw_task w') = ''persistence_error'')"
  by (rule finalize_run_returns)

end
