(* ===== verification/Completion_Gate.thy ===== *)
theory Completion_Gate
  imports Review_Run
begin

text \<open>
  The completion gate (\<open>run_review_gate\<close> in \<open>pico/evaluation/review_gate.py\<close>): a program decides
  whether a finished run may count as completed, and by how much its budget may grow.  SHA-256 is an
  argument.  Evidence items are the objects that \<open>record_evidence\<close> keeps; their paths are texts.
\<close>

section \<open>What the snapshot shows\<close>

definition REVIEW_EXTENSION_FACTORS :: "(int \<times> int) list" where
  "REVIEW_EXTENSION_FACTORS = [(1, 3), (2, 2), (3, 1)]"

definition STAGNATION_ROUNDS_LIMIT :: int where
  "STAGNATION_ROUNDS_LIMIT = 2"

definition extension_factor :: "int \<Rightarrow> int" where
  "extension_factor n = (case map_of REVIEW_EXTENSION_FACTORS n of None \<Rightarrow> 0 | Some f \<Rightarrow> f)"

record gate_decision =
  gd_status :: string
  gd_text :: string
  gd_converged :: bool
  gd_budget :: int
  gd_rounds :: int
  gd_signature :: string

definition checklist_remaining :: "task_state \<Rightarrow> int" where
  "checklist_remaining t = max 0 (int (length (ts_checklist t)) - int (card (set (ts_completed_items t))))"

definition evidence_fields :: "json \<Rightarrow> (string \<times> json) list" where
  "evidence_fields item = (case item of JObj d \<Rightarrow> d | _ \<Rightarrow> [])"

definition evidence_ok :: "json \<Rightarrow> bool" where
  "evidence_ok item \<longleftrightarrow> get_none (evidence_fields item) ''status'' \<in> {JStr ''ok'', JStr ''partial_success''}"

definition evidence_writes :: "json \<Rightarrow> bool" where
  "evidence_writes item \<longleftrightarrow>
     evidence_ok item \<and> \<not> truthy (get_default (evidence_fields item) ''read_only'' (JBool True))"

definition has_evidence :: "task_state \<Rightarrow> bool" where
  "has_evidence t \<longleftrightarrow> list_ex evidence_ok (ts_evidence t)"

definition has_write_evidence :: "task_state \<Rightarrow> bool" where
  "has_write_evidence t \<longleftrightarrow> list_ex evidence_writes (ts_evidence t)"

definition evidence_key :: "json \<Rightarrow> string \<times> string list" where
  "evidence_key item =
     (get_str (evidence_fields item) ''tool_name'' [],
      case get_default (evidence_fields item) ''relative_paths'' (JList []) of JList ps \<Rightarrow> map py_str ps | _ \<Rightarrow> [])"

definition key_json :: "string \<times> string list \<Rightarrow> json" where
  "key_json k = JList [JStr (fst k), JList (map JStr (snd k))]"

definition round_signature :: "(string \<Rightarrow> string) \<Rightarrow> task_state \<Rightarrow> string" where
  "round_signature sha256 t =
     int_str (int (length (ts_evidence t))) @ '':'' @ int_str (int (length (ts_completed_items t))) @ '':'' @
     sha256 (json_dumps False '', '' '': '' (JList (map key_json (sort (map evidence_key (ts_evidence t))))))"

section \<open>The gate\<close>

definition LAST_WRITES :: "string list" where
  "LAST_WRITES = [''write_file'', ''patch_file'', ''run_shell'']"

text \<open>The verdict on the evidence, once budget and stagnation let the gate come to it.\<close>

definition gate_verdict :: "string \<Rightarrow> task_state \<Rightarrow> string \<times> string" where
  "gate_verdict intent t =
     (let answered = py_strip (ts_final_answer t) \<noteq> [];
          checklist_ok = (\<not> checklist_is_explicit t \<or> checklist_remaining t = 0) in
      if intent = ''read_only'' then
        if has_evidence t then (''pass'', ''read-only evidence sufficient; converged'')
        else if answered then (''pass'', ''read-only answered directly without workspace evidence'')
        else (''needs_fix'', ''read-only task lacks current-run evidence'')
      else if intent = ''conversation'' then (''pass'', ''conversation has no workspace completion gate'')
      else if intent = ''auto'' \<and> \<not> has_write_evidence t then
        if ts_last_tool t \<in> set LAST_WRITES
        then (''needs_fix'', ''write/shell attempted but no successful write evidence'')
        else if answered then (''pass'', ''auto task answered without workspace changes'')
        else (''needs_fix'', ''auto task lacks a final answer'')
      else if has_write_evidence t \<and> checklist_ok
      then (''pass'', ''write evidence present and checklist complete'')
      else (''needs_fix'', ''change not verified; write evidence or checklist incomplete''))"

definition can_extend :: "int \<Rightarrow> int \<Rightarrow> int \<Rightarrow> int \<Rightarrow> bool" where
  "can_extend factor remaining hard_cap step_budget \<longleftrightarrow>
     factor > 0 \<and> remaining > 0 \<and> hard_cap > 0 \<and> step_budget < hard_cap"

definition run_review_gate ::
  "(string \<Rightarrow> string) \<Rightarrow> task_state \<Rightarrow> string \<Rightarrow> int \<Rightarrow> int \<Rightarrow> bool \<Rightarrow> int \<Rightarrow> int \<Rightarrow> string \<Rightarrow> int \<Rightarrow> gate_decision" where
  "run_review_gate sha256 t intent step_budget steps_used explicit hard_cap fix_attempts prev prev_rounds =
     (let d = \<lparr>gd_status = ''needs_fix'', gd_text = [], gd_converged = False, gd_budget = step_budget,
               gd_rounds = prev_rounds, gd_signature = prev\<rparr> in
      if step_budget - steps_used < 1 then
        if explicit then
          d\<lparr>gd_status := ''pass'', gd_converged := True, gd_text := ''explicit step budget exhausted; converged''\<rparr>
        else
          (let remaining = checklist_remaining t; factor = extension_factor (fix_attempts + 1) in
           if can_extend factor remaining hard_cap step_budget then
             d\<lparr>gd_budget := min hard_cap (step_budget + remaining * factor), gd_text := ''budget extended for review fix''\<rparr>
           else d\<lparr>gd_status := ''pass'', gd_converged := True, gd_text := ''review budget exhausted; converged''\<rparr>)
      else
        (let signature = round_signature sha256 t;
             rounds = (if signature = prev then prev_rounds + 1 else 0);
             d = d\<lparr>gd_signature := signature, gd_rounds := rounds\<rparr> in
         if STAGNATION_ROUNDS_LIMIT \<le> rounds then
           d\<lparr>gd_status := ''pass'', gd_converged := True, gd_text := ''stagnation detected; converged''\<rparr>
         else (case gate_verdict intent t of (status, text) \<Rightarrow> d\<lparr>gd_status := status, gd_text := text\<rparr>)))"

section \<open>Facts\<close>

text \<open>
  The gate never shrinks a budget and never lifts it above the hard cap; it extends one only for
  the first three fixes, when it asks for a fix and items of the checklist are left.
\<close>

theorem gate_budget_bounded:
  assumes "d = run_review_gate sha256 t intent budget used explicit cap fixes prev rounds"
  shows "budget \<le> gd_budget d \<and> gd_budget d \<le> max budget cap \<and>
    (gd_budget d \<noteq> budget \<longrightarrow> gd_status d = ''needs_fix'' \<and> fixes \<in> {0, 1, 2} \<and> 0 < checklist_remaining t)"
proof -
  have f: "0 < extension_factor n \<Longrightarrow> n \<in> {1, 2, 3}" for n
    by (auto simp: extension_factor_def REVIEW_EXTENSION_FACTORS_def split: if_splits)
  show ?thesis
    using assms f [of "fixes + 1"]
    by (auto simp: run_review_gate_def can_extend_def Let_def split: prod.splits if_splits)
qed

theorem gate_budget_bounded_witness:
  "(10 :: int) \<le> 15 \<and> (15 :: int) \<le> max 10 20 \<and> 0 < checklist_remaining (create_task_state ''r'' ''t'' ''q'' 6 4 None [] [])"
proof -
  let ?t = "create_task_state ''r'' ''t'' ''q'' 6 4 None [] []"
  let ?d = "run_review_gate id ?t ''auto'' 10 10 False 20 2 [] 0"
  have r: "checklist_remaining ?t = 5"
    by (simp add: checklist_remaining_def create_task_state_def new_task_state_def DEFAULT_CHECKLIST_def Let_def)
  have "gd_budget ?d = 15"
    by (simp add: run_review_gate_def can_extend_def extension_factor_def REVIEW_EXTENSION_FACTORS_def r)
  with gate_budget_bounded [of ?d id ?t "''auto''" 10 10 False 20 2 "[]" 0] show ?thesis by simp
qed

text \<open>What a run that passes has shown, beyond budget and stagnation.\<close>

definition gate_satisfied :: "string \<Rightarrow> task_state \<Rightarrow> bool" where
  "gate_satisfied intent t \<longleftrightarrow>
     (intent = ''code_change'' \<or> intent = ''auto'' \<and> (has_write_evidence t \<or> ts_last_tool t \<in> set LAST_WRITES) \<longrightarrow>
        has_write_evidence t \<and> (checklist_is_explicit t \<longrightarrow> checklist_remaining t = 0))"

lemma gate_verdict_pass: "fst (gate_verdict intent t) \<noteq> ''needs_fix'' \<Longrightarrow> gate_satisfied intent t"
  by (auto simp: gate_verdict_def gate_satisfied_def Let_def split: if_splits)

lemma round_signature_nonempty: "round_signature sha256 t \<noteq> []"
  by (simp add: round_signature_def)

lemma gate_pass:
  assumes "gd_status (run_review_gate sha256 t intent budget used explicit cap fixes [] rounds) \<noteq> ''needs_fix''"
    and "used < budget"
  shows "gate_satisfied intent t"
  using assms round_signature_nonempty [of sha256 t]
  by (intro gate_verdict_pass) (auto simp: run_review_gate_def Let_def STAGNATION_ROUNDS_LIMIT_def split: prod.splits if_splits)

text \<open>
  The count of open checklist items subtracts every completed item, also those that are not on the
  list: a plan with no step done counts as complete once as many phase items are completed as it
  has steps, so the gate does not hold it back.
\<close>

theorem foreign_items_complete_the_plan:
  assumes "length (ts_checklist t) \<le> card (set (ts_completed_items t))"
    and "set (ts_completed_items t) \<inter> set (ts_checklist t) = {}" and "has_write_evidence t"
  shows "checklist_remaining t = 0 \<and> fst (gate_verdict ''code_change'' t) = ''pass''"
  using assms by (simp add: checklist_remaining_def gate_verdict_def Let_def)

definition sample_unplanned :: task_state where
  "sample_unplanned = (new_task_state ''r'' ''t'' ''q'')
     \<lparr>ts_checklist := [''Fix the parser'', ''Run the tests''],
      ts_completed_items := [''Understand the request and acceptance criteria'', ''Gather the minimum workspace context''],
      ts_evidence := [JObj [(''status'', JStr ''ok''), (''read_only'', JBool False)]]\<rparr>"

theorem foreign_items_complete_the_plan_witness:
  "checklist_is_explicit sample_unplanned \<and> checklist_remaining sample_unplanned = 0 \<and>
   fst (gate_verdict ''code_change'' sample_unplanned) = ''pass''"
proof -
  have e: "checklist_is_explicit sample_unplanned"
    by (simp add: checklist_is_explicit_def sample_unplanned_def DEFAULT_CHECKLIST_def)
  have "checklist_remaining sample_unplanned = 0 \<and> fst (gate_verdict ''code_change'' sample_unplanned) = ''pass''"
    by (rule foreign_items_complete_the_plan)
      (simp_all add: sample_unplanned_def has_write_evidence_def evidence_writes_def evidence_ok_def evidence_fields_def
        get_none_def)
  with e show ?thesis by blast
qed

end
