(* ===== verification/Native_Run.thy ===== *)
theory Native_Run
  imports Completion_Gate Agent_Rounds
begin

text \<open>
  The entry that the service calls for a run (\<open>run_native\<close> in \<open>langgraph_pico/native_runner.py\<close>): the
  agent loop, the completion gate after it, and what becomes of a run that raises.

  The current snapshot of the agent when the entry is called is the snapshot of the world.  The two
  ids come from the caller.  The attributes that an exception may carry (code, stop reason, stage,
  retryable, attempts), the texts in Chinese and the hook that discards an answer candidate are
  arguments.  The focus paths, which are only validated, the exchange of the event sink and of the
  model client for adapters, and the metadata of the result are left out.
\<close>

section \<open>The mode of a task\<close>

definition VALID_TASK_MODES :: "string list" where
  "VALID_TASK_MODES = [''auto'', ''conversation'', ''read_only'', ''code_change'']"

text \<open>A failed check is a \<open>ValueError\<close>; \<open>Inl\<close> carries its message.\<close>

definition normalize_task_mode :: "json \<Rightarrow> string + string" where
  "normalize_task_mode value =
     (case value of
        JStr s \<Rightarrow>
          (let mode = py_lower (py_strip s) in
           if mode \<in> set VALID_TASK_MODES then Inr mode
           else if py_strip s = [] then Inl ''task_mode must be a non-empty string''
           else Inl ''task_mode must be one of: auto, code_change, conversation, read_only'')
      | _ \<Rightarrow> Inl ''task_mode must be a non-empty string'')"

text \<open>The checks before anything happens: the task, its mode, and what the mode excludes.\<close>

definition native_checks :: "string \<Rightarrow> json \<Rightarrow> bool \<Rightarrow> bool \<Rightarrow> bool \<Rightarrow> bool \<Rightarrow> string + string \<times> string" where
  "native_checks task mode has_focus has_acceptance research router =
     (if py_strip task = [] then Inl ''task_input must not be empty''
      else res_bind (normalize_task_mode mode) (\<lambda>m.
        if m \<in> {''conversation'', ''read_only''} \<and> has_focus
        then Inl (''focus_paths are not valid for task_mode='' @ m)
        else if m \<in> {''conversation'', ''read_only''} \<and> has_acceptance
        then Inl ''acceptance is only valid for auto or code_change''
        else if m = ''conversation'' \<and> research then Inl ''conversation tasks cannot require research''
        else if m \<noteq> ''auto'' \<and> router then Inl ''router_model_client is only valid for task_mode=auto''
        else Inr (py_strip task, m)))"

definition PLAIN_GREETINGS :: "string list" where
  "PLAIN_GREETINGS = [''hi'', ''hello'', ''hey'', ''thanks'', ''ok'', ''okay'']"

definition is_plain_conversation_request :: "string \<Rightarrow> bool" where
  "is_plain_conversation_request task \<longleftrightarrow>
     (let low = py_lower (py_strip task);
          core = rev (dropWhile (\<lambda>c. c \<in> {CHR ''!'', CHR ''.'', CHR ''?''} \<or> is_space c) (rev low));
          after_thank = drop 5 core
      in core \<in> set PLAIN_GREETINGS \<or>
         (starts_with ''thank'' core \<and> after_thank \<noteq> [] \<and> is_space (hd after_thank) \<and>
          dropWhile is_space after_thank = ''you''))"

section \<open>The run\<close>

record 'h native_config =
  nc_discard :: "task_state \<Rightarrow> ('h, unit) env_act"
  nc_code :: "tool_exn \<Rightarrow> string"
  nc_reason :: "tool_exn \<Rightarrow> string"
  nc_stage :: "tool_exn \<Rightarrow> string"
  nc_retryable :: "tool_exn \<Rightarrow> bool"
  nc_attempts :: "tool_exn \<Rightarrow> int"
  nc_model_message :: "string \<Rightarrow> string"
  nc_failed_message :: string
  nc_error_summary :: string
  nc_session_id :: string
  nc_workspace_id :: string
  nc_record_session :: bool
  nc_sha256 :: "string \<Rightarrow> string"

definition GATE_STEP_BUDGET_UNLIMITED :: int where
  "GATE_STEP_BUDGET_UNLIMITED = 100000"

definition native_snapshot :: "'h agent_config \<Rightarrow> 'h native_config \<Rightarrow> string \<Rightarrow> string \<Rightarrow> string \<Rightarrow> task_state" where
  "native_snapshot x nc rid tid task =
     create_task_state rid tid task (ag_max_steps x) (ag_read_limit x) (ag_total_limit x)
       (nc_session_id nc) (nc_workspace_id nc)"

definition native_owner :: "'h native_config \<Rightarrow> string \<Rightarrow> task_state \<Rightarrow> task_state" where
  "native_owner nc intent t =
     t\<lparr>ts_intent := intent, ts_session_id := nc_session_id nc, ts_workspace_id := nc_workspace_id nc\<rparr>"

definition gate_applies :: "string \<Rightarrow> task_state \<Rightarrow> bool" where
  "gate_applies intent t \<longleftrightarrow> intent \<noteq> ''conversation'' \<and> ts_status t = ''completed'' \<and> ts_final_answer t \<noteq> []"

definition gate_fails :: "'h native_config \<Rightarrow> string \<Rightarrow> task_state \<Rightarrow> bool" where
  "gate_fails nc intent t \<longleftrightarrow>
     gd_status (run_review_gate (nc_sha256 nc) t intent GATE_STEP_BUDGET_UNLIMITED (ts_tool_steps t) False 0 0 [] 0)
       = ''needs_fix''"

definition block_run :: "task_state \<Rightarrow> task_state" where
  "block_run t =
     stop_run (if has_write_evidence t then ''review_retry_limit_reached'' else ''no_changes_to_review'') ''stopped''
       (ts_final_answer t) (record_error ''completion_gate'' ''completion_gate_failed'' False 0
         (t\<lparr>ts_review_status := ''needs_fix''\<rparr>))"

definition native_gate :: "'h native_config \<Rightarrow> string \<Rightarrow> string \<Rightarrow> ('h, string) agent_act" where
  "native_gate nc intent answer =
     act_bind (act_get aw_task) (\<lambda>t.
       if gate_applies intent t \<and> gate_fails nc intent t
       then act_then (on_task block_run) (act_ret (ts_final_answer (block_run t)))
       else act_ret answer)"

definition native_body ::
  "'h agent_config \<Rightarrow> 'h native_config \<Rightarrow> string \<Rightarrow> string \<Rightarrow> string \<Rightarrow> string \<Rightarrow> ('h, string) agent_act" where
  "native_body x nc rid tid task mode =
     (let plain = is_plain_conversation_request task; intent = (if plain then ''conversation'' else mode) in
      act_then (act_when (nc_record_session nc \<and> \<not> plain) (on_agent_env (ag_task_summary x task)))
        (act_then (act_modify (\<lambda>w. w\<lparr>aw_task := native_snapshot x nc rid tid task, aw_verified := False\<rparr>))
          (act_then (trace x ''native_loop_started'')
            (act_bind (run_agent x rid tid task) (\<lambda>answer.
              act_then (on_task (native_owner nc intent)) (native_gate nc intent answer))))))"

definition failure_reason :: "'h native_config \<Rightarrow> tool_exn \<Rightarrow> string" where
  "failure_reason nc e = (if nc_reason nc e \<in> {''model_error'', ''runtime_error''} then nc_reason nc e else ''runtime_error'')"

definition failure_answer :: "'h agent_config \<Rightarrow> 'h native_config \<Rightarrow> tool_exn \<Rightarrow> ('h, string) agent_act" where
  "failure_answer x nc e =
     (if failure_reason nc e = ''model_error'' then act_ret (nc_model_message nc (nc_code nc e))
      else act_bind (act_get aw_task) (\<lambda>t.
        if ts_evidence t \<noteq> [] \<or> ts_rejected_finals t \<noteq> [] then convergence_summary x (nc_error_summary nc)
        else act_ret (nc_failed_message nc)))"

definition native_failed :: "'h agent_config \<Rightarrow> 'h native_config \<Rightarrow> tool_exn \<Rightarrow> ('h, string) agent_act" where
  "native_failed x nc e =
     (if e = Tool_Cancelled
      then act_then (on_task (stop_run ''user_cancelled'' ''stopped'' [])) (act_ret [])
      else
        act_then (act_bind (act_get aw_task) (\<lambda>t. on_agent_env (nc_discard nc t)))
          (act_then (on_task (record_error (nc_stage nc e) (nc_code nc e) (nc_retryable nc e) (nc_attempts nc e)))
            (act_bind (failure_answer x nc e) (\<lambda>answer.
              act_then (on_task (stop_run (failure_reason nc e) ''failed'' answer))
                (act_bind (act_get (\<lambda>w. ts_final_answer (aw_task w))) (\<lambda>final.
                  act_then (act_when (final \<noteq> []) (record_item x ''assistant'' final []))
                    (act_ret final)))))))"

text \<open>The \<open>finally\<close>: nothing is left running, and the artifacts are finalized.\<close>

definition native_finally :: "'h agent_config \<Rightarrow> string \<Rightarrow> ('h, unit) agent_act" where
  "native_finally x answer =
     act_then (on_task (\<lambda>t. if ts_status t = ''running'' then stop_run ''runtime_error'' ''failed'' answer t else t))
       (finalize_run x)"

definition native_run ::
  "'h agent_config \<Rightarrow> 'h native_config \<Rightarrow> string \<Rightarrow> string \<Rightarrow> string \<Rightarrow> string \<Rightarrow> ('h, string) agent_act" where
  "native_run x nc rid tid task mode =
     act_try (act_catch (native_body x nc rid tid task mode) (native_failed x nc))
       (\<lambda>answer. act_then (native_finally x answer) (act_get (\<lambda>w. ts_final_answer (aw_task w))))
       (\<lambda>e. act_then (native_finally x []) (act_raise e))"

definition run_native ::
  "'h agent_config \<Rightarrow> 'h native_config \<Rightarrow> string \<Rightarrow> string \<Rightarrow> string \<Rightarrow> json \<Rightarrow> bool \<Rightarrow> bool \<Rightarrow> bool \<Rightarrow> bool \<Rightarrow>
   ('h, string) agent_act" where
  "run_native x nc rid tid task mode has_focus has_acceptance research router =
     (case native_checks task mode has_focus has_acceptance research router of
        Inl message \<Rightarrow> act_raise (Tool_Error Value_Error message)
      | Inr (task, m) \<Rightarrow> native_run x nc rid tid task m)"

section \<open>How a native run ends\<close>

text \<open>What the finalization may leave of a snapshot: itself, reported as finished or not, or failed to persist.\<close>

definition finalized :: "task_state \<Rightarrow> task_state \<Rightarrow> bool" where
  "finalized t u \<longleftrightarrow> (\<exists>b. u = t\<lparr>ts_run_finished_emitted := b\<rparr> \<or> u = persistence_stop (t\<lparr>ts_run_finished_emitted := b\<rparr>))"

lemma finalized_refl: "finalized t t"
  unfolding finalized_def by (rule exI [of _ "ts_run_finished_emitted t"]) simp

lemma persistence_stop_again:
  "(persistence_stop t)\<lparr>ts_run_finished_emitted := c\<rparr> = persistence_stop (t\<lparr>ts_run_finished_emitted := c\<rparr>)"
  "persistence_stop (persistence_stop t) = persistence_stop t"
  by (simp_all add: persistence_stop_def stop_run_def Let_def)

lemma finalized_emitted: "finalized t u \<Longrightarrow> finalized t (u\<lparr>ts_run_finished_emitted := True\<rparr>)"
  unfolding finalized_def by (auto simp: persistence_stop_again)

lemma finalized_stop: "finalized t u \<Longrightarrow> finalized t (persistence_stop u)"
  unfolding finalized_def by (auto simp: persistence_stop_again)

lemma attempt_task: "keeps_task Q m \<Longrightarrow> keeps_task Q (attempt m)"
  unfolding attempt_def by (intro keeps_rules)

lemma finalize_run_task: "keeps_task (finalized t) (finalize_run x)"
  unfolding finalize_run_def
  by (intro keeps_rules attempt_task on_task_task finalized_emitted finalized_stop)

lemma finalize_run_effect: "\<exists>w'. finalize_run x w = (Inr (), w') \<and> finalized (aw_task w) (aw_task w')"
proof -
  have "act_wp (finalize_run x) (\<lambda>_ _. True) (\<lambda>_ _. False) w"
    by (simp add: finalize_run_def wp_simps attempt_wp Let_def)
  from wp_runs [OF this] obtain w' where w': "finalize_run x w = (Inr (), w')" by auto
  with act_keepsD [OF finalize_run_task [of "aw_task w" x], of w] show ?thesis
    by (simp add: finalized_refl)
qed

lemma finalized_fields:
  assumes "finalized t u"
  shows "ts_status u = ts_status t \<or> ts_status u = ''failed''"
    and "ts_evidence u = ts_evidence t" and "ts_checklist u = ts_checklist t"
    and "ts_completed_items u = ts_completed_items t" and "ts_last_tool u = ts_last_tool t"
    and "ts_tool_steps u = ts_tool_steps t"
    and "ts_status u \<noteq> ''failed'' \<Longrightarrow> ts_final_answer u = ts_final_answer t"
  using assms by (auto simp: finalized_def persistence_stop_def stop_run_def Let_def)

text \<open>What the \<open>finally\<close> makes of a snapshot before it finalizes the artifacts.\<close>

definition settle :: "string \<Rightarrow> task_state \<Rightarrow> task_state" where
  "settle answer t = (if ts_status t = ''running'' then stop_run ''runtime_error'' ''failed'' answer t else t)"

lemma settle_status: "ts_status (settle answer t) \<noteq> ''running''"
  by (simp add: settle_def stop_run_def Let_def)

lemma native_finally_effect:
  "\<exists>w'. native_finally x answer w = (Inr (), w') \<and> finalized (settle answer (aw_task w)) (aw_task w')"
proof -
  let ?u = "w\<lparr>aw_task := settle answer (aw_task w)\<rparr>"
  have "native_finally x answer w = finalize_run x ?u"
    by (simp add: native_finally_def act_then_def act_bind_def on_task_def act_modify_def settle_def)
  with finalize_run_effect [of x ?u] show ?thesis by simp
qed

text \<open>The two ways through the \<open>finally\<close>.\<close>

lemma native_run_cases:
  obtains (returns) answer u w' where
      "act_catch (native_body x nc rid tid task mode) (native_failed x nc) w = (Inr answer, u)"
      "finalized (settle answer (aw_task u)) (aw_task w')"
      "native_run x nc rid tid task mode w = (Inr (ts_final_answer (aw_task w')), w')"
    | (raises) e t w' where "finalized (settle [] t) (aw_task w')"
      "native_run x nc rid tid task mode w = (Inl e, w')"
proof -
  obtain r u where r: "act_catch (native_body x nc rid tid task mode) (native_failed x nc) w = (r, u)" by fastforce
  show ?thesis
  proof (cases r)
    case (Inl e)
    obtain w' where "native_finally x [] u = (Inr (), w')" "finalized (settle [] (aw_task u)) (aw_task w')"
      using native_finally_effect by blast
    with r Inl show ?thesis
      by (intro raises [of "aw_task u" w' e]) (simp_all add: native_run_def act_try_def act_then_def act_bind_def act_raise_def)
  next
    case (Inr answer)
    obtain w' where "native_finally x answer u = (Inr (), w')" "finalized (settle answer (aw_task u)) (aw_task w')"
      using native_finally_effect by blast
    with r Inr show ?thesis
      by (intro returns [of answer u w']) (simp_all add: native_run_def act_try_def act_then_def act_bind_def act_get_def)
  qed
qed

text \<open>
  C16. However a native run goes, returning or raising, whatever the model, the tools, the stores and
  the hooks do, it leaves its snapshot settled: never as still running; and what it returns is the
  answer of that snapshot.
\<close>

theorem native_run_settles:
  "ts_status (aw_task (snd (native_run x nc rid tid task mode w))) \<noteq> ''running'' \<and>
   (case fst (native_run x nc rid tid task mode w) of
      Inl _ \<Rightarrow> True
    | Inr answer \<Rightarrow> answer = ts_final_answer (aw_task (snd (native_run x nc rid tid task mode w))))"
proof (cases rule: native_run_cases [of x nc rid tid task mode w])
  case (returns answer u w')
  then show ?thesis using finalized_fields(1) [OF returns(2)] settle_status [of answer] by auto
next
  case (raises e t w')
  then show ?thesis using finalized_fields(1) [OF raises(1)] settle_status [of "[]"] by auto
qed

section \<open>What a completed run has shown\<close>

definition native_intent :: "string \<Rightarrow> string \<Rightarrow> string" where
  "native_intent task mode = (if is_plain_conversation_request task then ''conversation'' else mode)"

definition shown :: "string \<Rightarrow> task_state \<Rightarrow> bool" where
  "shown intent t \<longleftrightarrow> (ts_status t = ''completed'' \<and> ts_final_answer t \<noteq> [] \<and>
     ts_tool_steps t < GATE_STEP_BUDGET_UNLIMITED \<longrightarrow> gate_satisfied intent t)"

lemma shown_unless_completed: "ts_status t \<noteq> ''completed'' \<Longrightarrow> shown intent t"
  by (simp add: shown_def)

lemma gate_satisfied_same:
  "ts_evidence t = ts_evidence u \<Longrightarrow> ts_checklist t = ts_checklist u \<Longrightarrow>
   ts_completed_items t = ts_completed_items u \<Longrightarrow> ts_last_tool t = ts_last_tool u \<Longrightarrow>
   gate_satisfied intent t = gate_satisfied intent u"
  by (simp add: gate_satisfied_def has_write_evidence_def checklist_is_explicit_def checklist_remaining_def)

lemma stop_run_status: "ts_status (stop_run r s a t) = s"
  by (simp add: stop_run_def Let_def)

lemma native_gate_shown:
  fixes nc :: "'a native_config"
  shows "act_post (\<lambda>_ w. shown intent (aw_task w)) (native_gate nc intent answer)"
proof (unfold native_gate_def act_post_def, intro allI impI)
  fix w :: "'a agent_world" and a w'
  let ?t = "aw_task w"
  assume run: "act_bind (act_get aw_task) (\<lambda>t. if gate_applies intent t \<and> gate_fails nc intent t
     then act_then (on_task block_run) (act_ret (ts_final_answer (block_run t))) else act_ret answer) w = (Inr a, w')"
  show "shown intent (aw_task w')"
  proof (cases "gate_applies intent ?t \<and> gate_fails nc intent ?t")
    case True
    with run show ?thesis
      by (intro shown_unless_completed)
        (auto simp: act_bind_def act_get_def act_then_def on_task_def act_modify_def act_ret_def block_run_def
          stop_run_status)
  next
    case False
    with run have w': "aw_task w' = ?t" by (simp add: act_bind_def act_get_def act_ret_def split: if_splits)
    from False gate_pass [of "nc_sha256 nc" ?t intent GATE_STEP_BUDGET_UNLIMITED "ts_tool_steps ?t" False 0 0 0]
    show ?thesis
      unfolding w' by (auto simp: shown_def gate_applies_def gate_fails_def gate_satisfied_def)
  qed
qed

lemma native_body_shown: "act_post (\<lambda>_ w. shown (native_intent task mode) (aw_task w)) (native_body x nc rid tid task mode)"
  unfolding native_body_def Let_def native_intent_def [symmetric]
  by (intro post_then post_bind native_gate_shown)

lemma native_failed_shown: "act_post (\<lambda>_ w. shown intent (aw_task w)) (native_failed x nc e)"
proof -
  have stopped: "act_post (\<lambda>_ w. shown intent (aw_task w)) (on_task (stop_run r s a))" if "s \<noteq> ''completed''" for r s a
    by (rule post_on_task) (use that in \<open>simp add: shown_unless_completed stop_run_status\<close>)
  show ?thesis
    unfolding native_failed_def
    by (rule post_if, rule post_then_keep [OF stopped], simp, rule keeps_rules,
        rule post_then, rule post_then, rule post_bind, rule post_then_keep [OF stopped], simp, intro keeps_rules)
qed

text \<open>
  C17. A run that returns a nonempty answer as completed, after fewer than the 100000 tool steps of
  the gate's budget, went through the completion gate.  In mode \<open>code_change\<close>, and in mode \<open>auto\<close>
  when there was a write or the last tool could write, its evidence has a successful write; and when its
  checklist is an explicit one, it has completed at least as many items as the checklist is long (any
  items: the gate only counts, see \<open>foreign_items_complete_the_plan\<close>).  The other modes ask for
  neither, and a plain conversation counts as mode \<open>conversation\<close>.
\<close>

theorem completed_run_passed_the_gate:
  assumes "native_run x nc rid tid task mode w = (Inr answer, w')"
    and "ts_status (aw_task w') = ''completed''" and "answer \<noteq> []"
    and "ts_tool_steps (aw_task w') < 100000"
    and "\<not> is_plain_conversation_request task"
  shows "mode = ''code_change'' \<or> mode = ''auto'' \<and> (has_write_evidence (aw_task w') \<or> ts_last_tool (aw_task w') \<in> set LAST_WRITES) \<longrightarrow>
    has_write_evidence (aw_task w') \<and>
    (checklist_is_explicit (aw_task w') \<longrightarrow> length (ts_checklist (aw_task w')) \<le> card (set (ts_completed_items (aw_task w'))))"
proof (cases rule: native_run_cases [of x nc rid tid task mode w])
  case (returns a u v)
  have v: "v = w'" "answer = ts_final_answer (aw_task w')" using returns(3) assms(1) by auto
  have completed: "ts_status (settle a (aw_task u)) = ''completed''"
    using finalized_fields(1) [OF returns(2)] assms(2) v by auto
  then have same: "settle a (aw_task u) = aw_task u"
    by (auto simp: settle_def stop_run_status split: if_splits)
  have "act_post (\<lambda>_ w. shown (native_intent task mode) (aw_task w))
      (act_catch (native_body x nc rid tid task mode) (native_failed x nc))"
    by (intro post_catch native_body_shown native_failed_shown)
  from act_postD [OF this returns(1)] have "gate_satisfied (native_intent task mode) (aw_task u)"
    using completed same assms finalized_fields [OF returns(2)] v by (auto simp: shown_def GATE_STEP_BUDGET_UNLIMITED_def)
  then have "gate_satisfied mode (aw_task w')"
    using gate_satisfied_same [of "aw_task w'" "aw_task u"] finalized_fields(2-5) [OF returns(2)] same v assms(5)
    by (simp only: native_intent_def if_False)
  then show ?thesis by (auto simp: gate_satisfied_def checklist_remaining_def)
next
  case (raises e t v)
  then show ?thesis using assms(1) by simp
qed

text \<open>The run of a sample agent that answers at once, with a hook and stores that do nothing.\<close>

definition sample_native :: "json list native_config" where
  "sample_native = \<lparr>nc_discard = (\<lambda>_. act_ret ()), nc_code = (\<lambda>_. ''runtime_error''), nc_reason = (\<lambda>_. ''runtime_error''),
     nc_stage = (\<lambda>_. ''runtime''), nc_retryable = (\<lambda>_. False), nc_attempts = (\<lambda>_. 1), nc_model_message = (\<lambda>_. ''model error''),
     nc_failed_message = ''failed'', nc_error_summary = ''error'', nc_session_id = ''s'', nc_workspace_id = ''w'',
     nc_record_session = False, nc_sha256 = id\<rparr>"


lemma sample_gate_passes:
  "plainly_done t \<Longrightarrow> \<not> gate_fails sample_native ''auto'' (native_owner sample_native ''auto'' t)"
  by (simp add: gate_fails_def run_review_gate_def plainly_done_def native_owner_def gate_verdict_def
      GATE_STEP_BUDGET_UNLIMITED_def STAGNATION_ROUNDS_LIMIT_def has_write_evidence_def LAST_WRITES_def
      py_strip_def is_space_def round_signature_nonempty Let_def)

lemma sample_task_plain [simp]: "\<not> is_plain_conversation_request ''do it''"
  by code_simp

definition native_ready :: "task_state \<Rightarrow> bool" where
  "native_ready t \<longleftrightarrow> ts_status t = ''completed'' \<and> ts_final_answer t = ''done'' \<and> ts_tool_steps t = 0"

lemma sample_native_gate:
  "plainly_done (aw_task w) \<Longrightarrow>
   act_wp (act_then (on_task (native_owner sample_native ''auto'')) (native_gate sample_native ''auto'' ''done''))
     (\<lambda>a w. a = ''done'' \<and> native_ready (aw_task w)) E w"
  using sample_gate_passes [of "aw_task w"]
  by (simp add: native_gate_def wp_simps wp_on_task) (simp add: native_owner_def plainly_done_def native_ready_def)

lemma sample_native_body:
  "act_wp (native_body sample_agent sample_native ''r'' ''t'' ''do it'' ''auto'')
     (\<lambda>a w. a = ''done'' \<and> native_ready (aw_task w)) (\<lambda>_ _. False) (sample_world [JStr ''<final>done</final>''])"
proof -
  have run: "act_wp (run_agent sample_agent ''r'' ''t'' ''do it'') (\<lambda>a w. a = ''done'' \<and> plainly_done (aw_task w)) (\<lambda>_ _. False) w"
    if "ex_env (aw_exec w) = [JStr ''<final>done</final>'']" for w
  proof -
    have "w\<lparr>aw_exec := (aw_exec w)\<lparr>ex_env := [JStr ''<final>done</final>'']\<rparr>\<rparr> = w"
      using that by (cases w; cases "aw_exec w") simp
    with sample_run_done [of w] show ?thesis by simp
  qed
  show ?thesis
    unfolding native_body_def Let_def
    by (simp add: wp_simps sample_native_def [THEN arg_cong [of _ _ nc_record_session]])
      (rule act_wp_conseq [OF run], auto simp: sample_world_def wp_simps dest: sample_native_gate)
qed

lemma sample_native_run:
  "act_wp (native_run sample_agent sample_native ''r'' ''t'' ''do it'' ''auto'')
     (\<lambda>a w. a = ''done'' \<and> ts_status (aw_task w) = ''completed'' \<and> ts_tool_steps (aw_task w) = 0) (\<lambda>_ _. False)
     (sample_world [JStr ''<final>done</final>''])"
  by (simp add: native_run_def wp_simps, rule act_wp_conseq [OF sample_native_body])
    (auto simp: native_finally_def finalize_run_def wp_simps attempt_def native_ready_def Let_def)

theorem completed_run_passed_the_gate_witness:
  "\<exists>w'. native_run sample_agent sample_native ''r'' ''t'' ''do it'' ''auto'' (sample_world [JStr ''<final>done</final>'']) =
      (Inr ''done'', w') \<and> ts_status (aw_task w') = ''completed'' \<and>
      (ts_last_tool (aw_task w') \<in> set LAST_WRITES \<longrightarrow> has_write_evidence (aw_task w'))"
proof -
  obtain w' where run: "native_run sample_agent sample_native ''r'' ''t'' ''do it'' ''auto'' (sample_world [JStr ''<final>done</final>'']) =
      (Inr ''done'', w')" and "ts_status (aw_task w') = ''completed''" "ts_tool_steps (aw_task w') = 0"
    using wp_runs [OF sample_native_run] by blast
  with completed_run_passed_the_gate [OF run] show ?thesis by simp
qed

text \<open>
  The loop has announced its end before the gate judges it, and the end of the run is announced
  only once: a run that the gate stops stays announced as completed, in its trace and to the client.
\<close>

theorem blocked_run_stays_announced:
  assumes "gate_applies intent (aw_task w)" and "gate_fails nc intent (aw_task w)"
    and "ts_run_finished_emitted (aw_task w)"
    and "act_bind (native_gate nc intent answer) (native_finally x) w = (r, w')"
  shows "ts_status (aw_task w') \<in> {''stopped'', ''failed''} \<and> finished_traces (aw_log w') \<le> finished_traces (aw_log w)"
proof -
  let ?u = "w\<lparr>aw_task := block_run (aw_task w)\<rparr>"
  have stopped: "ts_status (block_run (aw_task w)) = ''stopped''"
    and emitted: "ts_run_finished_emitted (block_run (aw_task w))"
    using assms(3) by (simp_all add: block_run_def stop_run_def record_error_def Let_def)
  have "finalize_run x ?u = (r, w')"
    using assms(1,2,4) stopped
    by (simp add: native_gate_def native_finally_def act_defs on_task_def)
  with finalize_run_returns [of x ?u] finalize_run_effect [of x ?u] finalized_fields(1) [of "aw_task ?u" "aw_task w'"]
  show ?thesis using stopped emitted by auto
qed

definition sample_unwritten :: task_state where
  "sample_unwritten = (new_task_state ''r'' ''t'' ''q'')
     \<lparr>ts_status := ''completed'', ts_final_answer := ''done'', ts_last_tool := ''write_file'', ts_run_finished_emitted := True\<rparr>"

theorem blocked_run_stays_announced_witness:
  "ts_status (aw_task (snd (act_bind (native_gate sample_native ''auto'' ''done'') (native_finally sample_agent)
     ((sample_world [])\<lparr>aw_task := sample_unwritten\<rparr>)))) \<in> {''stopped'', ''failed''}"
proof -
  let ?w = "(sample_world [])\<lparr>aw_task := sample_unwritten\<rparr>"
  obtain r w' where run: "act_bind (native_gate sample_native ''auto'' ''done'') (native_finally sample_agent) ?w = (r, w')"
    by fastforce
  have "gate_applies ''auto'' sample_unwritten" and "ts_run_finished_emitted sample_unwritten"
    by (simp_all add: gate_applies_def sample_unwritten_def)
  moreover have "gate_fails sample_native ''auto'' sample_unwritten"
    by (simp add: gate_fails_def run_review_gate_def sample_unwritten_def new_task_state_def gate_verdict_def
        GATE_STEP_BUDGET_UNLIMITED_def STAGNATION_ROUNDS_LIMIT_def has_write_evidence_def LAST_WRITES_def
        round_signature_nonempty Let_def)
  ultimately show ?thesis using blocked_run_stays_announced [OF _ _ _ run] run by simp
qed

end
