(* ===== verification/Durable_Memory.thy ===== *)
theory Durable_Memory
  imports Task_State
begin

text \<open>
  The durable memory of a workspace (\<open>DurableMemoryStore\<close> in \<open>pico/features/memory.py\<close>): an index file
  and a file per topic, read and written as texts.  The order in which Python walks a set of words is
  an argument, and so is the text of the current time.  Faults of the file system are left out; the
  patterns for Chinese subjects are left out.
\<close>

section \<open>Words\<close>

definition is_token_char :: "char \<Rightarrow> bool" where
  "is_token_char c \<longleftrightarrow>
     (let n = of_char c :: nat in (48 \<le> n \<and> n \<le> 57) \<or> (65 \<le> n \<and> n \<le> 90) \<or> (97 \<le> n \<and> n \<le> 122) \<or> n = 95)"

fun token_runs :: "string \<Rightarrow> string \<Rightarrow> string list" where
  "token_runs [] acc = (if acc = [] then [] else [rev acc])"
| "token_runs (c # cs) acc =
     (if is_token_char c then token_runs cs (c # acc)
      else if acc = [] then token_runs cs [] else rev acc # token_runs cs [])"

text \<open>\<open>_tokenize\<close>: the set of words in lower case, as a list without repetitions.\<close>

definition tokenize :: "string \<Rightarrow> string list" where
  "tokenize s = remdups (map py_lower (token_runs s []))"

text \<open>\<open>text.split(",")\<close> for one character.\<close>

fun split_char :: "char \<Rightarrow> string \<Rightarrow> string list" where
  "split_char x [] = [[]]"
| "split_char x (c # cs) =
     (if c = x then [] # split_char x cs
      else (case split_char x cs of [] \<Rightarrow> [[c]] | p # ps \<Rightarrow> (c # p) # ps))"

definition tag_list :: "string \<Rightarrow> string list" where
  "tag_list s = filter (\<lambda>t. t \<noteq> []) (map py_strip (split_char CHR '','' s))"

section \<open>The subject of a note\<close>

text \<open>
  \<open>subject_tail w s\<close>: after the subject come white space, one of the words, white space, and the rest
  of the text on one line.
\<close>

definition after_verb :: "string \<Rightarrow> string \<Rightarrow> bool" where
  "after_verb w s \<longleftrightarrow>
     (let body = dropWhile is_space s; rest = drop (length w) body; tail = dropWhile is_space rest in
      s \<noteq> body \<and> starts_with w (py_lower body) \<and> rest \<noteq> tail \<and> tail \<noteq> [] \<and> CHR 0x0A \<notin> set tail)"

fun subject_before :: "string list \<Rightarrow> string \<Rightarrow> string \<Rightarrow> string option" where
  "subject_before ws acc [] = None"
| "subject_before ws acc (c # cs) =
     (if acc \<noteq> [] \<and> list_ex (\<lambda>w. after_verb w (c # cs)) ws then Some (rev acc)
      else if c = CHR 0x0A then None
      else subject_before ws (c # acc) cs)"

definition SUBJECT_VERBS :: "string list list" where
  "SUBJECT_VERBS = [[''is''], [''are''], [''use'', ''uses''], [''should'']]"

definition first_some :: "('a \<Rightarrow> 'b option) \<Rightarrow> 'a list \<Rightarrow> 'b option" where
  "first_some f xs = foldr (\<lambda>x r. case f x of None \<Rightarrow> r | Some y \<Rightarrow> Some y) xs None"

definition subject_key :: "(string list \<Rightarrow> string) \<Rightarrow> string \<Rightarrow> string option" where
  "subject_key join_set text =
     (case first_some (\<lambda>ws. subject_before ws [] (py_strip text)) SUBJECT_VERBS of
        None \<Rightarrow> None
      | Some subject \<Rightarrow> (let key = join_set (tokenize subject) in if key = [] then None else Some key))"

section \<open>The files\<close>

record durable_topic =
  dt_topic :: string
  dt_title :: string
  dt_summary :: string
  dt_tags :: "string list"

record durable_note =
  dn_text :: string
  dn_tags :: "string list"
  dn_source :: string
  dn_created :: string

record durable_files =
  df_index :: "string option"
  df_topics :: "(string \<times> string) list"

definition DURABLE_TOPIC_DEFAULTS :: "(string \<times> durable_topic) list" where
  "DURABLE_TOPIC_DEFAULTS =
     [(''project-conventions'', \<lparr>dt_topic = ''project-conventions'', dt_title = ''Project Conventions'',
         dt_summary = ''Stable repository conventions.'', dt_tags = [''convention'']\<rparr>),
      (''key-decisions'', \<lparr>dt_topic = ''key-decisions'', dt_title = ''Key Decisions'',
         dt_summary = ''Long-lived decisions and rationale anchors.'', dt_tags = [''decision'']\<rparr>),
      (''dependency-facts'', \<lparr>dt_topic = ''dependency-facts'', dt_title = ''Dependency Facts'',
         dt_summary = ''Stable dependency and environment facts.'', dt_tags = [''dependency'']\<rparr>),
      (''user-preferences'', \<lparr>dt_topic = ''user-preferences'', dt_title = ''User Preferences'',
         dt_summary = ''Stable user preferences.'', dt_tags = [''preference'']\<rparr>)]"

subsection \<open>Reading\<close>

text \<open>The text after a prefix and white space, when there is any.\<close>

definition field_after :: "string \<Rightarrow> string \<Rightarrow> string option" where
  "field_after p line =
     (if starts_with p line \<and> drop (length p) line \<noteq> [] then Some (py_strip (drop (length p) line)) else None)"

definition index_entry :: "string \<Rightarrow> durable_topic option" where
  "index_entry line =
     (if \<not> starts_with ''- ['' line then None
      else (let name = takeWhile (\<lambda>c. c \<noteq> CHR '']'') (drop 3 line);
                after = drop (3 + length name) line;
                target = takeWhile (\<lambda>c. c \<noteq> CHR '')'') (drop 2 after);
                tail = drop (2 + length target) after in
            if name \<noteq> [] \<and> starts_with '']('' after \<and> target \<noteq> [] \<and> starts_with ''):'' tail \<and> drop 2 tail \<noteq> []
            then Some \<lparr>dt_topic = py_strip name, dt_title = py_strip (drop 2 tail), dt_summary = [], dt_tags = []\<rparr>
            else None))"

fun on_last :: "('a \<Rightarrow> 'a) \<Rightarrow> 'a list \<Rightarrow> 'a list" where
  "on_last f [] = []"
| "on_last f [x] = [f x]"
| "on_last f (x # y # ys) = x # on_last f (y # ys)"

definition index_line :: "string \<Rightarrow> durable_topic list \<Rightarrow> durable_topic list" where
  "index_line raw topics =
     (let line = py_strip raw in
      case index_entry line of
        Some t \<Rightarrow> topics @ [t]
      | None \<Rightarrow>
          (case field_after ''- summary:'' line of
             Some s \<Rightarrow> on_last (\<lambda>t. t\<lparr>dt_summary := s\<rparr>) topics
           | None \<Rightarrow>
               (case field_after ''- tags:'' line of
                  Some s \<Rightarrow> on_last (\<lambda>t. t\<lparr>dt_tags := tag_list s\<rparr>) topics
                | None \<Rightarrow> topics)))"

definition load_index :: "durable_files \<Rightarrow> durable_topic list" where
  "load_index d =
     (case df_index d of None \<Rightarrow> [] | Some text \<Rightarrow> fold index_line (splitlines text) [])"

definition topic_slugs :: "durable_files \<Rightarrow> string list" where
  "topic_slugs d = map dt_topic (load_index d)"

record note_scan =
  ns_capture :: bool
  ns_updated :: string
  ns_tags :: "string list"
  ns_notes :: "durable_note list"

definition after_colon :: "string \<Rightarrow> string" where
  "after_colon line = tl (dropWhile (\<lambda>c. c \<noteq> CHR '':'') line)"

definition note_line :: "string \<Rightarrow> string \<Rightarrow> string \<Rightarrow> note_scan \<Rightarrow> note_scan" where
  "note_line now topic raw s =
     (let line = py_strip raw in
      if starts_with ''- tags:'' line then s\<lparr>ns_tags := tag_list (after_colon line)\<rparr>
      else if starts_with ''- updated_at:'' line then s\<lparr>ns_updated := py_strip (after_colon line)\<rparr>
      else if line = ''## Notes'' then s\<lparr>ns_capture := True\<rparr>
      else if ns_capture s \<and> starts_with ''- '' line
      then s\<lparr>ns_notes := ns_notes s @
             [\<lparr>dn_text = py_strip (drop 2 line), dn_tags = ns_tags s, dn_source = topic,
               dn_created = (if ns_updated s \<noteq> [] then ns_updated s else now)\<rparr>]\<rparr>
      else s)"

definition load_topic_notes :: "string \<Rightarrow> durable_files \<Rightarrow> string \<Rightarrow> durable_note list" where
  "load_topic_notes now d topic =
     (case obj_get (df_topics d) topic of
        None \<Rightarrow> []
      | Some text \<Rightarrow>
          ns_notes (fold (note_line now topic) (splitlines text)
            \<lparr>ns_capture = False, ns_updated = [], ns_tags = [], ns_notes = []\<rparr>))"

subsection \<open>Writing\<close>

definition file_text :: "string list \<Rightarrow> string" where
  "file_text lines = rev (dropWhile is_space (rev (py_join nl lines))) @ nl"

definition index_lines :: "durable_topic \<Rightarrow> string list" where
  "index_lines t =
     [''- ['' @ dt_topic t @ ''](topics/'' @ dt_topic t @ ''.md): '' @ dt_title t,
      ''  - summary: '' @ dt_summary t, ''  - tags: '' @ py_join '', '' (dt_tags t)]"

definition write_index :: "durable_topic list \<Rightarrow> durable_files \<Rightarrow> durable_files" where
  "write_index topics d =
     d\<lparr>df_index := Some (file_text ([''# Durable Memory Index'', []] @ concat (map index_lines topics)))\<rparr>"

definition topic_lines :: "string \<Rightarrow> durable_topic \<Rightarrow> string list \<Rightarrow> string list" where
  "topic_lines now meta notes =
     [''# '' @ dt_title meta, [], ''- topic: '' @ dt_topic meta, ''- summary: '' @ dt_summary meta,
      ''- tags: '' @ py_join '', '' (dt_tags meta), ''- updated_at: '' @ now, [], ''## Notes''] @
     map (\<lambda>n. ''- '' @ n) notes"

definition write_topic :: "string \<Rightarrow> string \<Rightarrow> string list \<Rightarrow> (durable_files, exn, unit) act" where
  "write_topic now topic notes =
     (case map_of DURABLE_TOPIC_DEFAULTS topic of
        None \<Rightarrow> act_raise Key_Error
      | Some meta \<Rightarrow> act_modify (\<lambda>d. d\<lparr>df_topics := obj_put (df_topics d) topic (file_text (topic_lines now meta notes))\<rparr>))"

section \<open>Promotion\<close>

fun replace_first :: "('a \<Rightarrow> bool) \<Rightarrow> 'a \<Rightarrow> 'a list \<Rightarrow> ('a \<times> 'a list) option" where
  "replace_first P y [] = None"
| "replace_first P y (x # xs) =
     (if P x then Some (x, y # xs)
      else (case replace_first P y xs of None \<Rightarrow> None | Some (old, zs) \<Rightarrow> Some (old, x # zs)))"

record promotion =
  pm_topics :: "(string \<times> durable_topic) list"
  pm_notes :: "(string \<times> string list) list"
  pm_results :: "string list"
  pm_superseded :: "string list"

definition existing_notes :: "promotion \<Rightarrow> string \<Rightarrow> string list" where
  "existing_notes p topic = (case obj_get (pm_notes p) topic of None \<Rightarrow> [] | Some ns \<Rightarrow> ns)"

definition supersede :: "(string list \<Rightarrow> string) \<Rightarrow> string \<Rightarrow> string list \<Rightarrow> (string \<times> string list) option" where
  "supersede join_set note existing =
     (case subject_key join_set note of
        None \<Rightarrow> None
      | Some key \<Rightarrow> replace_first (\<lambda>old. subject_key join_set old = Some key) note existing)"

definition promote_one ::
  "(string list \<Rightarrow> string) \<Rightarrow> string \<times> string \<Rightarrow> promotion \<Rightarrow> exn + promotion" where
  "promote_one join_set item p =
     (case item of (topic, note) \<Rightarrow>
        (case map_of DURABLE_TOPIC_DEFAULTS topic of
           None \<Rightarrow> Inl Key_Error
         | Some meta \<Rightarrow>
             (let existing = existing_notes p topic;
                  p = p\<lparr>pm_topics := obj_setdefault (pm_topics p) topic meta,
                        pm_notes := obj_setdefault (pm_notes p) topic []\<rparr> in
              if note \<in> set existing then Inr p
              else (case supersede join_set note existing of
                      Some (old, notes) \<Rightarrow>
                        Inr (p\<lparr>pm_notes := obj_put (pm_notes p) topic notes,
                               pm_superseded := pm_superseded p @ [topic @ '': '' @ old @ '' -> '' @ note],
                               pm_results := pm_results p @ [topic @ '': '' @ note]\<rparr>)
                    | None \<Rightarrow>
                        Inr (p\<lparr>pm_notes := obj_put (pm_notes p) topic (existing @ [note]),
                               pm_results := pm_results p @ [topic @ '': '' @ note]\<rparr>)))))"

fun promote_each ::
  "(string list \<Rightarrow> string) \<Rightarrow> (string \<times> string) list \<Rightarrow> promotion \<Rightarrow> exn + promotion" where
  "promote_each join_set [] p = Inr p"
| "promote_each join_set (item # items) p = res_bind (promote_one join_set item p) (promote_each join_set items)"

definition start_promotion :: "string \<Rightarrow> durable_files \<Rightarrow> promotion" where
  "start_promotion now d =
     (let topics = foldl (\<lambda>m t. obj_put m (dt_topic t) t) [] (load_index d) in
      \<lparr>pm_topics = topics, pm_notes = map (\<lambda>(slug, _). (slug, map dn_text (load_topic_notes now d slug))) topics,
       pm_results = [], pm_superseded = []\<rparr>)"

definition promote ::
  "(string list \<Rightarrow> string) \<Rightarrow> string \<Rightarrow> (string \<times> string) list \<Rightarrow> (durable_files, exn, string list \<times> string list) act" where
  "promote join_set now promotions =
     (if promotions = [] then act_ret ([], [])
      else act_bind (act_get (\<lambda>d. promote_each join_set promotions (start_promotion now d))) (\<lambda>r.
        case r of
          Inl e \<Rightarrow> act_raise e
        | Inr p \<Rightarrow>
            act_then (act_modify (write_index (map snd (sort_key fst (pm_topics p)))))
              (act_then (act_each (\<lambda>(topic, notes). write_topic now topic notes) (pm_notes p))
                (act_ret (pm_results p, pm_superseded p)))))"

section \<open>Recall\<close>

definition overlap :: "string list \<Rightarrow> string list \<Rightarrow> nat" where
  "overlap query words = length (filter (\<lambda>w. w \<in> set words) query)"

definition durable_rank :: "(string \<Rightarrow> int) \<Rightarrow> string list \<Rightarrow> string \<Rightarrow> durable_note \<Rightarrow> (nat \<times> nat \<times> int) option" where
  "durable_rank timestamp query title note =
     (let tags = remdups (map py_lower (dn_tags note));
          tokens = remdups (tokenize (dn_text note) @ tokenize title @ tags);
          tag_match = (if overlap query tags = 0 then 0 else 1);
          hits = overlap query tokens in
      if tag_match = 0 \<and> hits = 0 then None else Some (tag_match, hits, timestamp (dn_created note)))"

text \<open>\<open>ranked.sort(key=..., reverse=True)\<close>: highest rank first, equal ranks in their order.\<close>

definition ranked_best :: "('k :: linorder \<times> 'a) list \<Rightarrow> nat \<Rightarrow> 'a list" where
  "ranked_best ranked limit = take limit (map snd (rev (sort_key fst (rev ranked))))"

definition durable_candidates ::
  "(string \<Rightarrow> int) \<Rightarrow> string \<Rightarrow> durable_files \<Rightarrow> string \<Rightarrow> nat \<Rightarrow> durable_note list" where
  "durable_candidates timestamp now d query limit =
     ranked_best (List.map_filter id (concat (map (\<lambda>t. map (\<lambda>n.
         map_option (\<lambda>k. (k, n)) (durable_rank timestamp (tokenize query) (dt_title t) n))
       (load_topic_notes now d (dt_topic t))) (load_index d)))) limit"

section \<open>Lines of a file\<close>

definition one_line :: "string \<Rightarrow> bool" where
  "one_line s \<longleftrightarrow> list_all (\<lambda>c. \<not> is_line_end c) s"

lemma one_line_simps [simp]:
  "one_line []" "one_line (c # s) \<longleftrightarrow> \<not> is_line_end c \<and> one_line s" "one_line (s @ t) \<longleftrightarrow> one_line s \<and> one_line t"
  by (simp_all add: one_line_def)

lemma nl_char: "nl = [CHR 0x0A]" and cr_char: "char_of (13 :: nat) = CHR 0x0D"
  unfolding nl_def by code_simp+

lemma splitlines_step: "one_line line \<Longrightarrow> splitlines_acc (line @ CHR 0x0A # rest) acc = (rev acc @ line) # splitlines_acc rest []"
proof (induction line arbitrary: acc)
  case Nil
  have "is_line_end CHR 0x0A" "char_of (13 :: nat) \<noteq> CHR 0x0A" by (simp_all add: is_line_end_def Let_def cr_char)
  then show ?case by (cases rest) auto
next
  case (Cons c line)
  have "char_of (13 :: nat) = c \<Longrightarrow> is_line_end c" for c by (auto simp: is_line_end_def Let_def)
  with Cons.prems have c: "c \<noteq> char_of (13 :: nat)" by auto
  obtain d ds where d: "line @ CHR 0x0A # rest = d # ds" by (cases "line @ CHR 0x0A # rest") auto
  have "splitlines_acc ((c # line) @ CHR 0x0A # rest) acc = splitlines_acc (line @ CHR 0x0A # rest) (c # acc)"
    using Cons.prems c by (simp only: append_Cons d splitlines_acc.simps) simp
  with Cons show ?case by simp
qed

lemma splitlines_single: "one_line s \<Longrightarrow> s \<noteq> [] \<Longrightarrow> splitlines s = [s]"
proof -
  have "one_line s \<Longrightarrow> s \<noteq> [] \<Longrightarrow> splitlines_acc s acc = [rev acc @ s]" for acc
  proof (induction s acc rule: splitlines_acc.induct)
    case (3 c d cs acc)
    have "is_line_end (char_of (13 :: nat))" by (simp add: is_line_end_def Let_def)
    with 3 have "c \<noteq> char_of (13 :: nat)" by auto
    with 3 show ?case by simp
  qed simp_all
  then show "one_line s \<Longrightarrow> s \<noteq> [] \<Longrightarrow> splitlines s = [s]" by (simp add: splitlines_def)
qed

lemma splitlines_join: "list_all one_line lines \<Longrightarrow> lines \<noteq> [] \<Longrightarrow> splitlines (py_join nl lines @ nl) = lines"
proof (induction lines rule: induct_list012)
  case (2 x)
  then show ?case using splitlines_step [of x "[]" "[]"] by (simp add: splitlines_def nl_char)
next
  case (3 x y ys)
  then show ?case
    using splitlines_step [of x "py_join nl (y # ys) @ nl" "[]"] by (simp add: splitlines_def nl_char)
qed simp

lemma py_join_snoc: "xs \<noteq> [] \<Longrightarrow> py_join sep (xs @ [x]) = py_join sep xs @ sep @ x"
  by (induction xs rule: induct_list012) auto

definition solid_end :: "string \<Rightarrow> bool" where
  "solid_end s \<longleftrightarrow> s \<noteq> [] \<and> \<not> is_space (last s)"

lemma file_text_lines:
  assumes "lines \<noteq> []" and "solid_end (last lines)"
  shows "file_text lines = py_join nl lines @ nl"
proof -
  have "solid_end (py_join nl lines)"
  proof (cases "butlast lines = []")
    case True
    with assms(1) have "lines = [last lines]" by (metis append_butlast_last_id append_self_conv2)
    with assms(2) show ?thesis by (metis py_join.simps(2))
  next
    case False
    with assms(1) py_join_snoc [of "butlast lines" nl "last lines"]
    have "py_join nl lines = py_join nl (butlast lines) @ nl @ last lines" by simp
    with assms(2) show ?thesis by (simp add: solid_end_def)
  qed
  then have "dropWhile is_space (rev (py_join nl lines)) = rev (py_join nl lines)"
    by (intro dropWhile_id) (simp add: solid_end_def hd_rev)
  then show ?thesis by (simp add: file_text_def)
qed

lemma splitlines_file_text:
  "list_all one_line lines \<Longrightarrow> lines \<noteq> [] \<Longrightarrow> solid_end (last lines) \<Longrightarrow> splitlines (file_text lines) = lines"
  by (simp add: file_text_lines splitlines_join)

text \<open>Texts that white space neither starts nor ends.\<close>

definition trimmed :: "string \<Rightarrow> bool" where
  "trimmed s \<longleftrightarrow> s \<noteq> [] \<and> \<not> is_space (hd s) \<and> \<not> is_space (last s)"

lemma trimmed_strip: "trimmed s \<Longrightarrow> py_strip s = s"
  by (simp add: trimmed_def py_strip_def dropWhile_id hd_rev)

lemma strip_trimmed: "py_strip s \<noteq> [] \<Longrightarrow> trimmed (py_strip s)"
proof -
  assume n: "py_strip s \<noteq> []"
  let ?u = "dropWhile is_space s"
  have u: "?u \<noteq> []" using n by (auto simp only: py_strip_def dropWhile.simps rev.simps)
  with dropWhile_rev_hd [OF u, of is_space] hd_dropWhile [OF u]
  have "\<not> is_space (hd (py_strip s))" by (simp add: py_strip_def)
  moreover have "dropWhile is_space (rev ?u) \<noteq> []" using n by (simp add: py_strip_def)
  from hd_dropWhile [OF this] have "\<not> is_space (last (py_strip s))" by (simp add: py_strip_def last_rev)
  ultimately show ?thesis using n by (simp add: trimmed_def)
qed

lemma trimmed_iff: "trimmed s \<longleftrightarrow> s \<noteq> [] \<and> py_strip s = s"
  using trimmed_strip strip_trimmed [of s] by (auto simp: trimmed_def)

lemma trimmed_append: "p \<noteq> [] \<Longrightarrow> \<not> is_space (hd p) \<Longrightarrow> trimmed s \<Longrightarrow> trimmed (p @ s)"
  by (cases p) (auto simp: trimmed_def)

lemma dropWhile_stops: "dropWhile P ys = ys \<Longrightarrow> \<exists>q. dropWhile P (xs @ ys) = q @ ys"
proof (induction xs)
  case Nil
  then show ?case by simp
next
  case (Cons x xs)
  then show ?case by (cases "P x") (auto intro: exI [of _ "x # xs"])
qed

lemma starts_with_strip:
  assumes "starts_with p s" and "trimmed p"
  shows "starts_with p (py_strip s)"
proof -
  obtain r where s: "s = p @ r" using assms(1) by (auto simp: starts_with_iff)
  have "dropWhile is_space s = s"
    using assms(2) by (intro dropWhile_id) (auto simp: s trimmed_def)
  then have "py_strip s = rev (dropWhile is_space (rev r @ rev p))" by (simp add: py_strip_def s)
  moreover have "dropWhile is_space (rev p) = rev p"
    using assms(2) by (intro dropWhile_id) (auto simp: trimmed_def hd_rev)
  then have "\<exists>q. dropWhile is_space (rev r @ rev p) = q @ rev p" by (rule dropWhile_stops)
  ultimately show ?thesis by (auto simp: starts_with_iff)
qed

section \<open>A topic file is read back\<close>

definition clean_note :: "string \<Rightarrow> bool" where
  "clean_note n \<longleftrightarrow> trimmed n \<and> one_line n \<and> \<not> starts_with ''tags:'' n \<and> \<not> starts_with ''updated_at:'' n"

lemma before_notes:
  "\<not> ns_capture s \<Longrightarrow> py_strip raw \<noteq> ''## Notes'' \<Longrightarrow>
   \<not> ns_capture (note_line now topic raw s) \<and> ns_notes (note_line now topic raw s) = ns_notes s"
  by (simp add: note_line_def Let_def)

lemma before_notes_fold:
  "\<not> ns_capture s \<Longrightarrow> list_all (\<lambda>raw. py_strip raw \<noteq> ''## Notes'') lines \<Longrightarrow>
   \<not> ns_capture (fold (note_line now topic) lines s) \<and> ns_notes (fold (note_line now topic) lines s) = ns_notes s"
proof (induction lines arbitrary: s)
  case (Cons raw lines)
  from before_notes [of s raw now topic] Cons show ?case by simp
qed simp

lemma notes_heading: "note_line now topic ''## Notes'' s = s\<lparr>ns_capture := True\<rparr>"
proof -
  have "py_strip ''## Notes'' = ''## Notes''" by code_simp
  then show ?thesis by (simp add: note_line_def starts_with_def)
qed

lemma dash_note: "py_strip (''- '' @ n) = ''- '' @ n" if "trimmed n"
  using trimmed_strip [OF trimmed_append [of "''- ''" n]] that by (simp add: is_space_def Let_def)

lemma note_read:
  assumes "ns_capture s" and "clean_note n"
  shows "map dn_text (ns_notes (note_line now topic (''- '' @ n) s)) = map dn_text (ns_notes s) @ [n]"
    and "ns_capture (note_line now topic (''- '' @ n) s)"
  using assms dash_note [of n] trimmed_strip [of n]
  by (simp_all add: clean_note_def note_line_def Let_def starts_with_def)

lemma notes_read:
  "ns_capture s \<Longrightarrow> list_all clean_note ns \<Longrightarrow>
   map dn_text (ns_notes (fold (note_line now topic) (map (\<lambda>n. ''- '' @ n) ns) s)) = map dn_text (ns_notes s) @ ns"
proof (induction ns arbitrary: s)
  case (Cons n ns)
  from Cons note_read [of s n now topic] show ?case by (simp del: append_Cons append_Nil add: append_assoc)
qed simp

lemma defaults_cases:
  assumes "map_of DURABLE_TOPIC_DEFAULTS topic = Some meta"
  shows "dt_topic meta = topic" and "meta \<in> snd ` set DURABLE_TOPIC_DEFAULTS"
  using assms map_of_SomeD [OF assms] by (auto simp: DURABLE_TOPIC_DEFAULTS_def split: if_splits)

lemma defaults_texts:
  "list_all (\<lambda>m. trimmed (dt_title m) \<and> one_line (dt_title m) \<and> one_line (dt_topic m) \<and> one_line (dt_summary m) \<and>
     one_line (py_join '', '' (dt_tags m))) (map snd DURABLE_TOPIC_DEFAULTS)"
  by (simp add: DURABLE_TOPIC_DEFAULTS_def trimmed_def is_line_end_def is_space_def Let_def)

definition header_lines :: "string \<Rightarrow> durable_topic \<Rightarrow> string list" where
  "header_lines now meta = butlast (topic_lines now meta [])"

lemma topic_lines_split: "topic_lines now meta ns = header_lines now meta @ ''## Notes'' # map (\<lambda>n. ''- '' @ n) ns"
  by (simp add: topic_lines_def header_lines_def)

lemma dash_no_heading: "starts_with ''-'' raw \<Longrightarrow> py_strip raw \<noteq> ''## Notes''"
  using starts_with_strip [of "''-''" raw] by (auto simp: trimmed_def is_space_def Let_def starts_with_def)

lemma title_no_heading: "trimmed t \<Longrightarrow> py_strip (''# '' @ t) \<noteq> ''## Notes''"
  using trimmed_strip [OF trimmed_append [of "''# ''" t]] by (simp add: is_space_def Let_def)

lemma defaults_header:
  assumes "map_of DURABLE_TOPIC_DEFAULTS topic = Some meta" and "one_line now"
  shows "list_all one_line (header_lines now meta)"
    and "list_all (\<lambda>raw. py_strip raw \<noteq> ''## Notes'') (header_lines now meta)"
proof -
  have m: "trimmed (dt_title meta)" "one_line (dt_title meta)" "one_line (dt_topic meta)" "one_line (dt_summary meta)"
    "one_line (py_join '', '' (dt_tags meta))"
    using defaults_texts defaults_cases(2) [OF assms(1)] by (auto simp: list_all_iff)
  show "list_all one_line (header_lines now meta)"
    using m assms(2) by (simp add: header_lines_def topic_lines_def is_line_end_def Let_def)
  show "list_all (\<lambda>raw. py_strip raw \<noteq> ''## Notes'') (header_lines now meta)"
    using title_no_heading [OF m(1)] by (simp add: header_lines_def topic_lines_def dash_no_heading starts_with_def)
qed

lemma clean_note_line: "clean_note n \<Longrightarrow> one_line (''- '' @ n) \<and> solid_end (''- '' @ n)"
  by (simp add: clean_note_def solid_end_def trimmed_def is_line_end_def Let_def)

lemma topic_lines_text:
  assumes "map_of DURABLE_TOPIC_DEFAULTS topic = Some meta" and "one_line now" and "list_all clean_note ns"
  shows "splitlines (file_text (topic_lines now meta ns)) = topic_lines now meta ns"
proof (rule splitlines_file_text)
  show "list_all one_line (topic_lines now meta ns)"
    using assms(3) defaults_header(1) [OF assms(1,2)]
    by (auto simp: topic_lines_split is_line_end_def Let_def list_all_iff clean_note_def)
  show "topic_lines now meta ns \<noteq> []" by (simp add: topic_lines_def)
  show "solid_end (last (topic_lines now meta ns))"
  proof (cases ns rule: rev_cases)
    case Nil
    then show ?thesis by (simp add: topic_lines_def solid_end_def is_space_def Let_def)
  next
    case (snoc ys n)
    with assms(3) clean_note_line [of n] show ?thesis by (simp add: topic_lines_def)
  qed
qed

lemma topic_notes_read:
  assumes "map_of DURABLE_TOPIC_DEFAULTS topic = Some meta" and "one_line now" and "list_all clean_note ns"
    and "obj_get (df_topics d) topic = Some (file_text (topic_lines now meta ns))"
  shows "map dn_text (load_topic_notes now' d topic) = ns"
proof -
  let ?s = "\<lparr>ns_capture = False, ns_updated = [], ns_tags = [], ns_notes = []\<rparr>"
  let ?t = "fold (note_line now' topic) (header_lines now meta) ?s"
  have "ns_notes ?t = []" using before_notes_fold [OF _ defaults_header(2) [OF assms(1,2)], of ?s] by simp
  then have "map dn_text (ns_notes (fold (note_line now' topic) (map (\<lambda>n. ''- '' @ n) ns) (?t\<lparr>ns_capture := True\<rparr>))) = ns"
    using notes_read [of "?t\<lparr>ns_capture := True\<rparr>" ns] assms(3) by simp
  then show ?thesis
    using topic_lines_text [OF assms(1-3)] assms(4)
    by (simp add: load_topic_notes_def topic_lines_split notes_heading del: append_Cons append_Nil)
qed

section \<open>What a promotion keeps\<close>

lemma replace_first_some:
  "replace_first P y xs = Some (old, zs) \<Longrightarrow>
   P old \<and> old \<in> set xs \<and> y \<in> set zs \<and> (\<forall>x \<in> set xs. x \<in> set zs \<or> P x) \<and> length zs = length xs \<and> set zs \<subseteq> insert y (set xs)"
proof (induction P y xs arbitrary: zs rule: replace_first.induct)
  case (2 P y x xs)
  then show ?case by (cases "P x") (auto split: option.splits)
qed simp

text \<open>A note of a topic stays, unless a promoted note with its subject took its place.\<close>

definition same_subject :: "(string list \<Rightarrow> string) \<Rightarrow> string \<Rightarrow> string \<Rightarrow> bool" where
  "same_subject join_set a b \<longleftrightarrow> subject_key join_set a \<noteq> None \<and> subject_key join_set a = subject_key join_set b"

definition still_there :: "(string list \<Rightarrow> string) \<Rightarrow> (string \<times> string) list \<Rightarrow> string \<Rightarrow> promotion \<Rightarrow> string \<Rightarrow> bool" where
  "still_there join_set items topic p n \<longleftrightarrow>
     n \<in> set (existing_notes p topic) \<or> (\<exists>m. (topic, m) \<in> set items \<and> same_subject join_set m n)"

lemma existing_of:
  "existing_notes p t = (case obj_get (pm_notes p) t of None \<Rightarrow> [] | Some ns \<Rightarrow> ns)"
  by (simp add: existing_notes_def)

lemma get_setdefault: "obj_get (obj_setdefault m k v) k' = (if k' = k \<and> obj_get m k = None then Some v else obj_get m k')"
  by (simp add: obj_setdefault_def split: option.splits)

text \<open>One promotion leaves the notes of its topic as they are, adds the note, or puts it in a place.\<close>

lemma promote_one_notes:
  assumes "promote_one join_set (topic, note) p = Inr q"
  obtains ns where "\<And>t. existing_notes q t = (if t = topic then ns else existing_notes p t)"
    and "ns = existing_notes p topic \<and> note \<in> set ns \<or> ns = existing_notes p topic @ [note] \<or>
      (\<exists>old. supersede join_set note (existing_notes p topic) = Some (old, ns))"
proof -
  let ?ns = "existing_notes q topic"
  have "existing_notes q t = (if t = topic then ?ns else existing_notes p t)" for t
    using assms by (auto simp: promote_one_def Let_def existing_of get_setdefault split: option.splits if_splits prod.splits)
  moreover have "?ns = existing_notes p topic \<and> note \<in> set ?ns \<or> ?ns = existing_notes p topic @ [note] \<or>
      (\<exists>old. supersede join_set note (existing_notes p topic) = Some (old, ?ns))"
    using assms by (auto simp: promote_one_def Let_def existing_of get_setdefault split: option.splits if_splits prod.splits)
  ultimately show ?thesis by (rule that)
qed

lemma supersede_keeps:
  assumes "supersede join_set note xs = Some (old, ns)"
  shows "note \<in> set ns" "length ns = length xs" "set ns \<subseteq> insert note (set xs)"
    and "n \<in> set xs \<Longrightarrow> n \<in> set ns \<or> same_subject join_set note n"
  using assms by (auto simp: supersede_def same_subject_def split: option.splits dest!: replace_first_some)

lemma promote_one_keeps:
  assumes "promote_one join_set (topic, note) p = Inr q"
  shows "note \<in> set (existing_notes q topic)"
    and "n \<in> set (existing_notes p t) \<Longrightarrow> n \<in> set (existing_notes q t) \<or> t = topic \<and> same_subject join_set note n"
    and "length (existing_notes p t) \<le> length (existing_notes q t)"
    and "set (existing_notes q t) \<subseteq> set (existing_notes p t) \<union> {m. (t, m) = (topic, note)}"
proof -
  obtain ns where q: "\<And>t. existing_notes q t = (if t = topic then ns else existing_notes p t)"
    and ns: "ns = existing_notes p topic \<and> note \<in> set ns \<or> ns = existing_notes p topic @ [note] \<or>
      (\<exists>old. supersede join_set note (existing_notes p topic) = Some (old, ns))"
    using promote_one_notes [OF assms] by blast
  show "note \<in> set (existing_notes q topic)" using q ns supersede_keeps(1) by auto
  show "n \<in> set (existing_notes p t) \<Longrightarrow> n \<in> set (existing_notes q t) \<or> t = topic \<and> same_subject join_set note n"
    using q ns supersede_keeps(4) [of join_set "note" "existing_notes p topic" _ ns n] by auto
  show "length (existing_notes p t) \<le> length (existing_notes q t)"
    using q ns supersede_keeps(2) by auto
  show "set (existing_notes q t) \<subseteq> set (existing_notes p t) \<union> {m. (t, m) = (topic, note)}"
    using q ns supersede_keeps(3) [of join_set "note" "existing_notes p topic" _ ns] by (cases "t = topic") auto
qed

lemma promote_each_keeps:
  assumes "promote_each join_set items p = Inr q"
  shows "n \<in> set (existing_notes p t) \<or> (t, n) \<in> set items \<Longrightarrow>
      n \<in> set (existing_notes q t) \<or> (\<exists>m. (t, m) \<in> set items \<and> same_subject join_set m n)"
    and "length (existing_notes p t) \<le> length (existing_notes q t)"
    and "set (existing_notes q t) \<subseteq> set (existing_notes p t) \<union> {m. (t, m) \<in> set items}"
  using assms
proof (induction items arbitrary: p)
  case (Cons item items)
  obtain topic m where item: "item = (topic, m)" by fastforce
  case 1
  then obtain u where one: "promote_one join_set (topic, m) p = Inr u" and rest: "promote_each join_set items u = Inr q"
    by (cases "promote_one join_set item p") (auto simp: item)
  from 1 promote_one_keeps(1,2) [OF one] have "(n \<in> set (existing_notes u t) \<or> (t, n) \<in> set items) \<or>
      t = topic \<and> same_subject join_set m n" by (auto simp: item)
  with Cons.IH(1) [OF _ rest] show ?case by (auto simp: item)
next
  case (Cons item items)
  obtain topic m where item: "item = (topic, m)" by fastforce
  case 2
  then obtain u where one: "promote_one join_set (topic, m) p = Inr u" and rest: "promote_each join_set items u = Inr q"
    by (cases "promote_one join_set item p") (auto simp: item)
  from promote_one_keeps(3) [OF one, of t] Cons.IH(2) [OF rest] show ?case by simp
next
  case (Cons item items)
  obtain topic m where item: "item = (topic, m)" by fastforce
  case 3
  then obtain u where one: "promote_one join_set (topic, m) p = Inr u" and rest: "promote_each join_set items u = Inr q"
    by (cases "promote_one join_set item p") (auto simp: item)
  from promote_one_keeps(4) [OF one, of t] Cons.IH(3) [OF rest] show ?case by (auto simp: item)
qed simp_all

lemma setdefault_distinct: "distinct (map fst m) \<Longrightarrow> distinct (map fst (obj_setdefault m k v))"
  by (simp add: obj_setdefault_def distinct_obj_put split: option.splits)

lemma promote_one_distinct:
  "promote_one join_set item p = Inr q \<Longrightarrow> distinct (map fst (pm_notes p)) \<Longrightarrow> distinct (map fst (pm_notes q))"
  by (auto simp: promote_one_def Let_def setdefault_distinct distinct_obj_put split: option.splits if_splits prod.splits)

lemma promote_each_distinct:
  "promote_each join_set items p = Inr q \<Longrightarrow> distinct (map fst (pm_notes p)) \<Longrightarrow> distinct (map fst (pm_notes q))"
proof (induction items arbitrary: p)
  case (Cons item items)
  then obtain u where "promote_one join_set item p = Inr u" "promote_each join_set items u = Inr q"
    by (cases "promote_one join_set item p") auto
  with Cons promote_one_distinct show ?case by blast
qed simp

lemma start_topics:
  "distinct (map fst (foldl (\<lambda>m t. obj_put m (dt_topic t) t) m ts)) = distinct (map fst m)" if "distinct (map fst m)"
  using that by (induction ts arbitrary: m) (auto simp: distinct_obj_put)

lemma start_topics_keys:
  "set (map fst (foldl (\<lambda>m t. obj_put m (dt_topic t) t) m ts)) = set (map fst m) \<union> dt_topic ` set ts"
proof (induction ts arbitrary: m)
  case (Cons t ts)
  show ?case using Cons [of "obj_put m (dt_topic t) t"] obj_put_keys [of m "dt_topic t" t] by auto
qed simp

lemma obj_get_map: "obj_get (map (\<lambda>p. (fst p, f (fst p))) m) k = (if k \<in> fst ` set m then Some (f k) else None)"
  by (induction m) auto

lemma start_notes:
  "existing_notes (start_promotion now d) t =
     (if t \<in> set (topic_slugs d) then map dn_text (load_topic_notes now d t) else [])"
  using start_topics_keys [of "[]" "load_index d"]
  by (simp add: existing_of start_promotion_def Let_def topic_slugs_def case_prod_unfold obj_get_map [of "\<lambda>k. map dn_text (load_topic_notes now d k)"])

lemma start_distinct: "distinct (map fst (pm_notes (start_promotion now d)))"
  using start_topics [of "[]" "load_index d"] by (simp add: start_promotion_def Let_def comp_def case_prod_unfold)

lemma write_all:
  assumes "act_each (\<lambda>(topic, ns). write_topic now topic ns) m d = (Inr (), d')"
  shows "df_index d' = df_index d"
    and "t \<notin> fst ` set m \<Longrightarrow> obj_get (df_topics d') t = obj_get (df_topics d) t"
    and "distinct (map fst m) \<Longrightarrow> (t, ns) \<in> set m \<Longrightarrow>
      \<exists>meta. map_of DURABLE_TOPIC_DEFAULTS t = Some meta \<and> obj_get (df_topics d') t = Some (file_text (topic_lines now meta ns))"
  using assms
proof (induction m arbitrary: d)
  case Nil
  {
    case 1 then show ?case by (simp add: act_ret_def)
  next
    case 2 then show ?case by (simp add: act_ret_def)
  next
    case 3 then show ?case by simp
  }
next
  case (Cons x m)
  obtain u ms where x: "x = (u, ms)" by fastforce
  have step: "\<exists>meta e. map_of DURABLE_TOPIC_DEFAULTS u = Some meta \<and>
      e = d\<lparr>df_topics := obj_put (df_topics d) u (file_text (topic_lines now meta ms))\<rparr> \<and>
      act_each (\<lambda>(topic, ns). write_topic now topic ns) m e = (Inr (), d')"
    if "act_each (\<lambda>(topic, ns). write_topic now topic ns) (x # m) d = (Inr (), d')" for d
    using that by (auto simp: x act_then_def act_bind_def write_topic_def act_modify_def act_raise_def split: option.splits)
  {
    case 1
    from step [OF 1] Cons.IH(1) show ?case by auto
  next
    case 2
    from step [OF 2(2)] Cons.IH(2) 2(1) show ?case by (auto simp: x)
  next
    case 3
    obtain meta e where e: "map_of DURABLE_TOPIC_DEFAULTS u = Some meta"
      "e = d\<lparr>df_topics := obj_put (df_topics d) u (file_text (topic_lines now meta ms))\<rparr>"
      and tail: "act_each (\<lambda>(topic, ns). write_topic now topic ns) m e = (Inr (), d')"
      using step [OF 3(3)] by blast
    show ?case
    proof (cases "(t, ns) \<in> set m")
      case True
      with Cons.IH(3) [OF _ _ tail] 3 show ?thesis by simp
    next
      case False
      with 3 x have t: "t = u" "ns = ms" "t \<notin> fst ` set m" by auto
      with Cons.IH(2) [OF t(3) tail] e show ?thesis by simp
    qed
  }
qed

section \<open>Promotion\<close>

lemma promote_runs:
  assumes "promote join_set now ps d = (Inr r, d')" and "ps \<noteq> []"
  obtains q where "promote_each join_set ps (start_promotion now d) = Inr q"
    and "act_each (\<lambda>(topic, ns). write_topic now topic ns) (pm_notes q)
      (write_index (map snd (sort_key fst (pm_topics q))) d) = (Inr (), d')"
    and "r = (pm_results q, pm_superseded q)"
  using assms
  by (auto simp: promote_def act_bind_def act_get_def act_raise_def act_then_def act_modify_def act_ret_def
      split: sum.splits prod.splits)

lemma existing_member: "n \<in> set (existing_notes q t) \<Longrightarrow> \<exists>ns. (t, ns) \<in> set (pm_notes q) \<and> existing_notes q t = ns"
  by (auto simp: existing_of obj_get_map_of split: option.splits dest: map_of_SomeD)

lemma texts_of_now: "dn_text ` set (load_topic_notes a d t) = dn_text ` set (load_topic_notes b d t)"
proof -
  have step: "ns_capture (note_line a t raw s) = ns_capture (note_line b t raw s') \<and>
      map dn_text (ns_notes (note_line a t raw s)) = map dn_text (ns_notes (note_line b t raw s'))"
    if "ns_capture s = ns_capture s'" "map dn_text (ns_notes s) = map dn_text (ns_notes s')" for raw s s'
    using that by (simp add: note_line_def Let_def)
  have "map dn_text (ns_notes (fold (note_line a t) lines s)) = map dn_text (ns_notes (fold (note_line b t) lines s'))"
    if "ns_capture s = ns_capture s'" "map dn_text (ns_notes s) = map dn_text (ns_notes s')" for lines s s'
    using that
  proof (induction lines arbitrary: s s')
    case (Cons raw lines)
    with step [OF Cons.prems, of raw] show ?case by simp
  qed simp
  from this [of _ _ "splitlines (the (obj_get (df_topics d) t))"]
  have "map dn_text (load_topic_notes a d t) = map dn_text (load_topic_notes b d t)"
    by (auto simp: load_topic_notes_def split: option.splits)
  then show ?thesis by (metis list.set_map)
qed



text \<open>
  Cn. A topic in the index that the program does not know, as a hand-written index may have, makes every
  promotion fail with \<open>KeyError\<close>, and only after the index has been rewritten.
\<close>

lemma put_keys: "fst ` set (obj_put d k v) = insert k (fst ` set d)"
  using obj_put_keys [of d k v] by simp

lemma promote_one_known:
  "map_of DURABLE_TOPIC_DEFAULTS (fst item) \<noteq> None \<Longrightarrow>
   \<exists>q. promote_one join_set item p = Inr q \<and> fst ` set (pm_notes p) \<subseteq> fst ` set (pm_notes q)"
  by (cases item) (simp add: promote_one_def Let_def obj_setdefault_def put_keys subset_insertI2 subset_insertI split: option.splits)

lemma promote_each_known:
  "list_all (\<lambda>item. map_of DURABLE_TOPIC_DEFAULTS (fst item) \<noteq> None) items \<Longrightarrow>
   \<exists>q. promote_each join_set items p = Inr q \<and> fst ` set (pm_notes p) \<subseteq> fst ` set (pm_notes q)"
proof (induction items arbitrary: p)
  case (Cons item items)
  then obtain u where u: "promote_one join_set item p = Inr u" "fst ` set (pm_notes p) \<subseteq> fst ` set (pm_notes u)"
    using promote_one_known [of item join_set p] by auto
  from Cons.IH [of u] Cons.prems u show ?case by auto
qed simp

lemma write_topic_errors: "write_topic now topic ns d = (Inl e, d') \<Longrightarrow> e = Key_Error"
  by (auto simp: write_topic_def act_defs split: option.splits)

lemma write_all_result:
  "act_each (\<lambda>(topic, ns). write_topic now topic ns) m d = (r, d') \<Longrightarrow>
   (r = Inr () \<or> r = Inl Key_Error) \<and> df_index d' = df_index d"
proof (induction m arbitrary: d)
  case (Cons x m)
  then show ?case
    by (cases x; cases "map_of DURABLE_TOPIC_DEFAULTS (fst x)") (auto simp: write_topic_def act_defs)
qed (auto simp: act_defs)

theorem unknown_topic_blocks_promotion:
  assumes "u \<in> set (topic_slugs d)" and "map_of DURABLE_TOPIC_DEFAULTS u = None" and "ps \<noteq> []"
    and "list_all (\<lambda>item. map_of DURABLE_TOPIC_DEFAULTS (fst item) \<noteq> None) ps"
  shows "\<exists>d' topics. promote join_set now ps d = (Inl Key_Error, d') \<and> df_index d' = df_index (write_index topics d)"
proof -
  obtain q where q: "promote_each join_set ps (start_promotion now d) = Inr q"
    "fst ` set (pm_notes (start_promotion now d)) \<subseteq> fst ` set (pm_notes q)"
    using promote_each_known [OF assms(4)] by blast
  have "u \<in> fst ` set (pm_notes (start_promotion now d))"
    using assms(1) start_topics_keys [of "[]" "load_index d"]
    by (simp add: start_promotion_def Let_def topic_slugs_def image_image case_prod_unfold)
  with q(2) obtain ns where ns: "(u, ns) \<in> set (pm_notes q)" by force
  let ?e = "write_index (map snd (sort_key fst (pm_topics q))) d"
  obtain r d' where run: "act_each (\<lambda>(topic, ns). write_topic now topic ns) (pm_notes q) ?e = (r, d')" by fastforce
  have "r \<noteq> Inr ()"
    using write_all(3) [OF _ promote_each_distinct [OF q(1) start_distinct] ns] run assms(2) by fastforce
  with write_all_result [OF run] have "r = Inl Key_Error" and "df_index d' = df_index ?e" by auto
  with run q(1) assms(3) show ?thesis
    by (auto simp: promote_def act_bind_def act_get_def act_then_def act_modify_def)
qed

theorem unknown_topic_blocks_promotion_witness:
  "fst (promote (py_join '' '') ''t'' [(''key-decisions'', ''tabs only'')]
     \<lparr>df_index = Some ''- [team](topics/team.md): Team'', df_topics = []\<rparr>) = Inl Key_Error"
proof -
  let ?d = "\<lparr>df_index = Some ''- [team](topics/team.md): Team'', df_topics = []\<rparr>"
  have "splitlines ''- [team](topics/team.md): Team'' = [''- [team](topics/team.md): Team'']"
    by (rule splitlines_single) (simp_all add: is_line_end_def Let_def)
  moreover have "py_strip ''- [team](topics/team.md): Team'' = ''- [team](topics/team.md): Team''"
    by (rule trimmed_strip) (simp add: trimmed_def is_space_def Let_def)
  moreover have "py_strip ''team'' = ''team''" by (rule trimmed_strip) (simp add: trimmed_def is_space_def Let_def)
  ultimately have "topic_slugs ?d = [''team'']"
    by (simp add: topic_slugs_def load_index_def index_line_def index_entry_def starts_with_def Let_def)
  from unknown_topic_blocks_promotion [of "''team''" ?d "[(''key-decisions'', ''tabs only'')]" "py_join '' ''" "''t''"] this
  show ?thesis by (auto simp: DURABLE_TOPIC_DEFAULTS_def)
qed

text \<open>
  A note that begins like a line of metadata is not read back: it is written as the line of the
  tags, which the next reading takes it for.
\<close>

theorem tagged_note_is_lost:
  assumes "map_of DURABLE_TOPIC_DEFAULTS topic = Some meta" and "one_line now" and "one_line x" and "solid_end x"
  shows "load_topic_notes now' (snd (write_topic now topic [''tags:'' @ x] d)) topic = []"
proof -
  let ?s = "\<lparr>ns_capture = False, ns_updated = [], ns_tags = [], ns_notes = []\<rparr>"
  let ?t = "fold (note_line now' topic) (header_lines now meta) ?s"
  have "ns_notes ?t = []" using before_notes_fold [OF _ defaults_header(2) [OF assms(1,2)], of ?s] by simp
  moreover have "splitlines (file_text (topic_lines now meta [''tags:'' @ x])) = topic_lines now meta [''tags:'' @ x]"
    using assms(3,4) defaults_header(1) [OF assms(1,2)]
    by (intro splitlines_file_text) (auto simp: topic_lines_split is_line_end_def Let_def solid_end_def)
  moreover have "starts_with ''- tags:'' (py_strip (''- tags:'' @ x))"
    by (rule starts_with_strip) (simp_all add: trimmed_def is_space_def starts_with_def Let_def)
  ultimately show ?thesis
    using assms(1) by (simp add: load_topic_notes_def write_topic_def act_modify_def topic_lines_split notes_heading)
      (simp add: note_line_def Let_def)
qed

theorem tagged_note_is_lost_witness:
  "load_topic_notes ''u'' (snd (write_topic ''t'' ''key-decisions'' [''tags: never'']  \<lparr>df_index = None, df_topics = []\<rparr>))
     ''key-decisions'' = []"
  using tagged_note_is_lost [of "''key-decisions''" _ "''t''" "'' never''" "''u''" "\<lparr>df_index = None, df_topics = []\<rparr>"]
  by (simp add: DURABLE_TOPIC_DEFAULTS_def is_line_end_def solid_end_def is_space_def Let_def)
section \<open>The index is read back\<close>

definition clean_tag :: "string \<Rightarrow> bool" where
  "clean_tag t \<longleftrightarrow> trimmed t \<and> one_line t \<and> CHR '','' \<notin> set t"

definition clean_topic :: "durable_topic \<Rightarrow> bool" where
  "clean_topic t \<longleftrightarrow> trimmed (dt_topic t) \<and> one_line (dt_topic t) \<and> CHR '']'' \<notin> set (dt_topic t) \<and> CHR '')'' \<notin> set (dt_topic t) \<and>
     trimmed (dt_title t) \<and> one_line (dt_title t) \<and> trimmed (dt_summary t) \<and> one_line (dt_summary t) \<and>
     dt_tags t \<noteq> [] \<and> list_all clean_tag (dt_tags t)"

lemma split_char_plain: "x \<notin> set s \<Longrightarrow> split_char x s = [s]"
  by (induction s) auto

lemma split_char_step: "x \<notin> set s \<Longrightarrow> split_char x (s @ x # r) = s # split_char x r"
  by (induction s) auto

lemma split_join:
  "list_all clean_tag ts \<Longrightarrow> ts \<noteq> [] \<Longrightarrow> map py_strip (split_char CHR '','' (p @ py_join '', '' ts)) = ts"
  if "py_strip (p @ hd ts) = hd ts" "CHR '','' \<notin> set p"
  using that
proof (induction ts arbitrary: p rule: induct_list012)
  case (2 x)
  then show ?case by (simp add: clean_tag_def split_char_plain)
next
  case (3 x y ys)
  have y: "py_strip ('' '' @ y) = y"
  proof -
    have "trimmed y" using 3 by (simp add: clean_tag_def)
    then show ?thesis by (simp add: py_strip_def trimmed_def is_space_def Let_def dropWhile_id hd_rev)
  qed
  have "map py_strip (split_char CHR '','' ('' '' @ py_join '', '' (y # ys))) = y # ys"
    using 3(2) [of "'' ''"] 3 y by simp
  moreover have "split_char CHR '','' (p @ x @ '', '' @ py_join '', '' (y # ys)) =
      (p @ x) # split_char CHR '','' ('' '' @ py_join '', '' (y # ys))"
    using split_char_step [of "CHR '',''" "p @ x" "'' '' @ py_join '', '' (y # ys)"] 3 by (simp add: clean_tag_def)
  ultimately show ?case using 3 by simp
qed simp

lemma tag_list_join: "list_all clean_tag ts \<Longrightarrow> ts \<noteq> [] \<Longrightarrow> tag_list (py_join '', '' ts) = ts"
  using split_join [of "[]" ts]
  by (cases ts) (auto simp: tag_list_def clean_tag_def trimmed_strip list_all_iff trimmed_def intro!: filter_True)

lemma strip_indent: "trimmed s \<Longrightarrow> py_strip ('' '' @ s) = s" "trimmed s \<Longrightarrow> py_strip (''  '' @ s) = s"
  by (simp_all add: py_strip_def trimmed_def is_space_def Let_def dropWhile_id hd_rev)

lemma join_trimmed: "list_all clean_tag ts \<Longrightarrow> ts \<noteq> [] \<Longrightarrow> trimmed (py_join '', '' ts)"
proof (induction ts rule: induct_list012)
  case (3 x y ys)
  then have "trimmed (py_join '', '' (y # ys))" "trimmed x" by (simp_all add: clean_tag_def)
  then show ?case by (cases x) (auto simp: trimmed_def)
qed (simp_all add: clean_tag_def)

lemma join_one_line: "list_all clean_tag ts \<Longrightarrow> one_line (py_join '', '' ts)"
  by (induction ts rule: induct_list012) (simp_all add: clean_tag_def is_line_end_def Let_def)

lemma field_line: 
  assumes "trimmed s" and "trimmed p"
  shows "field_after p (p @ '' '' @ s) = Some s"
  using strip_indent(1) [OF assms(1)] by (simp add: field_after_def)

lemma entry_line:
  assumes "clean_topic t"
  shows "index_entry (''- ['' @ dt_topic t @ ''](topics/'' @ dt_topic t @ ''.md): '' @ dt_title t) =
    Some (t\<lparr>dt_summary := [], dt_tags := []\<rparr>)"
proof -
  let ?n = "dt_topic t"
  have n: "CHR '']'' \<notin> set ?n" "CHR '')'' \<notin> set ?n" "trimmed ?n" "trimmed (dt_title t)"
    using assms by (simp_all add: clean_topic_def)
  let ?r = "''](topics/'' @ ?n @ ''.md): '' @ dt_title t"
  have name: "takeWhile (\<lambda>c. c \<noteq> CHR '']'') (?n @ ?r) = ?n"
    by (subst takeWhile_append2) (use n(1) in auto)
  have tail: "drop (3 + length ?n) (''- ['' @ ?n @ ?r) = ?r" "drop 3 (''- ['' @ ?n @ ?r) = ?n @ ?r"
    by (simp_all add: numeral_3_eq_3)
  have target: "takeWhile (\<lambda>c. c \<noteq> CHR '')'') (drop 2 ?r) = ''topics/'' @ ?n @ ''.md''"
    using n(2) by (simp add: numeral_2_eq_2 takeWhile_append)
  have rest: "drop (2 + length (''topics/'' @ ?n @ ''.md'')) ?r = ''): '' @ dt_title t"
    by (simp add: numeral_eq_Suc)
  show ?thesis
    unfolding index_entry_def Let_def tail name target rest
    using n strip_indent(1) [OF n(4)] trimmed_strip [OF n(3)]
    by (simp add: starts_with_def trimmed_def numeral_2_eq_2)
qed

lemma on_last_snoc [simp]: "on_last f (xs @ [x]) = xs @ [f x]"
  by (induction xs rule: induct_list012) auto

lemma indented_line: "trimmed s \<Longrightarrow> trimmed p \<Longrightarrow> py_strip (''  '' @ p @ '' '' @ s) = p @ '' '' @ s"
  by (rule strip_indent(2)) (auto simp: trimmed_def)

lemma no_entry: "\<not> starts_with ''- ['' line \<Longrightarrow> index_entry line = None"
  by (simp add: index_entry_def)

lemma summary_line:
  assumes "trimmed s"
  shows "index_line (''  - summary: '' @ s) (ts @ [t]) = ts @ [t\<lparr>dt_summary := s\<rparr>]"
proof -
  have p: "trimmed ''- summary:''" by (simp add: trimmed_def is_space_def Let_def)
  have line: "''  - summary: '' @ s = ''  '' @ ''- summary:'' @ '' '' @ s" by simp
  have "index_entry (''- summary:'' @ '' '' @ s) = None" by (rule no_entry) (simp add: starts_with_def)
  with field_line [OF assms p] show ?thesis
    unfolding line index_line_def Let_def indented_line [OF assms p] by simp
qed

lemma tags_line:
  assumes "list_all clean_tag tags" and "tags \<noteq> []"
  shows "index_line (''  - tags: '' @ py_join '', '' tags) (ts @ [t]) = ts @ [t\<lparr>dt_tags := tags\<rparr>]"
proof -
  let ?s = "py_join '', '' tags"
  have p: "trimmed ''- tags:''" by (simp add: trimmed_def is_space_def Let_def)
  have s: "trimmed ?s" by (rule join_trimmed [OF assms])
  have line: "''  - tags: '' @ ?s = ''  '' @ ''- tags:'' @ '' '' @ ?s" by simp
  have "index_entry (''- tags:'' @ '' '' @ ?s) = None" by (rule no_entry) (simp add: starts_with_def)
  moreover have "field_after ''- summary:'' (''- tags:'' @ '' '' @ ?s) = None" by (simp add: field_after_def starts_with_def)
  ultimately show ?thesis
    unfolding line index_line_def Let_def indented_line [OF s p]
    using field_line [OF s p] tag_list_join [OF assms] by simp
qed

lemma entry_index_line:
  assumes "clean_topic t"
  shows "index_line (''- ['' @ dt_topic t @ ''](topics/'' @ dt_topic t @ ''.md): '' @ dt_title t) ts =
    ts @ [t\<lparr>dt_summary := [], dt_tags := []\<rparr>]"
proof -
  have "trimmed (''- ['' @ dt_topic t @ ''](topics/'' @ dt_topic t @ ''.md): '' @ dt_title t)"
    using assms by (auto simp: clean_topic_def trimmed_def is_space_def Let_def)
  from trimmed_strip [OF this] show ?thesis
    unfolding index_line_def Let_def using entry_line [OF assms] by simp
qed

lemma index_block: "clean_topic t \<Longrightarrow> fold index_line (index_lines t) ts = ts @ [t]"
  by (simp add: index_lines_def entry_index_line summary_line tags_line clean_topic_def del: append_Cons append_Nil)

lemma index_blocks: "list_all clean_topic topics \<Longrightarrow> fold index_line (concat (map index_lines topics)) ts = ts @ topics"
  by (induction topics arbitrary: ts) (simp_all add: index_block)

definition index_head :: "string list" where
  "index_head = [''# Durable Memory Index'', []]"

lemma index_head_read: "fold index_line index_head [] = []"
proof -
  have "py_strip ''# Durable Memory Index'' = ''# Durable Memory Index''"
    by (rule trimmed_strip) (simp add: trimmed_def is_space_def Let_def)
  then show ?thesis by (simp add: index_head_def index_line_def index_entry_def field_after_def starts_with_def)
qed

lemma index_lines_ok:
  assumes "clean_topic t"
  shows "list_all one_line (index_lines t)" and "solid_end (last (index_lines t))"
  using assms join_one_line [of "dt_tags t"] join_trimmed [of "dt_tags t"]
  by (auto simp: clean_topic_def index_lines_def is_line_end_def Let_def solid_end_def trimmed_def)

lemma index_text_lines:
  assumes "list_all clean_topic topics"
  shows "splitlines (file_text (index_head @ concat (map index_lines topics))) =
    (if topics = [] then [''# Durable Memory Index''] else index_head @ concat (map index_lines topics))"
proof (cases topics rule: rev_cases)
  case Nil
  have "file_text [''# Durable Memory Index'', []] = file_text [''# Durable Memory Index'']"
    by (simp add: file_text_def nl_char is_space_def Let_def)
  moreover have "splitlines (file_text [''# Durable Memory Index'']) = [''# Durable Memory Index'']"
    by (rule splitlines_file_text) (simp_all add: is_line_end_def solid_end_def is_space_def Let_def)
  ultimately show ?thesis using Nil by (simp add: index_head_def)
next
  case (snoc ts t)
  let ?ls = "index_head @ concat (map index_lines topics)"
  have "list_all one_line ?ls"
    using assms index_lines_ok(1)
    by (auto simp: index_head_def list_all_iff is_line_end_def Let_def)
  moreover have "index_lines t \<noteq> []" by (simp add: index_lines_def)
  moreover have "solid_end (last ?ls)"
    using assms snoc index_lines_ok(2) [of t] \<open>index_lines t \<noteq> []\<close> by simp
  ultimately show ?thesis using snoc splitlines_file_text [of ?ls] by simp
qed

text \<open>
  The index of the durable memory is read back as it was written, topic by topic with title,
  summary and tags.
\<close>

theorem index_roundtrip:
  assumes "list_all clean_topic topics"
  shows "load_index (write_index topics d) = topics"
proof -
  have h: "[''# Durable Memory Index'', []] = index_head" by (simp add: index_head_def)
  have "fold index_line [''# Durable Memory Index''] [] = []"
    using index_head_read by (simp add: index_head_def index_line_def index_entry_def field_after_def starts_with_def)
  then show ?thesis
    using index_text_lines [OF assms] index_blocks [OF assms, of "[]"] index_head_read
    by (simp add: load_index_def write_index_def h del: append_Cons)
qed

theorem index_roundtrip_witness:
  "load_index (write_index (map snd DURABLE_TOPIC_DEFAULTS) \<lparr>df_index = None, df_topics = []\<rparr>) = map snd DURABLE_TOPIC_DEFAULTS"
  by (rule index_roundtrip)
    (simp add: DURABLE_TOPIC_DEFAULTS_def clean_topic_def clean_tag_def trimmed_def is_space_def is_line_end_def Let_def)
end
