(* ===== verification/Working_Memory.thy ===== *)
theory Working_Memory
  imports Durable_Memory Tool_Executor
begin

text \<open>
  The working memory of a session (\<open>pico/features/memory.py\<close>): the task, the files and directories
  last used, short summaries of files, a few notes, and how notes are recalled for a request.  The
  fields \<open>task\<close>, \<open>files\<close> and \<open>notes\<close> of the Python dictionary repeat other fields and are left out of
  the record.  How a path resolves and the hashes of files and directories are arguments.
\<close>

section \<open>State\<close>

definition WORKING_FILE_LIMIT :: nat where "WORKING_FILE_LIMIT = 8"
definition EPISODIC_NOTE_LIMIT :: nat where "EPISODIC_NOTE_LIMIT = 12"
definition FILE_SUMMARY_LIMIT :: nat where "FILE_SUMMARY_LIMIT = 6"
definition LISTED_DIR_LIMIT :: nat where "LISTED_DIR_LIMIT = 12"

record memory_note =
  mn_text :: string
  mn_tags :: "string list"
  mn_source :: string
  mn_created :: string
  mn_index :: int
  mn_kind :: string

record file_summary =
  fs_summary :: string
  fs_created :: string
  fs_freshness :: "string option"

record memory_state =
  ms_task_summary :: string
  ms_recent :: "string list"
  ms_listed :: "(string \<times> string option) list"
  ms_notes :: "memory_note list"
  ms_summaries :: "(string \<times> file_summary) list"
  ms_next :: int
  ms_durable :: "string list"

record memory_env =
  me_canon :: "string \<Rightarrow> string"
  me_file_fresh :: "string \<Rightarrow> string option"
  me_dir_fresh :: "string \<Rightarrow> string option"
  me_now :: string
  me_timestamp :: "string \<Rightarrow> int"
  me_files :: durable_files

definition default_memory_state :: memory_state where
  "default_memory_state = \<lparr>ms_task_summary = [], ms_recent = [], ms_listed = [], ms_notes = [], ms_summaries = [],
     ms_next = 0, ms_durable = []\<rparr>"

text \<open>\<open>items[-n:]\<close> and \<open>_dedupe_preserve_order\<close>: the first occurrence stays.\<close>

definition last_items :: "nat \<Rightarrow> 'a list \<Rightarrow> 'a list" where
  "last_items n xs = drop (length xs - n) xs"

fun unique_from :: "'a list \<Rightarrow> 'a list \<Rightarrow> 'a list" where
  "unique_from seen [] = []"
| "unique_from seen (x # xs) = (if x \<in> set seen then unique_from seen xs else x # unique_from (x # seen) xs)"

definition unique_items :: "'a list \<Rightarrow> 'a list" where
  "unique_items xs = unique_from [] xs"

definition nonblank :: "string \<Rightarrow> bool" where
  "nonblank s \<longleftrightarrow> py_strip s \<noteq> []"

subsection \<open>A state from a session file\<close>

definition ensure_list :: "json \<Rightarrow> json list" where
  "ensure_list v = (case v of JList xs \<Rightarrow> xs | JNull \<Rightarrow> [] | JStr s \<Rightarrow> (if s = [] then [] else [v]) | _ \<Rightarrow> [v])"

definition raw_note :: "json \<Rightarrow> int \<Rightarrow> exn + memory_note" where
  "raw_note v index =
     (case v of
        JObj d \<Rightarrow>
          res_bind (py_int (get_default d ''note_index'' (JInt index))) (\<lambda>i.
            Inr \<lparr>mn_text = get_str d ''text'' [], mn_tags = map py_str (ensure_list (get_default d ''tags'' (JList []))),
              mn_source = get_str d ''source'' [], mn_created = get_str d ''created_at'' [], mn_index = i,
              mn_kind = get_str d ''kind'' ''episodic''\<rparr>)
      | _ \<Rightarrow> Inr \<lparr>mn_text = py_str v, mn_tags = [], mn_source = [], mn_created = [], mn_index = index, mn_kind = ''episodic''\<rparr>)"

fun raw_notes :: "(json \<Rightarrow> bool) \<Rightarrow> int \<Rightarrow> json list \<Rightarrow> exn + memory_note list" where
  "raw_notes skip i [] = Inr []"
| "raw_notes skip i (v # vs) =
     (if skip v then raw_notes skip (i + 1) vs
      else res_bind (raw_note v i) (\<lambda>n. res_bind (raw_notes skip (i + 1) vs) (\<lambda>ns. Inr (n # ns))))"

definition raw_listed :: "json \<Rightarrow> string \<times> string option" where
  "raw_listed v =
     (case v of
        JObj d \<Rightarrow> (py_str (get_default d ''path'' JNull), case get_default d ''freshness'' JNull of JStr s \<Rightarrow> Some s | _ \<Rightarrow> None)
      | _ \<Rightarrow> (py_str v, None))"

definition raw_summary :: "json \<Rightarrow> file_summary" where
  "raw_summary v =
     (case v of
        JObj d \<Rightarrow> \<lparr>fs_summary = get_str d ''summary'' [], fs_created = get_str d ''created_at'' [],
          fs_freshness = (let f = get_default d ''freshness'' JNull in
            if f = JNull \<or> f = JStr [] \<or> py_strip (py_str f) = [] then None else Some (py_strip (py_str f)))\<rparr>
      | _ \<Rightarrow> \<lparr>fs_summary = py_str v, fs_created = [], fs_freshness = None\<rparr>)"

definition object_at :: "(string \<times> json) list \<Rightarrow> string \<Rightarrow> (string \<times> json) list" where
  "object_at d k = (case get_default d k JNull of JObj kvs \<Rightarrow> kvs | _ \<Rightarrow> [])"

definition raw_memory :: "json \<Rightarrow> exn + memory_state" where
  "raw_memory v =
     (case v of
        JNull \<Rightarrow> Inr default_memory_state
      | JObj d \<Rightarrow>
          (let w = object_at d ''working'';
               summary = get_str w ''task_summary'' [];
               recent = map py_str (ensure_list (get_default w ''recent_files'' (JList [])));
               notes = (case get_default d ''episodic_notes'' JNull of JList xs \<Rightarrow> xs | _ \<Rightarrow> []);
               old = (if truthy (get_default d ''notes'' JNull) then ensure_list (get_default d ''notes'' JNull) else []) in
           res_bind (if notes = [] then raw_notes (\<lambda>v. \<not> nonblank (py_str v)) 0 old
                     else raw_notes (\<lambda>v. case v of JStr s \<Rightarrow> \<not> nonblank s | _ \<Rightarrow> False) 0 notes) (\<lambda>ns.
             Inr \<lparr>ms_task_summary = (if nonblank summary then summary else
                    if truthy (get_default d ''task'' JNull) then get_str d ''task'' [] else []),
                  ms_recent = (if list_ex nonblank recent then recent else
                    if truthy (get_default d ''files'' JNull) then map py_str (ensure_list (get_default d ''files'' JNull)) else []),
                  ms_listed = map raw_listed (ensure_list (get_default w ''listed_dirs'' (JList []))),
                  ms_notes = ns,
                  ms_summaries = map (\<lambda>(k, s). (k, raw_summary s)) (object_at d ''file_summaries''),
                  ms_next = (case get_default d ''next_note_index'' JNull of JInt i \<Rightarrow> i | JBool b \<Rightarrow> (if b then 1 else 0) | _ \<Rightarrow> 0),
                  ms_durable = []\<rparr>))
      | _ \<Rightarrow> Inl Type_Error)"

subsection \<open>Normalization\<close>

definition normalize_note :: "memory_env \<Rightarrow> memory_note \<Rightarrow> memory_note" where
  "normalize_note e n =
     \<lparr>mn_text = clip (py_strip (mn_text n)) 500,
      mn_tags = unique_items (filter (\<lambda>t. t \<noteq> []) (map py_strip (mn_tags n))),
      mn_source = py_strip (mn_source n),
      mn_created = (if nonblank (mn_created n) then py_strip (mn_created n) else me_now e),
      mn_index = mn_index n,
      mn_kind = (if nonblank (mn_kind n) then py_strip (mn_kind n) else ''episodic'')\<rparr>"

fun dedupe_paths :: "string list \<Rightarrow> (string \<times> 'a) list \<Rightarrow> (string \<times> 'a) list" where
  "dedupe_paths seen [] = []"
| "dedupe_paths seen ((p, a) # xs) =
     (if p = [] \<or> p \<in> set seen then dedupe_paths seen xs else (p, a) # dedupe_paths (p # seen) xs)"

definition put_summary :: "memory_env \<Rightarrow> string \<times> file_summary \<Rightarrow> (string \<times> file_summary) list \<Rightarrow> (string \<times> file_summary) list" where
  "put_summary e item m =
     (case item of (path, s) \<Rightarrow>
        (let p = me_canon e path; text = clip (py_strip (fs_summary s)) 500 in
         if p = [] \<or> text = [] then m
         else obj_put m p \<lparr>fs_summary = text,
           fs_created = (if nonblank (fs_created s) then py_strip (fs_created s) else me_now e),
           fs_freshness = fs_freshness s\<rparr>))"

definition next_index :: "int \<Rightarrow> memory_note list \<Rightarrow> int" where
  "next_index i ns = max (max i 0) (foldr max (map mn_index ns) (-1) + 1)"

definition normalize_memory :: "memory_env \<Rightarrow> memory_state \<Rightarrow> memory_state" where
  "normalize_memory e m =
     (let notes = last_items EPISODIC_NOTE_LIMIT (map (normalize_note e) (ms_notes m)) in
      \<lparr>ms_task_summary = clip (py_strip (ms_task_summary m)) 300,
       ms_recent = last_items WORKING_FILE_LIMIT (unique_items (map (me_canon e) (filter nonblank (ms_recent m)))),
       ms_listed = last_items LISTED_DIR_LIMIT (dedupe_paths [] (map (\<lambda>(p, f). (py_strip (me_canon e p), f)) (ms_listed m))),
       ms_notes = notes,
       ms_summaries = fold (put_summary e) (ms_summaries m) [],
       ms_next = next_index (ms_next m) notes,
       ms_durable = topic_slugs (me_files e)\<rparr>)"

definition load_memory :: "memory_env \<Rightarrow> json \<Rightarrow> exn + memory_state" where
  "load_memory e v = res_bind (raw_memory v) (\<lambda>m. Inr (normalize_memory e m))"

section \<open>Operations\<close>

definition set_task_summary :: "memory_env \<Rightarrow> string \<Rightarrow> memory_state \<Rightarrow> memory_state" where
  "set_task_summary e summary m = (normalize_memory e m)\<lparr>ms_task_summary := clip (py_strip summary) 300\<rparr>"

definition path_key :: "memory_env \<Rightarrow> string \<Rightarrow> string" where
  "path_key e path = py_strip (me_canon e path)"

definition remember_file :: "memory_env \<Rightarrow> string \<Rightarrow> memory_state \<Rightarrow> memory_state" where
  "remember_file e path m =
     (let m = normalize_memory e m; p = path_key e path in
      if p = [] then m
      else m\<lparr>ms_recent := last_items WORKING_FILE_LIMIT (filter (\<lambda>q. q \<noteq> p) (ms_recent m) @ [p])\<rparr>)"

definition remember_listing :: "memory_env \<Rightarrow> string \<Rightarrow> memory_state \<Rightarrow> memory_state" where
  "remember_listing e path m =
     (let m = normalize_memory e m; p = path_key e path in
      if p = [] then m
      else m\<lparr>ms_listed := last_items LISTED_DIR_LIMIT
               (filter (\<lambda>(q, _). q \<noteq> p) (ms_listed m) @ [(p, me_dir_fresh e p)])\<rparr>)"

definition append_note :: "memory_env \<Rightarrow> string \<Rightarrow> string list \<Rightarrow> string \<Rightarrow> string \<Rightarrow> memory_state \<Rightarrow> memory_state" where
  "append_note e text tags source kind m =
     (let m = normalize_memory e m; text = clip (py_strip text) 500 in
      if text = [] then m
      else (let n = \<lparr>mn_text = text, mn_tags = unique_items (filter (\<lambda>t. t \<noteq> []) (map py_strip tags)), mn_source = py_strip source,
                     mn_created = me_now e, mn_index = ms_next m,
                     mn_kind = (if nonblank kind then py_strip kind else ''episodic'')\<rparr> in
            m\<lparr>ms_next := mn_index n + 1,
              ms_notes := last_items EPISODIC_NOTE_LIMIT (filter (\<lambda>old. mn_text old \<noteq> mn_text n) (ms_notes m) @ [n])\<rparr>))"

definition set_file_summary :: "memory_env \<Rightarrow> string \<Rightarrow> string \<Rightarrow> memory_state \<Rightarrow> memory_state" where
  "set_file_summary e path summary m =
     (let m = normalize_memory e m; p = path_key e path; text = clip (py_strip summary) 500 in
      if p = [] \<or> text = [] then m
      else m\<lparr>ms_summaries := obj_put (ms_summaries m) p
               \<lparr>fs_summary = text, fs_created = me_now e, fs_freshness = me_file_fresh e p\<rparr>\<rparr>)"

definition invalidate_file_summary :: "memory_env \<Rightarrow> string \<Rightarrow> memory_state \<Rightarrow> memory_state" where
  "invalidate_file_summary e path m =
     (let m = normalize_memory e m; p = path_key e path in
      if p = [] then m else m\<lparr>ms_summaries := obj_pop (ms_summaries m) p\<rparr>)"

definition invalidate_stale_file_summaries :: "memory_env \<Rightarrow> memory_state \<Rightarrow> memory_state \<times> string list" where
  "invalidate_stale_file_summaries e m =
     (let m = normalize_memory e m; stale = filter (\<lambda>(p, s). fs_freshness s \<noteq> me_file_fresh e p) (ms_summaries m) in
      (m\<lparr>ms_summaries := fold (\<lambda>p d. obj_pop d p) (map fst stale) (ms_summaries m)\<rparr>, map fst stale))"

definition summarize_read_result :: "string \<Rightarrow> nat \<Rightarrow> string" where
  "summarize_read_result text limit =
     (let lines = filter (\<lambda>l. l \<noteq> []) (map py_strip (splitlines text));
          body = (if lines \<noteq> [] \<and> starts_with ''# '' (hd lines) then tl lines else lines) in
      if body = [] then ''(empty)'' else clip (py_join '' | '' (take 3 body)) limit)"

section \<open>Recall\<close>

text \<open>A recalled note: of the session, or of the durable memory.\<close>

datatype recalled = Episodic memory_note | Durable durable_note

fun recalled_text :: "recalled \<Rightarrow> string" where
  "recalled_text (Episodic n) = mn_text n"
| "recalled_text (Durable n) = dn_text n"

definition note_rank :: "string list \<Rightarrow> string \<Rightarrow> string list \<Rightarrow> string \<Rightarrow> nat \<times> nat" where
  "note_rank query text tags source =
     (let tags = remdups (map py_lower tags); tokens = remdups (tokenize text @ tokenize source @ tags) in
      (if overlap query tags = 0 then 0 else 1, overlap query tokens))"

fun recall_key :: "memory_env \<Rightarrow> string list \<Rightarrow> recalled \<Rightarrow> nat \<times> nat \<times> int \<times> int" where
  "recall_key e query (Episodic n) =
     (case note_rank query (mn_text n) (mn_tags n) (mn_source n) of (tag, hits) \<Rightarrow>
        (tag, hits, me_timestamp e (mn_created n), mn_index n))"
| "recall_key e query (Durable n) =
     (case note_rank query (dn_text n) (dn_tags n) (dn_source n) of (tag, hits) \<Rightarrow>
        (tag, hits, me_timestamp e (dn_created n), -1))"

definition matches :: "string list \<Rightarrow> memory_note \<Rightarrow> bool" where
  "matches query n \<longleftrightarrow> note_rank query (mn_text n) (mn_tags n) (mn_source n) \<noteq> (0, 0)"

definition recall_ranked ::
  "memory_env \<Rightarrow> string list \<Rightarrow> recalled list \<Rightarrow> ((nat \<times> nat \<times> int \<times> int) \<times> recalled) list" where
  "recall_ranked e query rs = map (\<lambda>r. (recall_key e query r, r)) rs"

definition retrieval_candidates :: "memory_env \<Rightarrow> string \<Rightarrow> nat \<Rightarrow> memory_state \<Rightarrow> recalled list" where
  "retrieval_candidates e query limit m =
     (let m = normalize_memory e m; q = tokenize query in
      ranked_best (recall_ranked e q (map Episodic (filter (matches q) (ms_notes m)) @
        map Durable (durable_candidates (me_timestamp e) (me_now e) (me_files e) query limit))) limit)"

definition retrieval_view :: "memory_env \<Rightarrow> string \<Rightarrow> nat \<Rightarrow> memory_state \<Rightarrow> string" where
  "retrieval_view e query limit m =
     (let found = retrieval_candidates e query limit m in
      py_join nl (''Relevant memory:'' #
        (if found = [] then [''- none''] else map (\<lambda>n. ''- '' @ recalled_text n) found)))"

section \<open>What the model sees\<close>

definition or_dash :: "string \<Rightarrow> string" where
  "or_dash s = (if s = [] then ''-'' else s)"

definition shown_summaries :: "memory_env \<Rightarrow> memory_state \<Rightarrow> (string \<times> string) list" where
  "shown_summaries e m =
     List.map_filter (\<lambda>p. case obj_get (ms_summaries m) p of
         None \<Rightarrow> None
       | Some s \<Rightarrow> if fs_summary s \<noteq> [] \<and> fs_freshness s = me_file_fresh e p then Some (p, fs_summary s) else None)
       (take FILE_SUMMARY_LIMIT (ms_recent m))"

definition render_memory_text :: "memory_env \<Rightarrow> memory_state \<Rightarrow> string" where
  "render_memory_text e m =
     (let m = normalize_memory e m;
          fresh = map fst (filter (\<lambda>(p, f). me_dir_fresh e p = f) (ms_listed m));
          summaries = map (\<lambda>(p, s). ''  - '' @ p @ '': '' @ s) (shown_summaries e m) in
      py_join nl
        ([''Memory:'', ''- task: '' @ or_dash (ms_task_summary m),
          ''- recent_files: '' @ or_dash (py_join '', '' (ms_recent m)),
          ''- listed_dirs: '' @ or_dash (py_join '', '' fresh)] @
         (if summaries = [] then [''- file_summaries: -''] else ''- file_summaries:'' # summaries) @
         [''- episodic_notes: '' @ nat_str (length (ms_notes m)),
          ''- durable_topics: '' @ or_dash (py_join '', '' (ms_durable m))]))"

definition is_effectively_empty :: "memory_env \<Rightarrow> memory_state \<Rightarrow> bool" where
  "is_effectively_empty e m \<longleftrightarrow>
     (let m = normalize_memory e m in
      \<not> nonblank (ms_task_summary m) \<and> ms_recent m = [] \<and> ms_notes m = [] \<and> ms_summaries m = [])"

section \<open>The bounds of the memory\<close>

definition memory_ok :: "memory_state \<Rightarrow> bool" where
  "memory_ok m \<longleftrightarrow>
     length (ms_recent m) \<le> 8 \<and> distinct (ms_recent m) \<and>
     length (ms_listed m) \<le> 12 \<and> distinct (map fst (ms_listed m)) \<and>
     length (ms_notes m) \<le> 12 \<and> list_all (\<lambda>n. mn_index n < ms_next m) (ms_notes m) \<and> 0 \<le> ms_next m \<and>
     distinct (map fst (ms_summaries m))"

lemma last_items_length: "length (last_items n xs) \<le> n"
  by (simp add: last_items_def)

lemma last_items_set: "set (last_items n xs) \<subseteq> set xs"
  by (simp add: last_items_def set_drop_subset)

lemma last_items_all: "list_all P xs \<Longrightarrow> list_all P (last_items n xs)"
  using last_items_set [of n xs] by (auto simp: list_all_iff)

lemma last_items_map: "map f (last_items n xs) = last_items n (map f xs)"
  by (simp add: last_items_def drop_map)

lemma last_items_distinct: "distinct xs \<Longrightarrow> distinct (last_items n xs)"
  by (simp add: last_items_def)

lemma last_items_snoc: "0 < n \<Longrightarrow> last_items n (xs @ [x]) = last_items (n - 1) xs @ [x]"
  by (cases n) (auto simp: last_items_def)

lemma unique_from_distinct: "distinct (unique_from seen xs) \<and> set (unique_from seen xs) \<inter> set seen = {} \<and>
    set (unique_from seen xs) \<subseteq> set xs"
  by (induction seen xs rule: unique_from.induct) auto

lemma unique_items_distinct: "distinct (unique_items xs)"
  by (simp add: unique_items_def unique_from_distinct)

lemma dedupe_paths_distinct:
  "distinct (map fst (dedupe_paths seen xs)) \<and> set (map fst (dedupe_paths seen xs)) \<inter> set seen = {}"
  by (induction seen xs rule: dedupe_paths.induct) auto

lemma put_summary_distinct: "distinct (map fst m) \<Longrightarrow> distinct (map fst (put_summary e x m))"
  by (simp add: put_summary_def distinct_obj_put Let_def split: prod.splits)

lemma put_summaries_distinct: "distinct (map fst m) \<Longrightarrow> distinct (map fst (fold (put_summary e) xs m))"
  by (induction xs arbitrary: m) (auto simp: put_summary_distinct)

lemma next_index_above: "n \<in> set ns \<Longrightarrow> mn_index n < next_index i ns"
proof -
  assume "n \<in> set ns"
  then have "mn_index n \<le> foldr max (map mn_index ns) (-1)" by (induction ns) auto
  then show ?thesis by (simp add: next_index_def)
qed

lemma normalize_ok: "memory_ok (normalize_memory e m)"
  by (simp add: memory_ok_def normalize_memory_def Let_def last_items_length last_items_distinct unique_items_distinct
      last_items_map dedupe_paths_distinct put_summaries_distinct list_all_iff next_index_above
      WORKING_FILE_LIMIT_def LISTED_DIR_LIMIT_def EPISODIC_NOTE_LIMIT_def order_trans [OF last_items_length])
    (simp add: next_index_def)

lemma pop_fold_distinct: "distinct (map fst d) \<Longrightarrow> distinct (map fst (fold (\<lambda>p d. obj_pop d p) ps d))"
  by (induction ps arbitrary: d) (auto simp: distinct_obj_pop)

text \<open>
  C26. Whatever a session file held, every operation leaves the memory within its limits: at most eight
  recent files and twelve listings, each path once, at most twelve notes, numbered below the next
  number, and one summary per path.
\<close>

theorem memory_bounded:
  "memory_ok (normalize_memory e m) \<and> memory_ok (set_task_summary e text m) \<and> memory_ok (remember_file e path m) \<and>
   memory_ok (remember_listing e path m) \<and> memory_ok (append_note e text tags source kind m) \<and>
   memory_ok (set_file_summary e path text m) \<and> memory_ok (invalidate_file_summary e path m) \<and>
   memory_ok (fst (invalidate_stale_file_summaries e m))"
proof -
  let ?m = "normalize_memory e m"
  note ok = normalize_ok [of e m]
  have "memory_ok (set_task_summary e text m)" using ok by (simp add: memory_ok_def set_task_summary_def)
  moreover have "memory_ok (remember_file e path m)"
    using ok by (auto simp: memory_ok_def remember_file_def Let_def WORKING_FILE_LIMIT_def
        order_trans [OF last_items_length] intro!: last_items_distinct)
  moreover have "memory_ok (remember_listing e path m)"
    using ok by (auto simp: memory_ok_def remember_listing_def Let_def LISTED_DIR_LIMIT_def last_items_map distinct_map_filter
        order_trans [OF last_items_length] intro!: last_items_distinct)
  moreover have "memory_ok (append_note e text tags source kind m)"
  proof (cases "clip (py_strip text) 500 = []")
    case True
    with ok show ?thesis by (simp add: append_note_def Let_def)
  next
    case False
    have "list_all (\<lambda>n. mn_index n < ms_next ?m + 1) (filter (\<lambda>old. mn_text old \<noteq> clip (py_strip text) 500) (ms_notes ?m))"
      using ok by (auto simp: memory_ok_def list_all_iff)
    with ok False show ?thesis
      by (simp add: memory_ok_def append_note_def Let_def EPISODIC_NOTE_LIMIT_def last_items_length last_items_all)
  qed
  moreover have "memory_ok (set_file_summary e path text m)"
    using ok by (simp add: memory_ok_def set_file_summary_def Let_def distinct_obj_put)
  moreover have "memory_ok (invalidate_file_summary e path m)"
    using ok by (simp add: memory_ok_def invalidate_file_summary_def Let_def distinct_obj_pop)
  moreover have "memory_ok (fst (invalidate_stale_file_summaries e m))"
    using ok by (simp add: memory_ok_def invalidate_stale_file_summaries_def Let_def pop_fold_distinct)
  ultimately show ?thesis using ok by blast
qed

section \<open>What is recalled\<close>

lemma ranked_best_spec:
  assumes "(k, a) \<in> set ranked" and "a \<notin> set (ranked_best ranked limit)"
  shows "length (ranked_best ranked limit) = limit"
    and "b \<in> set (ranked_best ranked limit) \<Longrightarrow> \<exists>k'. (k', b) \<in> set ranked \<and> k \<le> k'"
proof -
  let ?xs = "rev (sort_key fst (rev ranked))"
  have best: "ranked_best ranked limit = map snd (take limit ?xs)" by (simp add: ranked_best_def take_map)
  have mem: "set ?xs = set ranked" by simp
  have "set ?xs = set (take limit ?xs) \<union> set (drop limit ?xs)" by (metis append_take_drop_id set_append)
  moreover have "(k, a) \<in> set ?xs" using mem assms(1) by simp
  moreover have "(k, a) \<notin> set (take limit ?xs)" using assms(2) unfolding best by force
  ultimately have "(k, a) \<in> set (drop limit ?xs)" by blast
  moreover have "sorted_wrt (\<lambda>p q. fst q \<le> fst p) ?xs"
    using sorted_sort_key [of fst "rev ranked"] by (simp add: sorted_wrt_rev sorted_map)
  then have "sorted_wrt (\<lambda>p q. fst q \<le> fst p) (take limit ?xs @ drop limit ?xs)" by (simp only: append_take_drop_id)
  then have "\<forall>p \<in> set (take limit ?xs). \<forall>q \<in> set (drop limit ?xs). fst q \<le> fst p" unfolding sorted_wrt_append by blast
  ultimately have above: "p \<in> set (take limit ?xs) \<Longrightarrow> k \<le> fst p" for p by force
  have sub: "p \<in> set (take limit ?xs) \<Longrightarrow> p \<in> set ranked" for p using mem in_set_takeD [of p limit ?xs] by simp
  show "\<exists>k'. (k', b) \<in> set ranked \<and> k \<le> k'" if "b \<in> set (ranked_best ranked limit)"
  proof -
    from that obtain k' where "(k', b) \<in> set (take limit ?xs)" unfolding best by force
    from above [OF this] sub [OF this] show ?thesis by auto
  qed
  have "drop limit ?xs \<noteq> []" using \<open>(k, a) \<in> set (drop limit ?xs)\<close> by auto
  then show "length (ranked_best ranked limit) = limit" by (simp add: best)
qed

lemma ranked_best_subset: "set (ranked_best ranked limit) \<subseteq> snd ` set ranked"
  using set_take_subset [of limit "map snd (rev (sort_key fst (rev ranked)))"] by (auto simp: ranked_best_def)

lemma recall_key_of: "(k, r) \<in> set (recall_ranked e q rs) \<longleftrightarrow> r \<in> set rs \<and> k = recall_key e q r"
  by (auto simp: recall_ranked_def)

text \<open>
  A note of the session that shares a word or a tag with the request is recalled, unless the limit is
  already filled with notes that rank at least as high: by tags, then by common words, then by age.
\<close>

theorem best_notes_recalled:
  assumes "n \<in> set (ms_notes (normalize_memory e m))" and "matches (tokenize request) n"
    and "Episodic n \<notin> set (retrieval_candidates e request limit m)"
  shows "length (retrieval_candidates e request limit m) = limit \<and>
    (\<forall>r \<in> set (retrieval_candidates e request limit m).
       recall_key e (tokenize request) (Episodic n) \<le> recall_key e (tokenize request) r)"
proof -
  let ?q = "tokenize request" and ?found = "retrieval_candidates e request limit m"
  let ?ranked = "recall_ranked e ?q (map Episodic (filter (matches ?q) (ms_notes (normalize_memory e m))) @
        map Durable (durable_candidates (me_timestamp e) (me_now e) (me_files e) request limit))"
  have found: "?found = ranked_best ?ranked limit" by (simp add: retrieval_candidates_def Let_def)
  have "(recall_key e ?q (Episodic n), Episodic n) \<in> set ?ranked"
    using assms(1,2) by (simp add: recall_key_of)
  note best = ranked_best_spec [OF this assms(3) [unfolded found]]
  show ?thesis
    unfolding found
  proof (intro conjI ballI best(1))
    fix r assume "r \<in> set (ranked_best ?ranked limit)"
    from best(2) [OF this] obtain k where "(k, r) \<in> set ?ranked" "recall_key e ?q (Episodic n) \<le> k" by blast
    then show "recall_key e ?q (Episodic n) \<le> recall_key e ?q r" unfolding recall_key_of by blast
  qed
qed

section \<open>Two shortcomings\<close>

lemma map_filter_keys: "(\<And>p y. f p = Some y \<Longrightarrow> fst y = p) \<Longrightarrow> fst ` set (List.map_filter f xs) \<subseteq> set xs"
  by (induction xs) (auto simp: List.map_filter_simps split: option.splits)

lemma shown_paths: "fst ` set (shown_summaries e m) \<subseteq> set (take FILE_SUMMARY_LIMIT (ms_recent m))"
  unfolding shown_summaries_def by (rule map_filter_keys) (auto split: option.splits if_splits)

text \<open>
  The summary of the file that was used last is not shown once seven files are remembered: the
  dashboard takes the first six of the list, which are the oldest.
\<close>

theorem latest_summary_hidden:
  assumes "path_key e path \<noteq> []" and "7 \<le> length (ms_recent (remember_file e path m))"
  shows "last (ms_recent (remember_file e path m)) = path_key e path \<and>
    path_key e path \<notin> fst ` set (shown_summaries e (remember_file e path m))"
proof -
  let ?m = "remember_file e path m" and ?p = "path_key e path"
  let ?files = "ms_recent ?m"
  obtain X where files: "?files = X @ [?p]" and X: "?p \<notin> set X"
  proof -
    let ?X = "last_items 7 (filter (\<lambda>q. q \<noteq> ?p) (ms_recent (normalize_memory e m)))"
    have "?files = ?X @ [?p]" using assms(1) last_items_snoc [of 8] by (simp add: remember_file_def Let_def WORKING_FILE_LIMIT_def)
    moreover have "?p \<notin> set ?X"
      using last_items_set [of 7 "filter (\<lambda>q. q \<noteq> ?p) (ms_recent (normalize_memory e m))"] by auto
    ultimately show thesis by (rule that)
  qed
  then have "?p \<notin> set (take 6 ?files)" using assms(2) in_set_takeD [of ?p 6 X] by auto
  then show ?thesis using shown_paths [of e ?m] by (auto simp: files FILE_SUMMARY_LIMIT_def)
qed

lemma nat_str_short: "length (nat_str n) \<le> n div 10 + 1"
proof (induction n rule: nat_str.induct)
  case (1 n)
  then show ?case by (subst nat_str.simps) auto
qed

lemma nat_str_inject: "nat_str a = nat_str b \<Longrightarrow> a = b"
  by (metis nat_str_digits)

lemma clip_twice:
  assumes "limit + 26 \<le> length s"
  shows "clip (clip s limit) limit \<noteq> clip s limit"
proof
  let ?k = "length s - limit"
  assume "clip (clip s limit) limit = clip s limit"
  moreover have long: "clip s limit = take limit s @ clip_note ?k" using assms by (simp add: clip_long)
  moreover have "limit < length (clip s limit)" using assms by (simp add: length_clip_long)
  then have "clip (clip s limit) limit = take limit s @ clip_note (22 + length (nat_str ?k))"
    using assms by (simp add: clip_long length_clip_note)
  ultimately have "clip_note (22 + length (nat_str ?k)) = clip_note ?k" by simp
  then have "nat_str (22 + length (nat_str ?k)) = nat_str ?k" by (simp add: clip_note_def)
  from nat_str_inject [OF this] nat_str_short [of ?k] assms show False by linarith
qed

lemma clip_trimmed: "trimmed s \<Longrightarrow> 0 < limit \<Longrightarrow> trimmed (clip s limit)"
  by (cases s) (auto simp: clip_def trimmed_def clip_note_def take_Cons' is_space_def Let_def)

text \<open>
  A note that was cut is cut again by the next operation, which replaces the count in its mark: the
  same long text, appended again, is not recognised and stands in the memory twice.
\<close>

theorem long_note_twice:
  assumes "526 \<le> length (py_strip text)"
  shows "\<exists>ns old new. ms_notes (append_note e text tags source kind (append_note e text tags source kind m)) = ns @ [old, new] \<and>
    take 500 (mn_text old) = take 500 (mn_text new) \<and> mn_text old \<noteq> mn_text new"
proof -
  let ?s = "py_strip text"
  let ?t = "clip ?s 500"
  let ?a = "append_note e text tags source kind m"
  let ?b = "append_note e text tags source kind ?a"
  have s: "trimmed ?s" using assms by (intro strip_trimmed) auto
  have t: "py_strip ?t = ?t" "?t \<noteq> []" using clip_trimmed [OF s] trimmed_strip by (auto simp: trimmed_def)
  have snoc: "\<exists>ns n. ms_notes (append_note e text tags source kind m) = last_items 11 ns @ [n] \<and> mn_text n = ?t \<and>
      ns = filter (\<lambda>old. mn_text old \<noteq> ?t) (ms_notes (normalize_memory e m))" for m
    using t(2) by (simp add: append_note_def Let_def EPISODIC_NOTE_LIMIT_def last_items_snoc)
  obtain ns n where n: "ms_notes ?a = last_items 11 ns @ [n]" "mn_text n = ?t" using snoc by blast
  let ?n = "normalize_note e n"
  have "ms_notes (normalize_memory e ?a) = last_items 11 (map (normalize_note e) (last_items 11 ns)) @ [?n]"
    by (simp add: normalize_memory_def Let_def n EPISODIC_NOTE_LIMIT_def last_items_snoc)
  moreover have old: "mn_text ?n = clip ?t 500" by (simp add: normalize_note_def n t)
  ultimately obtain ms new where new: "ms_notes ?b = last_items 11 ms @ [new]" "mn_text new = ?t"
    and ms: "ms = filter (\<lambda>old. mn_text old \<noteq> ?t) (last_items 11 (map (normalize_note e) (last_items 11 ns))) @ [?n]"
    using snoc [of ?a] clip_twice [of 500 ?s] assms by auto
  have "ms_notes ?b = last_items 10 (butlast ms) @ [?n, new]"
    using new(1) ms by (simp add: last_items_snoc)
  moreover have "take 500 (clip ?t 500) = take 500 ?t"
    by (simp add: clip_def)
  ultimately show ?thesis
    using new(2) old clip_twice [of 500 ?s] assms by auto
qed

definition plain_env :: memory_env where
  "plain_env = \<lparr>me_canon = id, me_file_fresh = (\<lambda>_. Some ''h''), me_dir_fresh = (\<lambda>_. None), me_now = ''t'', me_timestamp = (\<lambda>_. 0),
     me_files = \<lparr>df_index = None, df_topics = []\<rparr>\<rparr>"

theorem long_note_twice_witness:
  "\<exists>ns old new. ms_notes (append_note plain_env (replicate 600 CHR ''x'') [] [] []
      (append_note plain_env (replicate 600 CHR ''x'') [] [] [] default_memory_state)) = ns @ [old, new] \<and>
    take 500 (mn_text old) = take 500 (mn_text new) \<and> mn_text old \<noteq> mn_text new"
proof (rule long_note_twice)
  have "py_strip (replicate 600 CHR ''x'') = replicate 600 CHR ''x''"
    by (rule trimmed_strip) (simp add: trimmed_def is_space_def Let_def)
  then show "526 \<le> length (py_strip (replicate 600 CHR ''x''))" by simp
qed

theorem latest_summary_hidden_witness:
  "''g'' \<notin> fst ` set (shown_summaries plain_env (remember_file plain_env ''g''
     (default_memory_state\<lparr>ms_recent := [''a'', ''b'', ''c'', ''d'', ''e'', ''f'']\<rparr>)))"
proof -
  let ?m = "default_memory_state\<lparr>ms_recent := [''a'', ''b'', ''c'', ''d'', ''e'', ''f'']\<rparr>"
  have "ms_recent (remember_file plain_env ''g'' ?m) = [''a'', ''b'', ''c'', ''d'', ''e'', ''f'', ''g'']"
    and p: "path_key plain_env ''g'' = ''g''"
    by (simp_all add: remember_file_def normalize_memory_def path_key_def plain_env_def nonblank_def py_strip_def is_space_def
        last_items_def WORKING_FILE_LIMIT_def unique_items_def Let_def)
  with latest_summary_hidden [of plain_env "''g''" ?m] show ?thesis by simp
qed

definition sample_note :: memory_note where
  "sample_note = \<lparr>mn_text = ''tests fail'', mn_tags = [], mn_source = ''run'', mn_created = ''t'', mn_index = 0, mn_kind = ''process''\<rparr>"

theorem best_notes_recalled_witness:
  "length (retrieval_candidates plain_env ''tests'' 0 (default_memory_state\<lparr>ms_notes := [sample_note]\<rparr>)) = 0"
proof -
  let ?m = "default_memory_state\<lparr>ms_notes := [sample_note]\<rparr>"
  have "sample_note \<in> set (ms_notes (normalize_memory plain_env ?m))"
    by (simp add: normalize_memory_def plain_env_def sample_note_def normalize_note_def nonblank_def py_strip_def is_space_def
        last_items_def EPISODIC_NOTE_LIMIT_def unique_items_def Let_def)
  moreover have "matches (tokenize ''tests'') sample_note"
    by (simp add: matches_def sample_note_def note_rank_def tokenize_def is_token_char_def py_lower_def lower_char_def
        overlap_def Let_def)
  moreover have "Episodic sample_note \<notin> set (retrieval_candidates plain_env ''tests'' 0 ?m)"
    by (simp add: retrieval_candidates_def ranked_best_def Let_def)
  ultimately show ?thesis using best_notes_recalled [of sample_note plain_env ?m "''tests''" 0] by simp
qed
end
