(* ===== verification/Memory_Hooks.thy ===== *)
theory Memory_Hooks
  imports Working_Memory Redaction
begin

text \<open>
  What the runtime puts into its memories (methods of \<open>Pico\<close> in \<open>pico/runtime.py\<close>): notes after tool
  calls, and the promotion of lines of an answer to the durable memory when the user asks for it.  The
  Chinese halves of the patterns are left out; the redaction of an artifact is an argument.
\<close>

section \<open>Notes after tool calls\<close>

definition update_memory_after_tool ::
  "memory_env \<Rightarrow> bool \<Rightarrow> string \<Rightarrow> (string \<times> json) list \<Rightarrow> string \<Rightarrow> memory_state \<Rightarrow> memory_state" where
  "update_memory_after_tool e enabled name args content m =
     (let path = get_default args ''path'' JNull in
      if \<not> enabled \<or> \<not> truthy path then m
      else
        (let p = me_canon e (py_str path);
             m = (if name = ''list_files'' then remember_listing e p m
                  else if name \<in> {''read_file'', ''write_file'', ''patch_file''} then remember_file e p m else m) in
         if name = ''read_file'' then
           (let summary = summarize_read_result content 180 in
            append_note e summary [p] p ''episodic'' (set_file_summary e p summary m))
         else if name \<in> {''write_file'', ''patch_file''} then invalidate_file_summary e p m
         else m))"

definition meta_texts :: "(string \<times> json) list \<Rightarrow> string \<Rightarrow> string list" where
  "meta_texts meta k = filter nonblank (map py_str (case get_default meta k (JList []) of JList xs \<Rightarrow> xs | _ \<Rightarrow> []))"

definition record_process_note_for_tool ::
  "memory_env \<Rightarrow> string \<Rightarrow> (string \<times> json) list \<Rightarrow> memory_state \<Rightarrow> memory_state" where
  "record_process_note_for_tool e name meta m =
     (let status = py_strip (get_str meta ''tool_status'' []);
          affected = map py_strip (meta_texts meta ''affected_paths'');
          places = (if affected = [] then ''workspace'' else py_join '', '' affected) in
      if status \<notin> {''partial_success'', ''error'', ''rejected''} then m
      else append_note e
        (if status = ''partial_success'' then name @ '' partial_success on '' @ places @ ''; inspect diff before retry''
         else if status = ''error'' then name @ '' error on '' @ places @ ''; check the failure before retry''
         else name @ '' rejected; choose a different action before retry'')
        ([''process'', status] @ affected) name ''process'' m)"

definition summarize_tool_result ::
  "memory_env \<Rightarrow> (string \<Rightarrow> string) \<Rightarrow> string \<Rightarrow> (string \<times> json) list \<Rightarrow> string \<Rightarrow> memory_state \<Rightarrow> string \<times> memory_state" where
  "summarize_tool_result e redact name meta content m =
     (let status = get_str meta ''tool_status'' ''unknown'';
          paths = meta_texts meta ''affected_paths''; diff = meta_texts meta ''diff_summary'';
          evidence = (if name \<in> {''list_files'', ''read_file'', ''search''} then redact (clip content 600) else []);
          parts = [name @ '': '' @ status] @
            (if paths = [] then [] else [''paths='' @ py_join '', '' (take 20 paths)]) @
            (if diff = [] then [] else [''changes='' @ py_join '', '' (take 20 diff)]) @
            (if evidence = [] then [] else [''evidence='' @ evidence]);
          summary = clip (py_join ''; '' parts) 900 in
      (summary, append_note e summary [''tool-result'', name, status] (''tool:'' @ name) ''observation'' m))"

section \<open>Words of a text\<close>

definition is_word_char :: "char \<Rightarrow> bool" where
  "is_word_char c \<longleftrightarrow> is_token_char c \<or>
     (let n = of_char c :: nat in n \<in> {170, 178, 179, 181, 185, 186, 188, 189, 190} \<or> (192 \<le> n \<and> n \<noteq> 215 \<and> n \<noteq> 247))"

fun word_in :: "bool \<Rightarrow> string \<Rightarrow> string \<Rightarrow> bool" where
  "word_in inside w [] \<longleftrightarrow> False"
| "word_in inside w (c # cs) \<longleftrightarrow>
     (\<not> inside \<and> starts_with w (c # cs) \<and>
      (let rest = drop (length w) (c # cs) in rest = [] \<or> \<not> is_word_char (hd rest))) \<or>
     word_in (is_word_char c) w cs"

definition has_word :: "string list \<Rightarrow> string \<Rightarrow> bool" where
  "has_word ws s \<longleftrightarrow> list_ex (\<lambda>w. word_in False w (py_lower s)) ws"

definition SECRET_WORDS :: "string list" where
  "SECRET_WORDS = [''apikey'', ''api_key'', ''api key'', ''api-key'', ''token'', ''secret'', ''password'']"

fun key_shaped :: "string \<Rightarrow> bool" where
  "key_shaped [] \<longleftrightarrow> False"
| "key_shaped (c # cs) \<longleftrightarrow>
     (starts_with ''sk-'' (c # cs) \<and>
      (let run = takeWhile (\<lambda>d. is_token_char d \<or> d = CHR ''-'') (drop 3 (c # cs)) in 6 \<le> length run)) \<or>
     key_shaped cs"

definition secret_shaped :: "string \<Rightarrow> bool" where
  "secret_shaped s \<longleftrightarrow> has_word SECRET_WORDS s \<or> key_shaped (py_lower s)"

section \<open>Promotion to the durable memory\<close>

definition TRANSIENT_PREFIXES :: "string list" where
  "TRANSIENT_PREFIXES = [''current goal'', ''current blocker'', ''next step'', ''current phase'', ''key files'', ''freshness'']"

definition NOISY_WORDS :: "string list" where
  "NOISY_WORDS = [''stdout'', ''stderr'', ''traceback'', ''exit_code'']"

definition reject_durable_reason :: "string \<Rightarrow> string" where
  "reject_durable_reason note_text =
     (let text = py_strip note_text in
      if text = [] then ''empty''
      else if contains REDACTED_VALUE text \<or> secret_shaped text then ''secret_shaped''
      else if list_ex (\<lambda>p. starts_with p (py_lower text)) TRANSIENT_PREFIXES then ''transient_task_state''
      else if has_word NOISY_WORDS text \<or> 220 < length text then ''noisy_output''
      else [])"

definition DURABLE_MEMORY_INTENT :: "string list" where
  "DURABLE_MEMORY_INTENT = [''capture'', ''remember'', ''save'', ''store'', ''persist'', ''note'']"

definition DURABLE_MEMORY_LINES :: "(string \<times> string) list" where
  "DURABLE_MEMORY_LINES = [(''project-conventions'', ''project convention:''), (''key-decisions'', ''decision:''),
     (''dependency-facts'', ''dependency:''), (''user-preferences'', ''preference:'')]"

definition durable_line :: "string \<Rightarrow> (string \<times> string) option" where
  "durable_line text =
     first_some (\<lambda>(topic, p). if starts_with p (py_lower text) \<and> drop (length p) text \<noteq> []
       then Some (topic, py_strip (drop (length p) text)) else None) DURABLE_MEMORY_LINES"

fun extract_lines :: "string list \<Rightarrow> (string \<times> string) list \<times> string list" where
  "extract_lines [] = ([], [])"
| "extract_lines (line # lines) =
     (let text = py_strip line; found = extract_lines lines in
      if text = [] \<or> contains REDACTED_VALUE text then found
      else (case durable_line text of
              None \<Rightarrow> found
            | Some (topic, n) \<Rightarrow>
                if n = [] then found
                else if reject_durable_reason n \<noteq> []
                then (fst found, (topic @ '':'' @ reject_durable_reason n) # snd found)
                else ((topic, n) # fst found, snd found)))"

definition extract_durable_promotions :: "string \<Rightarrow> string \<Rightarrow> (string \<times> string) list \<times> string list" where
  "extract_durable_promotions user_message final_answer =
     (if has_word DURABLE_MEMORY_INTENT user_message then extract_lines (splitlines final_answer) else ([], []))"

definition promote_durable_memory ::
  "(string list \<Rightarrow> string) \<Rightarrow> string \<Rightarrow> bool \<Rightarrow> string \<Rightarrow> string \<Rightarrow>
   (durable_files, exn, string list \<times> string list \<times> string list) act" where
  "promote_durable_memory join_set now allowed user_message final_answer =
     (if \<not> allowed then act_ret ([], [], [])
      else (case extract_durable_promotions user_message final_answer of (promotions, rejections) \<Rightarrow>
        act_bind (promote join_set now promotions) (\<lambda>(promoted, superseded).
          act_ret (promoted, rejections, superseded))))"

section \<open>What may be promoted\<close>

lemma splitlines_one_line: "l \<in> set (splitlines s) \<Longrightarrow> one_line l"
proof -
  have "l \<in> set (splitlines_acc s acc) \<Longrightarrow> one_line (rev acc) \<Longrightarrow> one_line l" for acc
    by (induction s acc rule: splitlines_acc.induct) (auto split: if_splits)
  then show "l \<in> set (splitlines s) \<Longrightarrow> one_line l" by (simp add: splitlines_def)
qed

lemma one_line_strip: "one_line s \<Longrightarrow> one_line (py_strip s)"
  by (auto simp: one_line_def list_all_iff py_strip_def dest!: set_dropWhileD)

lemma one_line_drop: "one_line s \<Longrightarrow> one_line (drop n s)"
  by (auto simp: one_line_def list_all_iff dest!: in_set_dropD)

lemma durable_line_facts:
  assumes "durable_line text = Some (topic, n)" and "one_line text"
  shows "topic \<in> fst ` set DURABLE_TOPIC_DEFAULTS" and "one_line n" and "n \<noteq> [] \<Longrightarrow> trimmed n"
  using assms one_line_strip [OF one_line_drop] strip_trimmed
  by (auto simp: durable_line_def first_some_def DURABLE_MEMORY_LINES_def DURABLE_TOPIC_DEFAULTS_def split: if_splits)

lemma rejected_not:
  assumes "reject_durable_reason n = []"
  shows "\<not> secret_shaped (py_strip n)" and "\<not> contains REDACTED_VALUE (py_strip n)" and "length (py_strip n) \<le> 220"
  using assms by (auto simp: reject_durable_reason_def Let_def split: if_splits)

definition admissible :: "string \<times> string \<Rightarrow> bool" where
  "admissible item \<longleftrightarrow> fst item \<in> fst ` set DURABLE_TOPIC_DEFAULTS \<and> trimmed (snd item) \<and> one_line (snd item) \<and>
     length (snd item) \<le> 220 \<and> \<not> secret_shaped (snd item) \<and> \<not> contains REDACTED_VALUE (snd item)"

lemma extract_lines_admissible: "list_all one_line lines \<Longrightarrow> item \<in> set (fst (extract_lines lines)) \<Longrightarrow> admissible item"
proof (induction lines)
  case (Cons line lines)
  show ?case
  proof (cases "item \<in> set (fst (extract_lines lines))")
    case True
    with Cons show ?thesis by simp
  next
    case False
    obtain topic n where found: "durable_line (py_strip line) = Some (topic, n)" "n \<noteq> []" "reject_durable_reason n = []"
      "item = (topic, n)"
      using Cons.prems(2) False by (auto simp: Let_def split: if_splits option.splits prod.splits)
    have "one_line (py_strip line)" using Cons.prems(1) one_line_strip by simp
    from durable_line_facts [OF found(1) this] found(2) rejected_not [OF found(3)] trimmed_strip [of n]
    show ?thesis by (simp add: admissible_def found(4))
  qed
qed simp

text \<open>
  What is promoted to the durable memory was asked for by the user, belongs to a known topic, is one
  line of at most 220 characters, and neither looks like a secret nor contains a redacted value.
\<close>

theorem promoted_notes_admissible:
  assumes "item \<in> set (fst (extract_durable_promotions user_message final_answer))"
  shows "has_word DURABLE_MEMORY_INTENT user_message \<and> fst item \<in> fst ` set DURABLE_TOPIC_DEFAULTS \<and>
    trimmed (snd item) \<and> one_line (snd item) \<and> length (snd item) \<le> 220 \<and>
    \<not> secret_shaped (snd item) \<and> \<not> contains REDACTED_VALUE (snd item)"
proof -
  have "has_word DURABLE_MEMORY_INTENT user_message" and "item \<in> set (fst (extract_lines (splitlines final_answer)))"
    using assms by (auto simp: extract_durable_promotions_def split: if_splits)
  moreover have "list_all one_line (splitlines final_answer)" by (simp add: list_all_iff splitlines_one_line)
  ultimately show ?thesis using extract_lines_admissible [of _ item] by (auto simp: admissible_def)
qed

lemma sample_intent: "has_word DURABLE_MEMORY_INTENT ''save it''"
  by (simp add: has_word_def DURABLE_MEMORY_INTENT_def py_lower_def lower_char_def starts_with_def is_word_char_def
      is_token_char_def Let_def)

lemma sample_decision: "extract_durable_promotions ''save it'' ''Decision: tags: x'' = ([(''key-decisions'', ''tags: x'')], [])"
proof -
  have lines: "splitlines ''Decision: tags: x'' = [''Decision: tags: x'']"
    by (rule splitlines_single) (simp_all add: is_line_end_def Let_def)
  have strip: "py_strip ''Decision: tags: x'' = ''Decision: tags: x''" "py_strip ''tags: x'' = ''tags: x''"
    by (rule trimmed_strip, simp add: trimmed_def is_space_def Let_def)+
  have low: "py_lower ''Decision: tags: x'' = ''decision: tags: x''" by code_simp
  have indented: "py_strip '' tags: x'' = ''tags: x''"
    by (simp add: py_strip_def is_space_def Let_def)
  have line: "durable_line ''Decision: tags: x'' = Some (''key-decisions'', ''tags: x'')"
    by (simp add: durable_line_def first_some_def DURABLE_MEMORY_LINES_def low starts_with_def indented)
  have secret: "\<not> secret_shaped ''tags: x''"
    by (simp add: secret_shaped_def has_word_def SECRET_WORDS_def py_lower_def lower_char_def starts_with_def is_word_char_def
        is_token_char_def Let_def)
  have "reject_durable_reason ''tags: x'' = []"
    using secret by (simp add: reject_durable_reason_def strip REDACTED_VALUE_def starts_with_def TRANSIENT_PREFIXES_def
        py_lower_def lower_char_def has_word_def NOISY_WORDS_def is_word_char_def is_token_char_def Let_def)
  then show ?thesis
    by (simp add: extract_durable_promotions_def sample_intent lines strip line REDACTED_VALUE_def starts_with_def Let_def)
qed

theorem promoted_notes_admissible_witness:
  "has_word DURABLE_MEMORY_INTENT ''save it'' \<and> \<not> secret_shaped ''tags: x''"
  using promoted_notes_admissible [of "(''key-decisions'', ''tags: x'')" "''save it''" "''Decision: tags: x''"] sample_decision
  by simp

text \<open>
  A line of an answer that is promoted and reported as such, and that no later session reads.
\<close>

theorem promoted_note_lost:
  "\<exists>d. promote_durable_memory (py_join '' '') ''t'' True ''save it'' ''Decision: tags: x'' \<lparr>df_index = None, df_topics = []\<rparr> =
      (Inr ([''key-decisions: tags: x''], [], []), d) \<and> load_topic_notes ''u'' d ''key-decisions'' = []"
proof -
  have none: "subject_key (py_join '' '') ''tags: x'' = None"
    by (simp add: subject_key_def SUBJECT_VERBS_def first_some_def after_verb_def is_space_def py_strip_def starts_with_def Let_def)
  let ?d = "write_index [snd (DURABLE_TOPIC_DEFAULTS ! 1)] \<lparr>df_index = None, df_topics = []\<rparr>"
  have "promote_durable_memory (py_join '' '') ''t'' True ''save it'' ''Decision: tags: x'' \<lparr>df_index = None, df_topics = []\<rparr> =
      (Inr ([''key-decisions: tags: x''], [], []), snd (write_topic ''t'' ''key-decisions'' [''tags: x''] ?d))"
    using none
    by (simp add: promote_durable_memory_def sample_decision promote_def act_defs promote_one_def DURABLE_TOPIC_DEFAULTS_def
        start_promotion_def load_index_def existing_of obj_setdefault_def supersede_def write_topic_def Let_def)
  then show ?thesis
    using tagged_note_is_lost [of "''key-decisions''" _ "''t''" "'' x''" "''u''" ?d]
    by (simp add: DURABLE_TOPIC_DEFAULTS_def is_line_end_def solid_end_def is_space_def Let_def)
qed

end
