(* ===== verification/Prompt_Budget.thy ===== *)
theory Prompt_Budget
  imports Memory_Hooks
begin

text \<open>
  The prompt of a round (\<open>ContextManager\<close> in \<open>pico/context_manager.py\<close>): five sections, their budgets, and
  the loop that shrinks them until the prompt fits.  The items of the history are the objects that
  \<open>record\<close> stores.  The texts of the prefix and of the checkpoint are arguments.
\<close>

section \<open>Limits\<close>

definition DEFAULT_TOTAL_BUDGET :: int where "DEFAULT_TOTAL_BUDGET = 12000"

definition DEFAULT_SECTION_BUDGETS :: "(string \<times> int) list" where
  "DEFAULT_SECTION_BUDGETS = [(''prefix'', 3600), (''memory'', 1600), (''relevant_memory'', 1200), (''history'', 5200)]"

definition DEFAULT_SECTION_FLOORS :: "(string \<times> int) list" where
  "DEFAULT_SECTION_FLOORS = [(''prefix'', 1200), (''memory'', 400), (''relevant_memory'', 300), (''history'', 1500)]"

definition DEFAULT_REDUCTION_ORDER :: "string list" where
  "DEFAULT_REDUCTION_ORDER = [''relevant_memory'', ''history'', ''memory'', ''prefix'']"

definition RELEVANT_MEMORY_LIMIT :: nat where "RELEVANT_MEMORY_LIMIT = 3"

definition tail_clip :: "string \<Rightarrow> int \<Rightarrow> string" where
  "tail_clip text limit =
     (if limit \<le> 0 then []
      else if int (length text) \<le> limit then text
      else if limit \<le> 3 then take (nat limit) text
      else take (nat (limit - 3)) text @ ''...'')"

definition compute_section_floors :: "(string \<times> int) list \<Rightarrow> (string \<times> int) list \<Rightarrow> (string \<times> int) list" where
  "compute_section_floors budgets overrides =
     foldl (\<lambda>m (k, v). obj_put m k v) (map (\<lambda>(s, b). (s, max 20 (b div 4))) budgets) overrides"

record section_render =
  sr_raw :: string
  sr_budget :: int
  sr_text :: string
  sr_notes :: "string list"

record prompt_config =
  pc_total :: int
  pc_budgets :: "(string \<times> int) list"
  pc_floors :: "(string \<times> int) list"
  pc_order :: "string list"

definition new_context_manager ::
  "int \<Rightarrow> (string \<times> int) list \<Rightarrow> (string \<times> int) list \<Rightarrow> string list \<Rightarrow> prompt_config" where
  "new_context_manager total_budget budgets floors order =
     (let b = foldl (\<lambda>m (k, v). obj_put m k v) DEFAULT_SECTION_BUDGETS budgets in
      \<lparr>pc_total = total_budget, pc_budgets = b, pc_floors = compute_section_floors b floors,
       pc_order = (if order = [] then DEFAULT_REDUCTION_ORDER else order)\<rparr>)"

section \<open>The history\<close>

type_synonym history_item = "(string \<times> json) list"

definition hist_role :: "history_item \<Rightarrow> string" where "hist_role i = get_str i ''role'' []"
definition hist_name :: "history_item \<Rightarrow> string" where "hist_name i = get_str i ''name'' []"
definition hist_content :: "history_item \<Rightarrow> string" where "hist_content i = get_str i ''content'' []"
definition hist_args :: "history_item \<Rightarrow> (string \<times> json) list" where "hist_args i = object_at i ''args''"

text \<open>\<open>json.dumps(args, sort_keys=True)\<close>: everything that is not printable ASCII is escaped.\<close>

definition ascii_char :: "char \<Rightarrow> string" where
  "ascii_char c =
     (let n = of_char c :: nat in
      if n < 127 then [c] else [CHR 0x5C] @ ''u00'' @ [hex_digit (n div 16), hex_digit (n mod 16)])"

definition args_json :: "(string \<times> json) list \<Rightarrow> string" where
  "args_json args = concat (map ascii_char (json_dumps True '', '' '': '' (JObj args)))"

definition tool_head :: "history_item \<Rightarrow> string" where
  "tool_head i = ''[tool:'' @ hist_name i @ ''] '' @ args_json (hist_args i)"

definition is_tool_item :: "history_item \<Rightarrow> bool" where
  "is_tool_item i \<longleftrightarrow> hist_role i = ''tool''"

definition render_history_item :: "history_item \<Rightarrow> int \<Rightarrow> string list" where
  "render_history_item i limit =
     (if is_tool_item i then [tool_head i, tail_clip (hist_content i) (max 20 limit)]
      else [''['' @ hist_role i @ ''] '' @ tail_clip (hist_content i) limit])"

definition raw_history_text :: "history_item list \<Rightarrow> string" where
  "raw_history_text history =
     py_join nl (''Transcript:'' #
       (if history = [] then [''- empty'']
        else concat (map (\<lambda>i. if is_tool_item i then [tool_head i, hist_content i]
                              else [''['' @ hist_role i @ ''] '' @ hist_content i]) history)))"

definition summarize_old_tool_item :: "history_item \<Rightarrow> string" where
  "summarize_old_tool_item i =
     (if hist_name i = ''run_shell'' then
        (let command = py_strip (get_str (hist_args i) ''command'' []);
             lines = filter (\<lambda>l. l \<noteq> []) (map py_strip (splitlines (hist_content i))) in
         (if command = [] then ''shell'' else command) @ '' -> '' @
         (if lines = [] then ''(empty)'' else py_join '' | '' (take 3 lines)))
      else hd (render_history_item i 60))"

text \<open>The summary of a file in the memory, when there is one.\<close>

definition reusable_file_summary :: "memory_env \<Rightarrow> memory_state \<Rightarrow> string \<Rightarrow> string" where
  "reusable_file_summary e m path =
     (case obj_get (ms_summaries (normalize_memory e m)) path of None \<Rightarrow> [] | Some s \<Rightarrow> py_strip (fs_summary s))"

record history_details =
  hd_older :: nat
  hd_collapsed :: nat
  hd_reused :: nat
  hd_summarized :: nat

definition no_details :: history_details where
  "no_details = \<lparr>hd_older = 0, hd_collapsed = 0, hd_reused = 0, hd_summarized = 0\<rparr>"

fun compress_history ::
  "(string \<Rightarrow> string) \<Rightarrow> nat \<Rightarrow> string list \<Rightarrow> history_details \<Rightarrow> history_item list \<Rightarrow>
   (bool \<times> string list) list \<times> history_details" where
  "compress_history summary older seen d [] = ([], d)"
| "compress_history summary older seen d (i # items) =
     (let rest = (\<lambda>seen d. compress_history summary (older - 1) seen d items);
          entry = (\<lambda>e (es, d). (e # es, d));
          path = py_strip (get_str (hist_args i) ''path'' []);
          tool_line = (\<lambda>seen. entry (False, [summarize_old_tool_item i])
            (rest seen (d\<lparr>hd_older := hd_older d + 1, hd_summarized := hd_summarized d + 1\<rparr>))) in
      if older = 0 then entry (True, render_history_item i 900) (rest seen d)
      else if is_tool_item i \<and> hist_name i = ''read_file'' then
        if path \<in> set seen then rest seen (d\<lparr>hd_collapsed := hd_collapsed d + 1\<rparr>)
        else if summary path \<noteq> [] then
          entry (False, [path @ '' -> '' @ summary path])
            (rest (path # seen) (d\<lparr>hd_older := hd_older d + 1, hd_reused := hd_reused d + 1\<rparr>))
        else tool_line (path # seen)
      else if is_tool_item i then tool_line seen
      else entry (False, render_history_item i 60) (rest seen d))"

definition recent_window :: nat where "recent_window = 6"

definition compressed_history_entries ::
  "(string \<Rightarrow> string) \<Rightarrow> history_item list \<Rightarrow> (bool \<times> string list) list \<times> history_details" where
  "compressed_history_entries summary history =
     compress_history summary (length history - recent_window) [] no_details history"

definition transcript :: "string list \<Rightarrow> string" where
  "transcript lines = py_join nl (''Transcript:'' # lines)"

definition fits :: "int \<Rightarrow> string list \<Rightarrow> bool" where
  "fits budget lines \<longleftrightarrow> int (length (transcript lines)) \<le> budget"

definition add_entry :: "int \<Rightarrow> bool \<times> string list \<Rightarrow> string list \<Rightarrow> string list" where
  "add_entry budget entry later =
     (case entry of (recent, lines) \<Rightarrow>
        if fits budget (lines @ later) then lines @ later
        else
          (let used = (if later = [] then 0 else sum_list (map (\<lambda>l. int (length l) + 1) later));
               available = max 20 (budget - int (length ''Transcript:'') - used - 1);
               smaller = map (\<lambda>l. tail_clip l (if recent then available else 20)) lines in
           if fits budget (smaller @ later) then smaller @ later else later))"

definition render_history_section :: "(string \<Rightarrow> string) \<Rightarrow> history_item list \<Rightarrow> int \<Rightarrow> section_render" where
  "render_history_section summary history budget =
     (let raw = raw_history_text history in
      if history = [] then \<lparr>sr_raw = raw, sr_budget = budget, sr_text = transcript [''- empty''], sr_notes = []\<rparr>
      else
        (let later = foldr (add_entry budget) (fst (compressed_history_entries summary history)) [];
             text = transcript later in
         \<lparr>sr_raw = raw, sr_budget = budget,
          sr_text = (if int (length text) > budget \<and> budget > 0 then tail_clip raw budget else text), sr_notes = []\<rparr>))"

section \<open>Recalled notes\<close>

definition memory_header :: string where "memory_header = ''Relevant memory:''"

definition notes_text :: "string list \<Rightarrow> string" where
  "notes_text ns = py_join nl (memory_header # map (\<lambda>n. ''- '' @ n) ns)"

definition per_note_budget :: "int \<Rightarrow> nat \<Rightarrow> int" where
  "per_note_budget budget count =
     (if count = 0 then 0
      else max 1 (max 0 (budget - (int (length memory_header) + 3 * int count)) div int count))"

definition notes_at :: "string list \<Rightarrow> int \<Rightarrow> string" where
  "notes_at ns per = notes_text (map (\<lambda>n. tail_clip n per) ns)"

text \<open>The loop that gives every note the same share, one character less at each turn.\<close>

function shrink_notes :: "int \<Rightarrow> string list \<Rightarrow> int \<Rightarrow> int" where
  "shrink_notes budget ns per =
     (if int (length (notes_at ns per)) \<le> budget \<or> per \<le> 1 then per else shrink_notes budget ns (per - 1))"
  by pat_completeness auto
termination
  by (relation "measure (\<lambda>(budget, ns, per). nat per)") auto

declare shrink_notes.simps [simp del]

definition render_relevant_memory :: "string list \<Rightarrow> int \<Rightarrow> section_render" where
  "render_relevant_memory notes budget =
     (let ns = filter nonblank notes in
      if ns = [] then
        (let raw = py_join nl [memory_header, ''- none''] in
         \<lparr>sr_raw = raw, sr_budget = budget, sr_text = raw, sr_notes = []\<rparr>)
      else
        (let raw = notes_text ns;
             per = shrink_notes budget ns (per_note_budget budget (length ns));
             text = notes_at ns per in
         if int (length text) > budget \<and> budget > 0
         then \<lparr>sr_raw = raw, sr_budget = budget, sr_text = tail_clip raw budget, sr_notes = [tail_clip raw budget]\<rparr>
         else \<lparr>sr_raw = raw, sr_budget = budget, sr_text = text, sr_notes = map (\<lambda>n. tail_clip n per) ns\<rparr>))"

section \<open>The prompt\<close>

text \<open>What the agent puts into a prompt at the time it is built.\<close>

record prompt_input =
  pi_prefix :: string
  pi_memory :: string
  pi_request :: string
  pi_notes :: "recalled list"
  pi_history :: "history_item list"
  pi_summary :: "string \<Rightarrow> string"

definition control_lines :: "task_state \<Rightarrow> string list" where
  "control_lines t =
     [''Agent control state:'', ''- phase: '' @ ts_phase t, ''- next_step: '' @ ts_next_step t,
      ''- tool_calls: '' @ int_str (ts_tool_steps t), ''- read_files: '' @ int_str (ts_read_files t), ''- checklist:''] @
     map (\<lambda>i. ''  - ['' @ (if i \<in> set (ts_completed_items t) then ''x'' else '' '') @ ''] '' @ i) (ts_checklist t)"

definition request_section :: "task_state option \<Rightarrow> string \<Rightarrow> string \<Rightarrow> string" where
  "request_section task checkpoint user_message =
     (let request = ''Current user request:'' @ nl @ user_message;
          request = (case task of None \<Rightarrow> request | Some t \<Rightarrow> py_join nl (control_lines t) @ nl @ nl @ request) in
      if py_strip checkpoint = [] then request else py_strip checkpoint @ nl @ nl @ request)"

definition plain_section :: "string \<Rightarrow> int option \<Rightarrow> section_render" where
  "plain_section raw budget =
     (case budget of None \<Rightarrow> \<lparr>sr_raw = raw, sr_budget = 0, sr_text = raw, sr_notes = []\<rparr>
      | Some b \<Rightarrow> \<lparr>sr_raw = raw, sr_budget = b, sr_text = tail_clip raw b, sr_notes = []\<rparr>)"

definition budget_of :: "(string \<times> int) list \<Rightarrow> string \<Rightarrow> int" where
  "budget_of b s = (case obj_get b s of None \<Rightarrow> 0 | Some n \<Rightarrow> n)"

record rendered =
  rd_prefix :: section_render
  rd_memory :: section_render
  rd_relevant :: section_render
  rd_history :: section_render
  rd_request :: section_render

definition render_sections :: "prompt_input \<Rightarrow> (string \<times> int) list \<Rightarrow> rendered" where
  "render_sections i b =
     \<lparr>rd_prefix = plain_section (pi_prefix i) (obj_get b ''prefix''),
      rd_memory = plain_section (pi_memory i) (obj_get b ''memory''),
      rd_relevant = render_relevant_memory (map recalled_text (pi_notes i)) (budget_of b ''relevant_memory''),
      rd_history = render_history_section (pi_summary i) (pi_history i) (budget_of b ''history''),
      rd_request = \<lparr>sr_raw = pi_request i, sr_budget = 0, sr_text = pi_request i, sr_notes = []\<rparr>\<rparr>"

definition whole_section :: "string \<Rightarrow> section_render" where
  "whole_section raw = \<lparr>sr_raw = raw, sr_budget = int (length raw), sr_text = raw, sr_notes = []\<rparr>"

definition render_sections_without_reduction :: "prompt_input \<Rightarrow> rendered" where
  "render_sections_without_reduction i =
     \<lparr>rd_prefix = whole_section (pi_prefix i), rd_memory = whole_section (pi_memory i),
      rd_relevant = (let texts = map recalled_text (pi_notes i) in
        (whole_section (if texts = [] then py_join nl [memory_header, ''- none''] else notes_text texts))\<lparr>sr_notes := texts\<rparr>),
      rd_history = whole_section (raw_history_text (pi_history i)),
      rd_request = \<lparr>sr_raw = pi_request i, sr_budget = 0, sr_text = pi_request i, sr_notes = []\<rparr>\<rparr>"

definition assemble_prompt :: "rendered \<Rightarrow> string" where
  "assemble_prompt r =
     py_strip (py_join (nl @ nl) [sr_text (rd_prefix r), sr_text (rd_memory r), sr_text (rd_relevant r),
       sr_text (rd_history r), sr_text (rd_request r)])"

definition prompt_at :: "prompt_input \<Rightarrow> (string \<times> int) list \<Rightarrow> string" where
  "prompt_at i b = assemble_prompt (render_sections i b)"

subsection \<open>The reduction\<close>

record reduction =
  re_section :: string
  re_before :: int
  re_after :: int
  re_overflow :: int

definition can_shrink :: "prompt_config \<Rightarrow> (string \<times> int) list \<Rightarrow> int \<Rightarrow> string \<Rightarrow> bool" where
  "can_shrink c b overflow s \<longleftrightarrow>
     budget_of b s > budget_of (pc_floors c) s \<and>
     max (budget_of (pc_floors c) s) (budget_of b s - overflow) < budget_of b s"

text \<open>One turn of the loop: the first section of the order that can shrink.\<close>

definition reduce_once ::
  "prompt_config \<Rightarrow> prompt_input \<Rightarrow> (string \<times> int) list \<Rightarrow> (reduction \<times> (string \<times> int) list) option" where
  "reduce_once c i b =
     (let overflow = int (length (prompt_at i b)) - pc_total c in
      if overflow \<le> 0 then None
      else (case find (can_shrink c b overflow) (pc_order c) of
              None \<Rightarrow> None
            | Some s \<Rightarrow>
                (let before = budget_of b s; after = max (budget_of (pc_floors c) s) (before - overflow) in
                 Some (\<lparr>re_section = s, re_before = before, re_after = after, re_overflow = overflow\<rparr>, obj_put b s after))))"

definition slack :: "prompt_config \<Rightarrow> (string \<times> int) list \<Rightarrow> nat" where
  "slack c b = sum_list (map (\<lambda>s. nat (budget_of b s - budget_of (pc_floors c) s)) (remdups (pc_order c)))"

lemma reduce_once_some:
  assumes "reduce_once c i b = Some (r, b')"
  obtains s where "s \<in> set (pc_order c)" and "re_section r = s" and "b' = obj_put b s (re_after r)"
    and "re_before r = budget_of b s" and "budget_of (pc_floors c) s \<le> re_after r" and "re_after r < budget_of b s"
    and "pc_total c < int (length (prompt_at i b))"
    and "find (can_shrink c b (int (length (prompt_at i b)) - pc_total c)) (pc_order c) = Some s"
proof -
  let ?P = "can_shrink c b (int (length (prompt_at i b)) - pc_total c)"
  obtain s where s: "find ?P (pc_order c) = Some s"
    and r: "Some (r, b') = Some (\<lparr>re_section = s, re_before = budget_of b s,
      re_after = max (budget_of (pc_floors c) s) (budget_of b s - (int (length (prompt_at i b)) - pc_total c)),
      re_overflow = int (length (prompt_at i b)) - pc_total c\<rparr>,
      obj_put b s (max (budget_of (pc_floors c) s) (budget_of b s - (int (length (prompt_at i b)) - pc_total c))))"
    and over: "pc_total c < int (length (prompt_at i b))"
    using assms by (auto simp: reduce_once_def Let_def split: if_splits option.splits)
  have "s \<in> set (pc_order c)" and p: "?P s" using s by (auto simp: find_Some_iff)
  with r s over p show thesis by (intro that [of s]) (auto simp: can_shrink_def)
qed

lemma budget_put: "budget_of (obj_put b s v) k = (if k = s then v else budget_of b k)"
  by (simp add: budget_of_def)

lemma slack_decreases:
  assumes "reduce_once c i b = Some (r, b')"
  shows "slack c b' < slack c b"
proof -
  obtain s where s: "s \<in> set (pc_order c)" "b' = obj_put b s (re_after r)"
    "budget_of (pc_floors c) s \<le> re_after r" "re_after r < budget_of b s"
    using reduce_once_some [OF assms] by metis
  let ?f = "\<lambda>b s. nat (budget_of b s - budget_of (pc_floors c) s)"
  have less: "?f b' k \<le> ?f b k" for k using s by (auto simp: budget_put intro: nat_mono)
  have strict: "?f b' s < ?f b s" using s by (simp add: budget_put)
  have "sum (?f b') (set (pc_order c)) < sum (?f b) (set (pc_order c))"
    by (rule sum_strict_mono_ex1) (use s(1) less strict in auto)
  then show ?thesis by (simp add: slack_def sum_list_distinct_conv_sum_set)
qed

function reduce_loop :: "prompt_config \<Rightarrow> prompt_input \<Rightarrow> (string \<times> int) list \<Rightarrow> reduction list \<times> (string \<times> int) list" where
  "reduce_loop c i b =
     (case reduce_once c i b of
        None \<Rightarrow> ([], b)
      | Some (r, b') \<Rightarrow> (case reduce_loop c i b' of (rs, b'') \<Rightarrow> (r # rs, b'')))"
  by pat_completeness auto
termination
  by (relation "measure (\<lambda>(c, i, b). slack c b)") (auto simp: slack_decreases)

declare reduce_loop.simps [simp del]

subsection \<open>Building a prompt\<close>

record prompt_agent =
  pa_prefix :: string
  pa_checkpoint :: string
  pa_task :: "task_state option"
  pa_history :: "history_item list"
  pa_env :: memory_env
  pa_memory :: memory_state
  pa_memory_enabled :: bool
  pa_relevant_enabled :: bool
  pa_reduction_enabled :: bool

definition selected_notes :: "prompt_agent \<Rightarrow> string \<Rightarrow> recalled list" where
  "selected_notes a user_message =
     (if pa_memory_enabled a \<and> pa_relevant_enabled a
      then retrieval_candidates (pa_env a) user_message RELEVANT_MEMORY_LIMIT (pa_memory a) else [])"

definition prompt_input_of :: "prompt_agent \<Rightarrow> string \<Rightarrow> prompt_input" where
  "prompt_input_of a user_message =
     \<lparr>pi_prefix = pa_prefix a,
      pi_memory = (if pa_memory_enabled a then render_memory_text (pa_env a) (pa_memory a)
                   else py_join nl [''Memory:'', ''- disabled'']),
      pi_request = request_section (pa_task a) (pa_checkpoint a) user_message,
      pi_notes = selected_notes a user_message,
      pi_history = pa_history a,
      pi_summary = reusable_file_summary (pa_env a) (pa_memory a)\<rparr>"

fun recalled_source :: "recalled \<Rightarrow> string" where
  "recalled_source (Episodic n) = py_strip (mn_source n)"
| "recalled_source (Durable n) = py_strip (dn_source n)"

fun recalled_kind :: "recalled \<Rightarrow> string" where
  "recalled_kind (Episodic n) = (if nonblank (mn_kind n) then py_strip (mn_kind n) else ''episodic'')"
| "recalled_kind (Durable n) = ''durable''"

record recall_metadata =
  rm_limit :: nat
  rm_selected :: "string list"
  rm_sources :: "string list"
  rm_kinds :: "string list"
  rm_durable :: nat
  rm_raw_chars :: nat
  rm_rendered_chars :: nat
  rm_rendered :: "string list"

text \<open>The sizes of a section: before, its budget (none for the request), and as rendered.\<close>

type_synonym section_sizes = "string \<times> nat \<times> int option \<times> nat"

record prompt_metadata =
  pd_prompt_chars :: nat
  pd_budget_chars :: int
  pd_over_budget :: bool
  pd_sections :: "section_sizes list"
  pd_reductions :: "reduction list"
  pd_reduction_order :: "string list"
  pd_recall :: recall_metadata
  pd_history :: history_details
  pd_request :: "string \<times> nat"

definition section_sizes_of :: "string \<Rightarrow> section_render \<Rightarrow> (string \<times> int) list \<Rightarrow> section_sizes" where
  "section_sizes_of s r b = (s, length (sr_raw r), Some (budget_of b s), length (sr_text r))"

definition prompt_metadata_of ::
  "prompt_config \<Rightarrow> prompt_input \<Rightarrow> string \<Rightarrow> string \<Rightarrow> rendered \<Rightarrow> (string \<times> int) list \<Rightarrow> reduction list \<Rightarrow>
   history_details \<Rightarrow> prompt_metadata" where
  "prompt_metadata_of c i user_message prompt r b log details =
     \<lparr>pd_prompt_chars = length prompt, pd_budget_chars = pc_total c, pd_over_budget = (int (length prompt) > pc_total c),
      pd_sections = [section_sizes_of ''prefix'' (rd_prefix r) b, section_sizes_of ''memory'' (rd_memory r) b,
        section_sizes_of ''relevant_memory'' (rd_relevant r) b, section_sizes_of ''history'' (rd_history r) b,
        (''current_request'', length (pi_request i), None, length (sr_text (rd_request r)))],
      pd_reductions = log, pd_reduction_order = pc_order c,
      pd_recall = \<lparr>rm_limit = RELEVANT_MEMORY_LIMIT, rm_selected = map recalled_text (pi_notes i),
        rm_sources = map recalled_source (pi_notes i), rm_kinds = map recalled_kind (pi_notes i),
        rm_durable = length (filter (\<lambda>n. recalled_kind n = ''durable'') (pi_notes i)),
        rm_raw_chars = length (sr_raw (rd_relevant r)), rm_rendered_chars = length (sr_text (rd_relevant r)),
        rm_rendered = sr_notes (rd_relevant r)\<rparr>,
      pd_history = details, pd_request = (user_message, length user_message)\<rparr>"

definition history_details_of :: "prompt_input \<Rightarrow> history_details" where
  "history_details_of i =
     (if pi_history i = [] then no_details else snd (compressed_history_entries (pi_summary i) (pi_history i)))"

definition build_prompt :: "prompt_config \<Rightarrow> prompt_agent \<Rightarrow> string \<Rightarrow> string \<times> prompt_metadata" where
  "build_prompt c a user_message =
     (let i = prompt_input_of a user_message in
      if \<not> pa_reduction_enabled a then
        (let r = render_sections_without_reduction i; prompt = assemble_prompt r;
             b = [(''prefix'', sr_budget (rd_prefix r)), (''memory'', sr_budget (rd_memory r)),
                  (''relevant_memory'', sr_budget (rd_relevant r)), (''history'', sr_budget (rd_history r))] in
         (prompt, prompt_metadata_of c i user_message prompt r b [] no_details))
      else
        (case reduce_loop c i (pc_budgets c) of (log, b) \<Rightarrow>
           (let r = render_sections i b; prompt = assemble_prompt r in
            (prompt, prompt_metadata_of c i user_message prompt r b log (history_details_of i)))))"

section \<open>Lengths\<close>

lemma tail_clip_length: "int (length (tail_clip text limit)) \<le> max 0 limit"
  by (auto simp: tail_clip_def)

lemma plain_section_length: "int (length (sr_text (plain_section raw (Some b)))) \<le> max 0 b"
  using tail_clip_length [of raw b] by (simp add: plain_section_def)

lemma relevant_length: "0 < budget \<Longrightarrow> int (length (sr_text (render_relevant_memory ns budget))) \<le> max 23 budget"
  using order_trans [OF tail_clip_length, of budget "max 23 budget"]
  by (simp add: render_relevant_memory_def memory_header_def nl_def Let_def not_less le_max_iff_disj)

lemma history_length: "0 < budget \<Longrightarrow> int (length (sr_text (render_history_section f history budget))) \<le> max 19 budget"
  using order_trans [OF tail_clip_length, of budget "max 19 budget"]
  by (auto simp: render_history_section_def transcript_def nl_def Let_def not_less le_max_iff_disj)

lemma assemble_length:
  "length (assemble_prompt r) \<le> length (sr_text (rd_prefix r)) + length (sr_text (rd_memory r)) +
     length (sr_text (rd_relevant r)) + length (sr_text (rd_history r)) + length (sr_text (rd_request r)) + 8"
  unfolding assemble_prompt_def by (rule order_trans [OF length_py_strip]) (simp add: nl_def)

section \<open>What the reduction reaches\<close>

lemma reduce_loop_stops: "reduce_loop c i b = (log, b') \<Longrightarrow> reduce_once c i b' = None"
proof (induction c i b arbitrary: log rule: reduce_loop.induct)
  case (1 c i b)
  then show ?case
    by (cases "reduce_once c i b") (auto simp: reduce_loop.simps [of c i b] split: prod.splits)
qed

lemma stopped_at_floors:
  assumes "reduce_once c i b = None" and "pc_total c < int (length (prompt_at i b))" and "s \<in> set (pc_order c)"
  shows "budget_of b s \<le> budget_of (pc_floors c) s"
proof (rule ccontr)
  assume above: "\<not> budget_of b s \<le> budget_of (pc_floors c) s"
  then have "can_shrink c b (int (length (prompt_at i b)) - pc_total c) s"
    using assms(2) by (auto simp: can_shrink_def)
  moreover have "find (can_shrink c b (int (length (prompt_at i b)) - pc_total c)) (pc_order c) = None"
    using assms(1,2) by (auto simp: reduce_once_def Let_def split: if_splits option.splits)
  ultimately show False using assms(3) by (auto simp: find_None_iff)
qed

text \<open>Budgets only sink, never below their floors, and no section loses its budget.\<close>

definition sinks :: "prompt_config \<Rightarrow> (string \<times> int) list \<Rightarrow> (string \<times> int) list \<Rightarrow> bool" where
  "sinks c b b' \<longleftrightarrow> (\<forall>s. budget_of b' s \<le> budget_of b s \<and>
     (budget_of (pc_floors c) s \<le> budget_of b s \<longrightarrow> budget_of (pc_floors c) s \<le> budget_of b' s) \<and>
     (obj_get b s \<noteq> None \<longrightarrow> obj_get b' s \<noteq> None))"

lemma sinks_refl: "sinks c b b"
  by (simp add: sinks_def)

lemma sinks_trans: "sinks c a b \<Longrightarrow> sinks c b d \<Longrightarrow> sinks c a d"
  unfolding sinks_def by (meson order_trans)

lemma reduce_once_sinks: "reduce_once c i b = Some (r, b') \<Longrightarrow> sinks c b b'"
  by (erule reduce_once_some) (auto simp: sinks_def budget_put)

lemma reduce_loop_sinks: "reduce_loop c i b = (log, b') \<Longrightarrow> sinks c b b'"
proof (induction c i b arbitrary: log rule: reduce_loop.induct)
  case (1 c i b)
  show ?case
  proof (cases "reduce_once c i b")
    case None
    with 1(2) show ?thesis by (simp add: reduce_loop.simps [of c i b] sinks_refl)
  next
    case (Some p)
    obtain r b1 where p: "p = (r, b1)" by fastforce
    obtain rs where "reduce_loop c i b1 = (rs, b')"
      using 1(2) by (auto simp: reduce_loop.simps [of c i b] Some p split: prod.splits)
    from 1(1) [OF Some p [symmetric] this] reduce_once_sinks [OF Some [unfolded p]] show ?thesis
      by (rule sinks_trans [rotated])
  qed
qed

section \<open>Properties\<close>

definition default_manager :: prompt_config where
  "default_manager = new_context_manager DEFAULT_TOTAL_BUDGET [] [] []"

lemma default_floors:
  "budget_of (pc_floors default_manager) ''prefix'' = 900" "budget_of (pc_floors default_manager) ''memory'' = 400"
  "budget_of (pc_floors default_manager) ''relevant_memory'' = 300" "budget_of (pc_floors default_manager) ''history'' = 1300"
  by (simp_all add: default_manager_def new_context_manager_def DEFAULT_SECTION_BUDGETS_def compute_section_floors_def budget_of_def Let_def)

lemma default_budgets:
  "budget_of (pc_budgets default_manager) ''prefix'' = 3600" "budget_of (pc_budgets default_manager) ''memory'' = 1600"
  "budget_of (pc_budgets default_manager) ''relevant_memory'' = 1200" "budget_of (pc_budgets default_manager) ''history'' = 5200"
  by (simp_all add: default_manager_def new_context_manager_def DEFAULT_SECTION_BUDGETS_def budget_of_def Let_def)

text \<open>
  C24. With the default limits a prompt has at most 12000 characters whenever the section of the request
  leaves it 2908: otherwise everything else has been cut down to its floor.
\<close>

theorem prompt_bounded:
  assumes "pa_reduction_enabled a"
  shows "int (length (fst (build_prompt default_manager a user_message))) \<le>
    max 12000 (int (length (request_section (pa_task a) (pa_checkpoint a) user_message)) + 2908)"
proof -
  let ?c = default_manager and ?i = "prompt_input_of a user_message"
  obtain log b where loop: "reduce_loop ?c ?i (pc_budgets ?c) = (log, b)" by fastforce
  have prompt: "fst (build_prompt ?c a user_message) = prompt_at ?i b"
    using assms by (simp add: build_prompt_def Let_def loop prompt_at_def)
  show ?thesis
  proof (cases "int (length (prompt_at ?i b)) \<le> 12000")
    case True
    then show ?thesis by (simp add: prompt)
  next
    case False
    have c: "pc_total ?c = 12000" "pc_order ?c = DEFAULT_REDUCTION_ORDER"
      by (simp_all add: default_manager_def new_context_manager_def DEFAULT_TOTAL_BUDGET_def Let_def)
    have sinks: "sinks ?c (pc_budgets ?c) b" by (rule reduce_loop_sinks [OF loop])
    have low: "budget_of b s = budget_of (pc_floors ?c) s" if "s \<in> set DEFAULT_REDUCTION_ORDER" for s
    proof (rule antisym)
      show "budget_of b s \<le> budget_of (pc_floors ?c) s"
        using stopped_at_floors [OF reduce_loop_stops [OF loop], of s] False that by (simp add: c)
      have "budget_of (pc_floors ?c) s \<le> budget_of (pc_budgets ?c) s"
        using that default_floors default_budgets by (auto simp: DEFAULT_REDUCTION_ORDER_def)
      then show "budget_of (pc_floors ?c) s \<le> budget_of b s" using sinks by (simp add: sinks_def)
    qed
    have some: "obj_get b ''prefix'' = Some 900" "obj_get b ''memory'' = Some 400"
    proof -
      have "obj_get b s = Some (budget_of b s)" if "obj_get (pc_budgets ?c) s \<noteq> None" for s
        using sinks that by (auto simp: sinks_def budget_of_def)
      then show "obj_get b ''prefix'' = Some 900" "obj_get b ''memory'' = Some 400"
        using low [of "''prefix''"] low [of "''memory''"] default_floors
        by (simp_all add: DEFAULT_REDUCTION_ORDER_def default_manager_def new_context_manager_def DEFAULT_SECTION_BUDGETS_def Let_def)
    qed
    have parts: "budget_of b ''relevant_memory'' = 300" "budget_of b ''history'' = 1300"
      using low [of "''relevant_memory''"] low [of "''history''"] default_floors by (auto simp: DEFAULT_REDUCTION_ORDER_def)
    show ?thesis
      using assemble_length [of "render_sections ?i b"]
        plain_section_length [of "pi_prefix ?i" 900] plain_section_length [of "pi_memory ?i" 400]
        relevant_length [of 300 "map recalled_text (pi_notes ?i)"] history_length [of 1300 "pi_summary ?i" "pi_history ?i"]
      by (simp add: prompt prompt_at_def render_sections_def some parts prompt_input_of_def)
  qed
qed

definition sample_prompt :: prompt_agent where
  "sample_prompt = \<lparr>pa_prefix = replicate 20000 CHR ''p'', pa_checkpoint = [], pa_task = None, pa_history = [],
     pa_env = plain_env, pa_memory = default_memory_state, pa_memory_enabled = True, pa_relevant_enabled = True,
     pa_reduction_enabled = True\<rparr>"

theorem prompt_bounded_witness:
  "int (length (fst (build_prompt default_manager sample_prompt ''hello''))) \<le> 12000"
  using prompt_bounded [of sample_prompt "''hello''"] by (simp add: sample_prompt_def request_section_def nl_def Let_def)

definition rstrip :: "string \<Rightarrow> string" where
  "rstrip s = rev (dropWhile is_space (rev s))"

lemma strip_keeps_tail:
  assumes "r \<noteq> []" and "\<not> is_space (hd r)"
  shows "\<exists>front. py_strip (x @ r) = front @ rstrip r"
proof -
  obtain q where q: "dropWhile is_space (x @ r) = q @ r"
    using dropWhile_stops [OF dropWhile_id [of r is_space], of x] assms by auto
  have "\<exists>c \<in> set (rev r). \<not> is_space c" using assms by (cases r) auto
  then have "dropWhile is_space (rev r @ rev q) = dropWhile is_space (rev r) @ rev q" by (auto simp: dropWhile_append1)
  then show ?thesis by (auto simp: py_strip_def q rstrip_def)
qed

lemma request_starts: "request_section task checkpoint m \<noteq> [] \<and> \<not> is_space (hd (request_section task checkpoint m))"
  using strip_trimmed [of checkpoint]
  by (auto simp: request_section_def control_lines_def trimmed_def is_space_def Let_def split: option.splits)

lemma join_five: "py_join sep [a, b, c, d, e] = (a @ sep @ b @ sep @ c @ sep @ d @ sep) @ e"
  by simp

text \<open>
  The section of the request is in every prompt as it is, at its end, whatever the budgets: only white
  space after it is cut.
\<close>

theorem request_kept:
  "\<exists>front. fst (build_prompt c a user_message) = front @ rstrip (request_section (pa_task a) (pa_checkpoint a) user_message)"
proof -
  have tail: "\<exists>front. assemble_prompt r = front @ rstrip (request_section (pa_task a) (pa_checkpoint a) user_message)"
    if "sr_text (rd_request r) = request_section (pa_task a) (pa_checkpoint a) user_message" for r
    using strip_keeps_tail [OF conjunct1 [OF request_starts] conjunct2 [OF request_starts]]
    unfolding assemble_prompt_def join_five that by blast
  show ?thesis
    by (auto simp: build_prompt_def Let_def prompt_input_of_def render_sections_def render_sections_without_reduction_def
        split: prod.splits intro!: tail)
qed

text \<open>
  The sections shrink in the order of the list: when the budget of a section has been lowered, those
  before it are at their floors.
\<close>

lemma find_before:
  "find P xs = Some x \<Longrightarrow> distinct xs \<Longrightarrow> xs = ys @ x # zs \<Longrightarrow> y \<in> set ys \<Longrightarrow> \<not> P y"
  by (induction ys arbitrary: xs) (auto split: if_splits)

lemma reduce_loop_order:
  assumes "reduce_loop c i b = (log, b')" and "r \<in> set log" and "distinct (pc_order c)"
    and "pc_order c = ys @ re_section r # zs" and "s \<in> set ys"
  shows "budget_of b' s \<le> budget_of (pc_floors c) s"
  using assms
proof (induction c i b arbitrary: log rule: reduce_loop.induct)
  case (1 c i b)
  obtain r1 b1 where once: "reduce_once c i b = Some (r1, b1)"
    using 1(2,3) by (cases "reduce_once c i b") (auto simp: reduce_loop.simps [of c i b])
  obtain rs where more: "reduce_loop c i b1 = (rs, b')" and log: "log = r1 # rs"
    using 1(2) by (auto simp: reduce_loop.simps [of c i b] once split: prod.splits)
  show ?case
  proof (cases "r \<in> set rs")
    case True
    from 1(1) [OF once refl more True 1(4,5,6)] show ?thesis .
  next
    case False
    with 1(3) log have r: "r = r1" by simp
    let ?P = "can_shrink c b (int (length (prompt_at i b)) - pc_total c)"
    obtain k where k: "re_section r1 = k" "find ?P (pc_order c) = Some k" "pc_total c < int (length (prompt_at i b))"
      using reduce_once_some [OF once] by metis
    have "\<not> ?P s" using find_before [OF k(2) 1(4) 1(5) [unfolded r k(1)] 1(6)] .
    then have "budget_of b s \<le> budget_of (pc_floors c) s" using k(3) by (auto simp: can_shrink_def)
    moreover have "sinks c b b'"
      using sinks_trans [OF reduce_once_sinks [OF once] reduce_loop_sinks [OF more]] .
    ultimately show ?thesis unfolding sinks_def by (meson order_trans)
  qed
qed

theorem reduction_in_order:
  assumes "reduce_loop c i (pc_budgets c) = (log, b)" and "r \<in> set log" and "distinct (pc_order c)"
    and "pc_order c = before @ re_section r # after" and "s \<in> set before"
  shows "budget_of b s \<le> budget_of (pc_floors c) s"
  using assms by (rule reduce_loop_order)

text \<open>
  The newest tool call is not shown to the model at all when its arguments fill the section of the
  history: the line of the arguments is cut to the whole section, so that the line of the result does
  not fit, and the entry is dropped.
\<close>

theorem newest_call_dropped:
  assumes "32 < budget" and "budget - 12 \<le> int (length head_line)"
  shows "add_entry budget (True, [head_line, result]) [] = []"
proof -
  have len: "length (transcript [a, b]) = 13 + length a + length b" for a b
    by (simp add: transcript_def nl_def)
  have "length (tail_clip head_line (budget - 12)) = nat (budget - 12)"
    using assms by (auto simp: tail_clip_def)
  with assms show ?thesis
    by (auto simp: add_entry_def fits_def len Let_def max_def)
qed

lemma length_args_json: "length (json_dumps True '', '' '': '' (JObj d)) \<le> length (args_json d)"
proof -
  have "length xs \<le> length (concat (map ascii_char xs))" for xs
    by (induction xs) (auto simp: ascii_char_def Let_def)
  then show ?thesis unfolding args_json_def .
qed

definition sample_call :: history_item where
  "sample_call = [(''role'', JStr ''tool''), (''name'', JStr ''write_file''),
     (''args'', JObj [(''content'', JStr (replicate 6000 CHR ''x''))]), (''content'', JStr ''ok'')]"

theorem newest_call_dropped_witness: "add_entry 5200 (True, render_history_item sample_call 900) [] = []"
proof -
  have args: "hist_args sample_call = [(''content'', JStr (replicate 6000 CHR ''x''))]"
    and tool: "is_tool_item sample_call" and name: "hist_name sample_call = ''write_file''"
    by (simp_all add: sample_call_def hist_args_def object_at_def get_default_def is_tool_item_def hist_role_def get_str_def hist_name_def)
  have "json_char CHR ''x'' = ''x''" by (simp add: json_char_def Let_def)
  then have "6000 \<le> length (json_dumps True '', '' '': '' (JObj (hist_args sample_call)))"
    by (simp add: args json_quote_def concat_replicate_trivial length_concat sum_list_replicate)
  with length_args_json [of "hist_args sample_call"] have "6000 \<le> length (tool_head sample_call)"
    by (simp add: tool_head_def name)
  then show ?thesis
    using newest_call_dropped [of 5200 "tool_head sample_call"] by (simp add: render_history_item_def tool)
qed

text \<open>
  The floors that the module declares are never used: the sections of the prefix and of the history
  sink below them.
\<close>

theorem declared_floors_unused:
  "budget_of (pc_floors default_manager) ''prefix'' < budget_of DEFAULT_SECTION_FLOORS ''prefix'' \<and>
   budget_of (pc_floors default_manager) ''history'' < budget_of DEFAULT_SECTION_FLOORS ''history''"
  by (simp add: default_floors) (simp add: DEFAULT_SECTION_FLOORS_def budget_of_def)

end
