(* ===== verification/Device_Store.thy ===== *)
theory Device_Store
  imports Startup_Reconcile
begin

text \<open>
  The devices of the local Workers and the codes that pair them
  (\<open>infrastructure/device_store.py\<close>).

  A device is one JSON file \<open><device_id>.json\<close>; \<open>dv_files\<close> is the directory in the order
  \<open>glob\<close> lists it, \<open>None\<close> for a file \<open>read_json\<close> cannot read as an object.  \<open>dv_now\<close> is the text
  \<open>utc_now\<close> returns.  What \<open>secrets\<close> draws is an argument of the operation that draws it, and
  the argument \<open>sha\<close> is SHA-256, its digest as a number.  Writes go through \<open>io_write\<close>: they may fail, or
  raise after the file is in place.  The keys of a file are kept in the order of \<open>to_dict\<close>
  (\<open>json.dump\<close> sorts them; nothing reads the order).
\<close>

section \<open>Records\<close>

record worker_workspace =
  ws_id :: string
  ws_name :: string
  ws_is_git :: bool
  ws_source :: string
  ws_named_at :: string

definition new_workspace :: "string \<Rightarrow> string \<Rightarrow> bool \<Rightarrow> worker_workspace" where
  "new_workspace wid name git =
     \<lparr>ws_id = wid, ws_name = name, ws_is_git = git, ws_source = ''auto'', ws_named_at = []\<rparr>"

record device =
  d_id :: string
  d_owner :: string
  d_name :: string
  d_digest :: string
  d_created_at :: string
  d_last_seen :: string
  d_source :: string
  d_named_at :: string
  d_model :: string
  d_model_provider :: string
  d_model_configured :: bool
  d_version :: string
  d_protocol :: int
  d_platform :: string
  d_architecture :: string
  d_capabilities :: "string list"
  d_backend :: string
  d_model_caps :: "(string \<times> json) list"
  d_update_status :: "(string \<times> json) list"
  d_workspaces :: "worker_workspace list"
  d_fingerprint :: string

text \<open>\<open>Device(...)\<close> with the fields \<open>create\<close> passes, everything else at its default.\<close>

definition new_device :: "string \<Rightarrow> string \<Rightarrow> string \<Rightarrow> string \<Rightarrow> string \<Rightarrow> string \<Rightarrow> device" where
  "new_device now did owner name digest fp =
     \<lparr>d_id = did, d_owner = owner, d_name = name, d_digest = digest, d_created_at = now,
      d_last_seen = [], d_source = ''user'', d_named_at = now, d_model = [], d_model_provider = [],
      d_model_configured = False, d_version = [], d_protocol = 0, d_platform = [],
      d_architecture = [], d_capabilities = [], d_backend = [], d_model_caps = [],
      d_update_status = [], d_workspaces = [], d_fingerprint = fp\<rparr>"

subsection \<open>The JSON form\<close>

definition workspace_to_dict :: "worker_workspace \<Rightarrow> (string \<times> json) list" where
  "workspace_to_dict w =
     [(''workspace_id'', JStr (ws_id w)), (''name'', JStr (ws_name w)),
      (''display_name'', JStr (ws_name w)), (''display_name_source'', JStr (ws_source w)),
      (''display_name_updated_at'', JStr (ws_named_at w)), (''is_git'', JBool (ws_is_git w))]"

definition device_to_dict :: "device \<Rightarrow> (string \<times> json) list" where
  "device_to_dict d =
     [(''schema_version'', JInt 1), (''device_id'', JStr (d_id d)), (''owner_id'', JStr (d_owner d)),
      (''name'', JStr (d_name d)), (''token_digest'', JStr (d_digest d)),
      (''created_at'', JStr (d_created_at d)), (''last_seen_at'', JStr (d_last_seen d)),
      (''display_name_source'', JStr (d_source d)),
      (''display_name_updated_at'', JStr (d_named_at d)), (''model'', JStr (d_model d)),
      (''model_provider'', JStr (d_model_provider d)),
      (''model_configured'', JBool (d_model_configured d)), (''version'', JStr (d_version d)),
      (''protocol_version'', JInt (d_protocol d)), (''platform'', JStr (d_platform d)),
      (''architecture'', JStr (d_architecture d)),
      (''capabilities'', JList (map JStr (d_capabilities d))),
      (''orchestration_backend'', JStr (d_backend d)),
      (''model_capabilities'', JObj (d_model_caps d)), (''update_status'', JObj (d_update_status d)),
      (''workspaces'', JList (map (\<lambda>w. JObj (workspace_to_dict w)) (d_workspaces d))),
      (''machine_fingerprint'', JStr (d_fingerprint d))]"

text \<open>\<open>payload[key]\<close>.\<close>

definition get_item :: "(string \<times> json) list \<Rightarrow> string \<Rightarrow> exn + json" where
  "get_item d k = (case obj_get d k of None \<Rightarrow> Inl Key_Error | Some v \<Rightarrow> Inr v)"

definition json_strings_only :: "json list \<Rightarrow> string list" where
  "json_strings_only xs = concat (map (\<lambda>x. case x of JStr s \<Rightarrow> [s] | _ \<Rightarrow> []) xs)"

definition object_or_empty :: "json \<Rightarrow> (string \<times> json) list" where
  "object_or_empty v = (case v of JObj kvs \<Rightarrow> kvs | _ \<Rightarrow> [])"

definition workspace_from_dict :: "(string \<times> json) list \<Rightarrow> exn + worker_workspace" where
  "workspace_from_dict p =
     res_bind (get_item p ''workspace_id'') (\<lambda>wid.
     res_bind (get_item p ''name'') (\<lambda>name.
       Inr \<lparr>ws_id = py_str wid, ws_name = py_str name, ws_is_git = get_bool p ''is_git'',
            ws_source = get_str p ''display_name_source'' ''auto'',
            ws_named_at = get_str p ''display_name_updated_at'' []\<rparr>))"

fun workspaces_from :: "json list \<Rightarrow> exn + worker_workspace list" where
  "workspaces_from [] = Inr []"
| "workspaces_from (v # vs) =
     (case v of
        JObj p \<Rightarrow> res_bind (workspace_from_dict p) (\<lambda>w. res_bind (workspaces_from vs) (\<lambda>ws. Inr (w # ws)))
      | _ \<Rightarrow> workspaces_from vs)"

definition device_from_dict :: "(string \<times> json) list \<Rightarrow> exn + device" where
  "device_from_dict p =
     res_bind (get_item p ''device_id'') (\<lambda>did.
     res_bind (get_item p ''owner_id'') (\<lambda>ov.
     case canonical_owner_id (py_str ov) of None \<Rightarrow> Inl Value_Error | Some owner \<Rightarrow>
     res_bind (get_item p ''name'') (\<lambda>name.
     res_bind (get_item p ''token_digest'') (\<lambda>digest.
     res_bind (get_int p ''protocol_version'' 0) (\<lambda>protocol.
     res_bind (py_iter (get_default p ''capabilities'' (JList []))) (\<lambda>caps.
     res_bind (py_iter (get_default p ''workspaces'' (JList []))) (\<lambda>wvs.
     res_bind (workspaces_from wvs) (\<lambda>wss.
       Inr \<lparr>d_id = py_str did, d_owner = owner, d_name = py_str name, d_digest = py_str digest,
            d_created_at = get_str p ''created_at'' [], d_last_seen = get_str p ''last_seen_at'' [],
            d_source = get_str p ''display_name_source'' ''auto'',
            d_named_at = py_str (get_default p ''display_name_updated_at''
                                   (get_default p ''created_at'' (JStr []))),
            d_model = get_str p ''model'' [], d_model_provider = get_str p ''model_provider'' [],
            d_model_configured = get_bool p ''model_configured'',
            d_version = take 32 (get_str p ''version'' []), d_protocol = protocol,
            d_platform = take 32 (get_str p ''platform'' []),
            d_architecture = take 32 (get_str p ''architecture'' []),
            d_capabilities = json_strings_only caps,
            d_backend = take 64 (get_str p ''orchestration_backend'' []),
            d_model_caps = object_or_empty (get_default p ''model_capabilities'' (JObj [])),
            d_update_status = object_or_empty (get_default p ''update_status'' (JObj [])),
            d_workspaces = wss, d_fingerprint = get_str p ''machine_fingerprint'' []\<rparr>))))))))"

section \<open>Pairing codes\<close>

text \<open>\<open>PairingCodeStore\<close>: the codes in the order of the dictionary, each with its owner and expiry.\<close>

record pairing_state =
  pc_ttl :: int
  pc_limit :: nat
  pc_codes :: "(string \<times> string \<times> int) list"
  pc_time :: int

type_synonym 'a pairing_act = "(pairing_state, exn, 'a) act"

definition purge_codes :: "pairing_state \<Rightarrow> pairing_state" where
  "purge_codes s = s\<lparr>pc_codes := filter (\<lambda>(_, _, expiry). \<not> expiry \<le> pc_time s) (pc_codes s)\<rparr>"

text \<open>
  The loop that drops the oldest codes until one more fits; with a limit of zero it ends on an
  empty dictionary, whose \<open>next(iter(...))\<close> raises.
\<close>

definition evict_codes :: "unit pairing_act" where
  "evict_codes = (\<lambda>s.
     if pc_limit s = 0 then (Inl Stop_Iteration, s\<lparr>pc_codes := []\<rparr>)
     else (Inr (), s\<lparr>pc_codes := drop (length (pc_codes s) + 1 - pc_limit s) (pc_codes s)\<rparr>))"

definition pairing_create :: "string \<Rightarrow> string \<Rightarrow> (string \<times> int) pairing_act" where
  "pairing_create code owner =
     act_then (act_modify purge_codes)
       (act_then evict_codes (\<lambda>s.
          case canonical_owner_id owner of
            None \<Rightarrow> (Inl Value_Error, s)
          | Some o' \<Rightarrow>
              (Inr (code, pc_ttl s),
               s\<lparr>pc_codes := obj_put (pc_codes s) code (o', pc_time s + pc_ttl s)\<rparr>)))"

definition pairing_consume :: "string \<Rightarrow> string pairing_act" where
  "pairing_consume code =
     act_then (act_modify purge_codes) (\<lambda>s.
       let k = py_upper (py_strip code) in
       case obj_get (pc_codes s) k of
         None \<Rightarrow> (Inl (App Pairing_Code_Invalid), s)
       | Some (owner, _) \<Rightarrow> (Inr owner, s\<lparr>pc_codes := obj_pop (pc_codes s) k\<rparr>))"

section \<open>The device store\<close>

record device_state = event_state +
  dv_files :: "(string \<times> (string \<times> json) list option) list"
  dv_now :: string

text \<open>The pattern \<open>^dev_[a-f0-9]{32}$\<close>, matched in full.\<close>

definition hex_lower :: "char \<Rightarrow> bool" where
  "hex_lower c \<longleftrightarrow> c \<in> set ''0123456789abcdef''"

definition is_record_id :: "string \<Rightarrow> string \<Rightarrow> bool" where
  "is_record_id prefix s \<longleftrightarrow>
     starts_with prefix s \<and> length s = length prefix + 32 \<and> list_all hex_lower (drop (length prefix) s)"

definition is_device_id :: "string \<Rightarrow> bool" where
  "is_device_id s \<longleftrightarrow> is_record_id ''dev_'' s"

definition is_ascii :: "string \<Rightarrow> bool" where
  "is_ascii s \<longleftrightarrow> list_all (\<lambda>c. (of_char c :: nat) < 128) s"

text \<open>\<open>Device.from_dict(read_json(path))\<close> for a file that exists.\<close>

definition read_device_file :: "(string \<times> json) list option \<Rightarrow> exn + device" where
  "read_device_file f = (case f of None \<Rightarrow> Inl Json_File_Corrupted | Some p \<Rightarrow> device_from_dict p)"

definition write_device :: "string \<Rightarrow> device \<Rightarrow> ('a device_state_scheme, exn, unit) act" where
  "write_device did d =
     io_write (\<lambda>s. s\<lparr>dv_files := obj_put (dv_files s) did (Some (device_to_dict d))\<rparr>)"

text \<open>The loops over the directory: the first device a test accepts, and all it accepts.\<close>

fun first_device ::
  "(device \<Rightarrow> exn + bool) \<Rightarrow> (string \<times> (string \<times> json) list option) list \<Rightarrow> exn + device option" where
  "first_device test [] = Inr None"
| "first_device test ((_, f) # fs) =
     res_bind (read_device_file f) (\<lambda>d.
       res_bind (test d) (\<lambda>b. if b then Inr (Some d) else first_device test fs))"

fun all_devices ::
  "(device \<Rightarrow> bool) \<Rightarrow> (string \<times> (string \<times> json) list option) list \<Rightarrow> exn + device list" where
  "all_devices test [] = Inr []"
| "all_devices test ((_, f) # fs) =
     res_bind (read_device_file f) (\<lambda>d.
       res_bind (all_devices test fs) (\<lambda>ds. Inr (if test d then d # ds else ds)))"

text \<open>\<open>_token_digest\<close>: a token outside ASCII cannot be encoded (\<open>UnicodeEncodeError\<close>, a \<open>ValueError\<close>).\<close>

definition hexdigest :: "(string \<Rightarrow> nat) \<Rightarrow> string \<Rightarrow> string" where
  "hexdigest sha text = hex_pad 64 (sha text)"

definition token_digest :: "(string \<Rightarrow> nat) \<Rightarrow> string \<Rightarrow> exn + string" where
  "token_digest sha token = (if is_ascii token then Inr (hexdigest sha token) else Inl Value_Error)"

definition device_create ::
  "(string \<Rightarrow> nat) \<Rightarrow> string \<Rightarrow> string \<Rightarrow> string \<Rightarrow> string \<Rightarrow> string
     \<Rightarrow> ('a device_state_scheme, exn, device \<times> string) act" where
  "device_create sha hex token owner name fp =
     act_bind (owner_arg owner) (\<lambda>o'.
     act_bind (act_lift (token_digest sha token)) (\<lambda>digest.
     act_bind (act_get dv_now) (\<lambda>now.
       let d = new_device now (''dev_'' @ hex) o' (py_strip name) digest (py_strip fp)
       in act_then (write_device (d_id d) d) (act_ret (d, token)))))"

definition find_by_fingerprint ::
  "string \<Rightarrow> string \<Rightarrow> ('a device_state_scheme, exn, device option) act" where
  "find_by_fingerprint owner fp =
     act_bind (owner_arg owner) (\<lambda>o'.
       let f = py_strip fp in
       if f = [] then act_ret None
       else act_bind (act_get dv_files) (\<lambda>files.
              act_lift (first_device (\<lambda>d. Inr (d_owner d = o' \<and> d_fingerprint d = f)) files)))"

text \<open>
  \<open>pair_or_reuse\<close>: the search and the write are two critical sections; \<open>reuse_device\<close> is the second.
\<close>

definition reuse_device ::
  "(string \<Rightarrow> nat) \<Rightarrow> string \<Rightarrow> string \<Rightarrow> device \<Rightarrow> ('a device_state_scheme, exn, device \<times> string) act" where
  "reuse_device sha token name d =
     act_bind (act_lift (token_digest sha token)) (\<lambda>digest.
     act_bind (act_get dv_now) (\<lambda>now.
       let d' = d\<lparr>d_digest := digest, d_name := py_strip (if name = [] then d_name d else name),
                  d_last_seen := now\<rparr>
       in act_then (write_device (d_id d') d') (act_ret (d', token))))"

definition pair_or_reuse ::
  "(string \<Rightarrow> nat) \<Rightarrow> string \<Rightarrow> string \<Rightarrow> string \<Rightarrow> string \<Rightarrow> string
     \<Rightarrow> ('a device_state_scheme, exn, device \<times> string) act" where
  "pair_or_reuse sha hex token owner name fp =
     act_bind (find_by_fingerprint owner fp) (\<lambda>found.
       case found of
         Some d \<Rightarrow> reuse_device sha token name d
       | None \<Rightarrow> device_create sha hex token owner name fp)"

definition device_get :: "string \<Rightarrow> ('a device_state_scheme, exn, device) act" where
  "device_get did =
     (if \<not> is_device_id did then act_raise (App Device_Not_Found)
      else act_bind (act_get (\<lambda>s. obj_get (dv_files s) did)) (\<lambda>f.
             case f of
               None \<Rightarrow> act_raise (App Device_Not_Found)
             | Some g \<Rightarrow> act_lift (read_device_file g)))"

definition device_get_for_owner :: "string \<Rightarrow> string \<Rightarrow> ('a device_state_scheme, exn, device) act" where
  "device_get_for_owner did owner =
     act_bind (device_get did) (\<lambda>d.
       act_bind (owner_arg owner) (\<lambda>o'.
         if d_owner d \<noteq> o' then act_raise (App Device_Not_Found) else act_ret d))"

text \<open>\<open>hmac.compare_digest\<close> of two texts refuses one outside ASCII.\<close>

definition compare_digest :: "string \<Rightarrow> string \<Rightarrow> exn + bool" where
  "compare_digest a b = (if is_ascii a \<and> is_ascii b then Inr (a = b) else Inl Type_Error)"

definition authenticate ::
  "(string \<Rightarrow> nat) \<Rightarrow> string \<Rightarrow> ('a device_state_scheme, exn, device) act" where
  "authenticate sha token =
     (if token = [] \<or> 512 < length token then act_raise (App Authorization_Denied)
      else act_bind (act_lift (token_digest sha token)) (\<lambda>digest.
             act_bind (act_get dv_files) (\<lambda>files.
             act_bind (act_lift (first_device (\<lambda>d. compare_digest (d_digest d) digest) files)) (\<lambda>found.
               case found of None \<Rightarrow> act_raise (App Authorization_Denied) | Some d \<Rightarrow> act_ret d))))"

definition list_for_owner :: "string \<Rightarrow> ('a device_state_scheme, exn, device list) act" where
  "list_for_owner owner =
     act_bind (owner_arg owner) (\<lambda>o'.
     act_bind (act_get dv_files) (\<lambda>files.
     act_bind (act_lift (all_devices (\<lambda>d. d_owner d = o') files)) (\<lambda>ds.
       act_ret (sort_key (\<lambda>d. (py_lower (d_name d), d_id d)) ds))))"

subsection \<open>Presence\<close>

text \<open>The keyword arguments of \<open>update_presence\<close>.\<close>

record presence =
  pr_model :: string
  pr_model_provider :: string
  pr_model_configured :: bool
  pr_version :: string
  pr_protocol :: int
  pr_platform :: string
  pr_architecture :: string
  pr_capabilities :: "string list"
  pr_workspaces :: "worker_workspace list"
  pr_backend :: "string option"
  pr_model_caps :: "(string \<times> json) list option"
  pr_update_status :: "(string \<times> json) list option"

text \<open>\<open>{workspace.workspace_id: workspace for workspace in device.workspaces}\<close>: the last of an id.\<close>

definition known_workspace :: "worker_workspace list \<Rightarrow> string \<Rightarrow> worker_workspace option" where
  "known_workspace wss wid = find (\<lambda>w. ws_id w = wid) (rev wss)"

definition merge_workspace :: "string \<Rightarrow> worker_workspace list \<Rightarrow> worker_workspace \<Rightarrow> worker_workspace" where
  "merge_workspace now old w =
     (case known_workspace old (ws_id w) of
        None \<Rightarrow> \<lparr>ws_id = ws_id w, ws_name = ws_name w, ws_is_git = ws_is_git w, ws_source = ''auto'',
                 ws_named_at = now\<rparr>
      | Some e \<Rightarrow>
          \<lparr>ws_id = ws_id w,
           ws_name = (if ws_source e = ''user'' then ws_name e else ws_name w),
           ws_is_git = ws_is_git w, ws_source = ws_source e,
           ws_named_at = (if ws_source e = ''user'' \<or> ws_name e = ws_name w then ws_named_at e else now)\<rparr>)"

definition with_presence :: "string \<Rightarrow> presence \<Rightarrow> device \<Rightarrow> device" where
  "with_presence now p d =
     d\<lparr>d_last_seen := now, d_model := take 200 (pr_model p),
       d_model_provider := take 40 (pr_model_provider p),
       d_model_configured := pr_model_configured p, d_version := take 32 (pr_version p),
       d_protocol := pr_protocol p, d_platform := take 32 (pr_platform p),
       d_architecture := take 32 (pr_architecture p), d_capabilities := pr_capabilities p,
       d_backend := (case pr_backend p of None \<Rightarrow> d_backend d | Some b \<Rightarrow> take 64 b),
       d_model_caps := (case pr_model_caps p of None \<Rightarrow> d_model_caps d | Some m \<Rightarrow> m),
       d_update_status := (case pr_update_status p of None \<Rightarrow> d_update_status d | Some u \<Rightarrow> u),
       d_workspaces := map (merge_workspace now (d_workspaces d)) (pr_workspaces p)\<rparr>"

definition update_presence :: "string \<Rightarrow> presence \<Rightarrow> ('a device_state_scheme, exn, device) act" where
  "update_presence did p =
     (if 100 < length (pr_workspaces p) then act_raise Value_Error
      else if \<not> distinct (map ws_id (pr_workspaces p)) then act_raise Value_Error
      else act_bind (device_get did) (\<lambda>d.
             act_bind (act_get dv_now) (\<lambda>now.
               act_then (write_device did (with_presence now p d)) (act_ret (with_presence now p d)))))"

subsection \<open>Names, status, lookup, removal\<close>

definition rename_workspace ::
  "string \<Rightarrow> string \<Rightarrow> string \<Rightarrow> worker_workspace \<Rightarrow> worker_workspace" where
  "rename_workspace now wid name w =
     (if ws_id w = wid
      then w\<lparr>ws_name := take 200 (py_strip name), ws_source := ''user'', ws_named_at := now\<rparr> else w)"

definition set_workspace_display_name ::
  "string \<Rightarrow> string \<Rightarrow> string \<Rightarrow> string
     \<Rightarrow> ('a device_state_scheme, exn, device \<times> worker_workspace) act" where
  "set_workspace_display_name did owner wid name =
     act_bind (device_get_for_owner did owner) (\<lambda>d.
     act_bind (act_get dv_now) (\<lambda>now.
       case known_workspace (d_workspaces d) wid of
         None \<Rightarrow> act_raise (App Device_Not_Found)
       | Some w \<Rightarrow>
           let d' = d\<lparr>d_workspaces := map (rename_workspace now wid name) (d_workspaces d)\<rparr>
           in act_then (write_device did d') (act_ret (d', rename_workspace now wid name w))))"

definition update_worker_status ::
  "string \<Rightarrow> (string \<times> json) list \<Rightarrow> ('a device_state_scheme, exn, device) act" where
  "update_worker_status did status =
     act_bind (device_get did) (\<lambda>d.
       let d' = d\<lparr>d_update_status := status\<rparr> in act_then (write_device did d') (act_ret d'))"

definition find_in_devices :: "string \<Rightarrow> device list \<Rightarrow> (device \<times> worker_workspace) option" where
  "find_in_devices wid ds =
     find (\<lambda>_. True)
       (concat (map (\<lambda>d. map (Pair d) (filter (\<lambda>w. ws_id w = wid) (d_workspaces d))) ds))"

definition find_workspace ::
  "string \<Rightarrow> string \<Rightarrow> string option
     \<Rightarrow> ('a device_state_scheme, exn, (device \<times> worker_workspace) option) act" where
  "find_workspace owner wid did =
     act_bind
       (case did of
          None \<Rightarrow> list_for_owner owner
        | Some i \<Rightarrow> if i = [] then list_for_owner owner
                    else act_bind (device_get_for_owner i owner) (\<lambda>d. act_ret [d]))
       (\<lambda>ds. act_ret (find_in_devices wid ds))"

definition device_rename ::
  "string \<Rightarrow> string \<Rightarrow> string \<Rightarrow> string option \<Rightarrow> ('a device_state_scheme, exn, device) act" where
  "device_rename did owner name expected =
     (let n = py_strip name in
      if n = [] \<or> 200 < length n then act_raise Value_Error
      else act_bind (device_get_for_owner did owner) (\<lambda>d.
             if expected \<noteq> None \<and> expected \<noteq> Some [] \<and> expected \<noteq> Some (d_named_at d)
             then act_raise (App Rename_Conflict)
             else act_bind (act_get dv_now) (\<lambda>now.
                    let d' = d\<lparr>d_name := n, d_source := ''user'', d_named_at := now\<rparr>
                    in act_then (write_device did d') (act_ret d'))))"

definition device_revoke :: "string \<Rightarrow> string \<Rightarrow> ('a device_state_scheme, exn, unit) act" where
  "device_revoke did owner =
     act_then (act_bind (device_get_for_owner did owner) (\<lambda>_. act_ret ()))
       (io_write (\<lambda>s. s\<lparr>dv_files := obj_pop (dv_files s) did\<rparr>))"

section \<open>The JSON form reads back\<close>

definition device_ok :: "device \<Rightarrow> bool" where
  "device_ok d \<longleftrightarrow>
     canonical_owner_id (d_owner d) = Some (d_owner d) \<and> length (d_version d) \<le> 32 \<and>
     length (d_platform d) \<le> 32 \<and> length (d_architecture d) \<le> 32 \<and> length (d_backend d) \<le> 64"

lemma workspace_roundtrip: "workspace_from_dict (workspace_to_dict w) = Inr w"
  by (simp add: workspace_from_dict_def workspace_to_dict_def get_item_def get_bool_def get_str_def get_default_def)

lemma workspaces_roundtrip: "workspaces_from (map (\<lambda>w. JObj (workspace_to_dict w)) wss) = Inr wss"
  by (induction wss) (simp_all add: workspace_roundtrip)

lemma strings_roundtrip: "json_strings_only (map JStr xs) = xs"
  by (induction xs) (simp_all add: json_strings_only_def)

lemma device_roundtrip: "device_ok d \<Longrightarrow> device_from_dict (device_to_dict d) = Inr d"
  by (simp add: device_ok_def device_from_dict_def device_to_dict_def get_item_def get_bool_def get_str_def
      get_int_def get_default_def object_or_empty_def workspaces_roundtrip strings_roundtrip)

lemma device_from_ok: "device_from_dict p = Inr d \<Longrightarrow> device_ok d"
  by (auto simp: device_from_dict_def res_bind_def device_ok_def canonical_owner_id_fixed
      split: sum.splits option.splits)

text \<open>
  A device that was read from a file is read back unchanged from the file it is written to.
\<close>

theorem device_reread: "device_from_dict p = Inr d \<Longrightarrow> device_from_dict (device_to_dict d) = Inr d"
  by (intro device_roundtrip device_from_ok)

definition sample_payload :: "(string \<times> json) list" where
  "sample_payload =
     [(''device_id'', JStr ''d''), (''owner_id'', JStr sample_owner), (''name'', JInt 7),
      (''token_digest'', JStr ''t''), (''version'', JStr (replicate 40 (CHR ''v''))),
      (''capabilities'', JList [JStr ''a'', JNull])]"

theorem device_reread_witness:
  "\<exists>d. device_from_dict sample_payload = Inr d \<and> d_name d = ''7'' \<and> length (d_version d) = 32
     \<and> device_from_dict (device_to_dict d) = Inr d"
proof -
  obtain d where d: "device_from_dict sample_payload = Inr d" "d_name d = ''7''" "length (d_version d) = 32"
    by (simp add: device_from_dict_def sample_payload_def get_item_def get_int_def get_str_def get_bool_def
        get_default_def py_str_def int_str_def nat_str.simps)
  then show ?thesis using device_reread [OF d(1)] by blast
qed

section \<open>Pairing codes are used once\<close>

definition codes_ok :: "pairing_state \<Rightarrow> bool" where
  "codes_ok s \<longleftrightarrow> distinct (map fst (pc_codes s)) \<and> length (pc_codes s) \<le> pc_limit s"

datatype pairing_op = Pair_Create string string | Pair_Consume string | Pair_Time int

definition pairing_step :: "pairing_state \<Rightarrow> pairing_op \<Rightarrow> pairing_state" where
  "pairing_step s x =
     (case x of
        Pair_Create code owner \<Rightarrow> snd (pairing_create code owner s)
      | Pair_Consume code \<Rightarrow> snd (pairing_consume code s)
      | Pair_Time now \<Rightarrow> s\<lparr>pc_time := now\<rparr>)"

lemma distinct_map_filter: "distinct (map f xs) \<Longrightarrow> distinct (map f (filter P xs))"
  by (induction xs) auto

lemma length_obj_put: "length (obj_put d k v) \<le> Suc (length d)"
  by (induction d k v rule: obj_put.induct) auto

lemma purge_ok: "codes_ok s \<Longrightarrow> codes_ok (purge_codes s)"
  by (auto simp: codes_ok_def purge_codes_def intro: distinct_map_filter order.trans [OF length_filter_le])

lemma pairing_step_ok: "codes_ok s \<Longrightarrow> codes_ok (pairing_step s x)"
proof -
  assume ok: "codes_ok s"
  show ?thesis
  proof (cases x)
    case (Pair_Create code owner)
    show ?thesis
    proof (cases "pc_limit s = 0")
      case True
      then show ?thesis using ok
        by (simp add: Pair_Create pairing_step_def pairing_create_def act_defs evict_codes_def codes_ok_def purge_codes_def)
    next
      case False
      let ?c = "drop (length (pc_codes (purge_codes s)) + 1 - pc_limit s) (pc_codes (purge_codes s))"
      have "distinct (map fst ?c)" using purge_ok [OF ok]
        by (simp add: codes_ok_def drop_map [symmetric] distinct_drop)
      moreover have "length ?c < pc_limit s" using False purge_ok [OF ok]
        by (auto simp: codes_ok_def purge_codes_def)
      ultimately show ?thesis using False
        by (auto simp: Pair_Create pairing_step_def pairing_create_def act_defs evict_codes_def codes_ok_def
            purge_codes_def distinct_obj_put split: option.split
            intro: order.trans [OF length_obj_put])
    qed
  next
    case (Pair_Consume code)
    then show ?thesis using purge_ok [OF ok]
      by (auto simp: pairing_step_def pairing_consume_def act_defs Let_def codes_ok_def
          obj_pop_def split: option.split intro: distinct_map_filter order.trans [OF length_filter_le])
  next
    case Pair_Time
    then show ?thesis using ok by (simp add: pairing_step_def codes_ok_def)
  qed
qed

interpretation pairing: machine_invariant pairing_step codes_ok
  by unfold_locales (rule pairing_step_ok)

text \<open>
  The outstanding pairing codes never exceed the limit, whatever codes are made and used.
\<close>

theorem pairing_codes_bounded:
  "length (pc_codes (foldl pairing_step \<lparr>pc_ttl = ttl, pc_limit = n, pc_codes = [], pc_time = now\<rparr> xs)) \<le> n"
proof -
  let ?s = "\<lparr>pc_ttl = ttl, pc_limit = n, pc_codes = [], pc_time = now\<rparr>"
  have "pc_limit (foldl pairing_step s xs) = pc_limit s" for s
  proof (induction xs arbitrary: s)
    case (Cons x xs)
    have "pc_limit (pairing_step s x) = pc_limit s"
      by (auto simp: pairing_step_def pairing_create_def pairing_consume_def act_defs evict_codes_def
          purge_codes_def Let_def split: pairing_op.split option.split)
    then show ?case by (simp add: Cons)
  qed simp
  moreover have "codes_ok (foldl pairing_step ?s xs)"
    by (rule pairing.run_keeps) (simp add: codes_ok_def)
  ultimately show ?thesis by (simp add: codes_ok_def)
qed

lemma consume_Inr:
  assumes "pairing_consume code s = (Inr owner, t)"
  shows "\<exists>expiry. (py_upper (py_strip code), owner, expiry) \<in> set (pc_codes s) \<and> pc_time s < expiry"
    and "obj_get (pc_codes t) (py_upper (py_strip code)) = None"
proof -
  let ?k = "py_upper (py_strip code)"
  have f: "\<exists>expiry. obj_get (pc_codes (purge_codes s)) ?k = Some (owner, expiry)"
    "t = (purge_codes s)\<lparr>pc_codes := obj_pop (pc_codes (purge_codes s)) ?k\<rparr>"
    using assms by (auto simp: pairing_consume_def act_defs Let_def split: option.splits)
  then show "obj_get (pc_codes t) ?k = None" by simp
  show "\<exists>expiry. (?k, owner, expiry) \<in> set (pc_codes s) \<and> pc_time s < expiry"
    using f(1) by (auto simp: obj_get_map_of purge_codes_def dest!: map_of_SomeD)
qed

text \<open>
  C14. A pairing code works once: the code that was accepted had not expired, and the same code
  (in any case, with any space around it) is refused from then on until it is issued again.
\<close>

theorem pairing_code_single_use:
  assumes "pairing_consume code s = (Inr owner, t)"
    and "py_upper (py_strip code') = py_upper (py_strip code)"
  shows "(\<exists>expiry. (py_upper (py_strip code), owner, expiry) \<in> set (pc_codes s) \<and> pc_time s < expiry)
     \<and> fst (pairing_consume code' (t\<lparr>pc_time := now\<rparr>)) = Inl (App Pairing_Code_Invalid)"
proof -
  have "obj_get (pc_codes (purge_codes (t\<lparr>pc_time := now\<rparr>))) (py_upper (py_strip code)) = None"
    using consume_Inr(2) [OF assms(1)]
    by (auto simp: purge_codes_def obj_get_map_of map_of_eq_None_iff image_iff)
  then show ?thesis using consume_Inr(1) [OF assms(1)] assms(2)
    by (auto simp: pairing_consume_def act_defs Let_def)
qed

theorem pairing_code_single_use_witness:
  "\<exists>t. pairing_consume '' ab-01'' \<lparr>pc_ttl = 600, pc_limit = 2, pc_codes = [(''AB-01'', ''me'', 600)],
        pc_time = 599\<rparr> = (Inr ''me'', t)
     \<and> fst (pairing_consume ''AB-01'' (t\<lparr>pc_time := 599\<rparr>)) = Inl (App Pairing_Code_Invalid)"
proof -
  let ?s = "\<lparr>pc_ttl = 600, pc_limit = 2, pc_codes = [(''AB-01'', ''me'', 600)], pc_time = 599\<rparr>"
  have n: "py_upper (py_strip '' ab-01'') = ''AB-01''" "py_upper (py_strip ''AB-01'') = ''AB-01''"
    by code_simp+
  then obtain t where "pairing_consume '' ab-01'' ?s = (Inr ''me'', t)"
    by (simp add: pairing_consume_def act_defs purge_codes_def Let_def)
  then show ?thesis
    using pairing_code_single_use [where code' = "''AB-01''" and now = 599] n by metis
qed

section \<open>The directory\<close>

text \<open>
  Every file is named by a device id, reads back, and holds the device of that id with a digest
  that can be compared: so the loops over the directory never raise.
\<close>

definition file_ok :: "string \<Rightarrow> (string \<times> json) list option \<Rightarrow> bool" where
  "file_ok k f \<longleftrightarrow>
     is_device_id k \<and>
     (case read_device_file f of Inl _ \<Rightarrow> False | Inr d \<Rightarrow> d_id d = k \<and> is_ascii (d_digest d))"

definition devices_ok :: "'a device_state_scheme \<Rightarrow> bool" where
  "devices_ok s \<longleftrightarrow> distinct (map fst (dv_files s)) \<and> (\<forall>(k, f)\<in>set (dv_files s). file_ok k f)"

definition device_at :: "'a device_state_scheme \<Rightarrow> string \<Rightarrow> device option" where
  "device_at s did =
     (case obj_get (dv_files s) did of
        None \<Rightarrow> None
      | Some f \<Rightarrow> (case read_device_file f of Inl _ \<Rightarrow> None | Inr d \<Rightarrow> Some d))"

lemma file_okD: "file_ok k f \<Longrightarrow> \<exists>d. read_device_file f = Inr d \<and> d_id d = k \<and> is_ascii (d_digest d) \<and> is_device_id k"
  by (cases "read_device_file f") (auto simp: file_ok_def)

lemma devices_okD:
  assumes "devices_ok s" and "obj_get (dv_files s) k = Some f"
  shows "\<exists>d. read_device_file f = Inr d \<and> d_id d = k \<and> is_ascii (d_digest d) \<and> is_device_id k"
proof -
  have "(k, f) \<in> set (dv_files s)" using assms(2) by (simp add: obj_get_map_of map_of_SomeD)
  then show ?thesis using assms(1) by (intro file_okD) (auto simp: devices_ok_def)
qed

lemma devices_ok_file:
  assumes "devices_ok s" and "(k, f) \<in> set (dv_files s)"
  shows "\<exists>d. read_device_file f = Inr d \<and> device_at s k = Some d \<and> d_id d = k \<and> is_ascii (d_digest d)"
proof -
  have "obj_get (dv_files s) k = Some f" using assms by (simp add: obj_get_map_of devices_ok_def)
  then show ?thesis using devices_okD [OF assms(1)] by (fastforce simp: device_at_def)
qed

lemma device_atD:
  "devices_ok s \<Longrightarrow> device_at s k = Some d \<Longrightarrow>
     d_id d = k \<and> is_ascii (d_digest d) \<and> is_device_id k \<and> device_ok d"
  by (auto simp: device_at_def read_device_file_def split: option.splits sum.splits
      dest: devices_okD device_from_ok)

lemma read_written: "device_ok d \<Longrightarrow> read_device_file (Some (device_to_dict d)) = Inr d"
  by (simp add: read_device_file_def device_roundtrip)

lemma set_obj_put: "(k', v') \<in> set (obj_put d k v) \<Longrightarrow> (k', v') = (k, v) \<or> (k', v') \<in> set d"
  by (induction d k v rule: obj_put.induct) (auto split: if_splits)

text \<open>What a write of a device leaves in the directory, whether or not it raises.\<close>

lemma write_device_files:
  "dv_files (snd (write_device did d s)) = dv_files s \<or>
   dv_files (snd (write_device did d s)) = obj_put (dv_files s) did (Some (device_to_dict d))"
  by (auto simp: write_device_def io_write_def split: list.splits io_outcome.splits)

lemma write_device_Inr:
  "write_device did d s = (Inr u, t) \<Longrightarrow>
     dv_files t = obj_put (dv_files s) did (Some (device_to_dict d)) \<and> dv_now t = dv_now s"
  by (auto simp: write_device_def io_write_def split: list.splits io_outcome.splits)

lemma devices_ok_put:
  assumes "devices_ok s" and "device_ok d" and "is_ascii (d_digest d)" and "is_device_id (d_id d)"
    and "dv_files t = obj_put (dv_files s) (d_id d) (Some (device_to_dict d))"
  shows "devices_ok t"
  using assms
  by (auto simp: devices_ok_def distinct_obj_put file_ok_def read_written dest!: set_obj_put)

lemma devices_ok_same: "dv_files t = dv_files s \<Longrightarrow> devices_ok t = devices_ok s"
  by (simp add: devices_ok_def)

lemma devices_ok_pop: "devices_ok s \<Longrightarrow> dv_files t = obj_pop (dv_files s) k \<Longrightarrow> devices_ok t"
  by (auto simp: devices_ok_def obj_pop_def intro: distinct_map_filter)

lemma write_device_keeps:
  "devices_ok s \<Longrightarrow> device_ok d \<Longrightarrow> is_ascii (d_digest d) \<Longrightarrow> is_device_id did \<Longrightarrow> d_id d = did \<Longrightarrow>
     devices_ok (snd (write_device did d s))"
  using write_device_files [of did d s] devices_ok_put devices_ok_same by metis

lemma device_at_put:
  "device_ok d \<Longrightarrow> dv_files t = obj_put (dv_files s) did (Some (device_to_dict d)) \<Longrightarrow>
     device_at t k = (if k = did then Some d else device_at s k)"
  by (simp add: device_at_def read_written)

text \<open>Reading never changes the state; what the reads return is \<open>device_at\<close>.\<close>

lemma owner_arg_eq:
  "owner_arg o' s = (case canonical_owner_id o' of None \<Rightarrow> (Inl Value_Error, s) | Some c \<Rightarrow> (Inr c, s))"
  by (simp add: owner_arg_def act_defs split: option.split)

lemma device_get_eq:
  "devices_ok s \<Longrightarrow> device_get did s =
     (case device_at s did of None \<Rightarrow> (Inl (App Device_Not_Found), s) | Some d \<Rightarrow> (Inr d, s))"
  by (auto simp: device_get_def act_defs act_lift_def device_at_def split: option.splits sum.splits
      dest: devices_okD)

lemma device_get_for_owner_eq:
  "devices_ok s \<Longrightarrow> device_get_for_owner did owner s =
     (case device_at s did of
        None \<Rightarrow> (Inl (App Device_Not_Found), s)
      | Some d \<Rightarrow>
          (case canonical_owner_id owner of
             None \<Rightarrow> (Inl Value_Error, s)
           | Some o' \<Rightarrow> if d_owner d = o' then (Inr d, s) else (Inl (App Device_Not_Found), s)))"
  by (simp add: device_get_for_owner_def act_defs device_get_eq owner_arg_eq split: option.split)

text \<open>The loops over a directory in which every file reads back.\<close>

lemma device_at_file:
  "devices_ok s \<Longrightarrow> device_at s k = Some d \<Longrightarrow> \<exists>f. (k, f) \<in> set (dv_files s) \<and> read_device_file f = Inr d"
  by (auto simp: device_at_def obj_get_map_of split: option.splits sum.splits dest!: map_of_SomeD)

lemma first_device_Inr:
  assumes "first_device test fs = Inr (Some d)"
  shows "(\<exists>x\<in>set fs. read_device_file (snd x) = Inr d) \<and> test d = Inr True"
  using assms by (induction fs) (auto simp: res_bind_def split: sum.splits if_splits)

lemma first_device_None:
  assumes "first_device test fs = Inr None" and "(k, f) \<in> set fs" and "read_device_file f = Inr d"
  shows "test d = Inr False"
  using assms by (induction fs) (auto simp: res_bind_def split: sum.splits if_splits)

lemma first_device_total:
  assumes "\<forall>(k, f)\<in>set fs. \<exists>d b. read_device_file f = Inr d \<and> test d = Inr b"
  shows "\<exists>r. first_device test fs = Inr r"
  using assms
proof (induction fs)
  case (Cons x fs)
  obtain k f where x: "x = (k, f)" by (cases x)
  obtain d b where "read_device_file f = Inr d" "test d = Inr b" using Cons.prems x by auto
  moreover obtain r where "first_device test fs = Inr r" using Cons by auto
  ultimately show ?case using x by simp
qed simp

lemma ascii_hexdigest [simp]: "is_ascii (hexdigest sha text)"
proof -
  have "\<forall>c\<in>set ''0123456789abcdef''. (of_char c :: nat) < 128" by simp
  then show ?thesis using set_hex_pad [of 64 "sha text"] by (auto simp: is_ascii_def list_all_iff hexdigest_def)
qed

definition holds_digest :: "string \<Rightarrow> device \<Rightarrow> bool" where
  "holds_digest digest d \<longleftrightarrow> d_digest d = digest"

lemma digest_test:
  "is_ascii (d_digest d) \<Longrightarrow> compare_digest (d_digest d) (hexdigest sha token) = Inr (holds_digest (hexdigest sha token) d)"
  by (simp add: compare_digest_def holds_digest_def)

lemma authenticate_Inr:
  assumes "devices_ok s" and "authenticate sha token s = (Inr d, t)"
  shows "t = s \<and> device_at s (d_id d) = Some d \<and> d_digest d = hexdigest sha token \<and> token \<noteq> []"
proof -
  have f: "first_device (\<lambda>d. compare_digest (d_digest d) (hexdigest sha token)) (dv_files s) = Inr (Some d)"
    "t = s" "token \<noteq> []"
    using assms(2) by (auto simp: authenticate_def act_defs act_lift_def token_digest_def
        split: if_splits sum.splits option.splits)
  obtain k g where k: "(k, g) \<in> set (dv_files s)" "read_device_file g = Inr d"
    "compare_digest (d_digest d) (hexdigest sha token) = Inr True"
    using first_device_Inr [OF f(1)] by (metis prod.collapse)
  then show ?thesis using devices_ok_file [OF assms(1) k(1)] f
    by (auto simp: compare_digest_def split: if_splits)
qed

lemma authenticate_known:
  assumes "devices_ok s" and "device_at s did = Some d" and "d_digest d = hexdigest sha token"
    and "is_ascii token" "token \<noteq> []" "length token \<le> 512"
  shows "\<exists>d'. authenticate sha token s = (Inr d', s)"
proof -
  let ?test = "\<lambda>d. compare_digest (d_digest d) (hexdigest sha token)"
  obtain f where f: "(did, f) \<in> set (dv_files s)" "read_device_file f = Inr d"
    using device_at_file [OF assms(1,2)] by blast
  have "\<exists>d b. read_device_file g = Inr d \<and> ?test d = Inr b" if "(k, g) \<in> set (dv_files s)" for k g
  proof -
    from devices_ok_file [OF assms(1) that]
    obtain e where "read_device_file g = Inr e" "is_ascii (d_digest e)" by blast
    then show ?thesis by (simp add: compare_digest_def)
  qed
  then have "\<forall>(k, f)\<in>set (dv_files s). \<exists>d b. read_device_file f = Inr d \<and> ?test d = Inr b" by blast
  then obtain r where r: "first_device ?test (dv_files s) = Inr r" using first_device_total [of "dv_files s" ?test] by blast
  have "?test d = Inr True" using assms(3) by (simp add: compare_digest_def)
  then have "r \<noteq> None" using first_device_None [OF _ f, of ?test] r by auto
  then show ?thesis using r assms(4-6)
    by (auto simp: authenticate_def act_defs act_lift_def token_digest_def split: option.splits)
qed

lemma authenticate_unknown:
  assumes "devices_ok s" and "\<And>k d. device_at s k = Some d \<Longrightarrow> d_digest d \<noteq> hexdigest sha token"
  shows "\<exists>e. authenticate sha token s = (Inl e, s)"
proof -
  obtain r t where a: "authenticate sha token s = (r, t)" by (cases "authenticate sha token s")
  have "\<And>d. r \<noteq> Inr d" using authenticate_Inr [OF assms(1)] assms(2) a by blast
  moreover have "t = s"
    using a by (auto simp: authenticate_def act_defs act_lift_def split: if_splits sum.splits option.splits)
  ultimately show ?thesis using a by (cases r) auto
qed

section \<open>Every operation keeps the directory readable\<close>

datatype device_op =
    Op_Create nat string string string string
  | Op_Pair nat string string string string
  | Op_Presence string presence
  | Op_Name string string string string
  | Op_Status string "(string \<times> json) list"
  | Op_Rename string string string "string option"
  | Op_Revoke string string
  | Op_Now string
  | Op_Faults "io_outcome list"

definition device_step ::
  "(string \<Rightarrow> nat) \<Rightarrow> 'a device_state_scheme \<Rightarrow> device_op \<Rightarrow> 'a device_state_scheme" where
  "device_step sha s x =
     (case x of
        Op_Create n token owner name fp \<Rightarrow> snd (device_create sha (hex_pad 32 n) token owner name fp s)
      | Op_Pair n token owner name fp \<Rightarrow> snd (pair_or_reuse sha (hex_pad 32 n) token owner name fp s)
      | Op_Presence did p \<Rightarrow> snd (update_presence did p s)
      | Op_Name did owner wid name \<Rightarrow> snd (set_workspace_display_name did owner wid name s)
      | Op_Status did st \<Rightarrow> snd (update_worker_status did st s)
      | Op_Rename did owner name expected \<Rightarrow> snd (device_rename did owner name expected s)
      | Op_Revoke did owner \<Rightarrow> snd (device_revoke did owner s)
      | Op_Now now \<Rightarrow> s\<lparr>dv_now := now\<rparr>
      | Op_Faults io \<Rightarrow> s\<lparr>st_io := io\<rparr>)"

lemma act_wp_snd: "act_wp m (\<lambda>_. P) (\<lambda>_. P) s \<Longrightarrow> P (snd (m s))"
  by (auto simp: act_wp_def split: prod.splits sum.splits)

lemma owner_arg_wp [wp_simps]:
  "act_wp (owner_arg owner) Q E s =
     (case canonical_owner_id owner of None \<Rightarrow> E Value_Error s | Some o' \<Rightarrow> Q o' s)"
  by (simp add: act_wp_def owner_arg_eq split: option.split)

lemma device_get_wp:
  "devices_ok s \<Longrightarrow> act_wp (device_get did) Q E s =
     (case device_at s did of None \<Rightarrow> E (App Device_Not_Found) s | Some d \<Rightarrow> Q d s)"
  by (simp add: act_wp_def device_get_eq split: option.split)

lemma device_get_for_owner_wp:
  "devices_ok s \<Longrightarrow> act_wp (device_get_for_owner did owner) Q E s =
     (case device_at s did of
        None \<Rightarrow> E (App Device_Not_Found) s
      | Some d \<Rightarrow>
          (case canonical_owner_id owner of
             None \<Rightarrow> E Value_Error s
           | Some o' \<Rightarrow> if d_owner d = o' then Q d s else E (App Device_Not_Found) s))"
  by (simp add: act_wp_def device_get_for_owner_eq split: option.split)

lemma write_device_wp:
  assumes "devices_ok s" "device_ok d" "is_ascii (d_digest d)" "is_device_id did" "d_id d = did"
  shows "act_wp (write_device did d) (\<lambda>_. devices_ok) (\<lambda>_. devices_ok) s"
  using write_device_keeps [OF assms] by (auto simp: act_wp_def split: prod.split sum.split)

lemma is_record_id_append [simp]: "is_record_id p (p @ h) \<longleftrightarrow> length h = 32 \<and> list_all hex_lower h"
  by (simp add: is_record_id_def)

lemma is_device_id_hex: "is_device_id (''dev_'' @ hex_pad 32 n)"
proof -
  have "\<forall>c\<in>set (hex_pad 32 n). hex_lower c" using set_hex_pad unfolding hex_lower_def by blast
  then show ?thesis by (simp only: is_device_id_def is_record_id_append length_hex_pad list_all_iff simp_thms)
qed

lemma create_wp:
  assumes "devices_ok s"
  shows "act_wp (device_create sha (hex_pad 32 n) token owner name fp) (\<lambda>_. devices_ok) (\<lambda>_. devices_ok) s"
proof -
  have "device_ok (new_device (dv_now s) did o' nm dg f)" if "canonical_owner_id owner = Some o'" for o' did nm dg f
    using canonical_owner_id_fixed [OF that] by (simp add: device_ok_def new_device_def)
  moreover have "is_device_id (d_id (new_device now (''dev_'' @ hex_pad 32 n) o' nm dg f))" for now o' nm dg f
    using is_device_id_hex [of n] by (simp add: new_device_def)
  moreover have "d_digest (new_device now did o' nm dg f) = dg" for now did o' nm dg f
    by (simp add: new_device_def)
  ultimately show ?thesis using assms
    by (auto simp: device_create_def wp_simps token_digest_def Let_def split: option.split
        intro!: write_device_wp)
qed

lemma find_by_fingerprint_Inr:
  assumes "devices_ok s" and "find_by_fingerprint owner fp s = (r, t)"
  shows "t = s" and "r = Inr (Some d) \<Longrightarrow> device_at s (d_id d) = Some d \<and> d_fingerprint d = py_strip fp
      \<and> canonical_owner_id owner = Some (d_owner d)"
proof -
  show "t = s" using assms(2)
    by (auto simp: find_by_fingerprint_def act_defs act_lift_def owner_arg_eq Let_def
        split: if_splits option.splits sum.splits)
  assume r: "r = Inr (Some d)"
  then obtain o' where o': "canonical_owner_id owner = Some o'"
    "first_device (\<lambda>d. Inr (d_owner d = o' \<and> d_fingerprint d = py_strip fp)) (dv_files s) = Inr (Some d)"
    using assms(2) by (auto simp: find_by_fingerprint_def act_defs act_lift_def owner_arg_eq Let_def
        split: if_splits option.splits sum.splits)
  from first_device_Inr [OF o'(2)] obtain x where "x \<in> set (dv_files s)" "read_device_file (snd x) = Inr d"
    "d_owner d = o' \<and> d_fingerprint d = py_strip fp" by auto
  moreover obtain k f where "x = (k, f)" by (cases x)
  ultimately have "(k, f) \<in> set (dv_files s)" "read_device_file f = Inr d"
    "d_owner d = o' \<and> d_fingerprint d = py_strip fp" by auto
  then show "device_at s (d_id d) = Some d \<and> d_fingerprint d = py_strip fp
      \<and> canonical_owner_id owner = Some (d_owner d)"
    using devices_ok_file [OF assms(1)] o'(1) by fastforce
qed

lemma reuse_wp:
  assumes "devices_ok s" and "device_at s (d_id d) = Some d"
  shows "act_wp (reuse_device sha token name d) (\<lambda>_. devices_ok) (\<lambda>_. devices_ok) s"
  using device_atD [OF assms] assms(1)
  by (auto simp: reuse_device_def wp_simps token_digest_def Let_def device_ok_def intro!: write_device_wp)

lemma pair_wp:
  assumes "devices_ok s"
  shows "act_wp (pair_or_reuse sha (hex_pad 32 n) token owner name fp) (\<lambda>_. devices_ok) (\<lambda>_. devices_ok) s"
proof -
  obtain r t where r: "find_by_fingerprint owner fp s = (r, t)" by (cases "find_by_fingerprint owner fp s")
  note f = find_by_fingerprint_Inr [OF assms r]
  have "act_wp (find_by_fingerprint owner fp)
     (\<lambda>a. act_wp (case a of None \<Rightarrow> device_create sha (hex_pad 32 n) token owner name fp
                  | Some d \<Rightarrow> reuse_device sha token name d) (\<lambda>_. devices_ok) (\<lambda>_. devices_ok))
     (\<lambda>_. devices_ok) s"
    unfolding act_wp_def [of "find_by_fingerprint owner fp"] r
    using f assms create_wp [OF assms] reuse_wp [OF assms] by (auto split: sum.split option.split)
  then show ?thesis by (simp add: pair_or_reuse_def wp_simps)
qed

lemma presence_ok: "device_ok d \<Longrightarrow> device_ok (with_presence now p d)"
  by (auto simp: device_ok_def with_presence_def split: option.split)

lemma update_presence_wp:
  "devices_ok s \<Longrightarrow> act_wp (update_presence did p) (\<lambda>_. devices_ok) (\<lambda>_. devices_ok) s"
  by (auto simp: update_presence_def wp_simps device_get_wp split: option.split
      intro!: write_device_wp presence_ok dest: device_atD) (auto simp: with_presence_def dest: device_atD)

lemma set_name_wp:
  "devices_ok s \<Longrightarrow> act_wp (set_workspace_display_name did owner wid name) (\<lambda>_. devices_ok) (\<lambda>_. devices_ok) s"
  by (auto simp: set_workspace_display_name_def wp_simps device_get_for_owner_wp Let_def device_ok_def
      split: option.split intro!: write_device_wp dest: device_atD)

lemma update_status_wp:
  "devices_ok s \<Longrightarrow> act_wp (update_worker_status did st) (\<lambda>_. devices_ok) (\<lambda>_. devices_ok) s"
  by (auto simp: update_worker_status_def wp_simps device_get_wp Let_def device_ok_def
      split: option.split intro!: write_device_wp dest: device_atD)

lemma rename_wp:
  "devices_ok s \<Longrightarrow> act_wp (device_rename did owner name expected) (\<lambda>_. devices_ok) (\<lambda>_. devices_ok) s"
  by (auto simp: device_rename_def wp_simps device_get_for_owner_wp Let_def device_ok_def
      split: option.split intro!: write_device_wp dest: device_atD)

lemma pop_device_wp:
  assumes "devices_ok s"
  shows "act_wp (io_write (\<lambda>s. s\<lparr>dv_files := obj_pop (dv_files s) did\<rparr>)) (\<lambda>_. devices_ok) (\<lambda>_. devices_ok) s"
  by (rule io_write_wp) (use assms in \<open>auto simp: devices_ok_def obj_pop_def intro: distinct_map_filter\<close>)

lemma revoke_wp:
  "devices_ok s \<Longrightarrow> act_wp (device_revoke did owner) (\<lambda>_. devices_ok) (\<lambda>_. devices_ok) s"
  by (simp add: device_revoke_def wp_simps device_get_for_owner_wp pop_device_wp split: option.split)

lemmas device_op_wps = create_wp pair_wp update_presence_wp set_name_wp update_status_wp rename_wp revoke_wp

lemma device_step_ok:
  assumes "devices_ok s"
  shows "devices_ok (device_step sha s x)"
proof (cases x)
  case (Op_Now now)
  then show ?thesis using assms by (simp add: device_step_def devices_ok_def)
next
  case (Op_Faults io)
  then show ?thesis using assms by (simp add: device_step_def devices_ok_def)
qed (simp_all add: device_step_def, (rule act_wp_snd [where P = devices_ok], rule device_op_wps, rule assms)+)

interpretation device_machine: machine_invariant "device_step sha" devices_ok for sha
  by unfold_locales (rule device_step_ok)

section \<open>Credentials\<close>

text \<open>
  Whatever was stored, renamed, paired, revoked or lost in a failed write, a token opens only
  a device whose file holds that token's digest, and the answer is the device as stored.
\<close>

theorem only_its_token:
  assumes "devices_ok s" and "authenticate sha token (foldl (device_step sha) s xs) = (Inr d, t)"
  shows "t = foldl (device_step sha) s xs \<and> device_at t (d_id d) = Some d \<and> d_digest d = hexdigest sha token"
  using authenticate_Inr [OF device_machine.run_keeps [OF assms(1)] assms(2)] by simp

lemma reuse_Inr:
  assumes "reuse_device sha token name d s = (Inr (d', tok), t)"
  shows "tok = token \<and> d' = d\<lparr>d_digest := hexdigest sha token,
            d_name := py_strip (if name = [] then d_name d else name), d_last_seen := dv_now s\<rparr>
       \<and> dv_files t = obj_put (dv_files s) (d_id d) (Some (device_to_dict d')) \<and> is_ascii token"
  using assms by (auto simp: reuse_device_def act_defs act_lift_def token_digest_def Let_def
      split: prod.splits sum.splits if_splits dest!: write_device_Inr)

text \<open>
  C13. Pairing a known machine again hands out new credentials for the same device: no file is
  added, the device keeps its id, owner and creation time, the new token opens a device (this one,
  unless another file holds the same digest), and a token with another digest no longer opens it.
\<close>

theorem repairing_rotates_token:
  assumes "devices_ok s" and "find_by_fingerprint owner fp s = (Inr (Some d), s)"
    and "pair_or_reuse sha hex token owner name fp s = (Inr (d', tok), t)"
    and "token \<noteq> []" "length token \<le> 512"
  shows "d_id d' = d_id d \<and> d_owner d' = d_owner d \<and> d_created_at d' = d_created_at d
     \<and> map fst (dv_files t) = map fst (dv_files s)
     \<and> (\<exists>e. authenticate sha tok t = (Inr e, t) \<and> d_digest e = d_digest d')
     \<and> (\<forall>old e u. hexdigest sha old \<noteq> hexdigest sha tok \<longrightarrow> authenticate sha old t = (Inr e, u) \<longrightarrow> d_id e \<noteq> d_id d)"
proof -
  have at: "device_at s (d_id d) = Some d" using find_by_fingerprint_Inr [OF assms(1,2)] by simp
  have r: "reuse_device sha token name d s = (Inr (d', tok), t)"
    using assms(2,3) by (simp add: pair_or_reuse_def act_bind_def)
  note u = reuse_Inr [OF r]
  have ok: "devices_ok t" using act_wp_snd [OF reuse_wp [OF assms(1) at, of sha token name]] r by simp
  have "device_ok d'" using u device_atD [OF assms(1) at] by (simp add: device_ok_def)
  moreover have "dv_files t = obj_put (dv_files s) (d_id d) (Some (device_to_dict d'))" using u by blast
  ultimately have at': "device_at t (d_id d) = Some d'" using device_at_put by metis
  have keys: "map fst (dv_files t) = map fst (dv_files s)"
  proof -
    have "map fst (obj_put fs k v) = map fst fs" if "obj_get fs k \<noteq> None" for fs k and v :: "(string \<times> json) list option"
      using that by (induction fs k v rule: obj_put.induct) auto
    moreover have "obj_get (dv_files s) (d_id d) \<noteq> None" using at by (auto simp: device_at_def split: option.splits)
    ultimately show ?thesis using u by simp
  qed
  have dig: "d_digest d' = hexdigest sha tok" using u by simp
  obtain e where e: "authenticate sha tok t = (Inr e, t)"
    using authenticate_known [OF ok at' dig] u assms(4,5) by blast
  moreover have "d_digest e = d_digest d'" using authenticate_Inr [OF ok e] dig by simp
  moreover have "d_id e' \<noteq> d_id d" if "hexdigest sha old \<noteq> hexdigest sha tok" "authenticate sha old t = (Inr e', v)" for old e' v
    using authenticate_Inr [OF ok that(2)] that(1) at' dig by auto
  ultimately show ?thesis using u keys by auto
qed

text \<open>A revoked device cannot be opened by any token.\<close>

theorem revoked_device_closed:
  assumes "devices_ok s" and "device_revoke did owner s = (Inr (), t)"
    and "authenticate sha token t = (Inr d, u)"
  shows "d_id d \<noteq> did"
proof -
  have ok: "devices_ok t" using act_wp_snd [OF revoke_wp [OF assms(1), of did owner]] assms(2) by simp
  have "dv_files t = obj_pop (dv_files s) did"
    using assms(2) by (auto simp: device_revoke_def act_defs device_get_for_owner_eq [OF assms(1)] io_write_def
        split: option.splits if_splits list.splits io_outcome.splits)
  then have "device_at t did = None" by (simp add: device_at_def)
  then show ?thesis using authenticate_Inr [OF ok assms(3)] by auto
qed

text \<open>
  A user cannot touch the device of another: naming it, naming its workspaces and removing it
  all answer that there is no such device, and nothing changes.
\<close>

theorem foreign_device_untouched:
  assumes "devices_ok s" and "device_at s did = Some d" and "canonical_owner_id owner = Some o'"
    and "d_owner d \<noteq> o'"
  shows "device_revoke did owner s = (Inl (App Device_Not_Found), s)
     \<and> set_workspace_display_name did owner wid name s = (Inl (App Device_Not_Found), s)
     \<and> snd (device_rename did owner name expected s) = s
     \<and> fst (device_rename did owner name expected s) \<in> {Inl (App Device_Not_Found), Inl Value_Error}"
  using assms(2-4) by (simp add: device_revoke_def set_workspace_display_name_def device_rename_def act_defs
      device_get_for_owner_eq [OF assms(1)] Let_def)

section \<open>Names\<close>

lemma known_workspace_id: "known_workspace wss wid = Some w \<Longrightarrow> ws_id w = wid \<and> w \<in> set wss"
proof -
  assume a: "known_workspace wss wid = Some w"
  have "find P xs = Some w \<Longrightarrow> P w \<and> w \<in> set xs" for P and xs :: "worker_workspace list"
    by (induction xs) (auto split: if_splits)
  from this [OF a [unfolded known_workspace_def]] show ?thesis by simp
qed

lemma update_presence_Inr:
  assumes "devices_ok s" and "update_presence did p s = (Inr d', t)"
  shows "\<exists>d. device_at s did = Some d \<and> d' = with_presence (dv_now s) p d \<and> device_at t did = Some d'
     \<and> length (pr_workspaces p) \<le> 100 \<and> distinct (map ws_id (pr_workspaces p))"
proof -
  obtain d where d: "device_at s did = Some d" "d' = with_presence (dv_now s) p d"
    "length (pr_workspaces p) \<le> 100" "distinct (map ws_id (pr_workspaces p))"
    "dv_files t = obj_put (dv_files s) did (Some (device_to_dict d'))"
    using assms(2) by (auto simp: update_presence_def act_defs device_get_eq [OF assms(1)]
        split: if_splits option.splits prod.splits sum.splits dest!: write_device_Inr)
  moreover have "device_ok d'" using d device_atD [OF assms(1) d(1)] presence_ok by simp
  ultimately show ?thesis using device_at_put [of d' t s did did] by auto
qed

text \<open>
  A Worker that reports its workspaces cannot undo a name the user chose: a workspace the user
  named keeps that name and its version, under whatever name the Worker reports it.
\<close>

theorem chosen_name_survives_presence:
  assumes "devices_ok s" and "device_at s did = Some d"
    and "known_workspace (d_workspaces d) wid = Some w" and "ws_source w = ''user''"
    and "update_presence did p s = (Inr d', t)" and "v \<in> set (pr_workspaces p)" and "ws_id v = wid"
  shows "\<exists>w'. known_workspace (d_workspaces d') wid = Some w' \<and> ws_name w' = ws_name w
     \<and> ws_named_at w' = ws_named_at w \<and> ws_source w' = ''user''"
proof -
  have d': "d' = with_presence (dv_now s) p d" "distinct (map ws_id (pr_workspaces p))"
    using update_presence_Inr [OF assms(1,5)] assms(2) by auto
  let ?m = "merge_workspace (dv_now s) (d_workspaces d)"
  have id: "ws_id (?m x) = ws_id x" for x by (simp add: merge_workspace_def split: option.split)
  have m: "d_workspaces d' = map ?m (pr_workspaces p)" by (simp add: d'(1) with_presence_def)
  have "find (\<lambda>x. ws_id x = wid) (rev (map ?m (pr_workspaces p))) \<noteq> None"
    using assms(6,7) by (auto simp: find_None_iff id)
  then obtain w' where w': "known_workspace (d_workspaces d') wid = Some w'"
    unfolding known_workspace_def m by blast
  then have "w' \<in> ?m ` set (pr_workspaces p)" "ws_id w' = wid"
    using known_workspace_id [OF w'] m by simp_all
  then obtain x where "w' = ?m x" "ws_id x = wid" using id by fastforce
  then show ?thesis using w' assms(3,4) by (auto simp: merge_workspace_def)
qed

text \<open>
  Two clients that rename a device from the same version: the second is refused, once the
  clock has moved past the version the first wrote.
\<close>

theorem second_rename_conflicts:
  assumes "devices_ok s" and "device_rename did owner name (Some v) s = (Inr d, t)"
    and "v \<noteq> []" and "dv_now s \<noteq> v" and "py_strip name' \<noteq> []" "length (py_strip name') \<le> 200"
  shows "device_rename did owner name' (Some v) t = (Inl (App Rename_Conflict), t)"
proof -
  obtain e where e: "device_at s did = Some e" "canonical_owner_id owner = Some (d_owner e)"
    "d = e\<lparr>d_name := py_strip name, d_source := ''user'', d_named_at := dv_now s\<rparr>"
    "dv_files t = obj_put (dv_files s) did (Some (device_to_dict d))"
    using assms(2) by (auto simp: device_rename_def act_defs device_get_for_owner_eq [OF assms(1)] Let_def
        split: if_splits option.splits prod.splits sum.splits dest!: write_device_Inr)
  have "device_ok d" using e device_atD [OF assms(1) e(1)] by (simp add: device_ok_def)
  then have "device_at t did = Some d" using device_at_put [OF _ e(4)] by simp
  moreover have "devices_ok t"
    using act_wp_snd [OF rename_wp [OF assms(1), of did owner name "Some v"]] assms(2) by simp
  ultimately show ?thesis using e(2,3) assms(3-6)
    by (simp add: device_rename_def act_defs device_get_for_owner_eq)
qed

text \<open>
  Pairing a machine again replaces its name but not the version of its name: a rename that was
  prepared before is still accepted.
\<close>

lemma repairing_keeps_name_version:
  assumes "reuse_device sha token name d s = (Inr (d', tok), t)" and "name \<noteq> []"
  shows "d_name d' = py_strip name \<and> d_named_at d' = d_named_at d \<and> d_source d' = d_source d"
  using reuse_Inr [OF assms(1)] assms(2) by simp

text \<open>
  C10. The search and the write of \<open>pair_or_reuse\<close> are two critical sections: a device revoked
  between them is back, and the new token opens a device.
\<close>

theorem revoked_device_returns:
  assumes "devices_ok s" and "find_by_fingerprint owner fp s = (Inr (Some d), s)"
    and "device_revoke (d_id d) owner s = (Inr (), t)"
    and "reuse_device sha token name d t = (Inr (d', tok), u)" and "token \<noteq> []" "length token \<le> 512"
  shows "device_at t (d_id d) = None \<and> device_at u (d_id d) = Some d' \<and> (\<exists>e. authenticate sha tok u = (Inr e, u))"
proof -
  have at: "device_at s (d_id d) = Some d" using find_by_fingerprint_Inr [OF assms(1,2)] by simp
  have ok: "devices_ok t" using act_wp_snd [OF revoke_wp [OF assms(1), of "d_id d" owner]] assms(3) by simp
  have "dv_files t = obj_pop (dv_files s) (d_id d)"
    using assms(3) by (auto simp: device_revoke_def act_defs device_get_for_owner_eq [OF assms(1)] io_write_def
        split: option.splits if_splits list.splits io_outcome.splits)
  then have gone: "device_at t (d_id d) = None" by (simp add: device_at_def)
  note r = reuse_Inr [OF assms(4)]
  have d': "device_ok d'" "d_id d' = d_id d" "is_ascii (d_digest d')" "is_device_id (d_id d)"
    using r device_atD [OF assms(1) at] by (auto simp: device_ok_def)
  have f: "dv_files u = obj_put (dv_files t) (d_id d) (Some (device_to_dict d'))" using r by blast
  have u: "device_at u (d_id d) = Some d'" using device_at_put [OF d'(1) f] by simp
  have "devices_ok u" using devices_ok_put [OF ok d'(1,3)] d' f by simp
  then have "\<exists>e. authenticate sha tok u = (Inr e, u)"
    using r assms(5,6) by (intro authenticate_known [OF _ u]) auto
  then show ?thesis using gone u by simp
qed

text \<open>One file that cannot be read stops the search: every device listed after it is locked out.\<close>

lemma unreadable_file_locks_out:
  assumes "dv_files s = xs @ (k, None) # ys" and "\<forall>(k, f)\<in>set xs. file_ok k f"
    and "\<forall>(k, f)\<in>set xs. \<forall>d. read_device_file f = Inr d \<longrightarrow> d_digest d \<noteq> hexdigest sha token"
    and "is_ascii token" "token \<noteq> []" "length token \<le> 512"
  shows "authenticate sha token s = (Inl Json_File_Corrupted, s)"
proof -
  have "first_device (\<lambda>d. compare_digest (d_digest d) (hexdigest sha token)) (xs @ (k, None) # ys)
      = Inl Json_File_Corrupted"
    using assms(2,3)
  proof (induction xs)
    case Nil
    then show ?case by (simp add: read_device_file_def)
  next
    case (Cons x xs)
    obtain j f where x: "x = (j, f)" by (cases x)
    then obtain d where "read_device_file f = Inr d" "is_ascii (d_digest d)"
      using Cons.prems(1) file_okD by fastforce
    then show ?case using Cons x by (auto simp: compare_digest_def)
  qed
  then show ?thesis using assms(1,4-6)
    by (simp add: authenticate_def act_defs act_lift_def token_digest_def)
qed

section \<open>The properties on a directory with one device\<close>

definition sample_device_id :: string where
  "sample_device_id = ''dev_'' @ hex_pad 32 7"

definition sample_device :: device where
  "sample_device =
     (new_device ''t0'' sample_device_id sample_owner ''Laptop'' (hexdigest length ''a'') ''fp'')
       \<lparr>d_workspaces := [\<lparr>ws_id = ''w'', ws_name = ''Mine'', ws_is_git = True, ws_source = ''user'', ws_named_at = ''t0''\<rparr>]\<rparr>"

definition sample_devices :: device_state where
  "sample_devices =
     event_state.extend (fresh_stream 4)
       (device_state.fields [(sample_device_id, Some (device_to_dict sample_device))] ''t1'')"

lemma sample_devices_simps [simp]:
  "dv_files sample_devices = [(sample_device_id, Some (device_to_dict sample_device))]"
  "dv_now sample_devices = ''t1''" "st_io sample_devices = []"
  by (simp_all add: sample_devices_def event_state.defs device_state.defs fresh_stream_def sample_store_def
      store_state.defs journal_state.defs)

lemma sample_device_ok:
  "device_ok sample_device" "d_id sample_device = sample_device_id" "d_digest sample_device = hexdigest length ''a''"
  "d_owner sample_device = sample_owner" "d_fingerprint sample_device = ''fp''" "d_named_at sample_device = ''t0''"
  "d_workspaces sample_device =
     [\<lparr>ws_id = ''w'', ws_name = ''Mine'', ws_is_git = True, ws_source = ''user'', ws_named_at = ''t0''\<rparr>]"
  by (simp_all add: sample_device_def device_ok_def new_device_def)

lemma sample_device_at: "device_at sample_devices k = (if k = sample_device_id then Some sample_device else None)"
  by (simp add: device_at_def read_written sample_device_ok)

lemma sample_devices_ok: "devices_ok sample_devices"
  by (simp add: devices_ok_def file_ok_def read_written sample_device_ok is_device_id_hex sample_device_id_def
      del: append.simps)

lemma sample_found: "find_by_fingerprint sample_owner ''fp'' sample_devices = (Inr (Some sample_device), sample_devices)"
proof -
  have "py_strip ''fp'' = ''fp''" by code_simp
  then show ?thesis
    by (simp add: find_by_fingerprint_def act_defs act_lift_def owner_arg_eq read_written sample_device_ok)
qed

lemma sample_device_write:
  "write_device did d sample_devices =
     (Inr (), sample_devices\<lparr>dv_files := obj_put (dv_files sample_devices) did (Some (device_to_dict d))\<rparr>)"
  by (simp add: write_device_def io_write_def)

theorem only_its_token_witness:
  "\<exists>d t. authenticate length ''a'' (foldl (device_step length) sample_devices [Op_Now ''t2'']) = (Inr d, t)
     \<and> device_at t (d_id d) = Some d \<and> d_digest d = hexdigest length ''a''"
proof -
  let ?s = "foldl (device_step length) sample_devices [Op_Now ''t2'']"
  have "device_at ?s sample_device_id = Some sample_device"
    by (simp add: device_step_def device_at_def read_written sample_device_ok)
  moreover have "devices_ok ?s" by (rule device_machine.run_keeps [OF sample_devices_ok])
  ultimately obtain d where "authenticate length ''a'' ?s = (Inr d, ?s)"
    using authenticate_known [of ?s sample_device_id sample_device length "''a''"]
    by (auto simp: sample_device_ok is_ascii_def)
  then show ?thesis using only_its_token [OF sample_devices_ok] by metis
qed

theorem repairing_rotates_token_witness:
  "\<exists>d' t e. pair_or_reuse length ''0'' ''bb'' sample_owner ''Desk'' ''fp'' sample_devices = (Inr (d', ''bb''), t)
     \<and> d_id d' = sample_device_id \<and> authenticate length ''bb'' t = (Inr e, t)
     \<and> (\<forall>e u. authenticate length ''a'' t = (Inr e, u) \<longrightarrow> d_id e \<noteq> sample_device_id)"
proof -
  have "\<exists>d' t. reuse_device length ''bb'' ''Desk'' sample_device sample_devices = (Inr (d', ''bb''), t)"
    by (simp add: reuse_device_def act_defs act_lift_def token_digest_def is_ascii_def sample_device_write Let_def)
  then obtain d' t where p: "pair_or_reuse length ''0'' ''bb'' sample_owner ''Desk'' ''fp'' sample_devices = (Inr (d', ''bb''), t)"
    by (auto simp: pair_or_reuse_def act_bind_def sample_found)
  have h: "hex_digits 0 (hex_pad 64 1) = Some 1" "hex_digits 0 (hex_pad 64 2) = Some 2"
    by (rule hex_digits_pad; simp)+
  have "hex_digits 0 (hex_pad 64 1) \<noteq> hex_digits 0 (hex_pad 64 2)" unfolding h by simp
  then have "hex_pad 64 (1::nat) \<noteq> hex_pad 64 2" by metis
  moreover have "length ''a'' = 1" "length ''bb'' = 2" by simp_all
  ultimately have "hexdigest length ''a'' \<noteq> hexdigest length ''bb''" unfolding hexdigest_def by metis
  then show ?thesis
    using repairing_rotates_token [OF sample_devices_ok sample_found p] p by (auto simp: sample_device_ok)
qed

theorem chosen_name_survives_presence_witness:
  "\<exists>d' t w'. update_presence sample_device_id
        \<lparr>pr_model = [], pr_model_provider = [], pr_model_configured = False, pr_version = [], pr_protocol = 1,
         pr_platform = [], pr_architecture = [], pr_capabilities = [], pr_workspaces = [new_workspace ''w'' ''Other'' True],
         pr_backend = None, pr_model_caps = None, pr_update_status = None\<rparr> sample_devices = (Inr d', t)
     \<and> known_workspace (d_workspaces d') ''w'' = Some w' \<and> ws_name w' = ''Mine''"
proof -
  let ?p = "\<lparr>pr_model = [], pr_model_provider = [], pr_model_configured = False, pr_version = [], pr_protocol = 1,
         pr_platform = [], pr_architecture = [], pr_capabilities = [], pr_workspaces = [new_workspace ''w'' ''Other'' True],
         pr_backend = None, pr_model_caps = None, pr_update_status = None\<rparr>"
  obtain d' t where u: "update_presence sample_device_id ?p sample_devices = (Inr d', t)"
    by (simp add: update_presence_def act_defs device_get_eq [OF sample_devices_ok] sample_device_at sample_device_write)
  have "known_workspace (d_workspaces sample_device) ''w'' = Some (hd (d_workspaces sample_device))"
    by (simp add: known_workspace_def sample_device_ok)
  then show ?thesis
    using chosen_name_survives_presence [OF sample_devices_ok _ _ _ u, of sample_device "''w''"
        "hd (d_workspaces sample_device)" "new_workspace ''w'' ''Other'' True"] u
    by (auto simp: sample_device_at sample_device_ok new_workspace_def)
qed

end
