(* ===== verification/Session_Store.thy ===== *)
theory Session_Store
  imports Device_Store
begin

text \<open>
  The session files (\<open>SessionStore\<close> of \<open>pico/session_store.py\<close>): one JSON file per session, with
  its modification time.  A file that exists and cannot be read as an object is \<open>None\<close>.  Writes go
  through \<open>io_write\<close>; a new modification time is the current time.
\<close>

section \<open>Operations\<close>

record session_state = device_state +
  ss_files :: "(string \<times> nat \<times> (string \<times> json) list option) list"

definition session_save :: "(string \<times> json) list \<Rightarrow> ('a session_state_scheme, exn, unit) act" where
  "session_save session =
     act_bind (act_lift (get_item session ''id'')) (\<lambda>sid.
       io_write (\<lambda>s. s\<lparr>ss_files := obj_put (ss_files s) (py_str sid) (nat (st_clock s), Some session)\<rparr>))"

definition session_exists :: "string \<Rightarrow> 'a session_state_scheme \<Rightarrow> bool" where
  "session_exists sid s \<longleftrightarrow> obj_get (ss_files s) sid \<noteq> None"

definition session_load :: "string \<Rightarrow> ('a session_state_scheme, exn, (string \<times> json) list) act" where
  "session_load sid =
     act_bind (act_get (\<lambda>s. obj_get (ss_files s) sid)) (\<lambda>f.
       case f of
         None \<Rightarrow> act_raise Session_Missing
       | Some (_, None) \<Rightarrow> act_raise Session_Unreadable
       | Some (_, Some d) \<Rightarrow> act_ret d)"

definition session_delete :: "string \<Rightarrow> ('a session_state_scheme, exn, unit) act" where
  "session_delete sid =
     (if \<not> is_record_id ''ses_'' sid then act_raise Session_Missing
      else act_bind (act_get (session_exists sid)) (\<lambda>there.
             if \<not> there then act_raise Session_Missing
             else io_write (\<lambda>s. s\<lparr>ss_files := obj_pop (ss_files s) sid\<rparr>)))"

text \<open>Newest first, as texts are ordered, the larger id first among equals.\<close>

definition session_list_ids :: "'a session_state_scheme \<Rightarrow> string list" where
  "session_list_ids s =
     map snd (rev (sort_key id (map (\<lambda>(k, t, _). (nat_str t, k)) (ss_files s))))"

definition session_latest :: "'a session_state_scheme \<Rightarrow> string option" where
  "session_latest s =
     (case ss_files s of
        [] \<Rightarrow> None
      | _ \<Rightarrow> Some (fst (last (sort_key (\<lambda>(_, t, _). t) (ss_files s)))))"

section \<open>What is saved is loaded\<close>

lemma io_write_Inr: "io_write f s = (Inr u, t) \<Longrightarrow> \<exists>r. t = f (s\<lparr>st_io := r\<rparr>)"
  by (auto simp: io_write_def split: list.splits io_outcome.splits)
    (metis old.unit.exhaust store_state.surjective store_state.update_convs(7))

text \<open>A session that was saved is loaded as it was saved, and the others as before.\<close>

theorem session_roundtrip:
  assumes "session_save session s = (Inr (), t)" and "obj_get session ''id'' = Some (JStr sid)"
  shows "session_load sid t = (Inr session, t) \<and>
     (\<forall>other. other \<noteq> sid \<longrightarrow> fst (session_load other t) = fst (session_load other s))"
proof -
  have "session_save session s =
      io_write (\<lambda>s. s\<lparr>ss_files := obj_put (ss_files s) sid (nat (st_clock s), Some session)\<rparr>) s"
    using assms(2) by (simp add: session_save_def get_item_def act_lift_def)
  from io_write_Inr [OF trans [OF this [symmetric] assms(1)]]
  obtain r where t: "t = s\<lparr>st_io := r, ss_files := obj_put (ss_files s) sid (nat (st_clock s), Some session)\<rparr>"
    by auto
  show ?thesis by (auto simp: t session_load_def act_defs split: option.split prod.split)
qed

text \<open>A session that was deleted is not found; an id that is not one of the service's is never deleted.\<close>

lemma deleted_session_missing:
  "session_delete sid s = (Inr (), t) \<Longrightarrow> session_load sid t = (Inl Session_Missing, t) \<and> is_record_id ''ses_'' sid"
  by (auto simp: session_delete_def session_load_def act_defs dest!: io_write_Inr split: if_splits)

end
