(* ===== verification/Worker_Payloads.thy ===== *)
theory Worker_Payloads
  imports Device_Store
begin

text \<open>
  What the control plane accepts from a Worker: the parsers and the sanitisers at the end of
  \<open>infrastructure/worker_hub.py\<close>.

  A message is the object \<open>json.loads\<close> returned.  \<open>env\<close> is the process environment the redaction
  reads; \<open>num\<close> is \<open>max(0.0, float(text))\<close> for a text, \<open>None\<close> where \<open>float\<close> raises.  A rejected
  message is \<open>WorkerProtocolError\<close>; what the code does not catch stays the exception it is.
\<close>

section \<open>Patterns and conversions\<close>

abbreviation protocol_error :: "exn + 'a" where
  "protocol_error \<equiv> Inl (App Worker_Protocol_Error)"

definition in_range :: "nat \<Rightarrow> nat \<Rightarrow> char \<Rightarrow> bool" where
  "in_range lo hi c \<longleftrightarrow> lo \<le> (of_char c :: nat) \<and> (of_char c :: nat) \<le> hi"

definition re_digit :: "char \<Rightarrow> bool" where
  "re_digit c \<longleftrightarrow> in_range 48 57 c"

definition re_lower :: "char \<Rightarrow> bool" where
  "re_lower c \<longleftrightarrow> in_range 97 122 c"

definition re_upper :: "char \<Rightarrow> bool" where
  "re_upper c \<longleftrightarrow> in_range 65 90 c"

text \<open>\<open>[a-z0-9_.-]\<close> and \<open>[A-Za-z0-9_.-]\<close>.\<close>

definition re_code_char :: "char \<Rightarrow> bool" where
  "re_code_char c \<longleftrightarrow> re_lower c \<or> re_digit c \<or> c \<in> set ''_.-''"

definition re_key_char :: "char \<Rightarrow> bool" where
  "re_key_char c \<longleftrightarrow> re_code_char c \<or> re_upper c"

text \<open>\<open>_CAPABILITY\<close> and \<open>_PUBLIC_EVENT_TYPE\<close>: \<open>^[a-z][a-z0-9_.-]{0,63}$\<close>.\<close>

definition is_code :: "string \<Rightarrow> bool" where
  "is_code s \<longleftrightarrow> s \<noteq> [] \<and> length s \<le> 64 \<and> re_lower (hd s) \<and> list_all re_code_char (tl s)"

definition is_workspace_id :: "string \<Rightarrow> bool" where
  "is_workspace_id s \<longleftrightarrow> is_record_id ''ws_'' s"

definition is_session_id :: "string \<Rightarrow> bool" where
  "is_session_id s \<longleftrightarrow> is_record_id ''ses_'' s"

text \<open>\<open>[0-9]+\.[0-9]+\.[0-9]+(?:[-+][A-Za-z0-9.-]+)?\<close>, one number at a time.\<close>

definition skip_number :: "string \<Rightarrow> string option" where
  "skip_number s = (if s \<noteq> [] \<and> re_digit (hd s) then Some (dropWhile re_digit s) else None)"

definition skip_char :: "char \<Rightarrow> string \<Rightarrow> string option" where
  "skip_char c s = (if s \<noteq> [] \<and> hd s = c then Some (tl s) else None)"

definition version_tail :: "string \<Rightarrow> bool" where
  "version_tail s \<longleftrightarrow>
     s = [] \<or>
     hd s \<in> set ''-+'' \<and> tl s \<noteq> [] \<and>
       list_all (\<lambda>c. re_lower c \<or> re_upper c \<or> re_digit c \<or> c \<in> set ''.-'') (tl s)"

definition is_version :: "string \<Rightarrow> bool" where
  "is_version s =
     (case Option.bind (skip_number s) (skip_char (CHR ''.'')) of
        None \<Rightarrow> False
      | Some r \<Rightarrow>
          (case Option.bind (skip_number r) (skip_char (CHR ''.'')) of
             None \<Rightarrow> False
           | Some q \<Rightarrow> (case skip_number q of None \<Rightarrow> False | Some t \<Rightarrow> version_tail t)))"

text \<open>\<open>isinstance(value, int)\<close>, true of a boolean too; and without the booleans.\<close>

definition int_like :: "json \<Rightarrow> int option" where
  "int_like v = (case v of JInt i \<Rightarrow> Some i | JBool b \<Rightarrow> Some (if b then 1 else 0) | _ \<Rightarrow> None)"

definition proper_int :: "json \<Rightarrow> int option" where
  "proper_int v = (case v of JInt i \<Rightarrow> Some i | _ \<Rightarrow> None)"

text \<open>\<open>str(data.get(key, ""))[:n]\<close>.\<close>

definition cut :: "nat \<Rightarrow> (string \<times> json) list \<Rightarrow> string \<Rightarrow> string" where
  "cut n d k = take n (get_str d k [])"

definition nonnegative_int :: "json \<Rightarrow> int" where
  "nonnegative_int v = (case py_int v of Inl _ \<Rightarrow> 0 | Inr i \<Rightarrow> max 0 i)"

definition nonnegative_float :: "(string \<Rightarrow> json option) \<Rightarrow> json \<Rightarrow> json" where
  "nonnegative_float num v =
     (case v of
        JInt i \<Rightarrow> JInt (max 0 i)
      | JBool b \<Rightarrow> JInt (if b then 1 else 0)
      | JStr s \<Rightarrow> (case num s of None \<Rightarrow> JInt 0 | Some x \<Rightarrow> x)
      | _ \<Rightarrow> JInt 0)"

definition count_of :: "(string \<times> json) list \<Rightarrow> string \<Rightarrow> int \<Rightarrow> json" where
  "count_of d k v = JInt (nonnegative_int (get_default d k (JInt v)))"

definition at_least_one :: "(string \<times> json) list \<Rightarrow> string \<Rightarrow> json" where
  "at_least_one d k = JInt (max 1 (nonnegative_int (get_default d k (JInt 1))))"

definition seconds_of :: "(string \<Rightarrow> json option) \<Rightarrow> (string \<times> json) list \<Rightarrow> string \<Rightarrow> json" where
  "seconds_of num d k = nonnegative_float num (get_default d k (JInt 0))"

definition flag_of :: "(string \<times> json) list \<Rightarrow> string \<Rightarrow> bool \<Rightarrow> json" where
  "flag_of d k b = JBool (truthy (get_default d k (JBool b)))"

text \<open>\<open>text.split(c)\<close>.\<close>

fun py_split :: "char \<Rightarrow> string \<Rightarrow> string list" where
  "py_split c [] = [[]]"
| "py_split c (x # xs) =
     (if x = c then [] # py_split c xs
      else (case py_split c xs of [] \<Rightarrow> [[x]] | w # ws \<Rightarrow> (x # w) # ws))"

text \<open>\<open>_safe_relative_path\<close>: the drive is looked for in the first part only.\<close>

definition safe_relative_path :: "json \<Rightarrow> string option" where
  "safe_relative_path v =
     (let text = py_replace [CHR 0x5C] ''/'' (py_str v) in
      if text = [] \<or> 500 < length text \<or> starts_with ''/'' text \<or> starts_with ''~/'' text then None
      else let parts = filter (\<lambda>p. p \<noteq> [] \<and> p \<noteq> ''.'') (py_split (CHR ''/'') text)
           in if CHR '':'' \<in> set (hd (py_split (CHR ''/'') text)) \<or> ''..'' \<in> set parts then None
              else Some (py_join ''/'' parts))"

text \<open>\<open>str(value or default)\<close>, and the default for a text that is not a code.\<close>

definition safe_error_code :: "json \<Rightarrow> string \<Rightarrow> string" where
  "safe_error_code v fallback =
     (let text = (if truthy v then py_str v else fallback) in if is_code text then text else fallback)"

section \<open>The hello message\<close>

fun parse_workspace_items :: "json list \<Rightarrow> exn + worker_workspace list" where
  "parse_workspace_items [] = Inr []"
| "parse_workspace_items (v # vs) =
     (case v of
        JObj item \<Rightarrow>
          (let wid = get_str item ''workspace_id'' [];
               name = py_strip (get_str item ''name'' [])
           in if \<not> is_workspace_id wid \<or> name = [] \<or> 200 < length name then protocol_error
              else res_bind (parse_workspace_items vs)
                     (\<lambda>ws. Inr (new_workspace wid name (get_bool item ''is_git'') # ws)))
      | _ \<Rightarrow> protocol_error)"

definition parse_workspaces :: "json \<Rightarrow> exn + worker_workspace list" where
  "parse_workspaces raw =
     (case raw of
        JList items \<Rightarrow>
          res_bind (parse_workspace_items items) (\<lambda>ws.
            if 100 < length ws \<or> \<not> distinct (map ws_id ws) then protocol_error else Inr ws)
      | _ \<Rightarrow> protocol_error)"

definition add_new :: "'a \<Rightarrow> 'a list \<Rightarrow> 'a list" where
  "add_new x xs = (if x \<in> set xs then xs else xs @ [x])"

fun parse_capability_items :: "string list \<Rightarrow> json list \<Rightarrow> exn + string list" where
  "parse_capability_items acc [] = Inr acc"
| "parse_capability_items acc (v # vs) =
     (if is_code (py_str v) then parse_capability_items (add_new (py_str v) acc) vs else protocol_error)"

definition parse_capabilities :: "json \<Rightarrow> exn + string list" where
  "parse_capabilities raw =
     (case raw of
        JList items \<Rightarrow> if 20 < length items then protocol_error else parse_capability_items [] items
      | _ \<Rightarrow> protocol_error)"

definition UPDATE_STATUSES :: "string set" where
  "UPDATE_STATUSES = {'''', ''checking'', ''downloading'', ''retrying'', ''installing'', ''current'',
     ''failed'', ''auth_failed'', ''unsupported''}"

text \<open>\<open>int(raw.get(key, 0))\<close> with \<open>TypeError\<close> and \<open>ValueError\<close> turned into a protocol error.\<close>

definition progress_int :: "(string \<times> json) list \<Rightarrow> string \<Rightarrow> exn + int" where
  "progress_int d k = (case get_int d k 0 of Inl _ \<Rightarrow> protocol_error | Inr i \<Rightarrow> Inr i)"

definition parse_update_status :: "json \<Rightarrow> exn + (string \<times> json) list" where
  "parse_update_status raw =
     (if raw = JNull \<or> raw = JStr [] then Inr []
      else case raw of
        JObj d \<Rightarrow>
          (if get_str d ''status'' [] \<notin> UPDATE_STATUSES then protocol_error
           else res_bind (progress_int d ''downloaded_bytes'') (\<lambda>got.
                res_bind (progress_int d ''total_bytes'') (\<lambda>size.
                res_bind (progress_int d ''bytes_per_second'') (\<lambda>speed.
                res_bind (progress_int d ''retry_count'') (\<lambda>retries.
                  if got < 0 \<or> size < 0 \<or> 128 * 1024 * 1024 < got \<or> 128 * 1024 * 1024 < size \<or>
                     speed < 0 \<or> 1024 * 1024 * 1024 < speed \<or> retries < 0 \<or> 100 < retries \<or>
                     size \<noteq> 0 \<and> size < got then protocol_error
                  else Inr
                    [(''status'', JStr (get_str d ''status'' [])),
                     (''current_version'', JStr (cut 32 d ''current_version'')),
                     (''target_version'', JStr (cut 32 d ''target_version'')),
                     (''downloaded_bytes'', JInt got), (''total_bytes'', JInt size),
                     (''bytes_per_second'', JInt speed), (''retry_count'', JInt retries),
                     (''error'', JStr (cut 500 d ''error'')),
                     (''updated_at'', JStr (cut 40 d ''updated_at''))])))))
      | _ \<Rightarrow> protocol_error)"

definition REASONING_EFFORTS :: "string set" where
  "REASONING_EFFORTS = {''none'', ''minimal'', ''low'', ''medium'', ''high'', ''xhigh'', ''max''}"

text \<open>\<open>if raw.get(key): entry[key] = int(raw[key])\<close>; what \<open>int\<close> raises is not caught.\<close>

definition optional_int :: "(string \<times> json) list \<Rightarrow> string \<Rightarrow> exn + (string \<times> json) list" where
  "optional_int d k =
     (if truthy (get_default d k JNull)
      then res_bind (py_int (get_default d k JNull)) (\<lambda>i. Inr [(k, JInt i)]) else Inr [])"

definition parse_model_item :: "json \<Rightarrow> exn + json" where
  "parse_model_item raw =
     (case raw of
        JObj d \<Rightarrow>
          (let mid = py_strip (get_str d ''id'' []);
               name = py_strip (get_str d ''display_name'' mid)
           in case get_default d ''reasoning_efforts'' (JList []) of
                JList es \<Rightarrow>
                  (let efforts = fold add_new (map (\<lambda>e. py_lower (py_str e)) es) [] in
                   if mid = [] \<or> 200 < length mid \<or> name = [] \<or> 200 < length name then protocol_error
                   else if efforts = [] \<or> \<not> set efforts \<subseteq> REASONING_EFFORTS then protocol_error
                   else res_bind (optional_int d ''max_output_tokens'') (\<lambda>tokens.
                        res_bind (optional_int d ''context_window'') (\<lambda>window.
                          Inr (JObj ([(''id'', JStr mid), (''display_name'', JStr name),
                                      (''reasoning_efforts'', JList (map JStr efforts))] @ tokens @ window @
                            (case get_default d ''usage_fields'' JNull of
                               JList fs \<Rightarrow> if fs = [] then []
                                           else [(''usage_fields'', JList (map (\<lambda>f. JStr (py_str f)) fs))]
                             | _ \<Rightarrow> []) @
                            (case get_default d ''supports_temperature'' JNull of
                               JBool b \<Rightarrow> [(''supports_temperature'', JBool b)] | _ \<Rightarrow> []))))))
              | _ \<Rightarrow> protocol_error)
      | _ \<Rightarrow> protocol_error)"

fun parse_model_items :: "json list \<Rightarrow> exn + json list" where
  "parse_model_items [] = Inr []"
| "parse_model_items (v # vs) =
     res_bind (parse_model_item v) (\<lambda>m. res_bind (parse_model_items vs) (\<lambda>ms. Inr (m # ms)))"

definition fallback_entry :: "string \<Rightarrow> json" where
  "fallback_entry model =
     JObj [(''id'', JStr (take 200 model)), (''display_name'', JStr (take 200 model)),
           (''reasoning_efforts'', JList [JStr ''none''])]"

definition parse_model_capabilities :: "json \<Rightarrow> string \<Rightarrow> exn + (string \<times> json) list" where
  "parse_model_capabilities raw model =
     (case raw of
        JObj d \<Rightarrow>
          (let provider = py_strip (get_str d ''provider'' ''openai-compatible'') in
           if provider = [] \<or> 64 < length provider then protocol_error
           else case get_default d ''models'' (JList []) of
                  JList items \<Rightarrow>
                    (if 20 < length items then protocol_error
                     else res_bind (parse_model_items items) (\<lambda>ms.
                            Inr [(''provider'', JStr provider),
                                 (''models'', JList (if ms = [] \<and> model \<noteq> [] then [fallback_entry model] else ms))]))
                | _ \<Rightarrow> protocol_error)
      | _ \<Rightarrow> protocol_error)"

definition parse_worker_version :: "json \<Rightarrow> exn + string" where
  "parse_worker_version raw =
     (if is_version (py_strip (py_str raw)) then Inr (py_strip (py_str raw)) else protocol_error)"

definition parse_protocol_version :: "json \<Rightarrow> exn + int" where
  "parse_protocol_version raw =
     (case proper_int raw of
        None \<Rightarrow> protocol_error
      | Some i \<Rightarrow> if 1 \<le> i \<and> i \<le> 1000 then Inr i else protocol_error)"

definition parse_platform_value :: "json \<Rightarrow> exn + string" where
  "parse_platform_value raw =
     (let v = py_lower (py_strip (py_str raw)) in
      if v \<noteq> [] \<and> length v \<le> 32 \<and> (re_lower (hd v) \<or> re_digit (hd v)) \<and> list_all re_code_char (tl v)
      then Inr v else protocol_error)"

section \<open>Sessions and history\<close>

record session_summary =
  sm_session :: string
  sm_workspace :: string
  sm_title :: string
  sm_created_at :: string
  sm_updated_at :: string
  sm_source :: string
  sm_named_at :: string
  sm_first_request :: string
  sm_total :: json

definition parse_session_summary :: "environ \<Rightarrow> json \<Rightarrow> string list \<Rightarrow> exn + session_summary" where
  "parse_session_summary env raw workspaces =
     (case raw of
        JObj d \<Rightarrow>
          (let m = \<lparr>sm_session = get_str d ''session_id'' [], sm_workspace = get_str d ''workspace_id'' [],
                    sm_title = take 200 (py_strip (py_str
                      (redact_artifact env [] [] (get_default d ''title'' (JStr []))))),
                    sm_created_at = cut 40 d ''created_at'', sm_updated_at = cut 40 d ''updated_at'',
                    sm_source = get_str d ''display_name_source'' ''auto'',
                    sm_named_at = cut 40 d ''display_name_updated_at'',
                    sm_first_request = cut 40 d ''first_request_at'',
                    sm_total = get_default d ''message_total'' (JInt 0)\<rparr>
           in if \<not> is_session_id (sm_session m) \<or> sm_workspace m \<notin> set workspaces then protocol_error
              else case int_like (sm_total m) of
                     None \<Rightarrow> protocol_error
                   | Some n \<Rightarrow>
                       if n < 0 \<or> 10000000 < n \<or> sm_source m \<notin> {''auto'', ''user''} then protocol_error
                       else Inr m)
      | _ \<Rightarrow> protocol_error)"

fun history_items :: "environ \<Rightarrow> json list \<Rightarrow> exn + json list" where
  "history_items env [] = Inr []"
| "history_items env (v # vs) =
     (case v of
        JObj d \<Rightarrow>
          res_bind (history_items env vs) (\<lambda>ms.
            Inr (JObj [(''role'', JStr (cut 32 d ''role'')), (''name'', JStr (cut 100 d ''name'')),
                       (''content'', JStr (take 4000 (py_str
                          (redact_artifact env [] [] (get_default d ''content'' (JStr [])))))),
                       (''created_at'', JStr (cut 40 d ''created_at''))] # ms))
      | _ \<Rightarrow> protocol_error)"

definition parse_history_messages :: "environ \<Rightarrow> json \<Rightarrow> exn + json list" where
  "parse_history_messages env raw =
     (case raw of
        JList items \<Rightarrow> if 500 < length items then protocol_error else history_items env items
      | _ \<Rightarrow> protocol_error)"

section \<open>Progress events\<close>

definition PUBLIC_WORKER_EVENTS :: "string set" where
  "PUBLIC_WORKER_EVENTS =
     {''model.started'', ''model.completed'', ''model.retrying'', ''model.protocol_retrying'',
      ''model.heartbeat'', ''assistant.delta'', ''assistant.thinking'', ''tool.requested'',
      ''tool.started'', ''tool.completed'', ''tool.failed'', ''policy.violation'',
      ''sandbox.started'', ''sandbox.completed'', ''sandbox.failed'', ''sandbox.cleaned'',
      ''agent.state'', ''plan.created'', ''plan.skipped'', ''assistant.commentary'',
      ''review.started'', ''review.completed'', ''review.skipped'', ''main_loop_rebuttal''}"

text \<open>The numbers of \<open>usage\<close> that are passed on; \<open>test\<close> says which values count as integers.\<close>

definition usage_numbers :: "(json \<Rightarrow> int option) \<Rightarrow> (string \<times> json) list \<Rightarrow> (string \<times> json) list" where
  "usage_numbers test kvs =
     filter (\<lambda>(k, v). k \<in> {''input_tokens'', ''output_tokens'', ''total_tokens'', ''cached_tokens''} \<and>
                      (case test v of None \<Rightarrow> False | Some i \<Rightarrow> 0 \<le> i)) kvs"

text \<open>A redacted text, and a redacted object.\<close>

definition safe_text :: "environ \<Rightarrow> nat \<Rightarrow> (string \<times> json) list \<Rightarrow> string \<Rightarrow> json" where
  "safe_text env n d k = redact_artifact env [] [] (JStr (cut n d k))"

definition safe_object :: "environ \<Rightarrow> (string \<times> json) list \<Rightarrow> (string \<times> json) list" where
  "safe_object env kvs = object_or_empty (redact_artifact env [] [] (JObj kvs))"

definition bounded_list :: "nat \<Rightarrow> nat \<Rightarrow> json \<Rightarrow> json" where
  "bounded_list count width v =
     (case v of JList xs \<Rightarrow> JList (map (\<lambda>x. JStr (take width (py_str x))) (take count xs)) | _ \<Rightarrow> JList [])"

definition cut_field :: "(string \<times> json) list \<Rightarrow> string \<Rightarrow> nat \<Rightarrow> string \<times> json" where
  "cut_field d k n = (k, JStr (cut n d k))"

definition DETECTED_FORMATS :: "string set" where
  "DETECTED_FORMATS = {''empty'', ''markdown_fence'', ''xml_tool'', ''xml_talk'', ''xml_final'',
     ''json_object'', ''json_array'', ''plain_text''}"

definition protocol_retry_data :: "(string \<times> json) list \<Rightarrow> (string \<times> json) list" where
  "protocol_retry_data d =
     (let keys = (case get_default d ''top_level_keys'' (JList []) of JList xs \<Rightarrow> xs | _ \<Rightarrow> []);
          safe = filter (\<lambda>k. k \<noteq> [] \<and> length k \<le> 64 \<and> list_all re_key_char k) (map py_str (take 20 keys));
          form = cut 32 d ''detected_format'';
          hash = py_lower (cut 64 d ''response_hash'')
      in [cut_field d ''stage'' 32, (''attempt'', at_least_one d ''attempt''),
          (''max_attempts'', at_least_one d ''max_attempts''),
          (''error_code'', JStr ''model_protocol_invalid''),
          (''response_chars'', count_of d ''response_chars'' 0),
          (''detected_format'', JStr (if form \<in> DETECTED_FORMATS then form else ''unknown'')),
          (''top_level_keys'', JList (map JStr safe)),
          (''response_hash'', JStr (if 16 \<le> length hash \<and> length hash \<le> 64 \<and> list_all hex_lower hash
                                    then hash else [])),
          (''reset_stream'', flag_of d ''reset_stream'' True)])"

text \<open>The steps of a plan: twenty at most, those that are objects.\<close>

definition plan_steps :: "json \<Rightarrow> json list" where
  "plan_steps v =
     (case v of
        JList xs \<Rightarrow>
          concat (map (\<lambda>x. case x of
              JObj d \<Rightarrow> [JObj [cut_field d ''id'' 64, cut_field d ''goal'' 300,
                              (''dependencies'', bounded_list 20 64 (get_default d ''dependencies'' (JList []))),
                              (''done_when'', bounded_list 20 300 (get_default d ''done_when'' (JList [])))]]
            | _ \<Rightarrow> []) (take 20 xs))
      | _ \<Rightarrow> [])"

definition review_data :: "(string \<times> json) list \<Rightarrow> (string \<times> json) list" where
  "review_data d =
     [cut_field d ''status'' 32, (''attempt'', count_of d ''attempt'' 0),
      (''issue_count'', count_of d ''issue_count'' 0), cut_field d ''trigger'' 32,
      cut_field d ''verdict'' 32, cut_field d ''feedback'' 500, cut_field d ''reason'' 100,
      (''obstacles'', bounded_list 10 100 (get_default d ''obstacles'' (JList []))),
      (''tool_rounds'', count_of d ''tool_rounds'' 0),
      (''review_shell_ok'', flag_of d ''review_shell_ok'' False)]"

definition agent_state_data :: "(string \<times> json) list \<Rightarrow> (string \<times> json) list" where
  "agent_state_data d =
     [cut_field d ''phase'' 64, cut_field d ''next_step'' 300] @
     map (\<lambda>k. (k, bounded_list 20 300 (get_default d k (JList []))))
       [''checklist'', ''done_when'', ''completed_items''] @
     map (\<lambda>k. (k, count_of d k 0))
       [''tool_steps'', ''read_files'', ''max_tool_steps'', ''max_read_files'', ''max_total_steps''] @
     [cut_field d ''reason'' 100]"

text \<open>The fields of the tool events: each kind adds to those of the call.\<close>

definition affected_paths :: "(string \<times> json) list \<Rightarrow> json" where
  "affected_paths d =
     (case get_default d ''affected_paths'' (JList []) of
        JList xs \<Rightarrow> JList (concat (map (\<lambda>x. case safe_relative_path x of None \<Rightarrow> [] | Some p \<Rightarrow> [JStr p]) (take 100 xs)))
      | _ \<Rightarrow> JList [])"

definition result_fields :: "environ \<Rightarrow> (string \<times> json) list \<Rightarrow> (string \<times> json) list" where
  "result_fields env d =
     (let content = get_default d ''result_preview'' (JStr []);
          (text, long) = public_tool_result_preview env (cut 100 d ''tool_name'')
                           (if content = JNull then None else Some (py_str content))
      in if text = [] then []
         else [(''result_preview'', JStr text),
               (''result_truncated'', JBool (long \<or> truthy (get_default d ''result_truncated'' (JBool False))))])"

definition tool_data :: "environ \<Rightarrow> string \<Rightarrow> (string \<times> json) list \<Rightarrow> (string \<times> json) list" where
  "tool_data env ty d =
     [cut_field d ''tool_call_id'' 200, cut_field d ''tool_name'' 100] @
     (if ty \<in> {''tool.started'', ''tool.completed'', ''tool.failed''}
      then [cut_field d ''parent_event_id'' 64, cut_field d ''started_at'' 64] else []) @
     (if ty \<in> {''tool.completed'', ''tool.failed''}
      then [cut_field d ''tool_status'' 50, cut_field d ''tool_error_code'' 100, cut_field d ''ended_at'' 64,
            (''affected_paths'', affected_paths d)] @ result_fields env d else []) @
     (if ty = ''tool.requested''
      then (let preview = public_tool_args_preview env (cut 100 d ''tool_name'')
                            (get_default d ''args_preview'' (JObj []))
            in if truthy preview then [(''args_preview'', preview)] else []) else []) @
     (if ty = ''policy.violation'' then [cut_field d ''policy_code'' 100] else [])"

definition sandbox_data :: "(string \<times> json) list \<Rightarrow> (string \<times> json) list" where
  "sandbox_data d =
     [cut_field d ''container'' 64, cut_field d ''image'' 200, cut_field d ''reason'' 100,
      (''exit_code'',
       if int_like (get_default d ''exit_code'' JNull) = None then JInt (- 1)
       else count_of d ''exit_code'' (- 1))]"

definition sanitize_event_data ::
  "environ \<Rightarrow> (string \<Rightarrow> json option) \<Rightarrow> string \<Rightarrow> (string \<times> json) list \<Rightarrow> (string \<times> json) list" where
  "sanitize_event_data env num ty d =
     (if ty = ''model.completed'' then
        (case get_default d ''usage'' (JObj []) of
           JObj usage \<Rightarrow>
             [(''usage'', JObj (usage_numbers int_like usage)), cut_field d ''round_id'' 64,
              cut_field d ''started_at'' 64, cut_field d ''ended_at'' 64, (''text'', safe_text env 4000 d ''text'')]
         | _ \<Rightarrow> [(''usage'', JObj [])])
      else if ty = ''model.started'' then
        [(''round'', at_least_one d ''round''), (''run_elapsed_seconds'', seconds_of num d ''run_elapsed_seconds''),
         cut_field d ''round_id'' 64, cut_field d ''started_at'' 64]
      else if ty = ''model.retrying'' then
        [cut_field d ''stage'' 32, (''attempt'', at_least_one d ''attempt''),
         (''max_attempts'', at_least_one d ''max_attempts''), cut_field d ''error_code'' 100,
         (''retry_delay_seconds'', seconds_of num d ''retry_delay_seconds''),
         (''elapsed_seconds'', seconds_of num d ''elapsed_seconds''), (''reset_stream'', flag_of d ''reset_stream'' False)]
      else if ty = ''model.protocol_retrying'' then protocol_retry_data d
      else if ty = ''model.heartbeat'' then
        [cut_field d ''stage'' 32, (''elapsed_seconds'', seconds_of num d ''elapsed_seconds''),
         (''run_elapsed_seconds'', seconds_of num d ''run_elapsed_seconds''), (''round'', at_least_one d ''round'')]
      else if ty \<in> {''assistant.delta'', ''assistant.thinking'', ''message.completed''} then
        [(''text'', safe_text env 4000 d ''text'')]
      else if ty = ''assistant.commentary'' then [(''text'', safe_text env 1000 d ''text'')]
      else if ty = ''plan.created'' then safe_object env
        [cut_field d ''plan_id'' 64, (''revision'', count_of d ''revision'' 0), cut_field d ''intent'' 32,
         cut_field d ''summary'' 500, cut_field d ''risk_level'' 16,
         (''step_count'', JInt (min 20 (nonnegative_int (get_default d ''step_count'' (JInt 0))))),
         (''steps'', JList (plan_steps (get_default d ''steps'' (JList []))))]
      else if ty = ''plan.skipped'' then safe_object env
        [cut_field d ''reason'' 100, cut_field d ''intent'' 32, cut_field d ''summary'' 500]
      else if ty = ''review.started'' then [(''attempt'', count_of d ''attempt'' 0), cut_field d ''trigger'' 32]
      else if ty = ''review.skipped'' then [cut_field d ''reason'' 100]
      else if ty = ''review.completed'' then safe_object env (review_data d)
      else if ty = ''main_loop_rebuttal'' then safe_object env
        [cut_field d ''against_verdict'' 32, cut_field d ''action'' 100, cut_field d ''feedback'' 500]
      else if ty = ''agent.state'' then safe_object env (agent_state_data d)
      else if starts_with ''sandbox.'' ty then safe_object env (sandbox_data d)
      else safe_object env (tool_data env ty d))"

text \<open>\<open>_envelope_metadata\<close>: empty values are left out, so the publisher's defaults stand.\<close>

definition envelope_metadata :: "string \<Rightarrow> (string \<times> json) list \<Rightarrow> publish_opts" where
  "envelope_metadata ty d =
     no_opts
       \<lparr>o_parent_event_id := cut 64 d ''parent_event_id'', o_started_at := cut 64 d ''started_at'',
        o_ended_at := cut 64 d ''ended_at'', o_attempt := proper_int (get_default d ''attempt'' JNull),
        o_phase := (if ty = ''agent.state'' \<and> cut 64 d ''phase'' \<noteq> [] then cut 64 d ''phase'' else event_phase ty),
        o_status := (if ty \<in> {''tool.completed'', ''tool.failed''} then cut 50 d ''tool_status''
                     else if ty = ''review.completed'' then cut 32 d ''status'' else []),
        o_summary := (if ty \<in> {''tool.completed'', ''tool.failed''} then cut 100 d ''tool_name''
                      else if ty = ''plan.created'' then cut 500 d ''summary''
                      else if ty = ''assistant.commentary'' then cut 1000 d ''text''
                      else if ty = ''agent.state'' then cut 300 d ''next_step'' else [])\<rparr>"

definition sanitize_terminal_error :: "json \<Rightarrow> (string \<times> json) list" where
  "sanitize_terminal_error v =
     (case v of
        JObj d \<Rightarrow>
          (if cut 100 d ''code'' = [] then []
           else [(''error_stage'', JStr (cut 64 d ''stage'')), (''error_code'', JStr (cut 100 d ''code'')),
                 (''error_retryable'', flag_of d ''retryable'' False),
                 (''error_attempts'', JInt (min 10 (nonnegative_int (get_default d ''attempts'' (JInt 0))))),
                 (''error_detail'', JStr (cut 500 d ''detail''))])
      | _ \<Rightarrow> [])"

section \<open>What is accepted is well formed\<close>

lemma add_new_facts [simp]: "set (add_new x xs) = insert x (set xs)" "distinct (add_new x xs) = distinct xs"
  by (auto simp: add_new_def)

lemma length_add_new: "length (add_new x xs) \<le> Suc (length xs)"
  by (simp add: add_new_def)

lemma capability_items:
  "parse_capability_items acc vs = Inr cs \<Longrightarrow>
     set cs = set acc \<union> py_str ` set vs \<and> (distinct acc \<longrightarrow> distinct cs) \<and>
     length cs \<le> length acc + length vs \<and> (\<forall>v\<in>set vs. is_code (py_str v))"
proof (induction acc vs rule: parse_capability_items.induct)
  case (2 acc v vs)
  then show ?case using length_add_new [of "py_str v" acc] by (auto split: if_splits)
qed simp

text \<open>
  The capabilities a Worker registers are the codes it sent, each once, at most twenty.
\<close>

theorem capabilities_accepted:
  assumes "parse_capabilities raw = Inr cs"
  shows "\<exists>vs. raw = JList vs \<and> set cs = py_str ` set vs \<and> distinct cs \<and> length cs \<le> 20 \<and> list_all is_code cs"
  using assms capability_items [of "[]" _ cs]
  by (fastforce simp: parse_capabilities_def list_all_iff split: json.splits if_splits)

lemma workspace_items:
  "parse_workspace_items vs = Inr ws \<Longrightarrow>
     length ws = length vs \<and>
     (\<forall>w\<in>set ws. is_workspace_id (ws_id w) \<and> ws_name w \<noteq> [] \<and> length (ws_name w) \<le> 200 \<and> ws_source w = ''auto'')"
proof (induction vs arbitrary: ws)
  case (Cons v vs)
  then show ?case
    by (auto simp: Let_def res_bind_def new_workspace_def split: json.splits if_splits sum.splits)
qed simp

lemma workspaces_accepted:
  assumes "parse_workspaces raw = Inr ws"
  shows "length ws \<le> 100 \<and> distinct (map ws_id ws) \<and>
     (\<forall>w\<in>set ws. is_workspace_id (ws_id w) \<and> ws_name w \<noteq> [] \<and> length (ws_name w) \<le> 200)"
  using assms workspace_items
  by (fastforce simp: parse_workspaces_def res_bind_def split: json.splits if_splits sum.splits)

text \<open>
  C2. What the hello parser accepts, the device store accepts: a Worker's workspaces never make
  \<open>update_presence\<close> refuse the registration.
\<close>

theorem parsed_workspaces_register:
  assumes "parse_workspaces raw = Inr (pr_workspaces p)" and "devices_ok s" and "device_at s did = Some d"
    and "st_io s = []"
  shows "\<exists>t. update_presence did p s = (Inr (with_presence (dv_now s) p d), t)"
  using workspaces_accepted [OF assms(1)] assms(2-4)
  by (simp add: update_presence_def act_defs device_get_eq write_device_def io_write_def)

text \<open>A progress report that is accepted never claims more than the whole.\<close>

theorem progress_within_total:
  assumes "parse_update_status raw = Inr d" and "d \<noteq> []"
  shows "\<exists>got size. obj_get d ''downloaded_bytes'' = Some (JInt got) \<and> obj_get d ''total_bytes'' = Some (JInt size)
     \<and> 0 \<le> got \<and> got \<le> 2 ^ 27 \<and> (size = 0 \<or> got \<le> size)"
  using assms
  by (auto simp: parse_update_status_def res_bind_def split: json.splits if_splits sum.splits)

text \<open>
  A model whose \<open>max_output_tokens\<close> is not a number is not refused as a protocol error: \<open>int\<close> raises.
\<close>

lemma model_limit_raises:
  assumes "py_int v = Inl e" and "truthy v" and "mid \<noteq> []" "py_strip mid = mid" "length mid \<le> 200"
  shows "parse_model_capabilities (JObj [(''models'', JList [JObj [(''id'', JStr mid),
            (''reasoning_efforts'', JList [JStr ''none'']), (''max_output_tokens'', v)]])]) model = Inl e"
proof -
  have "py_strip ''openai-compatible'' = ''openai-compatible''" "py_lower ''none'' = ''none''" by code_simp+
  then show ?thesis using assms
    by (simp add: parse_model_capabilities_def parse_model_item_def get_str_def get_default_def optional_int_def
        REASONING_EFFORTS_def add_new_def Let_def)
qed

section \<open>Paths\<close>

lemma py_split_nonempty [simp]: "py_split c s \<noteq> []"
  by (induction s) (auto split: list.split)

lemma py_split_parts: "p \<in> set (py_split c s) \<Longrightarrow> c \<notin> set p \<and> set p \<subseteq> set s"
proof (induction s arbitrary: p)
  case (Cons x xs)
  show ?case
  proof (cases "py_split c xs")
    case (Cons w ws)
    then show ?thesis using Cons.prems Cons.IH [of p] Cons.IH [of w] by (auto split: if_splits)
  qed simp
qed simp

lemma py_split_join:
  assumes "ps \<noteq> []" and "\<forall>p\<in>set ps. c \<notin> set p"
  shows "py_split c (py_join [c] ps) = ps"
proof -
  have nosep: "py_split c p = [p]" if "c \<notin> set p" for p
    using that by (induction p) auto
  have app: "py_split c (p @ c # r) = p # py_split c r" if "c \<notin> set p" for p r
    using that by (induction p) auto
  show ?thesis using assms
  proof (induction ps)
    case (Cons p ps)
    then show ?case using nosep app by (cases ps) (auto simp: py_join_Cons)
  qed simp
qed

lemma py_join_split: "py_join [c] (py_split c s) = s"
proof (induction s)
  case (Cons x xs)
  obtain w ws where w: "py_split c xs = w # ws" by (cases "py_split c xs") auto
  show ?case using Cons by (cases ws) (auto simp: w)
qed simp

text \<open>How a path is followed from a directory, as POSIX does it; a directory is the list of its parts.\<close>

definition path_step :: "string \<Rightarrow> string list \<Rightarrow> string list" where
  "path_step part at = (if part = [] \<or> part = ''.'' then at else if part = ''..'' then butlast at else at @ [part])"

definition path_walk :: "string list \<Rightarrow> string \<Rightarrow> string list" where
  "path_walk base text = fold path_step (py_split (CHR ''/'') text) (if starts_with ''/'' text then [] else base)"

lemma fold_plain_steps:
  "''..'' \<notin> set parts \<Longrightarrow> fold path_step parts at = at @ filter (\<lambda>q. q \<noteq> [] \<and> q \<noteq> ''.'') parts"
  by (induction parts arbitrary: at) (auto simp: path_step_def)

lemma length_join_char: "length (py_join [c] parts) = sum_list (map length parts) + (length parts - 1)"
  by (cases "parts = []") (simp_all add: length_py_join)

lemma join_filter_shorter: "length (py_join [c] (filter P parts)) \<le> length (py_join [c] parts)"
proof -
  have "sum_list (map length (filter P parts)) \<le> sum_list (map length parts)" for parts :: "string list"
    by (induction parts) auto
  moreover have "length (filter P parts) - 1 \<le> length parts - 1" using length_filter_le [of P parts] by linarith
  ultimately show ?thesis by (simp only: length_join_char add_le_mono)
qed

text \<open>
  C40. A path of a Worker's event that is passed on denotes, from whatever directory it is followed, the
  same place as the text the Worker sent, and that place is below the directory.  The text was not
  absolute, did not start in a home directory, had no drive before its first slash and at most 500
  characters; what is passed on is no longer than it.
\<close>

theorem safe_path_stays_inside:
  assumes "safe_relative_path v = Some p" and "text = py_replace [CHR 0x5C] ''/'' (py_str v)"
  shows "path_walk base p = path_walk base text \<and> (\<exists>below. path_walk base p = base @ below) \<and>
     \<not> starts_with ''/'' text \<and> \<not> starts_with ''~/'' text \<and> CHR '':'' \<notin> set (hd (py_split (CHR ''/'') text)) \<and>
     length text \<le> 500 \<and> length p \<le> length text"
proof -
  let ?ok = "\<lambda>q. q \<noteq> [] \<and> q \<noteq> ''.''"
  obtain parts where parts: "parts = filter ?ok (py_split (CHR ''/'') text)" by blast
  have accepted: "text \<noteq> []" "length text \<le> 500" "\<not> starts_with ''/'' text" "\<not> starts_with ''~/'' text"
    "CHR '':'' \<notin> set (hd (py_split (CHR ''/'') text))" and p: "p = py_join ''/'' parts" "''..'' \<notin> set parts"
    using assms unfolding parts by (auto simp: safe_relative_path_def Let_def split: if_splits)
  have all: "\<forall>q\<in>set parts. ?ok q \<and> CHR ''/'' \<notin> set q"
    using py_split_parts [of _ "CHR ''/''" "text"] by (auto simp: parts)
  have dots: "''..'' \<notin> set (py_split (CHR ''/'') text)" using p(2) by (auto simp: parts)
  have of_text: "path_walk base text = base @ parts"
    using fold_plain_steps [OF dots] accepted(3) by (simp add: path_walk_def parts)
  have of_p: "path_walk base p = base @ parts"
  proof (cases parts)
    case Nil
    then show ?thesis using p(1) by (simp add: path_walk_def path_step_def starts_with_def)
  next
    case (Cons q qs)
    have "\<not> starts_with ''/'' p" using Cons all p(1) by (cases qs; cases q) (auto simp: starts_with_def py_join_Cons)
    moreover have "py_split (CHR ''/'') p = parts" using all Cons unfolding p(1) by (intro py_split_join) auto
    moreover have "filter ?ok parts = parts" using all by (simp add: filter_id_conv)
    ultimately show ?thesis using fold_plain_steps [OF p(2)] by (simp add: path_walk_def)
  qed
  have "length p \<le> length (py_join ''/'' (py_split (CHR ''/'') text))"
    unfolding p(1) parts by (rule join_filter_shorter)
  then show ?thesis using accepted of_text of_p by (simp add: py_join_split)
qed

text \<open>The drive test looks at the first part of the text, the result starts at the first part kept.\<close>

lemma drive_passes: "safe_relative_path (JStr ''./C:/secret'') = Some ''C:/secret''"
  by code_simp

lemma dot_becomes_empty: "safe_relative_path (JStr ''.'') = Some []"
  by code_simp

section \<open>Events\<close>

text \<open>
  The stage of a thought does not reach the control plane: whatever the Worker sends with
  it, only its text is kept.
\<close>

theorem thinking_stage_dropped:
  "map fst (sanitize_event_data env num ''assistant.thinking'' d) = [''text''] \<and>
   obj_get (sanitize_event_data env num ''assistant.thinking'' d) ''stage'' = None"
  by (simp add: sanitize_event_data_def)

text \<open>A sandbox that was killed by a signal reports a negative code; zero is passed on.\<close>

lemma negative_exit_hidden:
  assumes "get_default d ''exit_code'' JNull = JInt i" and "i < 0"
  shows "obj_get (sandbox_data d) ''exit_code'' = Some (JInt 0)"
  using assms by (auto simp: sandbox_data_def cut_field_def int_like_def count_of_def nonnegative_int_def get_default_def
      split: option.splits)

end
