(* ===== verification/Run_Index.thy ===== *)
theory Run_Index
  imports Worker_Payloads
begin

text \<open>
  The audit trail of a run: \<open>_append_run_index\<close> and \<open>_append_pending_stream_events\<close> of
  \<open>infrastructure/worker_hub.py\<close>, which keep the last five hundred events of a task in
  \<open>run_index\<close> and join consecutive thoughts.

  The labels the trail shows are an argument (the code writes them in Chinese), as is the text of
  a time stamp.  The functions are applied by the repository's \<open>update\<close>, which sets
  \<open>updated_at\<close> itself, so their own assignment to it is left out.
\<close>

section \<open>One entry\<close>

record index_config =
  hc_labels :: "(string \<times> string) list"
  hc_iso :: "int \<Rightarrow> string"

text \<open>\<open>str(event.get(key) or data.get(key, ""))\<close>.\<close>

definition envelope_or_data :: "string \<Rightarrow> (string \<times> json) list \<Rightarrow> string \<Rightarrow> string" where
  "envelope_or_data x d k = (if x \<noteq> [] then x else get_str d k [])"

definition field_if :: "string \<Rightarrow> string \<Rightarrow> nat \<Rightarrow> (string \<times> json) list" where
  "field_if k x n = (if x = [] then [] else [(k, JStr (take n x))])"

definition text_if :: "(string \<times> json) list \<Rightarrow> string \<Rightarrow> nat \<Rightarrow> (string \<times> json) list" where
  "text_if d k n = (if cut n d k = [] then [] else [(k, JStr (cut n d k))])"

definition tool_entry :: "string \<Rightarrow> (string \<times> json) list \<Rightarrow> (string \<times> json) list" where
  "tool_entry ty d =
     [cut_field d ''tool_name'' 100, cut_field d ''tool_call_id'' 200] @
     (if ty = ''tool.requested'' then
        (case get_default d ''args_preview'' JNull of
           JObj kvs \<Rightarrow> if kvs = [] then [] else [(''args_preview'', JObj kvs)] | _ \<Rightarrow> [])
      else if ty \<in> {''tool.completed'', ''tool.failed''} then
        (case get_default d ''result_preview'' JNull of
           JStr r \<Rightarrow>
             if r = [] then []
             else (''result_preview'', JStr (take 8000 r)) #
                  (if truthy (get_default d ''result_truncated'' JNull) then [(''result_truncated'', JBool True)] else [])
         | _ \<Rightarrow> [])
      else [])"

definition review_entry :: "(string \<times> json) list \<Rightarrow> (string \<times> json) list" where
  "review_entry d =
     [cut_field d ''verdict'' 32] @ text_if d ''feedback'' 500 @ [cut_field d ''reason'' 100] @
     (case get_default d ''obstacles'' (JList []) of
        JList xs \<Rightarrow> [(''obstacles'', bounded_list 10 100 (JList xs))] | _ \<Rightarrow> []) @
     [(''tool_rounds'', count_of d ''tool_rounds'' 0)]"

definition entry_details :: "string \<Rightarrow> (string \<times> json) list \<Rightarrow> (string \<times> json) list" where
  "entry_details ty d =
     (if starts_with ''tool.'' ty then tool_entry ty d
      else if ty = ''model.completed'' then
        (case get_default d ''usage'' (JObj []) of
           JObj usage \<Rightarrow> [(''usage'', JObj (usage_numbers proper_int usage))] | _ \<Rightarrow> []) @ text_if d ''text'' 4000
      else if ty = ''plan.created'' then
        [cut_field d ''intent'' 32, (''step_count'', count_of d ''step_count'' 0)]
      else if ty = ''message.completed'' then text_if d ''text'' 4000
      else if ty = ''assistant.thinking'' then
        text_if d ''text'' 4000 @
        field_if ''stage'' (let v = get_default d ''stage'' (JStr []) in if truthy v then py_str v else []) 32
      else if ty = ''assistant.commentary'' then text_if d ''text'' 1000
      else if ty = ''review.started'' then [cut_field d ''trigger'' 32]
      else if ty = ''review.completed'' then review_entry d
      else if ty = ''review.skipped'' then [cut_field d ''reason'' 100]
      else if ty = ''main_loop_rebuttal'' then
        [cut_field d ''against_verdict'' 32, cut_field d ''action'' 100] @ text_if d ''feedback'' 500
      else if starts_with ''task.'' ty then [(''status'', JStr (take 32 (drop 5 ty)))]
      else [])"

definition trail_entry :: "'a index_config_scheme \<Rightarrow> public_event \<Rightarrow> (string \<times> json) list \<Rightarrow> (string \<times> json) list" where
  "trail_entry cfg ev d =
     (let ty = e_type ev;
          label = (case obj_get (hc_labels cfg) ty of None \<Rightarrow> ty | Some l \<Rightarrow> l)
      in [(''event_id'', JStr (take 64 (e_event_id ev))), (''run_id'', JStr (take 128 (e_run_id ev))),
          (''type'', JStr (take 64 ty)), (''timestamp'', JStr (take 40 (hc_iso cfg (e_timestamp ev)))),
          (''label'', JStr (take 64 label)),
          (''phase'', JStr (take 32 (if e_phase ev \<noteq> [] then e_phase ev else event_phase ty)))] @
         field_if ''parent_event_id'' (envelope_or_data (e_parent_event_id ev) d ''parent_event_id'') 64 @
         field_if ''started_at'' (envelope_or_data (e_started_at ev) d ''started_at'') 40 @
         field_if ''ended_at'' (envelope_or_data (e_ended_at ev) d ''ended_at'') 40 @
         field_if ''summary'' (envelope_or_data (e_summary ev) d ''summary'') 1000 @
         (case e_attempt ev of None \<Rightarrow> [] | Some a \<Rightarrow> if 0 \<le> a then [(''attempt'', JInt a)] else []) @
         entry_details ty d)"

section \<open>The trail\<close>

text \<open>\<open>[*task.run_index[-499:], item]\<close>.\<close>

definition push_entry :: "json list \<Rightarrow> (string \<times> json) list \<Rightarrow> json list" where
  "push_entry idx item = drop (length idx - 499) idx @ [JObj item]"

definition joins_previous :: "string \<Rightarrow> (string \<times> json) list \<Rightarrow> (string \<times> json) list \<Rightarrow> bool" where
  "joins_previous ty prev item \<longleftrightarrow>
     obj_get prev ''type'' = Some (JStr ty) \<and> obj_get prev ''run_id'' = obj_get item ''run_id'' \<and>
     obj_get prev ''phase'' = obj_get item ''phase'' \<and>
     get_str prev ''text'' [] \<noteq> [] \<and> get_str item ''text'' [] \<noteq> [] \<and>
     length (get_str prev ''text'' []) + length (get_str item ''text'' []) \<le> 4000"

definition join_entry :: "(string \<times> json) list \<Rightarrow> (string \<times> json) list \<Rightarrow> (string \<times> json) list" where
  "join_entry prev item =
     obj_put (obj_put prev ''timestamp'' (get_default item ''timestamp'' JNull)) ''text''
       (JStr (get_str prev ''text'' [] @ get_str item ''text'' []))"

definition append_run_index ::
  "'a index_config_scheme \<Rightarrow> public_event \<Rightarrow> (string \<times> json) list \<Rightarrow> task \<Rightarrow> exn + task" where
  "append_run_index cfg ev d t =
     (let item = trail_entry cfg ev d;
          pushed = t\<lparr>t_run_index := push_entry (t_run_index t) item\<rparr>
      in if e_type ev = ''model.heartbeat'' then Inr t
         else if e_type ev = ''assistant.thinking'' \<and> t_run_index t \<noteq> [] then
           (case last (t_run_index t) of
              JObj prev \<Rightarrow>
                if joins_previous (e_type ev) prev item
                then Inr (t\<lparr>t_run_index := butlast (t_run_index t) @ [JObj (join_entry prev item)]\<rparr>)
                else Inr pushed
            | _ \<Rightarrow> Inl Attribute_Error)
         else Inr pushed)"

text \<open>An entry that cannot be merged is skipped, the others are kept.\<close>

definition append_pending ::
  "'a index_config_scheme \<Rightarrow> (public_event \<times> (string \<times> json) list) list \<Rightarrow> task \<Rightarrow> task" where
  "append_pending cfg pending t =
     foldl (\<lambda>t (ev, d). case append_run_index cfg ev d t of Inl _ \<Rightarrow> t | Inr u \<Rightarrow> u) t pending"

section \<open>Bounds\<close>

lemma length_push: "length (push_entry idx item) \<le> 500"
  by (simp add: push_entry_def)

lemma append_run_index_bound:
  "append_run_index cfg ev d t = Inr u \<Longrightarrow> length (t_run_index t) \<le> 500 \<Longrightarrow> length (t_run_index u) \<le> 500"
  by (auto simp: append_run_index_def Let_def length_push split: if_splits json.splits)

text \<open>The trail of a run never holds more than five hundred entries.\<close>

theorem trail_bounded:
  "length (t_run_index t) \<le> 500 \<Longrightarrow> length (t_run_index (append_pending cfg pending t)) \<le> 500"
  unfolding append_pending_def
proof (induction pending arbitrary: t)
  case (Cons x pending)
  obtain ev d where x: "x = (ev, d)" by (cases x)
  show ?case using Cons append_run_index_bound [of cfg ev d t] by (cases "append_run_index cfg ev d t") (auto simp: x)
qed simp

text \<open>Only the trail changes.\<close>

lemma append_run_index_frame:
  "append_run_index cfg ev d t = Inr u \<Longrightarrow> \<exists>idx. u = t\<lparr>t_run_index := idx\<rparr>"
  by (auto simp: append_run_index_def Let_def split: if_splits json.splits) (metis task.surjective task.update_convs(18))+

section \<open>Thoughts\<close>

text \<open>The text of the thoughts in a trail, in order.\<close>

definition is_thought :: "(string \<times> json) list \<Rightarrow> bool" where
  "is_thought p \<longleftrightarrow> obj_get p ''type'' = Some (JStr ''assistant.thinking'')"

definition thought_text :: "json \<Rightarrow> string" where
  "thought_text v = (case v of JObj p \<Rightarrow> if is_thought p then get_str p ''text'' [] else [] | _ \<Rightarrow> [])"

definition thoughts :: "json list \<Rightarrow> string" where
  "thoughts idx = concat (map thought_text idx)"

lemma trail_entry_type: "obj_get (trail_entry cfg ev d) ''type'' = Some (JStr (take 64 (e_type ev)))"
  by (simp add: trail_entry_def Let_def)

lemma obj_get_append: "obj_get (xs @ ys) k = (case obj_get xs k of None \<Rightarrow> obj_get ys k | Some v \<Rightarrow> Some v)"
  by (induction xs k rule: obj_get.induct) auto

lemma field_if_other: "k \<noteq> k' \<Longrightarrow> obj_get (field_if k x n) k' = None"
  by (simp add: field_if_def)

lemma thought_entry_text:
  assumes "e_type ev = ''assistant.thinking''"
  shows "get_str (trail_entry cfg ev d) ''text'' [] = cut 4000 d ''text''"
  using assms
  by (simp add: trail_entry_def Let_def get_str_def get_default_def obj_get_append field_if_other entry_details_def
      text_if_def starts_with_def split: option.split)

lemma thought_of_entry:
  "thought_text (JObj (trail_entry cfg ev d)) =
     (if e_type ev = ''assistant.thinking'' then cut 4000 d ''text'' else
        if take 64 (e_type ev) = ''assistant.thinking'' then get_str (trail_entry cfg ev d) ''text'' [] else [])"
  by (simp add: thought_text_def is_thought_def trail_entry_type thought_entry_text)

lemma take_eq_short: "take n xs = ys \<Longrightarrow> length ys < n \<Longrightarrow> xs = ys"
  by (metis length_take less_irrefl min.strict_order_iff min_def take_all)

definition event_thought :: "public_event \<Rightarrow> (string \<times> json) list \<Rightarrow> string" where
  "event_thought ev d = (if e_type ev = ''assistant.thinking'' then cut 4000 d ''text'' else [])"

lemma thought_of_entry_eq: "thought_text (JObj (trail_entry cfg ev d)) = event_thought ev d"
proof -
  have "take 64 (e_type ev) = ''assistant.thinking'' \<Longrightarrow> e_type ev = ''assistant.thinking''"
    by (erule take_eq_short) simp
  then show ?thesis by (auto simp: thought_of_entry event_thought_def)
qed

lemma thoughts_push: "length idx \<le> 499 \<Longrightarrow> thoughts (push_entry idx item) = thoughts idx @ thought_text (JObj item)"
  by (simp add: thoughts_def push_entry_def)

lemma is_thought_join: "is_thought prev \<Longrightarrow> is_thought (join_entry prev item)"
  by (simp add: is_thought_def join_entry_def)

lemma thought_join:
  assumes "joins_previous ''assistant.thinking'' prev item"
  shows "thought_text (JObj (join_entry prev item)) = thought_text (JObj prev) @ get_str item ''text'' []"
proof -
  have "is_thought prev" using assms by (simp add: joins_previous_def is_thought_def)
  then show ?thesis
    using is_thought_join [of prev item] by (simp add: thought_text_def join_entry_def get_str_def get_default_def)
qed

definition all_objects :: "json list \<Rightarrow> bool" where
  "all_objects idx \<longleftrightarrow> list_all (\<lambda>v. case v of JObj _ \<Rightarrow> True | _ \<Rightarrow> False) idx"

lemma last_object: "all_objects idx \<Longrightarrow> idx \<noteq> [] \<Longrightarrow> \<exists>p. last idx = JObj p"
  by (induction idx rule: rev_induct) (auto simp: all_objects_def split: json.splits)

lemma append_run_index_thoughts:
  assumes "all_objects (t_run_index t)" and "length (t_run_index t) \<le> 499"
  shows "\<exists>u. append_run_index cfg ev d t = Inr u \<and> all_objects (t_run_index u)
     \<and> length (t_run_index u) \<le> Suc (length (t_run_index t))
     \<and> (e_type ev \<noteq> ''model.heartbeat'' \<longrightarrow> thoughts (t_run_index u) = thoughts (t_run_index t) @ event_thought ev d)
     \<and> (e_type ev = ''model.heartbeat'' \<longrightarrow> u = t)"
proof (cases "e_type ev = ''model.heartbeat''")
  case True
  then show ?thesis using assms by (simp add: append_run_index_def Let_def)
next
  case no: False
  let ?item = "trail_entry cfg ev d"
  let ?pushed = "t\<lparr>t_run_index := push_entry (t_run_index t) ?item\<rparr>"
  have pushed: "all_objects (t_run_index ?pushed)" "length (t_run_index ?pushed) \<le> Suc (length (t_run_index t))"
    "thoughts (t_run_index ?pushed) = thoughts (t_run_index t) @ event_thought ev d"
    using assms by (simp_all add: push_entry_def all_objects_def thoughts_def thought_of_entry_eq)
  show ?thesis
  proof (cases "e_type ev = ''assistant.thinking'' \<and> t_run_index t \<noteq> []")
    case False
    then have "append_run_index cfg ev d t = Inr ?pushed" 
      using no by (simp only: append_run_index_def Let_def if_False)
    then show ?thesis using no pushed by simp
  next
    case True
    then obtain prev where prev: "last (t_run_index t) = JObj prev" using last_object [OF assms(1)] by blast
    show ?thesis
    proof (cases "joins_previous (e_type ev) prev ?item")
      case False
      then show ?thesis using True no pushed prev by (simp add: append_run_index_def Let_def)
    next
      case join: True
      let ?u = "t\<lparr>t_run_index := butlast (t_run_index t) @ [JObj (join_entry prev ?item)]\<rparr>"
      have split: "t_run_index t = butlast (t_run_index t) @ [JObj prev]" using True prev by (metis append_butlast_last_id)
      have "thoughts (t_run_index ?u) = thoughts (t_run_index t) @ event_thought ev d"
        using thought_join [of prev ?item] join True
        by (subst (2) split) (simp add: thoughts_def thought_entry_text event_thought_def)
      moreover have "all_objects (t_run_index ?u)"
        using assms(1) in_set_butlastD [of _ "t_run_index t"] by (auto simp: all_objects_def list_all_iff)
      ultimately show ?thesis using join True no prev by (simp add: append_run_index_def Let_def)
    qed
  qed
qed

lemma append_pending_Cons:
  "append_pending cfg ((ev, d) # pending) t =
     append_pending cfg pending (case append_run_index cfg ev d t of Inl _ \<Rightarrow> t | Inr u \<Rightarrow> u)"
  by (simp add: append_pending_def)

text \<open>
  Nothing of what the model thought is lost on the way to the trail: while there is room, the
  texts of the thoughts of a batch are appended to those already there, in the order they arrived,
  whether they were joined with the previous entry or not.
\<close>

theorem thoughts_in_order:
  assumes "all_objects (t_run_index t)" and "length (t_run_index t) + length pending \<le> 500"
  shows "thoughts (t_run_index (append_pending cfg pending t)) =
     thoughts (t_run_index t) @ concat (map (\<lambda>(ev, d). event_thought ev d) pending)"
  using assms
proof (induction pending arbitrary: t)
  case Nil
  then show ?case by (simp add: append_pending_def)
next
  case (Cons x pending)
  obtain ev d where x: "x = (ev, d)" by (cases x)
  obtain u where u: "append_run_index cfg ev d t = Inr u" "all_objects (t_run_index u)"
    "length (t_run_index u) \<le> Suc (length (t_run_index t))"
    "thoughts (t_run_index u) = thoughts (t_run_index t) @ event_thought ev d"
  proof -
    have "length (t_run_index t) \<le> 499" using Cons.prems(2) by simp
    from append_run_index_thoughts [OF Cons.prems(1) this, of cfg ev d] that show ?thesis
      by (cases "e_type ev = ''model.heartbeat''") (auto simp: event_thought_def)
  qed
  have "length (t_run_index u) + length pending \<le> 500" using u(3) Cons.prems(2) by simp
  from Cons.IH [OF u(2) this] show ?case using u(1,4) by (simp add: x append_pending_Cons)
qed

text \<open>No joined thought is longer than the limit.\<close>

lemma joined_thought_short:
  assumes "joins_previous ty prev item"
  shows "length (get_str (join_entry prev item) ''text'' []) \<le> 4000"
  using assms by (simp add: joins_previous_def join_entry_def get_str_def get_default_def)

end
