(* ===== verification/Worker_Hub.thy ===== *)
theory Worker_Hub
  imports Session_Store Run_Index
begin

text \<open>
  The hub between the control plane and the local Workers (\<open>infrastructure/worker_hub.py\<close>):
  connections, dispatch, cancellation, approvals, progress events and the end of a task.

  A connection object is an address into \<open>hb_conns\<close>; \<open>hb_online\<close> is \<open>_connections\<close>, \<open>hb_active\<close> is
  \<open>_active_by_device\<close> (a set as the list of its elements), \<open>hb_devices\<close> is \<open>_device_by_task\<close>.
  \<open>call_soon_threadsafe\<close> appends to \<open>hb_calls\<close>, \<open>hub_loop_step\<close> is the event loop running the
  oldest call.  A future is an address into \<open>hb_futures\<close>.  \<open>hb_closed\<close> records the close codes
  sent on a websocket, whose own errors are not modelled.  The monotonic clock is \<open>st_clock\<close>.  The
  handlers of one connection run one after the other; each is one step here.
\<close>

section \<open>State\<close>

record worker_conn =
  cn_device :: device
  cn_ready :: bool
  cn_outbox :: "json option list"

record workspace_request =
  wr_id :: string
  wr_owner :: string
  wr_device :: string
  wr_created :: int
  wr_expires :: int
  wr_status :: string
  wr_workspace :: string
  wr_error :: string

datatype request_kind =
  Req_History | Req_Model | Req_Provider | Req_Rename | Req_Delete | Req_Uninstall | Req_Update

record pending_request =
  pq_owner :: string
  pq_device :: string
  pq_future :: nat
  pq_subject :: string
  pq_created :: int

datatype future = F_Waiting | F_Result "(string \<times> json) list" | F_Cancelled

datatype loop_call = Call_Put nat json | Call_Resolve nat "(string \<times> json) list" | Call_Close nat nat

record hub_state = session_state +
  hb_conns :: "worker_conn list"
  hb_online :: "(string \<times> nat) list"
  hb_active :: "(string \<times> string list) list"
  hb_devices :: "(string \<times> string) list"
  hb_selections :: "(string \<times> workspace_request) list"
  hb_pending :: "request_kind \<Rightarrow> (string \<times> pending_request) list"
  hb_futures :: "future list"
  hb_answers :: "(string \<times> int \<times> string) list"
  hb_progress :: "(string \<times> int \<times> (string \<times> json) list) list"
  hb_stream :: "(string \<times> (public_event \<times> (string \<times> json) list) list) list"
  hb_calls :: "loop_call list"
  hb_closed :: "(nat \<times> nat) list"

text \<open>
  The settings the hub reads, the process environment for the redaction, \<open>float\<close> of a text,
  SHA-256 and the keyed digest of the approvals; \<open>hc_task_settings\<close> are the entries of a task's
  settings that do not depend on the task.
\<close>

record hub_config = index_config +
  hc_environ :: environ
  hc_num :: "string \<Rightarrow> json option"
  hc_sha :: "string \<Rightarrow> nat"
  hc_mac :: "string \<Rightarrow> string"
  hc_max_tasks :: int
  hc_message_max :: nat
  hc_approval_timeout :: int
  hc_preview_max :: nat
  hc_task_settings :: "(string \<times> json) list"

type_synonym ('a, 'r) hub_act = "('a hub_state_scheme, exn, 'r) act"

definition EPHEMERAL_TTL :: int where
  "EPHEMERAL_TTL = 600"

definition STREAM_PERSIST_EVENTS :: "string set" where
  "STREAM_PERSIST_EVENTS = {''assistant.thinking'', ''assistant.commentary''}"

definition PERSISTED_EVENTS :: "string set" where
  "PERSISTED_EVENTS =
     {''plan.created'', ''plan.skipped'', ''model.started'', ''model.completed'', ''review.started'',
      ''review.completed'', ''review.skipped'', ''main_loop_rebuttal'', ''tool.requested'', ''tool.started'',
      ''tool.completed'', ''tool.failed'', ''message.completed''}"

definition raise_protocol :: "('a, 'r) hub_act" where
  "raise_protocol = act_raise (App Worker_Protocol_Error)"

section \<open>The event loop and the outboxes\<close>

definition OUTBOX_SIZE :: nat where
  "OUTBOX_SIZE = 256"

definition outbox_full :: "nat \<Rightarrow> 'a hub_state_scheme \<Rightarrow> bool" where
  "outbox_full a s \<longleftrightarrow> OUTBOX_SIZE \<le> length (cn_outbox (hb_conns s ! a))"

definition put_outbox :: "nat \<Rightarrow> json option \<Rightarrow> 'a hub_state_scheme \<Rightarrow> 'a hub_state_scheme" where
  "put_outbox a m s =
     s\<lparr>hb_conns := (hb_conns s)[a := (hb_conns s ! a)\<lparr>cn_outbox := cn_outbox (hb_conns s ! a) @ [m]\<rparr>]\<rparr>"

definition resolve_future :: "nat \<Rightarrow> (string \<times> json) list \<Rightarrow> 'a hub_state_scheme \<Rightarrow> 'a hub_state_scheme" where
  "resolve_future f result s =
     (if hb_futures s ! f = F_Waiting then s\<lparr>hb_futures := (hb_futures s)[f := F_Result result]\<rparr> else s)"

definition hub_loop_step :: "'a hub_state_scheme \<Rightarrow> 'a hub_state_scheme" where
  "hub_loop_step s =
     (case hb_calls s of
        [] \<Rightarrow> s
      | c # rest \<Rightarrow>
          let t = s\<lparr>hb_calls := rest\<rparr> in
          case c of
            Call_Put a m \<Rightarrow>
              if outbox_full a t then t\<lparr>hb_closed := hb_closed t @ [(a, 4002)]\<rparr> else put_outbox a (Some m) t
          | Call_Resolve f r \<Rightarrow> resolve_future f r t
          | Call_Close a code \<Rightarrow> t\<lparr>hb_closed := hb_closed t @ [(a, code)]\<rparr>)"

text \<open>One turn of \<open>sender\<close>: what it took from the outbox, \<open>None\<close> when there is nothing to take.\<close>

definition sender_step :: "nat \<Rightarrow> 'a hub_state_scheme \<Rightarrow> json option option \<times> 'a hub_state_scheme" where
  "sender_step a s =
     (case cn_outbox (hb_conns s ! a) of
        [] \<Rightarrow> (None, s)
      | m # r \<Rightarrow> (Some m, s\<lparr>hb_conns := (hb_conns s)[a := (hb_conns s ! a)\<lparr>cn_outbox := r\<rparr>]\<rparr>))"

definition hub_send ::
  "'c hub_config_scheme \<Rightarrow> string \<Rightarrow> (string \<times> json) list \<Rightarrow> ('a, unit) hub_act" where
  "hub_send cfg did msg =
     (if hc_message_max cfg < utf8_len (json_dumps False '','' '':'' (JObj msg)) then raise_protocol
      else act_bind (act_get (\<lambda>s. obj_get (hb_online s) did)) (\<lambda>c.
             case c of
               None \<Rightarrow> act_raise (App Worker_Offline)
             | Some a \<Rightarrow> act_modify (\<lambda>s. s\<lparr>hb_calls := hb_calls s @ [Call_Put a (JObj msg)]\<rparr>)))"

definition send_task_message ::
  "'c hub_config_scheme \<Rightarrow> string \<Rightarrow> string \<Rightarrow> string \<Rightarrow> bool \<Rightarrow> ('a, unit) hub_act" where
  "send_task_message cfg did tid content wake =
     hub_send cfg did [(''type'', JStr ''task.message''), (''task_id'', JStr tid),
                       (''content'', JStr content), (''wake'', JBool wake)]"

section \<open>Connections\<close>

definition online_conn :: "'a hub_state_scheme \<Rightarrow> string \<Rightarrow> worker_conn option" where
  "online_conn s did = map_option (nth (hb_conns s)) (obj_get (hb_online s) did)"

definition is_online :: "string \<Rightarrow> 'a hub_state_scheme \<Rightarrow> bool" where
  "is_online did s \<longleftrightarrow> (case online_conn s did of None \<Rightarrow> False | Some c \<Rightarrow> cn_ready c)"

definition online_devices :: "string \<Rightarrow> ('a, device list) hub_act" where
  "online_devices owner =
     act_bind (list_for_owner owner) (\<lambda>ds.
     act_bind (act_get (\<lambda>s. filter (\<lambda>d. is_online (d_id d) s) ds)) act_ret)"

definition online_ids :: "string \<Rightarrow> ('a, string set) hub_act" where
  "online_ids owner =
     act_bind (list_for_owner owner) (\<lambda>ds.
     act_bind (act_get (\<lambda>s. {did \<in> d_id ` set ds. is_online did s})) act_ret)"

definition active_of :: "'a hub_state_scheme \<Rightarrow> string \<Rightarrow> string list" where
  "active_of s did = (case obj_get (hb_active s) did of None \<Rightarrow> [] | Some ts \<Rightarrow> ts)"

definition pop_tasks :: "string \<Rightarrow> 'a hub_state_scheme \<Rightarrow> 'a hub_state_scheme" where
  "pop_tasks did s =
     s\<lparr>hb_active := obj_pop (hb_active s) did,
       hb_devices := fold (\<lambda>tid d. obj_pop d tid) (active_of s did) (hb_devices s)\<rparr>"

definition hub_release :: "string \<Rightarrow> string \<Rightarrow> ('a, unit) hub_act" where
  "hub_release tid did = act_modify (\<lambda>s.
     let t = s\<lparr>hb_devices := obj_pop (hb_devices s) tid\<rparr> in
     case obj_get (hb_active s) did of
       None \<Rightarrow> t
     | Some ts \<Rightarrow>
         let left = filter (\<lambda>x. x \<noteq> tid) ts in
         if left = [] then t\<lparr>hb_active := obj_pop (hb_active s) did\<rparr>
         else t\<lparr>hb_active := obj_put (hb_active s) did left\<rparr>)"

definition fail_selection :: "string \<Rightarrow> string \<Rightarrow> workspace_request \<Rightarrow> workspace_request" where
  "fail_selection did reason r =
     (if wr_device r = did \<and> wr_status r = ''pending'' then r\<lparr>wr_status := ''failed'', wr_error := reason\<rparr> else r)"

text \<open>\<open>_fail_workspace_requests_locked\<close> and \<open>_fail_pending_requests_locked\<close>.\<close>

definition fail_selections :: "string \<Rightarrow> string \<Rightarrow> 'a hub_state_scheme \<Rightarrow> 'a hub_state_scheme" where
  "fail_selections did reason s =
     s\<lparr>hb_selections := map (\<lambda>(k, r). (k, fail_selection did reason r)) (hb_selections s)\<rparr>"

definition request_kinds :: "request_kind list" where
  "request_kinds = [Req_History, Req_Model, Req_Provider, Req_Rename, Req_Delete, Req_Uninstall, Req_Update]"

definition requests_of :: "'a hub_state_scheme \<Rightarrow> pending_request list" where
  "requests_of s = concat (map (\<lambda>k. map snd (hb_pending s k)) request_kinds)"

definition fail_pending :: "string \<Rightarrow> string \<Rightarrow> 'a hub_state_scheme \<Rightarrow> 'a hub_state_scheme" where
  "fail_pending did reason s =
     s\<lparr>hb_calls := hb_calls s @
         map (\<lambda>r. Call_Resolve (pq_future r) [(''status'', JStr ''failed''), (''error'', JStr reason)])
           (filter (\<lambda>r. pq_device r = did \<and> hb_futures s ! pq_future r = F_Waiting) (requests_of s))\<rparr>"

section \<open>Task updates\<close>

text \<open>\<open>update\<close> with a function that may raise: then nothing is written.\<close>

definition task_update_try ::
  "string \<Rightarrow> (task \<Rightarrow> exn + task) \<Rightarrow> ('a store_state_scheme, exn, task) act" where
  "task_update_try tid fn =
     act_bind (task_read tid) (\<lambda>t.
     act_bind (act_lift (fn t)) (\<lambda>u.
     act_bind utc_now (\<lambda>now.
       let v = u\<lparr>t_updated_at := now\<rparr> in act_then (write_task v) (act_ret v))))"

definition set_cancel_requested :: "task \<Rightarrow> task" where
  "set_cancel_requested t = t\<lparr>t_status := Cancel_Requested, t_pending_approval := None\<rparr>"

definition set_worker_pending :: "approval \<Rightarrow> task \<Rightarrow> task" where
  "set_worker_pending a t =
     t\<lparr>t_status := Waiting_For_Approval,
       t_pending_approval := Some \<lparr>p_approval_id = a_approval_id a, p_tool_call_id = a_tool_call_id a,
         p_tool_name = a_tool_name a, p_args_preview = a_args_preview a,
         p_created_at = a_created_at a, p_expires_at = a_expires_at a\<rparr>\<rparr>"

definition clear_approval :: "task \<Rightarrow> task" where
  "clear_approval t = t\<lparr>t_status := Running, t_pending_approval := None\<rparr>"

definition set_worker_decision :: "approval_status \<Rightarrow> string \<Rightarrow> int \<Rightarrow> approval \<Rightarrow> approval" where
  "set_worker_decision st decision now a =
     a\<lparr>a_status := st, a_decision := Some decision, a_decided_at := Some now\<rparr>"

definition restore_worker_pending :: "approval \<Rightarrow> approval" where
  "restore_worker_pending a = a\<lparr>a_status := A_Pending, a_decision := None, a_decided_at := None\<rparr>"

definition set_worker_terminal ::
  "task_status \<Rightarrow> string \<Rightarrow> string \<Rightarrow> (string \<times> json) list \<Rightarrow> task \<Rightarrow> task" where
  "set_worker_terminal st reason answer err t =
     t\<lparr>t_status := st, t_stop_reason := Some reason,
       t_final_answer := (if answer = [] then None else Some answer), t_pending_approval := None,
       t_error_stage := get_str err ''error_stage'' [], t_error_code := get_str err ''error_code'' [],
       t_error_retryable := get_bool err ''error_retryable'',
       t_error_attempts := nonnegative_int (get_default err ''error_attempts'' (JInt 0))\<rparr>"

definition terminal_persisted_answer :: "task_status \<Rightarrow> string \<Rightarrow> string" where
  "terminal_persisted_answer st answer = (if st = Completed then [] else answer)"

definition clear_local_content :: "task \<Rightarrow> task" where
  "clear_local_content t = t\<lparr>t_input := [], t_final_answer := None\<rparr>"

definition approval_opts :: "string \<Rightarrow> string \<Rightarrow> publish_opts" where
  "approval_opts status summary =
     no_opts\<lparr>o_phase := ''approval'', o_status := status, o_summary := summary\<rparr>"

definition cancel_one_pending :: "task \<Rightarrow> string \<Rightarrow> approval \<Rightarrow> ('a, unit) hub_act" where
  "cancel_one_pending t decision a =
     act_bind utc_now (\<lambda>now.
     act_bind (approval_update (a_approval_id a) (set_worker_decision A_Cancelled decision now)) (\<lambda>_.
     act_bind (publish_event (t_task_id t) (t_run_id t) ''approval.resolved''
        [(''approval_id'', JStr (a_approval_id a)), (''status'', JStr ''cancelled''), (''decision'', JStr decision)]
        (approval_opts ''cancelled'' decision)) (\<lambda>_. act_ret ())))"

definition cancel_pending_approvals :: "task \<Rightarrow> string \<Rightarrow> ('a, unit) hub_act" where
  "cancel_pending_approvals t decision =
     act_bind (list_pending_for_task (t_task_id t)) (act_each (cancel_one_pending t decision))"

text \<open>\<open>_fail_task\<close>: whatever is raised ends it without a word.\<close>

definition hub_fail_task :: "string \<Rightarrow> string \<Rightarrow> task_status \<Rightarrow> ('a, unit) hub_act" where
  "hub_fail_task tid reason st =
     act_catch
       (act_bind (task_get tid) (\<lambda>t.
          if task_terminal (t_status t) then act_ret ()
          else act_then (cancel_pending_approvals t reason)
            (act_bind (task_update tid (set_worker_terminal st reason [] []) None) (\<lambda>_.
             act_bind (publish_event tid (t_run_id t)
                 (if st = Interrupted then ''task.interrupted'' else ''task.failed'')
                 [(''stop_reason'', JStr reason), (''final_answer'', JStr [])]
                 (final_opts (if st = Interrupted then ''interrupted'' else ''failed'') reason))
               (\<lambda>_. act_ret ())))))
       (\<lambda>_. act_ret ())"

section \<open>Coming and going\<close>

text \<open>\<open>_flush_stream_events\<close>: one update for all the deferred events of a task, in their order.\<close>

definition flush_stream :: "'c index_config_scheme \<Rightarrow> string \<Rightarrow> ('a, unit) hub_act" where
  "flush_stream cfg tid =
     act_bind (act_get (\<lambda>s. obj_get (hb_stream s) tid)) (\<lambda>pending.
     act_then (act_modify (\<lambda>s. s\<lparr>hb_stream := obj_pop (hb_stream s) tid\<rparr>))
       (case pending of
          None \<Rightarrow> act_ret ()
        | Some evs \<Rightarrow>
            if evs = [] then act_ret ()
            else act_bind (task_update tid (append_pending cfg evs) None) (\<lambda>_. act_ret ())))"

text \<open>
  \<open>connect\<close>: the new object takes the place of the previous one, whose tasks fail; then the
  previous websocket is closed.  The address is that of the new connection.
\<close>

definition hub_connect :: "device \<Rightarrow> ('a, nat) hub_act" where
  "hub_connect d =
     act_bind (act_get (\<lambda>s. (length (hb_conns s), obj_get (hb_online s) (d_id d), active_of s (d_id d))))
       (\<lambda>(a, previous, tids).
     act_then (act_modify (\<lambda>s. s\<lparr>hb_conns := hb_conns s @ [\<lparr>cn_device = d, cn_ready = False, cn_outbox = []\<rparr>],
                                 hb_online := obj_put (hb_online s) (d_id d) a\<rparr>))
       (case previous of
          None \<Rightarrow> act_ret a
        | Some b \<Rightarrow>
            act_then (act_modify (\<lambda>s.
                pop_tasks (d_id d) (fail_pending (d_id d) ''worker_reconnected''
                  (fail_selections (d_id d) ''worker_reconnected'' s))))
              (act_then (act_each (\<lambda>tid. hub_fail_task tid ''worker_reconnected'' Failed) tids)
                (act_then (act_modify (\<lambda>s. s\<lparr>hb_closed := hb_closed s @ [(b, 4001)]\<rparr>)) (act_ret a)))))"

definition hub_disconnect :: "'c index_config_scheme \<Rightarrow> nat \<Rightarrow> ('a, unit) hub_act" where
  "hub_disconnect cfg a =
     act_bind (act_get (\<lambda>s. d_id (cn_device (hb_conns s ! a)))) (\<lambda>did.
     act_bind (act_get (\<lambda>s. if obj_get (hb_online s) did = Some a then active_of s did else [])) (\<lambda>tids.
     act_bind (act_get (\<lambda>s. obj_get (hb_online s) did = Some a)) (\<lambda>current.
     act_then (act_when current (act_modify (\<lambda>s.
         pop_tasks did (fail_pending did ''worker_disconnected''
           (fail_selections did ''worker_disconnected'' (s\<lparr>hb_online := obj_pop (hb_online s) did\<rparr>))))))
       (act_then (act_each (\<lambda>tid. act_then (flush_stream cfg tid)
                                    (hub_fail_task tid ''worker_disconnected'' Interrupted)) tids)
         (act_modify (\<lambda>s. if outbox_full a s then s else put_outbox a None s))))))"

definition hub_revoke :: "string \<Rightarrow> string \<Rightarrow> ('a, unit) hub_act" where
  "hub_revoke did owner =
     act_bind (device_get_for_owner did owner) (\<lambda>_.
     act_bind (act_get (\<lambda>s. (obj_get (hb_online s) did, active_of s did))) (\<lambda>(c, tids).
     act_then (act_modify (\<lambda>s.
         pop_tasks did (fail_pending did ''worker_revoked''
           (fail_selections did ''worker_revoked'' (s\<lparr>hb_online := obj_pop (hb_online s) did\<rparr>)))))
       (act_then (device_revoke did owner)
         (act_then (act_each (\<lambda>tid. hub_fail_task tid ''worker_revoked'' Failed) tids)
           (case c of
              None \<Rightarrow> act_ret ()
            | Some a \<Rightarrow> act_modify (\<lambda>s. s\<lparr>hb_calls := hb_calls s @ [Call_Close a 4003]\<rparr>))))))"

section \<open>Tasks\<close>

text \<open>The message that starts a task; the session and the settings are passed on as they are.\<close>

definition start_message :: "'c hub_config_scheme \<Rightarrow> task \<Rightarrow> (string \<times> json) list \<Rightarrow> (string \<times> json) list" where
  "start_message cfg t session =
     [(''type'', JStr ''task.start''),
      (''task'', JObj
         [(''task_id'', JStr (t_task_id t)), (''run_id'', JStr (t_run_id t)),
          (''session_id'', JStr (t_session_id t)), (''workspace_id'', JStr (t_workspace_id t)),
          (''input'', JStr (t_input t)), (''max_steps'', JInt (t_max_steps t)),
          (''permission_mode'', JStr (t_permission_mode t)), (''session'', JObj session),
          (''settings'', JObj
             ([(''model_id'', JStr (t_model_id t)), (''reasoning_effort'', JStr (t_reasoning_effort t)),
               (''provider_id'', JStr (t_provider_id t)), (''review_provider_id'', JStr (t_review_provider_id t)),
               (''review_model_id'', JStr (t_review_model_id t)),
               (''review_reasoning_effort'', JStr (t_review_reasoning_effort t))] @ hc_task_settings cfg))])]"

definition session_matches :: "task \<Rightarrow> (string \<times> json) list \<Rightarrow> bool" where
  "session_matches t session \<longleftrightarrow>
     obj_get session ''owner_id'' = Some (JStr (t_owner_id t)) \<and>
     obj_get session ''workspace_id'' = Some (JStr (t_workspace_id t)) \<and>
     obj_get session ''device_id'' = Some (JStr (t_device_id t))"

definition assign_task :: "string \<Rightarrow> string \<Rightarrow> 'a hub_state_scheme \<Rightarrow> 'a hub_state_scheme" where
  "assign_task tid did s =
     s\<lparr>hb_active := obj_put (hb_active s) did (add_new tid (active_of s did)),
       hb_devices := obj_put (hb_devices s) tid did\<rparr>"

definition system_opts :: publish_opts where
  "system_opts = no_opts\<lparr>o_phase := ''system'', o_status := ''running''\<rparr>"

text \<open>\<open>dispatch\<close>: the checks and the assignment, then \<open>hub_start\<close>, which gives the slot back when it fails.\<close>

definition hub_start ::
  "'c hub_config_scheme \<Rightarrow> task \<Rightarrow> (string \<times> json) list \<Rightarrow> ('a, unit) hub_act" where
  "hub_start cfg t session =
     act_catch
       (act_bind (task_update (t_task_id t) (set_status Running) None) (\<lambda>_.
        act_bind (publish_event (t_task_id t) (t_run_id t) ''task.started'' [] system_opts) (\<lambda>_.
          hub_send cfg (t_device_id t) (start_message cfg t session))))
       (\<lambda>e. act_then (hub_release (t_task_id t) (t_device_id t)) (act_raise e))"

definition hub_dispatch ::
  "'c hub_config_scheme \<Rightarrow> task \<Rightarrow> (string \<times> json) list \<Rightarrow> ('a, unit) hub_act" where
  "hub_dispatch cfg t session =
     act_bind (act_get (\<lambda>s. (online_conn s (t_device_id t), length (active_of s (t_device_id t))))) (\<lambda>(c, n).
       case c of
         None \<Rightarrow> act_raise (App Worker_Offline)
       | Some conn \<Rightarrow>
           if \<not> cn_ready conn then act_raise (App Worker_Offline)
           else if d_owner (cn_device conn) \<noteq> t_owner_id t \<or> \<not> session_matches t session \<or>
             t_workspace_id t \<notin> ws_id ` set (d_workspaces (cn_device conn)) then raise_protocol
           else if hc_max_tasks cfg \<le> int n
           then act_raise (App (Worker_Concurrency_Limit (t_device_id t) (hc_max_tasks cfg)))
           else act_then (act_modify (assign_task (t_task_id t) (t_device_id t))) (hub_start cfg t session))"

definition hub_cancel :: "'c hub_config_scheme \<Rightarrow> string \<Rightarrow> ('a, bool) hub_act" where
  "hub_cancel cfg tid =
     act_bind (act_get (\<lambda>s. obj_get (hb_devices s) tid)) (\<lambda>d.
       case d of
         None \<Rightarrow> act_ret False
       | Some did \<Rightarrow>
           if did = [] then act_ret False
           else act_bind (task_get tid) (\<lambda>t.
             act_then
               (act_when (\<not> task_terminal (t_status t))
                 (act_then (cancel_pending_approvals t ''cancelled'')
                   (act_bind (task_update tid set_cancel_requested None) (\<lambda>_.
                    act_bind (publish_event tid (t_run_id t) ''task.cancel_requested'' []
                               (final_opts ''cancel_requested'' [])) (\<lambda>_. act_ret ())))))
               (act_then (hub_send cfg did [(''type'', JStr ''task.cancel''), (''task_id'', JStr tid)])
                 (act_ret True))))"

definition persist_decision :: "approval \<Rightarrow> approval_status \<Rightarrow> string \<Rightarrow> ('a, unit) hub_act" where
  "persist_decision a st decision =
     act_catch
       (act_bind utc_now (\<lambda>now.
        act_bind (approval_update (a_approval_id a) (set_worker_decision st decision now)) (\<lambda>_.
        act_bind (task_update (a_task_id a) clear_approval None) (\<lambda>_. act_ret ()))))
       (\<lambda>e. act_then
              (act_catch (act_bind (approval_update (a_approval_id a) restore_worker_pending) (\<lambda>_. act_ret ()))
                (\<lambda>_. act_ret ()))
              (act_raise (App Persistence_Unavailable)))"

definition hub_resolve :: "'c hub_config_scheme \<Rightarrow> string \<Rightarrow> string \<Rightarrow> ('a, approval) hub_act" where
  "hub_resolve cfg aid decision =
     act_bind (approval_get aid) (\<lambda>a.
       if a_status a \<noteq> A_Pending then
         (if a_decision a = Some decision then act_ret a else act_raise (App Approval_Already_Resolved))
       else act_bind utc_now (\<lambda>now.
         if a_expires_at a < now then act_raise (App Approval_Expired)
         else act_bind (act_get (\<lambda>s. obj_get (hb_devices s) (a_task_id a))) (\<lambda>d.
              act_bind (act_get (\<lambda>s. case d of None \<Rightarrow> False | Some did \<Rightarrow> did \<noteq> [] \<and> is_online did s)) (\<lambda>ready.
                if \<not> ready then act_raise (App Approval_Stale)
                else act_bind (task_get (a_task_id a)) (\<lambda>t.
                  if t_status t \<noteq> Waiting_For_Approval then act_raise (App Approval_Stale)
                  else
                    (let st = (if decision = ''approved'' then A_Approved else A_Rejected) in
                     act_then (persist_decision a st decision)
                       (act_bind (publish_event (a_task_id a) (a_run_id a) ''approval.resolved''
                           [(''approval_id'', JStr aid), (''status'', JStr (approval_status_value st)),
                            (''decision'', JStr decision)]
                           (approval_opts (approval_status_value st) decision)) (\<lambda>_.
                        act_then (hub_send cfg (the d)
                            [(''type'', JStr ''approval.decision''), (''task_id'', JStr (a_task_id a)),
                             (''approval_id'', JStr aid), (''tool_call_id'', JStr (a_tool_call_id a)),
                             (''decision'', JStr decision), (''args_digest'', JStr (a_request_digest a))])
                          (approval_get aid)))))))))"

section \<open>Messages of a Worker\<close>

text \<open>\<open>self._send(connection.device.device_id, ...)\<close>, and \<open>_assigned_task\<close>.\<close>

definition send_to :: "'c hub_config_scheme \<Rightarrow> nat \<Rightarrow> (string \<times> json) list \<Rightarrow> ('a, unit) hub_act" where
  "send_to cfg a msg =
     act_bind (act_get (\<lambda>s. d_id (cn_device (hb_conns s ! a)))) (\<lambda>did. hub_send cfg did msg)"

definition assigned_task :: "nat \<Rightarrow> string \<Rightarrow> ('a, task) hub_act" where
  "assigned_task a tid =
     act_bind (act_get (\<lambda>s. (cn_device (hb_conns s ! a), obj_get (hb_devices s) tid))) (\<lambda>(dev, assigned).
       if assigned \<noteq> Some (d_id dev) then raise_protocol
       else act_bind (task_get tid) (\<lambda>t.
              if t_owner_id t \<noteq> d_owner dev then raise_protocol else act_ret t))"

text \<open>The two caches that expire: the progress and the answers, five hundred and twelve of each.\<close>

definition trim_oldest :: "nat \<Rightarrow> 'v list \<Rightarrow> 'v list" where
  "trim_oldest n xs = drop (length xs - n) xs"

definition remember_progress :: "string \<Rightarrow> (string \<times> json) list \<Rightarrow> ('a, unit) hub_act" where
  "remember_progress tid progress = act_modify (\<lambda>s.
     s\<lparr>hb_progress := trim_oldest 512 (obj_put (hb_progress s) tid (st_clock s, progress))\<rparr>)"

definition ephemeral_progress :: "string \<Rightarrow> ('a, (string \<times> json) list option) hub_act" where
  "ephemeral_progress tid = (\<lambda>s.
     case obj_get (hb_progress s) tid of
       None \<Rightarrow> (Inr None, s)
     | Some (at, progress) \<Rightarrow>
         if EPHEMERAL_TTL \<le> st_clock s - at then (Inr None, s\<lparr>hb_progress := obj_pop (hb_progress s) tid\<rparr>)
         else (Inr (Some progress), s))"

definition expire_answers :: "'a hub_state_scheme \<Rightarrow> 'a hub_state_scheme" where
  "expire_answers s =
     s\<lparr>hb_answers := filter (\<lambda>(_, at, _). \<not> EPHEMERAL_TTL \<le> st_clock s - at) (hb_answers s)\<rparr>"

definition remember_answer :: "string \<Rightarrow> string \<Rightarrow> ('a, unit) hub_act" where
  "remember_answer tid answer =
     act_then (act_modify expire_answers) (act_modify (\<lambda>s.
       s\<lparr>hb_answers := trim_oldest 512 (obj_put (hb_answers s) tid (st_clock s, answer))\<rparr>))"

definition ephemeral_answer :: "string \<Rightarrow> ('a, string option) hub_act" where
  "ephemeral_answer tid =
     act_then (act_modify expire_answers)
       (act_get (\<lambda>s. map_option snd (obj_get (hb_answers s) tid)))"

definition enqueue_stream ::
  "string \<Rightarrow> public_event \<Rightarrow> (string \<times> json) list \<Rightarrow> ('a, unit) hub_act" where
  "enqueue_stream tid ev d = act_modify (\<lambda>s.
     s\<lparr>hb_stream := obj_put (hb_stream s) tid
         ((case obj_get (hb_stream s) tid of None \<Rightarrow> [] | Some evs \<Rightarrow> evs) @ [(ev, d)])\<rparr>)"

definition keep_event ::
  "'c index_config_scheme \<Rightarrow> string \<Rightarrow> public_event \<Rightarrow> (string \<times> json) list \<Rightarrow> ('a, unit) hub_act" where
  "keep_event cfg tid ev d =
     (if e_type ev \<in> STREAM_PERSIST_EVENTS then enqueue_stream tid ev d
      else if e_type ev \<in> PERSISTED_EVENTS
      then act_then (flush_stream cfg tid)
             (act_bind (task_update_try tid (append_run_index cfg ev d)) (\<lambda>_. act_ret ()))
      else act_ret ())"

definition handle_event ::
  "'c hub_config_scheme \<Rightarrow> nat \<Rightarrow> (string \<times> json) list \<Rightarrow> ('a, unit) hub_act" where
  "handle_event cfg a msg =
     (let tid = get_str msg ''task_id'' []; ty = get_str msg ''event_type'' [] in
      act_bind (assigned_task a tid) (\<lambda>t.
        if \<not> is_code ty then raise_protocol
        else if ty \<notin> PUBLIC_WORKER_EVENTS then act_ret ()
        else case get_default msg ''data'' (JObj []) of
               JObj d \<Rightarrow>
                 if t_status t = Cancel_Requested then act_ret ()
                 else let safe = sanitize_event_data (hc_environ cfg) (hc_num cfg) ty d in
                   act_then (act_when (ty = ''agent.state'') (remember_progress tid safe))
                     (act_bind (publish_event tid (t_run_id t) ty safe (envelope_metadata ty safe)) (\<lambda>ev.
                        keep_event cfg tid (event_to_dict ev) safe))
             | _ \<Rightarrow> raise_protocol))"

text \<open>\<open>encoded[:n].decode("utf-8", errors="ignore")\<close>: a character that is cut in two is dropped.\<close>

fun utf8_take :: "nat \<Rightarrow> string \<Rightarrow> string" where
  "utf8_take n [] = []"
| "utf8_take n (c # cs) =
     (let k = (if (of_char c :: nat) < 128 then 1 else 2) in
      if k \<le> n then c # utf8_take (n - k) cs else [])"

definition approval_preview :: "'c hub_config_scheme \<Rightarrow> (string \<times> json) list \<Rightarrow> json" where
  "approval_preview cfg args =
     (let preview = redact_artifact (hc_environ cfg) [] [] (JObj args) in
      if hc_preview_max cfg < utf8_len (canonical_json preview)
      then JObj [(''_truncated'', JBool True), (''text'', JStr (utf8_take (hc_preview_max cfg) (canonical_json preview)))]
      else preview)"

definition register_approval :: "string \<Rightarrow> approval \<Rightarrow> ('a, unit) hub_act" where
  "register_approval tid a =
     act_catch
       (act_bind (task_update tid (set_worker_pending a) None) (\<lambda>_.
        act_bind (approval_create a) (\<lambda>_. act_ret ())))
       (\<lambda>e. act_then
              (act_catch (act_bind (task_update tid clear_approval None) (\<lambda>_. act_ret ())) (\<lambda>_. act_ret ()))
              (act_raise (App Persistence_Unavailable)))"

definition handle_approval ::
  "'c hub_config_scheme \<Rightarrow> nat \<Rightarrow> (string \<times> json) list \<Rightarrow> ('a, unit) hub_act" where
  "handle_approval cfg a msg =
     (let tid = get_str msg ''task_id'' []; call = get_str msg ''tool_call_id'' [];
          tool = get_str msg ''tool_name'' [] in
      act_bind (assigned_task a tid) (\<lambda>t.
        if call = [] \<or> 200 < length call \<or> tool = [] \<or> 100 < length tool then raise_protocol
        else case get_default msg ''args'' (JObj []) of
          JObj args \<Rightarrow>
            let digest = hexdigest (hc_sha cfg) (canonical_json (JObj args)) in
            act_bind (act_lift (compare_digest (get_str msg ''args_digest'' []) digest)) (\<lambda>same.
            if \<not> same then raise_protocol
            else act_bind (fresh_id ''apr_'') (\<lambda>aid.
                 act_bind utc_now (\<lambda>now.
                   let preview = approval_preview cfg args;
                       approval = (new_approval now aid tid (t_run_id t) (t_owner_id t) call tool
                                     (hc_mac cfg (canonical_json (JObj args))) preview
                                     (now + hc_approval_timeout cfg))\<lparr>a_request_digest := digest\<rparr>
                   in act_bind (task_get tid) (\<lambda>current.
                     if t_status current = Cancel_Requested then act_ret ()
                     else if t_status current \<noteq> Running \<or> t_pending_approval current \<noteq> None then raise_protocol
                     else act_then (register_approval tid approval)
                       (act_bind (publish_event tid (t_run_id t) ''approval.required''
                           [(''approval_id'', JStr aid), (''tool_call_id'', JStr call), (''tool_name'', JStr tool),
                            (''args_preview'', preview), (''created_at'', JStr (hc_iso cfg now)),
                            (''expires_at'', JStr (hc_iso cfg (now + hc_approval_timeout cfg)))]
                           (approval_opts ''pending'' tool)) (\<lambda>_.
                        send_to cfg a
                          [(''type'', JStr ''approval.registered''), (''task_id'', JStr tid),
                           (''tool_call_id'', JStr call), (''approval_id'', JStr aid)]))))))
        | _ \<Rightarrow> raise_protocol))"

subsection \<open>The end of a task\<close>

text \<open>\<open>default_memory_state()\<close> as JSON (\<open>pico/features/memory.py\<close>).\<close>

definition empty_memory :: json where
  "empty_memory =
     JObj [(''working'', JObj [(''task_summary'', JStr []), (''recent_files'', JList []), (''listed_dirs'', JList [])]),
           (''episodic_notes'', JList []), (''file_summaries'', JObj []), (''task'', JStr []), (''files'', JList []),
           (''notes'', JList []), (''next_note_index'', JInt 0)]"

definition scrub_session :: "(string \<times> json) list \<Rightarrow> (string \<times> json) list" where
  "scrub_session d =
     fold (\<lambda>k x. obj_pop x k) [''checkpoints'', ''runtime_identity'', ''resume_state'']
       (obj_put (obj_put d ''history'' (JList [])) ''memory'' empty_memory)"

definition scrub_changes :: "(string \<times> json) list \<Rightarrow> bool" where
  "scrub_changes d \<longleftrightarrow>
     obj_get d ''history'' \<noteq> Some (JList []) \<or> obj_get d ''memory'' \<noteq> Some empty_memory \<or>
     list_ex (\<lambda>k. obj_get d k \<noteq> None) [''checkpoints'', ''runtime_identity'', ''resume_state'']"

text \<open>The tasks of a session that ran on a Worker lose their text; \<open>list_for_session\<close> gives the newest hundred.\<close>

definition scrub_task :: "task \<Rightarrow> ('a, unit) hub_act" where
  "scrub_task t =
     act_when (t_execution_environment t = ''local_worker'' \<and>
               (t_input t \<noteq> [] \<or> (case t_final_answer t of None \<Rightarrow> False | Some x \<Rightarrow> x \<noteq> [])))
       (act_bind (task_update (t_task_id t) clear_local_content None) (\<lambda>_. act_ret ()))"

definition scrub_tasks :: "string \<Rightarrow> string \<Rightarrow> ('a, unit) hub_act" where
  "scrub_tasks sid owner =
     act_bind (task_list_for_session sid owner 100) (\<lambda>(ts, _). act_each scrub_task ts)"

definition update_session_count :: "task \<Rightarrow> json \<Rightarrow> bool \<Rightarrow> ('a, unit) hub_act" where
  "update_session_count t count persisted =
     act_bind (session_load (t_session_id t)) (\<lambda>current.
       if \<not> session_matches t current then raise_protocol
       else act_bind (act_get dv_now) (\<lambda>now.
         let counted = obj_put (obj_put current ''local_message_total'' count) ''updated_at'' (JStr now)
         in act_then (session_save (if persisted then scrub_session counted else counted))
              (act_when persisted (scrub_tasks (t_session_id t) (t_owner_id t)))))"

definition terminal_statuses :: "(string \<times> task_status) list" where
  "terminal_statuses =
     [(''completed'', Completed), (''cancelled'', Cancelled), (''failed'', Failed),
      (''interrupted'', Interrupted), (''blocked'', Blocked)]"

text \<open>What a terminal message amounts to: a cancellation that was asked for wins over completion.\<close>

record terminal_report =
  tm_status :: task_status
  tm_reason :: string
  tm_answer :: string
  tm_error :: "(string \<times> json) list"

definition report_end :: "'c hub_config_scheme \<Rightarrow> task_status \<Rightarrow> task_status \<Rightarrow> (string \<times> json) list \<Rightarrow> terminal_report" where
  "report_end cfg current st msg =
     (let reason = (if cut 200 msg ''stop_reason'' = [] then ''runtime_error'' else cut 200 msg ''stop_reason'');
          won = (current = Cancel_Requested \<and> st = Completed)
      in \<lparr>tm_status = (if won then Cancelled else st),
          tm_reason = (if won then ''user_cancelled'' else reason),
          tm_answer = (if won then []
                       else py_str (redact_artifact (hc_environ cfg) [] [] (JStr (get_str msg ''final_answer'' [])))),
          tm_error = sanitize_terminal_error (get_default msg ''error'' (JObj []))\<rparr>)"

definition terminal_data :: "terminal_report \<Rightarrow> (string \<times> json) list" where
  "terminal_data r = [(''final_answer'', JStr (tm_answer r)), (''stop_reason'', JStr (tm_reason r))] @ tm_error r"

definition settle_task :: "'c index_config_scheme \<Rightarrow> task \<Rightarrow> terminal_report \<Rightarrow> ('a, unit) hub_act" where
  "settle_task cfg t r =
     act_then (cancel_pending_approvals t (tm_reason r))
       (act_bind (task_update (t_task_id t)
            (set_worker_terminal (tm_status r) (tm_reason r) (terminal_persisted_answer (tm_status r) (tm_answer r)) (tm_error r))
            None) (\<lambda>_.
        act_then
          (act_when (tm_status r = Completed)
            (act_then (remember_answer (t_task_id t) (tm_answer r))
              (act_bind (publish_event (t_task_id t) (t_run_id t) ''message.completed''
                 [(''text'', JStr (tm_answer r))] (final_opts ''completed'' [])) (\<lambda>_. act_ret ()))))
          (act_bind (publish_event (t_task_id t) (t_run_id t) (terminal_event (tm_status r)) (terminal_data r)
                      (final_opts (task_status_value (tm_status r)) (tm_reason r))) (\<lambda>ev.
           act_bind (task_update_try (t_task_id t) (append_run_index cfg (event_to_dict ev) (terminal_data r)))
             (\<lambda>_. act_ret ())))))"

definition handle_terminal ::
  "'c hub_config_scheme \<Rightarrow> nat \<Rightarrow> (string \<times> json) list \<Rightarrow> ('a, unit) hub_act" where
  "handle_terminal cfg a msg =
     (let tid = get_str msg ''task_id'' [] in
      act_bind (assigned_task a tid) (\<lambda>t.
        case obj_get terminal_statuses (get_str msg ''status'' ''failed'') of
          None \<Rightarrow> raise_protocol
        | Some st \<Rightarrow>
            let count = get_default msg ''message_total'' (JInt 0) in
            case int_like count of
              None \<Rightarrow> raise_protocol
            | Some n \<Rightarrow>
                if n < 0 then raise_protocol
                else case get_default msg ''session_persisted'' (JBool False) of
                  JBool persisted \<Rightarrow>
                    act_then (update_session_count t count persisted)
                      (act_then (settle_task cfg t (report_end cfg (t_status t) st msg))
                        (act_bind (act_get (\<lambda>s. d_id (cn_device (hb_conns s ! a)))) (hub_release tid)))
                | _ \<Rightarrow> raise_protocol))"

text \<open>The branch of \<open>handle\<close> for a terminal message: the deferred events go first.\<close>

definition handle_terminal_message ::
  "'c hub_config_scheme \<Rightarrow> nat \<Rightarrow> (string \<times> json) list \<Rightarrow> ('a, unit) hub_act" where
  "handle_terminal_message cfg a msg =
     act_then (flush_stream cfg (get_str msg ''task_id'' [])) (handle_terminal cfg a msg)"

end
