(* ===== verification/Worker_Requests.thy ===== *)
theory Worker_Requests
  imports Worker_Hub
begin

text \<open>
  The requests of the control plane to a Worker and the Worker's answers, its presence and its
  session index (\<open>infrastructure/worker_hub.py\<close>).

  A request of the API is two steps: \<open>request_begin\<close> registers it and sends the message, and
  \<open>request_end\<close> is what the coroutine does when its future has a result or the time is up
  (\<open>wait_for\<close> cancels the future then).  In between the Worker's answer is handled, or not.
\<close>

section \<open>Registering\<close>

definition cancel_future :: "nat \<Rightarrow> 'a hub_state_scheme \<Rightarrow> 'a hub_state_scheme" where
  "cancel_future f s =
     (if hb_futures s ! f = F_Waiting then s\<lparr>hb_futures := (hb_futures s)[f := F_Cancelled]\<rparr> else s)"

definition expire_requests :: "'a hub_state_scheme \<Rightarrow> 'a hub_state_scheme" where
  "expire_requests s =
     (let old = (\<lambda>r. pq_created r < st_clock s - 60)
      in fold (\<lambda>r. cancel_future (pq_future r)) (filter old (requests_of s))
           (s\<lparr>hb_pending := \<lambda>k. filter (\<lambda>(_, r). \<not> old r) (hb_pending s k)\<rparr>))"

definition add_request ::
  "request_kind \<Rightarrow> string \<Rightarrow> string \<Rightarrow> string \<Rightarrow> string \<Rightarrow> 'a hub_state_scheme \<Rightarrow> 'a hub_state_scheme" where
  "add_request k rid owner did subject s =
     s\<lparr>hb_pending := (hb_pending s)(k := obj_put (hb_pending s k) rid
         \<lparr>pq_owner = owner, pq_device = did, pq_future = length (hb_futures s), pq_subject = subject,
          pq_created = st_clock s\<rparr>),
       hb_futures := hb_futures s @ [F_Waiting]\<rparr>"

definition subject_busy :: "request_kind \<Rightarrow> string \<Rightarrow> string \<Rightarrow> 'a hub_state_scheme \<Rightarrow> bool" where
  "subject_busy k did subject s \<longleftrightarrow>
     (k = Req_Rename \<or> k = Req_Delete) \<and>
     list_ex (\<lambda>(_, r). pq_device r = did \<and> pq_subject r = subject) (hb_pending s k)"

text \<open>\<open>_register_pending_request\<close>; the result is the future.\<close>

definition register_request ::
  "request_kind \<Rightarrow> string \<Rightarrow> string \<Rightarrow> string \<Rightarrow> string \<Rightarrow> string \<Rightarrow> ('a, nat) hub_act" where
  "register_request k rid did owner capability subject =
     act_then (act_modify expire_requests)
       (act_bind (act_get (\<lambda>s. (subject_busy k did subject s, online_conn s did, length (hb_futures s))))
         (\<lambda>(busy, c, f).
            if busy then act_raise (App Rename_Conflict)
            else case c of
              None \<Rightarrow> act_raise (App Worker_Offline)
            | Some conn \<Rightarrow>
                if \<not> cn_ready conn then act_raise (App Worker_Offline)
                else if capability \<notin> set (d_capabilities (cn_device conn))
                then act_raise (App Worker_Capability_Unavailable)
                else act_then (act_modify (add_request k rid owner did subject)) (act_ret f)))"

definition drop_request :: "request_kind \<Rightarrow> string \<Rightarrow> 'a hub_state_scheme \<Rightarrow> 'a hub_state_scheme" where
  "drop_request k rid s = s\<lparr>hb_pending := (hb_pending s)(k := obj_pop (hb_pending s k) rid)\<rparr>"

text \<open>
  The first half: a fresh id, the registration, the message.  A message that cannot be sent takes
  the registration back (the \<open>finally\<close> of every request).
\<close>

definition request_begin ::
  "'c hub_config_scheme \<Rightarrow> request_kind \<Rightarrow> string \<Rightarrow> string \<Rightarrow> string \<Rightarrow> string \<Rightarrow> string
     \<Rightarrow> (string \<Rightarrow> (string \<times> json) list) \<Rightarrow> ('a, string \<times> nat) hub_act" where
  "request_begin cfg k prefix did owner capability subject msg =
     act_bind (fresh_id prefix) (\<lambda>rid.
     act_bind (register_request k rid did owner capability subject) (\<lambda>f.
       act_try (hub_send cfg did (msg rid)) (\<lambda>_. act_ret (rid, f))
         (\<lambda>e. act_then (act_modify (drop_request k rid)) (act_raise e))))"

text \<open>
  The second half.  The requests for a history, a model or a provider stay registered after a
  time-out, so that a late answer is still accepted; the others are dropped.
\<close>

definition stays_after_timeout :: "request_kind \<Rightarrow> bool" where
  "stays_after_timeout k \<longleftrightarrow> k = Req_History \<or> k = Req_Model \<or> k = Req_Provider"

definition request_end ::
  "request_kind \<Rightarrow> string \<Rightarrow> (string \<times> json) list option \<Rightarrow> nat \<Rightarrow> ('a, (string \<times> json) list) hub_act" where
  "request_end k rid result f =
     (case result of
        None \<Rightarrow>
          act_then (act_modify (cancel_future f))
            (act_then (act_when (\<not> stays_after_timeout k) (act_modify (drop_request k rid)))
              (act_raise (App Worker_Offline)))
      | Some r \<Rightarrow> act_then (act_modify (drop_request k rid)) (act_ret r))"

section \<open>What the API answers\<close>

text \<open>\<open>_worker_command_error\<close>.\<close>

definition worker_command_error :: "string \<Rightarrow> app_error" where
  "worker_command_error reason =
     (if reason = ''worker_busy'' then Worker_Busy
      else if reason = ''update_unavailable'' then Update_Unavailable
      else if reason = ''update_backoff'' then Update_Backoff
      else if reason = ''uninstall_unavailable'' then Uninstall_Unavailable
      else Worker_Command_Failed)"

definition completed :: "(string \<times> json) list \<Rightarrow> bool" where
  "completed r \<longleftrightarrow> obj_get r ''status'' = Some (JStr ''completed'')"

definition history_answer :: "(string \<times> json) list \<Rightarrow> exn + (string \<times> json) list" where
  "history_answer r =
     (if completed r then Inr r
      else if obj_get r ''error'' = Some (JStr ''history_unavailable'')
      then Inr [(''messages'', JList []), (''message_total'', JInt 0)]
      else Inl (App Worker_Command_Failed))"

definition model_answer :: "(string \<times> json) list \<Rightarrow> exn + (string \<times> json) list" where
  "model_answer r =
     (if completed r
      then Inr [(''status'', JStr ''completed''), (''model'', get_default r ''model'' (JStr []))]
      else Inl (App Worker_Command_Failed))"

definition provider_answer :: "string \<Rightarrow> (string \<times> json) list \<Rightarrow> exn + (string \<times> json) list" where
  "provider_answer pid r =
     (if completed r then Inr [(''provider_id'', JStr pid), (''status'', JStr ''completed'')]
      else Inl (App Worker_Command_Failed))"

definition models_answer :: "string \<Rightarrow> (string \<times> json) list \<Rightarrow> exn + (string \<times> json) list" where
  "models_answer pid r =
     (if completed r then Inr [(''provider_id'', JStr pid), (''models'', get_default r ''models'' (JList []))]
      else Inl (App Worker_Command_Failed))"

definition delete_answer :: "string \<Rightarrow> string \<Rightarrow> (string \<times> json) list \<Rightarrow> exn + (string \<times> json) list" where
  "delete_answer ety eid r =
     (if completed r
      then Inr [(''status'', JStr ''deleted''), (''entity_type'', JStr ety), (''entity_id'', JStr eid),
                (''deleted_session_ids'', get_default r ''deleted_session_ids'' (JList []))]
      else Inl (App Worker_Command_Failed))"

definition uninstall_answer :: "string \<Rightarrow> (string \<times> json) list \<Rightarrow> exn + (string \<times> json) list" where
  "uninstall_answer did r =
     (if completed r then Inr [(''status'', JStr ''uninstalling''), (''device_id'', JStr did)]
      else Inl (App (worker_command_error (get_str r ''error'' ''uninstall_failed''))))"

definition update_answer :: "string \<Rightarrow> (string \<times> json) list \<Rightarrow> exn + (string \<times> json) list" where
  "update_answer did r =
     (if get_default r ''status'' JNull \<in> {JStr ''started'', JStr ''current''}
      then Inr [(''status'', get_default r ''status'' JNull), (''device_id'', JStr did)]
      else Inl (App (worker_command_error (get_str r ''error'' ''update_failed''))))"

section \<open>The requests\<close>

definition request_session_history ::
  "'c hub_config_scheme \<Rightarrow> string \<Rightarrow> string \<Rightarrow> int \<Rightarrow> string \<Rightarrow> ('a, string \<times> nat) hub_act" where
  "request_session_history cfg did sid limit owner =
     act_bind (device_get_for_owner did owner) (\<lambda>_.
       request_begin cfg Req_History ''hist_'' did owner ''local_history'' sid (\<lambda>rid.
         [(''type'', JStr ''session.history.get''), (''request_id'', JStr rid), (''session_id'', JStr sid),
          (''message_limit'', JInt limit)]))"

definition configure_model ::
  "'c hub_config_scheme \<Rightarrow> string \<Rightarrow> string \<Rightarrow> string \<Rightarrow> string \<Rightarrow> string \<Rightarrow> string \<Rightarrow> ('a, string \<times> nat) hub_act" where
  "configure_model cfg did owner url key model provider =
     act_bind (device_get_for_owner did owner) (\<lambda>_.
       request_begin cfg Req_Model ''model_'' did owner ''model_configuration'' [] (\<lambda>rid.
         [(''type'', JStr ''model.configure''), (''request_id'', JStr rid), (''base_url'', JStr url),
          (''api_key'', JStr key), (''model'', JStr model), (''model_provider'', JStr provider)]))"

definition configure_provider ::
  "'c hub_config_scheme \<Rightarrow> string \<Rightarrow> string \<Rightarrow> string \<Rightarrow> string \<Rightarrow> string \<Rightarrow> string \<Rightarrow> string \<Rightarrow> string list
     \<Rightarrow> ('a, string \<times> nat) hub_act" where
  "configure_provider cfg did owner pid url key model protocol efforts =
     act_bind (device_get_for_owner did owner) (\<lambda>_.
       request_begin cfg Req_Provider ''provider_'' did owner ''model_configuration'' [] (\<lambda>rid.
         [(''type'', JStr ''provider.configure''), (''request_id'', JStr rid), (''provider_id'', JStr pid),
          (''base_url'', JStr url), (''api_key'', JStr key), (''model'', JStr model), (''protocol'', JStr protocol),
          (''reasoning_efforts'', JList (map JStr efforts))]))"

definition list_provider_models ::
  "'c hub_config_scheme \<Rightarrow> string \<Rightarrow> string \<Rightarrow> string \<Rightarrow> ('a, string \<times> nat) hub_act" where
  "list_provider_models cfg did owner pid =
     act_bind (device_get_for_owner did owner) (\<lambda>_.
       request_begin cfg Req_Provider ''models_'' did owner ''model_configuration'' [] (\<lambda>rid.
         [(''type'', JStr ''provider.list_models''), (''request_id'', JStr rid), (''provider_id'', JStr pid)]))"

text \<open>The entity a rename or a deletion names, and for a rename the version of its name.\<close>

definition entity_version :: "device \<Rightarrow> string \<Rightarrow> string \<Rightarrow> string \<Rightarrow> ('a, string) hub_act" where
  "entity_version d owner ety eid =
     (if ety = ''workspace'' then
        (case find (\<lambda>w. ws_id w = eid) (d_workspaces d) of
           None \<Rightarrow> act_raise (App Not_Found)
         | Some w \<Rightarrow> if is_workspace_id eid then act_ret (ws_named_at w) else act_raise (App Not_Found))
      else if ety = ''session'' then
        (if \<not> is_session_id eid then act_raise (App Not_Found)
         else act_bind (session_load eid) (\<lambda>x.
           if obj_get x ''owner_id'' \<noteq> Some (JStr owner) \<or> obj_get x ''device_id'' \<noteq> Some (JStr (d_id d)) \<or>
              obj_get x ''execution_environment'' \<noteq> Some (JStr ''local_worker'')
           then act_raise (App Not_Found)
           else act_ret (py_str (get_default x ''display_name_updated_at'' (get_default x ''created_at'' (JStr []))))))
      else act_raise Value_Error)"

definition rename_entity ::
  "'c hub_config_scheme \<Rightarrow> string \<Rightarrow> string \<Rightarrow> string \<Rightarrow> string \<Rightarrow> string \<Rightarrow> string option
     \<Rightarrow> ('a, string \<times> nat) hub_act" where
  "rename_entity cfg did owner ety eid name expected =
     act_bind (device_get_for_owner did owner) (\<lambda>d.
       if py_strip name = [] \<or> 200 < length (py_strip name) then act_raise Value_Error
       else act_bind (entity_version d owner ety eid) (\<lambda>version.
         if expected \<noteq> None \<and> expected \<noteq> Some [] \<and> expected \<noteq> Some version then act_raise (App Rename_Conflict)
         else request_begin cfg Req_Rename ''rename_'' did owner ''rename_entities'' eid (\<lambda>rid.
           [(''type'', JStr ''entity.rename''), (''request_id'', JStr rid), (''entity_type'', JStr ety),
            (''entity_id'', JStr eid), (''display_name'', JStr (py_strip name))])))"

definition delete_entity ::
  "'c hub_config_scheme \<Rightarrow> string \<Rightarrow> string \<Rightarrow> string \<Rightarrow> string \<Rightarrow> string list \<Rightarrow> string list
     \<Rightarrow> ('a, string \<times> nat) hub_act" where
  "delete_entity cfg did owner ety eid sids rids =
     act_bind (device_get_for_owner did owner) (\<lambda>d.
     act_bind (entity_version d owner ety eid) (\<lambda>_.
       request_begin cfg Req_Delete ''delete_'' did owner ''delete_entities'' eid (\<lambda>rid.
         [(''type'', JStr ''entity.delete''), (''request_id'', JStr rid), (''entity_type'', JStr ety),
          (''entity_id'', JStr eid), (''session_ids'', JList (map JStr sids)), (''run_ids'', JList (map JStr rids))])))"

definition uninstall_worker :: "'c hub_config_scheme \<Rightarrow> string \<Rightarrow> string \<Rightarrow> ('a, string \<times> nat) hub_act" where
  "uninstall_worker cfg did owner =
     act_bind (device_get_for_owner did owner) (\<lambda>_.
       request_begin cfg Req_Uninstall ''uninstall_'' did owner ''worker_uninstall'' did (\<lambda>rid.
         [(''type'', JStr ''worker.uninstall''), (''request_id'', JStr rid)]))"

definition update_worker :: "'c hub_config_scheme \<Rightarrow> string \<Rightarrow> string \<Rightarrow> ('a, string \<times> nat) hub_act" where
  "update_worker cfg did owner =
     act_bind (device_get_for_owner did owner) (\<lambda>_.
       request_begin cfg Req_Update ''update_'' did owner ''auto_update'' did (\<lambda>rid.
         [(''type'', JStr ''worker.update''), (''request_id'', JStr rid)]))"

text \<open>After a rename: the version of the new name, read again; the name is the one asked for.\<close>

definition rename_answer ::
  "string \<Rightarrow> string \<Rightarrow> string \<Rightarrow> string \<Rightarrow> string \<Rightarrow> (string \<times> json) list \<Rightarrow> ('a, (string \<times> json) list) hub_act" where
  "rename_answer did owner ety eid name r =
     (if \<not> completed r then act_raise (App Worker_Command_Failed)
      else act_bind
        (if ety = ''workspace'' then
           act_bind (device_get_for_owner did owner) (\<lambda>d.
             case find (\<lambda>w. ws_id w = eid) (d_workspaces d) of
               None \<Rightarrow> act_raise Stop_Iteration | Some w \<Rightarrow> act_ret (ws_named_at w))
         else act_bind (session_load eid) (\<lambda>x. act_ret (get_str x ''display_name_updated_at'' [])))
        (\<lambda>version.
           act_ret [(''entity_type'', JStr ety), (''entity_id'', JStr eid), (''display_name'', JStr (py_strip name)),
                    (''display_name_source'', JStr ''user''), (''display_name_updated_at'', JStr version)]))"

section \<open>Answers of the Worker\<close>

definition conn_device :: "'a hub_state_scheme \<Rightarrow> nat \<Rightarrow> device" where
  "conn_device s a = cn_device (hb_conns s ! a)"

definition set_conn_device :: "nat \<Rightarrow> device \<Rightarrow> 'a hub_state_scheme \<Rightarrow> 'a hub_state_scheme" where
  "set_conn_device a d s = s\<lparr>hb_conns := (hb_conns s)[a := (hb_conns s ! a)\<lparr>cn_device := d\<rparr>]\<rparr>"

text \<open>The request an answer is for: pending, and of this device and its owner.\<close>

definition pending_for :: "nat \<Rightarrow> request_kind \<Rightarrow> string \<Rightarrow> ('a, pending_request) hub_act" where
  "pending_for a k rid =
     act_bind (act_get (\<lambda>s. (obj_get (hb_pending s k) rid, conn_device s a))) (\<lambda>(r, d).
       case r of
         None \<Rightarrow> raise_protocol
       | Some q \<Rightarrow> if pq_device q \<noteq> d_id d \<or> pq_owner q \<noteq> d_owner d then raise_protocol else act_ret q)"

definition resolve :: "pending_request \<Rightarrow> (string \<times> json) list \<Rightarrow> ('a, unit) hub_act" where
  "resolve q result = act_modify (resolve_future (pq_future q) result)"

definition failed_result :: "(string \<times> json) list \<Rightarrow> string \<Rightarrow> (string \<times> json) list" where
  "failed_result msg fallback =
     [(''status'', JStr ''failed''), (''error'', JStr (safe_error_code (get_default msg ''error'' JNull) fallback))]"

definition ack :: "'c hub_config_scheme \<Rightarrow> nat \<Rightarrow> string \<Rightarrow> string \<Rightarrow> ('a, unit) hub_act" where
  "ack cfg a ty rid = send_to cfg a [(''type'', JStr ty), (''request_id'', JStr rid)]"

definition request_id :: "(string \<times> json) list \<Rightarrow> string" where
  "request_id msg = get_str msg ''request_id'' []"

definition handle_history_result ::
  "'c hub_config_scheme \<Rightarrow> nat \<Rightarrow> (string \<times> json) list \<Rightarrow> ('a, unit) hub_act" where
  "handle_history_result cfg a msg =
     act_bind (pending_for a Req_History (request_id msg)) (\<lambda>q.
     act_bind
       (let st = get_str msg ''status'' [] in
        if st = ''completed'' then
          (if get_str msg ''session_id'' [] \<noteq> pq_subject q then raise_protocol
           else act_bind (act_lift (parse_history_messages (hc_environ cfg) (get_default msg ''messages'' (JList [])))) (\<lambda>ms.
             case int_like (get_default msg ''message_total'' (JInt 0)) of
               None \<Rightarrow> raise_protocol
             | Some n \<Rightarrow>
                 if n < int (length ms) then raise_protocol
                 else act_ret [(''status'', JStr st), (''messages'', JList ms),
                               (''message_total'', get_default msg ''message_total'' (JInt 0)),
                               (''session_id'', JStr (get_str msg ''session_id'' []))]))
        else if st = ''failed'' then act_ret (failed_result msg ''history_unavailable'')
        else raise_protocol)
       (\<lambda>result.
          act_then (resolve q result) (act_modify (drop_request Req_History (request_id msg)))))"

text \<open>\<open>update_presence\<close> with what the connection already knows, the model and its abilities apart.\<close>

definition model_presence :: "device \<Rightarrow> string \<Rightarrow> string \<Rightarrow> (string \<times> json) list \<Rightarrow> presence" where
  "model_presence d model provider caps =
     \<lparr>pr_model = model, pr_model_provider = provider, pr_model_configured = True, pr_version = d_version d,
      pr_protocol = d_protocol d, pr_platform = d_platform d, pr_architecture = d_architecture d,
      pr_capabilities = d_capabilities d, pr_workspaces = d_workspaces d, pr_backend = None,
      pr_model_caps = Some caps, pr_update_status = None\<rparr>"

definition update_conn_presence :: "nat \<Rightarrow> presence \<Rightarrow> ('a, unit) hub_act" where
  "update_conn_presence a p =
     act_bind (act_get (\<lambda>s. d_id (conn_device s a))) (\<lambda>did.
     act_bind (update_presence did p) (\<lambda>d. act_modify (set_conn_device a d)))"

definition record_model ::
  "nat \<Rightarrow> (string \<times> json) list \<Rightarrow> string \<Rightarrow> (device \<Rightarrow> string) \<Rightarrow> ('a, unit) hub_act" where
  "record_model a msg model provider =
     act_bind (act_lift (parse_model_capabilities (get_default msg ''model_capabilities'' (JObj [])) model)) (\<lambda>caps.
     act_bind (act_get (\<lambda>s. conn_device s a)) (\<lambda>d.
       update_conn_presence a (model_presence d model (provider d) caps)))"

definition handle_model_configured ::
  "'c hub_config_scheme \<Rightarrow> nat \<Rightarrow> (string \<times> json) list \<Rightarrow> ('a, unit) hub_act" where
  "handle_model_configured cfg a msg =
     act_bind (pending_for a Req_Model (request_id msg)) (\<lambda>q.
     act_bind
       (let st = get_str msg ''status'' []; model = cut 200 msg ''model'' in
        if st = ''completed'' then
          (if model = [] then raise_protocol
           else act_then (record_model a msg model (\<lambda>_. get_str msg ''model_provider'' []))
                  (act_ret [(''status'', JStr ''completed''), (''model'', JStr model)]))
        else if st = ''failed'' then act_ret (failed_result msg ''model_configuration_failed'')
        else raise_protocol)
       (\<lambda>result.
          act_then (resolve q result)
            (act_then (act_modify (drop_request Req_Model (request_id msg)))
              (ack cfg a ''model.configuration.ack'' (request_id msg)))))"

definition handle_provider_configured ::
  "'c hub_config_scheme \<Rightarrow> nat \<Rightarrow> (string \<times> json) list \<Rightarrow> ('a, unit) hub_act" where
  "handle_provider_configured cfg a msg =
     act_bind (pending_for a Req_Provider (request_id msg)) (\<lambda>q.
     act_bind
       (let st = get_str msg ''status'' []; model = cut 200 msg ''model'' in
        if st = ''completed'' then
          act_then (act_when (model \<noteq> []) (record_model a msg model d_model_provider))
            (act_ret [(''status'', JStr ''completed''), (''provider_id'', JStr (get_str msg ''provider_id'' []))])
        else if st = ''failed'' then act_ret (failed_result msg ''provider_configuration_failed'')
        else raise_protocol)
       (\<lambda>result.
          act_then (resolve q result)
            (act_then (act_modify (drop_request Req_Provider (request_id msg)))
              (ack cfg a ''provider.configuration.ack'' (request_id msg)))))"

definition handle_models_listed ::
  "'c hub_config_scheme \<Rightarrow> nat \<Rightarrow> (string \<times> json) list \<Rightarrow> ('a, unit) hub_act" where
  "handle_models_listed cfg a msg =
     act_bind (pending_for a Req_Provider (request_id msg)) (\<lambda>q.
     act_bind
       (let st = get_str msg ''status'' [] in
        if st = ''completed'' then
          (case get_default msg ''models'' (JList []) of
             JList xs \<Rightarrow>
               act_ret [(''status'', JStr ''completed''),
                        (''models'', JList (map (\<lambda>x. JStr (take 200 (py_str x))) xs))]
           | _ \<Rightarrow> raise_protocol)
        else if st = ''failed'' then act_ret (failed_result msg ''provider_list_models_failed'')
        else raise_protocol)
       (\<lambda>result.
          act_then (resolve q result)
            (act_then (act_modify (drop_request Req_Provider (request_id msg)))
              (ack cfg a ''provider.list_models.ack'' (request_id msg)))))"

text \<open>\<open>_update_workspace_presence\<close>: the workspaces as the Worker names them are returned.\<close>

definition update_workspace_presence :: "nat \<Rightarrow> json \<Rightarrow> ('a, worker_workspace list) hub_act" where
  "update_workspace_presence a raw =
     act_bind (act_lift (parse_workspaces raw)) (\<lambda>wss.
     act_bind (act_get (\<lambda>s. conn_device s a)) (\<lambda>d.
     act_then
       (update_conn_presence a
         \<lparr>pr_model = d_model d, pr_model_provider = d_model_provider d, pr_model_configured = d_model_configured d,
          pr_version = d_version d, pr_protocol = d_protocol d, pr_platform = d_platform d,
          pr_architecture = d_architecture d, pr_capabilities = d_capabilities d, pr_workspaces = wss,
          pr_backend = None, pr_model_caps = None, pr_update_status = None\<rparr>)
       (act_ret wss)))"

definition rename_session :: "pending_request \<Rightarrow> string \<Rightarrow> string \<Rightarrow> ('a, unit) hub_act" where
  "rename_session q eid name =
     act_bind (session_load eid) (\<lambda>x.
       if obj_get x ''owner_id'' \<noteq> Some (JStr (pq_owner q)) \<or> obj_get x ''device_id'' \<noteq> Some (JStr (pq_device q))
       then raise_protocol
       else act_bind (act_get dv_now) (\<lambda>now.
         session_save (fold (\<lambda>(k, v) d. obj_put d k (JStr v))
           [(''title'', take 200 name), (''display_name_source'', ''user''), (''display_name_updated_at'', now),
            (''updated_at'', now)] x)))"

definition rename_workspace_entity ::
  "nat \<Rightarrow> pending_request \<Rightarrow> string \<Rightarrow> string \<Rightarrow> (string \<times> json) list \<Rightarrow> ('a, unit) hub_act" where
  "rename_workspace_entity a q eid name msg =
     act_bind (update_workspace_presence a (get_default msg ''workspaces'' (JList []))) (\<lambda>wss.
       if \<not> list_ex (\<lambda>w. ws_id w = eid \<and> ws_name w = name) wss then raise_protocol
       else act_bind (set_workspace_display_name (pq_device q) (pq_owner q) eid name) (\<lambda>(d, _).
              act_modify (set_conn_device a d)))"

definition handle_rename_completed :: "nat \<Rightarrow> (string \<times> json) list \<Rightarrow> ('a, unit) hub_act" where
  "handle_rename_completed a msg =
     act_bind (pending_for a Req_Rename (request_id msg)) (\<lambda>q.
       let st = get_str msg ''status'' []; ety = get_str msg ''entity_type'' [];
           eid = get_str msg ''entity_id'' []; name = py_strip (get_str msg ''display_name'' []) in
       if eid \<noteq> pq_subject q then raise_protocol
       else act_bind
         (if st = ''completed'' \<and> name \<noteq> [] then
            act_then
              (if ety = ''workspace'' then rename_workspace_entity a q eid name msg
               else if ety = ''session'' then rename_session q eid name else raise_protocol)
              (act_ret [(''status'', JStr ''completed'')])
          else if st = ''failed'' then act_ret (failed_result msg ''rename_failed'')
          else raise_protocol)
         (resolve q))"

definition handle_delete_completed ::
  "'c hub_config_scheme \<Rightarrow> nat \<Rightarrow> (string \<times> json) list \<Rightarrow> ('a, unit) hub_act" where
  "handle_delete_completed cfg a msg =
     act_bind (pending_for a Req_Delete (request_id msg)) (\<lambda>q.
       let ety = get_str msg ''entity_type'' []; eid = get_str msg ''entity_id'' [];
           st = get_str msg ''status'' [] in
       if eid \<noteq> pq_subject q \<or> ety \<notin> {''session'', ''workspace''} then raise_protocol
       else act_bind
         (if st = ''completed'' then
            (case get_default msg ''deleted_session_ids'' (JList []) of
               JList xs \<Rightarrow>
                 let ids = map py_str xs in
                 if 1000 < length xs \<or> \<not> list_all is_session_id ids \<or> ety = ''session'' \<and> eid \<notin> set ids
                 then raise_protocol
                 else act_then
                   (if ety = ''workspace''
                    then act_bind (update_workspace_presence a (get_default msg ''workspaces'' (JList []))) (\<lambda>_. act_ret ())
                    else act_ret ())
                   (act_ret [(''status'', JStr ''completed''), (''deleted_session_ids'', JList (map JStr ids))])
             | _ \<Rightarrow> raise_protocol)
          else if st = ''failed'' then act_ret (failed_result msg ''delete_failed'')
          else raise_protocol)
         (\<lambda>result. act_then (resolve q result) (ack cfg a ''entity.delete.ack'' (request_id msg))))"

text \<open>The two commands whose answer is only a status: the accepted one is \<open>good\<close>.\<close>

definition handle_command_completed ::
  "'c hub_config_scheme \<Rightarrow> nat \<Rightarrow> request_kind \<Rightarrow> string \<Rightarrow> string \<Rightarrow> string \<Rightarrow> (string \<times> json) list \<Rightarrow> ('a, unit) hub_act" where
  "handle_command_completed cfg a k good fallback ty msg =
     act_bind (pending_for a k (request_id msg)) (\<lambda>q.
     act_bind
       (let st = get_str msg ''status'' [] in
        if st = good then act_ret [(''status'', JStr good)]
        else if st = ''failed'' then act_ret (failed_result msg fallback)
        else raise_protocol)
       (\<lambda>result. act_then (resolve q result) (ack cfg a ty (request_id msg))))"

definition handle_uninstall_completed ::
  "'c hub_config_scheme \<Rightarrow> nat \<Rightarrow> (string \<times> json) list \<Rightarrow> ('a, unit) hub_act" where
  "handle_uninstall_completed cfg a =
     handle_command_completed cfg a Req_Uninstall ''completed'' ''uninstall_failed'' ''worker.uninstall.ack''"

definition handle_update_completed ::
  "'c hub_config_scheme \<Rightarrow> nat \<Rightarrow> (string \<times> json) list \<Rightarrow> ('a, unit) hub_act" where
  "handle_update_completed cfg a =
     handle_command_completed cfg a Req_Update ''started'' ''update_failed'' ''worker.update.ack''"

section \<open>Selecting a workspace\<close>

definition expire_selection :: "int \<Rightarrow> workspace_request \<Rightarrow> workspace_request" where
  "expire_selection now r =
     (if wr_status r = ''pending'' \<and> wr_expires r \<le> now
      then r\<lparr>wr_status := ''expired'', wr_error := ''selection_expired''\<rparr> else r)"

text \<open>\<open>while len(...) > 512\<close>: the first that is not pending goes, else the first.\<close>

definition evict_selection :: "(string \<times> workspace_request) list \<Rightarrow> (string \<times> workspace_request) list" where
  "evict_selection rs =
     (case find (\<lambda>(_, r). wr_status r \<noteq> ''pending'') rs of
        None \<Rightarrow> tl rs
      | Some (_, r) \<Rightarrow> obj_pop rs (wr_id r))"

function trim_selections :: "(string \<times> workspace_request) list \<Rightarrow> (string \<times> workspace_request) list" where
  "trim_selections rs =
     (if 512 < length rs \<and> length (evict_selection rs) < length rs then trim_selections (evict_selection rs) else rs)"
  by pat_completeness auto
termination by (relation "measure length") auto

declare trim_selections.simps [simp del]

definition expire_selections :: "'a hub_state_scheme \<Rightarrow> 'a hub_state_scheme" where
  "expire_selections s =
     s\<lparr>hb_selections := trim_selections (map (\<lambda>(k, r). (k, expire_selection (st_clock s) r)) (hb_selections s))\<rparr>"

definition change_selection ::
  "string \<Rightarrow> (workspace_request \<Rightarrow> workspace_request) \<Rightarrow> 'a hub_state_scheme \<Rightarrow> 'a hub_state_scheme" where
  "change_selection rid f s =
     (case obj_get (hb_selections s) rid of
        None \<Rightarrow> s | Some r \<Rightarrow> s\<lparr>hb_selections := obj_put (hb_selections s) rid (f r)\<rparr>)"

definition SELECTION_TTL :: int where
  "SELECTION_TTL = 120"

definition open_selection :: "'c hub_config_scheme \<Rightarrow> string \<Rightarrow> string \<Rightarrow> ('a, workspace_request) hub_act" where
  "open_selection cfg did owner =
     act_bind utc_now (\<lambda>now.
     act_bind (fresh_id ''wsel_'') (\<lambda>rid.
       let r = \<lparr>wr_id = rid, wr_owner = owner, wr_device = did, wr_created = now, wr_expires = now + SELECTION_TTL,
                wr_status = ''pending'', wr_workspace = [], wr_error = []\<rparr>
       in act_then (act_modify (\<lambda>s. s\<lparr>hb_selections := obj_put (hb_selections s) rid r\<rparr>))
            (act_try
              (hub_send cfg did [(''type'', JStr ''workspace.select''), (''request_id'', JStr rid),
                                 (''expires_at'', JStr (hc_iso cfg (wr_expires r)))])
              (\<lambda>_. act_ret r)
              (\<lambda>e. act_then
                 (act_modify (change_selection rid (\<lambda>q. q\<lparr>wr_status := ''failed'', wr_error := ''worker_offline''\<rparr>)))
                 (act_raise e)))))"

definition request_workspace_selection ::
  "'c hub_config_scheme \<Rightarrow> string \<Rightarrow> string \<Rightarrow> ('a, workspace_request) hub_act" where
  "request_workspace_selection cfg did owner =
     act_bind (device_get_for_owner did owner) (\<lambda>_.
     act_then (act_modify expire_selections)
       (act_bind (act_get (\<lambda>s. (online_conn s did,
            find (\<lambda>r. wr_device r = did \<and> wr_status r = ''pending'') (map snd (hb_selections s))))) (\<lambda>(c, existing).
          case c of
            None \<Rightarrow> act_raise (App Worker_Offline)
          | Some conn \<Rightarrow>
              if \<not> cn_ready conn then act_raise (App Worker_Offline)
              else if ''workspace_selection'' \<notin> set (d_capabilities (cn_device conn))
              then act_raise (App Worker_Capability_Unavailable)
              else case existing of Some r \<Rightarrow> act_ret r | None \<Rightarrow> open_selection cfg did owner)))"

definition get_workspace_selection :: "string \<Rightarrow> string \<Rightarrow> string \<Rightarrow> ('a, workspace_request) hub_act" where
  "get_workspace_selection did rid owner =
     act_bind (device_get_for_owner did owner) (\<lambda>_.
     act_then (act_modify expire_selections)
       (act_bind (act_get (\<lambda>s. obj_get (hb_selections s) rid)) (\<lambda>x.
          case x of
            None \<Rightarrow> act_raise (App Not_Found)
          | Some r \<Rightarrow>
              if wr_device r \<noteq> did \<or> wr_owner r \<noteq> owner then act_raise (App Not_Found) else act_ret r)))"

definition handle_selection_completed ::
  "'c hub_config_scheme \<Rightarrow> nat \<Rightarrow> (string \<times> json) list \<Rightarrow> ('a, unit) hub_act" where
  "handle_selection_completed cfg a msg =
     (let rid = request_id msg; st = get_str msg ''status'' [] in
      if st \<notin> {''selected'', ''cancelled'', ''failed''} then raise_protocol
      else act_then (act_modify expire_selections)
        (act_bind (act_get (\<lambda>s. (obj_get (hb_selections s) rid, conn_device s a))) (\<lambda>(x, d).
           case x of
             None \<Rightarrow> raise_protocol
           | Some r \<Rightarrow>
               if wr_device r \<noteq> d_id d \<or> wr_owner r \<noteq> d_owner d then raise_protocol
               else if wr_status r \<noteq> ''pending'' then
                 send_to cfg a [(''type'', JStr ''workspace.selection.ack''), (''request_id'', JStr rid),
                                (''status'', JStr (wr_status r))]
               else act_then
                 (if st = ''selected'' then
                    act_bind (update_workspace_presence a (get_default msg ''workspaces'' (JList []))) (\<lambda>wss.
                      let wid = get_str msg ''workspace_id'' [] in
                      if wid \<notin> ws_id ` set wss then raise_protocol
                      else act_modify (change_selection rid (\<lambda>q. q\<lparr>wr_workspace := wid, wr_status := ''completed''\<rparr>)))
                  else if st = ''cancelled'' then act_modify (change_selection rid (\<lambda>q. q\<lparr>wr_status := ''cancelled''\<rparr>))
                  else
                    (let e = get_str msg ''error'' ''selection_failed'' in
                     act_modify (change_selection rid (\<lambda>q. q\<lparr>wr_status := ''failed'',
                       wr_error := (if is_code e then e else ''selection_failed'')\<rparr>))))
                 (ack cfg a ''workspace.selection.ack'' rid))))"

end
