(* ===== verification/Worker_Presence.thy ===== *)
theory Worker_Presence
  imports Worker_Requests
begin

text \<open>
  What a Worker says of itself (hello, updates, workspaces, its local sessions) and \<open>handle\<close>, which
  gives every message of a Worker to its handler (\<open>infrastructure/worker_hub.py\<close>).
\<close>

section \<open>Hello and updates\<close>

text \<open>The keyword arguments \<open>_handle_hello\<close> passes to \<open>update_presence\<close>, parsed in its order.\<close>

definition hello_presence :: "(string \<times> json) list \<Rightarrow> exn + presence" where
  "hello_presence msg =
     res_bind (parse_workspaces (get_default msg ''workspaces'' (JList []))) (\<lambda>wss.
     res_bind (parse_capabilities (get_default msg ''capabilities'' (JList []))) (\<lambda>caps.
     res_bind (parse_model_capabilities (get_default msg ''model_capabilities'' (JObj []))
                 (get_str msg ''model'' [])) (\<lambda>mcaps.
     res_bind (parse_worker_version (get_default msg ''version'' (JStr []))) (\<lambda>version.
     res_bind (parse_protocol_version (get_default msg ''protocol_version'' (JInt 0))) (\<lambda>protocol.
     res_bind (parse_platform_value (get_default msg ''platform'' (JStr ''unknown''))) (\<lambda>platform.
     res_bind (parse_platform_value (get_default msg ''architecture'' (JStr ''unknown''))) (\<lambda>arch.
     res_bind (parse_update_status (get_default msg ''update_status'' (JObj []))) (\<lambda>upd.
       Inr \<lparr>pr_model = get_str msg ''model'' [], pr_model_provider = get_str msg ''model_provider'' [],
            pr_model_configured = get_bool msg ''model_configured'', pr_version = version,
            pr_protocol = protocol, pr_platform = platform, pr_architecture = arch,
            pr_capabilities = caps, pr_workspaces = wss,
            pr_backend = Some (cut 64 msg ''orchestration_backend''),
            pr_model_caps = Some mcaps, pr_update_status = Some upd\<rparr>))))))))"

definition set_conn_ready :: "nat \<Rightarrow> 'a hub_state_scheme \<Rightarrow> 'a hub_state_scheme" where
  "set_conn_ready a s = s\<lparr>hb_conns := (hb_conns s)[a := (hb_conns s ! a)\<lparr>cn_ready := True\<rparr>]\<rparr>"

definition handle_hello ::
  "'c hub_config_scheme \<Rightarrow> nat \<Rightarrow> (string \<times> json) list \<Rightarrow> ('a, unit) hub_act" where
  "handle_hello cfg a msg =
     act_bind (act_lift (hello_presence msg)) (\<lambda>p.
     act_then (update_conn_presence a p)
       (act_then (act_modify (set_conn_ready a))
         (act_bind (act_get (\<lambda>s. d_id (conn_device s a))) (\<lambda>did.
          act_bind utc_now (\<lambda>now.
            send_to cfg a [(''type'', JStr ''hello.ack''), (''device_id'', JStr did),
                           (''server_time'', JStr (hc_iso cfg now))])))))"

text \<open>\<open>connection.ready\<close> and the capability a message needs.\<close>

definition require_capability :: "nat \<Rightarrow> string \<Rightarrow> ('a, unit) hub_act" where
  "require_capability a capability =
     act_bind (act_get (\<lambda>s. cn_ready (hb_conns s ! a) \<and> capability \<in> set (d_capabilities (conn_device s a))))
       (\<lambda>yes. if yes then act_ret () else raise_protocol)"

definition handle_update_status ::
  "'c hub_config_scheme \<Rightarrow> nat \<Rightarrow> (string \<times> json) list \<Rightarrow> ('a, unit) hub_act" where
  "handle_update_status cfg a msg =
     act_then (require_capability a ''auto_update'')
       (act_bind (act_lift (parse_update_status (JObj msg))) (\<lambda>status.
        act_bind (act_get (\<lambda>s. d_id (conn_device s a))) (\<lambda>did.
        act_bind (update_worker_status did status) (\<lambda>d.
        act_then (act_modify (set_conn_device a d))
          (send_to cfg a [(''type'', JStr ''update.status.ack'')])))))"

definition handle_workspaces_updated ::
  "'c hub_config_scheme \<Rightarrow> nat \<Rightarrow> (string \<times> json) list \<Rightarrow> ('a, unit) hub_act" where
  "handle_workspaces_updated cfg a msg =
     act_then (require_capability a ''workspace_selection'')
       (act_bind (update_workspace_presence a (get_default msg ''workspaces'' (JList []))) (\<lambda>_.
          send_to cfg a [(''type'', JStr ''workspaces.updated.ack'')]))"

section \<open>The index of the local sessions\<close>

text \<open>\<open>==\<close> of two JSON values as far as the session files need it: a bool is the number it stands for.\<close>

definition same_value :: "json \<Rightarrow> json \<Rightarrow> bool" where
  "same_value u v \<longleftrightarrow> u = v \<or> (int_like u \<noteq> None \<and> int_like u = int_like v)"

definition put_all :: "(string \<times> json) list \<Rightarrow> (string \<times> json) list \<Rightarrow> (string \<times> json) list" where
  "put_all changes d = fold (\<lambda>(k, v) x. obj_put x k v) changes d"

definition changes_something :: "(string \<times> json) list \<Rightarrow> (string \<times> json) list \<Rightarrow> bool" where
  "changes_something changes d \<longleftrightarrow> list_ex (\<lambda>(k, v). \<not> same_value (get_default d k JNull) v) changes"

definition worker_root :: "string \<Rightarrow> string \<Rightarrow> json" where
  "worker_root did wid = JStr (''worker://'' @ did @ ''/'' @ wid)"

text \<open>What a summary changes in a session the control plane has; \<open>adopt\<close>: the session changes device.\<close>

definition summary_changes ::
  "device \<Rightarrow> bool \<Rightarrow> session_summary \<Rightarrow> (string \<times> json) list \<Rightarrow> (string \<times> json) list" where
  "summary_changes d adopt m current =
     [(''local_message_total'', sm_total m), (''local_updated_at'', JStr (sm_updated_at m))] @
     (if adopt then [(''device_id'', JStr (d_id d)), (''workspace_root'', worker_root (d_id d) (sm_workspace m))]
      else []) @
     (if sm_first_request m \<noteq> [] then [(''first_request_at'', JStr (sm_first_request m))] else []) @
     (if get_default current ''display_name_source'' (JStr ''auto'') \<noteq> JStr ''user'' then
        [(''title'', JStr (sm_title m))] @
        (if sm_named_at m \<noteq> []
         then [(''display_name_source'', JStr (sm_source m)), (''display_name_updated_at'', JStr (sm_named_at m))]
         else [])
      else [])"

definition first_text :: "string list \<Rightarrow> string" where
  "first_text xs = (case find (\<lambda>x. x \<noteq> []) xs of None \<Rightarrow> [] | Some x \<Rightarrow> x)"

definition new_session :: "device \<Rightarrow> string \<Rightarrow> session_summary \<Rightarrow> (string \<times> json) list" where
  "new_session d now m =
     [(''id'', JStr (sm_session m)), (''created_at'', JStr (first_text [sm_created_at m, now])),
      (''workspace_root'', worker_root (d_id d) (sm_workspace m)), (''workspace_id'', JStr (sm_workspace m)),
      (''execution_environment'', JStr ''local_worker''), (''device_id'', JStr (d_id d)),
      (''owner_id'', JStr (d_owner d)),
      (''title'', JStr (first_text [sm_title m,
          ''Session '' @ drop (length (sm_session m) - 8) (sm_session m)])),
      (''display_name_source'', JStr (sm_source m)),
      (''display_name_updated_at'', JStr (first_text [sm_named_at m, sm_created_at m, now])),
      (''first_request_at'', JStr (sm_first_request m)), (''history'', JList []), (''memory'', empty_memory),
      (''local_message_total'', sm_total m), (''local_updated_at'', JStr (sm_updated_at m))]"

definition session_is_theirs :: "device \<Rightarrow> session_summary \<Rightarrow> (string \<times> json) list \<Rightarrow> bool" where
  "session_is_theirs d m current \<longleftrightarrow>
     obj_get current ''owner_id'' = Some (JStr (d_owner d)) \<and>
     obj_get current ''execution_environment'' = Some (JStr ''local_worker'') \<and>
     obj_get current ''workspace_id'' = Some (JStr (sm_workspace m))"

definition write_merged ::
  "device \<Rightarrow> bool \<Rightarrow> session_summary \<Rightarrow> (string \<times> json) list \<Rightarrow> ('a, unit) hub_act" where
  "write_merged d adopt m current =
     (let changes = summary_changes d adopt m current;
          changed = changes_something changes current;
          updated = (if changed then put_all changes current else current)
      in act_then
           (act_when (changed \<or> scrub_changes updated) (session_save (scrub_session updated)))
           (scrub_tasks (sm_session m) (d_owner d)))"

text \<open>
  \<open>_merge_local_session_summary\<close>; the message of the protocol error it raises, \<open>None\<close> when it
  raises none.  A session of another device follows its owner once that device is gone.
\<close>

definition merge_session_summary :: "nat \<Rightarrow> session_summary \<Rightarrow> ('a, string option) hub_act" where
  "merge_session_summary a m =
     act_bind (act_get (\<lambda>s. conn_device s a)) (\<lambda>d.
     act_bind
       (act_try (session_load (sm_session m)) (\<lambda>x. act_ret (Some x))
         (\<lambda>e. if e = Session_Missing then act_ret None else act_raise e)) (\<lambda>found.
       case found of
         Some current \<Rightarrow>
           if \<not> session_is_theirs d m current
           then act_ret (Some ''local session identity conflicts with control-plane data'')
           else if obj_get current ''device_id'' = Some (JStr (d_id d))
           then act_then (write_merged d False m current) (act_ret None)
           else act_bind
             (act_try (device_get (py_str (get_default current ''device_id'' (JStr [])))) (\<lambda>_. act_ret False)
               (\<lambda>e. if e = App Device_Not_Found then act_ret True else act_raise e)) (\<lambda>gone.
               if gone then act_then (write_merged d True m current) (act_ret None)
               else act_ret (Some ''local session is still bound to another registered device''))
       | None \<Rightarrow>
           act_bind (act_get dv_now) (\<lambda>now.
             act_then (session_save (new_session d now m)) (act_ret None))))"

definition rejected_entry :: "json \<Rightarrow> string \<Rightarrow> json" where
  "rejected_entry raw reason =
     JObj [(''session_id'', JStr (case raw of JObj r \<Rightarrow> cut 64 r ''session_id'' | _ \<Rightarrow> [])),
           (''code'', JStr ''worker_protocol_error''), (''message'', JStr reason)]"

definition summary_error :: "json \<Rightarrow> string" where
  "summary_error raw =
     (case raw of JObj _ \<Rightarrow> ''invalid local session summary'' | _ \<Rightarrow> ''local session summary must be an object'')"

definition index_session :: "'c hub_config_scheme \<Rightarrow> nat \<Rightarrow> string list \<Rightarrow> json \<Rightarrow> ('a, json list) hub_act" where
  "index_session cfg a wids raw =
     (case parse_session_summary (hc_environ cfg) raw wids of
        Inl _ \<Rightarrow> act_ret [rejected_entry raw (summary_error raw)]
      | Inr m \<Rightarrow>
          act_bind (merge_session_summary a m) (\<lambda>r.
            act_ret (case r of None \<Rightarrow> [] | Some reason \<Rightarrow> [rejected_entry raw reason])))"

fun index_sessions :: "'c hub_config_scheme \<Rightarrow> nat \<Rightarrow> string list \<Rightarrow> json list \<Rightarrow> ('a, json list) hub_act" where
  "index_sessions cfg a wids [] = act_ret []"
| "index_sessions cfg a wids (raw # rest) =
     act_bind (index_session cfg a wids raw) (\<lambda>r.
     act_bind (index_sessions cfg a wids rest) (\<lambda>rs. act_ret (r @ rs)))"

definition handle_sessions_updated ::
  "'c hub_config_scheme \<Rightarrow> nat \<Rightarrow> (string \<times> json) list \<Rightarrow> ('a, unit) hub_act" where
  "handle_sessions_updated cfg a msg =
     act_then (require_capability a ''local_history'')
       (case get_default msg ''sessions'' (JList []) of
          JList raws \<Rightarrow>
            if 100 < length raws then raise_protocol
            else act_bind (act_get (\<lambda>s. map ws_id (d_workspaces (conn_device s a)))) (\<lambda>wids.
                 act_bind (index_sessions cfg a wids raws) (\<lambda>rejected.
                   send_to cfg a
                     ([(''type'', JStr ''sessions.updated.ack''), (''complete'', flag_of msg ''complete'' False)] @
                      (if rejected = [] then [] else [(''rejected'', JList rejected)]))))
        | _ \<Rightarrow> raise_protocol)"

section \<open>The messages\<close>

definition hub_handle ::
  "'c hub_config_scheme \<Rightarrow> nat \<Rightarrow> (string \<times> json) list \<Rightarrow> ('a, unit) hub_act" where
  "hub_handle cfg a msg =
     (let ty = get_str msg ''type'' [] in
      if ty = ''hello'' then handle_hello cfg a msg
      else if ty = ''event'' then handle_event cfg a msg
      else if ty = ''approval.requested'' then handle_approval cfg a msg
      else if ty = ''terminal'' then handle_terminal_message cfg a msg
      else if ty = ''workspaces.updated'' then handle_workspaces_updated cfg a msg
      else if ty = ''sessions.updated'' then handle_sessions_updated cfg a msg
      else if ty = ''workspace.selection.completed'' then handle_selection_completed cfg a msg
      else if ty = ''session.history.result'' then handle_history_result cfg a msg
      else if ty = ''model.configuration.completed'' then handle_model_configured cfg a msg
      else if ty = ''provider.configuration.completed'' then handle_provider_configured cfg a msg
      else if ty = ''provider.list_models.completed'' then handle_models_listed cfg a msg
      else if ty = ''entity.rename.completed'' then handle_rename_completed a msg
      else if ty = ''entity.delete.completed'' then handle_delete_completed cfg a msg
      else if ty = ''worker.uninstall.completed'' then handle_uninstall_completed cfg a msg
      else if ty = ''worker.update.completed'' then handle_update_completed cfg a msg
      else if ty = ''update.status'' then handle_update_status cfg a msg
      else if ty = ''heartbeat'' then send_to cfg a [(''type'', JStr ''heartbeat.ack'')]
      else raise_protocol)"

end
