(* ===== verification/Hub_Slots.thy ===== *)
theory Hub_Slots
  imports Worker_Presence
begin

text \<open>
  The assignment of tasks to Workers: \<open>_active_by_device\<close> and \<open>_device_by_task\<close> say the same, no
  device holds more tasks than the limit, whatever the hub does and whatever fails.  The locale
  gathers the properties of the state that only the assignment can change.
\<close>

section \<open>Properties that only the assignment can change\<close>

lemma act_keeps_json [keeps_rules]:
  assumes "act_keeps P n" "\<And>b. act_keeps P (fb b)" "\<And>i. act_keeps P (fi i)" "\<And>x. act_keeps P (fs x)"
    and "\<And>xs. act_keeps P (fl xs)" "\<And>kvs. act_keeps P (fo kvs)"
  shows "act_keeps P (case v of JNull \<Rightarrow> n | JBool b \<Rightarrow> fb b | JInt i \<Rightarrow> fi i | JStr x \<Rightarrow> fs x
     | JList xs \<Rightarrow> fl xs | JObj kvs \<Rightarrow> fo kvs)"
  using assms by (cases v) auto

lemma act_keeps_option [keeps_rules]:
  "act_keeps P n \<Longrightarrow> (\<And>y. act_keeps P (f y)) \<Longrightarrow> act_keeps P (case x of None \<Rightarrow> n | Some y \<Rightarrow> f y)"
  by (cases x) auto

lemma act_keeps_prod [keeps_rules]:
  "(\<And>y z. act_keeps P (f y z)) \<Longrightarrow> act_keeps P (case x of (y, z) \<Rightarrow> f y z)"
  by (cases x) auto

text \<open>First the code that only uses the database and the event stream.\<close>

locale hub_rows =
  fixes unmoved :: "'a hub_state_scheme \<Rightarrow> bool"
  assumes unmoved_store:
      "unmoved s \<Longrightarrow> unmoved (s\<lparr>st_io := os\<rparr>)" "unmoved s \<Longrightarrow> unmoved (s\<lparr>st_uuid := n\<rparr>)"
      "unmoved s \<Longrightarrow> unmoved (s\<lparr>st_approvals := aps\<rparr>)" "unmoved s \<Longrightarrow> unmoved (s\<lparr>st_approval_mirror := mir\<rparr>)"
      "unmoved s \<Longrightarrow> unmoved (s\<lparr>st_tasks := tks\<rparr>)" "unmoved s \<Longrightarrow> unmoved (s\<lparr>st_task_mirror := tmir\<rparr>)"
      "unmoved s \<Longrightarrow> unmoved (s\<lparr>st_runs := rns\<rparr>)" "unmoved s \<Longrightarrow> unmoved (s\<lparr>st_clock := now\<rparr>)"
    and unmoved_events: "unmoved s \<Longrightarrow> unmoved (s\<lparr>ev_sequences := sqs\<rparr>)" "unmoved s \<Longrightarrow> unmoved (s\<lparr>ev_log := lg\<rparr>)"
      "unmoved s \<Longrightarrow> unmoved (s\<lparr>br_scheduled := sch\<rparr>)"
begin

lemmas row_simps = unmoved_store unmoved_events

lemma publish_unmoved [keeps_rules]: "act_keeps unmoved (publish_event tid rid ty data opts)"
proof (rule act_keepsI)
  fix s assume "unmoved s"
  then show "unmoved (snd (publish_event tid rid ty data opts s))"
    by (auto simp: publish_event_eq Let_def published_def intro!: row_simps)
qed

lemma write_task_unmoved [keeps_rules]: "act_keeps unmoved (write_task t)"
proof -
  have row: "unmoved (put_task_row t s)" if "unmoved s" for t s
  proof -
    have "unmoved (s\<lparr>st_tasks := obj_put (st_tasks s) (t_task_id t) t\<rparr>)" using that by (rule row_simps)
    then show ?thesis unfolding put_task_row_def using upsert_run_split row_simps by metis
  qed
  show ?thesis
    unfolding write_task_def task_mirror_write_def by (intro keeps_rules io_write_keeps row_simps row)
qed

lemma fresh_id_unmoved [keeps_rules]: "act_keeps unmoved (fresh_id p)"
  by (rule act_keepsI) (simp add: fresh_id_def row_simps)

lemma store_unmoved [keeps_rules]:
  "act_keeps unmoved utc_now" "act_keeps unmoved (owner_arg o')"
  "act_keeps unmoved (task_from_payload t)" "act_keeps unmoved (approval_from_payload ap)"
  unfolding utc_now_def owner_arg_def task_from_payload_def approval_from_payload_def
  by (intro keeps_rules)+

lemma task_reads_unmoved [keeps_rules]:
  "act_keeps unmoved (task_read tid)" "act_keeps unmoved (task_get tid)" "act_keeps unmoved (approval_read aid)"
  "act_keeps unmoved (approval_get aid)"
  unfolding task_get_def approval_get_def task_read_def task_read_payload_def approval_read_def
  by (auto intro!: keeps_rules split: exn.split)

lemma task_updates_unmoved [keeps_rules]:
  "act_keeps unmoved (task_update tid fn g)" "act_keeps unmoved (task_update_try tid gn)"
  unfolding task_update_def task_update_try_def Let_def by (intro keeps_rules)+

lemma approval_writes_unmoved [keeps_rules]:
  "act_keeps unmoved (approval_update aid afn)" "act_keeps unmoved (approval_create ap)"
  unfolding approval_update_def approval_create_def write_approval_def approval_mirror_write_def put_approval_row_def
  by (auto intro!: keeps_rules io_write_keeps row_simps split: option.split)

lemma payloads_unmoved [keeps_rules]:
  "act_keeps unmoved (approvals_from_payloads rs)" "act_keeps unmoved (tasks_from_payloads ts)"
  by (induction rs, auto intro!: keeps_rules) (induction ts, auto intro!: keeps_rules)

lemma lists_unmoved [keeps_rules]:
  "act_keeps unmoved (list_pending_for_task tid)" "act_keeps unmoved (task_list_for_session sid own lim)"
  unfolding list_pending_for_task_def task_list_for_session_def by (intro keeps_rules)+

lemma approvals_unmoved [keeps_rules]:
  "act_keeps unmoved (cancel_pending_approvals t why)"
  unfolding cancel_pending_approvals_def cancel_one_pending_def by (intro keeps_rules)

lemma fail_task_unmoved [keeps_rules]: "act_keeps unmoved (hub_fail_task tid why st)"
  unfolding hub_fail_task_def by (intro keeps_rules)

lemma decisions_unmoved [keeps_rules]:
  "act_keeps unmoved (persist_decision ap st dec)" "act_keeps unmoved (register_approval tid ap)"
  unfolding persist_decision_def register_approval_def by (intro keeps_rules)+

lemma raise_unmoved [keeps_rules]: "act_keeps unmoved (raise_protocol :: ('a, 'r) hub_act)"
  unfolding raise_protocol_def by (intro keeps_rules)

lemma scrub_unmoved [keeps_rules]: "act_keeps unmoved (scrub_tasks sid own)"
  unfolding scrub_tasks_def scrub_task_def by (intro keeps_rules)

end

text \<open>Then the deferred events.\<close>

locale hub_tables = hub_rows +
  assumes unmoved_stream: "unmoved s \<Longrightarrow> unmoved (s\<lparr>hb_stream := stm\<rparr>)"
begin

lemmas table_simps = row_simps unmoved_stream

lemma flush_unmoved [keeps_rules]: "act_keeps unmoved (flush_stream cfg tid)"
  unfolding flush_stream_def by (auto intro!: keeps_rules table_simps split: option.split)

end

text \<open>Then the files of the devices and the sessions.\<close>

locale hub_stores = hub_tables +
  assumes unmoved_files: "unmoved s \<Longrightarrow> unmoved (s\<lparr>dv_files := dvs\<rparr>)" "unmoved s \<Longrightarrow> unmoved (s\<lparr>ss_files := sss\<rparr>)"
      "unmoved s \<Longrightarrow> unmoved (s\<lparr>dv_now := txt\<rparr>)"
begin

lemmas unmoved_simps = table_simps unmoved_files

lemma device_reads_unmoved [keeps_rules]:
  "act_keeps unmoved (device_get did)" "act_keeps unmoved (device_get_for_owner did own)"
  unfolding device_get_for_owner_def device_get_def by (intro keeps_rules)+

lemma device_writes_unmoved [keeps_rules]:
  "act_keeps unmoved (write_device did d)" "act_keeps unmoved (device_revoke did own)"
  unfolding device_revoke_def write_device_def by (auto intro!: keeps_rules io_write_keeps unmoved_simps)

lemma sessions_unmoved [keeps_rules]:
  "act_keeps unmoved (session_load sid)" "act_keeps unmoved (session_save d)"
  unfolding session_load_def session_save_def
  by (auto intro!: keeps_rules io_write_keeps unmoved_simps split: option.split prod.split)

lemma session_count_unmoved [keeps_rules]: "act_keeps unmoved (update_session_count t count persisted)"
  unfolding update_session_count_def Let_def
  by (intro keeps_rules)+

end

text \<open>Then all that leaves the assignment and the connections alone.\<close>

locale hub_core = hub_stores +
  assumes unmoved_caches: "unmoved s \<Longrightarrow> unmoved (s\<lparr>hb_calls := cls\<rparr>)"
      "unmoved s \<Longrightarrow> unmoved (s\<lparr>hb_answers := ans\<rparr>)" "unmoved s \<Longrightarrow> unmoved (s\<lparr>hb_progress := prg\<rparr>)"
    and unmoved_requests: "unmoved s \<Longrightarrow> unmoved (s\<lparr>hb_selections := sel\<rparr>)" "unmoved s \<Longrightarrow> unmoved (s\<lparr>hb_futures := fut\<rparr>)"
      "unmoved s \<Longrightarrow> unmoved (s\<lparr>hb_pending := pnd\<rparr>)"
begin

lemmas core_simps = unmoved_simps unmoved_caches unmoved_requests

lemma sends_unmoved [keeps_rules]:
  "act_keeps unmoved (hub_send cfg did msg)" "act_keeps unmoved (send_to cfg cn msg)"
  unfolding hub_send_def send_to_def
  by (auto intro!: keeps_rules core_simps split: option.split)

lemma resolve_unmoved [keeps_rules]: "act_keeps unmoved (hub_resolve cfg aid dec)"
  unfolding hub_resolve_def Let_def by (intro keeps_rules)

lemma cancel_unmoved [keeps_rules]: "act_keeps unmoved (hub_cancel cfg tid)"
  unfolding hub_cancel_def by (intro keeps_rules)+

lemma assigned_unmoved [keeps_rules]: "act_keeps unmoved (assigned_task cn tid)"
  unfolding assigned_task_def by (intro keeps_rules)+

lemma caches_unmoved [keeps_rules]:
  "act_keeps unmoved (remember_progress tid pr)" "act_keeps unmoved (remember_answer tid an)"
  "act_keeps unmoved (enqueue_stream tid ev d)"
  unfolding remember_progress_def remember_answer_def enqueue_stream_def expire_answers_def
  by (intro keeps_rules core_simps; assumption)+

lemma keep_event_unmoved [keeps_rules]: "act_keeps unmoved (keep_event cfg tid ev d)"
  unfolding keep_event_def by (intro keeps_rules)

lemma handlers_unmoved [keeps_rules]:
  "act_keeps unmoved (handle_event cfg cn msg)" "act_keeps unmoved (handle_approval cfg cn msg)"
  unfolding handle_event_def handle_approval_def Let_def
  by (intro keeps_rules)+

lemma settle_unmoved [keeps_rules]: "act_keeps unmoved (settle_task cfg t r)"
  unfolding settle_task_def by (intro keeps_rules)

lemma fail_requests_unmoved: "unmoved s \<Longrightarrow> unmoved (fail_pending did why (fail_selections did why s))"
  unfolding fail_pending_def fail_selections_def by (intro core_simps)

end

text \<open>The connections too.\<close>

locale hub_blind = hub_core +
  assumes unmoved_conns: "unmoved s \<Longrightarrow> unmoved (s\<lparr>hb_conns := cns\<rparr>)" "unmoved s \<Longrightarrow> unmoved (s\<lparr>hb_online := onl\<rparr>)"
      "unmoved s \<Longrightarrow> unmoved (s\<lparr>hb_closed := cld\<rparr>)"
begin

lemma loop_unmoved: "unmoved s \<Longrightarrow> unmoved (hub_loop_step s)"
  by (auto simp: hub_loop_step_def Let_def put_outbox_def resolve_future_def
      split: list.split loop_call.split intro!: core_simps unmoved_conns)

lemma sender_unmoved: "unmoved s \<Longrightarrow> unmoved (snd (sender_step cn s))"
  by (auto simp: sender_step_def split: list.split intro!: core_simps unmoved_conns)

end

section \<open>The assignment\<close>

text \<open>\<open>home\<close> is the device a task was created for.\<close>

definition slots_ok :: "(string \<Rightarrow> string) \<Rightarrow> nat \<Rightarrow> 'a hub_state_scheme \<Rightarrow> bool" where
  "slots_ok home n s \<longleftrightarrow>
     (\<forall>tid did. obj_get (hb_devices s) tid = Some did \<longleftrightarrow> tid \<in> set (active_of s did)) \<and>
     (\<forall>did. distinct (active_of s did) \<and> length (active_of s did) \<le> n) \<and>
     (\<forall>tid did. obj_get (hb_devices s) tid = Some did \<longrightarrow> did = home tid)"

lemma slots_okI:
  assumes "\<And>tid did. obj_get (hb_devices s) tid = Some did \<longleftrightarrow> tid \<in> set (active_of s did)"
    and "\<And>did. distinct (active_of s did)" "\<And>did. length (active_of s did) \<le> n"
    and "\<And>tid did. tid \<in> set (active_of s did) \<Longrightarrow> did = home tid"
  shows "slots_ok home n s"
  using assms by (auto simp: slots_ok_def)

lemma slots_okD:
  assumes "slots_ok home n s"
  shows "obj_get (hb_devices s) tid = Some did \<longleftrightarrow> tid \<in> set (active_of s did)"
    and "distinct (active_of s did)" "length (active_of s did) \<le> n"
    and "tid \<in> set (active_of s did) \<Longrightarrow> did = home tid"
  using assms by (auto simp: slots_ok_def)

interpretation slots: hub_blind "slots_ok home n" for home n
  by unfold_locales (simp_all add: slots_ok_def active_of_def)

lemma obj_get_pop_all: "obj_get (fold (\<lambda>k d. obj_pop d k) ks d) k' = (if k' \<in> set ks then None else obj_get d k')"
  by (induction ks arbitrary: d) auto

lemma active_of_pop: "active_of (pop_tasks did s) did' = (if did' = did then [] else active_of s did')"
  by (simp add: pop_tasks_def active_of_def)

lemma devices_of_pop:
  "obj_get (hb_devices (pop_tasks did s)) tid =
     (if tid \<in> set (active_of s did) then None else obj_get (hb_devices s) tid)"
  by (simp add: pop_tasks_def obj_get_pop_all)

lemma pop_tasks_ok: "slots_ok home n s \<Longrightarrow> slots_ok home n (pop_tasks did s)"
proof (rule slots_okI, goal_cases)
  case (1 tid did')
  have "tid \<in> set (active_of s did) \<Longrightarrow> tid \<in> set (active_of s did') \<Longrightarrow> did' = did"
    using slots_okD(4) [OF 1] by metis
  then show ?case using slots_okD(1) [OF 1, of tid did'] slots_okD(1) [OF 1, of tid did]
    by (auto simp: active_of_pop devices_of_pop)
qed (auto simp: active_of_pop slots_okD(2,3) dest: slots_okD(4) split: if_splits)

lemma active_of_release:
  "active_of (snd (hub_release tid did s)) did' =
     (if did' = did then filter (\<lambda>x. x \<noteq> tid) (active_of s did) else active_of s did')"
  by (auto simp: hub_release_def act_modify_def active_of_def Let_def split: option.split)

lemma devices_of_release: "hb_devices (snd (hub_release tid did s)) = obj_pop (hb_devices s) tid"
  by (simp add: hub_release_def act_modify_def Let_def split: option.split)

lemma release_ok:
  assumes "slots_ok home n s" and "did = home tid"
  shows "slots_ok home n (snd (hub_release tid did s))"
proof (rule slots_okI, goal_cases)
  case (1 x did')
  show ?case using slots_okD(1) [OF assms(1), of x did'] slots_okD(4) [OF assms(1), of tid did'] assms(2)
    by (auto simp: active_of_release devices_of_release)
next
  case (3 did')
  show ?case using slots_okD(3) [OF assms(1)]
    by (auto simp: active_of_release intro: order.trans [OF length_filter_le])
qed (use slots_okD(2,4) [OF assms(1)] in \<open>auto simp: active_of_release split: if_splits\<close>)

lemma active_of_assign:
  "active_of (assign_task tid did s) did' = (if did' = did then add_new tid (active_of s did) else active_of s did')"
  by (simp add: assign_task_def active_of_def)

lemma devices_of_assign:
  "obj_get (hb_devices (assign_task tid did s)) x = (if x = tid then Some did else obj_get (hb_devices s) x)"
  by (simp add: assign_task_def)

lemma assign_ok:
  assumes "slots_ok home n s" and "did = home tid" and "length (active_of s did) < n"
  shows "slots_ok home n (assign_task tid did s)"
proof (rule slots_okI, goal_cases)
  case (1 x did')
  show ?case using slots_okD(1) [OF assms(1), of x did'] slots_okD(4) [OF assms(1), of tid did'] assms(2)
    by (auto simp: active_of_assign devices_of_assign)
next
  case (3 did')
  show ?case using slots_okD(3) [OF assms(1)] assms(3) length_add_new [of tid "active_of s did"]
    by (auto simp: active_of_assign)
qed (use slots_okD(2,4) [OF assms(1)] assms(2) in \<open>auto simp: active_of_assign split: if_splits\<close>)

lemma act_keeps_wp: "act_keeps P m \<Longrightarrow> P s \<Longrightarrow> act_wp m (\<lambda>_. P) (\<lambda>_. P) s"
  by (simp add: act_triple_wp)

lemma dispatch_ok:
  assumes "slots_ok home n s" and "t_device_id t = home (t_task_id t)" and "hc_max_tasks cfg \<le> int n"
  shows "slots_ok home n (snd (hub_dispatch cfg t session s))"
proof (rule act_wp_snd [where P = "slots_ok home n"])
  have rel: "act_keeps (slots_ok home n) (hub_release (t_task_id t) (t_device_id t))"
    using release_ok assms(2) by (intro act_keepsI) blast
  have start: "act_keeps (slots_ok home n) (hub_start cfg t session)"
    unfolding hub_start_def
    by (intro keeps_rules slots.publish_unmoved slots.task_updates_unmoved slots.sends_unmoved rel)
  show "act_wp (hub_dispatch cfg t session) (\<lambda>_. slots_ok home n) (\<lambda>_. slots_ok home n) s"
    unfolding hub_dispatch_def raise_protocol_def
    using assms act_keeps_wp [OF start assign_ok [OF assms(1,2)]]
    by (simp add: wp_simps split: option.split)
qed

end
