(* ===== verification/Hub_Runs.thy ===== *)
theory Hub_Runs
  imports Hub_Slots
begin

text \<open>
  All that can happen to the hub, as one step relation, and what every run of it keeps: the
  assignment of tasks to Workers.
\<close>

section \<open>Code that leaves the assignment alone\<close>

context hub_core
begin

lemma device_updates_unmoved [keeps_rules]:
  "act_keeps unmoved (update_presence did p)" "act_keeps unmoved (update_worker_status did st)"
  "act_keeps unmoved (set_workspace_display_name did own wid name)"
  unfolding update_presence_def update_worker_status_def set_workspace_display_name_def Let_def
  by (intro keeps_rules)+

lemma entity_unmoved [keeps_rules]: "act_keeps unmoved (entity_version d own ety eid)"
  unfolding entity_version_def by (intro keeps_rules)

lemma cancel_future_unmoved: "unmoved s \<Longrightarrow> unmoved (cancel_future f s)"
  by (simp add: cancel_future_def core_simps)

lemma cancel_futures_unmoved: "unmoved s \<Longrightarrow> unmoved (fold (\<lambda>r. cancel_future (pq_future r)) rs s)"
  by (induction rs arbitrary: s) (simp_all add: cancel_future_unmoved)

lemma expire_unmoved: "unmoved s \<Longrightarrow> unmoved (expire_requests s)"
  unfolding expire_requests_def Let_def by (intro cancel_futures_unmoved core_simps)

lemma add_request_unmoved: "unmoved s \<Longrightarrow> unmoved (add_request k rid own did sub s)"
  by (auto simp: add_request_def intro!: core_simps)

lemma drop_request_unmoved: "unmoved s \<Longrightarrow> unmoved (drop_request k rid s)"
  by (auto simp: drop_request_def intro!: core_simps)

lemma resolve_future_unmoved: "unmoved s \<Longrightarrow> unmoved (resolve_future f r s)"
  by (simp add: resolve_future_def core_simps)

lemma requests_unmoved [keeps_rules]:
  "act_keeps unmoved (register_request k rid did own cap sub)"
  "act_keeps unmoved (request_begin cfg k prefix did own cap sub msg)"
  "act_keeps unmoved (request_end k rid result f)"
  unfolding register_request_def request_begin_def request_end_def
  by (intro keeps_rules cancel_future_unmoved expire_unmoved add_request_unmoved drop_request_unmoved; assumption?)+

lemma commands_unmoved [keeps_rules]:
  "act_keeps unmoved (request_session_history cfg did sid lim own)"
  "act_keeps unmoved (configure_model cfg did own url key model provider)"
  "act_keeps unmoved (configure_provider cfg did own pid url key model protocol efforts)"
  "act_keeps unmoved (list_provider_models cfg did own pid)"
  "act_keeps unmoved (rename_entity cfg did own ety eid name expected)"
  "act_keeps unmoved (delete_entity cfg did own ety eid sids rids)"
  "act_keeps unmoved (uninstall_worker cfg did own)" "act_keeps unmoved (update_worker cfg did own)"
  unfolding request_session_history_def configure_model_def configure_provider_def list_provider_models_def
    rename_entity_def delete_entity_def uninstall_worker_def update_worker_def
  by (intro keeps_rules)+

lemma answers_unmoved [keeps_rules]:
  "act_keeps unmoved (pending_for cn k rid)" "act_keeps unmoved (resolve q result)"
  "act_keeps unmoved (ack cfg cn ty rid)" "act_keeps unmoved (rename_session q eid name)"
  unfolding pending_for_def resolve_def ack_def rename_session_def
  by (intro keeps_rules resolve_future_unmoved; assumption?)+

lemma expire_selections_unmoved: "unmoved s \<Longrightarrow> unmoved (expire_selections s)"
  by (auto simp: expire_selections_def intro!: core_simps)

lemma change_selection_unmoved: "unmoved s \<Longrightarrow> unmoved (change_selection rid f s)"
  by (simp add: change_selection_def core_simps split: option.split)

lemma selections_unmoved [keeps_rules]:
  "act_keeps unmoved (request_workspace_selection cfg did own)"
  "act_keeps unmoved (get_workspace_selection did rid own)"
  unfolding request_workspace_selection_def get_workspace_selection_def open_selection_def Let_def
  by (intro keeps_rules expire_selections_unmoved change_selection_unmoved core_simps; assumption?)+

lemma caches_read_unmoved [keeps_rules]:
  "act_keeps unmoved (ephemeral_answer tid)" "act_keeps unmoved (ephemeral_progress tid)"
  unfolding ephemeral_answer_def expire_answers_def
  by (intro keeps_rules core_simps, assumption)
    (auto intro!: act_keepsI core_simps simp: ephemeral_progress_def split: option.split)

lemma merge_unmoved [keeps_rules]: "act_keeps unmoved (merge_session_summary cn m)"
  unfolding merge_session_summary_def write_merged_def Let_def by (intro keeps_rules)

lemma index_unmoved [keeps_rules]: "act_keeps unmoved (index_sessions cfg cn wids raws)"
  by (induction raws) (auto simp: index_session_def intro!: keeps_rules split: sum.split)

lemma require_unmoved [keeps_rules]: "act_keeps unmoved (require_capability cn cap)"
  unfolding require_capability_def by (intro keeps_rules)

lemma sessions_updated_unmoved [keeps_rules]: "act_keeps unmoved (handle_sessions_updated cfg cn msg)"
  unfolding handle_sessions_updated_def by (intro keeps_rules)

lemma history_unmoved [keeps_rules]:
  "act_keeps unmoved (handle_history_result cfg cn msg)" "act_keeps unmoved (handle_models_listed cfg cn msg)"
  "act_keeps unmoved (handle_command_completed cfg cn k good fallback ty msg)"
  unfolding handle_history_result_def handle_models_listed_def handle_command_completed_def Let_def
  by (intro keeps_rules drop_request_unmoved; assumption?)+

end

context hub_blind
begin

lemma set_conn_unmoved: "unmoved s \<Longrightarrow> unmoved (set_conn_device cn d s)" "unmoved s \<Longrightarrow> unmoved (set_conn_ready cn s)"
  by (simp_all add: set_conn_device_def set_conn_ready_def unmoved_conns)

lemma presence_unmoved [keeps_rules]:
  "act_keeps unmoved (update_conn_presence cn p)" "act_keeps unmoved (record_model cn msg model pv)"
  "act_keeps unmoved (update_workspace_presence cn raw)"
  unfolding update_conn_presence_def record_model_def update_workspace_presence_def
  by (intro keeps_rules set_conn_unmoved; assumption?)+

lemma presence_handlers_unmoved [keeps_rules]:
  "act_keeps unmoved (handle_hello cfg cn msg)" "act_keeps unmoved (handle_update_status cfg cn msg)"
  "act_keeps unmoved (handle_workspaces_updated cfg cn msg)"
  "act_keeps unmoved (handle_model_configured cfg cn msg)"
  "act_keeps unmoved (handle_provider_configured cfg cn msg)"
  unfolding handle_hello_def handle_update_status_def handle_workspaces_updated_def handle_model_configured_def
    handle_provider_configured_def Let_def
  by (intro keeps_rules set_conn_unmoved drop_request_unmoved; assumption?)+

lemma entity_handlers_unmoved [keeps_rules]:
  "act_keeps unmoved (handle_rename_completed cn msg)" "act_keeps unmoved (handle_delete_completed cfg cn msg)"
  "act_keeps unmoved (handle_selection_completed cfg cn msg)"
  unfolding handle_rename_completed_def rename_workspace_entity_def handle_delete_completed_def
    handle_selection_completed_def Let_def
  by (intro keeps_rules set_conn_unmoved expire_selections_unmoved change_selection_unmoved; assumption?)+

lemma connect_unmoved:
  "unmoved s \<Longrightarrow> unmoved (s\<lparr>hb_conns := cns, hb_online := onl\<rparr>)"
  using unmoved_conns by blast

text \<open>All messages but the end of a task.\<close>

lemma handle_unmoved:
  assumes "act_keeps unmoved (handle_terminal_message cfg cn msg)"
  shows "act_keeps unmoved (hub_handle cfg cn msg)"
  unfolding hub_handle_def handle_uninstall_completed_def handle_update_completed_def Let_def
  by (intro keeps_rules assms)

end

section \<open>The operations and the assignment\<close>

text \<open>While a task ends, its connection still belongs to the device it was assigned to.\<close>

interpretation settles: hub_core "\<lambda>s. slots_ok home n s \<and> d_id (cn_device (hb_conns s ! a)) = did" for home n a did
  by unfold_locales (simp_all add: slots.core_simps)

text \<open>A task is handed out to its own Worker only, and reading it changes nothing.\<close>

lemma assigned_task_wp:
  assumes "\<And>t. obj_get (hb_devices s) tid = Some (d_id (cn_device (hb_conns s ! a))) \<Longrightarrow>
      t_owner_id t = d_owner (cn_device (hb_conns s ! a)) \<Longrightarrow> fst (task_get tid s) = Inr t \<Longrightarrow> Q t s"
    and "\<And>e. E e s"
  shows "act_wp (assigned_task a tid) Q E s"
proof -
  have same: "snd (task_get tid s) = s"
    by (rule act_wp_snd [where P = "\<lambda>t. t = s"]) (auto simp: wp_simps split: option.split)
  show ?thesis
  proof (cases "task_get tid s")
    case (Pair r t)
    then have t: "t = s" using same by simp
    show ?thesis
      using assms Pair unfolding t
      by (cases r) (auto simp: assigned_task_def act_defs raise_protocol_def act_wp_def)
  qed
qed

lemma handle_terminal_ok:
  fixes s :: "'a hub_state_scheme"
  shows "slots_ok home n s \<Longrightarrow> slots_ok home n (snd (handle_terminal cfg a msg s))"
proof (rule act_wp_snd [where P = "slots_ok home n"])
  assume ok: "slots_ok home n s"
  let ?tid = "get_str msg ''task_id'' []"
  let ?did = "d_id (cn_device (hb_conns s ! a))"
  let ?P = "\<lambda>s :: 'a hub_state_scheme. slots_ok home n s \<and> d_id (cn_device (hb_conns s ! a)) = ?did"
  have weak: "act_keeps ?P m \<Longrightarrow> act_triple ?P m (\<lambda>_. ?P) (\<lambda>_. slots_ok home n)" for m :: "('a, unit) hub_act"
    by (erule act_triple_conseq) auto
  have rest: "act_triple ?P
      (act_then (update_session_count t count persisted)
        (act_then (settle_task cfg t r) (act_bind (act_get (\<lambda>s. d_id (cn_device (hb_conns s ! a)))) (hub_release ?tid))))
      (\<lambda>_. slots_ok home n) (\<lambda>_. slots_ok home n)" if "?did = home ?tid" for t count persisted r
  proof -
    have a: "act_triple ?P (update_session_count t count persisted) (\<lambda>_. ?P) (\<lambda>_. slots_ok home n)"
      by (intro weak settles.session_count_unmoved)
    have b: "act_triple ?P (settle_task cfg t r) (\<lambda>_. ?P) (\<lambda>_. slots_ok home n)"
      by (intro weak settles.settle_unmoved)
    have c: "act_triple ?P (act_bind (act_get (\<lambda>s. d_id (cn_device (hb_conns s ! a)))) (hub_release ?tid))
       (\<lambda>_. slots_ok home n) (\<lambda>_. slots_ok home n)"
      unfolding act_triple_wp
    proof (intro allI impI)
      fix u assume "?P u"
      then show "act_wp (act_bind (act_get (\<lambda>s. d_id (cn_device (hb_conns s ! a)))) (hub_release ?tid))
          (\<lambda>_. slots_ok home n) (\<lambda>_. slots_ok home n) u"
        using release_ok [of home n u ?did ?tid] that
        by (cases "hub_release ?tid ?did u") (auto simp: wp_simps act_wp_def split: sum.split)
    qed
    from a b c show ?thesis by (intro act_triple_then)
  qed
  have rest': "act_wp (act_then (update_session_count t count persisted)
        (act_then (settle_task cfg t r) (act_bind (act_get (\<lambda>s. d_id (cn_device (hb_conns s ! a)))) (hub_release ?tid))))
      (\<lambda>_. slots_ok home n) (\<lambda>_. slots_ok home n) s"
    if "obj_get (hb_devices s) ?tid = Some ?did" for t count persisted r
    using rest [of t count persisted r] slots_okD(1,4) [OF ok] that ok by (auto simp: act_triple_wp)
  show "act_wp (handle_terminal cfg a msg) (\<lambda>_. slots_ok home n) (\<lambda>_. slots_ok home n) s"
    unfolding handle_terminal_def Let_def act_wp_bind raise_protocol_def
    by (rule assigned_task_wp) (auto simp: ok wp_simps rest' [unfolded act_wp_then act_wp_bind act_wp_get] split: option.split json.split)
qed

lemma terminal_message_ok: "act_keeps (slots_ok home n) (handle_terminal_message cfg a msg)"
  unfolding handle_terminal_message_def
  by (intro keeps_rules slots.flush_unmoved act_keepsI handle_terminal_ok)

lemma handle_ok: "act_keeps (slots_ok home n) (hub_handle cfg a msg)"
  by (intro slots.handle_unmoved terminal_message_ok)

lemma pop_all_ok:
  "slots_ok home n s \<Longrightarrow> slots_ok home n (pop_tasks did (fail_pending did why (fail_selections did why s)))"
  by (intro pop_tasks_ok slots.fail_requests_unmoved)

lemma connect_ok: "act_keeps (slots_ok home n) (hub_connect d)"
  unfolding hub_connect_def
  by (intro keeps_rules slots.fail_task_unmoved slots.connect_unmoved pop_all_ok slots.unmoved_conns; assumption?)

lemma disconnect_ok: "act_keeps (slots_ok home n) (hub_disconnect cfg a)"
proof -
  have "slots_ok home n s \<Longrightarrow> slots_ok home n (if outbox_full a s then s else put_outbox a None s)"
    for s :: "'a hub_state_scheme"
    by (simp add: put_outbox_def slots.unmoved_conns)
  then show ?thesis
    unfolding hub_disconnect_def
    by (intro keeps_rules slots.flush_unmoved slots.fail_task_unmoved pop_all_ok slots.unmoved_conns; assumption?)
qed

lemma revoke_ok: "act_keeps (slots_ok home n) (hub_revoke did owner)"
  unfolding hub_revoke_def
  by (intro keeps_rules slots.device_reads_unmoved slots.device_writes_unmoved slots.fail_task_unmoved pop_all_ok
        slots.unmoved_conns slots.unmoved_caches; assumption?)

section \<open>Every run\<close>

text \<open>
  One step: an operation of the API, a message of a Worker, a connection that comes or goes, the
  event loop, a sender, the clock, or whatever the other components do to the stores (\<open>Others\<close>: the
  tasks, approvals, devices, sessions and faults of the next state are arbitrary).  A task is
  dispatched to the device it was created for, \<open>home\<close>.
\<close>

inductive hub_step :: "'c hub_config_scheme \<Rightarrow> (string \<Rightarrow> string) \<Rightarrow> 'a hub_state_scheme \<Rightarrow> 'a hub_state_scheme \<Rightarrow> bool"
  for cfg :: "'c hub_config_scheme" and home :: "string \<Rightarrow> string" where
  Connect: "hub_step cfg home s (snd (hub_connect d s))"
| Disconnect: "hub_step cfg home s (snd (hub_disconnect cfg a s))"
| Revoke: "hub_step cfg home s (snd (hub_revoke did owner s))"
| Message: "hub_step cfg home s (snd (hub_handle cfg a msg s))"
| Dispatch: "t_device_id t = home (t_task_id t) \<Longrightarrow> hub_step cfg home s (snd (hub_dispatch cfg t session s))"
| Cancel: "hub_step cfg home s (snd (hub_cancel cfg tid s))"
| Decide: "hub_step cfg home s (snd (hub_resolve cfg aid decision s))"
| Steer: "hub_step cfg home s (snd (send_task_message cfg did tid content wake s))"
| History: "hub_step cfg home s (snd (request_session_history cfg did sid limit owner s))"
| Model: "hub_step cfg home s (snd (configure_model cfg did owner url key model provider s))"
| Provider: "hub_step cfg home s (snd (configure_provider cfg did owner pid url key model protocol efforts s))"
| Models: "hub_step cfg home s (snd (list_provider_models cfg did owner pid s))"
| Rename: "hub_step cfg home s (snd (rename_entity cfg did owner ety eid name expected s))"
| Delete: "hub_step cfg home s (snd (delete_entity cfg did owner ety eid sids rids s))"
| Uninstall: "hub_step cfg home s (snd (uninstall_worker cfg did owner s))"
| Update: "hub_step cfg home s (snd (update_worker cfg did owner s))"
| Finish: "hub_step cfg home s (snd (request_end k rid result f s))"
| Select: "hub_step cfg home s (snd (request_workspace_selection cfg did owner s))"
| Selection: "hub_step cfg home s (snd (get_workspace_selection did rid owner s))"
| Answer: "hub_step cfg home s (snd (ephemeral_answer tid s))"
| Progress: "hub_step cfg home s (snd (ephemeral_progress tid s))"
| Loop: "hub_step cfg home s (hub_loop_step s)"
| Sender: "hub_step cfg home s (snd (sender_step a s))"
| Others: "hub_step cfg home s (s\<lparr>st_clock := now, dv_now := time, st_io := faults, st_uuid := ids, st_tasks := tasks,
     st_task_mirror := mirror, st_approvals := approvals, st_approval_mirror := amirror, st_runs := runs,
     dv_files := devices, ss_files := sessions\<rparr>)"

inductive_simps hub_step_simps: "hub_step cfg home s t"

lemma hub_step_ok:
  assumes "slots_ok home (nat (hc_max_tasks cfg)) s" and "hub_step cfg home s t"
  shows "slots_ok home (nat (hc_max_tasks cfg)) t"
  using assms(2,1)
proof (induction rule: hub_step.induct)
  case (Dispatch t session s)
  then show ?case by (intro dispatch_ok) auto
next
  case (Others s now time faults ids tasks mirror approvals amirror runs devices sessions)
  then show ?case by (simp add: slots.core_simps)
next
  case (Steer s did tid content wake)
  then show ?case unfolding send_task_message_def by (blast intro: act_keepsD slots.sends_unmoved)
qed (blast intro: act_keepsD connect_ok disconnect_ok revoke_ok handle_ok slots.cancel_unmoved slots.resolve_unmoved
   slots.commands_unmoved slots.requests_unmoved slots.selections_unmoved slots.caches_read_unmoved slots.loop_unmoved
   slots.sender_unmoved)+

interpretation hub_runs: relation_invariant "hub_step cfg home" "slots_ok home (nat (hc_max_tasks cfg))" for cfg home
  by unfold_locales (rule hub_step_ok)

text \<open>
  C6. Started without tasks, whatever happens to the hub and whatever fails: the two maps of the
  assignment agree, so that no task is ever with two Workers; a task is only ever with the device it
  was created for; and no device has more tasks than the configured number.
\<close>

theorem worker_slots_bounded:
  assumes "(hub_step cfg home)\<^sup>*\<^sup>* s t" and "hb_active s = []" and "hb_devices s = []"
  shows "(obj_get (hb_devices t) tid = Some did \<longleftrightarrow> tid \<in> set (active_of t did)) \<and>
     (tid \<in> set (active_of t did) \<longrightarrow> did = home tid) \<and>
     distinct (active_of t did) \<and> length (active_of t did) \<le> nat (hc_max_tasks cfg)"
proof -
  have "slots_ok home (nat (hc_max_tasks cfg)) s" using assms(2,3) by (simp add: slots_ok_def active_of_def)
  from hub_runs.reach_keeps [OF assms(1) this] show ?thesis by (simp add: slots_okD)
qed

end
