(* ===== verification/Hub_Settles.thy ===== *)
theory Hub_Settles
  imports Hub_Runs
begin

text \<open>
  What the hub does with the rows of a task: the end of a task, whose status, answer and approvals
  are settled in one go; the decision of an approval, which reaches its Worker once; the progress
  events whose writing is put off.
\<close>

section \<open>Rows\<close>

lemma rows_ok_frames [simp]:
  "rows_ok (s\<lparr>hb_stream := x1\<rparr>) = rows_ok s" "rows_ok (s\<lparr>hb_answers := x2\<rparr>) = rows_ok s"
  "rows_ok (s\<lparr>hb_progress := x3\<rparr>) = rows_ok s" "rows_ok (s\<lparr>hb_calls := x4\<rparr>) = rows_ok s"
  "rows_ok (s\<lparr>ss_files := x5\<rparr>) = rows_ok s" "rows_ok (published ev u sqs sch s) = rows_ok s"
  "rows_ok (s\<lparr>st_uuid := x6\<rparr>) = rows_ok s"
  by (simp_all add: rows_ok_def)

lemma pending_of_frames [simp]:
  "pending_of (s\<lparr>hb_stream := x1\<rparr>) = pending_of s" "pending_of (s\<lparr>hb_answers := x2\<rparr>) = pending_of s"
  "pending_of (s\<lparr>hb_calls := x4\<rparr>) = pending_of s" "pending_of (s\<lparr>st_io := x5\<rparr>) = pending_of s"
  "pending_of (published ev u sqs sch s) = pending_of s" "pending_of (task_written v runs mir os s) = pending_of s"
  by (simp_all add: pending_of_def fun_eq_iff)

lemma task_update_try_wp:
  assumes "\<And>row u runs mir os. obj_get (st_tasks s) tid = Some row \<Longrightarrow> fn row = Inr u \<Longrightarrow>
      act_wp (act_ret (u\<lparr>t_updated_at := st_clock s\<rparr>)) Q E (task_written (u\<lparr>t_updated_at := st_clock s\<rparr>) runs mir os s)"
    and "\<And>e t. E e t" and "rows_ok s"
  shows "act_wp (task_update_try tid fn) Q E s"
proof (cases "obj_get (st_tasks s) tid")
  case None
  then show ?thesis by (simp add: task_update_try_def wp_simps assms(2))
next
  case (Some row)
  have own: "canonical_owner_id (t_owner_id row) = Some (t_owner_id row)" using Some assms(3) by (simp add: rows_ok_def)
  have "row\<lparr>t_owner_id := t_owner_id row\<rparr> = row" by simp
  then show ?thesis
    using Some own assms(1) [OF Some]
    by (auto simp: task_update_try_def wp_simps assms(2) Let_def split: sum.split intro!: write_task_wp)
qed

text \<open>An update that leaves the id and the owner alone keeps the rows in order.\<close>

lemma rows_ok_written:
  assumes "rows_ok s" and "obj_get (st_tasks s) tid = Some row" and "t_task_id u = t_task_id row"
    and "t_owner_id u = t_owner_id row"
  shows "rows_ok (task_written u runs mir os s)" and "t_task_id u = tid"
  using assms by (auto simp: rows_ok_def)

lemma task_update_keeps_rows:
  assumes "\<And>t. t_task_id (fn t) = t_task_id t" "\<And>t. t_owner_id (fn t) = t_owner_id t"
  shows "act_keeps rows_ok (task_update tid fn None)"
  unfolding act_triple_wp
proof (intro allI impI task_update_wp, goal_cases)
  case (1 s row o' runs mir os u)
  then have "rows_ok (task_written u runs mir os s)"
    by (intro rows_ok_written(1) [of s tid row]) (auto simp: assms rows_ok_def)
  then show ?case by simp
qed simp_all

lemma session_count_rows: "act_keeps rows_ok (update_session_count t count persisted)"
proof -
  have pl: "act_keeps rows_ok (tasks_from_payloads ts)" for ts
    by (induction ts) (auto simp: task_from_payload_def owner_arg_def intro!: keeps_rules split: option.split)
  have "act_keeps rows_ok (task_list_for_session sid own lim)" for sid own lim
    unfolding task_list_for_session_def owner_arg_def by (auto intro!: keeps_rules pl split: option.split)
  moreover have "act_keeps rows_ok (scrub_task u)" for u
    unfolding scrub_task_def by (intro keeps_rules task_update_keeps_rows) (simp_all add: clear_local_content_def)
  moreover have "act_keeps rows_ok (session_load sid)" "act_keeps rows_ok (session_save d)" for sid d
    unfolding session_load_def session_save_def
    by (auto intro!: keeps_rules io_write_keeps simp: rows_ok_def split: option.split prod.split)
  ultimately show ?thesis
    unfolding update_session_count_def scrub_tasks_def raise_protocol_def Let_def by (intro keeps_rules)
qed

section \<open>The approvals of a task that ends\<close>

lemma cancel_pending_each_wp:
  assumes "rows_ok s" and "\<forall>r\<in>set rs. \<exists>row. obj_get (st_approvals s) (a_approval_id r) = Some row"
    and "\<And>u. rows_ok u \<Longrightarrow> st_tasks u = st_tasks s \<Longrightarrow>
       (\<And>k. pending_of u k = pending_of s k - a_approval_id ` set rs) \<Longrightarrow> Q () u"
    and "\<And>u e. E e u"
  shows "act_wp (act_each (cancel_one_pending t why) rs) Q E s"
  using assms
proof (induction rs arbitrary: s)
  case Nil
  then show ?case by (simp add: wp_simps)
next
  case (Cons r rs)
  obtain row where row: "obj_get (st_approvals s) (a_approval_id r) = Some row" using Cons.prems(2) by auto
  have ok: "canonical_owner_id (a_owner_id row) = Some (a_owner_id row)" "a_approval_id row = a_approval_id r"
    using Cons.prems(1) row by (auto simp: rows_ok_def)
  have same: "row\<lparr>a_owner_id := a_owner_id row\<rparr> = row" by simp
  show ?case
    unfolding act_each.simps cancel_one_pending_def [of t why r] wp_simps
  proof (rule approval_update_wp, goal_cases)
    case (1 row' o' mir os)
    let ?a = "set_worker_decision A_Cancelled why (st_clock s) row"
    have a: "set_worker_decision A_Cancelled why (st_clock s) (row'\<lparr>a_owner_id := o'\<rparr>) = ?a"
      using 1 row ok same by simp
    have "act_wp (act_each (cancel_one_pending t why) rs) Q E (published ev uuid sqs sch (approval_written ?a mir os s))"
      for ev uuid sqs sch
    proof (rule Cons.IH, goal_cases)
      case 1
      then show ?case using Cons.prems(1) ok row by (auto simp: rows_ok_def distinct_obj_put set_worker_decision_def)
    next
      case 2
      then show ?case using Cons.prems(2) by auto
    next
      case (3 u)
      have "pending_of (approval_written ?a mir os s) k = pending_of s k - {a_approval_id r}" for k
        using ok by (auto simp: pending_of_def set_worker_decision_def)
      then show ?case using 3 by (intro Cons.prems(3)) auto
    qed (rule Cons.prems(4))
    then show ?case unfolding a by (auto intro: publish_event_wp Cons.prems(4))
  qed (rule Cons.prems(4))+
qed

lemma cancel_pending_approvals_wp:
  assumes "rows_ok s"
    and "\<And>u. rows_ok u \<Longrightarrow> st_tasks u = st_tasks s \<Longrightarrow> pending_of u (t_task_id t) = {} \<Longrightarrow> Q () u"
    and "\<And>u e. E e u"
  shows "act_wp (cancel_pending_approvals t why) Q E s"
proof -
  obtain rs where rs: "list_pending_for_task (t_task_id t) s = (Inr rs, s)"
    "set (map a_approval_id rs) = pending_of s (t_task_id t)"
    "\<forall>r\<in>set rs. obj_get (st_approvals s) (a_approval_id r) = Some r"
    using list_pending_ok [OF assms(1)] by blast
  have "act_wp (act_each (cancel_one_pending t why) rs) Q E s"
    by (rule cancel_pending_each_wp [OF assms(1)]) (use rs assms(2,3) in auto)
  then show ?thesis by (simp add: cancel_pending_approvals_def act_wp_def act_bind_def rs(1))
qed

section \<open>The end of a task\<close>

text \<open>The row of a task that ended with this report, and nothing left to decide.\<close>

definition row_settled :: "terminal_report \<Rightarrow> string \<Rightarrow> 'a hub_state_scheme \<Rightarrow> bool" where
  "row_settled r tid s \<longleftrightarrow>
     (\<exists>row. obj_get (st_tasks s) tid = Some row \<and> t_status row = tm_status r \<and> t_stop_reason row = Some (tm_reason r)
        \<and> t_pending_approval row = None
        \<and> t_final_answer row = (if tm_status r = Completed \<or> tm_answer r = [] then None else Some (tm_answer r))) \<and>
     pending_of s tid = {}"

lemma row_settled_frames [simp]:
  "row_settled r tid (s\<lparr>hb_answers := x1\<rparr>) = row_settled r tid s"
  "row_settled r tid (published ev u sqs sch s) = row_settled r tid s"
  by (simp_all add: row_settled_def)

lemma settled_rows:
  assumes "row_settled r tid s" "rows_ok s" "obj_get (st_tasks s) tid = Some row" "append_run_index cfg ev d row = Inr u"
  shows "row_settled r tid (task_written (u\<lparr>t_updated_at := now\<rparr>) runs mir os s)"
proof -
  obtain idx where u: "u = row\<lparr>t_run_index := idx\<rparr>" using append_run_index_frame [OF assms(4)] by blast
  have "t_task_id row = tid" using assms(2,3) by (simp add: rows_ok_def)
  then show ?thesis using assms(1,3) by (simp add: row_settled_def u)
qed

lemma index_settled_wp:
  assumes "rows_ok s" and "row_settled r tid s" and "\<And>u. row_settled r tid u \<Longrightarrow> Q () u" and "\<And>e u. E e u"
  shows "act_wp (task_update_try tid (append_run_index cfg ev d)) (\<lambda>_. Q ()) E s"
proof (rule task_update_try_wp [OF _ assms(4,1)])
  fix row u runs mir os
  assume "obj_get (st_tasks s) tid = Some row" "append_run_index cfg ev d row = Inr u"
  from settled_rows [OF assms(2,1) this] show "act_wp (act_ret (u\<lparr>t_updated_at := st_clock s\<rparr>)) (\<lambda>_. Q ()) E (task_written (u\<lparr>t_updated_at := st_clock s\<rparr>) runs mir os s)"
    by (simp add: wp_simps assms(3))
qed

lemma publish_settled_wp:
  assumes "rows_ok s" and "row_settled r tid s"
    and "\<And>a u. rows_ok u \<Longrightarrow> row_settled r tid u \<Longrightarrow> Q a u"
  shows "act_wp (publish_event k rid ty data opts) Q E s"
  by (rule publish_event_wp) (simp add: assms)

lemma settle_wp:
  assumes "rows_ok s" and "t_task_id t = tid" and "\<And>u. row_settled r tid u \<Longrightarrow> Q () u" and "\<And>e u. E e u"
  shows "act_wp (settle_task cfg t r) Q E s"
proof -
  let ?fn = "set_worker_terminal (tm_status r) (tm_reason r) (terminal_persisted_answer (tm_status r) (tm_answer r)) (tm_error r)"
  let ?final = "act_bind (publish_event tid (t_run_id t) (terminal_event (tm_status r)) (terminal_data r)
      (final_opts (task_status_value (tm_status r)) (tm_reason r))) (\<lambda>ev.
        act_bind (task_update_try tid (append_run_index cfg (event_to_dict ev) (terminal_data r))) (\<lambda>_. act_ret ()))"
  let ?said = "act_bind (publish_event tid (t_run_id t) ''message.completed'' [(''text'', JStr (tm_answer r))]
      (final_opts ''completed'' [])) (\<lambda>_. act_ret ())"
  have finish: "act_wp ?final Q E u" if "rows_ok u" "row_settled r tid u" for u
    unfolding act_wp_bind act_wp_ret
    by (rule publish_settled_wp [OF that]) (rule index_settled_wp; blast intro: assms(3,4))
  have said: "act_wp ?said (\<lambda>_. act_wp ?final Q E) E u" if "rows_ok u" "row_settled r tid u" for u
    unfolding act_wp_bind [of _ "\<lambda>_. act_ret ()"] act_wp_ret
    by (rule publish_settled_wp [OF that]) (rule finish)
  have answered: "act_wp (act_then (act_when (tm_status r = Completed)
      (act_then (remember_answer tid (tm_answer r)) ?said)) ?final) Q E u"
    if "rows_ok u" "row_settled r tid u" for u
  proof (cases "tm_status r = Completed")
    case True
    have "act_wp (remember_answer tid (tm_answer r)) (\<lambda>_ v. rows_ok v \<and> row_settled r tid v) E u"
      using that by (simp add: remember_answer_def expire_answers_def wp_simps)
    then show ?thesis
      unfolding act_wp_then act_wp_when if_P [OF True] by (rule act_wp_conseq) (auto intro: said)
  qed (simp only: act_wp_then act_wp_when if_False finish [OF that])
  show ?thesis
    unfolding settle_task_def assms(2) act_wp_then [of "cancel_pending_approvals t (tm_reason r)"]
  proof (rule cancel_pending_approvals_wp [OF assms(1) _ assms(4)], unfold act_wp_bind, rule task_update_wp, goal_cases)
    case (1 v row o' runs mir os u)
    have row: "t_task_id row = tid" "o' = t_owner_id row" using 1(1,4,5) assms(2) by (auto simp: rows_ok_def)
    then have u: "t_task_id u = t_task_id row" "t_owner_id u = t_owner_id row" "t_task_id u = tid"
      using 1(7) by (simp_all add: set_worker_terminal_def)
    have "rows_ok (task_written u runs mir os v)" by (rule rows_ok_written(1) [OF 1(1,4) u(1,2)])
    moreover have "row_settled r tid (task_written u runs mir os v)"
      using 1(3,7) u(3) assms(2) by (simp add: row_settled_def set_worker_terminal_def terminal_persisted_answer_def)
    ultimately show ?case using answered assms(4) by simp
  qed (rule assms(4))+
qed

lemma terminal_status: "obj_get terminal_statuses x = Some st \<Longrightarrow> task_terminal st"
  by (auto simp: terminal_statuses_def task_terminal_def split: if_splits)

lemma report_terminal: "task_terminal st \<Longrightarrow> task_terminal (tm_status (report_end cfg now st msg))"
  by (simp add: report_end_def Let_def task_terminal_def)

text \<open>A slot that was given back: nothing else of the state changed.\<close>

lemma release_wp:
  assumes "\<And>acts. (\<forall>ts. obj_get acts did = Some ts \<longrightarrow> tid \<notin> set ts) \<Longrightarrow>
      Q () (s\<lparr>hb_devices := obj_pop (hb_devices s) tid, hb_active := acts\<rparr>)"
  shows "act_wp (hub_release tid did) Q E s"
proof (cases "obj_get (hb_active s) did")
  case None
  have "s\<lparr>hb_devices := obj_pop (hb_devices s) tid\<rparr>
      = s\<lparr>hb_devices := obj_pop (hb_devices s) tid, hb_active := hb_active s\<rparr>" by simp
  then show ?thesis
    using None assms [of "hb_active s"] by (simp only: hub_release_def wp_simps Let_def) simp
next
  case (Some ts)
  then show ?thesis
    using assms [of "obj_pop (hb_active s) did"] assms [of "obj_put (hb_active s) did (filter (\<lambda>x. x \<noteq> tid) ts)"]
    by (simp add: hub_release_def wp_simps Let_def)
qed

text \<open>
  C7. When the end of a task was handled, its row says so: the status, reason and answer are those of
  the report, the status is terminal, a cancellation that was asked for is never reported as a
  completion, no approval of the task is pending any more, and its slot is free again: the task is in
  neither of the two tables, so it no longer counts towards the limit of any device.  (\<open>slots_ok\<close> is the
  invariant of the tables that every step of the hub keeps.)
\<close>

theorem terminal_settles:
  assumes "rows_ok s" and "slots_ok home n s" and "handle_terminal cfg a msg s = (Inr (), t)"
    and "tid = get_str msg ''task_id'' []"
  shows "\<exists>before st. obj_get (st_tasks s) tid = Some before \<and>
     obj_get terminal_statuses (get_str msg ''status'' ''failed'') = Some st \<and>
     (let r = report_end cfg (t_status before) st msg in
      row_settled r tid t \<and> task_terminal (tm_status r) \<and>
      (t_status before = Cancel_Requested \<longrightarrow> tm_status r \<noteq> Completed)) \<and>
     obj_get (hb_devices t) tid = None \<and> (\<forall>did. tid \<notin> set (active_of t did))"
proof -
  let ?Q = "\<lambda>before st u. row_settled (report_end cfg (t_status before) st msg) tid u \<and>
     obj_get (hb_devices u) tid = None"
  have tail: "act_wp (act_then (update_session_count task count persisted)
        (act_then (settle_task cfg task (report_end cfg (t_status task) st msg))
          (act_bind (act_get (\<lambda>s. d_id (cn_device (hb_conns s ! a)))) (hub_release tid))))
      (\<lambda>_. ?Q task st) (\<lambda>_ _. True) s"
    if "t_task_id task = tid" for task count persisted st
  proof -
    have rel: "act_wp (act_bind (act_get (\<lambda>s. d_id (cn_device (hb_conns s ! a)))) (hub_release tid)) (\<lambda>_. ?Q task st) (\<lambda>_ _. True) u"
      if "row_settled (report_end cfg (t_status task) st msg) tid u" for u
      unfolding act_wp_bind act_wp_get
      by (rule release_wp) (use that in \<open>simp add: row_settled_def pending_of_def\<close>)
    show ?thesis
      unfolding act_wp_then
      by (rule keeps_wp [OF session_count_rows assms(1)]) (auto intro!: settle_wp that rel)
  qed
  have "act_wp (handle_terminal cfg a msg) (\<lambda>_ u. \<exists>before st. obj_get (st_tasks s) tid = Some before \<and>
      obj_get terminal_statuses (get_str msg ''status'' ''failed'') = Some st \<and> ?Q before st u) (\<lambda>_ _. True) s"
    unfolding handle_terminal_def Let_def act_wp_bind [of "assigned_task _ _"]
  proof (rule assigned_task_wp, goal_cases)
    case (1 task)
    then have row: "obj_get (st_tasks s) tid = Some task"
      using assms(1) unfolding assms(4) by (auto simp: task_get_eq rows_ok_def split: option.splits)
    then have id: "t_task_id task = tid" using assms(1) by (simp add: rows_ok_def)
    show ?case
      unfolding assms(4) [symmetric] raise_protocol_def
      by (auto simp: wp_simps(1,2) row simp del: act_wp_then split: option.split json.split
          intro!: act_wp_conseq [OF tail [OF id]])
  qed simp
  from act_wp_retD [OF this assms(3)] obtain before st where ended: "obj_get (st_tasks s) tid = Some before"
    "obj_get terminal_statuses (get_str msg ''status'' ''failed'') = Some st" "?Q before st t" by blast
  have "slots_ok home n t" using handle_terminal_ok [OF assms(2), of cfg a msg] assms(3) by simp
  then have "tid \<notin> set (active_of t did)" for did using slots_okD(1) [of home n t tid did] ended(3) by simp
  with ended show ?thesis
    by (fastforce simp: Let_def report_end_def dest: terminal_status intro: report_terminal)
qed

end
