(* ===== verification/Hub_Stream.thy ===== *)
theory Hub_Stream
  imports Hub_Settles
begin

text \<open>
  Putting off the writing of the streamed events: the hub collects the thoughts and comments of a
  task and writes them with the next event that is written at once, or at the end.  The rows end as
  if every event had been written when it came.
\<close>

section \<open>Writes that succeed\<close>

lemma write_task_quiet:
  assumes "st_io s = []"
  shows "\<exists>runs mir. write_task t s = (Inr (), task_written t runs mir [] s)"
proof -
  have put: "put_task_row t s = task_written t (st_runs (upsert_run t s)) (st_task_mirror s) [] s"
    using put_task_row_written [where u = t and s = s and r = "[]"] st_io_quiet [OF assms] by simp
  have "st_io (task_written t runs mir [] s) = []" for runs mir by (simp add: task_written_def)
  then show ?thesis
    unfolding write_task_def task_mirror_write_def act_defs
    by (cases "st_mirrored s") (auto simp: io_write_quiet [OF assms] put io_write_quiet)
qed

lemma update_quiet_wp:
  assumes "st_io s = []" and "obj_get (st_tasks s) tid = Some row"
    and "canonical_owner_id (t_owner_id row) = Some (t_owner_id row)"
    and "\<And>runs mir. Q ((fn row)\<lparr>t_updated_at := st_clock s\<rparr>)
           (task_written ((fn row)\<lparr>t_updated_at := st_clock s\<rparr>) runs mir [] s)"
  shows "act_wp (task_update tid fn None) Q E s"
proof -
  have same: "row\<lparr>t_owner_id := t_owner_id row\<rparr> = row" by simp
  show ?thesis
    using write_task_quiet [OF assms(1), of "(fn row)\<lparr>t_updated_at := st_clock s\<rparr>"] assms(2-4)
    by (auto simp: task_update_def act_wp_def act_defs task_read_eq utc_now_def Let_def same)
qed

lemma update_try_quiet_wp:
  assumes "st_io s = []" and "obj_get (st_tasks s) tid = Some row"
    and "canonical_owner_id (t_owner_id row) = Some (t_owner_id row)" and "fn row = Inr u"
    and "\<And>runs mir. Q (u\<lparr>t_updated_at := st_clock s\<rparr>) (task_written (u\<lparr>t_updated_at := st_clock s\<rparr>) runs mir [] s)"
  shows "act_wp (task_update_try tid fn) Q E s"
proof -
  have same: "row\<lparr>t_owner_id := t_owner_id row\<rparr> = row" by simp
  show ?thesis
    using write_task_quiet [OF assms(1), of "u\<lparr>t_updated_at := st_clock s\<rparr>"] assms(2-5)
    by (auto simp: task_update_try_def act_wp_def act_defs act_lift_def task_read_eq utc_now_def Let_def same)
qed

text \<open>An update with whatever faults the disk has left: quiet when it has none.\<close>

lemma update_faulty_wp:
  assumes "obj_get (st_tasks s) tid = Some row" and "canonical_owner_id (t_owner_id row) = Some (t_owner_id row)"
    and "\<And>runs mir os. (st_io s = [] \<Longrightarrow> os = []) \<Longrightarrow> Q ((fn row)\<lparr>t_updated_at := st_clock s\<rparr>)
           (task_written ((fn row)\<lparr>t_updated_at := st_clock s\<rparr>) runs mir os s)"
    and "\<And>runs mir os. st_io s \<noteq> [] \<Longrightarrow> E Os_Error (task_written ((fn row)\<lparr>t_updated_at := st_clock s\<rparr>) runs mir os s)"
    and "\<And>os. st_io s \<noteq> [] \<Longrightarrow> E Os_Error (s\<lparr>st_io := os\<rparr>)"
  shows "act_wp (task_update tid fn None) Q E s"
proof (cases "st_io s = []")
  case True
  show ?thesis by (rule update_quiet_wp [OF True assms(1,2)]) (rule assms(3), simp)
next
  case False
  have same: "row\<lparr>t_owner_id := t_owner_id row\<rparr> = row" by simp
  show ?thesis
  proof (rule task_update_wp, goal_cases)
    case (1 row' o' runs mir os u)
    then have "row' = row" "o' = t_owner_id row" using assms(1,2) by simp_all
    with 1 False show ?case using assms(3) [of os runs mir] assms(4) [of runs mir os] by (simp add: same)
  qed (use assms(1,2,5) False in auto)
qed

lemma update_try_faulty_wp:
  assumes "obj_get (st_tasks s) tid = Some row" and "canonical_owner_id (t_owner_id row) = Some (t_owner_id row)"
    and "fn row = Inr u"
    and "\<And>runs mir os. (st_io s = [] \<Longrightarrow> os = []) \<Longrightarrow> Q (u\<lparr>t_updated_at := st_clock s\<rparr>)
           (task_written (u\<lparr>t_updated_at := st_clock s\<rparr>) runs mir os s)"
    and "\<And>runs mir os. st_io s \<noteq> [] \<Longrightarrow> E Os_Error (task_written (u\<lparr>t_updated_at := st_clock s\<rparr>) runs mir os s)"
    and "\<And>os. st_io s \<noteq> [] \<Longrightarrow> E Os_Error (s\<lparr>st_io := os\<rparr>)"
  shows "act_wp (task_update_try tid fn) Q E s"
proof (cases "st_io s = []")
  case True
  show ?thesis by (rule update_try_quiet_wp [where fn = fn, OF True assms(1-3)]) (rule assms(4), simp)
next
  case False
  have same: "row\<lparr>t_owner_id := t_owner_id row\<rparr> = row" by simp
  show ?thesis
    unfolding task_update_try_def
    by (auto simp: wp_simps same assms(1-3) Let_def False intro!: write_task_wp assms(4-6))
qed

section \<open>Trails\<close>

lemma append_run_index_time:
  "append_run_index cfg ev d (t\<lparr>t_updated_at := n\<rparr>) =
     (case append_run_index cfg ev d t of Inl e \<Rightarrow> Inl e | Inr u \<Rightarrow> Inr (u\<lparr>t_updated_at := n\<rparr>))"
  by (simp add: append_run_index_def Let_def split: json.split)

lemma append_pending_time: "append_pending cfg evs (t\<lparr>t_updated_at := n\<rparr>) = (append_pending cfg evs t)\<lparr>t_updated_at := n\<rparr>"
proof (induction evs arbitrary: t)
  case (Cons x evs)
  obtain ev d where x: "x = (ev, d)" by (cases x)
  show ?case by (simp add: x append_pending_Cons append_run_index_time Cons.IH split: sum.split)
qed (simp add: append_pending_def)

lemma append_run_index_total:
  assumes "all_objects (t_run_index t)"
  shows "\<exists>u. append_run_index cfg ev d t = Inr u \<and> all_objects (t_run_index u)"
proof -
  have pushed: "all_objects (push_entry (t_run_index t) item)" for item
    using assms by (auto simp: push_entry_def all_objects_def list_all_iff dest: in_set_dropD)
  have joined: "all_objects (butlast (t_run_index t) @ [JObj e])" for e
    using assms by (auto simp: all_objects_def list_all_iff dest: in_set_butlastD)
  show ?thesis
    using assms last_object [OF assms] pushed joined by (auto simp: append_run_index_def Let_def)
qed

lemma append_pending_snoc:
  assumes "append_run_index cfg ev d (append_pending cfg evs t) = Inr u"
  shows "append_pending cfg (evs @ [(ev, d)]) t = u"
  using assms by (simp add: append_pending_def)

lemma append_pending_append: "append_pending cfg (a @ b) t = append_pending cfg b (append_pending cfg a t)"
  by (simp add: append_pending_def)

lemma append_pending_objects: "all_objects (t_run_index t) \<Longrightarrow> all_objects (t_run_index (append_pending cfg evs t))"
proof (induction evs arbitrary: t)
  case (Cons x evs)
  obtain ev d where x: "x = (ev, d)" by (cases x)
  show ?case using append_run_index_total [OF Cons.prems, of cfg ev d] Cons.IH by (auto simp: x append_pending_Cons)
qed (simp add: append_pending_def)

lemma append_pending_frame: "\<exists>idx. append_pending cfg evs t = t\<lparr>t_run_index := idx\<rparr>"
proof (induction evs arbitrary: t)
  case Nil
  then show ?case by (intro exI [of _ "t_run_index t"]) (simp add: append_pending_def)
next
  case (Cons x evs)
  obtain ev d where x: "x = (ev, d)" by (cases x)
  show ?case
  proof (cases "append_run_index cfg ev d t")
    case (Inr u)
    then show ?thesis
      using append_run_index_frame [OF Inr] Cons.IH [of u] by (fastforce simp: x append_pending_Cons)
  qed (use Cons.IH [of t] in \<open>simp add: x append_pending_Cons\<close>)
qed

section \<open>Deferred and immediate\<close>

definition kept_events :: "(public_event \<times> 'd) list \<Rightarrow> (public_event \<times> 'd) list" where
  "kept_events evs = filter (\<lambda>(ev, _). e_type ev \<in> STREAM_PERSIST_EVENTS \<or> e_type ev \<in> PERSISTED_EVENTS) evs"

lemma kept_events_Cons: "kept_events (x # evs) = kept_events [x] @ kept_events evs"
  by (simp add: kept_events_def)

text \<open>The reference: each event is added to the trail of the row when it comes.\<close>

fun added_at_once :: "'c index_config_scheme \<Rightarrow> task \<Rightarrow> (public_event \<times> (string \<times> json) list) list \<Rightarrow> task" where
  "added_at_once cfg row [] = row"
| "added_at_once cfg row ((ev, d) # evs) =
     (case append_run_index cfg ev d row of Inl _ \<Rightarrow> added_at_once cfg row evs | Inr u \<Rightarrow> added_at_once cfg u evs)"

lemma append_pending_at_once: "append_pending cfg evs row = added_at_once cfg row evs"
proof (induction evs arbitrary: row)
  case (Cons x evs)
  obtain ev d where x: "x = (ev, d)" by (cases x)
  show ?case by (simp add: x append_pending_Cons Cons.IH split: sum.split)
qed (simp add: append_pending_def)

text \<open>
  The hub's handling of the events of a task, each at its time (the clock moves between them, and any
  write may fail), up to the flush that a terminal message or a disconnect makes.
\<close>

definition keep_timed ::
  "'c index_config_scheme \<Rightarrow> string \<Rightarrow> (int \<times> public_event \<times> (string \<times> json) list) list \<Rightarrow> ('a, unit) hub_act" where
  "keep_timed cfg tid evs =
     act_then (act_each (\<lambda>(now, ev, d). act_then (act_modify (\<lambda>s. s\<lparr>st_clock := now\<rparr>)) (keep_event cfg tid ev d)) evs)
       (flush_stream cfg tid)"

text \<open>The row of the task has the trail of these events, and nothing else of the rows changed but its time of update.\<close>

definition trail_has ::
  "'c index_config_scheme \<Rightarrow> string \<Rightarrow> task \<Rightarrow> 'a hub_state_scheme \<Rightarrow> (public_event \<times> (string \<times> json) list) list
     \<Rightarrow> 'a hub_state_scheme \<Rightarrow> bool" where
  "trail_has cfg tid row s evs u \<longleftrightarrow>
     (\<exists>now. obj_get (st_tasks u) tid = Some ((added_at_once cfg row evs)\<lparr>t_updated_at := now\<rparr>)) \<and>
     (\<forall>k. k \<noteq> tid \<longrightarrow> obj_get (st_tasks u) k = obj_get (st_tasks s) k)"

lemma trail_has_frames [simp]:
  "trail_has cfg tid row s evs (u\<lparr>hb_stream := q\<rparr>) = trail_has cfg tid row s evs u"
  "trail_has cfg tid row s evs (u\<lparr>st_io := io\<rparr>) = trail_has cfg tid row s evs u"
  "trail_has cfg tid row s evs (u\<lparr>st_clock := now\<rparr>) = trail_has cfg tid row s evs u"
  by (simp_all add: trail_has_def)

lemma at_once_frame: "\<exists>idx. added_at_once cfg row evs = row\<lparr>t_run_index := idx\<rparr>"
  using append_pending_frame [of cfg evs row] by (simp add: append_pending_at_once)

lemma at_once_ids [simp]:
  "t_task_id (added_at_once cfg row evs) = t_task_id row" "t_owner_id (added_at_once cfg row evs) = t_owner_id row"
  using at_once_frame [of cfg row evs] by auto

lemma at_once_append: "added_at_once cfg row (a @ b) = added_at_once cfg (added_at_once cfg row a) b"
  by (simp add: append_pending_at_once [symmetric] append_pending_append)

lemma at_once_time:
  "added_at_once cfg (row\<lparr>t_updated_at := n\<rparr>) evs = (added_at_once cfg row evs)\<lparr>t_updated_at := n\<rparr>"
  by (simp add: append_pending_at_once [symmetric] append_pending_time)

lemma trail_has_written:
  assumes "trail_has cfg tid row s evs u" and "t_task_id row = tid"
    and "v = added_at_once cfg ((added_at_once cfg row evs)\<lparr>t_updated_at := n\<rparr>) news"
  shows "trail_has cfg tid row s (evs @ news) (task_written (v\<lparr>t_updated_at := now\<rparr>) runs mir os u)"
  using assms by (auto simp: trail_has_def at_once_time at_once_append)

text \<open>\<open>written\<close>: the events in the row; \<open>waiting\<close>: those put off.\<close>

definition stream_stage ::
  "'c index_config_scheme \<Rightarrow> string \<Rightarrow> task \<Rightarrow> 'a hub_state_scheme \<Rightarrow> (public_event \<times> (string \<times> json) list) list
     \<Rightarrow> (public_event \<times> (string \<times> json) list) list \<Rightarrow> 'a hub_state_scheme \<Rightarrow> bool" where
  "stream_stage cfg tid row s written waiting u \<longleftrightarrow>
     trail_has cfg tid row s written u \<and> (st_io s = [] \<longrightarrow> st_io u = []) \<and>
     (case obj_get (hb_stream u) tid of None \<Rightarrow> [] | Some evs \<Rightarrow> evs) = waiting"

text \<open>What a write that fails leaves: the trail of the first of the events, in their order.\<close>

definition stream_broken ::
  "'c index_config_scheme \<Rightarrow> string \<Rightarrow> task \<Rightarrow> 'a hub_state_scheme \<Rightarrow> (public_event \<times> (string \<times> json) list) list
     \<Rightarrow> 'a hub_state_scheme \<Rightarrow> bool" where
  "stream_broken cfg tid row s evs u \<longleftrightarrow>
     st_io s \<noteq> [] \<and> (\<exists>first rest. evs = first @ rest \<and> trail_has cfg tid row s first u)"

lemma flush_stage:
  fixes s u :: "'a hub_state_scheme"
  assumes "stream_stage cfg tid row s written waiting u" and "t_task_id row = tid"
    and "canonical_owner_id (t_owner_id row) = Some (t_owner_id row)"
    and "\<And>v. stream_stage cfg tid row s (written @ waiting) [] v \<Longrightarrow> Q () v"
    and "\<And>v e. stream_broken cfg tid row s (written @ waiting) v \<Longrightarrow> E e v"
  shows "act_wp (flush_stream cfg tid) Q E u"
proof (cases "waiting = []")
  case True
  have "stream_stage cfg tid row s (written @ waiting) [] (u\<lparr>hb_stream := obj_pop (hb_stream u) tid\<rparr>)"
    using assms(1) True by (simp add: stream_stage_def)
  from assms(4) [OF this] show ?thesis
    using assms(1) True by (auto simp: flush_stream_def wp_simps stream_stage_def split: option.split)
next
  case False
  let ?u = "u\<lparr>hb_stream := obj_pop (hb_stream u) tid\<rparr>"
  have pending: "obj_get (hb_stream u) tid = Some waiting"
    using assms(1) False by (auto simp: stream_stage_def split: option.splits)
  obtain now where r: "obj_get (st_tasks ?u) tid = Some ((added_at_once cfg row written)\<lparr>t_updated_at := now\<rparr>)"
    using assms(1) by (auto simp: stream_stage_def trail_has_def)
  let ?r = "(added_at_once cfg row written)\<lparr>t_updated_at := now\<rparr>"
  have own: "canonical_owner_id (t_owner_id ?r) = Some (t_owner_id ?r)" using assms(3) by simp
  have trail: "trail_has cfg tid row s written ?u" using assms(1) by (simp add: stream_stage_def)
  have finished: "trail_has cfg tid row s (written @ waiting)
      (task_written ((append_pending cfg waiting ?r)\<lparr>t_updated_at := st_clock ?u\<rparr>) runs mir os ?u)" for runs mir os
    by (rule trail_has_written [OF trail assms(2), of _ now]) (simp add: append_pending_at_once)
  have kept: "hb_stream (task_written x runs mir os v) = hb_stream v" "st_io (task_written x runs mir os v) = os"
    for x runs mir os and v :: "'a hub_state_scheme"
    by (simp_all add: task_written_def)
  have "act_wp (task_update tid (append_pending cfg waiting) None) (\<lambda>_. Q ()) E ?u"
  proof (rule update_faulty_wp [OF r own], goal_cases)
    case (1 runs mir os)
    then show ?case using finished [of runs mir os] assms(1) by (intro assms(4)) (auto simp: stream_stage_def kept)
  next
    case (2 runs mir os)
    then show ?case using finished [of runs mir os] assms(1)
      by (intro assms(5)) (auto simp: stream_broken_def stream_stage_def)
  next
    case (3 os)
    then show ?case using trail assms(1) by (intro assms(5)) (auto simp: stream_broken_def stream_stage_def)
  qed
  then show ?thesis using False by (simp add: flush_stream_def wp_simps pending)
qed

text \<open>One event written at once.\<close>

lemma write_stage:
  fixes s u :: "'a hub_state_scheme"
  assumes "stream_stage cfg tid row s written [] u" and "t_task_id row = tid"
    and "canonical_owner_id (t_owner_id row) = Some (t_owner_id row)" and "all_objects (t_run_index row)"
    and "\<And>v. stream_stage cfg tid row s (written @ [(ev, d)]) [] v \<Longrightarrow> Q () v"
    and "\<And>v e. stream_broken cfg tid row s (written @ [(ev, d)]) v \<Longrightarrow> E e v"
  shows "act_wp (act_bind (task_update_try tid (append_run_index cfg ev d)) (\<lambda>_. act_ret ())) Q E u"
proof -
  obtain now where r: "obj_get (st_tasks u) tid = Some ((added_at_once cfg row written)\<lparr>t_updated_at := now\<rparr>)"
    using assms(1) by (auto simp: stream_stage_def trail_has_def)
  let ?r = "(added_at_once cfg row written)\<lparr>t_updated_at := now\<rparr>"
  have own: "canonical_owner_id (t_owner_id ?r) = Some (t_owner_id ?r)" using assms(3) by simp
  have "all_objects (t_run_index ?r)"
    using append_pending_objects [OF assms(4), of cfg written] by (simp add: append_pending_at_once)
  from append_run_index_total [OF this] obtain w where w: "append_run_index cfg ev d ?r = Inr w" by blast
  have trail: "trail_has cfg tid row s written u" using assms(1) by (simp add: stream_stage_def)
  have finished: "trail_has cfg tid row s (written @ [(ev, d)]) (task_written (w\<lparr>t_updated_at := st_clock u\<rparr>) runs mir os u)" for runs mir os
    by (rule trail_has_written [OF trail assms(2), of _ now]) (simp add: w)
  have kept: "hb_stream (task_written x runs mir os v) = hb_stream v" "st_io (task_written x runs mir os v) = os"
    for x runs mir os and v :: "'a hub_state_scheme"
    by (simp_all add: task_written_def)
  show ?thesis
    unfolding act_wp_bind act_wp_ret
  proof (rule update_try_faulty_wp [where fn = "append_run_index cfg ev d", OF r own w], goal_cases)
    case (1 runs mir os)
    then show ?case using finished [of runs mir os] assms(1) by (intro assms(5)) (auto simp: stream_stage_def kept)
  next
    case (2 runs mir os)
    then show ?case using finished [of runs mir os] assms(1)
      by (intro assms(6)) (auto simp: stream_broken_def stream_stage_def)
  next
    case (3 os)
    then show ?case using trail assms(1) by (intro assms(6)) (auto simp: stream_broken_def stream_stage_def)
  qed
qed

lemma broken_longer: "stream_broken cfg tid row s evs u \<Longrightarrow> stream_broken cfg tid row s (evs @ news) u"
  unfolding stream_broken_def by (metis append_assoc)

lemma keep_stage:
  assumes "stream_stage cfg tid row s written waiting u" and "t_task_id row = tid"
    and "canonical_owner_id (t_owner_id row) = Some (t_owner_id row)" and "all_objects (t_run_index row)"
    and "\<And>written' waiting' v. written' @ waiting' = written @ waiting @ kept_events [(ev, d)] \<Longrightarrow>
       stream_stage cfg tid row s written' waiting' v \<Longrightarrow> Q () v"
    and "\<And>v e. stream_broken cfg tid row s (written @ waiting @ kept_events [(ev, d)]) v \<Longrightarrow> E e v"
  shows "act_wp (keep_event cfg tid ev d) Q E u"
proof -
  consider (put_off) "e_type ev \<in> STREAM_PERSIST_EVENTS"
    | (at_once) "e_type ev \<notin> STREAM_PERSIST_EVENTS" "e_type ev \<in> PERSISTED_EVENTS"
    | (neither) "e_type ev \<notin> STREAM_PERSIST_EVENTS" "e_type ev \<notin> PERSISTED_EVENTS" by blast
  then show ?thesis
  proof cases
    case put_off
    then show ?thesis
      using assms(1) assms(5) [of written "waiting @ [(ev, d)]"]
      by (auto simp: keep_event_def enqueue_stream_def wp_simps kept_events_def stream_stage_def)
  next
    case at_once
    then have kept: "kept_events [(ev, d)] = [(ev, d)]" by (simp add: kept_events_def)
    have "act_wp (act_bind (task_update_try tid (append_run_index cfg ev d)) (\<lambda>_. act_ret ())) Q E v"
      if "stream_stage cfg tid row s (written @ waiting) [] v" for v
      by (rule write_stage [OF that assms(2-4)])
        (rule assms(5), use kept in simp_all, rule assms(6), use kept in simp)
    then have "act_wp (act_then (flush_stream cfg tid)
        (act_bind (task_update_try tid (append_run_index cfg ev d)) (\<lambda>_. act_ret ()))) Q E u"
      unfolding act_wp_then using broken_longer [of cfg tid row s "written @ waiting"]
      by (intro flush_stage [OF assms(1-3)] assms(6)) auto
    then show ?thesis using at_once by (simp add: keep_event_def)
  next
    case neither
    then show ?thesis
      using assms(1) assms(5) [of written waiting] by (simp add: keep_event_def wp_simps kept_events_def)
  qed
qed

lemma keep_timed_stage:
  assumes "t_task_id row = tid" and "canonical_owner_id (t_owner_id row) = Some (t_owner_id row)"
    and "all_objects (t_run_index row)" and "stream_stage cfg tid row s written waiting u"
  shows "act_wp (keep_timed cfg tid evs)
     (\<lambda>_ v. stream_stage cfg tid row s (written @ waiting @ kept_events (map snd evs)) [] v)
     (\<lambda>_ v. stream_broken cfg tid row s (written @ waiting @ kept_events (map snd evs)) v) u"
  using assms(4)
proof (induction evs arbitrary: written waiting u)
  case Nil
  show ?case
    unfolding keep_timed_def act_wp_then act_each.simps act_wp_ret
    by (rule flush_stage [OF Nil assms(1,2)]) (simp_all add: kept_events_def)
next
  case (Cons x evs)
  obtain now ev d where x: "x = (now, ev, d)" by (cases x)
  let ?Q = "\<lambda>_ v. stream_stage cfg tid row s (written @ waiting @ kept_events (map snd (x # evs))) [] v"
  let ?E = "\<lambda>_ v. stream_broken cfg tid row s (written @ waiting @ kept_events (map snd (x # evs))) v"
  have all: "kept_events (map snd (x # evs)) = kept_events [(ev, d)] @ kept_events (map snd evs)"
    using kept_events_Cons [of "(ev, d)" "map snd evs"] by (simp add: x)
  have "stream_stage cfg tid row s written waiting (u\<lparr>st_clock := now\<rparr>)" using Cons.prems by (simp add: stream_stage_def)
  then have "act_wp (keep_event cfg tid ev d) (\<lambda>_. act_wp (keep_timed cfg tid evs) ?Q ?E) ?E (u\<lparr>st_clock := now\<rparr>)"
  proof (rule keep_stage [OF _ assms(1-3)])
    fix written' waiting' v
    assume eq: "written' @ waiting' = written @ waiting @ kept_events [(ev, d)]"
      and stage: "stream_stage cfg tid row s written' waiting' v"
    have same: "written' @ waiting' @ kept_events (map snd evs) = written @ waiting @ kept_events (map snd (x # evs))"
      using eq unfolding all by (metis append_assoc)
    from Cons.IH [OF stage] show "act_wp (keep_timed cfg tid evs) ?Q ?E v" unfolding same .
  next
    fix v e assume "stream_broken cfg tid row s (written @ waiting @ kept_events [(ev, d)]) v"
    from broken_longer [OF this] show "?E e v" unfolding all by simp
  qed
  then show ?case by (simp add: keep_timed_def act_wp_then act_wp_modify x)
qed

lemma act_wp_total: "act_wp m Q (\<lambda>_ _. False) s \<Longrightarrow> \<exists>a t. m s = (Inr a, t) \<and> Q a t"
  by (auto simp: act_wp_def split: prod.splits sum.splits)

text \<open>
  C8. Putting the writing of the streamed events off loses none of them and keeps their order, up to the
  flush that a terminal message or a disconnect makes: whatever events of a task arrive, at whatever
  times, when no write has raised the row of the task has the trail that adding every event at once
  gives, and nothing else of any row has changed but the time of the update.  When a write raises (which
  needs a fault of the disk), the row still has the trail of the first of the events, in their order: the
  others are lost, those of a failed flush too, as it forgets its batch before it writes.
\<close>

theorem deferred_is_immediate:
  assumes "rows_ok s" and "obj_get (st_tasks s) tid = Some row"
    and "all_objects (t_run_index row)" and "obj_get (hb_stream s) tid = None"
  shows "case keep_timed cfg tid evs s of
      (Inr _, t) \<Rightarrow> trail_has cfg tid row s (kept_events (map snd evs)) t
    | (Inl e, t) \<Rightarrow> st_io s \<noteq> [] \<and>
        (\<exists>first rest. kept_events (map snd evs) = first @ rest \<and> trail_has cfg tid row s first t)"
proof -
  have row: "t_task_id row = tid" "canonical_owner_id (t_owner_id row) = Some (t_owner_id row)"
    using assms(1,2) by (auto simp: rows_ok_def)
  have "stream_stage cfg tid row s [] [] s"
    using assms(2,4) by (auto simp: stream_stage_def trail_has_def intro!: exI [of _ "t_updated_at row"])
  note wp = keep_timed_stage [OF row assms(3) this, of evs, simplified]
  obtain r t where run: "keep_timed cfg tid evs s = (r, t)" by (cases "keep_timed cfg tid evs s")
  show ?thesis
  proof (cases r)
    case (Inl e)
    then show ?thesis using wp unfolding run act_wp_def stream_broken_def by simp
  next
    case (Inr x)
    then show ?thesis using wp unfolding run act_wp_def stream_stage_def by simp
  qed
qed

end
