(* ===== verification/Hub_Safety.thy ===== *)
theory Hub_Safety
  imports Hub_Stream
begin

text \<open>
  Who may do what through the hub: only the Worker a task was given to speaks for it, a decision
  reaches its Worker once, nobody waits for a Worker that is gone, and a Worker's index of its
  sessions touches no session of another user.
\<close>

section \<open>Only the assigned Worker\<close>

text \<open>
  A Worker that a task was not given to can neither report events of it, nor ask for an approval,
  nor end it: the message is refused and the state is as it was.
\<close>

theorem foreign_worker_refused:
  assumes "obj_get (hb_devices s) (get_str msg ''task_id'' []) \<noteq> Some (d_id (cn_device (hb_conns s ! a)))"
  shows "handle_event cfg a msg s = (Inl (App Worker_Protocol_Error), s) \<and>
     handle_approval cfg a msg s = (Inl (App Worker_Protocol_Error), s) \<and>
     handle_terminal cfg a msg s = (Inl (App Worker_Protocol_Error), s)"
proof -
  have "assigned_task a (get_str msg ''task_id'' []) s = (Inl (App Worker_Protocol_Error), s)"
    using assms by (simp add: assigned_task_def act_defs raise_protocol_def)
  then show ?thesis by (simp add: handle_event_def handle_approval_def handle_terminal_def Let_def act_bind_def)
qed

section \<open>Decisions\<close>

definition decided :: "string \<Rightarrow> string \<Rightarrow> 'a hub_state_scheme \<Rightarrow> bool" where
  "decided aid decision s \<longleftrightarrow>
     (\<exists>row. obj_get (st_approvals s) aid = Some row \<and> canonical_owner_id (a_owner_id row) = Some (a_owner_id row)
        \<and> a_status row \<noteq> A_Pending \<and> a_decision row = Some decision)"

lemma decided_frames [simp]:
  "decided aid dec (published ev u sqs sch s) = decided aid dec s"
  "decided aid dec (task_written v runs mir os s) = decided aid dec s"
  "decided aid dec (s\<lparr>hb_calls := cs\<rparr>) = decided aid dec s"
  by (simp_all add: decided_def)

lemma hb_calls_frames [simp]:
  "hb_calls (published ev u sqs sch s) = hb_calls s" "hb_calls (task_written v runs mir os s) = hb_calls s"
  "hb_calls (approval_written ap amir os s) = hb_calls s"
  by (simp_all add: published_def task_written_def approval_written_def)

lemma hub_send_wp:
  assumes "\<And>c. Q () (s\<lparr>hb_calls := hb_calls s @ [Call_Put c (JObj msg)]\<rparr>)" and "\<And>e. E e s"
  shows "act_wp (hub_send cfg did msg) Q E s"
  using assms by (simp add: hub_send_def wp_simps raise_protocol_def split: option.split)

lemma persist_decision_wp:
  assumes "rows_ok s" and "a_approval_id a = aid" and "st \<noteq> A_Pending"
    and "\<And>u. decided aid dec u \<Longrightarrow> hb_calls u = hb_calls s \<Longrightarrow> Q () u" and "\<And>e u. E e u"
  shows "act_wp (persist_decision a st dec) Q E s"
  unfolding persist_decision_def assms(2) wp_simps
proof (rule approval_update_wp, goal_cases)
  case (1 row o' mir os)
  let ?a = "set_worker_decision st dec (st_clock s) (row\<lparr>a_owner_id := o'\<rparr>)"
  have "a_approval_id row = aid" "o' = a_owner_id row" using 1 assms(1) by (auto simp: rows_ok_def)
  then have dec: "decided aid dec (approval_written ?a mir os s)"
    using 1(2) assms(3) by (simp add: decided_def set_worker_decision_def)
  have undo: "act_wp (approval_update aid restore_worker_pending) (\<lambda>_. E x) (\<lambda>e. E x) u" for u x
    by (rule approval_update_wp) (auto simp: assms(5))
  show ?case
    by (rule conjI, rule task_update_wp) (use dec in \<open>auto intro!: assms(4,5) undo\<close>)
next
  case (2 e)
  show ?case by (rule approval_update_wp) (auto simp: assms(5))
next
  case (3 row)
  show ?case by (rule approval_update_wp) (auto simp: assms(5))
next
  case (4 os)
  show ?case by (rule approval_update_wp) (auto simp: assms(5))
qed

lemma hub_resolve_wp:
  assumes "rows_ok s"
    and "\<And>a u. decided aid dec u \<Longrightarrow> approval_get aid u = (Inr a, u) \<Longrightarrow>
      u = s \<or> (\<exists>c msg. hb_calls u = hb_calls s @ [Call_Put c (JObj msg)] \<and> obj_get msg ''decision'' = Some (JStr dec))
      \<Longrightarrow> Q a u" and "\<And>e u. E e u"
  shows "act_wp (hub_resolve cfg aid dec) Q E s"
proof (cases "obj_get (st_approvals s) aid")
  case None
  then show ?thesis by (simp add: hub_resolve_def wp_simps assms(3))
next
  case (Some row)
  have row: "a_approval_id row = aid" "canonical_owner_id (a_owner_id row) = Some (a_owner_id row)"
    using Some assms(1) by (auto simp: rows_ok_def)
  have same: "row\<lparr>a_owner_id := a_owner_id row\<rparr> = row" by simp
  have got: "approval_get aid s = (Inr row, s)" using Some row by (simp add: approval_get_eq)
  let ?st = "if dec = ''approved'' then A_Approved else A_Rejected"
  let ?msg = "\<lambda>did. [(''type'', JStr ''approval.decision''), (''task_id'', JStr (a_task_id row)),
     (''approval_id'', JStr aid), (''tool_call_id'', JStr (a_tool_call_id row)),
     (''decision'', JStr dec), (''args_digest'', JStr (a_request_digest row))]"
  have again: "act_wp (approval_get aid) Q E u"
    if "decided aid dec u" "\<exists>c msg. hb_calls u = hb_calls s @ [Call_Put c (JObj msg)] \<and> obj_get msg ''decision'' = Some (JStr dec)" for u
  proof -
    from that(1) obtain r where "obj_get (st_approvals u) aid = Some r"
        "canonical_owner_id (a_owner_id r) = Some (a_owner_id r)" by (auto simp: decided_def)
    then have "approval_get aid u = (Inr (r\<lparr>a_owner_id := a_owner_id r\<rparr>), u)" by (simp add: approval_get_eq)
    with assms(2) [OF that(1) this] that(2) show ?thesis by (simp add: act_wp_def)
  qed
  have tell: "act_wp (act_then (persist_decision row ?st dec)
      (act_bind (publish_event (a_task_id row) (a_run_id row) ''approval.resolved''
          [(''approval_id'', JStr aid), (''status'', JStr (approval_status_value ?st)), (''decision'', JStr dec)]
          (approval_opts (approval_status_value ?st) dec)) (\<lambda>_.
        act_then (hub_send cfg did (?msg did)) (approval_get aid)))) Q E s" for did
    unfolding act_wp_then act_wp_bind
    by (rule persist_decision_wp [OF assms(1) row(1) _ _ assms(3)])
      (auto intro!: publish_event_wp hub_send_wp again assms(3))
  show ?thesis
    unfolding hub_resolve_def act_wp_bind [of "approval_get aid"]
    using tell
    by (auto simp: act_wp_get act_wp_bind act_wp_raise act_wp_ret utc_now_wp approval_get_wp task_get_wp act_wp_if
        act_wp_option Some row same assms(3) Let_def decided_def simp del: act_wp_then
        intro: assms(2) got split: option.split)
qed

lemma decided_get: "decided aid dec s \<Longrightarrow> approval_get aid s = (Inr a, s) \<Longrightarrow> a_status a \<noteq> A_Pending \<and> a_decision a = Some dec"
  by (auto simp: decided_def approval_get_eq)

lemma resolve_decided:
  assumes "decided aid dec s" and "approval_get aid s = (Inr a, s)"
  shows "hub_resolve cfg aid other s = (if other = dec then Inr a else Inl (App Approval_Already_Resolved), s)"
  using decided_get [OF assms] assms(2) by (simp add: hub_resolve_def act_defs)

text \<open>
  C9. A decision that was accepted stands and is sent to the Worker at most once: the same decision
  again changes nothing, another one is refused, and what was accepted added nothing to what is to
  be sent but the message with this decision.
\<close>

theorem worker_decision_once:
  assumes "rows_ok s" and "hub_resolve cfg aid decision s = (Inr a, t)"
  shows "a_status a \<noteq> A_Pending \<and> a_decision a = Some decision \<and>
     hub_resolve cfg aid decision t = (Inr a, t) \<and>
     (\<forall>other. other \<noteq> decision \<longrightarrow> hub_resolve cfg aid other t = (Inl (App Approval_Already_Resolved), t)) \<and>
     (t = s \<or> (\<exists>c msg. hb_calls t = hb_calls s @ [Call_Put c (JObj msg)]
        \<and> obj_get msg ''decision'' = Some (JStr decision)))"
proof -
  have "act_wp (hub_resolve cfg aid decision) (\<lambda>a u. decided aid decision u \<and> approval_get aid u = (Inr a, u) \<and>
      (u = s \<or> (\<exists>c msg. hb_calls u = hb_calls s @ [Call_Put c (JObj msg)] \<and> obj_get msg ''decision'' = Some (JStr decision))))
     (\<lambda>_ _. True) s"
    by (rule hub_resolve_wp [OF assms(1)]) auto
  from act_wp_retD [OF this assms(2)] show ?thesis
    using decided_get [of aid decision t a] resolve_decided [of aid decision t a cfg] by simp
qed

section \<open>Nobody waits for a Worker that is gone\<close>

text \<open>The event loop: a call that resolves a future leaves it resolved.\<close>

definition resolved :: "nat \<Rightarrow> 'a hub_state_scheme \<Rightarrow> bool" where
  "resolved f s \<longleftrightarrow> f < length (hb_futures s) \<and> hb_futures s ! f \<noteq> F_Waiting"

lemma loop_futures:
  "length (hb_futures (hub_loop_step s)) = length (hb_futures s)"
  "resolved f s \<Longrightarrow> resolved f (hub_loop_step s)"
  by (auto simp: hub_loop_step_def resolved_def Let_def put_outbox_def resolve_future_def
      split: list.split loop_call.split)
    (metis future.distinct(1) nth_list_update_eq nth_list_update_neq)

lemma loop_calls: "hb_calls (hub_loop_step s) = tl (hb_calls s)"
  by (simp add: hub_loop_step_def Let_def put_outbox_def resolve_future_def split: list.split loop_call.split)

lemma loop_resolves:
  "f < length (hb_futures s) \<Longrightarrow> hb_calls s = Call_Resolve f r # rest \<Longrightarrow> resolved f (hub_loop_step s)"
  by (simp add: hub_loop_step_def resolved_def Let_def resolve_future_def nth_list_update)

lemma loop_run_resolves:
  assumes "f < length (hb_futures s)" and "Call_Resolve f r \<in> set (hb_calls s)"
  shows "resolved f ((hub_loop_step ^^ length (hb_calls s)) s)"
  using assms
proof (induction "hb_calls s" arbitrary: s)
  case (Cons c rest)
  have kept: "resolved f u \<Longrightarrow> resolved f ((hub_loop_step ^^ n) u)" for n and u :: "'a hub_state_scheme"
    by (induction n) (simp_all add: loop_futures)
  have len: "length (hb_calls s) = Suc (length (hb_calls (hub_loop_step s)))"
    using Cons.hyps(2) loop_calls [of s] by (metis length_Cons list.sel(3))
  show ?case
  proof (cases "c = Call_Resolve f r")
    case True
    then show ?thesis
      using loop_resolves [OF Cons.prems(1), of r rest] Cons.hyps(2) by (simp add: len funpow_swap1 kept del: funpow.simps(2)
          add: funpow_Suc_right)
  next
    case False
    then have "Call_Resolve f r \<in> set (hb_calls (hub_loop_step s))"
      using Cons.prems(2) loop_calls [of s] Cons.hyps(2) by (metis list.sel(3) set_ConsD)
    moreover have "rest = hb_calls (hub_loop_step s)" using loop_calls [of s] Cons.hyps(2) by (metis list.sel(3))
    ultimately have "resolved f ((hub_loop_step ^^ length (hb_calls (hub_loop_step s))) (hub_loop_step s))"
      using Cons.hyps(1) Cons.prems(1) loop_futures(1) by metis
    then show ?thesis by (simp add: len funpow_Suc_right del: funpow.simps(2))
  qed
qed simp

lemma loop_run_keeps: "resolved f s \<Longrightarrow> resolved f ((hub_loop_step ^^ n) s)"
  by (induction n) (simp_all add: loop_futures)

text \<open>What a failing task cannot change.\<close>

definition client_side ::
  "'a hub_state_scheme \<Rightarrow> loop_call list \<times> future list \<times> (string \<times> nat) list \<times> (string \<times> string list) list
     \<times> (string \<times> string) list \<times> (string \<times> workspace_request) list" where
  "client_side s = (hb_calls s, hb_futures s, hb_online s, hb_active s, hb_devices s, hb_selections s)"

interpretation client: hub_stores "\<lambda>s. client_side s = x" for x
  by unfold_locales (simp_all add: client_side_def)

lemma disconnect_client:
  fixes s :: "'a hub_state_scheme"
  assumes "obj_get (hb_online s) did = Some a" and "did = d_id (cn_device (hb_conns s ! a))"
  shows "client_side (snd (hub_disconnect cfg a s)) =
     client_side (pop_tasks did (fail_pending did ''worker_disconnected''
       (fail_selections did ''worker_disconnected'' (s\<lparr>hb_online := obj_pop (hb_online s) did\<rparr>))))"
proof (rule act_wp_snd)
  let ?s = "pop_tasks did (fail_pending did ''worker_disconnected''
       (fail_selections did ''worker_disconnected'' (s\<lparr>hb_online := obj_pop (hb_online s) did\<rparr>)))"
  let ?x = "client_side ?s"
  have close: "client_side u = ?x \<Longrightarrow> client_side (if outbox_full a u then u else put_outbox a None u) = ?x" for u :: "'a hub_state_scheme"
    by (simp add: client_side_def put_outbox_def)
  have "act_keeps (\<lambda>u :: 'a hub_state_scheme. client_side u = ?x)
     (act_then (act_each (\<lambda>tid. act_then (flush_stream cfg tid) (hub_fail_task tid ''worker_disconnected'' Interrupted)) tids)
         (act_modify (\<lambda>s. if outbox_full a s then s else put_outbox a None s)))" for tids
    by (intro keeps_rules client.flush_unmoved client.fail_task_unmoved close; assumption?)
  then have rest: "act_wp (act_then (act_each (\<lambda>tid. act_then (flush_stream cfg tid)
        (hub_fail_task tid ''worker_disconnected'' Interrupted)) tids)
         (act_modify (\<lambda>s. if outbox_full a s then s else put_outbox a None s)))
      (\<lambda>_ u. client_side u = ?x) (\<lambda>_ u. client_side u = ?x) ?s" for tids
    by (rule act_keeps_wp) simp
  show "act_wp (hub_disconnect cfg a) (\<lambda>_ u. client_side u = ?x) (\<lambda>_ u. client_side u = ?x) s"
    using rest assms by (simp add: hub_disconnect_def act_wp_bind act_wp_get act_wp_then [of "act_when _ _"] act_wp_when
        act_wp_modify del: act_wp_then)
qed

lemma requests_of_frames [simp]:
  "requests_of (fail_selections did why s) = requests_of s" "requests_of (s\<lparr>hb_online := y\<rparr>) = requests_of s"
  by (simp_all add: requests_of_def fail_selections_def)

lemma fail_selection_settles:
  "wr_device (fail_selection did why q) = did \<Longrightarrow> wr_status (fail_selection did why q) \<noteq> ''pending''"
  by (cases "wr_device q = did \<and> wr_status q = ''pending''") (auto simp: fail_selection_def)

text \<open>
  C10. When a Worker disconnects, nobody goes on waiting for it, whatever fails meanwhile: it is not
  online any more, it holds no task (the tasks it had are assigned to nobody), no selection of a
  workspace is pending with it, and once the event loop has run what is due, every request to it that
  somebody waits for has an answer.
\<close>

theorem disconnect_wakes_all:
  assumes "obj_get (hb_online s) did = Some a" and "did = d_id (cn_device (hb_conns s ! a))"
    and "t = snd (hub_disconnect cfg a s)"
  shows "\<not> is_online did t \<and> active_of t did = [] \<and>
     (\<forall>tid \<in> set (active_of s did). obj_get (hb_devices t) tid = None) \<and>
     (\<forall>q \<in> set (hb_selections t). wr_device (snd q) = did \<longrightarrow> wr_status (snd q) \<noteq> ''pending'') \<and>
     (\<forall>r \<in> set (requests_of s). pq_device r = did \<and> pq_future r < length (hb_futures s) \<longrightarrow>
        hb_futures ((hub_loop_step ^^ length (hb_calls t)) t) ! pq_future r \<noteq> F_Waiting)"
proof -
  let ?u = "s\<lparr>hb_online := obj_pop (hb_online s) did\<rparr>"
  have t: "client_side t = client_side (pop_tasks did (fail_pending did ''worker_disconnected''
       (fail_selections did ''worker_disconnected'' ?u)))"
    unfolding assms(3) by (rule disconnect_client [OF assms(1,2)])
  then have parts: "hb_futures t = hb_futures s" "hb_online t = obj_pop (hb_online s) did"
      "hb_active t = obj_pop (hb_active s) did"
      "hb_devices t = fold (\<lambda>k d. obj_pop d k) (active_of s did) (hb_devices s)"
      "hb_selections t = map (\<lambda>(k, r). (k, fail_selection did ''worker_disconnected'' r)) (hb_selections s)"
      "hb_calls t = hb_calls s @ map (\<lambda>r. Call_Resolve (pq_future r)
          [(''status'', JStr ''failed''), (''error'', JStr ''worker_disconnected'')])
        (filter (\<lambda>r. pq_device r = did \<and> hb_futures s ! pq_future r = F_Waiting) (requests_of s))"
    by (simp_all add: client_side_def pop_tasks_def fail_pending_def) (simp_all add: fail_selections_def active_of_def)
  have "resolved (pq_future r) ((hub_loop_step ^^ length (hb_calls t)) t)"
    if r: "r \<in> set (requests_of s)" "pq_device r = did" "pq_future r < length (hb_futures s)" for r
  proof (cases "hb_futures s ! pq_future r = F_Waiting")
    case True
    then have "Call_Resolve (pq_future r) [(''status'', JStr ''failed''), (''error'', JStr ''worker_disconnected'')] \<in> set (hb_calls t)"
      using r parts(6) by auto
    then show ?thesis using r parts(1) by (intro loop_run_resolves) auto
  next
    case False
    then show ?thesis using r parts(1) by (intro loop_run_keeps) (simp add: resolved_def)
  qed
  then show ?thesis
    using parts fail_selection_settles
    by (auto simp: is_online_def online_conn_def active_of_def [of t] resolved_def obj_get_pop_all)
qed

section \<open>Deferred events that are lost\<close>

text \<open>
  When a machine connects again while its old connection is still there, the tasks of the old one fail
  and are assigned to nobody, and the events of theirs that wait to be written stay where they are: no
  one writes them any more, as only a message of the Worker that holds the task does.
\<close>

interpretation buffered: hub_rows "\<lambda>s. (hb_stream s, hb_devices s) = x" for x
  by unfold_locales simp_all

theorem reconnect_keeps_buffer:
  assumes "obj_get (hb_online s) (d_id d) = Some b" and "tid \<in> set (active_of s (d_id d))"
  shows "obj_get (hb_stream (snd (hub_connect d s))) tid = obj_get (hb_stream s) tid \<and>
     obj_get (hb_devices (snd (hub_connect d s))) tid = None"
proof -
  let ?devs = "fold (\<lambda>k d. obj_pop d k) (active_of s (d_id d)) (hb_devices s)"
  let ?P = "\<lambda>u. (hb_stream u, hb_devices u) = (hb_stream s, ?devs)"
  have rest: "act_keeps ?P (act_then (act_each (\<lambda>tid. hub_fail_task tid ''worker_reconnected'' Failed) tids)
      (act_then (act_modify (\<lambda>s. s\<lparr>hb_closed := hb_closed s @ [(b, 4001)]\<rparr>)) (act_ret c)))" for tids c
    by (intro keeps_rules buffered.fail_task_unmoved) simp
  have "act_wp (hub_connect d) (\<lambda>_. ?P) (\<lambda>_. ?P) s"
    unfolding hub_connect_def act_wp_bind act_wp_get prod.case assms(1) option.case
      act_wp_then [of "act_modify _"] act_wp_modify
    by (rule act_keeps_wp [OF rest]) (simp add: pop_tasks_def fail_pending_def fail_selections_def active_of_def)
  then have "?P (snd (hub_connect d s))" by (auto simp: act_wp_def split: prod.splits sum.splits)
  then show ?thesis using assms(2) by (simp add: obj_get_pop_all)
qed

end
