(* ===== verification/Hub_Sessions.thy ===== *)
theory Hub_Sessions
  imports Hub_Stream
begin

text \<open>
  The index of the local sessions: what a Worker reports of the sessions on its disk is merged into
  the sessions of the control plane, and never into those of another user.
\<close>

section \<open>Files\<close>

text \<open>Every session is in the file of its id; the content of a session.\<close>

definition sessions_named :: "'a session_state_scheme \<Rightarrow> bool" where
  "sessions_named s \<longleftrightarrow> (\<forall>k n x. obj_get (ss_files s) k = Some (n, Some x) \<longrightarrow> obj_get x ''id'' = Some (JStr k))"

definition session_at :: "'a session_state_scheme \<Rightarrow> string \<Rightarrow> (string \<times> json) list option" where
  "session_at s k = (case obj_get (ss_files s) k of Some (_, Some x) \<Rightarrow> Some x | _ \<Rightarrow> None)"

lemma session_at_eq: "session_at s k = Some x \<longleftrightarrow> (\<exists>n. obj_get (ss_files s) k = Some (n, Some x))"
  by (auto simp: session_at_def split: option.split prod.split)

lemma session_save_wp:
  assumes "obj_get d ''id'' = Some (JStr sid)"
    and "\<And>n io. Q () (s\<lparr>st_io := io, ss_files := obj_put (ss_files s) sid (n, Some d)\<rparr>) \<and>
       E Os_Error (s\<lparr>st_io := io, ss_files := obj_put (ss_files s) sid (n, Some d)\<rparr>)"
    and "\<And>io. E Os_Error (s\<lparr>st_io := io\<rparr>)"
  shows "act_wp (session_save d) Q E s"
  using assms by (auto simp: session_save_def wp_simps get_item_def intro!: io_write_wp)

lemma session_load_wp:
  assumes "obj_get (ss_files s) sid = None \<Longrightarrow> E Session_Missing s"
    and "\<And>n. obj_get (ss_files s) sid = Some (n, None) \<Longrightarrow> E Session_Unreadable s"
    and "\<And>x. session_at s sid = Some x \<Longrightarrow> Q x s"
  shows "act_wp (session_load sid) Q E s"
  using assms by (auto simp: session_load_def wp_simps session_at_def split: option.split prod.split)

lemma obj_get_put_all: "k \<notin> fst ` set changes \<Longrightarrow> obj_get (put_all changes d) k = obj_get d k"
  by (induction changes arbitrary: d) (auto simp: put_all_def)

lemma summary_changes_keys: "k \<in> {''id'', ''owner_id''} \<Longrightarrow> k \<notin> fst ` set (summary_changes d adopt m current)"
  by (auto simp: summary_changes_def)

lemma scrub_session_keys: "k \<in> {''id'', ''owner_id''} \<Longrightarrow> obj_get (scrub_session d) k = obj_get d k"
  by (auto simp: scrub_session_def)

section \<open>Sessions of others\<close>

definition others_session ::
  "nat \<Rightarrow> string \<Rightarrow> string \<Rightarrow> (string \<times> json) list \<Rightarrow> 'a hub_state_scheme \<Rightarrow> bool" where
  "others_session a owner k x s \<longleftrightarrow>
     sessions_named s \<and> session_at s k = Some x \<and> obj_get x ''owner_id'' \<noteq> Some (JStr owner) \<and>
     d_owner (conn_device s a) = owner"

interpretation theirs: hub_tables "others_session a owner k x" for a owner k x
  by unfold_locales (simp_all add: others_session_def sessions_named_def session_at_def conn_device_def)

lemma others_save:
  assumes "others_session a owner k x s" and "obj_get d ''id'' = Some (JStr sid)" and "sid \<noteq> k"
  shows "others_session a owner k x (s\<lparr>st_io := io, ss_files := obj_put (ss_files s) sid (n, Some d)\<rparr>)"
  using assms by (auto simp: others_session_def sessions_named_def session_at_def conn_device_def)

lemma others_save_wp:
  assumes "others_session a owner k x s" and "obj_get d ''id'' = Some (JStr sid)" and "sid \<noteq> k"
  shows "act_wp (session_save d) (\<lambda>_. others_session a owner k x) (\<lambda>_. others_session a owner k x) s"
  by (rule session_save_wp [OF assms(2)]) (simp_all add: others_save [OF assms] theirs.unmoved_store assms(1))

lemma others_session_at:
  assumes "others_session a owner k x s" and "session_at s sid = Some y"
  shows "obj_get y ''id'' = Some (JStr sid)" and "obj_get y ''owner_id'' = Some (JStr owner) \<Longrightarrow> sid \<noteq> k"
  using assms by (auto simp: others_session_def sessions_named_def session_at_eq)

lemma write_merged_others:
  assumes "others_session a owner k x s" and "session_at s (sm_session m) = Some current"
    and "obj_get current ''owner_id'' = Some (JStr owner)"
  shows "act_wp (write_merged d adopt m current) (\<lambda>_. others_session a owner k x) (\<lambda>_. others_session a owner k x) s"
proof -
  let ?c = "summary_changes d adopt m current"
  let ?u = "if changes_something ?c current then put_all ?c current else current"
  note id = others_session_at [OF assms(1,2)]
  have u: "obj_get (scrub_session ?u) ''id'' = Some (JStr (sm_session m))"
    using id(1) by (simp add: scrub_session_keys obj_get_put_all summary_changes_keys)
  have save: "act_wp (session_save (scrub_session ?u)) (\<lambda>_. others_session a owner k x) (\<lambda>_. others_session a owner k x) s"
    by (rule others_save_wp [OF assms(1) u id(2) [OF assms(3)]])
  have scrub: "act_wp (scrub_tasks sid own) (\<lambda>_. others_session a owner k x) (\<lambda>_. others_session a owner k x) v"
    if "others_session a owner k x v" for sid own v
    by (rule act_keeps_wp [OF theirs.scrub_unmoved that])
  have saved: "act_wp (session_save (scrub_session ?u))
     (\<lambda>_. act_wp (scrub_tasks sid own) (\<lambda>_. others_session a owner k x) (\<lambda>_. others_session a owner k x))
     (\<lambda>_. others_session a owner k x) s" for sid own
    by (rule act_wp_conseq [OF save]) (simp_all add: scrub)
  show ?thesis
    unfolding write_merged_def Let_def act_wp_then act_wp_when
    by (cases "changes_something ?c current \<or> scrub_changes ?u")
      (simp_all only: if_True if_False saved scrub [OF assms(1)])
qed

lemma merge_others: "act_keeps (others_session a owner k x) (merge_session_summary a m)"
  unfolding act_triple_wp
proof (intro allI impI)
  fix s assume ok: "others_session a owner k x s"
  let ?P = "others_session a owner k x"
  let ?d = "conn_device s a"
  have owner: "d_owner ?d = owner" using ok by (simp add: others_session_def)
  have new: "act_wp (session_save (new_session ?d now m)) (\<lambda>_. ?P) (\<lambda>_. ?P) s"
    if "obj_get (ss_files s) (sm_session m) = None" for now
  proof (rule others_save_wp [OF ok])
    show "obj_get (new_session ?d now m) ''id'' = Some (JStr (sm_session m))" by (simp add: new_session_def)
    show "sm_session m \<noteq> k" using that ok by (auto simp: others_session_def session_at_eq)
  qed
  have get: "act_keeps ?P (device_get did)" for did
    unfolding device_get_def by (intro keeps_rules)
  have known: "act_wp (write_merged ?d adopt m current) (\<lambda>_. ?P) (\<lambda>_. ?P) u"
    if "session_at s (sm_session m) = Some current" "session_is_theirs ?d m current" "u = s" for adopt current u
    using write_merged_others [OF ok that(1)] that(2,3) owner by (simp add: session_is_theirs_def)
  show "act_wp (merge_session_summary a m) (\<lambda>_. ?P) (\<lambda>_. ?P) s"
    unfolding merge_session_summary_def act_wp_bind act_wp_get act_wp_try
  proof (rule session_load_wp, goal_cases)
    case 1
    then show ?case using new by (simp add: wp_simps)
  next
    case (2 n)
    then show ?case using ok by (simp add: wp_simps)
  next
    case (3 current)
    have same: "act_wp (device_get did) (\<lambda>_ u. u = s) (\<lambda>_ u. u = s) s" for did
      by (simp add: device_get_def wp_simps split: option.split sum.split)
    show ?case
      using ok known [OF 3]
      by (auto simp: wp_simps intro!: act_wp_conseq [OF same])
  qed
qed

lemma index_others: "act_keeps (others_session a owner k x) (index_sessions cfg a wids raws)"
  by (induction raws) (auto simp: index_session_def intro!: keeps_rules merge_others split: sum.split)

lemma others_calls: "others_session a owner k x s \<Longrightarrow> others_session a owner k x (s\<lparr>hb_calls := cs\<rparr>)"
  by (simp add: others_session_def sessions_named_def session_at_def conn_device_def)

lemma sessions_updated_others: "act_keeps (others_session a owner k x) (handle_sessions_updated cfg a msg)"
  unfolding handle_sessions_updated_def require_capability_def send_to_def hub_send_def raise_protocol_def
  by (intro keeps_rules index_others others_calls; assumption?)

text \<open>
  C11. Whatever a Worker reports of its sessions, and whatever fails meanwhile, no session of another
  user is changed.
\<close>

theorem foreign_sessions_untouched:
  assumes "sessions_named s" and "session_at s k = Some x"
    and "obj_get x ''owner_id'' \<noteq> Some (JStr (d_owner (conn_device s a)))"
  shows "session_at (snd (handle_sessions_updated cfg a msg s)) k = Some x"
  using act_keepsD [OF sessions_updated_others, of a "d_owner (conn_device s a)" k x s cfg msg] assms
  by (simp add: others_session_def)

section \<open>What is merged\<close>

text \<open>A session with an empty history, an empty memory and nothing to resume from.\<close>

definition conversation_cleared :: "(string \<times> json) list \<Rightarrow> bool" where
  "conversation_cleared x \<longleftrightarrow>
     obj_get x ''history'' = Some (JList []) \<and> obj_get x ''memory'' = Some empty_memory \<and>
     obj_get x ''checkpoints'' = None \<and> obj_get x ''runtime_identity'' = None \<and> obj_get x ''resume_state'' = None"

lemma cleared_unless_changes: "\<not> scrub_changes x \<Longrightarrow> conversation_cleared x"
  by (simp add: scrub_changes_def conversation_cleared_def)

lemma scrubbed_cleared: "conversation_cleared (scrub_session d)"
  by (simp add: conversation_cleared_def scrub_session_def)

interpretation kept_files: hub_tables "\<lambda>s. ss_files s = f" for f
  by unfold_locales simp_all

text \<open>What the file of a merged session holds.\<close>

definition merged_file :: "device \<Rightarrow> session_summary \<Rightarrow> (string \<times> json) list option \<Rightarrow> (string \<times> json) list \<Rightarrow> bool" where
  "merged_file d m before y \<longleftrightarrow>
     conversation_cleared y \<and> obj_get y ''owner_id'' = Some (JStr (d_owner d)) \<and>
     (\<forall>x. before = Some x \<longrightarrow> obj_get x ''display_name_source'' = Some (JStr ''user'') \<longrightarrow>
        obj_get y ''title'' = obj_get x ''title'' \<and> obj_get y ''display_name_source'' = Some (JStr ''user''))"

lemma new_session_merged: "merged_file d m None (new_session d now m)"
  by (simp add: merged_file_def new_session_def conversation_cleared_def)

lemma chosen_title_keys:
  assumes "obj_get current ''display_name_source'' = Some (JStr ''user'')" and "k \<in> {''title'', ''display_name_source''}"
  shows "k \<notin> fst ` set (summary_changes d adopt m current)"
  using assms by (auto simp: summary_changes_def get_default_def)

lemma scrub_session_titles: "k \<in> {''title'', ''display_name_source''} \<Longrightarrow> obj_get (scrub_session d) k = obj_get d k"
  by (auto simp: scrub_session_def)

lemma scrubbed_merged:
  assumes "obj_get current ''owner_id'' = Some (JStr (d_owner d))"
    and "u = (if b then put_all (summary_changes d adopt m current) current else current)"
  shows "merged_file d m (Some current) (scrub_session u)"
    and "\<not> b \<Longrightarrow> \<not> scrub_changes u \<Longrightarrow> merged_file d m (Some current) current"
  using assms chosen_title_keys [of current _ d adopt m]
  by (auto simp: merged_file_def scrubbed_cleared cleared_unless_changes scrub_session_keys scrub_session_titles
      obj_get_put_all summary_changes_keys)

lemma write_merged_wp:
  assumes "sessions_named s" and "session_at s (sm_session m) = Some current"
    and "obj_get current ''owner_id'' = Some (JStr (d_owner d))"
    and "\<And>y u. session_at u (sm_session m) = Some y \<Longrightarrow> merged_file d m (Some current) y \<Longrightarrow> Q () u" and "\<And>e u. E e u"
  shows "act_wp (write_merged d adopt m current) Q E s"
proof -
  let ?c = "summary_changes d adopt m current"
  let ?b = "changes_something ?c current"
  let ?u = "if ?b then put_all ?c current else current"
  have "obj_get current ''id'' = Some (JStr (sm_session m))"
    using assms(1,2) by (auto simp: sessions_named_def session_at_eq)
  then have id: "obj_get (scrub_session ?u) ''id'' = Some (JStr (sm_session m))"
    by (simp add: scrub_session_keys obj_get_put_all summary_changes_keys)
  have scrub: "act_wp (scrub_tasks sid own) Q E u"
    if "session_at u (sm_session m) = Some y" "merged_file d m (Some current) y" for sid own u y
    by (rule keeps_wp [OF kept_files.scrub_unmoved refl])
      (use that in \<open>auto intro: assms(4,5) simp: session_at_def\<close>)
  have saved: "act_wp (session_save (scrub_session ?u)) (\<lambda>_. act_wp (scrub_tasks sid own) Q E) E s" for sid own
    by (rule session_save_wp [OF id])
      (auto intro!: scrub [where y = "scrub_session ?u"] assms(5) scrubbed_merged(1) [OF assms(3) refl]
        simp: session_at_def simp del: if_split)
  show ?thesis
    unfolding write_merged_def Let_def act_wp_then act_wp_when
  proof (cases "?b \<or> scrub_changes ?u")
    case False
    then have "merged_file d m (Some current) current" by (intro scrubbed_merged(2) [OF assms(3) refl]) auto
    then show "if ?b \<or> scrub_changes ?u then act_wp (session_save (scrub_session ?u))
        (\<lambda>_. act_wp (scrub_tasks (sm_session m) (d_owner d)) Q E) E s
        else act_wp (scrub_tasks (sm_session m) (d_owner d)) Q E s"
      using False scrub [OF assms(2)] by (simp only: if_False)
  qed (simp only: if_True saved)
qed

text \<open>
  C12. When a summary was merged, the session is there and belongs to the owner of the Worker; its
  history and its memory are empty and it has no checkpoints, no runtime identity and no state to resume
  from; and a title the user chose is as it was.  (Any other title may be the automatic one, which the
  Worker takes from the first 200 characters of the first request.)
\<close>

theorem merged_session_private:
  assumes "sessions_named s" and "merge_session_summary a m s = (Inr None, t)"
  shows "\<exists>y. session_at t (sm_session m) = Some y \<and>
     obj_get y ''owner_id'' = Some (JStr (d_owner (conn_device s a))) \<and>
     obj_get y ''history'' = Some (JList []) \<and> obj_get y ''memory'' = Some empty_memory \<and>
     obj_get y ''checkpoints'' = None \<and> obj_get y ''runtime_identity'' = None \<and> obj_get y ''resume_state'' = None \<and>
     (\<forall>x. session_at s (sm_session m) = Some x \<longrightarrow> obj_get x ''display_name_source'' = Some (JStr ''user'') \<longrightarrow>
        obj_get y ''title'' = obj_get x ''title'' \<and> obj_get y ''display_name_source'' = Some (JStr ''user''))"
proof -
  let ?d = "conn_device s a"
  let ?R = "\<lambda>r t. r = None \<longrightarrow> (\<exists>y. session_at t (sm_session m) = Some y \<and>
     merged_file ?d m (session_at s (sm_session m)) y)"
  have known: "act_wp (write_merged ?d adopt m current) (\<lambda>_ t. ?R None t) (\<lambda>_ _. True) u"
    if "session_at s (sm_session m) = Some current" "session_is_theirs ?d m current" "u = s" for adopt current u
    by (rule write_merged_wp) (use that assms(1) in \<open>auto simp: session_is_theirs_def\<close>)
  have new: "act_wp (session_save (new_session ?d now m)) (\<lambda>_ t. ?R None t) (\<lambda>_ _. True) s"
    if "session_at s (sm_session m) = None" for now
  proof (rule session_save_wp)
    show "obj_get (new_session ?d now m) ''id'' = Some (JStr (sm_session m))" by (simp add: new_session_def)
  qed (use that new_session_merged in \<open>auto simp: session_at_def\<close>)
  have "act_wp (merge_session_summary a m) ?R (\<lambda>_ _. True) s"
    unfolding merge_session_summary_def act_wp_bind act_wp_get act_wp_try
  proof (rule session_load_wp, goal_cases)
    case 1
    then have "session_at s (sm_session m) = None" by (simp add: session_at_def)
    from new [OF this] show ?case by (simp add: wp_simps)
  next
    case (2 n)
    then show ?case by (simp add: wp_simps)
  next
    case (3 current)
    have same: "act_wp (device_get did) (\<lambda>_ u. u = s) (\<lambda>_ u. u = s) s" for did
      by (simp add: device_get_def wp_simps split: option.split sum.split)
    show ?case
      using known [OF 3] by (auto simp: wp_simps intro!: act_wp_conseq [OF same])
  qed
  from act_wp_retD [OF this assms(2)] show ?thesis
    by (auto simp: merged_file_def conversation_cleared_def)
qed

end
