(* ===== verification/Hub_Sample.thy ===== *)
theory Hub_Sample
  imports Hub_Safety Hub_Sessions
begin

text \<open>
  The properties of the hub on a concrete one: a Worker that is online, a task for it, its session.
\<close>

section \<open>A hub\<close>

text \<open>The settings allow messages as long as the given one.\<close>

definition sample_hub_config :: "(string \<times> json) list \<Rightarrow> hub_config" where
  "sample_hub_config msg =
     \<lparr>hc_labels = [], hc_iso = \<lambda>_. ''now'', hc_environ = [], hc_num = \<lambda>_. None, hc_sha = length, hc_mac = id,
      hc_max_tasks = 1, hc_message_max = utf8_len (json_dumps False '','' '':'' (JObj msg)),
      hc_approval_timeout = 60, hc_preview_max = 1000, hc_task_settings = []\<rparr>"

definition sample_local_task :: task where
  "sample_local_task =
     sample_task\<lparr>t_device_id := sample_device_id, t_workspace_id := ''w'', t_execution_environment := ''local_worker''\<rparr>"

definition sample_session :: "(string \<times> json) list" where
  "sample_session =
     [(''id'', JStr ''ses_1''), (''owner_id'', JStr sample_owner), (''workspace_id'', JStr ''w''),
      (''device_id'', JStr sample_device_id), (''execution_environment'', JStr ''local_worker''),
      (''title'', JStr ''Mine''), (''display_name_source'', JStr ''user''), (''history'', JList [JStr ''hi''])]"

definition other_session :: "(string \<times> json) list" where
  "other_session = [(''id'', JStr ''ses_2''), (''owner_id'', JStr ''someone''), (''title'', JStr ''Theirs'')]"

definition sample_conn :: worker_conn where
  "sample_conn = \<lparr>cn_device = sample_device, cn_ready = True, cn_outbox = []\<rparr>"

definition sample_hub :: hub_state where
  "sample_hub =
     \<lparr>st_tasks = [(''task_1'', sample_local_task)], st_approvals = [], st_runs = [], st_mirrored = False,
      st_task_mirror = [], st_approval_mirror = [], st_io = [], st_clock = 20, st_uuid = 0,
      jn_lines = [], jn_torn = False, ev_sequences = [], ev_log = [], br_size = 4, br_subs = [], br_queues = [],
      br_scheduled = [], dv_files = [(sample_device_id, Some (device_to_dict sample_device))], dv_now = ''t1'',
      ss_files = [(''ses_1'', 0, Some sample_session), (''ses_2'', 0, Some other_session)],
      hb_conns = [sample_conn], hb_online = [(sample_device_id, 0)], hb_active = [], hb_devices = [],
      hb_selections = [], hb_pending = \<lambda>_. [], hb_futures = [], hb_answers = [], hb_progress = [], hb_stream = [],
      hb_calls = [], hb_closed = []\<rparr>"

text \<open>The hub after the task was given to the Worker.\<close>

definition sample_busy :: hub_state where
  "sample_busy = sample_hub\<lparr>hb_active := [(sample_device_id, [''task_1''])], hb_devices := [(''task_1'', sample_device_id)]\<rparr>"

lemma sample_local_simps [simp]:
  "t_task_id sample_local_task = ''task_1''" "t_session_id sample_local_task = ''ses_1''"
  "t_owner_id sample_local_task = sample_owner" "t_device_id sample_local_task = sample_device_id"
  "t_workspace_id sample_local_task = ''w''" "t_status sample_local_task = Running"
  "t_run_index sample_local_task = []" "t_pending_approval sample_local_task = None"
  by (simp_all add: sample_local_task_def sample_task_def new_task_def)

lemma sample_hub_rows: "rows_ok sample_hub" "rows_ok sample_busy" "st_io sample_hub = []"
  by (simp_all add: sample_busy_def sample_hub_def rows_ok_def)

lemma sample_conn_device [simp]: "cn_device sample_conn = sample_device" "cn_ready sample_conn"
  by (simp_all add: sample_conn_def)

section \<open>The properties\<close>

text \<open>Two thoughts at different times, then a tool call: the thoughts are one entry, the call comes after it.\<close>

definition sample_stream :: "(int \<times> public_event \<times> (string \<times> json) list) list" where
  "sample_stream =
     [(21, make_event ''e1'' 1 21 ''task_1'' ''run_1'' ''assistant.thinking'' [] no_opts, [(''text'', JStr ''a'')]),
      (22, make_event ''e2'' 2 22 ''task_1'' ''run_1'' ''assistant.thinking'' [] no_opts, [(''text'', JStr ''b'')]),
      (23, make_event ''e3'' 3 23 ''task_1'' ''run_1'' ''tool.started'' [] no_opts, [])]"

theorem deferred_is_immediate_witness:
  "\<exists>t. keep_timed (sample_hub_config []) ''task_1'' sample_stream sample_hub = (Inr (), t) \<and>
     trail_has (sample_hub_config []) ''task_1'' sample_local_task sample_hub (map snd sample_stream) t"
proof -
  have "obj_get (st_tasks sample_hub) ''task_1'' = Some sample_local_task" "all_objects (t_run_index sample_local_task)"
    "obj_get (hb_stream sample_hub) ''task_1'' = None"
    by (simp_all add: sample_hub_def all_objects_def)
  from deferred_is_immediate [OF sample_hub_rows(1) this, where cfg = "sample_hub_config []" and evs = sample_stream]
  have "\<exists>t. keep_timed (sample_hub_config []) ''task_1'' sample_stream sample_hub = (Inr (), t) \<and>
     trail_has (sample_hub_config []) ''task_1'' sample_local_task sample_hub (kept_events (map snd sample_stream)) t"
    using sample_hub_rows(3)
    by (cases "keep_timed (sample_hub_config []) ''task_1'' sample_stream sample_hub") (auto split: sum.splits)
  moreover have "kept_events (map snd sample_stream) = map snd sample_stream"
    by (simp add: kept_events_def sample_stream_def STREAM_PERSIST_EVENTS_def PERSISTED_EVENTS_def)
  ultimately show ?thesis by simp
qed

text \<open>A Worker with the history of its sessions reports one that somebody else has.\<close>

definition other_id :: string where
  "other_id = ''ses_'' @ hex_pad 32 2"

definition others_file :: "(string \<times> json) list" where
  "others_file = [(''id'', JStr other_id), (''owner_id'', JStr ''someone''), (''title'', JStr ''Theirs'')]"

definition sample_claim :: json where
  "sample_claim = JObj [(''session_id'', JStr other_id), (''workspace_id'', JStr ''w''), (''title'', JStr ''Mine now''),
     (''message_total'', JInt 1)]"

definition sample_claimed :: hub_state where
  "sample_claimed = sample_hub
     \<lparr>hb_conns := [sample_conn\<lparr>cn_device := sample_device\<lparr>d_capabilities := [''local_history'']\<rparr>\<rparr>],
      ss_files := [(other_id, 0, Some others_file)]\<rparr>"

lemma other_id_ok: "is_session_id other_id"
proof -
  have "\<forall>c\<in>set (hex_pad 32 2). hex_lower c" using set_hex_pad unfolding hex_lower_def by blast
  then show ?thesis by (simp only: is_session_id_def other_id_def is_record_id_append length_hex_pad list_all_iff simp_thms)
qed

theorem foreign_sessions_untouched_witness:
  "(\<exists>m. parse_session_summary [] sample_claim [''w''] = Inr m \<and> sm_session m = other_id) \<and>
   require_capability 0 ''local_history'' sample_claimed = (Inr (), sample_claimed) \<and>
   session_at (snd (handle_sessions_updated (sample_hub_config []) 0 [(''sessions'', JList [sample_claim])] sample_claimed)) other_id
     = Some others_file"
proof (intro conjI)
  show "\<exists>m. parse_session_summary [] sample_claim [''w''] = Inr m \<and> sm_session m = other_id"
    using other_id_ok
    by (simp add: parse_session_summary_def sample_claim_def get_str_def get_default_def py_str_JStr int_like_def Let_def)
  show "require_capability 0 ''local_history'' sample_claimed = (Inr (), sample_claimed)"
    by (simp add: require_capability_def act_defs sample_claimed_def conn_device_def sample_conn_def)
  show "session_at (snd (handle_sessions_updated (sample_hub_config []) 0 [(''sessions'', JList [sample_claim])] sample_claimed)) other_id
     = Some others_file"
  proof (rule foreign_sessions_untouched)
    show "sessions_named sample_claimed" by (simp add: sessions_named_def sample_claimed_def others_file_def)
    show "session_at sample_claimed other_id = Some others_file" by (simp add: session_at_def sample_claimed_def)
    have "sample_owner \<noteq> ''someone''"
    proof
      assume eq: "sample_owner = ''someone''"
      have "canonical_owner_id ''someone'' = None" by code_simp
      then show False using canonical_owner_id_sample by (simp add: eq)
    qed
    then show "obj_get others_file ''owner_id'' \<noteq> Some (JStr (d_owner (conn_device sample_claimed 0)))"
      by (simp add: others_file_def conn_device_def sample_claimed_def sample_device_ok)
  qed
qed

theorem disconnect_wakes_all_witness:
  "let q = \<lparr>pq_owner = sample_owner, pq_device = sample_device_id, pq_future = 0, pq_subject = [], pq_created = 0\<rparr>;
       s = sample_busy\<lparr>hb_pending := (\<lambda>_. [])(Req_History := [(''hist_1'', q)]), hb_futures := [F_Waiting]\<rparr>;
       t = snd (hub_disconnect (sample_hub_config []) 0 s)
   in hb_futures s ! 0 = F_Waiting \<and> active_of t sample_device_id = [] \<and> obj_get (hb_devices t) ''task_1'' = None \<and>
      hb_futures ((hub_loop_step ^^ length (hb_calls t)) t) ! 0 \<noteq> F_Waiting"
proof -
  let ?q = "\<lparr>pq_owner = sample_owner, pq_device = sample_device_id, pq_future = 0, pq_subject = [], pq_created = 0\<rparr>"
  let ?s = "sample_busy\<lparr>hb_pending := (\<lambda>_. [])(Req_History := [(''hist_1'', ?q)]), hb_futures := [F_Waiting]\<rparr>"
  have online: "obj_get (hb_online ?s) sample_device_id = Some 0" "sample_device_id = d_id (cn_device (hb_conns ?s ! 0))"
    and q: "?q \<in> set (requests_of ?s)" "pq_device ?q = sample_device_id" "pq_future ?q < length (hb_futures ?s)"
    "''task_1'' \<in> set (active_of ?s sample_device_id)"
    by (simp_all add: sample_busy_def sample_hub_def requests_of_def request_kinds_def sample_device_ok active_of_def)
  let ?t = "snd (hub_disconnect (sample_hub_config []) 0 ?s)"
  note all = disconnect_wakes_all [OF online refl, of "sample_hub_config []"]
  have "active_of ?t sample_device_id = []" "obj_get (hb_devices ?t) ''task_1'' = None"
    "hb_futures ((hub_loop_step ^^ length (hb_calls ?t)) ?t) ! pq_future ?q \<noteq> F_Waiting"
    using all q by blast+
  then show ?thesis by (simp add: Let_def)
qed

lemma io_write_quiet_wp: "st_io s = [] \<Longrightarrow> act_wp (io_write f) Q E s \<longleftrightarrow> Q () (f s)"
  by (simp add: act_wp_def io_write_quiet)

lemma sample_send_wp:
  assumes "obj_get (hb_online s) did = Some c" and "Q () (s\<lparr>hb_calls := hb_calls s @ [Call_Put c (JObj msg)]\<rparr>)"
  shows "act_wp (hub_send (sample_hub_config msg) did msg) Q E s"
  using assms by (simp add: hub_send_def sample_hub_config_def wp_simps)

text \<open>The task is dispatched: the Worker has it.\<close>

definition sample_start :: "(string \<times> json) list" where
  "sample_start = start_message (sample_hub_config []) sample_local_task sample_session"

lemma sample_start_eq: "start_message (sample_hub_config msg) sample_local_task sample_session = sample_start"
  by (simp add: sample_start_def start_message_def sample_hub_config_def)

lemma online_frames [simp]:
  "hb_online (published ev u sqs sch s) = hb_online s" "hb_online (task_written v runs mir os s) = hb_online s"
  "hb_online (approval_written ap amir os s) = hb_online s"
  "active_of (published ev u sqs sch s) = active_of s" "active_of (task_written v runs mir os s) = active_of s"
  "active_of (s\<lparr>hb_calls := cs\<rparr>) = active_of s"
  by (simp_all add: published_def task_written_def approval_written_def active_of_def fun_eq_iff)

lemma sample_dispatch:
  "\<exists>t. hub_dispatch (sample_hub_config sample_start) sample_local_task sample_session sample_hub = (Inr (), t)
     \<and> active_of t sample_device_id = [''task_1'']"
proof -
  let ?Q = "\<lambda>_ t. active_of t sample_device_id = [''task_1'']"
  let ?s = "assign_task ''task_1'' sample_device_id sample_hub"
  have s: "st_io ?s = []" "obj_get (st_tasks ?s) ''task_1'' = Some sample_local_task" "?Q () ?s"
    "obj_get (hb_online ?s) sample_device_id = Some 0"
    by (simp_all add: assign_task_def sample_hub_def active_of_def add_new_def)
  have own: "canonical_owner_id (t_owner_id sample_local_task) = Some (t_owner_id sample_local_task)" by simp
  have "act_wp (hub_start (sample_hub_config sample_start) sample_local_task sample_session) ?Q (\<lambda>_ _. False) ?s"
    unfolding hub_start_def act_wp_catch act_wp_bind sample_local_simps sample_start_eq
    by (rule update_quiet_wp [OF s(1,2) own], rule publish_event_wp, rule sample_send_wp [where c = 0])
      (use s(3,4) in simp_all)
  moreover have "is_online sample_device_id sample_hub" "online_conn sample_hub sample_device_id = Some sample_conn"
    by (simp_all add: is_online_def online_conn_def sample_hub_def)
  moreover have "session_matches sample_local_task sample_session"
    by (simp add: session_matches_def sample_session_def)
  moreover have "active_of sample_hub sample_device_id = []" by (simp add: active_of_def sample_hub_def)
  ultimately have "act_wp (hub_dispatch (sample_hub_config sample_start) sample_local_task sample_session) ?Q (\<lambda>_ _. False) sample_hub"
    by (simp add: hub_dispatch_def wp_simps sample_device_ok) (simp add: sample_hub_config_def)
  then show ?thesis using act_wp_total by fastforce
qed

theorem worker_slots_bounded_witness:
  "\<exists>t. (hub_step (sample_hub_config sample_start) (\<lambda>_. sample_device_id))\<^sup>*\<^sup>* sample_hub t
     \<and> active_of t sample_device_id = [''task_1''] \<and> obj_get (hb_devices t) ''task_1'' = Some sample_device_id
     \<and> length (active_of t sample_device_id) \<le> 1"
proof -
  obtain t where t: "hub_dispatch (sample_hub_config sample_start) sample_local_task sample_session sample_hub = (Inr (), t)"
    "active_of t sample_device_id = [''task_1'']" using sample_dispatch by blast
  have "hub_step (sample_hub_config sample_start) (\<lambda>_. sample_device_id) sample_hub t"
    using hub_step.Dispatch [of sample_local_task "\<lambda>_. sample_device_id" "sample_hub_config sample_start" sample_hub sample_session]
    by (simp add: t)
  then have run: "(hub_step (sample_hub_config sample_start) (\<lambda>_. sample_device_id))\<^sup>*\<^sup>* sample_hub t" by blast
  have "hb_active sample_hub = []" "hb_devices sample_hub = []" by (simp_all add: sample_hub_def)
  from worker_slots_bounded [OF run this, of "''task_1''" sample_device_id] run t(2) show ?thesis
    by (intro exI [of _ t]) simp
qed

definition sample_end :: "(string \<times> json) list" where
  "sample_end =
     [(''type'', JStr ''terminal''), (''task_id'', JStr ''task_1''), (''status'', JStr ''completed''),
      (''message_total'', JInt 2), (''final_answer'', JStr ''ok'')]"

lemma sample_settles:
  assumes "st_io s = []" and "obj_get (st_tasks s) ''task_1'' = Some sample_local_task" and "st_approvals s = []"
    and "\<And>u. Q () u"
  shows "act_wp (settle_task cfg sample_local_task r) Q E s"
proof -
  let ?fn = "set_worker_terminal (tm_status r) (tm_reason r) (terminal_persisted_answer (tm_status r) (tm_answer r)) (tm_error r)"
  let ?row = "(?fn sample_local_task)\<lparr>t_updated_at := st_clock s\<rparr>"
  let ?R = "\<lambda>u. st_io u = [] \<and> obj_get (st_tasks u) ''task_1'' = Some ?row"
  have row: "canonical_owner_id (t_owner_id ?row) = Some (t_owner_id ?row)" "all_objects (t_run_index ?row)"
    by (simp_all add: set_worker_terminal_def all_objects_def)
  have index: "act_wp (task_update_try ''task_1'' (append_run_index cfg ev d)) (\<lambda>_. Q ()) E u" if "?R u" for ev d u
  proof -
    obtain v where v: "append_run_index cfg ev d ?row = Inr v" using append_run_index_total [OF row(2)] by blast
    from that have R: "st_io u = []" "obj_get (st_tasks u) ''task_1'' = Some ?row" by blast+
    show ?thesis
      by (rule update_try_quiet_wp [where fn = "append_run_index cfg ev d", OF R row(1) v]) (rule assms(4))
  qed
  have finish: "act_wp (publish_event tid rid ty data opts)
      (\<lambda>ev. act_wp (task_update_try ''task_1'' (append_run_index cfg (event_to_dict ev) d)) (\<lambda>_. Q ()) E) E u"
    if "?R u" for tid rid ty data opts d u
    by (rule publish_event_wp, rule index) (use that in simp)
  have answered: "act_wp (act_when (tm_status r = Completed)
       (act_then (remember_answer ''task_1'' (tm_answer r))
          (act_bind (publish_event ''task_1'' (t_run_id sample_local_task) ''message.completed'' [(''text'', JStr (tm_answer r))]
             (final_opts ''completed'' [])) (\<lambda>_. act_ret ())))) (\<lambda>_. ?R) E u" if "?R u" for u
    using that by (auto simp: wp_simps remember_answer_def expire_answers_def intro!: publish_event_wp)
  have none: "cancel_pending_approvals sample_local_task why s = (Inr (), s)" for why
    using assms(3) by (simp add: cancel_pending_approvals_def list_pending_for_task_def act_defs)
  have update: "act_wp (task_update ''task_1'' ?fn None) (\<lambda>_. ?R) E s"
    by (rule update_quiet_wp [OF assms(1,2)])
      (simp_all add: set_worker_terminal_def, simp add: task_written_def)
  show ?thesis
    unfolding settle_task_def sample_local_simps act_wp_then act_wp_bind [of "task_update _ _ _"]
    by (simp add: act_wp_def [of "cancel_pending_approvals _ _"] none)
      (rule act_wp_conseq [OF update], rule act_wp_conseq [OF answered], auto simp: act_wp_bind act_wp_ret intro!: finish)
qed

lemma sample_busy_slots: "slots_ok (\<lambda>_. sample_device_id) 1 sample_busy"
  by (auto simp: slots_ok_def sample_busy_def active_of_def)

theorem terminal_settles_witness:
  "\<exists>t row. handle_terminal (sample_hub_config []) 0 sample_end sample_busy = (Inr (), t)
     \<and> obj_get (st_tasks t) ''task_1'' = Some row \<and> t_status row = Completed \<and> t_final_answer row = None
     \<and> (\<forall>did. ''task_1'' \<notin> set (active_of t did))"
proof -
  let ?cfg = "sample_hub_config []"
  have msg: "get_str sample_end ''task_id'' [] = ''task_1''" "get_str sample_end ''status'' ''failed'' = ''completed''"
    "get_default sample_end ''message_total'' (JInt 0) = JInt 2"
    "get_default sample_end ''session_persisted'' (JBool False) = JBool False"
    by (simp_all add: sample_end_def get_str_def get_default_def py_str_def)
  have st: "obj_get terminal_statuses ''completed'' = Some Completed" by (simp add: terminal_statuses_def)
  have got: "assigned_task 0 ''task_1'' sample_busy = (Inr sample_local_task, sample_busy)"
    by (simp add: assigned_task_def act_defs sample_busy_def sample_hub_def task_get_eq sample_device_ok)
  let ?P = "\<lambda>u. st_io u = [] \<and> obj_get (st_tasks u) ''task_1'' = Some sample_local_task \<and> st_approvals u = []"
  have count: "act_wp (update_session_count sample_local_task (JInt 2) False) (\<lambda>_. ?P) (\<lambda>_ _. False) sample_busy"
    by (simp add: update_session_count_def wp_simps session_load_def session_save_def get_item_def session_matches_def
        sample_busy_def sample_hub_def sample_session_def io_write_quiet_wp)
  have "act_wp (handle_terminal ?cfg 0 sample_end) (\<lambda>_ _. True) (\<lambda>_ _. False) sample_busy"
    unfolding handle_terminal_def msg st Let_def act_wp_bind [of "assigned_task _ _"]
    by (simp add: act_wp_def [of "assigned_task _ _"] got int_like_def act_wp_then)
      (rule act_wp_conseq [OF count], rule sample_settles, auto simp: act_wp_bind act_wp_get intro!: release_wp)
  then obtain t where t: "handle_terminal ?cfg 0 sample_end sample_busy = (Inr (), t)"
    using act_wp_total by fastforce
  have row: "obj_get (st_tasks sample_busy) ''task_1'' = Some sample_local_task" by (simp add: sample_busy_def sample_hub_def)
  obtain before st where "obj_get (st_tasks sample_busy) ''task_1'' = Some before"
    "obj_get terminal_statuses ''completed'' = Some st"
    "row_settled (report_end ?cfg (t_status before) st sample_end) ''task_1'' t" "\<forall>did. ''task_1'' \<notin> set (active_of t did)"
    using terminal_settles [OF sample_hub_rows(2) sample_busy_slots t refl] unfolding msg Let_def by blast
  then show ?thesis using t row st by (auto simp: row_settled_def report_end_def Let_def)
qed

text \<open>An approval the Worker waits for.\<close>

definition sample_asking :: hub_state where
  "sample_asking = sample_busy
     \<lparr>st_tasks := [(''task_1'', sample_local_task\<lparr>t_status := Waiting_For_Approval\<rparr>)],
      st_approvals := [(''apr_1'', new_approval 10 ''apr_1'' ''task_1'' ''run_1'' sample_owner ''c'' ''write_file'' []
        (JObj []) 100)]\<rparr>"

definition sample_verdict :: "(string \<times> json) list" where
  "sample_verdict =
     [(''type'', JStr ''approval.decision''), (''task_id'', JStr ''task_1''), (''approval_id'', JStr ''apr_1''),
      (''tool_call_id'', JStr ''c''), (''decision'', JStr ''approved''), (''args_digest'', JStr [])]"

lemma approval_update_quiet_wp:
  assumes "st_io s = []" and "st_mirrored s = False" and "obj_get (st_approvals s) aid = Some row"
    and "canonical_owner_id (a_owner_id row) = Some (a_owner_id row)"
    and "Q (fn row) (s\<lparr>st_approvals := obj_put (st_approvals s) (a_approval_id (fn row)) (fn row)\<rparr>)"
  shows "act_wp (approval_update aid fn) Q E s"
proof -
  have same: "row\<lparr>a_owner_id := a_owner_id row\<rparr> = row" by simp
  show ?thesis
    using assms by (simp add: approval_update_def wp_simps same write_approval_def approval_mirror_write_def
        io_write_quiet_wp put_approval_row_def)
qed

lemma sample_decided:
  "\<exists>a t. hub_resolve (sample_hub_config sample_verdict) ''apr_1'' ''approved'' sample_asking = (Inr a, t) \<and> a_status a = A_Approved"
proof -
  let ?a = "new_approval 10 ''apr_1'' ''task_1'' ''run_1'' sample_owner ''c'' ''write_file'' [] (JObj []) 100"
  let ?t = "sample_local_task\<lparr>t_status := Waiting_For_Approval\<rparr>"
  let ?b = "set_worker_decision A_Approved ''approved'' 20 ?a"
  let ?s1 = "sample_asking\<lparr>st_approvals := [(''apr_1'', ?b)]\<rparr>"
  let ?Q = "\<lambda>u. obj_get (hb_online u) sample_device_id = Some 0 \<and> st_approvals u = [(''apr_1'', ?b)]"
  have s: "st_io sample_asking = []" "\<not> st_mirrored sample_asking" "st_approvals sample_asking = [(''apr_1'', ?a)]"
    "obj_get (st_tasks sample_asking) ''task_1'' = Some ?t" "st_clock sample_asking = 20"
    "obj_get (hb_online sample_asking) sample_device_id = Some 0"
    "obj_get (hb_devices sample_asking) ''task_1'' = Some sample_device_id"
    "is_online sample_device_id sample_asking"
    by (simp_all add: sample_asking_def sample_busy_def sample_hub_def is_online_def online_conn_def)
  have dev: "sample_device_id \<noteq> []" by (simp add: sample_device_id_def)
  have a: "a_approval_id ?a = ''apr_1''" "a_owner_id ?a = sample_owner" "a_status ?a = A_Pending" "a_task_id ?a = ''task_1''"
    "a_expires_at ?a = 100" "a_tool_call_id ?a = ''c''" "a_request_digest ?a = []" "a_run_id ?a = ''run_1''"
    "?a\<lparr>a_owner_id := sample_owner\<rparr> = ?a"
    by (simp_all add: new_approval_def)
  have b: "a_approval_id ?b = ''apr_1''" "a_owner_id ?b = sample_owner" by (simp_all add: set_worker_decision_def a)
  have s1: "st_io ?s1 = []" "obj_get (st_tasks ?s1) ''task_1'' = Some ?t" "?Q ?s1" using s by simp_all
  have "act_wp (task_update ''task_1'' clear_approval None) (\<lambda>_. ?Q) E ?s1" for E
    by (rule update_quiet_wp [OF s1(1,2)]) (use s1(3) in \<open>simp_all add: task_written_def\<close>)
  then have persist: "act_wp (persist_decision ?a A_Approved ''approved'') (\<lambda>_. ?Q) (\<lambda>_ _. False) sample_asking"
    unfolding persist_decision_def wp_simps a s(5)
    by (intro approval_update_quiet_wp [where row = ?a]) (simp_all add: s a b)
  have tell: "act_wp (publish_event tid rid ty data opts)
      (\<lambda>_. act_wp (hub_send (sample_hub_config sample_verdict) sample_device_id sample_verdict)
         (\<lambda>_. act_wp (approval_get ''apr_1'') (\<lambda>a _. a_status a = A_Approved) (\<lambda>_ _. False)) (\<lambda>_ _. False)) (\<lambda>_ _. False) u"
    if "?Q u" for tid rid ty data opts u
  proof (rule publish_event_wp, rule sample_send_wp [where c = 0])
    show "act_wp (approval_get ''apr_1'') (\<lambda>a _. a_status a = A_Approved) (\<lambda>_ _. False)
        ((published ev uuid sqs sch u)\<lparr>hb_calls := hb_calls (published ev uuid sqs sch u) @ [Call_Put 0 (JObj sample_verdict)]\<rparr>)"
      for ev uuid sqs sch
      using that b by (simp add: wp_simps set_worker_decision_def)
  qed (use that in simp)
  have "act_wp (hub_resolve (sample_hub_config sample_verdict) ''apr_1'' ''approved'') (\<lambda>a _. a_status a = A_Approved) (\<lambda>_ _. False) sample_asking"
    using act_wp_conseq [OF persist tell] s dev
    by (simp add: hub_resolve_def wp_simps a sample_verdict_def)
  then show ?thesis using act_wp_total by fastforce
qed

theorem worker_decision_once_witness:
  "\<exists>a t. hub_resolve (sample_hub_config sample_verdict) ''apr_1'' ''approved'' sample_asking = (Inr a, t)
     \<and> a_status a = A_Approved
     \<and> hub_resolve (sample_hub_config sample_verdict) ''apr_1'' ''rejected'' t = (Inl (App Approval_Already_Resolved), t)"
proof -
  obtain a t where t: "hub_resolve (sample_hub_config sample_verdict) ''apr_1'' ''approved'' sample_asking = (Inr a, t)"
    "a_status a = A_Approved" using sample_decided by blast
  have "rows_ok sample_asking"
    by (simp add: sample_asking_def sample_busy_def sample_hub_def rows_ok_def new_approval_def)
  from worker_decision_once [OF this t(1)] t show ?thesis by auto
qed

definition sample_summary :: session_summary where
  "sample_summary =
     \<lparr>sm_session = ''ses_1'', sm_workspace = ''w'', sm_title = ''Renamed'', sm_created_at = [], sm_updated_at = ''t2'',
      sm_source = ''auto'', sm_named_at = ''t2'', sm_first_request = [], sm_total = JInt 3\<rparr>"

theorem merged_session_private_witness:
  "\<exists>t y. merge_session_summary 0 sample_summary (sample_hub\<lparr>st_tasks := []\<rparr>) = (Inr None, t)
     \<and> session_at t ''ses_1'' = Some y \<and> obj_get y ''history'' = Some (JList [])
     \<and> obj_get y ''title'' = Some (JStr ''Mine'')"
proof -
  let ?s = "sample_hub\<lparr>st_tasks := []\<rparr>"
  have s: "session_at ?s ''ses_1'' = Some sample_session" "conn_device ?s 0 = sample_device" "st_io ?s = []"
    "sessions_named ?s"
    by (simp_all add: sample_hub_def session_at_def conn_device_def sessions_named_def sample_session_def other_session_def)
  have theirs: "session_is_theirs sample_device sample_summary sample_session"
    "obj_get sample_session ''device_id'' = Some (JStr (d_id sample_device))"
    by (simp_all add: session_is_theirs_def sample_session_def sample_summary_def sample_device_ok)
  have load: "act_wp (session_load ''ses_1'') Q E ?s \<longleftrightarrow> Q sample_session ?s" for Q E
    by (simp add: session_load_def wp_simps sample_hub_def)
  have scrub: "act_wp (scrub_tasks ''ses_1'' sample_owner) (\<lambda>_. P) E u" if "st_tasks u = []" "P u" for P E and u :: hub_state
    using that by (simp add: scrub_tasks_def wp_simps task_list_for_session_def tasks_newest_first_def)
  have save: "act_wp (session_save (scrub_session d)) (\<lambda>_ u. st_tasks u = []) (\<lambda>_ _. False) ?s"
    if "obj_get d ''id'' = Some (JStr ''ses_1'')" for d
    using that s(3) by (simp add: session_save_def wp_simps get_item_def scrub_session_keys io_write_quiet_wp)
  let ?c = "summary_changes sample_device False sample_summary sample_session"
  have id: "obj_get (if b then put_all ?c sample_session else sample_session) ''id'' = Some (JStr ''ses_1'')" for b
    by (simp add: obj_get_put_all summary_changes_keys) (simp add: sample_session_def)
  let ?u = "if changes_something ?c sample_session then put_all ?c sample_session else sample_session"
  have name: "sm_session sample_summary = ''ses_1''" by (simp add: sample_summary_def)
  have saved: "act_wp (session_save (scrub_session ?u)) (\<lambda>_. act_wp (scrub_tasks ''ses_1'' sample_owner) (\<lambda>_ _. True) (\<lambda>_ _. False))
     (\<lambda>_ _. False) ?s"
    by (rule act_wp_conseq [OF save [OF id]]) (simp_all add: scrub)
  have scrubbed: "act_wp (scrub_tasks ''ses_1'' sample_owner) (\<lambda>_ _. True) (\<lambda>_ _. False) ?s" by (rule scrub) simp_all
  have "act_wp (write_merged sample_device False sample_summary sample_session) (\<lambda>_ _. True) (\<lambda>_ _. False) ?s"
    unfolding write_merged_def Let_def act_wp_then act_wp_when name sample_device_ok
    by (cases "changes_something ?c sample_session \<or> scrub_changes ?u")
      (simp_all only: if_True if_False saved scrubbed)
  then have "act_wp (merge_session_summary 0 sample_summary) (\<lambda>r _. r = None) (\<lambda>_ _. False) ?s"
    using theirs s(2) load
    by (simp add: merge_session_summary_def wp_simps) (simp add: sample_summary_def)
  then obtain t where t: "merge_session_summary 0 sample_summary ?s = (Inr None, t)" using act_wp_total by fastforce
  have user: "obj_get sample_session ''display_name_source'' = Some (JStr ''user'')" "obj_get sample_session ''title'' = Some (JStr ''Mine'')"
    by (simp_all add: sample_session_def)
  show ?thesis
    using merged_session_private [OF s(4) t] t user unfolding name s(1) by fastforce
qed

theorem safe_path_stays_inside_witness:
  "safe_relative_path (JStr ''./src//main.py'') = Some ''src/main.py'' \<and>
   path_walk [''home'', ''w''] ''src/main.py'' = path_walk [''home'', ''w''] ''./src//main.py''"
proof -
  have p: "safe_relative_path (JStr ''./src//main.py'') = Some ''src/main.py''" by code_simp
  have "py_replace [CHR 0x5C] ''/'' (py_str (JStr ''./src//main.py'')) = ''./src//main.py''" by code_simp
  with safe_path_stays_inside [OF p refl, of "[''home'', ''w'']"] p show ?thesis by simp
qed

theorem foreign_worker_refused_witness:
  "handle_terminal (sample_hub_config []) 0 sample_end sample_hub = (Inl (App Worker_Protocol_Error), sample_hub)"
  using foreign_worker_refused [of sample_hub sample_end 0 "sample_hub_config []"] by (simp add: sample_hub_def)

end
