(* ===== verification/Spec2Isabelle.thy ===== *)
theory Spec2Isabelle
  imports Base Py_Text Owner_Identity Control_Entities Control_Store Recovery_Journal Event_Stream
    Run_Gate Approval_Gate Redaction Task_State Run_Artifacts Gate_Frames Task_Runner
    Startup_Reconcile Approval_Policy Tool_Executor Loop_Log Agent_Rounds Native_Run Prompt_Budget
    Device_Store Session_Store Worker_Payloads Run_Index Worker_Hub Worker_Requests Worker_Presence
    Hub_Slots Hub_Runs Hub_Settles Hub_Stream Hub_Safety Hub_Sessions Hub_Sample
begin

text \<open>
  A verification development of ThreadForge, a service that runs coding agents on behalf of users.

  \<^bold>\<open>The program.\<close>  The API server (\<open>src/api-server/src/threadforge_api\<close>) holds the control plane:
  tasks, approvals, the recovery journal, the event streams, and the runner that gives every task a
  worker thread.  The runtime (\<open>src/pico-legacy-runtime/pico\<close>) is what such a worker runs: the agent
  loop asks a model, parses its reply, runs its tool calls through the executor and its approvals,
  lets a second model call review the work, and writes the artifacts of the run.  The two meet in the
  fenced stores, the cancellation token and the approval callback that the server hands to the runtime.
  A task may also run on a device of the user: its Worker is connected to the hub of the server, which
  gives it the task and keeps what the Worker reports.

  \<^bold>\<open>Conventions.\<close>  Code that changes state and may raise is an \<open>act\<close>: a function from the state to a
  result (\<open>Inl\<close> an exception, \<open>Inr\<close> a value) and the new state, which survives an exception.  Theory
  \<open>Base\<close> has its combinators, triples \<open>act_triple\<close>, weakest preconditions \<open>act_wp\<close>, the rules for code
  that keeps a property (\<open>act_keeps\<close>, collection \<open>keeps_rules\<close>) and the locales of machines and
  invariants.  Texts are lists of characters with codes below 256; JSON values are a datatype whose
  numbers are integers; times are integers.  What is not under \<open>src/\<close> (the operating system, the
  parser of JSON, hashes, the model) is an argument.

  \<^bold>\<open>The control plane.\<close>
  \<^item> \<open>Py_Text\<close>: the string methods, \<open>str\<close>, \<open>repr\<close> and \<open>json.dumps\<close> that the code uses.
  \<^item> \<open>Control_Entities\<close>, \<open>Owner_Identity\<close> (\<open>domain/*.py\<close>): tasks, approvals, statuses, events, errors, and
    the canonical owner id.
  \<^item> \<open>Control_Store\<close> (\<open>infrastructure/sqlite_repositories.py\<close>): the database rows and the JSON mirror of
    tasks and approvals; every physical write may fail, following an oracle in the state.  The
    locale \<open>keyed_repo\<close> states the laws of a repository; it is interpreted for both.
  \<^item> \<open>Recovery_Journal\<close> (\<open>recovery_journal.py\<close>): the lines on disk, torn or whole; the locale \<open>intent_log\<close>
    states what begin, commit and the scan promise.
  \<^item> \<open>Event_Stream\<close> (\<open>event_broker.py\<close>, \<open>event_publisher.py\<close>): sequence numbers, subscribers, queues.
  \<^item> \<open>Run_Gate\<close>, \<open>Approval_Gate\<close>, \<open>Gate_Frames\<close> (\<open>run_gate.py\<close>, \<open>cancellation.py\<close>, \<open>fenced_run_store.py\<close>,
    \<open>execution_boundary.py\<close>, \<open>approval_gate.py\<close>): the gate of a run with its generation, the token, and the
    sections of the approval gate as atomic steps, with their rollbacks.  Gates and tokens are
    addresses of a heap, since several threads share them.
  \<^item> \<open>Task_Runner\<close> (\<open>task_runner.py\<close>): registration, start and end of a worker, cancel and shutdown, as the
    step relation \<open>run_step\<close> over the whole service; the locales \<open>service_blind\<close> and \<open>gate_blind\<close> carry a
    property over every section that does not touch it.
  \<^item> \<open>Run_Artifacts\<close>, \<open>Startup_Reconcile\<close> (\<open>run_store.py\<close>, \<open>run_reconciliation.py\<close>, \<open>lifespan.py\<close>): the files
    of a run, how they are converged with the task, and what a start of the service repairs.
  \<^item> \<open>Redaction\<close> (\<open>security.py\<close>): removal of secrets and the previews that leave the service.

  \<^bold>\<open>Devices and Workers.\<close>
  \<^item> \<open>Device_Store\<close>, \<open>Session_Store\<close> (\<open>infrastructure/device_store.py\<close>, \<open>pico/session_store.py\<close>): pairing codes,
    the files of the devices and their tokens, the files of the sessions.  Proved: a code pairs once,
    and pairing a machine again locks out its old token and no other device.
  \<^item> \<open>Worker_Payloads\<close> (end of \<open>infrastructure/worker_hub.py\<close>): the parsers and sanitisers of what a Worker
    sends, branch by branch; a path that passes denotes the place that was sent, below its root.
  \<^item> \<open>Run_Index\<close> (\<open>worker_hub.py\<close>): the audit trail of a task, its last five hundred entries.
  \<^item> \<open>Worker_Hub\<close>, \<open>Worker_Requests\<close>, \<open>Worker_Presence\<close> (\<open>worker_hub.py\<close>): the class \<open>WorkerHub\<close>: connections, dispatch,
    cancellation, approvals, events, the end of a task; requests to a Worker as two steps with the
    answer in between; what a Worker says of itself; \<open>hub_handle\<close> is \<open>handle\<close>.
  \<^item> \<open>Hub_Slots\<close>, \<open>Hub_Runs\<close>: the step relation \<open>hub_step\<close> of all operations in any order and with any
    failures.  The locales \<open>hub_rows\<close>, \<open>hub_tables\<close>, \<open>hub_stores\<close>, \<open>hub_core\<close> and \<open>hub_blind\<close> say which tables a property of
    the state may look at and carry it over all code that leaves those alone; they are interpreted for
    the assignment of tasks, for the rows of the stores and for the files of the sessions.
  \<^item> \<open>Hub_Settles\<close>, \<open>Hub_Stream\<close>, \<open>Hub_Safety\<close>, \<open>Hub_Sessions\<close>: the end of a task, the deferred writing of
    streamed events as a refinement of writing each at once (up to the flush of a terminal message or a
    disconnect, and with what a failing write loses), who may speak for a task, who is woken
    when a Worker goes, what a new connection of a machine loses, and which sessions its index may change.  \<open>Hub_Sample\<close> runs them on a hub.

  \<^bold>\<open>The runtime.\<close>
  \<^item> \<open>Task_State\<close> (\<open>task_state.py\<close>): the snapshot of a run and every operation on it.
  \<^item> \<open>Read_Ranges\<close>, \<open>Tool_Batches\<close>, \<open>Batch_Order\<close> (\<open>agent_loop.py\<close>): ranges of reads, repetition checks,
    deduplication and partition of a batch; the locale \<open>independent_calls\<close> shows that calls which
    do not depend on each other may run in any order.
  \<^item> \<open>Workspace_Tools\<close> (\<open>tools.py\<close>): the tools over a workspace of files.
  \<^item> \<open>Approval_Policy\<close>, \<open>Tool_Executor\<close> (\<open>approval.py\<close>, \<open>tool_executor.py\<close>, parts of \<open>runtime.py\<close>): a tool call
    from the model to its result.
  \<^item> \<open>Model_Reply\<close> (\<open>runtime.py\<close>): from the text of the model to a decision.
  \<^item> \<open>Agent_World\<close>, \<open>Plans\<close>, \<open>Review_Run\<close> (\<open>agent_loop.py\<close>, \<open>checkpoint.py\<close>, \<open>planning.py\<close>,
    \<open>evaluation/review_subagent.py\<close>): the state of the loop with a log of its calls, the acceptance
    criteria, plans, and the reviews with their two gates.  A review runs its tools past the executor;
    \<open>review_runs\<close> is the relation of the calls that one review makes, so that a check which its verdict
    rests on is one of its own.
  \<^item> \<open>Agent_Loop\<close> (\<open>agent_loop.py\<close>, \<open>run_lifecycle.py\<close>): the locals of \<open>_run_loop\<close> as the record \<open>loop_vars\<close>, a
    definition per branch of its body, the loop \<open>run_rounds\<close> and the run.
  \<^item> \<open>Agent_Runs\<close>, \<open>Loop_Log\<close>, \<open>Agent_Rounds\<close>: the theorems about the loop.  The locales \<open>quiet_log\<close> and
    \<open>tools_log\<close> carry a property of the log over all code that neither asks the model nor runs a
    tool; they are interpreted for the number of requests and for the order of requests and tools.
    \<open>Agent_Sample\<close> holds a runtime on which the examples run.
  \<^item> \<open>Completion_Gate\<close>, \<open>Native_Run\<close> (\<open>evaluation/review_gate.py\<close>, \<open>langgraph_pico/native_runner.py\<close>): the
    entry that the service calls, with the gate that a finished run must pass, and what becomes of a
    run that raises.
  \<^item> \<open>Durable_Memory\<close>, \<open>Working_Memory\<close>, \<open>Memory_Hooks\<close> (\<open>features/memory.py\<close>, parts of \<open>runtime.py\<close>): the files of
    the durable memory as texts, the memory of a session with its limits and its recall, and what
    the runtime writes into both.  Lines written are read back, and a promotion loses no clean note.
  \<^item> \<open>Prompt_Budget\<close> (\<open>context_manager.py\<close>): the sections of a prompt, their budgets, and the loop that
    shrinks them, with the bound that it reaches.

  \<^bold>\<open>Bounds and fuel.\<close>  No definition runs on fuel of its own.  The rounds of the loop are bounded by
  \<open>MAX_ATTEMPTS_SAFETY = 500\<close>, which \<open>run_rounds\<close> uses as its measure: every round that goes on counts one
  attempt.  A review makes at most \<open>REVIEW_MAX_STEPS = 5\<close> requests, as the code does.  The loop that
  shrinks a prompt ends because every turn lowers the budget of a section towards its floor.  The wait for a
  decision takes a list of what happens during its sleeps, which may end early; it is shown to return by
  the first turn that finds the approval decided, the run cancelled or the deadline reached.

  \<^bold>\<open>Not modelled.\<close>  The desktop client, HTTP routers, authentication, the provider clients, process
  control, the command line, the benchmark drivers and the services on the device.  Of the hub: the
  websockets and their errors, and the cancellation of a coroutine from outside; the handlers of one
  connection are atomic steps.  Texts in Chinese (two of the keywords by which a review rebuts its obstacles among them) and
  prompts are arguments.  The threads of a concurrent batch run
  in the order of declaration, which \<open>Batch_Order\<close> justifies.  Trace payloads, progress lines and
  durations are left out.
\<close>

end
